(* ===== verification/Prelude.thy ===== *)
theory Prelude
  imports Complex_Main "HOL-Library.Sublist"
begin

text \<open>
  Shared vocabulary of the development: identifiers, JSON values, Python string
  helpers (truthiness, \<open>or\<close>, \<open>startswith\<close>, \<open>partition\<close>, decimal printing), and
  tables kept as lists of rows with a key function, which is how every SQL table of
  the router is modelled.  A row list is the table in insertion order; where the SQL
  gives no \<open>ORDER BY\<close>, insertion order stands for the unspecified order.
\<close>

named_theorems table_simps \<open>lookup after update, insert and delete of keyed tables\<close>
named_theorems str_defs \<open>definitions of the string helpers\<close>

type_synonym agent_id = string
type_synonym task_id = string
type_synonym user_id = string
type_synonym session_id = string
type_synonym corr_id = string
type_synonym level = string
type_synonym time = rat

section \<open>JSON values\<close>

datatype json =
    JNull
  | JBool bool
  | JInt int
  | JStr string
  | JArr "json list"
  | JObj "(string \<times> json) list"

fun json_get :: "json \<Rightarrow> string \<Rightarrow> json option" where
  "json_get (JObj kvs) k = map_of kvs k"
| "json_get _ k = None"

section \<open>Python strings\<close>

text \<open>The truth value of an optional string: \<open>None\<close> and the empty string are false.\<close>

definition truthy :: "string option \<Rightarrow> bool" where
  "truthy s = (case s of None \<Rightarrow> False | Some x \<Rightarrow> x \<noteq> [])"

text \<open>Python's \<open>a or b\<close> on an optional string and a fallback.\<close>

definition py_or :: "string option \<Rightarrow> string \<Rightarrow> string" where
  "py_or s d = (case s of None \<Rightarrow> d | Some x \<Rightarrow> if x = [] then d else x)"

definition starts_with :: "string \<Rightarrow> string \<Rightarrow> bool" where
  "starts_with p s = (take (length p) s = p)"

definition ends_with :: "string \<Rightarrow> string \<Rightarrow> bool" where
  "ends_with p s = (length p \<le> length s \<and> drop (length s - length p) s = p)"

text \<open>\<open>s.partition(c)\<close>: the part before the first \<open>c\<close> and the part after it.\<close>

definition before_char :: "char \<Rightarrow> string \<Rightarrow> string" where
  "before_char c s = takeWhile (\<lambda>x. x \<noteq> c) s"

definition after_char :: "char \<Rightarrow> string \<Rightarrow> string" where
  "after_char c s = tl (dropWhile (\<lambda>x. x \<noteq> c) s)"

text \<open>\<open>s.split(c)\<close>.\<close>

fun split_char :: "char \<Rightarrow> string \<Rightarrow> string list" where
  "split_char c [] = [[]]"
| "split_char c (x # xs) =
     (if x = c then [] # split_char c xs
      else (case split_char c xs of [] \<Rightarrow> [[x]] | w # ws \<Rightarrow> (x # w) # ws))"

definition code :: "char \<Rightarrow> nat" where
  "code c = of_char c"

definition is_lower :: "char \<Rightarrow> bool" where
  "is_lower c = (97 \<le> code c \<and> code c \<le> 122)"

definition is_upper :: "char \<Rightarrow> bool" where
  "is_upper c = (65 \<le> code c \<and> code c \<le> 90)"

definition is_digit :: "char \<Rightarrow> bool" where
  "is_digit c = (48 \<le> code c \<and> code c \<le> 57)"

definition newline :: char where
  "newline = CHR 0x0A"

text \<open>
  A regular expression anchored with \<open>$\<close> also matches before one trailing newline.
  \<open>chomp s\<close> is the text such an expression compares with its body.
\<close>

definition chomp :: "string \<Rightarrow> string" where
  "chomp s = (if s \<noteq> [] \<and> last s = newline then butlast s else s)"

section \<open>Decimal numbers\<close>

definition digit_char :: "nat \<Rightarrow> char" where
  "digit_char d = char_of (48 + d)"

fun show_nat :: "nat \<Rightarrow> string" where
  "show_nat n = (if n < 10 then [digit_char n] else show_nat (n div 10) @ [digit_char (n mod 10)])"

declare show_nat.simps [simp del]

definition show_int :: "int \<Rightarrow> string" where
  "show_int i = (if i < 0 then CHR ''-'' # show_nat (nat (- i)) else show_nat (nat i))"

definition parse_nat :: "string \<Rightarrow> nat" where
  "parse_nat s = foldl (\<lambda>a c. a * 10 + (code c - 48)) 0 s"

declare starts_with_def [str_defs] ends_with_def [str_defs] before_char_def [str_defs]
  after_char_def [str_defs] code_def [str_defs] is_lower_def [str_defs] is_upper_def [str_defs]
  is_digit_def [str_defs] newline_def [str_defs] chomp_def [str_defs]

section \<open>Python's \<open>repr\<close> of strings\<close>

definition hex_digit :: "nat \<Rightarrow> char" where
  "hex_digit d = (if d < 10 then char_of (48 + d) else char_of (87 + d))"

text \<open>
  \<open>repr\<close> of an ASCII string: single quotes unless the text has a single quote and no
  double quote; the quote, backslash, newline, return and tab are escaped, other control
  characters are printed as \<open>\x..\<close>.
\<close>

definition repr_quote :: "string \<Rightarrow> char" where
  "repr_quote s = (if CHR 0x27 \<in> set s \<and> CHR 0x22 \<notin> set s then CHR 0x22 else CHR 0x27)"

definition repr_char :: "char \<Rightarrow> char \<Rightarrow> string" where
  "repr_char q c =
     (if c = q \<or> c = CHR 0x5C then [CHR 0x5C, c]
      else if c = CHR 0x0A then [CHR 0x5C, CHR ''n'']
      else if c = CHR 0x0D then [CHR 0x5C, CHR ''r'']
      else if c = CHR 0x09 then [CHR 0x5C, CHR ''t'']
      else if code c < 32 \<or> code c = 127
        then [CHR 0x5C, CHR ''x'', hex_digit (code c div 16), hex_digit (code c mod 16)]
      else [c])"

definition py_repr :: "string \<Rightarrow> string" where
  "py_repr s = (let q = repr_quote s in [q] @ concat (map (repr_char q) s) @ [q])"

definition py_repr_opt :: "string option \<Rightarrow> string" where
  "py_repr_opt s = (case s of None \<Rightarrow> ''None'' | Some x \<Rightarrow> py_repr x)"

fun join_with :: "string \<Rightarrow> string list \<Rightarrow> string" where
  "join_with sep [] = []"
| "join_with sep [x] = x"
| "join_with sep (x # y # zs) = x @ sep @ join_with sep (y # zs)"

definition py_repr_list :: "string list \<Rightarrow> string" where
  "py_repr_list xs = ''['' @ join_with '', '' (map py_repr xs) @ '']''"

text \<open>\<open>str(x)\<close> inside an f-string for an optional string.\<close>

definition str_opt :: "string option \<Rightarrow> string" where
  "str_opt s = (case s of None \<Rightarrow> ''None'' | Some x \<Rightarrow> x)"

section \<open>Keyed tables\<close>

text \<open>
  A table is a list of rows; \<open>key\<close> reads a row's primary key.  \<open>tbl_get\<close> is
  \<open>SELECT ... WHERE key = k\<close>, \<open>tbl_upd\<close> is \<open>UPDATE ... WHERE key = k\<close>,
  \<open>tbl_del\<close> is \<open>DELETE ... WHERE key = k\<close>; \<open>tbl_ok\<close> says the key is unique.
\<close>

definition tbl_get :: "('r \<Rightarrow> 'k) \<Rightarrow> 'k \<Rightarrow> 'r list \<Rightarrow> 'r option" where
  "tbl_get key k t = find (\<lambda>r. key r = k) t"

definition tbl_upd :: "('r \<Rightarrow> 'k) \<Rightarrow> 'k \<Rightarrow> ('r \<Rightarrow> 'r) \<Rightarrow> 'r list \<Rightarrow> 'r list" where
  "tbl_upd key k f t = map (\<lambda>r. if key r = k then f r else r) t"

definition tbl_del :: "('r \<Rightarrow> 'k) \<Rightarrow> 'k \<Rightarrow> 'r list \<Rightarrow> 'r list" where
  "tbl_del key k t = filter (\<lambda>r. key r \<noteq> k) t"

definition tbl_ok :: "('r \<Rightarrow> 'k) \<Rightarrow> 'r list \<Rightarrow> bool" where
  "tbl_ok key t = distinct (map key t)"

lemma find_SomeD: "find P xs = Some x \<Longrightarrow> x \<in> set xs \<and> P x"
  by (auto simp: find_Some_iff)

lemma tbl_get_Nil [table_simps]: "tbl_get key k [] = None"
  by (simp add: tbl_get_def)

lemma tbl_get_Cons [table_simps]:
  "tbl_get key k (r # t) = (if key r = k then Some r else tbl_get key k t)"
  by (simp add: tbl_get_def)

lemma tbl_get_append [table_simps]:
  "tbl_get key k (t @ u) = (case tbl_get key k t of None \<Rightarrow> tbl_get key k u | Some r \<Rightarrow> Some r)"
  by (induction t) (auto simp: table_simps)

lemma tbl_get_SomeD: "tbl_get key k t = Some r \<Longrightarrow> r \<in> set t \<and> key r = k"
  by (auto simp: tbl_get_def find_Some_iff)

lemma tbl_get_None_iff: "tbl_get key k t = None \<longleftrightarrow> k \<notin> key ` set t"
  by (auto simp: tbl_get_def find_None_iff)

lemma tbl_get_in_set: "tbl_ok key t \<Longrightarrow> r \<in> set t \<Longrightarrow> tbl_get key (key r) t = Some r"
  by (induction t) (auto simp: table_simps tbl_ok_def image_iff)

lemma tbl_get_upd [table_simps]:
  assumes "\<And>r. key (f r) = key r"
  shows "tbl_get key k (tbl_upd key j f t) =
    (if k = j then map_option f (tbl_get key k t) else tbl_get key k t)"
  by (induction t) (auto simp: table_simps tbl_upd_def assms)

lemma tbl_upd_keys: "(\<And>r. key (f r) = key r) \<Longrightarrow> map key (tbl_upd key k f t) = map key t"
  by (simp add: tbl_upd_def comp_def)

lemma tbl_ok_upd: "(\<And>r. key (f r) = key r) \<Longrightarrow> tbl_ok key (tbl_upd key k f t) = tbl_ok key t"
  by (simp add: tbl_ok_def tbl_upd_keys)

lemma tbl_get_del [table_simps]:
  "tbl_get key k (tbl_del key j t) = (if k = j then None else tbl_get key k t)"
  by (induction t) (auto simp: table_simps tbl_del_def)

lemma tbl_ok_del: "tbl_ok key t \<Longrightarrow> tbl_ok key (tbl_del key k t)"
  by (simp add: tbl_ok_def tbl_del_def distinct_map_filter)

lemma tbl_ok_snoc: "tbl_ok key (t @ [r]) \<longleftrightarrow> tbl_ok key t \<and> tbl_get key (key r) t = None"
  by (auto simp: tbl_ok_def tbl_get_None_iff)

lemma set_tbl_upd:
  "set (tbl_upd key k f t) = {r \<in> set t. key r \<noteq> k} \<union> f ` {r \<in> set t. key r = k}"
  by (auto simp: tbl_upd_def)

lemma tbl_upd_absent: "tbl_get key k t = None \<Longrightarrow> tbl_upd key k f t = t"
  by (induction t) (auto simp: table_simps tbl_upd_def split: if_splits)

section \<open>Errors as values\<close>

text \<open>Sequencing of computations that may raise: \<open>Inl\<close> is the exception.\<close>

definition bindE :: "'e + 'a \<Rightarrow> ('a \<Rightarrow> 'e + 'b) \<Rightarrow> 'e + 'b" where
  "bindE m f = (case m of Inl e \<Rightarrow> Inl e | Inr a \<Rightarrow> f a)"

lemma bindE_simps [simp]: "bindE (Inl e) f = Inl e" "bindE (Inr a) f = f a"
  by (simp_all add: bindE_def)

lemma bindE_Inr: "bindE m f = Inr b \<longleftrightarrow> (\<exists>a. m = Inr a \<and> f a = Inr b)"
  by (cases m) auto

lemma bindE_Inl: "bindE m f = Inl e \<longleftrightarrow> m = Inl e \<or> (\<exists>a. m = Inr a \<and> f a = Inl e)"
  by (cases m) auto

section \<open>Facts about the string helpers\<close>

lemma starts_with_iff: "starts_with p s \<longleftrightarrow> (\<exists>t. s = p @ t)"
  by (metis append_eq_conv_conj append_take_drop_id starts_with_def)

lemma ends_with_iff: "ends_with p s \<longleftrightarrow> (\<exists>t. s = t @ p)"
proof
  assume e: "ends_with p s"
  then have "s = take (length s - length p) s @ p"
    by (metis append_take_drop_id ends_with_def)
  then show "\<exists>t. s = t @ p" by blast
qed (auto simp: ends_with_def)

lemma partition_join: "c \<in> set s \<Longrightarrow> s = before_char c s @ c # after_char c s"
  unfolding before_char_def after_char_def
  by (induction s) auto

lemma before_char_notin: "c \<notin> set (before_char c s)"
  unfolding before_char_def by (metis (mono_tags) set_takeWhileD)

lemma chomp_newline [simp]: "chomp (s @ [newline]) = s"
  by (simp add: chomp_def)

lemma code_digit: "d < 10 \<Longrightarrow> code (digit_char d) = 48 + d"
  by (simp add: code_def digit_char_def of_char_of)

lemma is_digit_digit_char: "d < 10 \<Longrightarrow> is_digit (digit_char d)"
  by (simp add: is_digit_def code_digit)

lemma show_nat_digits: "list_all is_digit (show_nat n)"
proof (induction n rule: show_nat.induct)
  case (1 n)
  then show ?case
    by (subst show_nat.simps) (simp add: is_digit_digit_char list_all_append)
qed

lemma parse_show_nat: "parse_nat (show_nat n) = n"
proof (induction n rule: show_nat.induct)
  case (1 n)
  show ?case
  proof (cases "n < 10")
    case True
    then show ?thesis by (subst show_nat.simps) (simp add: parse_nat_def code_digit)
  next
    case False
    with 1 have "parse_nat (show_nat (n div 10)) = n div 10" by simp
    with False show ?thesis
      by (subst show_nat.simps) (simp add: parse_nat_def code_digit)
  qed
qed

lemma show_nat_nonempty: "show_nat n \<noteq> []"
  by (subst show_nat.simps) simp

lemma py_or_nonempty: "d \<noteq> [] \<Longrightarrow> py_or s d \<noteq> []"
  by (simp add: py_or_def split: option.split)

section \<open>Python dictionaries in insertion order\<close>

text \<open>
  \<open>d[k] = v\<close> keeps the position of an existing key and appends a new one; \<open>d.pop(k)\<close>
  removes the key.  Reading is \<open>map_of\<close>.
\<close>

fun dict_set :: "'k \<Rightarrow> 'v \<Rightarrow> ('k \<times> 'v) list \<Rightarrow> ('k \<times> 'v) list" where
  "dict_set k v [] = [(k, v)]"
| "dict_set k v ((k', v') # d) = (if k' = k then (k, v) # d else (k', v') # dict_set k v d)"

definition dict_pop :: "'k \<Rightarrow> ('k \<times> 'v) list \<Rightarrow> ('k \<times> 'v) list" where
  "dict_pop k d = filter (\<lambda>e. fst e \<noteq> k) d"

lemma map_of_dict_set [table_simps]: "map_of (dict_set k v d) = (map_of d)(k \<mapsto> v)"
  by (induction d) (auto simp: fun_eq_iff)

lemma map_of_dict_pop [table_simps]: "map_of (dict_pop k d) = (map_of d)(k := None)"
  by (induction d) (auto simp: dict_pop_def fun_eq_iff)

lemma keys_dict_set: "fst ` set (dict_set k v d) = insert k (fst ` set d)"
  by (simp add: map_of_dict_set flip: dom_map_of_conv_image_fst)

lemma distinct_dict_set: "distinct (map fst d) \<Longrightarrow> distinct (map fst (dict_set k v d))"
proof (induction d)
  case (Cons e d)
  then show ?case using keys_dict_set [of k v d] by (cases e) (auto simp flip: set_map)
qed simp

lemma distinct_dict_pop: "distinct (map fst d) \<Longrightarrow> distinct (map fst (dict_pop k d))"
  by (simp add: dict_pop_def distinct_map_filter)

lemma keys_dict_pop: "fst ` set (dict_pop k d) = fst ` set d - {k}"
  by (auto simp: dict_pop_def)

lemma length_dict_set:
  "length (dict_set k v d) = (if k \<in> fst ` set d then length d else Suc (length d))"
  by (induction d rule: dict_set.induct [of _ k v]) auto

lemma length_dict_pop: "length (dict_pop k d) \<le> length d"
  by (simp add: dict_pop_def)

end
