(* ===== verification/Principals.thy ===== *)
theory Principals
  imports Prelude
begin

text \<open>
  \<open>bp_router/principals.py\<close>: the user-level grammar (\<open>admin\<close>, \<open>service\<close>,
  \<open>tierN\<close>) and the gate \<open>user_level_satisfies\<close> that the ACL evaluator and the LLM
  preset gate share.  The locale \<open>level_gate\<close> is the interface those two clients rely
  on; its interpretation on the model is \<open>principals\<close>.
\<close>

section \<open>Level grammar\<close>

definition all_digits :: "string \<Rightarrow> bool" where
  "all_digits s = (s \<noteq> [] \<and> list_all is_digit s)"

text \<open>\<open>tier[0-9]+\<close>, on the text without the trailing newline that \<open>$\<close> tolerates.\<close>

definition tier_body :: "string \<Rightarrow> bool" where
  "tier_body s = (starts_with ''tier'' s \<and> all_digits (drop 4 s))"

definition is_valid_level :: "level \<Rightarrow> bool" where
  "is_valid_level lvl =
     (let b = chomp lvl in b = ''admin'' \<or> b = ''service'' \<or> tier_body b)"

definition tier_index :: "level option \<Rightarrow> int option" where
  "tier_index lvl =
     (case lvl of
        None \<Rightarrow> None
      | Some l \<Rightarrow>
          if l = ''admin'' \<or> l = ''service'' then Some (- 1)
          else if l = [] then None
          else if \<not> tier_body (chomp l) then None
          else Some (int (parse_nat (drop 4 (chomp l)))))"

definition level_satisfies_tier :: "level option \<Rightarrow> int \<Rightarrow> bool" where
  "level_satisfies_tier lvl max_tier =
     (case tier_index lvl of None \<Rightarrow> False | Some idx \<Rightarrow> idx \<le> max_tier)"

definition user_level_satisfies :: "level option \<Rightarrow> level \<Rightarrow> bool" where
  "user_level_satisfies actual rule_level =
     (if rule_level = ''*'' then True
      else if rule_level = ''admin'' \<or> rule_level = ''service'' then actual = Some rule_level
      else (case tier_index (Some rule_level) of
              None \<Rightarrow> False
            | Some idx \<Rightarrow> level_satisfies_tier actual idx))"

definition SERVICE_USER_ID_PREFIX :: string where
  "SERVICE_USER_ID_PREFIX = ''usr_service_''"

definition service_user_id_for_agent :: "agent_id \<Rightarrow> user_id" where
  "service_user_id_for_agent a = SERVICE_USER_ID_PREFIX @ a"

definition MCP_BRIDGE_USER_ID :: user_id where
  "MCP_BRIDGE_USER_ID = ''service_mcp''"

section \<open>The interface of the gate\<close>

text \<open>
  What the clients of the gate rely on: \<open>*\<close> admits everyone, a gate that names a rank
  (a tier) admits every level of that rank or a smaller one, and nobody of no rank.
\<close>

locale level_gate =
  fixes sat :: "level option \<Rightarrow> level \<Rightarrow> bool"
    and rank :: "level option \<Rightarrow> int option"
    and exact :: "level \<Rightarrow> bool"
  assumes star: "sat a ''*''"
    and by_rank: "r \<noteq> ''*'' \<Longrightarrow> \<not> exact r \<Longrightarrow> sat a r \<Longrightarrow>
          \<exists>i j. rank a = Some i \<and> rank (Some r) = Some j \<and> i \<le> j"
    and rank_by: "r \<noteq> ''*'' \<Longrightarrow> \<not> exact r \<Longrightarrow> rank a = Some i \<Longrightarrow> rank (Some r) = Some j \<Longrightarrow>
          i \<le> j \<Longrightarrow> sat a r"
    and exact_only: "r \<noteq> ''*'' \<Longrightarrow> exact r \<Longrightarrow> sat a r \<longleftrightarrow> a = Some r"
begin

text \<open>A better (smaller) rank passes every rank gate that a worse one passes.\<close>

lemma rank_mono:
  assumes "rank a = Some i" "rank b = Some j" "i \<le> j" "\<not> exact r" "sat b r"
  shows "sat a r"
proof (cases "r = ''*''")
  case False
  with by_rank assms(4,5) obtain k where "rank (Some r) = Some k" "j \<le> k"
    by (metis assms(2) option.inject)
  with rank_by False assms(1,3,4) show ?thesis by auto
qed (simp add: star)

text \<open>Levels without a rank pass the \<open>*\<close> gates and nothing else, except exact names.\<close>

lemma unranked: "rank a = None \<Longrightarrow> \<not> exact r \<Longrightarrow> sat a r \<longleftrightarrow> r = ''*''"
  using by_rank star by fastforce

text \<open>A list of gated items: what a worse rank sees, a better rank sees.\<close>

lemma visible_mono:
  assumes "rank a = Some i" "rank b = Some j" "i \<le> j" "\<forall>x \<in> set xs. \<not> exact (gate x)"
  shows "set (filter (\<lambda>x. sat b (gate x)) xs) \<subseteq> set (filter (\<lambda>x. sat a (gate x)) xs)"
  using rank_mono [OF assms(1-3)] assms(4) by auto

end

abbreviation exact_level :: "level \<Rightarrow> bool" where
  "exact_level r \<equiv> r = ''admin'' \<or> r = ''service''"

interpretation principals: level_gate user_level_satisfies tier_index exact_level
  by unfold_locales
    (auto simp: user_level_satisfies_def level_satisfies_tier_def split: option.splits if_splits)

section \<open>Lemmas\<close>

lemma tier_index_ge: "tier_index lvl = Some i \<Longrightarrow> - 1 \<le> i"
  by (auto simp: tier_index_def split: option.splits if_splits)

lemma tier_index_admin [simp]: "tier_index (Some ''admin'') = Some (- 1)"
  "tier_index (Some ''service'') = Some (- 1)" "tier_index None = None"
  by (simp_all add: tier_index_def)

lemma tier_body_show: "tier_body (''tier'' @ show_nat n)"
  by (simp add: tier_body_def starts_with_def all_digits_def show_nat_digits show_nat_nonempty)

lemma last_show_nat: "is_digit (last (show_nat n))"
  using show_nat_digits show_nat_nonempty by (metis last_in_set list_all_iff)

lemma newline_no_digit: "\<not> is_digit newline"
  by (simp add: is_digit_def newline_def code_def)

lemma chomp_tier: "chomp (''tier'' @ show_nat n) = ''tier'' @ show_nat n"
  using last_show_nat [of n] newline_no_digit show_nat_nonempty [of n]
  by (auto simp: chomp_def)

lemma tier_index_tier: "tier_index (Some (''tier'' @ show_nat n)) = Some (int n)"
  using tier_body_show [of n] chomp_tier [of n]
  by (auto simp: tier_index_def parse_show_nat)

lemma satisfies_tier_iff:
  "user_level_satisfies actual (''tier'' @ show_nat n) \<longleftrightarrow>
     (\<exists>i. tier_index actual = Some i \<and> i \<le> int n)"
  using tier_index_tier [of n]
  by (auto simp: user_level_satisfies_def level_satisfies_tier_def split: option.splits)

end
