(* ===== verification/Acl.thy ===== *)
theory Acl
  imports Principals "HOL-Library.Multiset"
begin

text \<open>
  \<open>bp_router/acl.py\<close> and \<open>bp_router/visibility.py\<close>: the firewall-style ACL.  The
  identifier grammars, the rule record with its validators, pattern matching, the
  first-match evaluator with its optional trace, the catalog projection, the metric
  labels and the sorted rule store.
\<close>

section \<open>Identifier grammars\<close>

definition group_char :: "char \<Rightarrow> bool" where
  "group_char c = (is_lower c \<or> is_digit c \<or> c \<in> {CHR ''_'', CHR '':'', CHR ''.'', CHR ''-''})"

definition cap_char :: "char \<Rightarrow> bool" where
  "cap_char c = (is_lower c \<or> is_digit c \<or> c = CHR ''_'')"

definition agent_char :: "char \<Rightarrow> bool" where
  "agent_char c = (is_lower c \<or> is_upper c \<or> is_digit c \<or> c = CHR ''_'' \<or> c = CHR ''-'')"

definition match_agent_id :: "string \<Rightarrow> bool" where
  "match_agent_id s = (case chomp s of
     [] \<Rightarrow> False
   | c # cs \<Rightarrow> (is_lower c \<or> is_upper c \<or> c = CHR ''_'') \<and> length cs \<le> 63 \<and> list_all agent_char cs)"

definition match_group_name :: "string \<Rightarrow> bool" where
  "match_group_name s = (case chomp s of
     [] \<Rightarrow> False
   | c # cs \<Rightarrow> is_lower c \<and> length cs \<le> 63 \<and> list_all group_char cs)"

text \<open>Dotted names: a first segment that starts with a letter, then non-empty segments.\<close>

fun dotted_segments :: "string list \<Rightarrow> bool" where
  "dotted_segments [] = False"
| "dotted_segments (w # ws) =
     ((case w of [] \<Rightarrow> False | c # cs \<Rightarrow> is_lower c \<and> list_all cap_char cs) \<and>
      list_all (\<lambda>v. v \<noteq> [] \<and> list_all cap_char v) ws)"

definition match_capability :: "string \<Rightarrow> bool" where
  "match_capability s =
     (let ws = split_char CHR ''.'' (chomp s) in dotted_segments ws \<and> 2 \<le> length ws)"

definition match_capability_prefix :: "string \<Rightarrow> bool" where
  "match_capability_prefix s = dotted_segments (split_char CHR ''.'' (chomp s))"

definition is_capability_prefix_glob :: "string \<Rightarrow> bool" where
  "is_capability_prefix_glob cap_part =
     (if \<not> ends_with ''.*'' cap_part then False
      else match_capability_prefix (take (length cap_part - 2) cap_part))"

definition is_valid_pattern :: "string \<Rightarrow> bool" where
  "is_valid_pattern pattern =
     (if starts_with ''@'' pattern then match_agent_id (drop 1 pattern)
      else if CHR ''/'' \<notin> set pattern then False
      else let group_part = before_char CHR ''/'' pattern;
               cap_part = after_char CHR ''/'' pattern
           in if CHR ''/'' \<in> set cap_part then False
              else (group_part = ''*'' \<or> match_group_name group_part) \<and>
                   (cap_part = ''*'' \<or> match_capability cap_part \<or>
                    is_capability_prefix_glob cap_part))"

definition is_valid_rule_user_level :: "string \<Rightarrow> bool" where
  "is_valid_rule_user_level s = (chomp s = ''*'' \<or> is_valid_level s)"

section \<open>Rules and decisions\<close>

datatype effect = Allow | Deny

record rule =
  rule_id :: "string option"
  ord :: nat
  rule_name :: "string option"
  effect :: effect
  rule_level :: level
  caller_pattern :: string
  callee_pattern :: string

text \<open>The field validators: what a rule must satisfy to be constructed at all.\<close>

definition rule_valid :: "rule \<Rightarrow> bool" where
  "rule_valid r =
     (is_valid_rule_user_level (rule_level r) \<and> is_valid_pattern (caller_pattern r) \<and>
      is_valid_pattern (callee_pattern r))"

record decision =
  allow :: bool
  decision_rule :: string

definition rule_label :: "rule \<Rightarrow> string" where
  "rule_label r = py_or (rule_name r) (py_or (rule_id r) ''<unnamed>'')"

definition decision_deny :: "string \<Rightarrow> decision" where
  "decision_deny reason = \<lparr>allow = False, decision_rule = ''<'' @ reason @ ''>''\<rparr>"

definition allow_via :: "rule \<Rightarrow> decision" where
  "allow_via r = \<lparr>allow = True, decision_rule = rule_label r\<rparr>"

definition deny_via :: "rule \<Rightarrow> decision" where
  "deny_via r = \<lparr>allow = False, decision_rule = rule_label r\<rparr>"

section \<open>Pattern matching\<close>

record agent_view =
  view_id :: agent_id
  view_groups :: "string list"
  view_caps :: "string list"

definition pattern_matches :: "string \<Rightarrow> agent_view \<Rightarrow> bool" where
  "pattern_matches pattern v =
     (if starts_with ''@'' pattern then drop 1 pattern = view_id v
      else let group_part = before_char CHR ''/'' pattern;
               cap_part = after_char CHR ''/'' pattern;
               group_ok = (group_part = ''*'' \<or> group_part \<in> set (view_groups v));
               cap_ok = (if cap_part = ''*'' then True
                         else if ends_with ''.*'' cap_part
                           then list_ex (\<lambda>c. starts_with (take (length cap_part - 1) cap_part) c)
                                  (view_caps v)
                         else cap_part \<in> set (view_caps v))
           in group_ok \<and> cap_ok)"

section \<open>Evaluation\<close>

datatype skip = SkipLevel | SkipCaller | SkipCallee

record trace_step =
  step_rule_id :: "string option"
  step_rule_name :: "string option"
  step_matched :: bool
  step_skipped :: "skip option"

definition trace_add :: "trace_step list option \<Rightarrow> rule \<Rightarrow> bool \<Rightarrow> skip option \<Rightarrow> trace_step list option" where
  "trace_add tr r m s = map_option (\<lambda>xs. xs @
     [\<lparr>step_rule_id = rule_id r, step_rule_name = rule_name r, step_matched = m, step_skipped = s\<rparr>]) tr"

fun eval_rules :: "rule list \<Rightarrow> agent_view \<Rightarrow> agent_view \<Rightarrow> level option \<Rightarrow>
    trace_step list option \<Rightarrow> decision \<times> trace_step list option" where
  "eval_rules [] caller callee lvl tr = (decision_deny ''default'', tr)"
| "eval_rules (r # rs) caller callee lvl tr =
     (if \<not> user_level_satisfies lvl (rule_level r)
        then eval_rules rs caller callee lvl (trace_add tr r False (Some SkipLevel))
      else if \<not> pattern_matches (caller_pattern r) caller
        then eval_rules rs caller callee lvl (trace_add tr r False (Some SkipCaller))
      else if \<not> pattern_matches (callee_pattern r) callee
        then eval_rules rs caller callee lvl (trace_add tr r False (Some SkipCallee))
      else (if effect r = Allow then allow_via r else deny_via r, trace_add tr r True None))"

definition is_allowed_trace :: "rule list \<Rightarrow> agent_view \<Rightarrow> agent_view \<Rightarrow> level option \<Rightarrow>
    trace_step list option \<Rightarrow> decision \<times> trace_step list option" where
  "is_allowed_trace rules caller callee lvl tr =
     (if view_id caller = view_id callee
      then (decision_deny ''self_call'',
            map_option (\<lambda>xs. xs @ [\<lparr>step_rule_id = None, step_rule_name = Some ''<self_call>'',
                                     step_matched = True, step_skipped = None\<rparr>]) tr)
      else eval_rules rules caller callee lvl tr)"

definition is_allowed :: "rule list \<Rightarrow> agent_view \<Rightarrow> agent_view \<Rightarrow> level option \<Rightarrow> decision" where
  "is_allowed rules caller callee lvl = fst (is_allowed_trace rules caller callee lvl None)"

definition compute_callable_user_levels ::
    "rule list \<Rightarrow> agent_view \<Rightarrow> agent_view \<Rightarrow> level list \<Rightarrow> level list" where
  "compute_callable_user_levels rules caller callee levels =
     filter (\<lambda>lvl. allow (is_allowed rules caller callee (Some lvl))) levels"

definition is_visible :: "rule list \<Rightarrow> agent_view \<Rightarrow> agent_view \<Rightarrow> level list \<Rightarrow> bool" where
  "is_visible rules caller callee levels =
     (compute_callable_user_levels rules caller callee levels \<noteq> [])"

text \<open>\<open>None\<close> is the \<open>ValueError\<close> of a negative tier.\<close>

definition deployment_levels :: "int \<Rightarrow> level list option" where
  "deployment_levels max_tier =
     (if max_tier < 0 then None
      else Some (''admin'' # ''service'' #
                 map (\<lambda>i. ''tier'' @ show_nat i) [0 ..< nat max_tier + 1]))"

section \<open>Metric labels\<close>

definition metric_effect :: "decision \<Rightarrow> string" where
  "metric_effect d =
     (if decision_rule d = ''<default>'' then ''default_deny''
      else if decision_rule d = ''<self_call>'' then ''self_deny''
      else if allow d then ''allow'' else ''deny'')"

definition METRIC_RULE_NAME_MAX_LEN :: nat where
  "METRIC_RULE_NAME_MAX_LEN = 64"

definition metric_char :: "char \<Rightarrow> bool" where
  "metric_char c = (is_lower c \<or> is_upper c \<or> is_digit c \<or>
     c \<in> {CHR ''_'', CHR '':'', CHR ''.'', CHR ''-'', CHR ''<'', CHR ''>''})"

definition bound_metric_label :: "string option \<Rightarrow> string" where
  "bound_metric_label name = (case name of None \<Rightarrow> ''<unnamed>'' | Some s \<Rightarrow>
     if s = [] then ''<unnamed>''
     else take METRIC_RULE_NAME_MAX_LEN (map (\<lambda>c. if metric_char c then c else CHR ''_'') s))"

definition record_metric :: "decision \<Rightarrow> string \<times> string \<times> string" where
  "record_metric d = (''permission'', metric_effect d, bound_metric_label (Some (decision_rule d)))"

definition record_visibility_metric :: "decision \<Rightarrow> string \<times> string \<times> string" where
  "record_visibility_metric d = (''visibility'', metric_effect d, ''<batch>'')"

text \<open>The evaluator the router calls: the decision and the counter labels it records.\<close>

definition is_allowed_for :: "rule list \<Rightarrow> agent_view \<Rightarrow> agent_view \<Rightarrow> level option \<Rightarrow>
    decision \<times> (string \<times> string \<times> string)" where
  "is_allowed_for rules caller callee lvl =
     (let d = is_allowed rules caller callee lvl in (d, record_metric d))"

section \<open>The rule store\<close>

definition RuleSet :: "rule list \<Rightarrow> rule list" where
  "RuleSet rules = sort_key ord rules"

definition replace_rules :: "rule list \<Rightarrow> rule list \<Rightarrow> rule list" where
  "replace_rules old rules = sort_key ord rules"

section \<open>The specification: first applicable rule, default deny\<close>

definition rule_applies :: "rule \<Rightarrow> agent_view \<Rightarrow> agent_view \<Rightarrow> level option \<Rightarrow> bool" where
  "rule_applies r caller callee lvl =
     (user_level_satisfies lvl (rule_level r) \<and> pattern_matches (caller_pattern r) caller \<and>
      pattern_matches (callee_pattern r) callee)"

definition acl_spec :: "rule list \<Rightarrow> agent_view \<Rightarrow> agent_view \<Rightarrow> level option \<Rightarrow> decision" where
  "acl_spec rules caller callee lvl =
     (if view_id caller = view_id callee then decision_deny ''self_call''
      else case find (\<lambda>r. rule_applies r caller callee lvl) rules of
             None \<Rightarrow> decision_deny ''default''
           | Some r \<Rightarrow> \<lparr>allow = (effect r = Allow), decision_rule = rule_label r\<rparr>)"

lemma eval_rules_find:
  "fst (eval_rules rs caller callee lvl tr) =
     (case find (\<lambda>r. rule_applies r caller callee lvl) rs of
        None \<Rightarrow> decision_deny ''default''
      | Some r \<Rightarrow> \<lparr>allow = (effect r = Allow), decision_rule = rule_label r\<rparr>)"
  by (induction rs arbitrary: tr)
    (auto simp: rule_applies_def allow_via_def deny_via_def)

lemma is_allowed_spec: "is_allowed rules caller callee lvl = acl_spec rules caller callee lvl"
  by (simp add: is_allowed_def is_allowed_trace_def acl_spec_def eval_rules_find)

text \<open>
  Property C19.  The evaluator implements the documented contract: a self-call is denied,
  otherwise the first rule whose level gate, caller pattern and callee pattern all match
  decides, and no match denies.
\<close>

theorem acl_first_match: "is_allowed rules caller callee lvl = acl_spec rules caller callee lvl"
  by (rule is_allowed_spec)

lemma is_allowed_iff:
  "allow (is_allowed rules caller callee lvl) \<longleftrightarrow> view_id caller \<noteq> view_id callee \<and>
     (\<exists>r. find (\<lambda>r. rule_applies r caller callee lvl) rules = Some r \<and> effect r = Allow)"
  by (auto simp: is_allowed_def is_allowed_trace_def eval_rules_find decision_deny_def
      split: option.splits)

lemma is_allowed_Nil: "\<not> allow (is_allowed [] caller callee lvl)"
  by (simp add: is_allowed_iff)

lemma is_allowed_self: "view_id caller = view_id callee \<Longrightarrow> \<not> allow (is_allowed rules caller callee lvl)"
  by (simp add: is_allowed_iff)

text \<open>The steps a trace records: one per rule considered, the last one being the match.\<close>

definition step_of :: "agent_view \<Rightarrow> agent_view \<Rightarrow> level option \<Rightarrow> rule \<Rightarrow> trace_step" where
  "step_of caller callee lvl r =
     \<lparr>step_rule_id = rule_id r, step_rule_name = rule_name r,
      step_matched = rule_applies r caller callee lvl,
      step_skipped =
        (if \<not> user_level_satisfies lvl (rule_level r) then Some SkipLevel
         else if \<not> pattern_matches (caller_pattern r) caller then Some SkipCaller
         else if \<not> pattern_matches (callee_pattern r) callee then Some SkipCallee
         else None)\<rparr>"

fun considered :: "('a \<Rightarrow> bool) \<Rightarrow> 'a list \<Rightarrow> 'a list" where
  "considered P [] = []"
| "considered P (x # xs) = (if P x then [x] else x # considered P xs)"

lemma eval_rules_trace:
  "snd (eval_rules rs caller callee lvl (Some tr)) =
     Some (tr @ map (step_of caller callee lvl) (considered (\<lambda>r. rule_applies r caller callee lvl) rs))"
  by (induction rs arbitrary: tr)
    (auto simp: trace_add_def step_of_def rule_applies_def)

text \<open>
  Asking for a trace (the simulate endpoint) never changes the decision, and
  between two different agents the trace is exactly one step per rule considered, each
  with the reason it was skipped, ending with the deciding rule.
\<close>

theorem acl_trace_faithful:
  assumes "view_id caller \<noteq> view_id callee"
  shows "is_allowed_trace rules caller callee lvl (Some []) =
    (is_allowed rules caller callee lvl,
     Some (map (step_of caller callee lvl)
             (considered (\<lambda>r. rule_applies r caller callee lvl) rules)))"
  using assms
  by (simp add: is_allowed_def is_allowed_trace_def eval_rules_trace prod_eq_iff eval_rules_find)

definition ex_agent :: "agent_id \<Rightarrow> string list \<Rightarrow> string list \<Rightarrow> agent_view" where
  "ex_agent i gs cs = \<lparr>view_id = i, view_groups = gs, view_caps = cs\<rparr>"

definition ex_rule :: "effect \<Rightarrow> level \<Rightarrow> string \<Rightarrow> string \<Rightarrow> rule" where
  "ex_rule e l c d = \<lparr>rule_id = None, ord = 0, rule_name = Some ''r'', effect = e,
     rule_level = l, caller_pattern = c, callee_pattern = d\<rparr>"

theorem acl_trace_faithful_witness:
  "view_id (ex_agent ''orch'' [''l0''] []) \<noteq> view_id (ex_agent ''sbx'' [''l1''] [''tool.bash'']) \<and>
   is_allowed_trace [ex_rule Allow ''tier1'' ''l0/*'' ''*/tool.*'']
     (ex_agent ''orch'' [''l0''] []) (ex_agent ''sbx'' [''l1''] [''tool.bash'']) (Some ''admin'') (Some [])
   = (is_allowed [ex_rule Allow ''tier1'' ''l0/*'' ''*/tool.*'']
        (ex_agent ''orch'' [''l0''] []) (ex_agent ''sbx'' [''l1''] [''tool.bash'']) (Some ''admin''),
      Some (map (step_of (ex_agent ''orch'' [''l0''] []) (ex_agent ''sbx'' [''l1''] [''tool.bash'']) (Some ''admin''))
        (considered (\<lambda>r. rule_applies r (ex_agent ''orch'' [''l0''] [])
           (ex_agent ''sbx'' [''l1''] [''tool.bash'']) (Some ''admin''))
           [ex_rule Allow ''tier1'' ''l0/*'' ''*/tool.*''])))"
proof -
  have h: "view_id (ex_agent ''orch'' [''l0''] []) \<noteq> view_id (ex_agent ''sbx'' [''l1''] [''tool.bash''])"
    by (simp add: ex_agent_def)
  show ?thesis using h acl_trace_faithful [OF h] by blast
qed

section \<open>Privilege order\<close>

text \<open>
  Under a rule list that only allows, and gates by \<open>*\<close> or by tier, a more
  privileged level is allowed whatever a less privileged one is allowed.
\<close>

theorem acl_allow_only_mono:
  assumes "tier_index a = Some i" "tier_index b = Some j" "i \<le> j"
    and only: "\<forall>r \<in> set rules. effect r = Allow \<and> \<not> exact_level (rule_level r)"
    and ok: "allow (is_allowed rules caller callee b)"
  shows "allow (is_allowed rules caller callee a)"
proof -
  from ok obtain r where ne: "view_id caller \<noteq> view_id callee"
    and r: "r \<in> set rules" "rule_applies r caller callee b"
    by (auto simp: is_allowed_iff dest: find_SomeD)
  with only principals.rank_mono [OF assms(1-3)] have "rule_applies r caller callee a"
    by (auto simp: rule_applies_def)
  with r obtain r' where "find (\<lambda>r. rule_applies r caller callee a) rules = Some r'"
    by (metis (mono_tags, lifting) find_None_iff not_None_eq)
  with only ne show ?thesis
    by (metis is_allowed_iff find_SomeD)
qed

theorem acl_allow_only_mono_witness:
  "allow (is_allowed [ex_rule Allow ''tier2'' ''@chat'' ''*/tool.*'']
     (ex_agent ''chat'' [] []) (ex_agent ''sbx'' [''l1''] [''tool.bash'']) (Some ''admin''))"
proof (rule acl_allow_only_mono [where b = "Some ''tier1''" and i = "-1" and j = 1])
  show "tier_index (Some ''tier1'') = Some 1"
    by (simp add: tier_index_def tier_body_def all_digits_def str_defs parse_nat_def)
  show "allow (is_allowed [ex_rule Allow ''tier2'' ''@chat'' ''*/tool.*'']
     (ex_agent ''chat'' [] []) (ex_agent ''sbx'' [''l1''] [''tool.bash'']) (Some ''tier1''))"
    by (simp add: is_allowed_iff rule_applies_def ex_rule_def ex_agent_def pattern_matches_def
        user_level_satisfies_def level_satisfies_tier_def tier_index_def tier_body_def
        all_digits_def str_defs parse_nat_def)
qed (simp_all add: ex_rule_def)

section \<open>Metric labels are bounded\<close>

lemma metric_char_underscore: "metric_char CHR ''_''"
  by (simp add: metric_char_def)

lemma bound_metric_label_chars: "list_all metric_char (bound_metric_label name)"
  by (auto simp: bound_metric_label_def list_all_iff metric_char_def str_defs
      split: option.splits dest!: in_set_takeD)

lemma bound_metric_label_len: "length (bound_metric_label name) \<le> METRIC_RULE_NAME_MAX_LEN"
  by (auto simp: bound_metric_label_def METRIC_RULE_NAME_MAX_LEN_def split: option.split)

lemma bound_metric_label_nonempty: "bound_metric_label name \<noteq> []"
  by (auto simp: bound_metric_label_def METRIC_RULE_NAME_MAX_LEN_def split: option.split)

lemma bound_metric_label_fixed:
  assumes "list_all metric_char l" "length l \<le> METRIC_RULE_NAME_MAX_LEN" "l \<noteq> []"
  shows "bound_metric_label (Some l) = l"
proof -
  have "map (\<lambda>c. if metric_char c then c else CHR ''_'') l = l"
    using assms(1) by (simp add: map_idI list_all_iff)
  with assms(2,3) show ?thesis by (simp add: bound_metric_label_def)
qed

text \<open>
  The label sent to the metrics registry is never empty, has at most 64
  characters of the allowed set, and labelling a label changes nothing, so the number of
  time series a rule name can create is bounded.
\<close>

theorem metric_label_bounded:
  "bound_metric_label name \<noteq> [] \<and> length (bound_metric_label name) \<le> 64 \<and>
   list_all metric_char (bound_metric_label name) \<and>
   bound_metric_label (Some (bound_metric_label name)) = bound_metric_label name"
  using bound_metric_label_len bound_metric_label_chars bound_metric_label_nonempty
    bound_metric_label_fixed METRIC_RULE_NAME_MAX_LEN_def
  by metis

section \<open>The rule store is sorted and stable\<close>

text \<open>
  Loading or hot-swapping a rule list keeps exactly its rules, sorts them by
  \<open>ord\<close>, and keeps the given order among rules with the same \<open>ord\<close>.
\<close>

theorem ruleset_sorted_stable:
  "sorted (map ord (RuleSet rules)) \<and> mset (RuleSet rules) = mset rules \<and>
   filter (\<lambda>r. ord r = k) (RuleSet rules) = filter (\<lambda>r. ord r = k) rules \<and>
   replace_rules old rules = RuleSet rules"
  by (simp add: RuleSet_def replace_rules_def sort_key_stable)

section \<open>Validated levels that never match\<close>

text \<open>
  The level grammar is anchored with \<open>$\<close>, so the validator accepts a level followed by
  a newline, while the gate compares exactly.
\<close>

lemma newline_level_valid:
  "l \<in> {''*'', ''admin'', ''service''} \<Longrightarrow> is_valid_rule_user_level (l @ [newline])"
  by (auto simp: is_valid_rule_user_level_def is_valid_level_def)

lemma newline_level_never:
  assumes "l \<in> {''*'', ''admin'', ''service''}"
  shows "\<not> user_level_satisfies actual (l @ [newline])"
  using assms
  by (auto simp: user_level_satisfies_def tier_index_def tier_body_def starts_with_def newline_def chomp_def)

text \<open>
  A deny rule for \<open>*\<close>, \<open>admin\<close> or \<open>service\<close> written with a trailing
  newline passes the validators and denies nobody: evaluating a list with it in front is
  the same as evaluating the list without it.
\<close>

theorem newline_level_rule_inert:
  assumes "l \<in> {''*'', ''admin'', ''service''}" "rule_level r = l @ [newline]"
    "is_valid_pattern (caller_pattern r)" "is_valid_pattern (callee_pattern r)"
  shows "rule_valid r \<and> is_allowed (r # rules) caller callee lvl = is_allowed rules caller callee lvl"
proof -
  have "rule_valid r" using assms newline_level_valid by (simp add: rule_valid_def)
  moreover have "\<not> rule_applies r caller callee lvl"
    using assms newline_level_never by (simp add: rule_applies_def)
  ultimately show ?thesis by (simp add: is_allowed_spec acl_spec_def)
qed

theorem newline_level_rule_inert_witness:
  "rule_valid (ex_rule Deny (''service'' @ [newline]) ''*/*'' ''@vault'') \<and>
   is_allowed [ex_rule Deny (''service'' @ [newline]) ''*/*'' ''@vault'', ex_rule Allow ''*'' ''*/*'' ''*/*'']
     (ex_agent ''chat'' [] []) (ex_agent ''vault'' [] []) (Some ''service'')
   = is_allowed [ex_rule Allow ''*'' ''*/*'' ''*/*'']
     (ex_agent ''chat'' [] []) (ex_agent ''vault'' [] []) (Some ''service'')"
  by (rule newline_level_rule_inert [where l = "''service''"])
    (simp_all add: ex_rule_def is_valid_pattern_def match_agent_id_def agent_char_def str_defs)

end
