(* ===== verification/Tables.thy ===== *)
theory Tables
  imports Acl
begin

text \<open>
  The data model of the router's database: the enums of \<open>bp_protocol/types.py\<close>, the row
  types of \<open>bp_router/db/models.py\<close> and the tables of the initial migration.  A database
  is a record of tables; a statement of \<open>bp_router/db/queries.py\<close> is a function on it.
  Columns that no modelled statement reads (\<open>kind\<close> and \<open>auth_token_hash\<close> of agents,
  \<open>created_at\<close> of users) are left out.
\<close>

section \<open>Enums\<close>

datatype task_state =
    QUEUED
  | RUNNING
  | WAITING_CHILDREN
  | SUCCEEDED
  | FAILED
  | CANCELLED
  | TIMED_OUT

definition is_terminal :: "task_state \<Rightarrow> bool" where
  "is_terminal s = (s \<in> {SUCCEEDED, FAILED, CANCELLED, TIMED_OUT})"

datatype task_status = Succeeded | Failed | CancelledSt | TimedOut

datatype priority = Low | Normal | High

lemma is_terminal_simps [simp]:
  "\<not> is_terminal QUEUED" "\<not> is_terminal RUNNING" "\<not> is_terminal WAITING_CHILDREN"
  "is_terminal SUCCEEDED" "is_terminal FAILED" "is_terminal CANCELLED" "is_terminal TIMED_OUT"
  by (simp_all add: is_terminal_def)

section \<open>Rows\<close>

record user_row =
  u_id :: user_id
  u_level :: level
  u_suspended :: "time option"
  u_deleted :: "time option"
  u_email :: "string option"
  u_auth_kind :: string
  u_secret :: "string option"   \<comment> \<open>\<open>auth_secret_hash\<close>\<close>
  u_serviced_by :: "user_id list"
  u_purged :: "time option"

record session_row =
  s_id :: session_id
  s_user :: user_id
  s_opened :: time
  s_closed :: "time option"
  s_metadata :: "(string \<times> json) list"

record agent_row =
  a_id :: agent_id
  a_status :: string
  a_caps :: "string list"
  a_groups :: "string list"
  a_info :: json
  a_public_key :: "string option"
  a_last_seen :: "time option"

record task_row =
  t_id :: task_id
  t_parent :: "task_id option"
  t_root :: task_id
  t_user :: user_id
  t_session :: session_id
  t_agent :: agent_id
  t_caller :: agent_id
  t_active :: agent_id
  t_state :: task_state
  t_status_code :: "int option"
  t_idem :: "string option"
  t_priority :: priority
  t_deadline :: "time option"
  t_created :: time
  t_updated :: time
  t_input :: json
  t_output :: "json option"
  t_error :: "json option"

record event_row =
  ev_task :: task_id
  ev_ts :: time
  ev_kind :: string
  ev_actor :: "agent_id option"
  ev_from :: "task_state option"
  ev_to :: "task_state option"
  ev_payload :: json

record file_row =
  f_id :: string
  f_sha :: string
  f_user :: user_id
  f_session :: "session_id option"
  f_task :: "task_id option"
  f_size :: int
  f_mime :: "string option"
  f_orig :: "string option"   \<comment> \<open>\<open>original_filename\<close>\<close>
  f_created :: time
  f_expires :: "time option"

record name_row =
  n_user :: user_id
  n_scope :: string
  n_name :: string
  n_file :: string
  n_size :: int
  n_created :: time
  n_updated :: time

record audit_row =
  au_ts :: time
  au_actor_kind :: string
  au_actor :: "string option"
  au_event :: string
  au_target_kind :: "string option"
  au_target :: "string option"
  au_payload :: json
  au_prev :: "string option"
  au_self :: string

record refresh_row =
  rt_hash :: string
  rt_user :: user_id
  rt_issued :: time
  rt_expires :: time
  rt_used :: "time option"
  rt_replaced :: "string option"

record reset_row =
  pr_hash :: string
  pr_user :: user_id
  pr_expires :: time
  pr_used :: "time option"
  pr_by :: "user_id option"

record invitation_row =
  iv_hash :: string
  iv_level :: level
  iv_expires :: time
  iv_used :: "time option"
  iv_used_by :: "string option"
  iv_by :: user_id
  iv_idem :: "string option"
  iv_service :: bool   \<comment> \<open>\<open>provisions_service_user\<close>\<close>
  iv_created :: time

record oidc_row =
  oi_issuer :: string
  oi_sub :: string
  oi_user :: user_id
  oi_email :: "string option"
  oi_created :: time
  oi_last :: "time option"

record registration_row =
  pg_id :: string
  pg_channel :: string
  pg_external :: string
  pg_display :: "string option"
  pg_email :: "string option"
  pg_metadata :: "(string \<times> json) list"
  pg_requested :: time
  pg_attempts :: nat
  pg_last :: time
  pg_by :: "user_id option"
  pg_secret :: "string option"

text \<open>Firewall rules as rows; the order is any integer.\<close>

record acl_rule_row =
  al_id :: string
  al_ord :: int
  al_name :: "string option"
  al_description :: "string option"
  al_effect :: effect
  al_level :: level
  al_caller :: string
  al_callee :: string
  al_created :: time
  al_by :: "user_id option"

text \<open>LLM presets: the value the service works with (\<open>Preset\<close> of \<open>llm/presets.py\<close>), and the row.\<close>

record preset =
  ps_name :: string
  ps_description :: "string option"
  ps_provider :: string
  ps_model :: string
  ps_key_ref :: string
  ps_key :: "string option"
  ps_base_url :: "string option"
  ps_level :: level
  ps_temperature :: "rat option"
  ps_max_tokens :: "int option"
  ps_options :: "(string \<times> json) list"
  ps_fallback :: "string option"
  ps_retries :: int

record preset_row = preset +
  lp_managed :: bool
  lp_created :: time
  lp_updated :: time
  lp_by :: "user_id option"

record db =
  users :: "user_row list"
  sessions :: "session_row list"
  agents :: "agent_row list"
  tasks :: "task_row list"
  events :: "event_row list"
  files :: "file_row list"
  names :: "name_row list"
  audit :: "audit_row list"
  refresh_tokens :: "refresh_row list"
  reset_tokens :: "reset_row list"
  invitations :: "invitation_row list"
  oidc_identities :: "oidc_row list"
  registrations :: "registration_row list"
  registration_attempts :: "(string \<times> string \<times> time) list"
  acl_rules :: "acl_rule_row list"
  llm_presets :: "preset_row list"

definition empty_db :: db where
  "empty_db = \<lparr>users = [], sessions = [], agents = [], tasks = [], events = [], files = [], names = [], audit = [],
     refresh_tokens = [], reset_tokens = [], invitations = [], oidc_identities = [], registrations = [],
     registration_attempts = [], acl_rules = [], llm_presets = []\<rparr>"

lemmas empty_db_simps [simp] = empty_db_def

section \<open>Exceptions\<close>

datatype db_error =
    TaskNotFound task_id
  | IllegalTransition task_id task_state task_state
  | CrossUserTaskAccess task_id
  | UniqueViolation string
  | CheckViolation string
  | ForeignKeyViolation string
  | NotNullViolation string
  | DataError string   \<comment> \<open>a value the driver cannot encode\<close>

section \<open>What the constraints promise\<close>

text \<open>
  The primary keys of the tables and the unique constraint on idempotency keys (SQL's
  \<open>NULL\<close> is distinct from every value).
\<close>

definition idem_unique :: "task_row list \<Rightarrow> bool" where
  "idem_unique ts = distinct (map (\<lambda>t. (t_caller t, t_user t, the (t_idem t)))
     (filter (\<lambda>t. t_idem t \<noteq> None) ts))"

definition db_ok :: "db \<Rightarrow> bool" where
  "db_ok d \<longleftrightarrow> tbl_ok u_id (users d) \<and> tbl_ok s_id (sessions d) \<and> tbl_ok a_id (agents d) \<and>
     tbl_ok t_id (tasks d) \<and> tbl_ok f_id (files d) \<and>
     tbl_ok (\<lambda>n. (n_user n, n_scope n, n_name n)) (names d) \<and> idem_unique (tasks d)"

definition find_task :: "db \<Rightarrow> task_id \<Rightarrow> task_row option" where
  "find_task d tid = tbl_get t_id tid (tasks d)"

lemma db_okD:
  assumes "db_ok d"
  shows "tbl_ok u_id (users d)" "tbl_ok s_id (sessions d)" "tbl_ok a_id (agents d)"
    "tbl_ok t_id (tasks d)" "tbl_ok f_id (files d)"
    "tbl_ok (\<lambda>n. (n_user n, n_scope n, n_name n)) (names d)" "idem_unique (tasks d)"
  using assms by (simp_all add: db_ok_def)

lemma find_task_SomeD: "find_task d tid = Some t \<Longrightarrow> t \<in> set (tasks d) \<and> t_id t = tid"
  unfolding find_task_def by (rule tbl_get_SomeD)

lemma find_task_in_set: "db_ok d \<Longrightarrow> t \<in> set (tasks d) \<Longrightarrow> find_task d (t_id t) = Some t"
  unfolding find_task_def by (rule tbl_get_in_set) (simp_all add: db_okD)

lemma find_task_cong: "tasks d' = tasks d \<Longrightarrow> find_task d' = find_task d"
  by (simp add: find_task_def fun_eq_iff)

lemma idem_unique_upd:
  "(\<And>t. t_caller (f t) = t_caller t \<and> t_user (f t) = t_user t \<and> t_idem (f t) = t_idem t) \<Longrightarrow>
   idem_unique (tbl_upd key k f ts) = idem_unique ts"
proof -
  assume f: "\<And>t. t_caller (f t) = t_caller t \<and> t_user (f t) = t_user t \<and> t_idem (f t) = t_idem t"
  have "map (\<lambda>t. (t_caller t, t_user t, the (t_idem t))) (filter (\<lambda>t. t_idem t \<noteq> None) (tbl_upd key k f ts)) =
    map (\<lambda>t. (t_caller t, t_user t, the (t_idem t))) (filter (\<lambda>t. t_idem t \<noteq> None) ts)"
    by (induction ts) (auto simp: tbl_upd_def f)
  then show ?thesis by (simp add: idem_unique_def)
qed

lemma idem_unique_filter: "idem_unique ts \<Longrightarrow> idem_unique (filter P ts)"
proof -
  assume u: "idem_unique ts"
  have "filter (\<lambda>t. t_idem t \<noteq> None) (filter P ts) = filter P (filter (\<lambda>t. t_idem t \<noteq> None) ts)"
    unfolding filter_filter by (rule filter_cong) auto
  then show ?thesis using u unfolding idem_unique_def by (simp only: distinct_map_filter)
qed

end
