(* ===== verification/TaskState.thy ===== *)
theory TaskState
  imports Tables
begin

text \<open>
  \<open>bp_router/state.py\<close>: the task state machine.  \<open>task_transition\<close> is one function on
  the database, its row lock being the atomicity of a step.  \<open>evolves\<close> is what every
  operation of the router may do to the tasks table: rows stay, immutable columns keep
  their values, terminal rows are frozen.  The locale \<open>lifecycle\<close> lifts it to runs.
\<close>

section \<open>The transition table\<close>

fun ALLOWED :: "task_state \<Rightarrow> task_state list" where
  "ALLOWED QUEUED = [RUNNING, SUCCEEDED, FAILED, CANCELLED, TIMED_OUT]"
| "ALLOWED RUNNING = [WAITING_CHILDREN, SUCCEEDED, FAILED, CANCELLED, TIMED_OUT]"
| "ALLOWED WAITING_CHILDREN = [RUNNING, FAILED, CANCELLED, TIMED_OUT]"
| "ALLOWED SUCCEEDED = []"
| "ALLOWED FAILED = []"
| "ALLOWED CANCELLED = []"
| "ALLOWED TIMED_OUT = []"

definition is_allowed_transition :: "task_state \<Rightarrow> task_state \<Rightarrow> bool" where
  "is_allowed_transition frm to = (to \<in> set (ALLOWED frm))"

definition allowed_transitions :: "task_state \<Rightarrow> task_state set" where
  "allowed_transitions frm = set (ALLOWED frm)"

section \<open>The transition function\<close>

record transition_result =
  tr_task :: task_id
  tr_prev :: task_state
  tr_new :: task_state
  tr_event :: nat   \<comment> \<open>position of the event row\<close>

definition insert_event :: "event_row \<Rightarrow> db \<Rightarrow> nat \<times> db" where
  "insert_event e d = (length (events d), d\<lparr>events := events d @ [e]\<rparr>)"

text \<open>SQL's \<open>COALESCE(new, old)\<close>.\<close>

definition coalesce :: "'a option \<Rightarrow> 'a option \<Rightarrow> 'a option" where
  "coalesce x y = (case x of None \<Rightarrow> y | Some v \<Rightarrow> Some v)"

definition set_state ::
  "task_state \<Rightarrow> int option \<Rightarrow> json option \<Rightarrow> json option \<Rightarrow> time \<Rightarrow> task_row \<Rightarrow> task_row" where
  "set_state st sc out er now t = t\<lparr>t_state := st,
     t_status_code := coalesce sc (t_status_code t),
     t_output := coalesce out (t_output t),
     t_error := coalesce er (t_error t),
     t_updated := now\<rparr>"

definition task_transition ::
  "task_id \<Rightarrow> task_state \<Rightarrow> string \<Rightarrow> agent_id option \<Rightarrow> (string \<times> json) list \<Rightarrow>
   int option \<Rightarrow> json option \<Rightarrow> json option \<Rightarrow> time \<Rightarrow> db \<Rightarrow> db_error + transition_result \<times> db" where
  "task_transition tid new_state reason actor payload status_code out er now d =
     (case tbl_get t_id tid (tasks d) of
        None \<Rightarrow> Inl (TaskNotFound tid)
      | Some row \<Rightarrow>
          let prev = t_state row;
              event = \<lparr>ev_task = tid, ev_ts = now,
                ev_kind = (if prev = new_state then ''transition_noop'' else ''transition''),
                ev_actor = actor, ev_from = Some prev, ev_to = Some new_state,
                ev_payload = JObj (foldl (\<lambda>acc kv. dict_set (fst kv) (snd kv) acc) [(''reason'', JStr reason)] payload)\<rparr>
          in if prev = new_state
             then (let (n, d') = insert_event event d
                   in Inr (\<lparr>tr_task = tid, tr_prev = prev, tr_new = new_state, tr_event = n\<rparr>, d'))
             else if new_state \<notin> set (ALLOWED prev) then Inl (IllegalTransition tid prev new_state)
             else (let d1 = d\<lparr>tasks := tbl_upd t_id tid (set_state new_state status_code out er now) (tasks d)\<rparr>;
                       (n, d') = insert_event event d1
                   in Inr (\<lparr>tr_task = tid, tr_prev = prev, tr_new = new_state, tr_event = n\<rparr>, d')))"

section \<open>Facts about the table\<close>

lemma terminal_no_exit: "is_terminal s \<longleftrightarrow> ALLOWED s = []"
  by (cases s) simp_all

lemma queued_never_entered: "QUEUED \<notin> set (ALLOWED s)"
  by (cases s) simp_all

lemma set_state_same [simp]:
  "t_id (set_state s c out er now t) = t_id t" "t_state (set_state s c out er now t) = s"
  "t_caller (set_state s c out er now t) = t_caller t" "t_user (set_state s c out er now t) = t_user t"
  "t_idem (set_state s c out er now t) = t_idem t" "t_active (set_state s c out er now t) = t_active t"
  "t_agent (set_state s c out er now t) = t_agent t" "t_parent (set_state s c out er now t) = t_parent t"
  "t_root (set_state s c out er now t) = t_root t" "t_session (set_state s c out er now t) = t_session t"
  "t_priority (set_state s c out er now t) = t_priority t" "t_deadline (set_state s c out er now t) = t_deadline t"
  "t_created (set_state s c out er now t) = t_created t" "t_input (set_state s c out er now t) = t_input t"
  "t_status_code (set_state s c out er now t) = coalesce c (t_status_code t)"
  "t_output (set_state s c out er now t) = coalesce out (t_output t)"
  "t_error (set_state s c out er now t) = coalesce er (t_error t)"
  by (simp_all add: set_state_def)

lemma insert_event_simps [simp]:
  "fst (insert_event e d) = length (events d)"
  "tasks (snd (insert_event e d)) = tasks d" "users (snd (insert_event e d)) = users d"
  "sessions (snd (insert_event e d)) = sessions d" "agents (snd (insert_event e d)) = agents d"
  "files (snd (insert_event e d)) = files d" "names (snd (insert_event e d)) = names d"
  "audit (snd (insert_event e d)) = audit d" "events (snd (insert_event e d)) = events d @ [e]"
  by (simp_all add: insert_event_def)

text \<open>The outcome of a transition, on every branch.\<close>

lemma transition_cases:
  "task_transition tid st reason actor pl sc out er now d =
   (case find_task d tid of
      None \<Rightarrow> Inl (TaskNotFound tid)
    | Some t \<Rightarrow>
        let ev = \<lparr>ev_task = tid, ev_ts = now,
              ev_kind = (if t_state t = st then ''transition_noop'' else ''transition''), ev_actor = actor,
              ev_from = Some (t_state t), ev_to = Some st,
              ev_payload = JObj (foldl (\<lambda>acc kv. dict_set (fst kv) (snd kv) acc) [(''reason'', JStr reason)] pl)\<rparr>
        in if t_state t = st
           then Inr (\<lparr>tr_task = tid, tr_prev = st, tr_new = st, tr_event = length (events d)\<rparr>,
                     d\<lparr>events := events d @ [ev]\<rparr>)
           else if st \<in> set (ALLOWED (t_state t))
           then Inr (\<lparr>tr_task = tid, tr_prev = t_state t, tr_new = st, tr_event = length (events d)\<rparr>,
                     d\<lparr>tasks := tbl_upd t_id tid (set_state st sc out er now) (tasks d),
                       events := events d @ [ev]\<rparr>)
           else Inl (IllegalTransition tid (t_state t) st))"
  by (simp add: task_transition_def find_task_def insert_event_def Let_def split: option.split)

lemma find_task_upd:
  "(\<And>t. t_id (f t) = t_id t) \<Longrightarrow>
   find_task (d\<lparr>tasks := tbl_upd t_id k f (tasks d)\<rparr>) tid =
   (if tid = k then map_option f (find_task d tid) else find_task d tid)"
  by (simp add: find_task_def tbl_get_upd)

lemma find_task_events [simp]: "find_task (d\<lparr>events := e\<rparr>) = find_task d"
  by (simp add: find_task_def fun_eq_iff)

lemma transition_Inr:
  assumes "task_transition tid st reason actor pl sc out er now d = Inr (r, d')"
  obtains t ev where "find_task d tid = Some t" "t_state t = st \<or> st \<in> set (ALLOWED (t_state t))"
    "find_task d' = (find_task d)(tid \<mapsto> (if t_state t = st then t else set_state st sc out er now t))"
    "events d' = events d @ [ev]" "ev_task ev = tid" "ev_from ev = Some (t_state t)" "ev_to ev = Some st"
    "ev_kind ev = (if t_state t = st then ''transition_noop'' else ''transition'')"
proof -
  from assms obtain t where t: "find_task d tid = Some t" by (auto simp: transition_cases split: option.splits)
  have "find_task d' = (find_task d)(tid \<mapsto> (if t_state t = st then t else set_state st sc out er now t))"
    using assms t
    by (auto simp: transition_cases Let_def find_task_def tbl_get_upd fun_eq_iff split: if_splits)
  with assms t show thesis
    by (intro that [of t "last (events d')"]) (auto simp: transition_cases Let_def split: if_splits)
qed

section \<open>Evolution of the tasks table\<close>

definition reaches :: "task_state \<Rightarrow> task_state \<Rightarrow> bool" where
  "reaches s s' = (s = s' \<or> (\<not> is_terminal s \<and> s' \<noteq> QUEUED))"

definition same_identity :: "task_row \<Rightarrow> task_row \<Rightarrow> bool" where
  "same_identity t t' \<longleftrightarrow> t_id t' = t_id t \<and> t_parent t' = t_parent t \<and> t_root t' = t_root t \<and>
     t_user t' = t_user t \<and> t_session t' = t_session t \<and> t_agent t' = t_agent t \<and>
     t_caller t' = t_caller t \<and> t_idem t' = t_idem t \<and> t_priority t' = t_priority t \<and>
     t_deadline t' = t_deadline t \<and> t_created t' = t_created t \<and> t_input t' = t_input t"

definition row_evolves :: "task_row \<Rightarrow> task_row \<Rightarrow> bool" where
  "row_evolves t t' \<longleftrightarrow> same_identity t t' \<and> reaches (t_state t) (t_state t') \<and>
     (is_terminal (t_state t) \<longrightarrow> t' = t)"

definition evolves :: "db \<Rightarrow> db \<Rightarrow> bool" where
  "evolves d d' \<longleftrightarrow> (\<forall>tid t. find_task d tid = Some t \<longrightarrow>
     (\<exists>t'. find_task d' tid = Some t' \<and> row_evolves t t'))"

lemma row_evolves_refl [simp]: "row_evolves t t"
  by (simp add: row_evolves_def same_identity_def reaches_def)

lemma row_evolves_trans: "row_evolves t u \<Longrightarrow> row_evolves u v \<Longrightarrow> row_evolves t v"
  by (auto simp: row_evolves_def same_identity_def reaches_def)

lemma evolves_refl [simp]: "evolves d d"
  by (simp add: evolves_def)

lemma evolves_trans: "evolves d e \<Longrightarrow> evolves e f \<Longrightarrow> evolves d f"
  unfolding evolves_def by (meson row_evolves_trans)

lemma evolvesD: "evolves d d' \<Longrightarrow> find_task d tid = Some t \<Longrightarrow>
   \<exists>t'. find_task d' tid = Some t' \<and> row_evolves t t'"
  by (simp add: evolves_def)

lemma evolves_terminal:
  "evolves d d' \<Longrightarrow> find_task d tid = Some t \<Longrightarrow> is_terminal (t_state t) \<Longrightarrow> find_task d' tid = Some t"
  by (fastforce simp: evolves_def row_evolves_def)

lemma evolves_tasks_eq: "tasks d' = tasks d \<Longrightarrow> evolves d d'"
  using find_task_cong [of d' d] by (simp add: evolves_def)

lemma evolves_cong: "tasks d' = tasks d \<Longrightarrow> tasks e' = tasks e \<Longrightarrow> evolves d' e' = evolves d e"
  using find_task_cong [of d' d] find_task_cong [of e' e] by (simp add: evolves_def)

lemma row_evolves_set_state:
  "st \<in> set (ALLOWED (t_state t)) \<Longrightarrow> row_evolves t (set_state st c out er now t)"
  using terminal_no_exit [of "t_state t"] queued_never_entered [of "t_state t"]
  by (auto simp: row_evolves_def same_identity_def reaches_def)

lemma evolves_upd_row:
  assumes "find_task d' = (find_task d)(tid \<mapsto> t')" "find_task d tid = Some t" "row_evolves t t'"
  shows "evolves d d'"
  using assms by (auto simp: evolves_def)

lemma transition_evolves:
  assumes "task_transition tid st reason actor pl sc out er now d = Inr (r, d')"
  shows "evolves d d'"
  using assms
proof (rule transition_Inr)
  fix t ev assume *: "find_task d tid = Some t" "t_state t = st \<or> st \<in> set (ALLOWED (t_state t))"
    "find_task d' = (find_task d)(tid \<mapsto> (if t_state t = st then t else set_state st sc out er now t))"
  show ?thesis by (rule evolves_upd_row [OF *(3,1)]) (use *(2) in \<open>auto simp: row_evolves_set_state\<close>)
qed

lemma transition_db_ok:
  assumes "task_transition tid st reason actor pl sc out er now d = Inr (r, d')" "db_ok d"
  shows "db_ok d'"
  using assms
  by (auto simp: transition_cases db_ok_def Let_def tbl_ok_upd idem_unique_upd split: option.splits if_splits)

lemma transition_frame:
  assumes "task_transition tid st reason actor pl sc out er now d = Inr (r, d')"
  shows "users d' = users d" "sessions d' = sessions d" "agents d' = agents d" "files d' = files d"
    "names d' = names d" "audit d' = audit d"
  using assms by (auto simp: transition_cases Let_def split: option.splits if_splits)

section \<open>Runs\<close>

text \<open>
  A component whose every step lets the tasks table evolve.  A run of such a component
  freezes a task at its first terminal state.
\<close>

locale lifecycle =
  fixes db_of :: "'s \<Rightarrow> db"
    and step :: "'op \<Rightarrow> 's \<Rightarrow> 's"
    and legal :: "'op \<Rightarrow> 's \<Rightarrow> bool"
  assumes step_evolves: "legal x s \<Longrightarrow> evolves (db_of s) (db_of (step x s))"
begin

fun run :: "'op list \<Rightarrow> 's \<Rightarrow> 's" where
  "run [] s = s"
| "run (x # xs) s = run xs (step x s)"

fun legal_run :: "'op list \<Rightarrow> 's \<Rightarrow> bool" where
  "legal_run [] s = True"
| "legal_run (x # xs) s = (legal x s \<and> legal_run xs (step x s))"

lemma run_evolves: "legal_run xs s \<Longrightarrow> evolves (db_of s) (db_of (run xs s))"
  by (induction xs arbitrary: s) (auto intro: evolves_trans step_evolves)

lemma terminal_absorbing:
  "legal_run xs s \<Longrightarrow> find_task (db_of s) tid = Some t \<Longrightarrow> is_terminal (t_state t) \<Longrightarrow>
   find_task (db_of (run xs s)) tid = Some t"
  by (rule evolves_terminal [OF run_evolves])

lemma never_requeued:
  assumes "legal_run xs s" "find_task (db_of s) tid = Some t" "t_state t \<noteq> QUEUED"
  shows "\<exists>t'. find_task (db_of (run xs s)) tid = Some t' \<and> t_state t' \<noteq> QUEUED"
  using evolvesD [OF run_evolves [OF assms(1)] assms(2)] assms(3)
  by (auto simp: row_evolves_def reaches_def)

end

end
