(* ===== verification/Queries.thy ===== *)
theory Queries
  imports TaskState
begin

text \<open>
  \<open>bp_router/db/queries.py\<close>: the statements on sessions, tasks and task events that the
  \<open>Scope\<close> wrapper binds to one user, and the tree walks on \<open>parent_task_id\<close>.  A scoped
  statement takes the scope's user id as its first argument.  Identifiers and clock
  readings that the code generates (\<open>_new_id\<close>, \<open>_now\<close>, \<open>now()\<close>) are arguments.
\<close>

definition MAX_TASK_TREE_DEPTH :: nat where
  "MAX_TASK_TREE_DEPTH = 64"

section \<open>Sessions\<close>

definition open_session ::
  "user_id \<Rightarrow> session_id \<Rightarrow> (string \<times> json) list \<Rightarrow> time \<Rightarrow> db \<Rightarrow> db_error + session_row \<times> db" where
  "open_session uid new_id meta now d =
     (let row = \<lparr>s_id = new_id, s_user = uid, s_opened = now, s_closed = None, s_metadata = meta\<rparr>
      in if tbl_get s_id new_id (sessions d) \<noteq> None then Inl (UniqueViolation ''sessions_pkey'')
         else if tbl_get u_id uid (users d) = None then Inl (ForeignKeyViolation ''sessions_user_id_fkey'')
         else Inr (row, d\<lparr>sessions := sessions d @ [row]\<rparr>))"

definition owns_session :: "user_id \<Rightarrow> session_id \<Rightarrow> session_row \<Rightarrow> bool" where
  "owns_session uid sid s = (s_id s = sid \<and> s_user s = uid)"

definition close_session :: "user_id \<Rightarrow> session_id \<Rightarrow> time \<Rightarrow> db \<Rightarrow> db" where
  "close_session uid sid now d = d\<lparr>sessions :=
     map (\<lambda>s. if owns_session uid sid s \<and> s_closed s = None then s\<lparr>s_closed := Some now\<rparr> else s) (sessions d)\<rparr>"

definition reopen_session :: "user_id \<Rightarrow> session_id \<Rightarrow> db \<Rightarrow> bool \<times> db" where
  "reopen_session uid sid d =
     (list_ex (\<lambda>s. owns_session uid sid s \<and> s_closed s \<noteq> None) (sessions d),
      d\<lparr>sessions := map (\<lambda>s. if owns_session uid sid s \<and> s_closed s \<noteq> None
                             then s\<lparr>s_closed := None\<rparr> else s) (sessions d)\<rparr>)"

definition get_session :: "user_id \<Rightarrow> session_id \<Rightarrow> db \<Rightarrow> session_row option" where
  "get_session uid sid d = find (owns_session uid sid) (sessions d)"

definition list_sessions :: "user_id \<Rightarrow> nat \<Rightarrow> db \<Rightarrow> session_row list" where
  "list_sessions uid limit d =
     take limit (sort_key (\<lambda>s. - s_opened s) (filter (\<lambda>s. s_user s = uid) (sessions d)))"

text \<open>\<open>metadata || merge\<close>: the keys of \<open>merge\<close> win.\<close>

definition update_session_metadata ::
  "user_id \<Rightarrow> session_id \<Rightarrow> (string \<times> json) list \<Rightarrow> db \<Rightarrow> session_row option \<times> db" where
  "update_session_metadata uid sid merge d =
     (let upd = (\<lambda>s. if owns_session uid sid s
            then s\<lparr>s_metadata := foldl (\<lambda>m kv. dict_set (fst kv) (snd kv) m) (s_metadata s) merge\<rparr> else s);
          d' = d\<lparr>sessions := map upd (sessions d)\<rparr>
      in (get_session uid sid d', d'))"

section \<open>Tasks\<close>

definition get_task :: "user_id \<Rightarrow> task_id \<Rightarrow> db \<Rightarrow> task_row option" where
  "get_task uid tid d = find (\<lambda>t. t_id t = tid \<and> t_user t = uid) (tasks d)"

definition create_task ::
  "user_id \<Rightarrow> task_id \<Rightarrow> session_id \<Rightarrow> agent_id \<Rightarrow> agent_id \<Rightarrow> task_id option \<Rightarrow> priority \<Rightarrow>
   time option \<Rightarrow> string option \<Rightarrow> json \<Rightarrow> agent_id option \<Rightarrow> time \<Rightarrow> db \<Rightarrow> db_error + task_row \<times> db" where
  "create_task uid new_id sid agent caller parent prio deadline idem inp active now d =
     bindE (case parent of
              None \<Rightarrow> Inr new_id
            | Some p \<Rightarrow> (case get_task uid p d of
                           None \<Rightarrow> Inl (CrossUserTaskAccess p)
                         | Some row \<Rightarrow> Inr (t_root row)))
       (\<lambda>root.
         let row = \<lparr>t_id = new_id, t_parent = parent, t_root = root, t_user = uid, t_session = sid,
               t_agent = agent, t_caller = caller,
               t_active = (case active of None \<Rightarrow> agent | Some a \<Rightarrow> a),
               t_state = QUEUED, t_status_code = None, t_idem = idem, t_priority = prio,
               t_deadline = deadline, t_created = now, t_updated = now, t_input = inp,
               t_output = None, t_error = None\<rparr>
         in if \<not> (case deadline of None \<Rightarrow> True | Some dl \<Rightarrow> dl > now)
            then Inl (CheckViolation ''tasks_deadline_after_create'')
            else if tbl_get t_id new_id (tasks d) \<noteq> None then Inl (UniqueViolation ''tasks_pkey'')
            else if idem \<noteq> None \<and>
                list_ex (\<lambda>t. t_caller t = caller \<and> t_user t = uid \<and> t_idem t = idem) (tasks d)
            then Inl (UniqueViolation ''tasks_idempotency_unique'')
            else if tbl_get u_id uid (users d) = None \<or> tbl_get s_id sid (sessions d) = None \<or>
                tbl_get a_id agent (agents d) = None \<or> tbl_get a_id caller (agents d) = None \<or>
                tbl_get a_id (t_active row) (agents d) = None
            then Inl (ForeignKeyViolation ''tasks'')
            else Inr (row, d\<lparr>tasks := tasks d @ [row]\<rparr>))"

definition list_session_tasks :: "user_id \<Rightarrow> session_id \<Rightarrow> nat \<Rightarrow> db \<Rightarrow> task_row list" where
  "list_session_tasks uid sid limit d =
     take limit (sort_key (\<lambda>t. - t_created t)
       (filter (\<lambda>t. t_user t = uid \<and> t_session t = sid) (tasks d)))"

definition find_idempotent :: "user_id \<Rightarrow> string \<Rightarrow> agent_id \<Rightarrow> db \<Rightarrow> task_row option" where
  "find_idempotent uid key caller d =
     find (\<lambda>t. t_caller t = caller \<and> t_user t = uid \<and> t_idem t = Some key) (tasks d)"

definition lock_task_for_delegation :: "user_id \<Rightarrow> task_id \<Rightarrow> db \<Rightarrow> task_row option" where
  "lock_task_for_delegation uid tid d = find (\<lambda>t. t_id t = tid \<and> t_user t = uid) (tasks d)"

definition reassign_guard :: "user_id \<Rightarrow> task_id \<Rightarrow> agent_id \<Rightarrow> task_row \<Rightarrow> bool" where
  "reassign_guard uid tid expected t = (t_id t = tid \<and> t_user t = uid \<and> t_active t = expected)"

definition reassign_active_agent ::
  "user_id \<Rightarrow> task_id \<Rightarrow> agent_id \<Rightarrow> agent_id \<Rightarrow> time \<Rightarrow> db \<Rightarrow> bool \<times> db" where
  "reassign_active_agent uid tid new_active expected now d =
     (length (filter (reassign_guard uid tid expected) (tasks d)) = 1,
      d\<lparr>tasks := map (\<lambda>t. if reassign_guard uid tid expected t
                          then t\<lparr>t_active := new_active, t_updated := now\<rparr> else t) (tasks d)\<rparr>)"

definition force_guard :: "user_id \<Rightarrow> task_id \<Rightarrow> task_row \<Rightarrow> bool" where
  "force_guard uid tid t = (t_id t = tid \<and> t_user t = uid \<and> \<not> is_terminal (t_state t))"

definition force_fail_task ::
  "user_id \<Rightarrow> task_id \<Rightarrow> int \<Rightarrow> json option \<Rightarrow> time \<Rightarrow> db \<Rightarrow> bool \<times> db" where
  "force_fail_task uid tid sc er now d =
     (length (filter (force_guard uid tid) (tasks d)) = 1,
      d\<lparr>tasks := map (\<lambda>t. if force_guard uid tid t
          then t\<lparr>t_state := FAILED, t_status_code := Some sc, t_error := er, t_updated := now\<rparr>
          else t) (tasks d)\<rparr>)"

section \<open>Tree walks\<close>

definition children :: "user_id \<Rightarrow> db \<Rightarrow> task_id \<Rightarrow> task_row list" where
  "children uid d p = filter (\<lambda>t. t_parent t = Some p \<and> t_user t = uid) (tasks d)"

text \<open>\<open>descend n lvl\<close>: a level of the tree and the \<open>n\<close> levels below it.\<close>

fun descend :: "nat \<Rightarrow> user_id \<Rightarrow> db \<Rightarrow> task_row list \<Rightarrow> task_row list" where
  "descend 0 uid d lvl = lvl"
| "descend (Suc n) uid d lvl = lvl @ descend n uid d (concat (map (\<lambda>t. children uid d (t_id t)) lvl))"

definition list_descendants :: "user_id \<Rightarrow> task_id \<Rightarrow> db \<Rightarrow> task_row list" where
  "list_descendants uid tid d = descend MAX_TASK_TREE_DEPTH uid d (children uid d tid)"

text \<open>\<open>chain n\<close>: a task and its ancestors within the user's tree, at most \<open>n\<close> rows.\<close>

fun chain :: "nat \<Rightarrow> user_id \<Rightarrow> db \<Rightarrow> task_id option \<Rightarrow> task_row list" where
  "chain 0 uid d tid = []"
| "chain (Suc n) uid d None = []"
| "chain (Suc n) uid d (Some tid) =
     (case get_task uid tid d of None \<Rightarrow> [] | Some t \<Rightarrow> t # chain n uid d (t_parent t))"

definition task_has_ancestor_with_agent :: "task_id \<Rightarrow> agent_id \<Rightarrow> user_id \<Rightarrow> db \<Rightarrow> bool" where
  "task_has_ancestor_with_agent tid agent uid d =
     list_ex (\<lambda>t. t_agent t = agent) (chain (Suc MAX_TASK_TREE_DEPTH) uid d (Some tid))"

definition count_task_chain_depth :: "task_id \<Rightarrow> user_id \<Rightarrow> db \<Rightarrow> nat" where
  "count_task_chain_depth tid uid d = length (chain MAX_TASK_TREE_DEPTH uid d (Some tid))"

section \<open>Task events\<close>

definition insert_task_event ::
  "user_id \<Rightarrow> task_id \<Rightarrow> string \<Rightarrow> agent_id option \<Rightarrow> task_state option \<Rightarrow> task_state option \<Rightarrow>
   (string \<times> json) list \<Rightarrow> time \<Rightarrow> db \<Rightarrow> db_error + event_row \<times> db" where
  "insert_task_event uid tid kind actor frm to payload now d =
     (let row = \<lparr>ev_task = tid, ev_ts = now, ev_kind = kind, ev_actor = actor, ev_from = frm,
                 ev_to = to, ev_payload = JObj payload\<rparr>
      in if list_ex (\<lambda>t. t_id t = tid \<and> t_user t = uid) (tasks d)
         then Inr (row, d\<lparr>events := events d @ [row]\<rparr>)
         else Inl (CrossUserTaskAccess tid))"

definition list_task_events :: "user_id \<Rightarrow> task_id \<Rightarrow> nat \<Rightarrow> db \<Rightarrow> event_row list" where
  "list_task_events uid tid limit d =
     (if map_option t_user (tbl_get t_id tid (tasks d)) \<noteq> Some uid then []
      else take limit (sort_key ev_ts (filter (\<lambda>e. ev_task e = tid) (events d))))"

definition payload_to :: "event_row \<Rightarrow> agent_id list" where
  "payload_to e = (case json_get (ev_payload e) ''to'' of Some (JStr a) \<Rightarrow> [a] | _ \<Rightarrow> [])"

definition list_delegation_destinations :: "user_id \<Rightarrow> task_id \<Rightarrow> nat \<Rightarrow> db \<Rightarrow> agent_id list" where
  "list_delegation_destinations uid tid limit d =
     (if list_ex (\<lambda>t. t_id t = tid \<and> t_user t = uid) (tasks d)
      then concat (map payload_to
        (take limit (sort_key ev_ts (filter (\<lambda>e. ev_task e = tid \<and> ev_kind e = ''delegated'') (events d)))))
      else [])"

section \<open>Sweeps and lookups outside the scope\<close>

definition find_expired_tasks :: "time \<Rightarrow> nat \<Rightarrow> db \<Rightarrow> task_row list" where
  "find_expired_tasks now limit d =
     take limit (sort_key (\<lambda>t. the (t_deadline t))
       (filter (\<lambda>t. (case t_deadline t of None \<Rightarrow> False | Some dl \<Rightarrow> dl < now) \<and>
                    t_state t \<in> {QUEUED, RUNNING, WAITING_CHILDREN}) (tasks d)))"

definition list_tasks_by_agent :: "agent_id \<Rightarrow> nat \<Rightarrow> nat \<Rightarrow> db \<Rightarrow> task_row list" where
  "list_tasks_by_agent agent limit offset d =
     take limit (drop offset (sort_key (\<lambda>t. - t_created t) (filter (\<lambda>t. t_agent t = agent) (tasks d))))"

definition list_tasks_by_user :: "user_id \<Rightarrow> nat \<Rightarrow> nat \<Rightarrow> db \<Rightarrow> task_row list" where
  "list_tasks_by_user uid limit offset d =
     take limit (drop offset (sort_key (\<lambda>t. - t_created t) (filter (\<lambda>t. t_user t = uid) (tasks d))))"

definition user_is_active :: "user_row option \<Rightarrow> bool" where
  "user_is_active u = (case u of None \<Rightarrow> False | Some r \<Rightarrow> u_suspended r = None \<and> u_deleted r = None)"

definition get_user_by_id :: "user_id \<Rightarrow> db \<Rightarrow> user_row option" where
  "get_user_by_id uid d = tbl_get u_id uid (users d)"

definition get_agent :: "agent_id \<Rightarrow> db \<Rightarrow> agent_row option" where
  "get_agent aid d = tbl_get a_id aid (agents d)"

section \<open>Purging a session\<close>

definition delete_file_names_for_scope :: "user_id \<Rightarrow> string \<Rightarrow> db \<Rightarrow> nat \<times> db" where
  "delete_file_names_for_scope uid scope d =
     (let hit = (\<lambda>n. n_user n = uid \<and> n_scope n = scope)
      in (length (filter hit (names d)), d\<lparr>names := filter (\<lambda>n. \<not> hit n) (names d)\<rparr>))"

text \<open>
  The statements of the purge in order; the deletes of tasks and of the session check the
  foreign keys that point at them, and a violation aborts the transaction.
\<close>

definition purge_session :: "user_id \<Rightarrow> session_id \<Rightarrow> db \<Rightarrow> db_error + bool \<times> db" where
  "purge_session uid sid d =
     (let tids = map t_id (filter (\<lambda>t. t_session t = sid \<and> t_user t = uid) (tasks d));
          d1 = d\<lparr>events := filter (\<lambda>e. ev_task e \<notin> set tids) (events d)\<rparr>;
          d2 = snd (delete_file_names_for_scope uid (''session:'' @ sid) d1);
          d3 = d2\<lparr>files := map (\<lambda>f. if f_user f = uid \<and> f_session f = Some sid
                                     then f\<lparr>f_session := None\<rparr> else f) (files d2)\<rparr>;
          d4 = d3\<lparr>files := map (\<lambda>f. if f_user f = uid \<and> (case f_task f of None \<Rightarrow> False | Some t \<Rightarrow> t \<in> set tids)
                                     then f\<lparr>f_task := None\<rparr> else f) (files d3)\<rparr>;
          kept = filter (\<lambda>t. \<not> (t_session t = sid \<and> t_user t = uid)) (tasks d4)
      in if list_ex (\<lambda>t. case t_parent t of None \<Rightarrow> False | Some p \<Rightarrow> p \<in> set tids) kept
            \<or> list_ex (\<lambda>f. case f_task f of None \<Rightarrow> False | Some t \<Rightarrow> t \<in> set tids) (files d4)
         then Inl (ForeignKeyViolation ''tasks'')
         else let d5 = d4\<lparr>tasks := kept\<rparr>;
                  hit = list_ex (owns_session uid sid) (sessions d5)
              in if hit \<and> (list_ex (\<lambda>t. t_session t = sid) (tasks d5) \<or>
                           list_ex (\<lambda>f. f_session f = Some sid) (files d5))
                 then Inl (ForeignKeyViolation ''sessions'')
                 else Inr (hit, d5\<lparr>sessions := filter (\<lambda>s. \<not> owns_session uid sid s) (sessions d5)\<rparr>))"

end
