(* ===== verification/QueryFacts.thy ===== *)
theory QueryFacts
  imports Queries
begin

text \<open>
  What the statements of \<open>Queries\<close> do to the tables: each keeps the database's
  constraints and lets the tasks table evolve; scoped statements touch the scope's user
  only; the walks on \<open>parent_task_id\<close> are complete on a well-formed tree.
\<close>

section \<open>Reading\<close>

lemma get_task_iff: "db_ok d \<Longrightarrow> get_task uid tid d = Some t \<longleftrightarrow> find_task d tid = Some t \<and> t_user t = uid"
proof
  assume ok: "db_ok d" and g: "get_task uid tid d = Some t"
  from g have "t \<in> set (tasks d)" "t_id t = tid" "t_user t = uid"
    unfolding get_task_def by (auto dest: find_SomeD)
  with find_task_in_set [OF ok] show "find_task d tid = Some t \<and> t_user t = uid" by auto
next
  assume ok: "db_ok d" and f: "find_task d tid = Some t \<and> t_user t = uid"
  then have t: "t \<in> set (tasks d)" "t_id t = tid" by (auto dest: find_task_SomeD)
  show "get_task uid tid d = Some t"
  proof (cases "get_task uid tid d")
    case None
    then show ?thesis using t f unfolding get_task_def by (auto simp: find_None_iff)
  next
    case (Some u)
    then have "u \<in> set (tasks d)" "t_id u = tid" unfolding get_task_def by (auto dest: find_SomeD)
    with find_task_in_set [OF ok] f Some show ?thesis by auto
  qed
qed

lemma lock_is_get: "lock_task_for_delegation = get_task"
  by (simp add: lock_task_for_delegation_def get_task_def fun_eq_iff)

lemma find_idempotent_SomeD:
  "find_idempotent uid key caller d = Some t \<Longrightarrow>
   t \<in> set (tasks d) \<and> t_caller t = caller \<and> t_user t = uid \<and> t_idem t = Some key"
  unfolding find_idempotent_def by (auto dest: find_SomeD)

lemma idem_unique_eq:
  assumes "idem_unique ts" "t \<in> set ts" "u \<in> set ts" "t_caller t = t_caller u" "t_user t = t_user u"
    "t_idem t = t_idem u" "t_idem t \<noteq> None"
  shows "t = u"
proof -
  let ?f = "\<lambda>t. (t_caller t, t_user t, the (t_idem t))"
  let ?l = "filter (\<lambda>t. t_idem t \<noteq> None) ts"
  have "inj_on ?f (set ?l)" using assms(1) by (simp add: idem_unique_def distinct_map)
  moreover have "t \<in> set ?l" "u \<in> set ?l" using assms by auto
  moreover have "?f t = ?f u" using assms(4-6) by simp
  ultimately show ?thesis by (meson inj_onD)
qed

lemma find_idempotent_in:
  assumes "db_ok d" "t \<in> set (tasks d)" "t_idem t = Some key"
  shows "find_idempotent (t_user t) key (t_caller t) d = Some t"
proof (cases "find_idempotent (t_user t) key (t_caller t) d")
  case None
  then show ?thesis using assms unfolding find_idempotent_def by (auto simp: find_None_iff)
next
  case (Some u)
  with find_idempotent_SomeD [OF Some] idem_unique_eq [of "tasks d" u t] assms db_okD(7)
  show ?thesis by auto
qed

section \<open>Creating a task\<close>

text \<open>The row a successful insert creates, and its place in the database.\<close>

lemma create_task_Inr:
  assumes "create_task uid new sid agent caller parent prio dl idem inp active now d = Inr (row, d')"
  shows "d' = d\<lparr>tasks := tasks d @ [row]\<rparr>" "find_task d new = None" "t_id row = new" "t_user row = uid"
    "t_state row = QUEUED" "t_agent row = agent" "t_caller row = caller" "t_parent row = parent"
    "t_session row = sid" "t_idem row = idem" "t_deadline row = dl" "t_input row = inp"
    "t_active row = (case active of None \<Rightarrow> agent | Some a \<Rightarrow> a)"
    "t_output row = None" "t_status_code row = None" "t_error row = None" "t_priority row = prio"
    "idem \<noteq> None \<Longrightarrow> \<not> (\<exists>t\<in>set (tasks d). t_caller t = caller \<and> t_user t = uid \<and> t_idem t = idem)"
    "case parent of None \<Rightarrow> t_root row = new
       | Some p \<Rightarrow> \<exists>pt. get_task uid p d = Some pt \<and> t_root row = t_root pt"
  using assms
  by (auto simp: create_task_def bindE_Inr Let_def find_task_def list_ex_iff
      split: if_splits option.splits)

lemma find_task_append:
  "find_task (d\<lparr>tasks := tasks d @ [row]\<rparr>) tid =
   (case find_task d tid of None \<Rightarrow> if t_id row = tid then Some row else None | Some t \<Rightarrow> Some t)"
  by (simp add: find_task_def tbl_get_append tbl_get_Cons tbl_get_Nil split: option.split)

lemma create_task_find:
  assumes "create_task uid new sid agent caller parent prio dl idem inp active now d = Inr (row, d')"
  shows "find_task d' = (find_task d)(new \<mapsto> row)"
  using create_task_Inr(1-3) [OF assms]
  by (auto simp: find_task_append fun_eq_iff split: option.split)

lemma create_task_evolves:
  assumes "create_task uid new sid agent caller parent prio dl idem inp active now d = Inr (row, d')"
  shows "evolves d d'"
  using create_task_find [OF assms] create_task_Inr(2) [OF assms] by (auto simp: evolves_def)

lemma idem_unique_snoc:
  assumes "idem_unique ts" "t_idem r \<noteq> None \<Longrightarrow>
     \<not> (\<exists>t\<in>set ts. t_caller t = t_caller r \<and> t_user t = t_user r \<and> t_idem t = t_idem r)"
  shows "idem_unique (ts @ [r])"
  using assms unfolding idem_unique_def by (auto simp: image_iff)

lemma create_task_db_ok:
  assumes "create_task uid new sid agent caller parent prio dl idem inp active now d = Inr (row, d')" "db_ok d"
  shows "db_ok d'"
proof -
  note c = create_task_Inr [OF assms(1)]
  have "tbl_ok t_id (tasks d @ [row])"
    unfolding tbl_ok_snoc using db_okD(4) [OF assms(2)] c(2,3) by (simp add: find_task_def)
  moreover have "idem_unique (tasks d @ [row])"
    by (rule idem_unique_snoc) (use db_okD(7) [OF assms(2)] c(4,7,10,18) in auto)
  ultimately show ?thesis using assms(2) c(1) by (simp add: db_ok_def)
qed

section \<open>Guarded updates\<close>

text \<open>
  An update of every row that satisfies a guard naming its primary key is an update of one
  row.
\<close>

lemma guarded_update:
  assumes "db_ok d" "\<And>t. g t \<Longrightarrow> t_id t = tid" "\<And>t. same_identity t (f t)"
  shows "find_task (d\<lparr>tasks := map (\<lambda>t. if g t then f t else t) (tasks d)\<rparr>) k =
      (case find_task d k of None \<Rightarrow> None | Some t \<Rightarrow> Some (if g t then f t else t))"
    "db_ok (d\<lparr>tasks := map (\<lambda>t. if g t then f t else t) (tasks d)\<rparr>)"
    "length (filter g (tasks d)) = 1 \<longleftrightarrow> (\<exists>t. find_task d tid = Some t \<and> g t)"
proof -
  let ?u = "\<lambda>t. if g t then f t else t"
  have key: "t_id (f t) = t_id t" "t_caller (f t) = t_caller t" "t_user (f t) = t_user t" "t_idem (f t) = t_idem t" for t
    using assms(3) [of t] by (simp_all add: same_identity_def)
  show "find_task (d\<lparr>tasks := map ?u (tasks d)\<rparr>) k =
      (case find_task d k of None \<Rightarrow> None | Some t \<Rightarrow> Some (?u t))"
  proof -
    have "tbl_get t_id k (map ?u ts) = (case tbl_get t_id k ts of None \<Rightarrow> None | Some t \<Rightarrow> Some (?u t))" for ts
      by (induction ts) (auto simp: tbl_get_Cons tbl_get_Nil key)
    then show ?thesis by (simp add: find_task_def)
  qed
  have "map t_id (map ?u (tasks d)) = map t_id (tasks d)" by (simp add: key)
  then have "tbl_ok t_id (map ?u (tasks d))" using db_okD(4) [OF assms(1)] by (simp only: tbl_ok_def)
  moreover have "idem_unique (map ?u (tasks d)) = idem_unique (tasks d)"
  proof -
    have "map (\<lambda>t. (t_caller t, t_user t, the (t_idem t))) (filter (\<lambda>t. t_idem t \<noteq> None) (map ?u ts)) =
      map (\<lambda>t. (t_caller t, t_user t, the (t_idem t))) (filter (\<lambda>t. t_idem t \<noteq> None) ts)" for ts
      by (induction ts) (auto simp: key)
    then show ?thesis by (simp add: idem_unique_def)
  qed
  ultimately show "db_ok (d\<lparr>tasks := map ?u (tasks d)\<rparr>)"
    using assms(1) by (simp add: db_ok_def)
  show "length (filter g (tasks d)) = 1 \<longleftrightarrow> (\<exists>t. find_task d tid = Some t \<and> g t)"
  proof
    assume "length (filter g (tasks d)) = 1"
    then have "filter g (tasks d) \<noteq> []" by auto
    then obtain t where "t \<in> set (tasks d)" "g t" by (auto simp: filter_empty_conv)
    with assms(2) find_task_in_set [OF assms(1)] show "\<exists>t. find_task d tid = Some t \<and> g t" by blast
  next
    assume "\<exists>t. find_task d tid = Some t \<and> g t"
    then obtain t where t: "t \<in> set (tasks d)" "g t" by (auto dest: find_task_SomeD)
    have "set (filter g (tasks d)) = {t}"
      using t assms(2) find_task_in_set [OF assms(1)] by (auto, metis option.inject)
    moreover have "distinct (filter g (tasks d))"
      using db_okD(4) [OF assms(1)] by (auto simp: tbl_ok_def distinct_map)
    ultimately show "length (filter g (tasks d)) = 1"
      by (metis One_nat_def card.empty card.insert distinct_card empty_iff finite.emptyI)
  qed
qed

lemma reassign_facts:
  assumes "db_ok d" "reassign_active_agent uid tid new expected now d = (hit, d')"
  shows "db_ok d'" "hit \<longleftrightarrow> (\<exists>t. find_task d tid = Some t \<and> t_user t = uid \<and> t_active t = expected)"
    "find_task d' = (if hit then (find_task d)(tid \<mapsto> (the (find_task d tid))\<lparr>t_active := new, t_updated := now\<rparr>)
       else find_task d)"
    "events d' = events d" "users d' = users d" "sessions d' = sessions d" "agents d' = agents d"
    "files d' = files d" "names d' = names d" "audit d' = audit d"
proof -
  have g: "\<And>t. reassign_guard uid tid expected t \<Longrightarrow> t_id t = tid" by (simp add: reassign_guard_def)
  have f: "\<And>t. same_identity t (t\<lparr>t_active := new, t_updated := now\<rparr>)" by (simp add: same_identity_def)
  note gu = guarded_update [of d "reassign_guard uid tid expected", OF assms(1) g f]
  show "db_ok d'" using gu(2) assms(2) by (auto simp: reassign_active_agent_def)
  show hit: "hit \<longleftrightarrow> (\<exists>t. find_task d tid = Some t \<and> t_user t = uid \<and> t_active t = expected)"
    using gu(3) assms(2) find_task_SomeD [of d tid]
    by (simp add: reassign_active_agent_def reassign_guard_def) blast
  show "find_task d' = (if hit then (find_task d)(tid \<mapsto> (the (find_task d tid))\<lparr>t_active := new, t_updated := now\<rparr>)
       else find_task d)"
  proof
    fix k
    have e: "find_task d' k = (case find_task d k of None \<Rightarrow> None
        | Some t \<Rightarrow> Some (if reassign_guard uid tid expected t then t\<lparr>t_active := new, t_updated := now\<rparr> else t))"
      using gu(1) assms(2) by (auto simp: reassign_active_agent_def)
    then show "find_task d' k = (if hit then (find_task d)(tid \<mapsto> (the (find_task d tid))\<lparr>t_active := new, t_updated := now\<rparr>)
       else find_task d) k"
      using hit by (auto simp: reassign_guard_def split: option.splits dest: find_task_SomeD)
  qed
qed (use assms(2) in \<open>auto simp: reassign_active_agent_def\<close>)

lemma force_fail_facts:
  assumes "db_ok d" "force_fail_task uid tid sc er now d = (hit, d')"
  shows "db_ok d'" "hit \<longleftrightarrow> (\<exists>t. find_task d tid = Some t \<and> t_user t = uid \<and> \<not> is_terminal (t_state t))"
    "find_task d' = (if hit then (find_task d)(tid \<mapsto> (the (find_task d tid))
        \<lparr>t_state := FAILED, t_status_code := Some sc, t_error := er, t_updated := now\<rparr>) else find_task d)"
    "events d' = events d" "users d' = users d" "sessions d' = sessions d" "agents d' = agents d"
    "files d' = files d" "names d' = names d" "audit d' = audit d"
proof -
  let ?f = "\<lambda>t. t\<lparr>t_state := FAILED, t_status_code := Some sc, t_error := er, t_updated := now\<rparr>"
  have g: "\<And>t. force_guard uid tid t \<Longrightarrow> t_id t = tid" by (simp add: force_guard_def)
  have f: "\<And>t. same_identity t (?f t)" by (simp add: same_identity_def)
  note gu = guarded_update [of d "force_guard uid tid", OF assms(1) g f]
  show "db_ok d'" using gu(2) assms(2) by (auto simp: force_fail_task_def)
  show hit: "hit \<longleftrightarrow> (\<exists>t. find_task d tid = Some t \<and> t_user t = uid \<and> \<not> is_terminal (t_state t))"
    using gu(3) assms(2) find_task_SomeD [of d tid]
    by (simp add: force_fail_task_def force_guard_def) blast
  show "find_task d' = (if hit then (find_task d)(tid \<mapsto> ?f (the (find_task d tid))) else find_task d)"
  proof
    fix k
    have "find_task d' k = (case find_task d k of None \<Rightarrow> None
        | Some t \<Rightarrow> Some (if force_guard uid tid t then ?f t else t))"
      using gu(1) assms(2) by (auto simp: force_fail_task_def)
    then show "find_task d' k = (if hit then (find_task d)(tid \<mapsto> ?f (the (find_task d tid))) else find_task d) k"
      using hit by (auto simp: force_guard_def split: option.splits dest: find_task_SomeD)
  qed
qed (use assms(2) in \<open>auto simp: force_fail_task_def\<close>)

section \<open>Parents\<close>

text \<open>
  Parents precede their children in the table, belong to the same user and share the root:
  the invariant that makes \<open>parent_task_id\<close> a forest.
\<close>

fun forest :: "task_row list \<Rightarrow> bool" where
  "forest [] = True"
| "forest (t # ts) = (forest ts \<and> (case t_parent t of
     None \<Rightarrow> t_root t = t_id t
   | Some p \<Rightarrow> \<exists>u\<in>set ts. t_id u = p \<and> t_user u = t_user t \<and> t_root u = t_root t))"

definition tree_ok :: "db \<Rightarrow> bool" where
  "tree_ok d = forest (rev (tasks d))"

lemma forest_map:
  "(\<And>t. same_identity t (f t)) \<Longrightarrow> forest ts \<Longrightarrow> forest (map f ts)"
  by (induction ts) (auto simp: same_identity_def split: option.splits)

lemma tree_ok_update:
  "(\<And>t. same_identity t (f t)) \<Longrightarrow> tree_ok d \<Longrightarrow> tree_ok (d\<lparr>tasks := map f (tasks d)\<rparr>)"
  by (simp add: tree_ok_def rev_map forest_map)

lemma tree_ok_tasks_eq: "tasks d' = tasks d \<Longrightarrow> tree_ok d' = tree_ok d"
  by (simp add: tree_ok_def)

lemma create_task_tree_ok:
  assumes "create_task uid new sid agent caller parent prio dl idem inp active now d = Inr (row, d')" "tree_ok d"
  shows "tree_ok d'"
proof -
  note c = create_task_Inr [OF assms(1)]
  have "case t_parent row of None \<Rightarrow> t_root row = t_id row
      | Some p \<Rightarrow> \<exists>u\<in>set (rev (tasks d)). t_id u = p \<and> t_user u = t_user row \<and> t_root u = t_root row"
    using c(3,4,8,19) by (auto simp: get_task_def split: option.splits dest!: find_SomeD)
  then show ?thesis using assms(2) c(1) by (simp add: tree_ok_def)
qed

lemma same_identity_set_state: "same_identity t (set_state st sc out er now t)"
  by (simp add: same_identity_def)

lemma transition_tree_ok:
  assumes "task_transition tid st reason actor pl sc out er now d = Inr (r, d')" "tree_ok d"
  shows "tree_ok d'"
proof -
  have "tree_ok (d\<lparr>tasks := tbl_upd t_id tid (set_state st sc out er now) (tasks d)\<rparr>)"
    unfolding tbl_upd_def by (rule tree_ok_update [OF _ assms(2)])
      (simp add: same_identity_set_state, simp add: same_identity_def)
  with assms show ?thesis
    by (auto simp: transition_cases Let_def tree_ok_def split: option.splits if_splits)
qed

text \<open>A walk to the parent moves strictly towards the front of the table.\<close>

lemma forest_parent:
  "forest ts \<Longrightarrow> t \<in> set ts \<Longrightarrow> t_parent t = Some p \<Longrightarrow>
   \<exists>u\<in>set ts. t_id u = p \<and> t_user u = t_user t \<and> t_root u = t_root t"
  by (induction ts) (auto split: option.splits)

lemma forest_root: "forest ts \<Longrightarrow> t \<in> set ts \<Longrightarrow> t_parent t = None \<Longrightarrow> t_root t = t_id t"
  by (induction ts) (auto split: option.splits)

lemma parent_found:
  assumes "db_ok d" "tree_ok d" "find_task d tid = Some t" "t_parent t = Some p"
  shows "\<exists>u. find_task d p = Some u \<and> t_user u = t_user t \<and> t_root u = t_root t"
proof -
  from forest_parent [of "rev (tasks d)" t p] assms find_task_SomeD [OF assms(3)]
  obtain u where "u \<in> set (tasks d)" "t_id u = p" "t_user u = t_user t" "t_root u = t_root t"
    by (auto simp: tree_ok_def)
  with find_task_in_set [OF assms(1)] show ?thesis by auto
qed

section \<open>Descendants\<close>

text \<open>\<open>below d a n x\<close>: row \<open>x\<close> is \<open>n + 1\<close> parent links below task \<open>a\<close>.\<close>

fun below :: "user_id \<Rightarrow> db \<Rightarrow> task_id \<Rightarrow> nat \<Rightarrow> task_row \<Rightarrow> bool" where
  "below uid d a 0 x = (x \<in> set (children uid d a))"
| "below uid d a (Suc n) x = (\<exists>y. y \<in> set (children uid d a) \<and> below uid d (t_id y) n x)"

lemma set_descend:
  "set (descend n uid d lvl) = set lvl \<union> {x. \<exists>y\<in>set lvl. \<exists>k<n. below uid d (t_id y) k x}"
proof (induction n arbitrary: lvl)
  case (Suc n)
  let ?next = "concat (map (\<lambda>t. children uid d (t_id t)) lvl)"
  have "{x. \<exists>y\<in>set ?next. \<exists>k<n. below uid d (t_id y) k x} \<union> set ?next =
      {x. \<exists>y\<in>set lvl. \<exists>k<Suc n. below uid d (t_id y) k x}" (is "?L = ?R")
  proof
    show "?L \<subseteq> ?R"
    proof
      fix x assume "x \<in> ?L"
      then consider y z k where "y \<in> set lvl" "z \<in> set (children uid d (t_id y))" "k < n" "below uid d (t_id z) k x"
        | y where "y \<in> set lvl" "x \<in> set (children uid d (t_id y))" by auto
      then show "x \<in> ?R"
      proof cases
        case 1
        then have "below uid d (t_id y) (Suc k) x" "Suc k < Suc n" by auto
        with 1(1) show ?thesis by blast
      next
        case 2
        then have "below uid d (t_id y) 0 x" by simp
        with 2(1) show ?thesis by blast
      qed
    qed
    show "?R \<subseteq> ?L"
    proof
      fix x assume "x \<in> ?R"
      then obtain y k where "y \<in> set lvl" "k < Suc n" "below uid d (t_id y) k x" by blast
      then show "x \<in> ?L" by (cases k) auto
    qed
  qed
  moreover have "set (descend (Suc n) uid d lvl) =
      set lvl \<union> (set ?next \<union> {x. \<exists>y\<in>set ?next. \<exists>k<n. below uid d (t_id y) k x})"
    by (simp only: descend.simps set_append Suc)
  ultimately show ?case by (simp only: Un_commute)
qed simp

lemma set_list_descendants:
  "set (list_descendants uid tid d) = {x. \<exists>n\<le>MAX_TASK_TREE_DEPTH. below uid d tid n x}"
proof -
  have "(\<exists>n\<le>m. below uid d tid n x) \<longleftrightarrow> below uid d tid 0 x \<or> (\<exists>n<m. below uid d tid (Suc n) x)" for m x
    by (metis Suc_leI less_Suc_eq_le less_eq_nat.simps(1) not0_implies_Suc Suc_le_eq)
  then show ?thesis by (auto simp: list_descendants_def set_descend)
qed

lemma below_in_tasks: "below uid d a n x \<Longrightarrow> x \<in> set (tasks d) \<and> t_user x = uid"
  by (induction n arbitrary: a) (auto simp: children_def)

end
