(* ===== verification/Frames.thy ===== *)
theory Frames
  imports Tables
begin

text \<open>
  The frames of \<open>bp_protocol/frames.py\<close> that the task, delivery and socket code builds or
  reads.  The trace and span ids, the time stamp and the protocol version of the envelope
  are carried through unread and left out.  A correlation id is kept where the receiver
  answers to it.  A model whose validation can fail is built by a function to \<open>option\<close>,
  \<open>None\<close> being pydantic's \<open>ValidationError\<close>.
\<close>

section \<open>Agent output\<close>

record agent_output =
  ao_content :: "string option"
  ao_files :: "string list"
  ao_metadata :: "(string \<times> json) list"

definition MAX_ATTACHMENTS :: nat where
  "MAX_ATTACHMENTS = 256"

definition output_ok :: "agent_output \<Rightarrow> bool" where
  "output_ok a = (length (ao_files a) \<le> MAX_ATTACHMENTS)"

text \<open>\<open>model_dump()\<close> and \<open>model_validate\<close>.\<close>

definition dump_output :: "agent_output \<Rightarrow> json" where
  "dump_output a = JObj [
     (''content'', case ao_content a of None \<Rightarrow> JNull | Some c \<Rightarrow> JStr c),
     (''files'', JArr (map JStr (ao_files a))),
     (''metadata'', JObj (ao_metadata a))]"

fun json_strings :: "json list \<Rightarrow> string list option" where
  "json_strings [] = Some []"
| "json_strings (JStr s # js) = map_option ((#) s) (json_strings js)"
| "json_strings _ = None"

definition parse_content :: "json option \<Rightarrow> string option option" where
  "parse_content j = (case j of None \<Rightarrow> Some None | Some JNull \<Rightarrow> Some None
     | Some (JStr s) \<Rightarrow> Some (Some s) | _ \<Rightarrow> None)"

definition parse_files :: "json option \<Rightarrow> string list option" where
  "parse_files j = (case j of None \<Rightarrow> Some []
     | Some (JArr js) \<Rightarrow> if length js \<le> MAX_ATTACHMENTS then json_strings js else None
     | _ \<Rightarrow> None)"

definition parse_metadata :: "json option \<Rightarrow> (string \<times> json) list option" where
  "parse_metadata j = (case j of None \<Rightarrow> Some [] | Some (JObj kvs) \<Rightarrow> Some kvs | _ \<Rightarrow> None)"

definition parse_output :: "json \<Rightarrow> agent_output option" where
  "parse_output j = (case j of
     JObj kvs \<Rightarrow>
       (case (parse_content (map_of kvs ''content''), parse_files (map_of kvs ''files''),
              parse_metadata (map_of kvs ''metadata'')) of
          (Some c, Some fs, Some m) \<Rightarrow> Some \<lparr>ao_content = c, ao_files = fs, ao_metadata = m\<rparr>
        | _ \<Rightarrow> None)
   | _ \<Rightarrow> None)"

lemma json_strings_map [simp]: "json_strings (map JStr fs) = Some fs"
  by (induction fs) auto

lemma parse_dump_output: "output_ok a \<Longrightarrow> parse_output (dump_output a) = Some a"
  by (cases a) (simp add: parse_output_def dump_output_def parse_content_def parse_files_def
      parse_metadata_def output_ok_def split: option.split)

section \<open>Frames\<close>

record new_task_frame =
  nf_agent :: agent_id
  nf_task :: "task_id option"
  nf_parent :: "task_id option"
  nf_dest :: agent_id
  nf_user :: user_id
  nf_level :: level
  nf_session :: session_id
  nf_priority :: priority
  nf_deadline :: "time option"
  nf_idem :: "string option"
  nf_mode :: "string option"
  nf_payload :: json
  nf_delegator :: "agent_id option"

record result_frame =
  rf_agent :: agent_id
  rf_task :: task_id
  rf_parent :: "task_id option"
  rf_status :: task_status
  rf_code :: int
  rf_output :: "agent_output option"
  rf_error :: "json option"

record progress_frame =
  pf_agent :: agent_id
  pf_task :: task_id
  pf_event :: string
  pf_content :: string
  pf_metadata :: "(string \<times> json) list"

record ack_frame =
  ak_ref :: corr_id
  ak_accepted :: bool
  ak_reason :: "string option"
  ak_task :: "task_id option"

text \<open>A row of a file listing, and the outcome of a file operation.\<close>

record file_entry =
  fe_name :: string
  fe_size :: int
  fe_mime :: "string option"
  fe_created :: time

datatype file_result =
    FileError string
  | SavedName string
  | FetchGrant string string time   \<comment> \<open>url, token and expiry\<close>
  | NameList "string list"
  | EntryList "file_entry list"
  | StatOf file_entry
  | DeletedCount nat

text \<open>One destination of a catalog (\<open>visibility.py\<close>).  The published fields are passed on as they are.\<close>

record catalog_entry =
  ce_description :: json
  ce_groups :: "string list"
  ce_caps :: "string list"
  ce_accepts :: json
  ce_non_tool_modes :: json
  ce_mode_descriptions :: json
  ce_hidden :: json
  ce_docs :: json
  ce_levels :: "level list"   \<comment> \<open>\<open>callable_user_levels\<close>\<close>
  ce_last_seen :: "time option"

type_synonym catalog = "(agent_id \<times> catalog_entry) list"

datatype frame =
    NewTaskF corr_id new_task_frame
  | ResultF result_frame
  | ProgressF progress_frame
  | CancelF "task_id option" "corr_id option" string   \<comment> \<open>task, LLM call, reason\<close>
  | AckF ack_frame
  | PingF corr_id
  | PongF corr_id
  | ErrorF string string
  | CatalogF catalog
  | LlmErrorF corr_id string string               \<comment> \<open>\<open>LlmResultFrame\<close> with an error\<close>
  | FileResultF corr_id file_result
  | FileUploadGrantF corr_id "string + string \<times> string \<times> time"   \<comment> \<open>an error, or url, token and expiry\<close>

fun frame_type :: "frame \<Rightarrow> string" where
  "frame_type (NewTaskF c f) = ''NewTask''"
| "frame_type (ResultF f) = ''Result''"
| "frame_type (ProgressF f) = ''Progress''"
| "frame_type (CancelF t c r) = ''Cancel''"
| "frame_type (AckF a) = ''Ack''"
| "frame_type (PingF c) = ''Ping''"
| "frame_type (PongF c) = ''Pong''"
| "frame_type (ErrorF c m) = ''Error''"
| "frame_type (CatalogF c) = ''CatalogUpdate''"
| "frame_type (LlmErrorF r c m) = ''LlmResult''"
| "frame_type (FileResultF r x) = ''FileResult''"
| "frame_type (FileUploadGrantF r x) = ''FileUploadGrant''"

definition ACK_REASON_MAX :: nat where
  "ACK_REASON_MAX = 256"

definition mk_ack :: "corr_id \<Rightarrow> bool \<Rightarrow> string option \<Rightarrow> task_id option \<Rightarrow> frame option" where
  "mk_ack ref accepted reason tid =
     (case reason of
        Some r \<Rightarrow> if length r \<le> ACK_REASON_MAX
                  then Some (AckF \<lparr>ak_ref = ref, ak_accepted = accepted, ak_reason = reason, ak_task = tid\<rparr>)
                  else None
      | None \<Rightarrow> Some (AckF \<lparr>ak_ref = ref, ak_accepted = accepted, ak_reason = None, ak_task = tid\<rparr>))"

section \<open>States and statuses\<close>

fun state_from_status :: "task_status \<Rightarrow> task_state" where
  "state_from_status Succeeded = SUCCEEDED"
| "state_from_status Failed = FAILED"
| "state_from_status CancelledSt = CANCELLED"
| "state_from_status TimedOut = TIMED_OUT"

fun status_from_state :: "task_state \<Rightarrow> task_status option" where
  "status_from_state SUCCEEDED = Some Succeeded"
| "status_from_state FAILED = Some Failed"
| "status_from_state CANCELLED = Some CancelledSt"
| "status_from_state TIMED_OUT = Some TimedOut"
| "status_from_state _ = None"

fun DEFAULT_TERMINAL_STATUS_CODE :: "task_status \<Rightarrow> int" where
  "DEFAULT_TERMINAL_STATUS_CODE Succeeded = 200"
| "DEFAULT_TERMINAL_STATUS_CODE Failed = 500"
| "DEFAULT_TERMINAL_STATUS_CODE CancelledSt = 499"
| "DEFAULT_TERMINAL_STATUS_CODE TimedOut = 504"

fun status_value :: "task_status \<Rightarrow> string" where
  "status_value Succeeded = ''succeeded''"
| "status_value Failed = ''failed''"
| "status_value CancelledSt = ''cancelled''"
| "status_value TimedOut = ''timed_out''"

fun state_value :: "task_state \<Rightarrow> string" where
  "state_value QUEUED = ''QUEUED''"
| "state_value RUNNING = ''RUNNING''"
| "state_value WAITING_CHILDREN = ''WAITING_CHILDREN''"
| "state_value SUCCEEDED = ''SUCCEEDED''"
| "state_value FAILED = ''FAILED''"
| "state_value CANCELLED = ''CANCELLED''"
| "state_value TIMED_OUT = ''TIMED_OUT''"

lemma state_of_status_terminal [simp]: "is_terminal (state_from_status s)"
  by (cases s) simp_all

lemma status_of_state_of_status [simp]: "status_from_state (state_from_status s) = Some s"
  by (cases s) simp_all

lemma status_from_state_Some: "status_from_state st = Some s \<longleftrightarrow> st = state_from_status s"
  by (cases st; cases s) simp_all

lemma status_from_state_None: "status_from_state st = None \<longleftrightarrow> \<not> is_terminal st"
  by (cases st) simp_all

end
