(* ===== verification/Correlation.thy ===== *)
theory Correlation
  imports Prelude
begin

text \<open>
  \<open>bp_router/correlation.py\<close> (\<open>PendingAcks\<close>, the router's ack futures) and
  \<open>bp_sdk/correlation.py\<close> (\<open>PendingMap\<close>, the SDK's map with a buffer for early
  results).  An asyncio future is a cell of a heap that only grows; \<open>waiting\<close> maps a
  correlation id to the address of its future and its deadline.  The locale \<open>pending_map\<close>
  is the contract both maps share.
\<close>

datatype exn =
    TimeoutError string
  | ConnectionError string
  | RuntimeError string
  | OtherError string

datatype 'v fut = Unset | Result 'v | Raised exn | Cancelled

record 'v pending =
  futs :: "'v fut list"
  waiting :: "(corr_id \<times> nat \<times> time) list"
  default_timeout :: time

definition fut_done :: "'v fut \<Rightarrow> bool" where
  "fut_done f = (f \<noteq> Unset)"

text \<open>\<open>if not future.fut_done(): future.set_...(x)\<close>\<close>

definition settle :: "nat \<Rightarrow> 'v fut \<Rightarrow> 'v fut list \<Rightarrow> 'v fut list" where
  "settle f x fs = (if f < length fs \<and> \<not> fut_done (fs ! f) then fs[f := x] else fs)"

text \<open>\<open>timeout_s or self._default_timeout\<close>: a missing or zero timeout is the default.\<close>

definition timeout_or :: "time option \<Rightarrow> time \<Rightarrow> time" where
  "timeout_or t d = (case t of None \<Rightarrow> d | Some x \<Rightarrow> if x = 0 then d else x)"

section \<open>The router's map\<close>

definition ack_register :: "corr_id \<Rightarrow> time option \<Rightarrow> time \<Rightarrow> 'v pending \<Rightarrow> nat \<times> 'v pending" where
  "ack_register cid t now p =
     (let f = length (futs p)
      in (f, p\<lparr>futs := futs p @ [Unset],
               waiting := dict_set cid (f, now + timeout_or t (default_timeout p)) (waiting p)\<rparr>))"

definition ack_settle :: "corr_id \<Rightarrow> 'v fut \<Rightarrow> 'v pending \<Rightarrow> bool \<times> 'v pending" where
  "ack_settle cid x p =
     (case map_of (waiting p) cid of
        None \<Rightarrow> (False, p)
      | Some (f, d) \<Rightarrow> (True, p\<lparr>futs := settle f x (futs p), waiting := dict_pop cid (waiting p)\<rparr>))"

definition ack_resolve :: "corr_id \<Rightarrow> 'v \<Rightarrow> 'v pending \<Rightarrow> bool \<times> 'v pending" where
  "ack_resolve cid v p = ack_settle cid (Result v) p"

definition ack_reject :: "corr_id \<Rightarrow> exn \<Rightarrow> 'v pending \<Rightarrow> bool \<times> 'v pending" where
  "ack_reject cid e p = ack_settle cid (Raised e) p"

text \<open>One rejection after another, counting those that found a future.\<close>

fun reject_each :: "(corr_id \<Rightarrow> 's \<Rightarrow> bool \<times> 's) \<Rightarrow> corr_id list \<Rightarrow> 's \<Rightarrow> nat \<times> 's" where
  "reject_each rej [] p = (0, p)"
| "reject_each rej (c # cs) p =
     (let (hit, p1) = rej c p; (n, p2) = reject_each rej cs p1
      in (if hit then Suc n else n, p2))"

definition ack_reject_ids :: "corr_id list \<Rightarrow> 'v pending \<Rightarrow> nat \<times> 'v pending" where
  "ack_reject_ids cids p =
     reject_each (\<lambda>c. ack_reject c (ConnectionError ''agent_disconnected'')) cids p"

definition expired_ids :: "time \<Rightarrow> (corr_id \<times> nat \<times> time) list \<Rightarrow> corr_id list" where
  "expired_ids now w = map fst (filter (\<lambda>(c, f, d). d \<le> now) w)"

text \<open>One tick of the reaper loop.\<close>

definition ack_reap :: "time \<Rightarrow> 'v pending \<Rightarrow> 'v pending" where
  "ack_reap now p =
     snd (reject_each (\<lambda>c. ack_reject c (TimeoutError ''ack_timeout'')) (expired_ids now (waiting p)) p)"

section \<open>The SDK's map\<close>

text \<open>A buffered value is the result, or the exception to raise.\<close>

record 'v pmap = "'v pending" +
  buffered :: "(corr_id \<times> 'v fut \<times> time) list"

definition BUFFER_RESOLVES_S :: time where
  "BUFFER_RESOLVES_S = 5"

definition BUFFER_MAX_SIZE :: nat where
  "BUFFER_MAX_SIZE = 1024"

definition pm_register :: "corr_id \<Rightarrow> time option \<Rightarrow> time \<Rightarrow> 'v pmap \<Rightarrow> nat \<times> 'v pmap" where
  "pm_register cid t now p =
     (let f = length (futs p)
      in (case map_of (buffered p) cid of
            Some (x, ts) \<Rightarrow> (f, p\<lparr>futs := futs p @ [x], buffered := dict_pop cid (buffered p)\<rparr>)
          | None \<Rightarrow>
              (f, p\<lparr>futs := futs p @ [Unset],
                    waiting := dict_set cid (f, now + timeout_or t (default_timeout p)) (waiting p)\<rparr>)))"

definition buffer_late_value :: "corr_id \<Rightarrow> 'v fut \<Rightarrow> time \<Rightarrow> 'v pmap \<Rightarrow> 'v pmap" where
  "buffer_late_value cid x now p =
     (let b = (if length (buffered p) \<ge> BUFFER_MAX_SIZE \<and> map_of (buffered p) cid = None
               then tl (buffered p) else buffered p)
      in p\<lparr>buffered := dict_set cid (x, now) b\<rparr>)"

definition pm_settle :: "corr_id \<Rightarrow> 'v fut \<Rightarrow> time \<Rightarrow> 'v pmap \<Rightarrow> bool \<times> 'v pmap" where
  "pm_settle cid x now p =
     (case map_of (waiting p) cid of
        None \<Rightarrow> (False, buffer_late_value cid x now p)
      | Some (f, d) \<Rightarrow> (True, p\<lparr>futs := settle f x (futs p), waiting := dict_pop cid (waiting p)\<rparr>))"

definition pm_resolve :: "corr_id \<Rightarrow> 'v \<Rightarrow> time \<Rightarrow> 'v pmap \<Rightarrow> bool \<times> 'v pmap" where
  "pm_resolve cid v now p = pm_settle cid (Result v) now p"

definition pm_reject :: "corr_id \<Rightarrow> exn \<Rightarrow> time \<Rightarrow> 'v pmap \<Rightarrow> bool \<times> 'v pmap" where
  "pm_reject cid e now p = pm_settle cid (Raised e) now p"

definition pm_contains :: "corr_id \<Rightarrow> 'v pmap \<Rightarrow> bool" where
  "pm_contains cid p = (map_of (waiting p) cid \<noteq> None)"

definition pm_reject_all :: "exn \<Rightarrow> time \<Rightarrow> 'v pmap \<Rightarrow> nat \<times> 'v pmap" where
  "pm_reject_all e now p = reject_each (\<lambda>c. pm_reject c e now) (map fst (waiting p)) p"

definition pm_reap :: "time \<Rightarrow> 'v pmap \<Rightarrow> 'v pmap" where
  "pm_reap now p =
     (let p1 = snd (reject_each (\<lambda>c. pm_reject c (TimeoutError ''correlation_timeout'') now)
                      (expired_ids now (waiting p)) p)
      in p1\<lparr>buffered := filter (\<lambda>(c, x, ts). \<not> now - ts > BUFFER_RESOLVES_S) (buffered p1)\<rparr>)"

definition pending_ok :: "('v, 'z) pending_scheme \<Rightarrow> bool" where
  "pending_ok p = (distinct (map fst (waiting p)) \<and>
     (\<forall>c f d. map_of (waiting p) c = Some (f, d) \<longrightarrow> f < length (futs p)))"

definition fut_of :: "('v, 'z) pending_scheme \<Rightarrow> nat \<Rightarrow> 'v fut option" where
  "fut_of p f = (if f < length (futs p) then Some (futs p ! f) else None)"

definition waits_for :: "('v, 'z) pending_scheme \<Rightarrow> corr_id \<Rightarrow> nat option" where
  "waits_for p cid = map_option fst (map_of (waiting p) cid)"

section \<open>The contract\<close>

text \<open>
  What a caller of either map relies on: settling an id settles the future that waits for
  it, stops it waiting, and no operation ever changes a future that is done.
\<close>

locale pending_map =
  fixes register :: "corr_id \<Rightarrow> 's \<Rightarrow> nat \<times> 's"
    and settle_id :: "corr_id \<Rightarrow> 'v fut \<Rightarrow> 's \<Rightarrow> bool \<times> 's"
    and look :: "'s \<Rightarrow> nat \<Rightarrow> 'v fut option"
    and waits :: "'s \<Rightarrow> corr_id \<Rightarrow> nat option"
    and ok :: "'s \<Rightarrow> bool"
  assumes ok_register: "ok s \<Longrightarrow> ok (snd (register c s))"
    and ok_settle: "ok s \<Longrightarrow> ok (snd (settle_id c x s))"
    and fresh: "ok s \<Longrightarrow> look s (fst (register c s)) = None"
    and created: "ok s \<Longrightarrow> look (snd (register c s)) (fst (register c s)) \<noteq> None"
    and register_keeps: "ok s \<Longrightarrow> look s f = Some y \<Longrightarrow> look (snd (register c s)) f = Some y"
    and settle_keeps: "ok s \<Longrightarrow> look s f = Some y \<Longrightarrow> fut_done y \<Longrightarrow> look (snd (settle_id c x s)) f = Some y"
    and settle_hit: "ok s \<Longrightarrow> waits s c = Some f \<Longrightarrow> look s f = Some Unset \<Longrightarrow>
          fst (settle_id c x s) \<and> look (snd (settle_id c x s)) f = Some x"
    and settle_stops: "ok s \<Longrightarrow> waits s c \<noteq> None \<Longrightarrow> waits (snd (settle_id c x s)) c = None"
    and settle_miss: "ok s \<Longrightarrow> waits s c = None \<Longrightarrow> \<not> fst (settle_id c x s)"
begin

text \<open>Any run of registrations and settlements; a registration has no value to give.\<close>

fun run :: "(corr_id \<times> 'v fut option) list \<Rightarrow> 's \<Rightarrow> 's" where
  "run [] s = s"
| "run ((c, None) # es) s = run es (snd (register c s))"
| "run ((c, Some x) # es) s = run es (snd (settle_id c x s))"

lemma run_ok: "ok s \<Longrightarrow> ok (run es s)"
  by (induction es s rule: run.induct) (auto simp: ok_register ok_settle)

text \<open>A future that is done keeps its value for ever: nobody is woken twice.\<close>

lemma run_keeps: "ok s \<Longrightarrow> look s f = Some y \<Longrightarrow> fut_done y \<Longrightarrow> look (run es s) f = Some y"
  by (induction es s rule: run.induct) (auto simp: ok_register ok_settle register_keeps settle_keeps)

text \<open>Only the first settlement of an id finds a future.\<close>

lemma settle_once:
  assumes "ok s" "waits s c \<noteq> None"
  shows "\<not> fst (settle_id c x (snd (settle_id c y s)))"
  using settle_miss settle_stops ok_settle assms by blast

end

section \<open>Lemmas\<close>

lemma length_settle [simp]: "length (settle f x fs) = length fs"
  by (simp add: settle_def)

lemma settle_nth:
  "g < length fs \<Longrightarrow> settle f x fs ! g = (if g = f \<and> \<not> fut_done (fs ! g) then x else fs ! g)"
  by (auto simp: settle_def)

lemma pending_ok_waits: "pending_ok p \<Longrightarrow> map_of (waiting p) c = Some (f, d) \<Longrightarrow> f < length (futs p)"
  unfolding pending_ok_def by blast

lemma pending_ok_settle:
  "pending_ok p \<Longrightarrow>
   pending_ok (p\<lparr>futs := settle f x (futs p), waiting := dict_pop c (waiting p)\<rparr>)"
  by (auto simp: pending_ok_def distinct_dict_pop map_of_dict_pop split: if_splits)

lemma pending_ok_wait:
  "pending_ok p \<Longrightarrow>
   pending_ok (p\<lparr>futs := futs p @ [x], waiting := dict_set c (length (futs p), d) (waiting p)\<rparr>)"
  by (auto simp: pending_ok_def distinct_dict_set map_of_dict_set less_Suc_eq split: if_splits)

lemma pending_ok_snoc: "pending_ok p \<Longrightarrow> pending_ok (p\<lparr>futs := futs p @ [x]\<rparr>)"
  by (auto simp: pending_ok_def less_Suc_eq)

lemma pending_ok_buffered [simp]: "pending_ok (p\<lparr>buffered := b\<rparr>) = pending_ok p"
  by (simp add: pending_ok_def)

lemmas pending_defs = fut_of_def waits_for_def ack_register_def ack_settle_def pm_register_def
  pm_settle_def buffer_late_value_def settle_nth nth_append map_of_dict_set map_of_dict_pop Let_def

interpretation acks: pending_map "\<lambda>c. ack_register c t now" ack_settle
  "fut_of :: 'v pending \<Rightarrow> nat \<Rightarrow> 'v fut option" waits_for pending_ok
proof (unfold_locales, goal_cases)
  case (1 s c) then show ?case by (simp add: ack_register_def Let_def pending_ok_wait)
next
  case (2 s c x) then show ?case
    by (auto simp: ack_settle_def pending_ok_settle split: option.splits prod.splits)
qed (auto simp: pending_defs fut_done_def dest: pending_ok_waits split: option.splits prod.splits if_splits)

interpretation pm: pending_map "\<lambda>c. pm_register c t now" "\<lambda>c x. pm_settle c x now"
  "fut_of :: 'v pmap \<Rightarrow> nat \<Rightarrow> 'v fut option" waits_for pending_ok
proof (unfold_locales, goal_cases)
  case (1 s c) then show ?case
    by (auto simp: pm_register_def Let_def pending_ok_wait split: option.splits prod.splits)
      (auto simp: pending_ok_def less_Suc_eq)
next
  case (2 s c x) then show ?case
    by (auto simp: pm_settle_def pending_ok_settle buffer_late_value_def Let_def
        split: option.splits prod.splits)
qed (auto simp: pending_defs fut_done_def dest: pending_ok_waits split: option.splits prod.splits if_splits)

section \<open>Batches of rejections\<close>

declare reject_each.simps(2) [simp del]

lemma snd_reject_each [simp]:
  "snd (reject_each rej (c # cs) p) = snd (reject_each rej cs (snd (rej c p)))"
  by (simp add: reject_each.simps(2) split: prod.split)

lemma reject_each_waiting:
  "map_of (waiting (snd (reject_each (\<lambda>c. ack_settle c x) cs p))) =
     (\<lambda>c. if c \<in> set cs then None else map_of (waiting p) c)"
  by (induction cs arbitrary: p)
    (auto simp: ack_settle_def map_of_dict_pop fun_eq_iff split: option.splits)

lemma reject_each_futs:
  "length (futs (snd (reject_each (\<lambda>c. ack_settle c x) cs p))) = length (futs p)"
  by (induction cs arbitrary: p) (auto simp: ack_settle_def split: option.splits)

lemma reject_each_unset:
  assumes "pending_ok p" "fut_done x" "g < length (futs p)"
  shows "futs (snd (reject_each (\<lambda>c. ack_settle c x) cs p)) ! g =
     (if \<not> fut_done (futs p ! g) \<and> (\<exists>c \<in> set cs. \<exists>d. map_of (waiting p) c = Some (g, d))
      then x else futs p ! g)"
  using assms(1,3)
proof (induction cs arbitrary: p)
  case (Cons c cs)
  show ?case
  proof (cases "map_of (waiting p) c")
    case None
    have "ack_settle c x p = (False, p)" using None by (simp add: ack_settle_def)
    with Cons None show ?thesis by auto
  next
    case (Some fd)
    obtain f d where fd: "fd = (f, d)" by (cases fd)
    let ?q = "p\<lparr>futs := settle f x (futs p), waiting := dict_pop c (waiting p)\<rparr>"
    have q: "ack_settle c x p = (True, ?q)" using Some fd by (simp add: ack_settle_def)
    have ih: "futs (snd (reject_each (\<lambda>c. ack_settle c x) cs ?q)) ! g =
       (if \<not> fut_done (futs ?q ! g) \<and> (\<exists>c \<in> set cs. \<exists>d. map_of (waiting ?q) c = Some (g, d))
        then x else futs ?q ! g)"
      using Cons.IH [of ?q] Cons.prems pending_ok_settle [OF Cons.prems(1)] by simp
    show ?thesis using q ih Some fd Cons.prems(2) assms(2)
      by (auto simp: settle_nth map_of_dict_pop)
  qed
qed simp

text \<open>
  When a socket disconnects, exactly the router's futures that wait for one of
  the socket's correlation ids and are not done raise \<open>ConnectionError\<close>; those ids wait no
  more and every other id and future is untouched.
\<close>

theorem disconnect_rejects_exactly:
  assumes "pending_ok p" "g < length (futs p)"
  shows "futs (snd (ack_reject_ids cids p)) ! g =
      (if \<not> fut_done (futs p ! g) \<and> (\<exists>c \<in> set cids. waits_for p c = Some g)
       then Raised (ConnectionError ''agent_disconnected'') else futs p ! g) \<and>
    (\<forall>c. waits_for (snd (ack_reject_ids cids p)) c = (if c \<in> set cids then None else waits_for p c))"
  using reject_each_unset [OF assms(1) _ assms(2), of "Raised (ConnectionError ''agent_disconnected'')" cids]
    reject_each_waiting [of "Raised (ConnectionError ''agent_disconnected'')" cids p]
  by (auto simp: ack_reject_ids_def ack_reject_def [abs_def] waits_for_def fut_done_def)

theorem disconnect_rejects_exactly_witness:
  "futs (snd (ack_reject_ids [''a''] (\<lparr>futs = [Unset, Unset], waiting = [(''a'', 0, 9), (''b'', 1, 9)],
      default_timeout = 30\<rparr> :: nat pending))) ! 0 = Raised (ConnectionError ''agent_disconnected'')"
proof -
  let ?p = "\<lparr>futs = [Unset, Unset], waiting = [(''a'', 0, 9), (''b'', 1, 9)], default_timeout = 30\<rparr> :: nat pending"
  have "pending_ok ?p" by (auto simp: pending_ok_def split: if_splits)
  from disconnect_rejects_exactly [OF this, of 0 "[''a'']"] show ?thesis
    by (simp add: fut_done_def waits_for_def)
qed

lemma expired_ids_iff:
  "distinct (map fst w) \<Longrightarrow> c \<in> set (expired_ids now w) \<longleftrightarrow>
     (\<exists>f d. map_of w c = Some (f, d) \<and> d \<le> now)"
  by (force simp: expired_ids_def)

lemma expired_iff: "pending_ok p \<Longrightarrow> c \<in> set (expired_ids now (waiting p)) \<longleftrightarrow>
    (\<exists>f d. map_of (waiting p) c = Some (f, d) \<and> d \<le> now)"
  by (rule expired_ids_iff) (simp add: pending_ok_def)

lemma ack_reap_waits:
  assumes "pending_ok p"
  shows "waits_for (ack_reap now p) c =
    (case map_of (waiting p) c of None \<Rightarrow> None | Some (f, d) \<Rightarrow> if d \<le> now then None else Some f)"
  using assms reject_each_waiting [of "Raised (TimeoutError ''ack_timeout'')" "expired_ids now (waiting p)" p]
  by (auto simp: ack_reap_def ack_reject_def [abs_def] waits_for_def expired_iff
      split: option.splits prod.splits)

lemma ack_reap_futs:
  assumes "pending_ok p" "g < length (futs p)"
  shows "futs (ack_reap now p) ! g =
    (if \<not> fut_done (futs p ! g) \<and> (\<exists>c d. map_of (waiting p) c = Some (g, d) \<and> d \<le> now)
     then Raised (TimeoutError ''ack_timeout'') else futs p ! g)"
proof -
  have "(\<exists>c \<in> set (expired_ids now (waiting p)). \<exists>d. map_of (waiting p) c = Some (g, d)) \<longleftrightarrow>
      (\<exists>c d. map_of (waiting p) c = Some (g, d) \<and> d \<le> now)"
    using expired_iff [OF assms(1)] by fastforce
  with reject_each_unset [OF assms(1) _ assms(2), of "Raised (TimeoutError ''ack_timeout'')"
      "expired_ids now (waiting p)"]
  show ?thesis by (simp add: ack_reap_def ack_reject_def [abs_def] fut_done_def)
qed

text \<open>
  A reaper tick raises \<open>TimeoutError\<close> in exactly the futures whose deadline
  has passed, and leaves every entry whose deadline is still ahead waiting.
\<close>

theorem ack_reaper_exact:
  assumes "pending_ok p"
  shows "(\<forall>g < length (futs p). futs (ack_reap now p) ! g =
      (if \<not> fut_done (futs p ! g) \<and> (\<exists>c d. map_of (waiting p) c = Some (g, d) \<and> d \<le> now)
       then Raised (TimeoutError ''ack_timeout'') else futs p ! g)) \<and>
    (\<forall>c. waits_for (ack_reap now p) c =
      (case map_of (waiting p) c of None \<Rightarrow> None | Some (f, d) \<Rightarrow> if d \<le> now then None else Some f))"
  using ack_reap_futs [OF assms] ack_reap_waits [OF assms] by blast

theorem ack_reaper_exact_witness:
  "waits_for (ack_reap 10 (\<lparr>futs = [Unset], waiting = [(''a'', 0, 9)], default_timeout = 30\<rparr> :: nat pending)) ''a'' = None"
proof -
  have "pending_ok (\<lparr>futs = [Unset], waiting = [(''a'', 0, 9)], default_timeout = 30\<rparr> :: nat pending)"
    by (auto simp: pending_ok_def split: if_splits)
  from ack_reaper_exact [OF this, of 10] show ?thesis by simp
qed

section \<open>Runs of the SDK's map\<close>

datatype 'v pm_event =
    Register corr_id "time option" time
  | Resolve corr_id 'v time
  | Reject corr_id exn time
  | RejectAll exn time
  | Reap time

fun pm_step :: "'v pmap \<Rightarrow> 'v pm_event \<Rightarrow> 'v pmap" where
  "pm_step p (Register c t now) = snd (pm_register c t now p)"
| "pm_step p (Resolve c v now) = snd (pm_resolve c v now p)"
| "pm_step p (Reject c e now) = snd (pm_reject c e now p)"
| "pm_step p (RejectAll e now) = snd (pm_reject_all e now p)"
| "pm_step p (Reap now) = pm_reap now p"

definition pm_run :: "'v pmap \<Rightarrow> 'v pm_event list \<Rightarrow> 'v pmap" where
  "pm_run p es = foldl pm_step p es"

text \<open>What holds after one settlement of an id holds after a batch of them.\<close>

lemma reject_each_inv:
  "P p \<Longrightarrow> (\<And>c q. P q \<Longrightarrow> P (snd (rej c q))) \<Longrightarrow> P (snd (reject_each rej cs p))"
  by (induction cs arbitrary: p) auto

definition keeps_done :: "nat \<Rightarrow> 'v fut \<Rightarrow> 'v pmap \<Rightarrow> bool" where
  "keeps_done f y p = (pending_ok p \<and> fut_of p f = Some y \<and> fut_done y)"

lemma keeps_done_settle: "keeps_done f y p \<Longrightarrow> keeps_done f y (snd (pm_settle c x now p))"
  using pm.ok_settle [of p c x now] pm.settle_keeps [of p f y c x now] by (simp add: keeps_done_def)

lemma keeps_done_register: "keeps_done f y p \<Longrightarrow> keeps_done f y (snd (pm_register c t now p))"
  using pm.ok_register [of p c t now] pm.register_keeps [of p f y c t now] by (simp add: keeps_done_def)

lemma keeps_done_buffered: "keeps_done f y (p\<lparr>buffered := b\<rparr>) = keeps_done f y p"
  by (simp add: keeps_done_def fut_of_def)

lemma keeps_done_step: "keeps_done f y p \<Longrightarrow> keeps_done f y (pm_step p e)"
  by (cases e)
    (auto simp: keeps_done_register pm_resolve_def pm_reject_def [abs_def] keeps_done_settle
      pm_reject_all_def pm_reap_def Let_def keeps_done_buffered
      intro!: reject_each_inv [where P = "keeps_done f y"])

text \<open>
  In every run of registrations, results, errors, disconnects and reaper
  ticks, a future that has been settled keeps its value: no awaiting caller is woken twice
  or sees its result change.
\<close>

theorem pm_futures_write_once:
  assumes "pending_ok p" "fut_of p f = Some y" "fut_done y"
  shows "fut_of (pm_run p es) f = Some y"
proof -
  have "keeps_done f y p" using assms by (simp add: keeps_done_def)
  then have "keeps_done f y (pm_run p es)"
    by (induction es arbitrary: p) (auto simp: pm_run_def keeps_done_step)
  then show ?thesis by (simp add: keeps_done_def)
qed

theorem pm_futures_write_once_witness:
  "fut_of (pm_run \<lparr>futs = [Result (7::nat)], waiting = [], default_timeout = 30, buffered = []\<rparr>
     [Resolve ''t'' 8 1, Register ''t'' None 2, RejectAll (RuntimeError ''x'') 3]) 0 = Some (Result 7)"
  by (rule pm_futures_write_once) (simp_all add: pending_ok_def fut_of_def fut_done_def)

section \<open>The buffer for early results\<close>

lemma length_buffer_late:
  "length (buffered p) \<le> BUFFER_MAX_SIZE \<Longrightarrow>
   length (buffered (buffer_late_value c x now p)) \<le> BUFFER_MAX_SIZE"
  using length_dict_set [of c "(x, now)" "buffered p"] length_dict_set [of c "(x, now)" "tl (buffered p)"]
  by (auto simp: buffer_late_value_def Let_def BUFFER_MAX_SIZE_def map_of_eq_None_iff)

lemma length_buffer_settle:
  "length (buffered p) \<le> BUFFER_MAX_SIZE \<Longrightarrow>
   length (buffered (snd (pm_settle c x now p))) \<le> BUFFER_MAX_SIZE"
  by (auto simp: pm_settle_def length_buffer_late split: option.splits)

lemma length_buffer_register:
  "length (buffered p) \<le> BUFFER_MAX_SIZE \<Longrightarrow>
   length (buffered (snd (pm_register c t now p))) \<le> BUFFER_MAX_SIZE"
  using length_dict_pop [of c "buffered p"]
  by (auto simp: pm_register_def Let_def split: option.splits)

lemma length_buffer_step:
  "length (buffered p) \<le> BUFFER_MAX_SIZE \<Longrightarrow> length (buffered (pm_step p e)) \<le> BUFFER_MAX_SIZE"
  by (cases e)
    (auto simp: length_buffer_register pm_resolve_def pm_reject_def [abs_def] length_buffer_settle
      pm_reject_all_def pm_reap_def Let_def
      intro!: reject_each_inv [where P = "\<lambda>q. length (buffered q) \<le> BUFFER_MAX_SIZE"]
        order_trans [OF length_filter_le])

text \<open>
  The buffer of early results never outgrows \<open>BUFFER_MAX_SIZE\<close>, whatever
  frames arrive.
\<close>

theorem pm_buffer_bounded:
  assumes "length (buffered p) \<le> BUFFER_MAX_SIZE"
  shows "length (buffered (pm_run p es)) \<le> BUFFER_MAX_SIZE"
  using assms by (induction es arbitrary: p) (auto simp: pm_run_def length_buffer_step)

theorem pm_buffer_bounded_witness:
  "length (buffered (pm_run (\<lparr>futs = [], waiting = [], default_timeout = 30, buffered = []\<rparr> :: nat pmap)
     [Resolve ''a'' 1 0, Resolve ''b'' 2 0])) \<le> BUFFER_MAX_SIZE"
  by (rule pm_buffer_bounded) simp

lemma dict_pop_new: "map_of d c = None \<Longrightarrow> dict_pop c (dict_set c v d) = d"
proof (induction d)
  case (Cons e d)
  then show ?case by (cases e) (auto simp: dict_pop_def split: if_splits)
qed (simp add: dict_pop_def)

text \<open>
  No lost wake-up: a result that arrives before its caller registers gives
  the caller the same future, with the same value and nothing left waiting, as a result
  that arrives afterwards.
\<close>

theorem pm_early_result_not_lost:
  assumes "pending_ok p" "map_of (waiting p) c = None" "map_of (buffered p) c = None"
  shows
    "(let (f1, p1) = pm_register c t now p; (hit1, q1) = pm_settle c x later p1;
          (hit2, p2) = pm_settle c x now p; (f2, q2) = pm_register c t later p2
      in f1 = f2 \<and> hit1 \<and> \<not> hit2 \<and> fut_of q1 f1 = Some x \<and> futs q1 = futs q2 \<and>
         waiting q1 = waiting p \<and> waiting q2 = waiting p)"
  using assms
  by (auto simp: pm_register_def pm_settle_def buffer_late_value_def Let_def map_of_dict_set
      settle_def fut_done_def fut_of_def dict_pop_new nth_append
      split: prod.splits)

theorem pm_early_result_not_lost_witness:
  "let p = \<lparr>futs = [], waiting = [], default_timeout = 30, buffered = []\<rparr> :: nat pmap;
       (f1, p1) = pm_register ''t'' None 4 p; (hit1, q1) = pm_settle ''t'' (Result 5) 6 p1;
       (hit2, p2) = pm_settle ''t'' (Result 5) 4 p; (f2, q2) = pm_register ''t'' None 6 p2
   in f1 = f2 \<and> hit1 \<and> \<not> hit2 \<and> fut_of q1 f1 = Some (Result 5) \<and> futs q1 = futs q2 \<and>
      waiting q1 = waiting p \<and> waiting q2 = waiting p"
  unfolding Let_def [of "\<lparr>futs = [], waiting = [], default_timeout = 30, buffered = []\<rparr> :: nat pmap"]
  by (rule pm_early_result_not_lost) (simp_all add: pending_ok_def)

end
