(* ===== verification/Lru.thy ===== *)
theory Lru
  imports Prelude
begin

text \<open>
  \<open>bp_router/lru_cache.py\<close>: \<open>BoundedLRUDict\<close>.  The ordered dict is a list of pairs,
  least recently touched first.  The locale \<open>bounded_cache\<close> is what its clients (the
  caller-agent cache of \<open>tasks.py\<close>, the in-memory token buckets) rely on.
\<close>

record ('k, 'v) lru =
  maxsize :: nat
  data :: "('k \<times> 'v) list"

text \<open>\<open>None\<close> is the \<open>ValueError\<close> of a maximum below one.\<close>

definition lru_new :: "int \<Rightarrow> ('k, 'v) lru option" where
  "lru_new n = (if n < 1 then None else Some \<lparr>maxsize = nat n, data = []\<rparr>)"

definition move_to_end :: "'k \<Rightarrow> 'v \<Rightarrow> ('k \<times> 'v) list \<Rightarrow> ('k \<times> 'v) list" where
  "move_to_end k v d = dict_pop k d @ [(k, v)]"

definition lru_getitem :: "'k \<Rightarrow> ('k, 'v) lru \<Rightarrow> ('v \<times> ('k, 'v) lru) option" where
  "lru_getitem k c = (case map_of (data c) k of
     None \<Rightarrow> None
   | Some v \<Rightarrow> Some (v, c\<lparr>data := move_to_end k v (data c)\<rparr>))"

definition lru_get :: "'k \<Rightarrow> 'v \<Rightarrow> ('k, 'v) lru \<Rightarrow> 'v \<times> ('k, 'v) lru" where
  "lru_get k dflt c = (case lru_getitem k c of None \<Rightarrow> (dflt, c) | Some r \<Rightarrow> r)"

definition lru_set :: "'k \<Rightarrow> 'v \<Rightarrow> ('k, 'v) lru \<Rightarrow> ('k, 'v) lru" where
  "lru_set k v c =
     (if map_of (data c) k \<noteq> None then c\<lparr>data := move_to_end k v (data c)\<rparr>
      else let d = data c @ [(k, v)]
           in c\<lparr>data := (if length d > maxsize c then tl d else d)\<rparr>)"

definition lru_contains :: "'k \<Rightarrow> ('k, 'v) lru \<Rightarrow> bool" where
  "lru_contains k c = (map_of (data c) k \<noteq> None)"

definition lru_pop :: "'k \<Rightarrow> 'v \<Rightarrow> ('k, 'v) lru \<Rightarrow> 'v \<times> ('k, 'v) lru" where
  "lru_pop k dflt c =
     ((case map_of (data c) k of None \<Rightarrow> dflt | Some v \<Rightarrow> v), c\<lparr>data := dict_pop k (data c)\<rparr>)"

definition lru_len :: "('k, 'v) lru \<Rightarrow> nat" where
  "lru_len c = length (data c)"

definition lru_clear :: "('k, 'v) lru \<Rightarrow> ('k, 'v) lru" where
  "lru_clear c = c\<lparr>data := []\<rparr>"

text \<open>The entry a lookup sees, without the touch.\<close>

definition lru_peek :: "('k, 'v) lru \<Rightarrow> 'k \<Rightarrow> 'v option" where
  "lru_peek c k = map_of (data c) k"

definition lru_ok :: "('k, 'v) lru \<Rightarrow> bool" where
  "lru_ok c = (1 \<le> maxsize c \<and> length (data c) \<le> maxsize c \<and> distinct (map fst (data c)))"

section \<open>The interface\<close>

locale bounded_cache =
  fixes peek :: "'c \<Rightarrow> 'k \<Rightarrow> 'v option"
    and put :: "'k \<Rightarrow> 'v \<Rightarrow> 'c \<Rightarrow> 'c"
    and touch :: "'k \<Rightarrow> 'c \<Rightarrow> 'c"
    and drop_key :: "'k \<Rightarrow> 'c \<Rightarrow> 'c"
    and ok :: "'c \<Rightarrow> bool"
  assumes ok_put: "ok c \<Longrightarrow> ok (put k v c)"
    and ok_touch: "ok c \<Longrightarrow> ok (touch k c)"
    and ok_drop: "ok c \<Longrightarrow> ok (drop_key k c)"
    and put_same: "ok c \<Longrightarrow> peek (put k v c) k = Some v"
    and put_other: "ok c \<Longrightarrow> j \<noteq> k \<Longrightarrow> peek (put k v c) j = peek c j \<or> peek (put k v c) j = None"
    and touch_peek: "ok c \<Longrightarrow> peek (touch k c) j = peek c j"
    and drop_peek: "ok c \<Longrightarrow> peek (drop_key k c) j = (if j = k then None else peek c j)"
begin

text \<open>
  A cache is coherent with a source of truth when everything it holds is what the source
  says.  Eviction never breaks it: a missing entry says nothing.
\<close>

definition coherent :: "'c \<Rightarrow> ('k \<Rightarrow> 'v option) \<Rightarrow> bool" where
  "coherent c src \<longleftrightarrow> (\<forall>k v. peek c k = Some v \<longrightarrow> src k = Some v)"

lemma coherent_peek: "coherent c src \<Longrightarrow> peek c k = Some v \<Longrightarrow> src k = Some v"
  by (simp add: coherent_def)

lemma coherent_put:
  assumes "ok c" "coherent c src" "src' k = Some v" "\<And>j. j \<noteq> k \<Longrightarrow> src' j = src j"
  shows "coherent (put k v c) src'"
  unfolding coherent_def
proof (intro allI impI)
  fix j w assume p: "peek (put k v c) j = Some w"
  show "src' j = Some w"
  proof (cases "j = k")
    case True with p put_same [OF assms(1)] assms(3) show ?thesis by simp
  next
    case False
    with p put_other [OF assms(1)] have "peek c j = Some w" by (metis option.distinct(1))
    with False assms(2,4) show ?thesis by (simp add: coherent_def)
  qed
qed

lemma coherent_drop:
  "ok c \<Longrightarrow> coherent c src \<Longrightarrow> (\<And>j. j \<noteq> k \<Longrightarrow> src' j = src j) \<Longrightarrow> coherent (drop_key k c) src'"
  by (auto simp: coherent_def drop_peek split: if_splits)

lemma coherent_touch: "ok c \<Longrightarrow> coherent c src \<Longrightarrow> coherent (touch k c) src"
  by (simp add: coherent_def touch_peek)

lemma coherent_mono:
  "coherent c src \<Longrightarrow> (\<And>k v. peek c k = Some v \<Longrightarrow> src k = Some v \<Longrightarrow> src' k = Some v) \<Longrightarrow>
   coherent c src'"
  by (auto simp: coherent_def)

end

definition lru_touch :: "'k \<Rightarrow> ('k, 'v) lru \<Rightarrow> ('k, 'v) lru" where
  "lru_touch k c = (case lru_getitem k c of None \<Rightarrow> c | Some (v, c') \<Rightarrow> c')"

definition lru_drop :: "'k \<Rightarrow> ('k, 'v) lru \<Rightarrow> ('k, 'v) lru" where
  "lru_drop k c = c\<lparr>data := dict_pop k (data c)\<rparr>"

section \<open>Lemmas\<close>

lemma map_of_move_to_end: "map_of (move_to_end k v d) = (map_of d)(k \<mapsto> v)"
  by (auto simp: move_to_end_def map_of_dict_pop map_add_def fun_eq_iff split: option.split)

lemma map_of_tl_sub: "distinct (map fst d) \<Longrightarrow> map_of (tl d) j = map_of d j \<or> map_of (tl d) j = None"
  by (cases d) (auto simp: map_of_eq_None_iff image_iff)

lemma length_dict_pop_less: "map_of d k \<noteq> None \<Longrightarrow> length (dict_pop k d) < length d"
  unfolding dict_pop_def
  by (metis (mono_tags, lifting) fst_conv length_filter_less map_of_SomeD not_None_eq)

lemma distinct_move_to_end: "distinct (map fst d) \<Longrightarrow> distinct (map fst (move_to_end k v d))"
  by (simp add: move_to_end_def distinct_dict_pop) (auto simp: dict_pop_def)

lemma lru_ok_move:
  assumes "lru_ok c" "map_of (data c) k \<noteq> None"
  shows "lru_ok (c\<lparr>data := move_to_end k v (data c)\<rparr>)"
  using assms length_dict_pop_less [OF assms(2)]
  by (auto simp: lru_ok_def distinct_move_to_end) (simp add: move_to_end_def)

lemma lru_ok_set: "lru_ok c \<Longrightarrow> lru_ok (lru_set k v c)"
proof (cases "map_of (data c) k")
  case None
  assume ok: "lru_ok c"
  have "distinct (map fst (data c @ [(k, v)]))"
    using ok None by (auto simp: lru_ok_def map_of_eq_None_iff)
  then show ?thesis using ok None
    by (auto simp: lru_ok_def lru_set_def Let_def map_tl distinct_tl)
qed (simp add: lru_ok_move lru_set_def)

lemma lru_peek_set_same: "lru_ok c \<Longrightarrow> lru_peek (lru_set k v c) k = Some v"
proof (cases "map_of (data c) k")
  case None
  assume ok: "lru_ok c"
  show ?thesis using ok None
    by (cases "data c") (auto simp: lru_ok_def lru_peek_def lru_set_def Let_def map_add_def
        split: option.split if_splits)
qed (simp add: lru_peek_def lru_set_def map_of_move_to_end)

lemma lru_peek_set_other:
  assumes ok: "lru_ok c" and ne: "j \<noteq> k"
  shows "lru_peek (lru_set k v c) j = lru_peek c j \<or> lru_peek (lru_set k v c) j = None"
proof (cases "map_of (data c) k")
  case None
  have d: "distinct (map fst (data c @ [(k, v)]))"
    using ok None by (auto simp: lru_ok_def map_of_eq_None_iff)
  have "map_of (data c @ [(k, v)]) j = map_of (data c) j"
    using ne by (auto simp: map_add_def split: option.split)
  then show ?thesis using None map_of_tl_sub [OF d, of j]
    by (auto simp: lru_peek_def lru_set_def Let_def)
qed (simp add: lru_peek_def lru_set_def map_of_move_to_end ne)

lemma lru_ok_drop: "lru_ok c \<Longrightarrow> lru_ok (lru_drop k c)"
  using length_dict_pop [of k "data c"]
  by (auto simp: lru_ok_def lru_drop_def distinct_dict_pop)

lemma lru_ok_touch: "lru_ok c \<Longrightarrow> lru_ok (lru_touch k c)"
  by (auto simp: lru_touch_def lru_getitem_def lru_ok_move split: option.split)

lemma lru_peek_touch: "lru_peek (lru_touch k c) j = lru_peek c j"
  by (auto simp: lru_touch_def lru_getitem_def lru_peek_def map_of_move_to_end split: option.split)

interpretation lru: bounded_cache lru_peek lru_set lru_touch lru_drop lru_ok
proof (unfold_locales, goal_cases)
  case (1 c k v) then show ?case by (rule lru_ok_set)
next
  case (2 c k) then show ?case by (rule lru_ok_touch)
next
  case (3 c k) then show ?case by (rule lru_ok_drop)
next
  case (4 c k v) then show ?case by (rule lru_peek_set_same)
next
  case (5 c j k v) then show ?case by (rule lru_peek_set_other)
next
  case (6 c k j) show ?case by (rule lru_peek_touch)
next
  case (7 c k j) show ?case by (simp add: lru_peek_def lru_drop_def map_of_dict_pop)
qed

lemma lru_pop_drop: "snd (lru_pop k d c) = lru_drop k c"
  by (simp add: lru_pop_def lru_drop_def)

lemma lru_ok_new: "lru_new n = Some c \<Longrightarrow> lru_ok c"
  by (auto simp: lru_new_def lru_ok_def split: if_splits)

text \<open>
  Inserting a new key into a full cache evicts exactly the least recently
  touched entry and keeps every other entry in its recency order.
\<close>

theorem lru_evicts_oldest:
  assumes "lru_ok c" "map_of (data c) k = None" "length (data c) = maxsize c"
  shows "lru_ok (lru_set k v c) \<and> data (lru_set k v c) = tl (data c) @ [(k, v)] \<and>
    lru_peek (lru_set k v c) (fst (hd (data c))) = None"
proof -
  from assms obtain e d where ed: "data c = e # d" by (cases "data c") (auto simp: lru_ok_def)
  have "fst e \<noteq> k" using assms(2) ed by (cases e) (auto split: if_splits)
  moreover have "fst e \<notin> fst ` set d" using assms(1) ed by (simp add: lru_ok_def)
  ultimately show ?thesis using assms ed lru_ok_set [OF assms(1), of k v]
    by (auto simp: lru_set_def Let_def lru_peek_def map_add_def map_of_eq_None_iff
        split: option.split)
qed

theorem lru_evicts_oldest_witness:
  "data (lru_set (3::nat) ''c'' \<lparr>maxsize = 2, data = [(1, ''a''), (2, ''b'')]\<rparr>) = [(2, ''b''), (3, ''c'')]"
  using lru_evicts_oldest [of "\<lparr>maxsize = 2, data = [(1::nat, ''a''), (2, ''b'')]\<rparr>" 3 "''c''"]
  by (simp add: lru_ok_def)

end
