(* ===== verification/TokenBucket.thy ===== *)
theory TokenBucket
  imports Lru
begin

text \<open>
  \<open>bp_router/security/rate_limit.py\<close>: the token bucket behind the admission quota and the
  frame-rate caps.  Clock readings, rates and token counts are rationals (the code uses
  doubles; rounding is not modelled).  Redis is a parameter: \<open>try_consume\<close> takes the
  \<open>eval\<close> call, whose \<open>None\<close> is any exception; \<open>lua_token_bucket\<close> is the script it runs, as
  a function of the hash fields it reads, giving the reply and the fields it writes.
\<close>

type_synonym bucket = "rat \<times> rat"   \<comment> \<open>tokens, time stamp\<close>

record rl_decision =
  rl_allowed :: bool
  retry_after_s :: rat
  tokens_remaining :: rat

definition MEM_FALLBACK_MAX :: nat where
  "MEM_FALLBACK_MAX = 50000"

text \<open>The script.  The reply's first component is the integer 0 or 1.\<close>

definition lua_token_bucket ::
  "bucket option \<Rightarrow> rat \<Rightarrow> rat \<Rightarrow> int \<Rightarrow> int \<Rightarrow> (int \<times> rat \<times> rat) \<times> bucket" where
  "lua_token_bucket hash now rate burst cost =
     (let (tokens, ts) = (case hash of None \<Rightarrow> (of_int burst, now) | Some b \<Rightarrow> b);
          elapsed = now - ts;
          tokens = (if elapsed > 0 then min (of_int burst) (tokens + elapsed * rate) else tokens);
          (allowed, retry_after, tokens) =
            (if tokens \<ge> of_int cost then (1, 0, tokens - of_int cost)
             else (0, (of_int cost - tokens) / rate, tokens))
      in ((allowed, retry_after, tokens), (tokens, now)))"

definition ttl_for_bucket :: "rat \<Rightarrow> int \<Rightarrow> int" where
  "ttl_for_bucket rate_per_s burst =
     (let fill_time = (if rate_per_s > 0 then of_int burst / rate_per_s else 0)
      in max 60 (min 3600 (\<lfloor>fill_time * 2\<rfloor> + 1)))"

text \<open>The per-process fallback.\<close>

definition mem_consume ::
  "string \<Rightarrow> rat \<Rightarrow> int \<Rightarrow> int \<Rightarrow> rat \<Rightarrow> (string, bucket) lru \<Rightarrow> rl_decision \<times> (string, bucket) lru" where
  "mem_consume full_key rate_per_s burst cost now mem =
     (let ((tokens, ts), mem) = lru_get full_key (of_int burst, now) mem;
          elapsed = now - ts;
          tokens = (if elapsed > 0 then min (of_int burst) (tokens + elapsed * rate_per_s) else tokens)
      in if tokens \<ge> of_int cost
         then (\<lparr>rl_allowed = True, retry_after_s = 0, tokens_remaining = tokens - of_int cost\<rparr>,
               lru_set full_key (tokens - of_int cost, now) mem)
         else (\<lparr>rl_allowed = False, retry_after_s = (of_int cost - tokens) / rate_per_s,
                 tokens_remaining = tokens\<rparr>,
               lru_set full_key (tokens, now) mem))"

record 'r limiter =
  redis :: "'r option"
  redis_health :: nat
  redis_fallback_total :: nat
  mem :: "(string, bucket) lru"
  prefix :: string

type_synonym 'r redis_eval = "'r \<Rightarrow> string \<Rightarrow> rat \<Rightarrow> rat \<Rightarrow> int \<Rightarrow> int \<Rightarrow> int \<Rightarrow> ((int \<times> rat \<times> rat) \<times> 'r) option"

definition try_consume ::
  "'r redis_eval \<Rightarrow> string \<Rightarrow> rat \<Rightarrow> int \<Rightarrow> int \<Rightarrow> rat \<Rightarrow> 'r limiter \<Rightarrow> rl_decision \<times> 'r limiter" where
  "try_consume redis_eval key rate_per_s burst cost now l =
     (if rate_per_s \<le> 0 \<or> burst \<le> 0
      then (\<lparr>rl_allowed = True, retry_after_s = 0, tokens_remaining = of_int burst\<rparr>, l)
      else
        let full_key = prefix l @ '':'' @ key;
            ttl = ttl_for_bucket rate_per_s burst;
            in_mem = (\<lambda>l. let (d, m) = mem_consume full_key rate_per_s burst cost now (mem l)
                          in (d, l\<lparr>mem := m\<rparr>))
        in case redis l of
             None \<Rightarrow> in_mem l
           | Some r \<Rightarrow>
               (case redis_eval r full_key now rate_per_s burst cost ttl of
                  Some ((allowed, retry_after, tokens_left), r') \<Rightarrow>
                    (\<lparr>rl_allowed = (allowed = 1), retry_after_s = retry_after,
                       tokens_remaining = tokens_left\<rparr>,
                     l\<lparr>redis := Some r', redis_health := 1\<rparr>)
                | None \<Rightarrow>
                    in_mem (l\<lparr>redis_fallback_total := redis_fallback_total l + 1, redis_health := 0\<rparr>)))"

section \<open>The abstract bucket\<close>

definition refill :: "rat \<Rightarrow> int \<Rightarrow> rat \<Rightarrow> bucket \<Rightarrow> rat" where
  "refill rate burst now b = (if now > snd b then min (of_int burst) (fst b + (now - snd b) * rate) else fst b)"

text \<open>One request against a bucket: the answer and the bucket afterwards.\<close>

definition bucket_step :: "rat \<Rightarrow> int \<Rightarrow> int \<Rightarrow> rat \<Rightarrow> bucket \<Rightarrow> rl_decision \<times> bucket" where
  "bucket_step rate burst cost now b =
     (let t = refill rate burst now b
      in if of_int cost \<le> t
         then (\<lparr>rl_allowed = True, retry_after_s = 0, tokens_remaining = t - of_int cost\<rparr>, (t - of_int cost, now))
         else (\<lparr>rl_allowed = False, retry_after_s = (of_int cost - t) / rate, tokens_remaining = t\<rparr>, (t, now)))"

definition full_or :: "int \<Rightarrow> rat \<Rightarrow> bucket option \<Rightarrow> bucket" where
  "full_or burst now h = (case h of None \<Rightarrow> (of_int burst, now) | Some b \<Rightarrow> b)"

definition reply_decision :: "int \<times> rat \<times> rat \<Rightarrow> rl_decision" where
  "reply_decision r = \<lparr>rl_allowed = (fst r = 1), retry_after_s = fst (snd r), tokens_remaining = snd (snd r)\<rparr>"

lemma lua_is_step:
  "(reply_decision (fst (lua_token_bucket h now rate burst cost)), snd (lua_token_bucket h now rate burst cost)) =
   bucket_step rate burst cost now (full_or burst now h)"
  by (cases "full_or burst now h")
    (simp add: lua_token_bucket_def bucket_step_def refill_def full_or_def reply_decision_def Let_def
      split: option.splits prod.splits)

lemma mem_is_step:
  "mem_consume k rate burst cost now m =
   (let (d, b) = bucket_step rate burst cost now (full_or burst now (lru_peek m k))
    in (d, lru_set k b (lru_touch k m)))"
  by (auto simp: mem_consume_def bucket_step_def refill_def full_or_def lru_get_def lru_getitem_def
      lru_touch_def lru_peek_def Let_def split: option.splits prod.splits)

section \<open>A store of buckets\<close>

locale bucket_store =
  fixes bucket :: "'s \<Rightarrow> string \<Rightarrow> bucket option"
    and consume :: "string \<Rightarrow> rat \<Rightarrow> int \<Rightarrow> int \<Rightarrow> rat \<Rightarrow> 's \<Rightarrow> rl_decision \<times> 's"
    and ok :: "string set \<Rightarrow> 's \<Rightarrow> bool"
  assumes ok_consume: "ok K s \<Longrightarrow> k \<in> K \<Longrightarrow> ok K (snd (consume k r b c now s))"
    and consume_fst: "fst (consume k r b c now s) = fst (bucket_step r b c now (full_or b now (bucket s k)))"
    and consume_same: "ok K s \<Longrightarrow> k \<in> K \<Longrightarrow>
      bucket (snd (consume k r b c now s)) k = Some (snd (bucket_step r b c now (full_or b now (bucket s k))))"
    and consume_other: "ok K s \<Longrightarrow> k \<in> K \<Longrightarrow> j \<noteq> k \<Longrightarrow> bucket (snd (consume k r b c now s)) j = bucket s j"
begin

text \<open>The tokens granted to key \<open>k\<close> in a run of requests (key, cost, clock).\<close>

fun granted :: "string \<Rightarrow> rat \<Rightarrow> int \<Rightarrow> (string \<times> int \<times> rat) list \<Rightarrow> 's \<Rightarrow> int" where
  "granted k r b [] s = 0"
| "granted k r b ((j, c, now) # es) s =
     (let (d, s') = consume j r b c now s
      in (if j = k \<and> rl_allowed d then c else 0) + granted k r b es s')"

lemma step_budget:
  assumes "0 < r" "0 < b" "snd bk \<le> now" "0 \<le> fst bk" "(d, bk') = bucket_step r b c now bk"
  shows "(if rl_allowed d then of_int c else 0) + fst bk' \<le> fst bk + r * (now - snd bk)"
    "snd bk' = now" "0 \<le> fst bk'"
proof -
  have up: "refill r b now bk \<le> fst bk + r * (now - snd bk)"
    using assms(1,3) by (auto simp: refill_def mult.commute)
  have lo: "0 \<le> refill r b now bk" using assms(1,2,3,4) by (auto simp: refill_def)
  show "(if rl_allowed d then of_int c else 0) + fst bk' \<le> fst bk + r * (now - snd bk)"
    "snd bk' = now" "0 \<le> fst bk'"
    using up lo assms(5) by (auto simp: bucket_step_def Let_def split: if_splits)
qed

lemma granted_from_bucket:
  assumes "ok K s" "bucket s k = Some bk" "0 < r" "0 < b" "0 \<le> fst bk" "snd bk \<le> t" "t \<le> T"
    "fst ` set es \<subseteq> K" "sorted (t # map (\<lambda>e. snd (snd e)) es)" "\<forall>e\<in>set es. snd (snd e) \<le> T"
  shows "of_int (granted k r b es s) \<le> fst bk + r * (T - snd bk)"
  using assms
proof (induction es arbitrary: s bk t)
  case Nil
  then show ?case by simp
next
  case (Cons e es)
  obtain j c now where e: "e = (j, c, now)" by (cases e) auto
  obtain d s' where s': "consume j r b c now s = (d, s')" by (cases "consume j r b c now s")
  have jK: "j \<in> K" and ok': "ok K s'" using Cons.prems(1,8) e ok_consume [of K s j r b c now] s' by auto
  have rest: "sorted (now # map (\<lambda>e. snd (snd e)) es)" "now \<le> T" "fst ` set es \<subseteq> K"
    "\<forall>e\<in>set es. snd (snd e) \<le> T" "snd bk \<le> now"
    using Cons.prems e by auto
  show ?case
  proof (cases "j = k")
    case True
    obtain bk' where st: "(d, bk') = bucket_step r b c now bk" and b': "bucket s' k = Some bk'"
      using consume_fst [of k r b c now s] consume_same [OF Cons.prems(1), of k r b c now] jK s' True
        Cons.prems(2) by (cases "bucket_step r b c now bk") (auto simp: full_or_def)
    note sb = step_budget [OF Cons.prems(3,4) rest(5) Cons.prems(5) st]
    have "of_int (granted k r b es s') \<le> fst bk' + r * (T - snd bk')"
      using Cons.IH [OF ok' b' Cons.prems(3,4) sb(3) _ rest(2,3,1,4)] sb(2) by simp
    with sb(1,2) s' True e show ?thesis by (auto simp: algebra_simps split: if_splits)
  next
    case False
    have "bucket s' k = Some bk"
      using consume_other [OF Cons.prems(1) jK, of k r b c now] False s' Cons.prems(2) by simp
    from Cons.IH [OF ok' this Cons.prems(3,4,5) rest(5,2,3,1,4)] s' False e show ?thesis by simp
  qed
qed

lemma granted_bound:
  assumes "ok K s" "bucket s k = None" "0 < r" "0 < b" "fst ` set es \<subseteq> K" "t0 \<le> T"
    "sorted (t0 # map (\<lambda>e. snd (snd e)) es)" "\<forall>e\<in>set es. snd (snd e) \<le> T"
  shows "of_int (granted k r b es s) \<le> of_int b + r * (T - t0)"
  using assms
proof (induction es arbitrary: s t0)
  case Nil
  then show ?case by simp
next
  case (Cons e es)
  obtain j c now where e: "e = (j, c, now)" by (cases e) auto
  obtain d s' where s': "consume j r b c now s = (d, s')" by (cases "consume j r b c now s")
  have jK: "j \<in> K" and ok': "ok K s'" using Cons.prems(1,5) e ok_consume [of K s j r b c now] s' by auto
  have rest: "sorted (now # map (\<lambda>e. snd (snd e)) es)" "now \<le> T" "fst ` set es \<subseteq> K"
    "\<forall>e\<in>set es. snd (snd e) \<le> T" "t0 \<le> now"
    using Cons.prems e by auto
  have slack: "r * (T - now) \<le> r * (T - t0)" using Cons.prems(3) rest(5) by simp
  show ?case
  proof (cases "j = k")
    case True
    obtain bk' where st: "(d, bk') = bucket_step r b c now (of_int b, now)" and b': "bucket s' k = Some bk'"
      using consume_fst [of k r b c now s] consume_same [OF Cons.prems(1), of k r b c now] jK s' True
        Cons.prems(2) by (cases "bucket_step r b c now (of_int b, now)") (auto simp: full_or_def)
    note sb = step_budget [OF Cons.prems(3,4) _ _ st]
    have sb': "(if rl_allowed d then of_int c else 0) + fst bk' \<le> of_int b" "snd bk' = now" "0 \<le> fst bk'"
      using sb Cons.prems(4) by auto
    have "of_int (granted k r b es s') \<le> fst bk' + r * (T - snd bk')"
      using granted_from_bucket [OF ok' b' Cons.prems(3,4) sb'(3) _ rest(2,3,1,4)] sb'(2) by simp
    with sb'(1,2) s' True e slack show ?thesis by (auto split: if_splits)
  next
    case False
    have "bucket s' k = None"
      using consume_other [OF Cons.prems(1) jK, of k r b c now] False s' Cons.prems(2) by simp
    from Cons.IH [OF ok' this Cons.prems(3,4) rest(3,2,1,4)] s' False e slack show ?thesis by simp
  qed
qed

end

text \<open>The fallback table keeps every bucket while the keys in use fit in it.\<close>

definition mem_ok :: "string set \<Rightarrow> (string, bucket) lru \<Rightarrow> bool" where
  "mem_ok K m \<longleftrightarrow> lru_ok m \<and> finite K \<and> card K \<le> maxsize m \<and> dom (lru_peek m) \<subseteq> K"

lemma lru_maxsize [simp]: "maxsize (lru_set k v m) = maxsize m" "maxsize (lru_touch k m) = maxsize m"
  by (auto simp: lru_set_def Let_def lru_touch_def lru_getitem_def split: option.split)

lemma lru_room:
  assumes "mem_ok K m" "k \<in> K" "map_of (data m) k = None"
  shows "length (data m @ [(k, v)]) \<le> maxsize m"
proof -
  have d: "distinct (map fst (data m @ [(k, v)]))"
    using assms by (auto simp: mem_ok_def lru_ok_def map_of_eq_None_iff)
  have "set (map fst (data m @ [(k, v)])) \<subseteq> K"
    using assms(1,2) by (auto simp: mem_ok_def lru_peek_def [abs_def] dom_map_of_conv_image_fst)
  then have "length (map fst (data m @ [(k, v)])) \<le> card K"
    using d assms(1) by (metis card_mono distinct_card mem_ok_def)
  then show ?thesis using assms(1) by (simp add: mem_ok_def)
qed

lemma lru_peek_set_room:
  assumes "mem_ok K m" "k \<in> K"
  shows "lru_peek (lru_set k v m) j = (if j = k then Some v else lru_peek m j)"
  using lru_room [OF assms, of v]
  by (auto simp: lru_peek_def lru_set_def Let_def map_of_move_to_end map_add_def split: option.split)

lemma mem_ok_set:
  assumes "mem_ok K m" "k \<in> K"
  shows "mem_ok K (lru_set k v m)"
proof -
  have "dom (lru_peek (lru_set k v m)) \<subseteq> K"
  proof
    fix j assume "j \<in> dom (lru_peek (lru_set k v m))"
    then have "j = k \<or> j \<in> dom (lru_peek m)"
      using lru_peek_set_room [OF assms, of v j] by (auto simp: dom_def)
    then show "j \<in> K" using assms by (auto simp: mem_ok_def)
  qed
  with assms(1) show ?thesis by (simp add: mem_ok_def lru_ok_set)
qed

lemma mem_ok_touch: "mem_ok K m \<Longrightarrow> mem_ok K (lru_touch k m)"
  by (auto simp: mem_ok_def lru_ok_touch lru_peek_touch)

lemma lru_peek_set_touch:
  "mem_ok K m \<Longrightarrow> k \<in> K \<Longrightarrow>
   lru_peek (lru_set k v (lru_touch k m)) j = (if j = k then Some v else lru_peek m j)"
  using lru_peek_set_room [OF mem_ok_touch] by (simp add: lru_peek_touch)

interpretation mem_buckets: bucket_store lru_peek mem_consume mem_ok
  by unfold_locales
    (auto simp: mem_is_step Let_def mem_ok_set mem_ok_touch lru_peek_set_touch split: prod.split)

section \<open>Properties\<close>


text \<open>The tokens the limiter grants to \<open>key\<close> in a run of requests (key, cost, clock).\<close>

fun granted_tokens ::
  "'r redis_eval \<Rightarrow> string \<Rightarrow> rat \<Rightarrow> int \<Rightarrow> (string \<times> int \<times> rat) list \<Rightarrow> 'r limiter \<Rightarrow> int" where
  "granted_tokens ev key r b [] l = 0"
| "granted_tokens ev key r b ((j, c, now) # es) l =
     (let (d, l') = try_consume ev j r b c now l
      in (if j = key \<and> rl_allowed d then c else 0) + granted_tokens ev key r b es l')"

definition full_key :: "'r limiter \<Rightarrow> string \<Rightarrow> string" where
  "full_key l k = prefix l @ '':'' @ k"

lemma try_consume_mem:
  "redis l = None \<Longrightarrow> 0 < r \<Longrightarrow> 0 < b \<Longrightarrow> try_consume ev k r b c now l =
   (let (d, m) = mem_consume (full_key l k) r b c now (mem l) in (d, l\<lparr>mem := m\<rparr>))"
  by (simp add: try_consume_def full_key_def Let_def)

lemma granted_tokens_mem:
  "redis l = None \<Longrightarrow> 0 < r \<Longrightarrow> 0 < b \<Longrightarrow> granted_tokens ev k r b es l =
   mem_buckets.granted (full_key l k) r b (map (\<lambda>(j, c, now). (full_key l j, c, now)) es) (mem l)"
proof (induction es arbitrary: l)
  case (Cons e es)
  obtain j c now where e: "e = (j, c, now)" by (cases e) auto
  have fk: "full_key (l\<lparr>mem := m\<rparr>) = full_key l" for m by (simp add: full_key_def fun_eq_iff)
  have inj: "full_key l j = full_key l k \<longleftrightarrow> j = k" by (simp add: full_key_def)
  show ?case using Cons by (simp add: e try_consume_mem Let_def fk inj split_beta del: split_paired_All)
qed simp

text \<open>
  Rate limit: without Redis, from a fresh bucket and a clock that never goes
  back, the tokens granted to a key between \<open>t0\<close> and \<open>T\<close> are at most the burst plus the rate
  times the elapsed time, however the requests of all keys interleave, while the keys in
  use fit in the fallback table.
\<close>

theorem granted_within_rate:
  assumes "redis l = None" "mem l = \<lparr>maxsize = MEM_FALLBACK_MAX, data = []\<rparr>"
    "0 < r" "0 < b" "t0 \<le> T" "sorted (t0 # map (\<lambda>(j, c, now). now) es)"
    "\<forall>(j, c, now) \<in> set es. now \<le> T" "card ((\<lambda>(j, c, now). j) ` set es) \<le> MEM_FALLBACK_MAX"
  shows "of_int (granted_tokens ev k r b es l) \<le> of_int b + r * (T - t0)"
proof -
  let ?es = "map (\<lambda>(j, c, now). (full_key l j, c, now)) es"
  let ?K = "fst ` set ?es"
  have "?K = full_key l ` ((\<lambda>(j, c, now). j) ` set es)" by (force simp: image_iff)
  then have "card ?K \<le> MEM_FALLBACK_MAX" using assms(8) card_image_le
    by (metis List.finite_set finite_imageI le_trans)
  then have ok: "mem_ok ?K (mem l)"
    using assms(2) by (auto simp: mem_ok_def lru_ok_def lru_peek_def MEM_FALLBACK_MAX_def)
  have t: "map (\<lambda>e. snd (snd e)) ?es = map (\<lambda>(j, c, now). now) es" by (simp add: case_prod_unfold comp_def)
  have "of_int (mem_buckets.granted (full_key l k) r b ?es (mem l)) \<le> of_int b + r * (T - t0)"
  proof (rule mem_buckets.granted_bound [OF ok _ assms(3,4) subset_refl assms(5)])
    show "lru_peek (mem l) (full_key l k) = None" by (simp add: assms(2) lru_peek_def)
    show "sorted (t0 # map (\<lambda>e. snd (snd e)) ?es)" using assms(6) by (simp only: t)
    show "\<forall>e\<in>set ?es. snd (snd e) \<le> T" using assms(7) by auto
  qed
  then show ?thesis by (simp add: granted_tokens_mem assms(1,3,4))
qed

theorem granted_within_rate_witness:
  "of_int (granted_tokens (\<lambda>_ _ _ _ _ _ _. None) ''u1'' 2 3 [(''u1'', 1, 10), (''u2'', 1, 10), (''u1'', 3, 11)]
     \<lparr>redis = (None :: unit option), redis_health = 1, redis_fallback_total = 0,
      mem = \<lparr>maxsize = MEM_FALLBACK_MAX, data = []\<rparr>, prefix = ''q''\<rparr>) \<le> (of_int 3 + 2 * (11 - 10) :: rat)"
  by (rule granted_within_rate) (auto simp: MEM_FALLBACK_MAX_def card_insert_if)

text \<open>
  The \<open>Retry-After\<close> of a denied request that can ever fit is exact: with no
  other request in between, a retry is allowed from that moment on and denied before.
\<close>

theorem retry_after_exact:
  assumes "0 < rate" "cost \<le> burst" "0 \<le> wait"
    "mem_consume k rate burst cost now m = (d, m')" "\<not> rl_allowed d" "lru_ok m"
  shows "0 < retry_after_s d \<and>
    (rl_allowed (fst (mem_consume k rate burst cost (now + wait) m')) \<longleftrightarrow> retry_after_s d \<le> wait)"
proof -
  define t where "t = refill rate burst now (full_or burst now (lru_peek m k))"
  have den: "t < of_int cost" "d = \<lparr>rl_allowed = False, retry_after_s = (of_int cost - t) / rate, tokens_remaining = t\<rparr>"
    "m' = lru_set k (t, now) (lru_touch k m)"
    using assms(4,5) by (auto simp: mem_is_step bucket_step_def t_def Let_def split: if_splits)
  have pk: "full_or burst (now + wait) (lru_peek m' k) = (t, now)"
    using assms(6) den(3) by (simp add: lru_peek_set_same lru_ok_touch full_or_def)
  have "(of_int cost - t) / rate \<le> wait \<longleftrightarrow> of_int cost \<le> t + wait * rate"
    using assms(1) by (simp add: pos_divide_le_eq algebra_simps)
  moreover have "(of_int cost :: rat) \<le> of_int burst" using assms(2) by simp
  ultimately show ?thesis using den(1,2) assms(1,3)
    by (auto simp: mem_is_step bucket_step_def Let_def pk refill_def split_beta)
qed

theorem retry_after_exact_witness:
  "let m = \<lparr>maxsize = 2, data = [(''k'', (1, 10))]\<rparr>; (d, m') = mem_consume ''k'' 2 4 3 10 m
   in \<not> rl_allowed d \<and> retry_after_s d = 1 \<and> rl_allowed (fst (mem_consume ''k'' 2 4 3 (10 + 1) m'))"
proof -
  define m :: "(string, bucket) lru" where "m = \<lparr>maxsize = 2, data = [(''k'', (1, 10))]\<rparr>"
  define d where "d = \<lparr>rl_allowed = False, retry_after_s = 1, tokens_remaining = (1::rat)\<rparr>"
  have c: "mem_consume ''k'' 2 4 3 10 m = (d, m)"
    by (simp add: mem_consume_def lru_get_def lru_getitem_def lru_set_def move_to_end_def dict_pop_def
        m_def d_def)
  have "lru_ok m" by (simp add: m_def lru_ok_def)
  from retry_after_exact [OF _ _ _ c _ this, of 1] show ?thesis
    by (simp add: c d_def flip: m_def)
qed

text \<open>
  Expiry of an idle Redis key is invisible exactly as long as the bucket
  refills within the hour the time-to-live is capped at: dropping the hash once its
  time-to-live has passed gives the same answers as refilling it.
\<close>

theorem expired_bucket_is_full:
  assumes "0 < rate" "0 < burst" "of_int burst \<le> 3600 * rate" "0 \<le> tokens"
    "of_int (ttl_for_bucket rate burst) \<le> now - ts"
  shows "lua_token_bucket (Some (tokens, ts)) now rate burst cost = lua_token_bucket None now rate burst cost"
proof -
  let ?fill = "of_int burst / rate"
  have "?fill \<le> of_int (ttl_for_bucket rate burst)"
  proof (cases "\<lfloor>?fill * 2\<rfloor> + 1 \<le> 3600")
    case True
    have "0 < ?fill" using assms(1,2) by simp
    then have "?fill \<le> ?fill * 2" by (simp add: mult_2_right del: times_divide_eq_left)
    also have "\<dots> \<le> of_int (\<lfloor>?fill * 2\<rfloor> + 1)" by linarith
    also have "\<dots> \<le> of_int (ttl_for_bucket rate burst)"
      using assms(1) True by (simp add: ttl_for_bucket_def Let_def)
    finally show ?thesis .
  next
    case False
    then have "ttl_for_bucket rate burst = 3600" using assms(1) by (simp add: ttl_for_bucket_def Let_def)
    then show ?thesis using assms(1,3) by (simp add: pos_divide_le_eq)
  qed
  then have "?fill \<le> now - ts" using assms(5) by linarith
  then have full: "of_int burst \<le> tokens + (now - ts) * rate"
    using assms(1,4) by (simp add: pos_divide_le_eq)
  have "0 < ?fill" using assms(1,2) by simp
  with \<open>?fill \<le> now - ts\<close> have "0 < now - ts" by linarith
  with full show ?thesis by (simp add: lua_token_bucket_def Let_def min_def)
qed

theorem expired_bucket_is_full_witness:
  "lua_token_bucket (Some (0, 100)) 161 1 5 2 = lua_token_bucket None 161 1 5 2"
  by (rule expired_bucket_is_full) (simp_all add: ttl_for_bucket_def)

end
