(* ===== verification/Router.thy ===== *)
theory Router
  imports QueryFacts Frames Correlation Lru TokenBucket Acl
begin

text \<open>
  The state one router process keeps (\<open>AppState\<close> of \<open>bp_router/app.py\<close>, the socket
  registry of \<open>ws_hub.py\<close>) and \<open>bp_router/delivery.py\<close>.  A socket entry is an address in
  \<open>sockets\<close>; the outbox and the set of in-flight correlation ids, which a resumed entry
  shares with the one it replaces, are a channel at an address in \<open>chans\<close>.  An asyncio
  task running an LLM call is an address in \<open>llms\<close>.
\<close>

record channel =
  ch_cap :: int
  ch_out :: "frame list"
  ch_infl :: "corr_id list"

record socket =
  so_agent :: agent_id
  so_token :: string
  so_jti :: string
  so_chan :: nat
  so_closed :: bool
  so_llm :: "(corr_id \<times> nat) list"

datatype llm_status = LlmRunning | LlmCancelled | LlmDone

record llm_task =
  lt_task :: "task_id option"
  lt_status :: llm_status

record settings =
  default_task_deadline_s :: rat
  pending_ack_timeout_s :: rat
  spawn_max_depth :: nat
  task_delegation_max_depth :: nat
  quota_admit_rate_per_s :: "level \<Rightarrow> rat option"
  quota_admit_burst :: "level \<Rightarrow> int option"
  per_socket_outbox_max :: int
  resume_window_s :: rat
  user_level_ttl_s :: rat
  acl_max_tier :: nat
  max_upload_bytes :: int
  file_default_ttl_s :: rat
  file_storage_quota_bytes :: "level \<Rightarrow> int option"
  file_upload_request_rate_per_s :: rat
  file_upload_request_burst :: int
  file_upload_token_ttl_s :: int
  file_fetch_token_ttl_s :: int
  file_download_presigned :: bool
  closed_session_retention_days :: int
  jwt_secret :: string
  jwt_key_version :: int
  jwt_algorithm :: string
  agent_token_ttl_s :: int
  session_jwt_ttl_s :: int
  refresh_token_ttl_s :: int
  link_token_ttl_s :: int
  \<comment> \<open>rate limits: the pair of the \<open>_per_s\<close> and \<open>_burst\<close> fields\<close>
  login_rate_limit_per_ip :: "rat \<times> int"
  login_rate_limit_per_email :: "rat \<times> int"
  refresh_rate_limit_per_ip :: "rat \<times> int"
  change_password_rate_limit_per_user :: "rat \<times> int"
  password_reset_consume_rate_limit_per_ip :: "rat \<times> int"
  link_token_mint_rate_limit_per_user :: "rat \<times> int"
  agent_info_update_rate_limit_per_agent :: "rat \<times> int"
  service_mint_refresh_token_rate_limit_per_target :: "rat \<times> int"
  password_reset_mint_rate_limit_per_target :: "rat \<times> int"
  password_reset_token_ttl_s :: int
  registration_rate_limit_per_submitter :: "rat \<times> int"
  registration_rate_limit_per_external :: "rat \<times> int"
  registration_web_rate_limit_per_ip :: "rat \<times> int"
  ws_handshake_catalog_cache_ttl_s :: rat
  oidc_issuer :: string
  oidc_allowed_redirect_uris :: "string list"
  oidc_group_claim :: string
  oidc_allowed_groups :: "string list"
  oidc_group_to_level :: "(string \<times> level) list"
  oidc_default_level :: level
  oidc_auto_link_by_verified_email :: bool
  oidc_jit_provisioning :: bool

text \<open>A provider adapter: what it was built from.\<close>

record adapter =
  ad_provider :: string
  ad_model :: string
  ad_key :: string
  ad_base_url :: "string option"

record 'r router =
  rdb :: db
  sockets :: "socket list"
  chans :: "channel list"
  live :: "(agent_id \<times> nat) list"
  parked :: "(agent_id \<times> nat) list"
  acks :: "frame pending"
  caller_cache :: "(task_id, agent_id \<times> agent_id) lru"
  terminal_events :: "(task_id \<times> nat) list"
  fired_events :: "nat list"
  llms :: "llm_task list"
  llm_index :: "(task_id \<times> nat list) list"
  level_cache :: "(user_id, level \<times> time) lru"
  presets :: "(string \<times> preset) list"
  adapters :: "(string \<times> adapter) list"
  rrules :: "rule list"
  rsettings :: settings
  admit_quota :: "'r limiter"
  login_quota :: "'r limiter"
  rmetrics :: "(string \<times> string) list"
  blobs :: "string list"   \<comment> \<open>hashes the storage back end holds bytes for\<close>
  revocations :: "(string \<times> int) list"   \<comment> \<open>\<open>SET key 1 EX ttl\<close> commands that Redis has executed\<close>
  agent_catalog_cache :: "(agent_row list \<times> time) option"   \<comment> \<open>a scan of \<open>agents\<close> and its expiry\<close>

text \<open>Code outside \<open>src/\<close> that the router calls: the JSON Schema validator, SHA-256 of an
  audit row's canonical JSON, and the Redis \<open>eval\<close>.\<close>

datatype validation = Valid | ValidationErr string | SchemaErr string

record 'r deps =
  dep_validate :: "json \<Rightarrow> json \<Rightarrow> validation"
  dep_digest :: "audit_row \<Rightarrow> string"
  dep_redis :: "'r redis_eval"

section \<open>Sockets\<close>

definition the_socket :: "'r router \<Rightarrow> nat \<Rightarrow> socket" where
  "the_socket r s = sockets r ! s"

definition chan_of :: "'r router \<Rightarrow> nat \<Rightarrow> nat" where
  "chan_of r s = so_chan (sockets r ! s)"

definition upd_chan :: "nat \<Rightarrow> (channel \<Rightarrow> channel) \<Rightarrow> 'r router \<Rightarrow> 'r router" where
  "upd_chan c f r = r\<lparr>chans := (if c < length (chans r) then (chans r)[c := f (chans r ! c)] else chans r)\<rparr>"

text \<open>\<open>registry.get(agent_id)\<close>: the live socket.\<close>

definition live_socket :: "'r router \<Rightarrow> agent_id \<Rightarrow> nat option" where
  "live_socket r a = map_of (live r) a"

text \<open>\<open>asyncio.Queue.full()\<close>: a queue without a positive maximum is never full.\<close>

definition ch_full :: "channel \<Rightarrow> bool" where
  "ch_full c = (0 < ch_cap c \<and> ch_cap c \<le> int (length (ch_out c)))"

definition put_frame :: "nat \<Rightarrow> frame \<Rightarrow> 'r router \<Rightarrow> 'r router" where
  "put_frame c f = upd_chan c (\<lambda>ch. ch\<lparr>ch_out := ch_out ch @ [f]\<rparr>)"

definition add_infl :: "nat \<Rightarrow> corr_id \<Rightarrow> 'r router \<Rightarrow> 'r router" where
  "add_infl c cid = upd_chan c (\<lambda>ch. ch\<lparr>ch_infl := List.insert cid (ch_infl ch)\<rparr>)"

definition discard_infl :: "nat \<Rightarrow> corr_id \<Rightarrow> 'r router \<Rightarrow> 'r router" where
  "discard_infl c cid = upd_chan c (\<lambda>ch. ch\<lparr>ch_infl := removeAll cid (ch_infl ch)\<rparr>)"

definition count_metric :: "string \<Rightarrow> string \<Rightarrow> 'r router \<Rightarrow> 'r router" where
  "count_metric m l r = r\<lparr>rmetrics := rmetrics r @ [(m, l)]\<rparr>"

definition record_deliver_dropped :: "string \<Rightarrow> 'r router \<Rightarrow> 'r router" where
  "record_deliver_dropped ty = count_metric ''deliver_frame_dropped_total'' ty"

section \<open>Delivery\<close>

datatype delivery =
    NotConnected          \<comment> \<open>\<open>AgentNotConnected\<close>\<close>
  | QueueFull
  | Queued
  | Awaiting nat nat      \<comment> \<open>channel and future to await\<close>

text \<open>
  The synchronous part of \<open>deliver_frame\<close>, up to \<open>await fut\<close>.  \<open>wait\<close> is the correlation
  id of the frame when its ack is awaited.
\<close>

definition deliver_frame ::
  "agent_id \<Rightarrow> frame \<Rightarrow> corr_id option \<Rightarrow> time option \<Rightarrow> time \<Rightarrow> 'r router \<Rightarrow> delivery \<times> 'r router" where
  "deliver_frame a f wait timeout now r =
     (case live_socket r a of
        None \<Rightarrow> (NotConnected, r)
      | Some s \<Rightarrow>
          let c = chan_of r s;
              (fut, r1) = (case wait of
                 None \<Rightarrow> (0, r)
               | Some cid \<Rightarrow> (let (n, p) = ack_register cid timeout now (acks r)
                             in (n, add_infl c cid (r\<lparr>acks := p\<rparr>))))
          in if ch_full (chans r1 ! c)
             then (let r2 = (case wait of
                       None \<Rightarrow> r1
                     | Some cid \<Rightarrow> discard_infl c cid
                         (r1\<lparr>acks := snd (ack_reject cid (RuntimeError ''backpressure'') (acks r1))\<rparr>))
                   in (QueueFull, record_deliver_dropped (frame_type f) r2))
             else ((case wait of None \<Rightarrow> Queued | Some _ \<Rightarrow> Awaiting c fut), put_frame c f r1))"

text \<open>The rest, once the future is done: the \<open>finally\<close> clause and what \<open>await fut\<close> gives.\<close>

definition deliver_finish :: "nat \<Rightarrow> nat \<Rightarrow> corr_id \<Rightarrow> 'r router \<Rightarrow> frame fut \<times> 'r router" where
  "deliver_finish c fut cid r = (futs (acks r) ! fut, discard_infl c cid r)"

fun fanout_frame :: "agent_id list \<Rightarrow> frame \<Rightarrow> 'r router \<Rightarrow> nat \<times> 'r router" where
  "fanout_frame [] f r = (0, r)"
| "fanout_frame (a # as) f r =
     (case live_socket r a of
        None \<Rightarrow> fanout_frame as f r
      | Some s \<Rightarrow>
          let c = chan_of r s
          in if ch_full (chans r ! c)
             then fanout_frame as f (record_deliver_dropped (frame_type f) r)
             else (let (n, r') = fanout_frame as f (put_frame c f r) in (Suc n, r')))"

text \<open>
  \<open>try: await deliver_frame(..., await_ack=False) except (AgentNotConnected, QueueFull)\<close>:
  the fan-out of a frame nobody acks.
\<close>

definition send_to :: "agent_id \<Rightarrow> frame \<Rightarrow> 'r router \<Rightarrow> 'r router" where
  "send_to a f r = snd (deliver_frame a f None None 0 r)"

section \<open>What delivery changes\<close>

text \<open>Two states that differ in channels, ack futures and metrics only.\<close>

definition same_store :: "'r router \<Rightarrow> 'r router \<Rightarrow> bool" where
  "same_store r r' \<longleftrightarrow> rdb r' = rdb r \<and> caller_cache r' = caller_cache r \<and> level_cache r' = level_cache r \<and>
     live r' = live r \<and> parked r' = parked r \<and> sockets r' = sockets r \<and> rrules r' = rrules r \<and>
     rsettings r' = rsettings r \<and> admit_quota r' = admit_quota r \<and> length (chans r') = length (chans r) \<and>
     terminal_events r' = terminal_events r \<and> fired_events r' = fired_events r \<and>
     llms r' = llms r \<and> llm_index r' = llm_index r"

lemma same_store_refl [simp]: "same_store r r"
  by (simp add: same_store_def)

lemma same_store_trans [trans]: "same_store r s \<Longrightarrow> same_store s t \<Longrightarrow> same_store r t"
  by (simp add: same_store_def)

lemma same_store_upd_chan [simp]: "same_store r (upd_chan c f r)"
  by (simp add: same_store_def upd_chan_def)

lemma same_store_chan_ops [simp]:
  "same_store r (put_frame c fr r)" "same_store r (add_infl c cid r)" "same_store r (discard_infl c cid r)"
  by (simp_all add: put_frame_def add_infl_def discard_infl_def)

lemma same_store_metric [simp]: "same_store r (count_metric m l r)" "same_store r (record_deliver_dropped ty r)"
  by (simp_all add: same_store_def count_metric_def record_deliver_dropped_def)

lemma same_store_acks [simp]: "same_store r (r\<lparr>acks := p\<rparr>)"
  by (simp add: same_store_def)

lemma same_store_intros:
  "same_store r s \<Longrightarrow> same_store r (upd_chan c g s)" "same_store r s \<Longrightarrow> same_store r (put_frame c fr s)"
  "same_store r s \<Longrightarrow> same_store r (add_infl c cid s)" "same_store r s \<Longrightarrow> same_store r (discard_infl c cid s)"
  "same_store r s \<Longrightarrow> same_store r (record_deliver_dropped ty s)" "same_store r s \<Longrightarrow> same_store r (s\<lparr>acks := p\<rparr>)"
  "same_store r s \<Longrightarrow> same_store r (count_metric m l s)"
  by (erule same_store_trans, simp)+

lemma same_store_deliver: "same_store r (snd (deliver_frame a f wait timeout now r))"
  by (auto simp: deliver_frame_def Let_def split_beta intro!: same_store_intros split: option.split)

lemma same_store_send_to: "same_store r (send_to a f r)"
  by (simp add: send_to_def same_store_deliver)

lemma same_store_fanout: "same_store r s \<Longrightarrow> same_store r (snd (fanout_frame as f s))"
  by (induction "as" f s rule: fanout_frame.induct)
    (simp_all add: Let_def same_store_intros split_beta split: option.split)

end
