(* ===== verification/Tasks.thy ===== *)
theory Tasks
  imports Router
begin

text \<open>
  \<open>bp_router/tasks.py\<close>, completion, cancellation, failure and the deadline sweep.  A
  handler is one function on the router's state: its transaction, the listeners it wakes
  and the frames it puts on outboxes, in the order of the code.  Admission and delegation
  are in \<open>Admission\<close> and \<open>Delegation\<close>.
\<close>

section \<open>Helpers\<close>

definition abort_llm :: "nat \<Rightarrow> 'r router \<Rightarrow> nat \<times> 'r router" where
  "abort_llm l r =
     (if l < length (llms r) \<and> lt_status (llms r ! l) \<noteq> LlmDone
      then (1, r\<lparr>llms := (llms r)[l := (llms r ! l)\<lparr>lt_status := LlmCancelled\<rparr>]\<rparr>)
      else (0, r))"

fun abort_each :: "nat list \<Rightarrow> 'r router \<Rightarrow> nat \<times> 'r router" where
  "abort_each [] r = (0, r)"
| "abort_each (l # ls) r =
     (let (k, r1) = abort_llm l r; (n, r2) = abort_each ls r1 in (k + n, r2))"

definition abort_router_side_llm_tasks :: "task_id list \<Rightarrow> 'r router \<Rightarrow> nat \<times> 'r router" where
  "abort_router_side_llm_tasks tids r =
     abort_each (concat (map (\<lambda>t. case map_of (llm_index r) t of None \<Rightarrow> [] | Some ls \<Rightarrow> ls) tids)) r"

definition notify_task_terminal :: "task_id \<Rightarrow> 'r router \<Rightarrow> 'r router" where
  "notify_task_terminal tid r =
     (let r1 = (case map_of (terminal_events r) tid of
           None \<Rightarrow> r
         | Some ev \<Rightarrow> r\<lparr>terminal_events := dict_pop tid (terminal_events r), fired_events := fired_events r @ [ev]\<rparr>)
      in r1\<lparr>caller_cache := lru_drop tid (caller_cache r1)\<rparr>)"

definition cache_caller_agent :: "task_id \<Rightarrow> agent_id \<Rightarrow> agent_id \<Rightarrow> 'r router \<Rightarrow> 'r router" where
  "cache_caller_agent tid caller active r = r\<lparr>caller_cache := lru_set tid (caller, active) (caller_cache r)\<rparr>"

definition recache_active_agent :: "task_id \<Rightarrow> agent_id \<Rightarrow> 'r router \<Rightarrow> 'r router" where
  "recache_active_agent tid active r =
     (case lru_getitem tid (caller_cache r) of
        None \<Rightarrow> r
      | Some ((caller, _), c) \<Rightarrow> r\<lparr>caller_cache := lru_set tid (caller, active) c\<rparr>)"

text \<open>\<open>error or {"code": reason}\<close>.\<close>

definition error_or_reason :: "json option \<Rightarrow> string \<Rightarrow> json" where
  "error_or_reason er reason = (case er of
     Some (JObj (kv # kvs)) \<Rightarrow> JObj (kv # kvs) | _ \<Rightarrow> JObj [(''code'', JStr reason)])"

section \<open>Completion\<close>

definition complete_task :: "result_frame \<Rightarrow> agent_id \<Rightarrow> time \<Rightarrow> 'r router \<Rightarrow> 'r router" where
  "complete_task f reporter now r =
     (case find_task (rdb r) (rf_task f) of
        None \<Rightarrow> r
      | Some row \<Rightarrow>
          if reporter \<noteq> t_active row
          then count_metric ''result_from_wrong_agent_total''
                 (if reporter = t_agent row then ''owning'' else ''other'') r
          else
            (case task_transition (rf_task f) (state_from_status (rf_status f))
                    (''result_'' @ status_value (rf_status f)) (Some reporter) [] (Some (rf_code f))
                    (map_option dump_output (rf_output f)) (rf_error f) now (rdb r) of
               Inl e \<Rightarrow> r
             | Inr (_, d) \<Rightarrow>
                 send_to (t_caller row)
                   (ResultF \<lparr>rf_agent = reporter, rf_task = rf_task f, rf_parent = t_parent row,
                      rf_status = rf_status f, rf_code = rf_code f, rf_output = rf_output f,
                      rf_error = rf_error f\<rparr>)
                   (notify_task_terminal (rf_task f) (r\<lparr>rdb := d\<rparr>))))"

section \<open>Cancellation\<close>

record plan_entry =
  pl_tid :: task_id
  pl_active :: agent_id
  pl_caller :: agent_id
  pl_parent :: "task_id option"

text \<open>One transaction per target; a target that is terminal or gone is skipped.\<close>

definition cancel_one :: "string \<Rightarrow> agent_id \<Rightarrow> time \<Rightarrow> task_id \<Rightarrow> 'r router \<Rightarrow> plan_entry list \<times> 'r router" where
  "cancel_one reason actor now tid r =
     (case task_transition tid CANCELLED reason (Some actor) [] None None None now (rdb r) of
        Inl e \<Rightarrow> ([], r)
      | Inr (_, d) \<Rightarrow>
          let r1 = notify_task_terminal tid (r\<lparr>rdb := d\<rparr>)
          in (case find_task d tid of
                None \<Rightarrow> ([], r1)
              | Some t \<Rightarrow> ([\<lparr>pl_tid = tid, pl_active = t_active t, pl_caller = t_caller t,
                             pl_parent = t_parent t\<rparr>], r1)))"

fun cancel_each ::
  "string \<Rightarrow> agent_id \<Rightarrow> time \<Rightarrow> task_id list \<Rightarrow> 'r router \<Rightarrow> plan_entry list \<times> 'r router" where
  "cancel_each reason actor now [] r = ([], r)"
| "cancel_each reason actor now (tid # tids) r =
     (let (p, r1) = cancel_one reason actor now tid r;
          (ps, r2) = cancel_each reason actor now tids r1
      in (p @ ps, r2))"

definition cancelled_result :: "plan_entry \<Rightarrow> string \<Rightarrow> result_frame" where
  "cancelled_result p reason = \<lparr>rf_agent = ''router'', rf_task = pl_tid p, rf_parent = pl_parent p,
     rf_status = CancelledSt, rf_code = 499, rf_output = None,
     rf_error = Some (JObj [(''code'', JStr ''cancelled''), (''message'', JStr reason)])\<rparr>"

fun emit_plan :: "string \<Rightarrow> plan_entry list \<Rightarrow> 'r router \<Rightarrow> 'r router" where
  "emit_plan reason [] r = r"
| "emit_plan reason (p # ps) r =
     emit_plan reason ps
       (send_to (pl_active p) (CancelF (Some (pl_tid p)) None reason)
         (send_to (pl_caller p) (ResultF (cancelled_result p reason)) r))"

definition cancel_task :: "task_id \<Rightarrow> user_id \<Rightarrow> string \<Rightarrow> agent_id \<Rightarrow> time \<Rightarrow> 'r router \<Rightarrow> nat \<times> 'r router" where
  "cancel_task tid uid reason initiator now r =
     (let targets = tid # map t_id (list_descendants uid tid (rdb r));
          (plan, r1) = cancel_each reason initiator now targets r;
          r2 = snd (abort_router_side_llm_tasks (map pl_tid plan) r1)
      in (length plan, emit_plan reason plan r2))"

section \<open>Failure\<close>

text \<open>The transaction of \<open>fail_task\<close>: the user it resolves and the parent it reads.\<close>

definition fail_transition ::
  "task_id \<Rightarrow> user_id option \<Rightarrow> int \<Rightarrow> string \<Rightarrow> json option \<Rightarrow> agent_id option \<Rightarrow> task_state \<Rightarrow> time \<Rightarrow>
   db \<Rightarrow> (user_id \<times> task_id option \<times> db) option" where
  "fail_transition tid uid sc reason er actor terminal now d =
     (case (case uid of Some u \<Rightarrow> Some u | None \<Rightarrow> map_option t_user (find_task d tid)) of
        None \<Rightarrow> None
      | Some u \<Rightarrow>
          (case find_task d tid of
             None \<Rightarrow> None
           | Some row \<Rightarrow>
               (case task_transition tid terminal reason actor [] (Some sc) None
                       (Some (error_or_reason er reason)) now d of
                  Inl e \<Rightarrow> None
                | Inr (_, d') \<Rightarrow> Some (u, t_parent row, d'))))"

definition cascade_reason :: "task_state \<Rightarrow> string" where
  "cascade_reason terminal = (if terminal = TIMED_OUT then ''parent_timed_out'' else ''parent_failed'')"

definition fail_task ::
  "task_id \<Rightarrow> user_id option \<Rightarrow> int \<Rightarrow> string \<Rightarrow> json option \<Rightarrow> agent_id option \<Rightarrow> task_state \<Rightarrow> time \<Rightarrow>
   'r router \<Rightarrow> 'r router" where
  "fail_task tid uid sc reason er actor terminal now r =
     (case fail_transition tid uid sc reason er actor terminal now (rdb r) of
        None \<Rightarrow> r
      | Some (u, parent, d) \<Rightarrow>
          let r1 = notify_task_terminal tid (r\<lparr>rdb := d\<rparr>);
              (plan, r2) = cancel_each (cascade_reason terminal) ''router'' now
                             (map t_id (list_descendants u tid (rdb r1))) r1;
              r3 = snd (abort_router_side_llm_tasks (map pl_tid plan) r2);
              r4 = emit_plan (cascade_reason terminal) plan r3
          in (case parent of
                None \<Rightarrow> r4
              | Some p \<Rightarrow>
                  (case find_task (rdb r4) p of
                     None \<Rightarrow> r4
                   | Some owner \<Rightarrow>
                       send_to (t_agent owner)
                         (ResultF \<lparr>rf_agent = ''router'', rf_task = tid, rf_parent = Some p,
                            rf_status = the (status_from_state terminal), rf_code = sc, rf_output = None,
                            rf_error = Some (error_or_reason er reason)\<rparr>) r4)))"

definition inflight_ids :: "agent_id \<Rightarrow> db \<Rightarrow> task_id list" where
  "inflight_ids a d =
     map t_id (filter (\<lambda>t. t_agent t = a \<and> t_state t \<in> {QUEUED, RUNNING, WAITING_CHILDREN}) (tasks d))"

definition fail_inflight_for_agent :: "agent_id \<Rightarrow> string \<Rightarrow> time \<Rightarrow> 'r router \<Rightarrow> nat \<times> 'r router" where
  "fail_inflight_for_agent a reason now r =
     (let ids = inflight_ids a (rdb r)
      in (length ids,
          foldl (\<lambda>r tid. fail_task tid None 503 reason
                   (Some (JObj [(''code'', JStr reason), (''agent_id'', JStr a)])) (Some ''router'') FAILED now r)
            r ids))"

section \<open>The deadline sweep\<close>

definition SWEEP_LIMIT :: nat where
  "SWEEP_LIMIT = 100"

definition sweep_row :: "time \<Rightarrow> 'r router \<Rightarrow> task_row \<Rightarrow> 'r router" where
  "sweep_row now r row =
     fail_task (t_id row) (Some (t_user row)) 504 ''deadline_exceeded''
       (Some (JObj [(''code'', JStr ''deadline_exceeded'')])) None TIMED_OUT now r"

definition sweep_once :: "time \<Rightarrow> 'r router \<Rightarrow> nat \<times> 'r router" where
  "sweep_once now r =
     (let rows = find_expired_tasks now SWEEP_LIMIT (rdb r)
      in (length rows, foldl (sweep_row now) r rows))"

end
