(* ===== verification/TaskFacts.thy ===== *)
theory TaskFacts
  imports Tasks
begin

text \<open>
  The invariant of the router's task state and its preservation by the handlers of
  \<open>Tasks\<close>.  \<open>good r r'\<close> is what every handler is shown to do: keep the invariant and let
  the tasks table evolve.  It is reflexive and transitive, so a handler is good because
  the operations it is composed of are.
\<close>

section \<open>The invariant\<close>

text \<open>Who awaits a task and who executes it, as the cache should know it.\<close>

definition task_agents :: "db \<Rightarrow> task_id \<Rightarrow> (agent_id \<times> agent_id) option" where
  "task_agents d tid = map_option (\<lambda>t. (t_caller t, t_active t)) (find_task d tid)"

text \<open>A Result frame carries the status of the row it reports on.\<close>

definition frame_ok :: "db \<Rightarrow> frame \<Rightarrow> bool" where
  "frame_ok d f = (case f of
     ResultF x \<Rightarrow> (case find_task d (rf_task x) of None \<Rightarrow> False
                   | Some t \<Rightarrow> t_state t = state_from_status (rf_status x))
   | _ \<Rightarrow> True)"

definition frames_ok :: "'r router \<Rightarrow> bool" where
  "frames_ok r = (\<forall>c\<in>set (chans r). \<forall>f\<in>set (ch_out c). frame_ok (rdb r) f)"

definition cache_ok :: "'r router \<Rightarrow> bool" where
  "cache_ok r \<longleftrightarrow> lru_ok (caller_cache r) \<and> lru.coherent (caller_cache r) (task_agents (rdb r))"

text \<open>
  The registry: live and parked entries are sockets of the agent they are filed under, no
  entry is both, every socket has a channel, and only sockets of one agent share one.
\<close>

definition socket_keys :: "'r router \<Rightarrow> (agent_id \<times> nat) list" where
  "socket_keys r = map (\<lambda>x. (so_agent x, so_chan x)) (sockets r)"

definition chans_ok :: "(agent_id \<times> nat) list \<Rightarrow> nat \<Rightarrow> bool" where
  "chans_ok ks n \<longleftrightarrow> (\<forall>x \<in> set ks. snd x < n \<and> (\<forall>y \<in> set ks. snd x = snd y \<longrightarrow> fst x = fst y))"

definition reg_ok :: "'r router \<Rightarrow> bool" where
  "reg_ok r \<longleftrightarrow> distinct (map fst (live r)) \<and> distinct (map fst (parked r)) \<and>
     (\<forall>e \<in> set (live r) \<union> set (parked r). snd e < length (sockets r) \<and> so_agent (sockets r ! snd e) = fst e) \<and>
     chans_ok (socket_keys r) (length (chans r)) \<and> set (live r) \<inter> set (parked r) = {}"

lemma chans_okD:
  assumes "chans_ok (socket_keys r) n" "s < length (sockets r)"
  shows "chan_of r s < n" "u < length (sockets r) \<Longrightarrow> chan_of r s = chan_of r u \<Longrightarrow>
    so_agent (sockets r ! s) = so_agent (sockets r ! u)"
proof -
  have k: "(so_agent (sockets r ! v), chan_of r v) \<in> set (socket_keys r)" if "v < length (sockets r)" for v
    using that by (auto simp: socket_keys_def chan_of_def)
  show "chan_of r s < n" using assms(1) k [OF assms(2)] unfolding chans_ok_def by (metis snd_conv)
  show "u < length (sockets r) \<Longrightarrow> chan_of r s = chan_of r u \<Longrightarrow> so_agent (sockets r ! s) = so_agent (sockets r ! u)"
    using assms(1) k [OF assms(2)] k [of u] unfolding chans_ok_def by (metis fst_conv snd_conv)
qed

lemma reg_okD:
  assumes "reg_ok r" "map_of (live r) a = Some s \<or> map_of (parked r) a = Some s"
  shows "s < length (sockets r)" "so_agent (sockets r ! s) = a" "chan_of r s < length (chans r)"
proof -
  have "(a, s) \<in> set (live r) \<union> set (parked r)" using assms(2) map_of_SomeD by fastforce
  with assms(1) have "s < length (sockets r) \<and> so_agent (sockets r ! s) = a" by (force simp: reg_ok_def)
  then show "s < length (sockets r)" "so_agent (sockets r ! s) = a" by simp_all
  then show "chan_of r s < length (chans r)" using assms(1) chans_okD(1) by (auto simp: reg_ok_def)
qed

lemma reg_ok_same_chan:
  assumes "reg_ok r" "s < length (sockets r)" "u < length (sockets r)" "chan_of r s = chan_of r u"
  shows "so_agent (sockets r ! s) = so_agent (sockets r ! u)"
  using assms chans_okD(2) unfolding reg_ok_def by blast

definition inv :: "'r router \<Rightarrow> bool" where
  "inv r \<longleftrightarrow> db_ok (rdb r) \<and> tree_ok (rdb r) \<and> cache_ok r \<and> frames_ok r \<and> reg_ok r"

definition good :: "'r router \<Rightarrow> 'r router \<Rightarrow> bool" where
  "good r r' \<longleftrightarrow> (inv r \<longrightarrow> inv r' \<and> evolves (rdb r) (rdb r'))"

lemma good_refl [simp]: "good r r"
  by (simp add: good_def)

lemma good_trans [trans]: "good r s \<Longrightarrow> good s t \<Longrightarrow> good r t"
  unfolding good_def by (meson evolves_trans)

lemma goodD: "good r r' \<Longrightarrow> inv r \<Longrightarrow> inv r'" "good r r' \<Longrightarrow> inv r \<Longrightarrow> evolves (rdb r) (rdb r')"
  by (simp_all add: good_def)

lemma invD:
  assumes "inv r"
  shows "db_ok (rdb r)" "tree_ok (rdb r)" "cache_ok r" "frames_ok r" "reg_ok r"
  using assms by (simp_all add: inv_def)

section \<open>Channels\<close>

definition outbox :: "'r router \<Rightarrow> agent_id \<Rightarrow> frame list" where
  "outbox r a = (case live_socket r a of None \<Rightarrow> [] | Some s \<Rightarrow> ch_out (chans r ! chan_of r s))"

text \<open>The agent has a live socket whose outbox has room.\<close>

definition accepts :: "'r router \<Rightarrow> agent_id \<Rightarrow> bool" where
  "accepts r a = (case live_socket r a of None \<Rightarrow> False | Some s \<Rightarrow> \<not> ch_full (chans r ! chan_of r s))"

lemma chans_send_to:
  "chans (send_to a f r) = (case live_socket r a of None \<Rightarrow> chans r
     | Some s \<Rightarrow> if ch_full (chans r ! chan_of r s) \<or> \<not> chan_of r s < length (chans r) then chans r
                else (chans r)[chan_of r s := (chans r ! chan_of r s)
                       \<lparr>ch_out := ch_out (chans r ! chan_of r s) @ [f]\<rparr>])"
  by (auto simp: send_to_def deliver_frame_def Let_def put_frame_def upd_chan_def
      record_deliver_dropped_def count_metric_def split: option.split)

lemma acks_send_to [simp]: "acks (send_to a f r) = acks r"
  by (auto simp: send_to_def deliver_frame_def Let_def put_frame_def upd_chan_def
      record_deliver_dropped_def count_metric_def split: option.split)

lemma rdb_send_to [simp]: "rdb (send_to a f r) = rdb r"
  using same_store_send_to [of r a f] by (simp add: same_store_def)

lemma live_send_to [simp]: "live (send_to a f r) = live r" "sockets (send_to a f r) = sockets r"
  using same_store_send_to [of r a f] by (simp_all add: same_store_def)

lemma chan_of_send_to [simp]: "chan_of (send_to a f r) = chan_of r" "live_socket (send_to a f r) = live_socket r"
  by (simp_all add: chan_of_def live_socket_def fun_eq_iff)

lemma outbox_send_to:
  assumes "reg_ok r"
  shows "outbox (send_to a f r) b = (if a = b \<and> accepts r a then outbox r b @ [f] else outbox r b)"
proof (cases "live_socket r a")
  case None
  then show ?thesis by (simp add: outbox_def chans_send_to accepts_def split: option.split)
next
  case (Some s)
  then have "chan_of r s < length (chans r)" using reg_okD(3) [OF assms, of a s] by (simp add: live_socket_def)
  moreover have "chan_of r s \<noteq> chan_of r u" if "live_socket r b = Some u" "a \<noteq> b" for u
    using reg_okD(1,2) [OF assms, of a s] reg_okD(1,2) [OF assms, of b u]
      reg_ok_same_chan [OF assms, of s u] Some that by (auto simp: live_socket_def)
  ultimately show ?thesis using Some
    by (auto simp: outbox_def chans_send_to accepts_def split: option.split)
qed

section \<open>Good operations\<close>

lemma frame_ok_evolves: "frame_ok d f \<Longrightarrow> evolves d d' \<Longrightarrow> frame_ok d' f"
proof (cases f)
  case (ResultF x)
  assume ok: "frame_ok d f" and ev: "evolves d d'"
  from ok ResultF obtain t where t: "find_task d (rf_task x) = Some t" "t_state t = state_from_status (rf_status x)"
    by (auto simp: frame_ok_def split: option.splits)
  with evolves_terminal [OF ev t(1)] ResultF show ?thesis by (simp add: frame_ok_def)
qed (simp_all add: frame_ok_def)

text \<open>The invariant of the registry reads who a socket belongs to and its channel, no more.\<close>

lemma reg_ok_keys:
  "reg_ok r \<longleftrightarrow> distinct (map fst (live r)) \<and> distinct (map fst (parked r)) \<and>
     (\<forall>e \<in> set (live r) \<union> set (parked r). snd e < length (socket_keys r) \<and> fst (socket_keys r ! snd e) = fst e) \<and>
     chans_ok (socket_keys r) (length (chans r)) \<and> set (live r) \<inter> set (parked r) = {}"
proof -
  have "(\<forall>e\<in>A. snd e < length (sockets r) \<and> so_agent (sockets r ! snd e) = fst e) =
      (\<forall>e\<in>A. snd e < length (socket_keys r) \<and> fst (socket_keys r ! snd e) = fst e)" for A
    by (rule ball_cong) (auto simp: socket_keys_def nth_map)
  then show ?thesis by (simp add: reg_ok_def)
qed

lemma reg_ok_cong:
  "live r' = live r \<Longrightarrow> parked r' = parked r \<Longrightarrow> sockets r' = sockets r \<Longrightarrow> length (chans r') = length (chans r) \<Longrightarrow>
   reg_ok r' = reg_ok r"
  by (simp add: reg_ok_def socket_keys_def)

lemma reg_ok_cong_keys:
  "live r' = live r \<Longrightarrow> parked r' = parked r \<Longrightarrow> socket_keys r' = socket_keys r \<Longrightarrow>
   length (chans r') = length (chans r) \<Longrightarrow> reg_ok r' = reg_ok r"
  by (simp add: reg_ok_keys)

lemma good_send_to: "(inv r \<Longrightarrow> frame_ok (rdb r) f) \<Longrightarrow> good r (send_to a f r)"
  unfolding good_def
proof
  assume f: "inv r \<Longrightarrow> frame_ok (rdb r) f" and i: "inv r"
  note ss = same_store_send_to [of r a f]
  have "frames_ok (send_to a f r)"
    unfolding frames_ok_def
  proof (intro ballI)
    fix c g assume c: "c \<in> set (chans (send_to a f r))" and g: "g \<in> set (ch_out c)"
    have "c \<in> set (chans r) \<or> (\<exists>k. k < length (chans r) \<and> c = (chans r ! k)\<lparr>ch_out := ch_out (chans r ! k) @ [f]\<rparr>)"
      using c set_update_subset_insert by (fastforce simp: chans_send_to split: option.splits if_splits)
    then have "g = f \<or> (\<exists>c\<in>set (chans r). g \<in> set (ch_out c))" using g by auto
    then show "frame_ok (rdb (send_to a f r)) g"
      using f [OF i] invD(4) [OF i] by (auto simp: frames_ok_def)
  qed
  moreover have "reg_ok (send_to a f r)"
    using ss invD(5) [OF i] reg_ok_cong [of "send_to a f r" r] by (simp add: same_store_def)
  ultimately show "inv (send_to a f r) \<and> evolves (rdb r) (rdb (send_to a f r))"
    using i ss by (simp add: inv_def same_store_def cache_ok_def)
qed

text \<open>Replacing the database by one it evolves to, with the same agents per task.\<close>

lemma good_rdb:
  assumes "inv r \<Longrightarrow> evolves (rdb r) d \<and> db_ok d \<and> tree_ok d"
    "\<And>tid. inv r \<Longrightarrow> task_agents (rdb r) tid \<noteq> None \<Longrightarrow> task_agents d tid = task_agents (rdb r) tid"
  shows "good r (r\<lparr>rdb := d\<rparr>)"
  unfolding good_def
proof
  assume i: "inv r"
  have "lru.coherent (caller_cache r) (task_agents d)"
    using invD(3) [OF i] assms(2) [OF i]
    by (auto simp: cache_ok_def intro: lru.coherent_mono)
  moreover have "frames_ok (r\<lparr>rdb := d\<rparr>)"
    unfolding frames_ok_def
  proof (intro ballI)
    fix c f assume "c \<in> set (chans (r\<lparr>rdb := d\<rparr>))" "f \<in> set (ch_out c)"
    then have "frame_ok (rdb r) f" using invD(4) [OF i] by (simp add: frames_ok_def)
    then show "frame_ok (rdb (r\<lparr>rdb := d\<rparr>)) f"
      using frame_ok_evolves assms(1) [OF i] by auto
  qed
  ultimately show "inv (r\<lparr>rdb := d\<rparr>) \<and> evolves (rdb r) (rdb (r\<lparr>rdb := d\<rparr>))"
    using assms(1) [OF i] invD(3,5) [OF i] reg_ok_cong [of "r\<lparr>rdb := d\<rparr>" r]
    by (simp add: inv_def cache_ok_def)
qed

lemma transition_task_agents:
  assumes "task_transition tid st reason actor pl sc out er now d = Inr (res, d')"
  shows "task_agents d' = task_agents d"
  using assms
proof (rule transition_Inr)
  fix t ev assume "find_task d tid = Some t"
    "find_task d' = (find_task d)(tid \<mapsto> (if t_state t = st then t else set_state st sc out er now t))"
  then show ?thesis by (auto simp: task_agents_def fun_eq_iff)
qed

lemma good_transition:
  assumes "task_transition tid st reason actor pl sc out er now (rdb r) = Inr (res, d)"
  shows "good r (r\<lparr>rdb := d\<rparr>)"
  using transition_task_agents [OF assms] transition_evolves [OF assms]
    transition_db_ok [OF assms] transition_tree_ok [OF assms]
  by (intro good_rdb) (auto dest: invD)

lemma rdb_notify [simp]: "rdb (notify_task_terminal tid r) = rdb r"
  "chans (notify_task_terminal tid r) = chans r" "live (notify_task_terminal tid r) = live r"
  "sockets (notify_task_terminal tid r) = sockets r" "parked (notify_task_terminal tid r) = parked r" "acks (notify_task_terminal tid r) = acks r"
  "caller_cache (notify_task_terminal tid r) = lru_drop tid (caller_cache r)"
  by (auto simp: notify_task_terminal_def Let_def split: option.split)

lemma good_notify: "good r (notify_task_terminal tid r)"
  using lru_ok_drop [of "caller_cache r" tid] lru.coherent_drop [of "caller_cache r" "task_agents (rdb r)"]
    reg_ok_cong [of "notify_task_terminal tid r" r]
  by (auto simp: good_def inv_def cache_ok_def frames_ok_def)

lemma good_cong:
  assumes "rdb r' = rdb r" "caller_cache r' = caller_cache r" "chans r' = chans r" "live r' = live r"
    "sockets r' = sockets r" "parked r' = parked r"
  shows "good r r'"
  using assms reg_ok_cong [of r' r] by (simp add: good_def inv_def cache_ok_def frames_ok_def)

lemma abort_frame [simp]:
  "rdb (snd (abort_each ls r)) = rdb r" "caller_cache (snd (abort_each ls r)) = caller_cache r"
  "chans (snd (abort_each ls r)) = chans r" "live (snd (abort_each ls r)) = live r"
  "sockets (snd (abort_each ls r)) = sockets r" "parked (snd (abort_each ls r)) = parked r"
  by (induction ls arbitrary: r) (auto simp: abort_llm_def split_beta)

lemma rdb_abort [simp]: "rdb (snd (abort_router_side_llm_tasks tids r)) = rdb r"
  "chans (snd (abort_router_side_llm_tasks tids r)) = chans r"
  "live (snd (abort_router_side_llm_tasks tids r)) = live r"
  "sockets (snd (abort_router_side_llm_tasks tids r)) = sockets r"
  "parked (snd (abort_router_side_llm_tasks tids r)) = parked r"
  by (simp_all add: abort_router_side_llm_tasks_def)

lemma good_abort: "good r (snd (abort_router_side_llm_tasks tids r))"
  by (rule good_cong) (simp_all add: abort_router_side_llm_tasks_def)

lemma good_metric: "good r (count_metric m l r)"
  by (rule good_cong) (simp_all add: count_metric_def)

section \<open>The handlers are good\<close>

lemma good_complete_task: "good r (complete_task f reporter now r)"
proof (cases "find_task (rdb r) (rf_task f)")
  case (Some row)
  show ?thesis
  proof (cases "task_transition (rf_task f) (state_from_status (rf_status f))
      (''result_'' @ status_value (rf_status f)) (Some reporter) [] (Some (rf_code f))
      (map_option dump_output (rf_output f)) (rf_error f) now (rdb r)")
    case (Inl e)
    show ?thesis unfolding complete_task_def Some option.case Inl sum.case
      by (simp only: good_metric good_refl split: if_split) simp
  next
    case (Inr x)
    obtain tr d where x: "x = (tr, d)" by (cases x)
    let ?r = "notify_task_terminal (rf_task f) (r\<lparr>rdb := d\<rparr>)"
    have g: "good r ?r" using good_trans [OF good_transition [OF Inr [unfolded x]] good_notify] .
    have "\<exists>t. find_task d (rf_task f) = Some t \<and> t_state t = state_from_status (rf_status f)"
      using Inr [unfolded x] by (rule transition_Inr) (auto split: if_splits)
    then have "good ?r (send_to a (ResultF \<lparr>rf_agent = b, rf_task = rf_task f, rf_parent = p,
        rf_status = rf_status f, rf_code = c, rf_output = out, rf_error = er\<rparr>) ?r)" for a b p c out er
      by (intro good_send_to) (auto simp: frame_ok_def)
    note send = good_trans [OF g this]
    show ?thesis unfolding complete_task_def Some option.case Inr x sum.case prod.case
      by (simp only: good_metric send split: if_split) simp
  qed
qed (simp add: complete_task_def)

text \<open>What a plan entry knows of its task.\<close>

definition plan_ok :: "db \<Rightarrow> plan_entry \<Rightarrow> bool" where
  "plan_ok d p = (\<exists>t. find_task d (pl_tid p) = Some t \<and> t_state t = CANCELLED \<and>
     pl_active p = t_active t \<and> pl_caller p = t_caller t \<and> pl_parent p = t_parent t)"

lemma plan_ok_evolves: "plan_ok d p \<Longrightarrow> evolves d d' \<Longrightarrow> plan_ok d' p"
  unfolding plan_ok_def by (metis evolves_terminal is_terminal_simps(6))

text \<open>One cancellation: the row afterwards and the plan entry it leaves.\<close>

lemma cancel_one_cases:
  assumes "cancel_one reason actor now tid r = (p, r')"
  shows "(p = [] \<and> r' = r \<and> (case find_task (rdb r) tid of None \<Rightarrow> True
          | Some t \<Rightarrow> is_terminal (t_state t) \<and> t_state t \<noteq> CANCELLED)) \<or>
    (\<exists>t t' e. p = [e] \<and> pl_tid e = tid \<and> find_task (rdb r) tid = Some t \<and>
       (is_terminal (t_state t) \<longrightarrow> t_state t = CANCELLED \<and> t' = t) \<and>
       find_task (rdb r') = (find_task (rdb r))(tid \<mapsto> t') \<and>
       t_state t' = CANCELLED \<and> plan_ok (rdb r') e \<and> t_user t' = t_user t \<and>
       pl_active e = t_active t \<and> pl_caller e = t_caller t \<and> pl_parent e = t_parent t)"
proof (cases "task_transition tid CANCELLED reason (Some actor) [] None None None now (rdb r)")
  case (Inl e)
  then have "p = []" "r' = r" using assms by (simp_all add: cancel_one_def)
  moreover have "case find_task (rdb r) tid of None \<Rightarrow> True
      | Some t \<Rightarrow> is_terminal (t_state t) \<and> t_state t \<noteq> CANCELLED"
    using Inl by (auto simp: transition_cases Let_def split: option.splits if_splits)
      (rename_tac t, case_tac "t_state t"; simp)+
  ultimately show ?thesis by blast
next
  case (Inr x)
  obtain tr d where x: "x = (tr, d)" by (cases x)
  show ?thesis using Inr [unfolded x]
  proof (rule transition_Inr)
    fix t ev assume t: "find_task (rdb r) tid = Some t"
      "t_state t = CANCELLED \<or> CANCELLED \<in> set (ALLOWED (t_state t))"
      "find_task d = (find_task (rdb r))(tid \<mapsto> (if t_state t = CANCELLED then t
         else set_state CANCELLED None None None now t))"
    let ?t = "if t_state t = CANCELLED then t else set_state CANCELLED None None None now t"
    let ?e = "\<lparr>pl_tid = tid, pl_active = t_active t, pl_caller = t_caller t, pl_parent = t_parent t\<rparr>"
    have f: "find_task d tid = Some ?t" using t(3) by simp
    have st: "t_state ?t = CANCELLED" "t_active ?t = t_active t" "t_caller ?t = t_caller t"
      "t_parent ?t = t_parent t" "t_user ?t = t_user t" by simp_all
    have "cancel_one reason actor now tid r = ([?e], notify_task_terminal tid (r\<lparr>rdb := d\<rparr>))"
      unfolding cancel_one_def Inr x sum.case prod.case Let_def f option.case st ..
    then have e: "p = [?e]" "rdb r' = d" using assms by auto
    moreover have "plan_ok d ?e" using f st by (simp add: plan_ok_def)
    moreover have "is_terminal (t_state t) \<longrightarrow> t_state t = CANCELLED \<and> ?t = t"
      using t(2) terminal_no_exit [of "t_state t"] by auto
    ultimately show ?thesis using t(1,3) st
      by (intro disjI2 exI [of _ t] exI [of _ ?t] exI [of _ ?e]) (simp only: plan_entry.simps simp_thms)
  qed
qed

lemma good_cancel_one: "good r (snd (cancel_one reason actor now tid r))"
proof (cases "task_transition tid CANCELLED reason (Some actor) [] None None None now (rdb r)")
  case (Inr x)
  obtain tr d where x: "x = (tr, d)" by (cases x)
  from good_trans [OF good_transition [OF Inr [unfolded x]] good_notify] show ?thesis
    using Inr x by (simp add: cancel_one_def Let_def split: option.split)
qed (simp add: cancel_one_def)

lemma good_cancel_each:
  "good r (snd (cancel_each reason actor now tids r))"
  by (induction tids arbitrary: r) (auto simp: split_beta intro: good_trans good_cancel_one)

lemma cancel_each_plan_ok:
  "inv r \<Longrightarrow> cancel_each reason actor now tids r = (ps, r') \<Longrightarrow> \<forall>p\<in>set ps. plan_ok (rdb r') p"
proof (induction tids arbitrary: r ps)
  case (Cons tid tids)
  obtain p r1 where p: "cancel_one reason actor now tid r = (p, r1)" by (cases "cancel_one reason actor now tid r")
  obtain qs where qs: "cancel_each reason actor now tids r1 = (qs, r')" "ps = p @ qs"
    using Cons.prems(2) p by (auto simp: split_beta) (metis prod.collapse snd_conv fst_conv)
  have g: "inv r1" using goodD(1) [OF good_cancel_one Cons.prems(1)] p by (metis snd_conv)
  have "evolves (rdb r1) (rdb r')" using goodD(2) [OF good_cancel_each g] qs(1) by (metis snd_conv)
  moreover have "\<forall>e\<in>set p. plan_ok (rdb r1) e" using cancel_one_cases [OF p] by auto
  ultimately show ?case using Cons.IH [OF g qs(1)] qs(2) plan_ok_evolves by auto
qed simp

lemma rdb_emit_plan [simp]: "rdb (emit_plan reason ps r) = rdb r"
  "live (emit_plan reason ps r) = live r" "sockets (emit_plan reason ps r) = sockets r"
  by (induction ps arbitrary: r) simp_all

lemma good_emit_plan: "(inv r \<Longrightarrow> \<forall>p\<in>set ps. plan_ok (rdb r) p) \<Longrightarrow> good r (emit_plan reason ps r)"
proof (induction ps arbitrary: r)
  case (Cons p ps)
  let ?r1 = "send_to (pl_caller p) (ResultF (cancelled_result p reason)) r"
  let ?r2 = "send_to (pl_active p) (CancelF (Some (pl_tid p)) None reason) ?r1"
  have "good r ?r1"
    by (rule good_send_to) (use Cons.prems in \<open>auto simp: frame_ok_def cancelled_result_def plan_ok_def\<close>)
  also have "good ?r1 ?r2" by (rule good_send_to) (simp add: frame_ok_def)
  finally have g: "good r ?r2" .
  show ?case
  proof (cases "inv r")
    case True
    then have "good ?r2 (emit_plan reason ps ?r2)" by (intro Cons.IH) (use Cons.prems in auto)
    from good_trans [OF g this] show ?thesis by simp
  qed (simp add: good_def)
qed simp

lemma good_cancel_then_emit:
  assumes "cancel_each reason actor now tids r = (ps, r1)"
  shows "good r (emit_plan reason2 ps (snd (abort_router_side_llm_tasks (map pl_tid ps) r1)))"
proof -
  have g: "good r r1" using good_cancel_each [of r reason actor now tids] assms by simp
  show ?thesis
  proof (cases "inv r")
    case True
    have "\<forall>p\<in>set ps. plan_ok (rdb r1) p" by (rule cancel_each_plan_ok [OF True assms])
    then have "good r1 (emit_plan reason2 ps (snd (abort_router_side_llm_tasks (map pl_tid ps) r1)))"
      by (intro good_trans [OF good_abort good_emit_plan]) simp
    with g show ?thesis by (rule good_trans)
  qed (simp add: good_def)
qed

lemma good_cancel_task: "good r (snd (cancel_task tid uid reason initiator now r))"
  unfolding cancel_task_def Let_def split_beta snd_conv by (rule good_cancel_then_emit [OF surjective_pairing])

lemma good_fail_task:
  assumes "terminal = FAILED \<or> terminal = TIMED_OUT"
  shows "good r (fail_task tid uid sc reason er actor terminal now r)"
proof (cases "fail_transition tid uid sc reason er actor terminal now (rdb r)")
  case (Some x)
  obtain u parent d where x: "x = (u, parent, d)" by (cases x)
  obtain tr where tr: "task_transition tid terminal reason actor [] (Some sc) None
      (Some (error_or_reason er reason)) now (rdb r) = Inr (tr, d)"
    using Some x by (auto simp: fail_transition_def split: option.splits sum.splits)
  let ?r1 = "notify_task_terminal tid (r\<lparr>rdb := d\<rparr>)"
  have g1: "good r ?r1" using good_trans [OF good_transition [OF tr] good_notify] .
  obtain plan r2 where c: "cancel_each (cascade_reason terminal) ''router'' now
      (map t_id (list_descendants u tid (rdb ?r1))) ?r1 = (plan, r2)" by (metis surj_pair)
  let ?r4 = "emit_plan (cascade_reason terminal) plan (snd (abort_router_side_llm_tasks (map pl_tid plan) r2))"
  have g4': "good ?r1 ?r4" by (rule good_cancel_then_emit [OF c])
  have g4: "good r ?r4" by (rule good_trans [OF g1 g4'])
  have d: "\<exists>t. find_task d tid = Some t \<and> t_state t = terminal"
    using tr by (rule transition_Inr) (auto split: if_splits)
  have "good ?r4 (send_to a (ResultF \<lparr>rf_agent = b, rf_task = tid, rf_parent = p,
      rf_status = the (status_from_state terminal), rf_code = sc, rf_output = out, rf_error = e\<rparr>) ?r4)"
    if "inv r" for a b p out e
  proof (rule good_send_to)
    have "evolves d (rdb ?r4)" using goodD(2) [OF g4' goodD(1) [OF g1 that]] by simp
    with d assms have "\<exists>t. find_task (rdb ?r4) tid = Some t \<and> t_state t = terminal"
      by (metis evolves_terminal is_terminal_simps(5,7))
    with assms show "frame_ok (rdb ?r4) (ResultF \<lparr>rf_agent = b, rf_task = tid, rf_parent = p,
        rf_status = the (status_from_state terminal), rf_code = sc, rf_output = out, rf_error = e\<rparr>)"
      by (auto simp: frame_ok_def)
  qed
  note send = this
  show ?thesis
  proof (cases "inv r")
    case True
    from good_trans [OF g4 send [OF True]] g4 show ?thesis
      using Some x c by (simp add: fail_task_def Let_def split: option.split)
  qed (simp add: good_def)
qed (simp add: fail_task_def)

lemma good_foldl: "(\<And>r x. good r (f r x)) \<Longrightarrow> good r (foldl f r xs)"
  by (induction xs arbitrary: r) (auto intro: good_trans)

lemma good_fail_inflight: "good r (snd (fail_inflight_for_agent a reason now r))"
  by (simp add: fail_inflight_for_agent_def Let_def good_foldl good_fail_task)

lemma good_sweep_row: "good r (sweep_row now r row)"
  by (simp add: sweep_row_def good_fail_task)

lemma good_sweep_once: "good r (snd (sweep_once now r))"
  by (simp add: sweep_once_def Let_def good_foldl good_sweep_row)

end
