(* ===== verification/TaskProps.thy ===== *)
theory TaskProps
  imports TaskFacts
begin

text \<open>
  What completion, cancellation, failure and the sweep do: the rows they change and the
  frames they put on outboxes.
\<close>

section \<open>Outboxes with room\<close>

definition room :: "'r router \<Rightarrow> agent_id \<Rightarrow> nat \<Rightarrow> bool" where
  "room r a n = (case live_socket r a of None \<Rightarrow> False
     | Some s \<Rightarrow> let c = chans r ! chan_of r s
                in ch_cap c \<le> 0 \<or> int (length (ch_out c) + n) \<le> ch_cap c)"

lemma room_accepts: "room r a (Suc n) \<Longrightarrow> accepts r a"
  by (auto simp: room_def accepts_def ch_full_def Let_def split: option.splits)

lemma room_mono: "room r a n \<Longrightarrow> m \<le> n \<Longrightarrow> room r a m"
  by (auto simp: room_def Let_def split: option.splits)

lemma reg_ok_send_to: "reg_ok r \<Longrightarrow> reg_ok (send_to a f r)"
  using reg_ok_cong [of "send_to a f r" r] same_store_send_to [of r a f] by (simp add: same_store_def)

lemma cap_send_to:
  assumes "reg_ok r" "live_socket r b = Some s"
  shows "ch_cap (chans (send_to a f r) ! chan_of r s) = ch_cap (chans r ! chan_of r s)"
  using assms by (auto simp: chans_send_to nth_list_update split: option.split)

lemma room_send_to:
  assumes "reg_ok r" "room r b (Suc n)"
  shows "room (send_to a f r) b (if a = b then n else Suc n)"
proof -
  obtain s where s: "live_socket r b = Some s" using assms(2) by (auto simp: room_def split: option.splits)
  have "ch_out (chans (send_to a f r) ! chan_of r s) =
      (if a = b \<and> accepts r a then ch_out (chans r ! chan_of r s) @ [f] else ch_out (chans r ! chan_of r s))"
    using outbox_send_to [OF assms(1), of a f b] s by (cases "a = b") (simp_all add: outbox_def)
  then show ?thesis using assms s cap_send_to [OF assms(1) s, of a f]
    by (auto simp: room_def Let_def)
qed

text \<open>The frames a plan sends to one agent.\<close>

definition plan_frames :: "string \<Rightarrow> agent_id \<Rightarrow> plan_entry \<Rightarrow> frame list" where
  "plan_frames reason a p =
     (if pl_caller p = a then [ResultF (cancelled_result p reason)] else []) @
     (if pl_active p = a then [CancelF (Some (pl_tid p)) None reason] else [])"

lemma emit_plan_outbox:
  assumes "reg_ok r" "room r a (2 * length ps)"
  shows "outbox (emit_plan reason ps r) a = outbox r a @ concat (map (plan_frames reason a) ps)"
  using assms
proof (induction ps arbitrary: r)
  case (Cons p ps)
  let ?f = "ResultF (cancelled_result p reason)" and ?g = "CancelF (Some (pl_tid p)) None reason"
  let ?r1 = "send_to (pl_caller p) ?f r" and ?r2 = "send_to (pl_active p) ?g (send_to (pl_caller p) ?f r)"
  note reg1 = reg_ok_send_to [OF Cons.prems(1), of "pl_caller p" ?f]
  have rm: "room r a (Suc (Suc (2 * length ps)))" using Cons.prems(2) by simp
  have rm1: "room ?r1 a (Suc (2 * length ps))"
    using room_send_to [OF Cons.prems(1) rm, of "pl_caller p" ?f] by (auto elim: room_mono split: if_splits)
  have rm2: "room ?r2 a (2 * length ps)"
    using room_send_to [OF reg1 rm1, of "pl_active p" ?g] by (auto elim: room_mono split: if_splits)
  have "outbox ?r2 a = outbox r a @ plan_frames reason a p"
    using outbox_send_to [OF Cons.prems(1), of "pl_caller p" ?f a] outbox_send_to [OF reg1, of "pl_active p" ?g a]
      room_accepts [OF rm] room_accepts [OF rm1] by (auto simp: plan_frames_def)
  with Cons.IH [OF reg_ok_send_to [OF reg1] rm2] show ?case by simp
qed simp

section \<open>Completion\<close>

text \<open>
  Property C3.  Only the agent executing a task can finish it: a Result for an unknown
  task, from another agent, or for a task that has already ended differently changes no
  row and puts no frame on any outbox.
\<close>

theorem result_needs_executor:
  assumes "case find_task (rdb r) (rf_task f) of
      None \<Rightarrow> True
    | Some t \<Rightarrow> reporter \<noteq> t_active t \<or>
        (t_state t \<noteq> state_from_status (rf_status f) \<and>
         \<not> is_allowed_transition (t_state t) (state_from_status (rf_status f)))"
  shows "rdb (complete_task f reporter now r) = rdb r \<and> chans (complete_task f reporter now r) = chans r"
proof (cases "find_task (rdb r) (rf_task f)")
  case (Some t)
  show ?thesis
  proof (cases "reporter = t_active t")
    case True
    then have "task_transition (rf_task f) (state_from_status (rf_status f)) reason actor pl sc out er now (rdb r) =
        Inl (IllegalTransition (rf_task f) (t_state t) (state_from_status (rf_status f)))" for reason actor pl sc out er
      using assms Some by (simp add: transition_cases Let_def is_allowed_transition_def)
    then show ?thesis using True Some by (simp add: complete_task_def)
  qed (simp add: complete_task_def Some count_metric_def)
qed (simp add: complete_task_def)

definition demo_task :: task_row where
  "demo_task = \<lparr>t_id = ''t1'', t_parent = None, t_root = ''t1'', t_user = ''u'', t_session = ''s'',
     t_agent = ''a'', t_caller = ''c'', t_active = ''b'', t_state = RUNNING, t_status_code = None,
     t_idem = None, t_priority = Normal, t_deadline = Some 50, t_created = 0, t_updated = 0,
     t_input = JNull, t_output = None, t_error = None\<rparr>"

definition demo_settings :: settings where
  "demo_settings = \<lparr>default_task_deadline_s = 100, pending_ack_timeout_s = 30, spawn_max_depth = 16,
     task_delegation_max_depth = 8, quota_admit_rate_per_s = (\<lambda>_. None), quota_admit_burst = (\<lambda>_. None),
     per_socket_outbox_max = 256, resume_window_s = 60, user_level_ttl_s = 60, acl_max_tier = 3,
     max_upload_bytes = 1000, file_default_ttl_s = 600, file_storage_quota_bytes = (\<lambda>l. if l = ''tier1'' then Some 100 else None),
     file_upload_request_rate_per_s = 1, file_upload_request_burst = 5, file_upload_token_ttl_s = 300,
     file_fetch_token_ttl_s = 3600, file_download_presigned = False, closed_session_retention_days = 90,
     jwt_secret = ''k'', jwt_key_version = 1, jwt_algorithm = ''HS256'',
     agent_token_ttl_s = 86400, session_jwt_ttl_s = 900, refresh_token_ttl_s = 2592000, link_token_ttl_s = 600,
     login_rate_limit_per_ip = (1, 10), login_rate_limit_per_email = (1, 5), refresh_rate_limit_per_ip = (1, 10),
     change_password_rate_limit_per_user = (1, 5), password_reset_consume_rate_limit_per_ip = (1, 5),
     link_token_mint_rate_limit_per_user = (1, 5), agent_info_update_rate_limit_per_agent = (1, 5),
     service_mint_refresh_token_rate_limit_per_target = (1, 5), password_reset_mint_rate_limit_per_target = (1, 3),
     password_reset_token_ttl_s = 600, registration_rate_limit_per_submitter = (1, 20),
     registration_rate_limit_per_external = (1, 5), registration_web_rate_limit_per_ip = (1, 5),
     ws_handshake_catalog_cache_ttl_s = 5, oidc_issuer = ''op'', oidc_allowed_redirect_uris = [''cb''],
     oidc_group_claim = ''groups'', oidc_allowed_groups = [], oidc_group_to_level = [],
     oidc_default_level = ''tier1'', oidc_auto_link_by_verified_email = True, oidc_jit_provisioning = True\<rparr>"

text \<open>Two connected agents: the caller \<open>c\<close> and the executor \<open>b\<close>.\<close>

definition demo_router :: "unit router" where
  "demo_router = \<lparr>rdb = empty_db\<lparr>tasks := [demo_task]\<rparr>,
     sockets = [\<lparr>so_agent = ''c'', so_token = ''k1'', so_jti = ''j1'', so_chan = 0, so_closed = False, so_llm = []\<rparr>,
                \<lparr>so_agent = ''b'', so_token = ''k2'', so_jti = ''j2'', so_chan = 1, so_closed = False, so_llm = []\<rparr>],
     chans = [\<lparr>ch_cap = 4, ch_out = [], ch_infl = []\<rparr>, \<lparr>ch_cap = 4, ch_out = [], ch_infl = []\<rparr>],
     live = [(''c'', 0), (''b'', 1)], parked = [],
     acks = \<lparr>futs = [], waiting = [], default_timeout = 30\<rparr>,
     caller_cache = \<lparr>maxsize = 8, data = [(''t1'', (''c'', ''b''))]\<rparr>,
     terminal_events = [], fired_events = [], llms = [], llm_index = [],
     level_cache = \<lparr>maxsize = 8, data = []\<rparr>, presets = [], adapters = [], rrules = [], rsettings = demo_settings,
     admit_quota = \<lparr>redis = None, redis_health = 1, redis_fallback_total = 0,
       mem = \<lparr>maxsize = 8, data = []\<rparr>, prefix = ''quota:admit''\<rparr>,
     login_quota = \<lparr>redis = None, redis_health = 1, redis_fallback_total = 0,
       mem = \<lparr>maxsize = 8, data = []\<rparr>, prefix = ''quota:auth''\<rparr>, rmetrics = [], blobs = [],
     revocations = [], agent_catalog_cache = None\<rparr>"

lemmas demo_defs = demo_router_def demo_task_def demo_settings_def

lemma demo_find [simp]: "find_task (rdb demo_router) tid = (if tid = ''t1'' then Some demo_task else None)"
  by (simp add: demo_defs find_task_def tbl_get_def)

lemma demo_reg_ok [simp]: "reg_ok demo_router"
  by (auto simp: reg_ok_def socket_keys_def chans_ok_def demo_defs chan_of_def split: if_splits)

lemma demo_inv [simp]: "inv demo_router"
proof -
  have "cache_ok demo_router"
    by (auto simp: cache_ok_def lru.coherent_def lru_ok_def task_agents_def lru_peek_def)
      (auto simp: demo_defs lru_peek_def split: if_splits)
  moreover have "frames_ok demo_router" by (auto simp: frames_ok_def demo_defs)
  ultimately show ?thesis
    by (simp add: inv_def) (simp add: db_ok_def tbl_ok_def idem_unique_def tree_ok_def demo_defs)
qed

theorem result_needs_executor_witness:
  "rdb (complete_task \<lparr>rf_agent = ''a'', rf_task = ''t1'', rf_parent = None, rf_status = Succeeded,
     rf_code = 200, rf_output = None, rf_error = None\<rparr> ''a'' 7 demo_router) = rdb demo_router"
  by (rule result_needs_executor [THEN conjunct1]) (simp add: demo_task_def)

text \<open>The row an accepted Result leaves.\<close>

lemma complete_task_row:
  assumes "find_task (rdb r) (rf_task f) = Some t" "reporter = t_active t" "\<not> is_terminal (t_state t)"
    "is_allowed_transition (t_state t) (state_from_status (rf_status f))"
  shows "find_task (rdb (complete_task f reporter now r)) (rf_task f) =
      Some (set_state (state_from_status (rf_status f)) (Some (rf_code f))
        (map_option dump_output (rf_output f)) (rf_error f) now t)"
    "\<exists>d. complete_task f reporter now r = send_to (t_caller t)
       (ResultF (f\<lparr>rf_agent := reporter, rf_parent := t_parent t\<rparr>))
       (notify_task_terminal (rf_task f) (r\<lparr>rdb := d\<rparr>))"
proof -
  let ?st = "state_from_status (rf_status f)"
  have ne: "t_state t \<noteq> ?st" using assms(3) by (metis state_of_status_terminal)
  define tr where "tr = task_transition (rf_task f) ?st (''result_'' @ status_value (rf_status f))
      (Some reporter) [] (Some (rf_code f)) (map_option dump_output (rf_output f)) (rf_error f) now (rdb r)"
  obtain x d where d: "tr = Inr (x, d)"
    using assms(1,4) ne by (auto simp: tr_def transition_cases Let_def is_allowed_transition_def)
  have f: "find_task d (rf_task f) = Some (set_state ?st (Some (rf_code f))
      (map_option dump_output (rf_output f)) (rf_error f) now t)"
    using d [unfolded tr_def] by (rule transition_Inr) (use assms(1) ne in auto)
  have rf: "\<lparr>rf_agent = reporter, rf_task = rf_task f, rf_parent = t_parent t, rf_status = rf_status f,
      rf_code = rf_code f, rf_output = rf_output f, rf_error = rf_error f\<rparr> =
      f\<lparr>rf_agent := reporter, rf_parent := t_parent t\<rparr>" by simp
  have "complete_task f reporter now r = send_to (t_caller t)
      (ResultF (f\<lparr>rf_agent := reporter, rf_parent := t_parent t\<rparr>))
      (notify_task_terminal (rf_task f) (r\<lparr>rdb := d\<rparr>))"
    unfolding complete_task_def assms(1) option.case d [unfolded tr_def] sum.case prod.case rf
    using assms(2) by simp
  with f show "find_task (rdb (complete_task f reporter now r)) (rf_task f) =
      Some (set_state ?st (Some (rf_code f)) (map_option dump_output (rf_output f)) (rf_error f) now t)"
    "\<exists>d. complete_task f reporter now r = send_to (t_caller t)
       (ResultF (f\<lparr>rf_agent := reporter, rf_parent := t_parent t\<rparr>))
       (notify_task_terminal (rf_task f) (r\<lparr>rdb := d\<rparr>))" by auto
qed

lemma outbox_notify [simp]: "outbox (notify_task_terminal tid (r\<lparr>rdb := d\<rparr>)) = outbox r"
  "accepts (notify_task_terminal tid (r\<lparr>rdb := d\<rparr>)) = accepts r"
  by (auto simp: outbox_def accepts_def live_socket_def chan_of_def fun_eq_iff split: option.split)

lemma reg_ok_notify [simp]: "reg_ok (notify_task_terminal tid (r\<lparr>rdb := d\<rparr>)) = reg_ok r"
  by (rule reg_ok_cong) simp_all

text \<open>
  An accepted Result persists its status, code, output and error, and reaches
  exactly the agent that issued the task: its outbox gets the Result, stamped with the
  executor, and no other outbox changes.
\<close>

theorem result_persisted_and_delivered:
  assumes "reg_ok r" "find_task (rdb r) (rf_task f) = Some t" "\<not> is_terminal (t_state t)"
    "is_allowed_transition (t_state t) (state_from_status (rf_status f))" "accepts r (t_caller t)"
  shows "find_task (rdb (complete_task f (t_active t) now r)) (rf_task f) =
      Some (set_state (state_from_status (rf_status f)) (Some (rf_code f))
        (map_option dump_output (rf_output f)) (rf_error f) now t) \<and>
    (\<forall>a. outbox (complete_task f (t_active t) now r) a = outbox r a @
      (if a = t_caller t then [ResultF (f\<lparr>rf_agent := t_active t, rf_parent := t_parent t\<rparr>)] else []))"
proof -
  note c = complete_task_row [OF assms(2) refl assms(3,4), of now]
  then obtain d where d: "complete_task f (t_active t) now r = send_to (t_caller t)
       (ResultF (f\<lparr>rf_agent := t_active t, rf_parent := t_parent t\<rparr>))
       (notify_task_terminal (rf_task f) (r\<lparr>rdb := d\<rparr>))" by blast
  show ?thesis using c(1) assms(1,5) by (auto simp: d outbox_send_to)
qed

theorem result_persisted_and_delivered_witness:
  "\<forall>a. outbox (complete_task \<lparr>rf_agent = ''b'', rf_task = ''t1'', rf_parent = None, rf_status = Succeeded,
      rf_code = 200, rf_output = None, rf_error = None\<rparr> (t_active demo_task) 7 demo_router) a =
    outbox demo_router a @ (if a = t_caller demo_task
      then [ResultF (\<lparr>rf_agent = ''b'', rf_task = ''t1'', rf_parent = None, rf_status = Succeeded,
              rf_code = 200, rf_output = None, rf_error = None\<rparr>
              \<lparr>rf_agent := t_active demo_task, rf_parent := t_parent demo_task\<rparr>)] else [])"
  by (rule result_persisted_and_delivered [THEN conjunct2])
    (simp_all add: is_allowed_transition_def, simp_all add: demo_defs accepts_def live_socket_def chan_of_def ch_full_def)

text \<open>
  A repeated Result with the status the task already ended with is not
  dropped: the row is kept, but the caller is sent the second Result as well, whatever
  output it carries.
\<close>

theorem duplicate_result_fans_out_again:
  assumes "inv r" "find_task (rdb r) (rf_task f) = Some t"
    "t_state t = state_from_status (rf_status f)" "accepts r (t_caller t)"
  shows "find_task (rdb (complete_task f (t_active t) now r)) = find_task (rdb r) \<and>
    outbox (complete_task f (t_active t) now r) (t_caller t) =
    outbox r (t_caller t) @ [ResultF (f\<lparr>rf_agent := t_active t, rf_parent := t_parent t\<rparr>)]"
proof -
  define tr where "tr = task_transition (rf_task f) (state_from_status (rf_status f))
      (''result_'' @ status_value (rf_status f))
      (Some (t_active t)) [] (Some (rf_code f)) (map_option dump_output (rf_output f)) (rf_error f) now (rdb r)"
  obtain x d where d: "tr = Inr (x, d)"
    using assms(2,3) by (auto simp: tr_def transition_cases Let_def)
  have f: "find_task d = find_task (rdb r)"
    using d [unfolded tr_def] by (rule transition_Inr) (use assms(2,3) in auto)
  have rf: "\<lparr>rf_agent = t_active t, rf_task = rf_task f, rf_parent = t_parent t, rf_status = rf_status f,
      rf_code = rf_code f, rf_output = rf_output f, rf_error = rf_error f\<rparr> =
      f\<lparr>rf_agent := t_active t, rf_parent := t_parent t\<rparr>" by simp
  have "complete_task f (t_active t) now r = send_to (t_caller t)
      (ResultF (f\<lparr>rf_agent := t_active t, rf_parent := t_parent t\<rparr>))
      (notify_task_terminal (rf_task f) (r\<lparr>rdb := d\<rparr>))"
    unfolding complete_task_def assms(2) option.case d [unfolded tr_def] sum.case prod.case rf by simp
  then show ?thesis using f assms(4) invD(5) [OF assms(1)] by (simp add: outbox_send_to)
qed

definition ended_router :: "unit router" where
  "ended_router = demo_router\<lparr>rdb := (rdb demo_router)\<lparr>tasks := [demo_task
     \<lparr>t_state := SUCCEEDED, t_output := Some (dump_output \<lparr>ao_content = Some ''first'', ao_files = [], ao_metadata = []\<rparr>)\<rparr>]\<rparr>\<rparr>"

lemma ended_inv: "inv ended_router"
proof -
  have f: "find_task (rdb ended_router) tid = (if tid = ''t1'' then Some (demo_task
     \<lparr>t_state := SUCCEEDED, t_output := Some (dump_output \<lparr>ao_content = Some ''first'', ao_files = [], ao_metadata = []\<rparr>)\<rparr>)
     else None)" for tid
    by (simp add: ended_router_def find_task_def tbl_get_def demo_task_def)
  have "cache_ok ended_router"
    by (auto simp: cache_ok_def lru.coherent_def lru_ok_def task_agents_def lru_peek_def f)
      (auto simp: ended_router_def demo_defs lru_peek_def split: if_splits)
  moreover have "frames_ok ended_router" "reg_ok ended_router"
    by (auto simp: frames_ok_def ended_router_def demo_defs reg_ok_def socket_keys_def chans_ok_def chan_of_def split: if_splits)
  ultimately show ?thesis
    by (simp add: inv_def) (simp add: db_ok_def tbl_ok_def idem_unique_def tree_ok_def ended_router_def demo_defs)
qed

theorem duplicate_result_fans_out_again_witness:
  "let t = demo_task\<lparr>t_state := SUCCEEDED,
        t_output := Some (dump_output \<lparr>ao_content = Some ''first'', ao_files = [], ao_metadata = []\<rparr>)\<rparr>;
       f = \<lparr>rf_agent = ''b'', rf_task = ''t1'', rf_parent = None, rf_status = Succeeded, rf_code = 200,
            rf_output = Some \<lparr>ao_content = Some ''second'', ao_files = [], ao_metadata = []\<rparr>, rf_error = None\<rparr>
   in find_task (rdb (complete_task f (t_active t) 9 ended_router)) = find_task (rdb ended_router) \<and>
      outbox (complete_task f (t_active t) 9 ended_router) (t_caller t) =
      outbox ended_router (t_caller t) @ [ResultF (f\<lparr>rf_agent := t_active t, rf_parent := t_parent t\<rparr>)]"
  unfolding Let_def
  by (rule duplicate_result_fans_out_again [OF ended_inv])
    (simp_all add: ended_router_def find_task_def tbl_get_def demo_defs accepts_def live_socket_def
      chan_of_def ch_full_def)

section \<open>Cancellation\<close>

lemma cancel_each_frame:
  "live (snd (cancel_each reason actor now tids r)) = live r"
  "sockets (snd (cancel_each reason actor now tids r)) = sockets r"
  "chans (snd (cancel_each reason actor now tids r)) = chans r"
  "parked (snd (cancel_each reason actor now tids r)) = parked r"
  by (induction tids arbitrary: r)
    (auto simp: split_beta cancel_one_def Let_def split: sum.split option.split)

text \<open>The rows a batch of cancellations leaves, and the plan it returns.\<close>

lemma cancel_each_rows:
  assumes "inv r" "cancel_each reason actor now tids r = (ps, r')"
  shows "find_task (rdb r) k = None \<Longrightarrow> find_task (rdb r') k = None"
    "find_task (rdb r) k = Some t \<Longrightarrow>
      (if k \<in> set tids \<and> \<not> is_terminal (t_state t)
       then \<exists>t'. find_task (rdb r') k = Some t' \<and> t_state t' = CANCELLED
       else find_task (rdb r') k = Some t)"
  using assms
proof (induction tids arbitrary: r ps t)
  case (Cons tid tids)
  {
    case 1
    obtain p r1 where p: "cancel_one reason actor now tid r = (p, r1)" by (metis surj_pair)
    obtain qs where qs: "cancel_each reason actor now tids r1 = (qs, r')"
      using 1(3) p by (auto simp: split_beta) (metis prod.collapse snd_conv)
    have i: "inv r1" using goodD(1) [OF good_cancel_one 1(2)] p by (metis snd_conv)
    have "find_task (rdb r1) k = None" using cancel_one_cases [OF p] 1(1) by auto
    from Cons.IH(1) [OF this i qs] show ?case .
  next
    case 2
    obtain p r1 where p: "cancel_one reason actor now tid r = (p, r1)" by (metis surj_pair)
    obtain qs where qs: "cancel_each reason actor now tids r1 = (qs, r')"
      using 2(3) p by (auto simp: split_beta) (metis prod.collapse snd_conv)
    have i: "inv r1" using goodD(1) [OF good_cancel_one 2(2)] p by (metis snd_conv)
    have "if k = tid \<and> \<not> is_terminal (t_state t)
        then \<exists>t'. find_task (rdb r1) k = Some t' \<and> t_state t' = CANCELLED
        else find_task (rdb r1) k = Some t"
      using cancel_one_cases [OF p] 2(1) by (auto split: option.splits)
    then consider "k = tid" "\<not> is_terminal (t_state t)" "\<exists>t'. find_task (rdb r1) k = Some t' \<and> t_state t' = CANCELLED"
      | "find_task (rdb r1) k = Some t" "k = tid \<Longrightarrow> is_terminal (t_state t)" by (auto split: if_splits)
    then show ?case
    proof cases
      case 1
      then obtain t' where "find_task (rdb r1) k = Some t'" "t_state t' = CANCELLED" by blast
      with Cons.IH(2) [OF this(1) i qs] show ?thesis using 1 by auto
    next
      case c: 2
      from Cons.IH(2) [OF c(1) i qs] c(2) show ?thesis by (auto split: if_splits)
    qed
  }
qed simp_all

lemma cancel_each_plan:
  assumes "inv r" "cancel_each reason actor now tids r = (ps, r')" "k \<in> set tids"
    "find_task (rdb r) k = Some t" "\<not> is_terminal (t_state t)"
  shows "\<exists>e\<in>set ps. pl_tid e = k \<and> pl_caller e = t_caller t \<and> pl_active e = t_active t \<and> pl_parent e = t_parent t"
  using assms
proof (induction tids arbitrary: r ps)
  case (Cons tid tids)
  obtain p r1 where p: "cancel_one reason actor now tid r = (p, r1)" by (metis surj_pair)
  obtain qs where qs: "cancel_each reason actor now tids r1 = (qs, r')" "ps = p @ qs"
    using Cons.prems(2) p by (auto simp: split_beta) (metis prod.collapse fst_conv snd_conv)
  have i: "inv r1" using goodD(1) [OF good_cancel_one Cons.prems(1)] p by (metis snd_conv)
  show ?case
  proof (cases "k = tid")
    case True
    with cancel_one_cases [OF p] Cons.prems(4,5) show ?thesis using qs(2) by auto
  next
    case False
    have "find_task (rdb r1) k = Some t" using cancel_one_cases [OF p] Cons.prems(4) False by auto
    from Cons.IH [OF i qs(1) _ this Cons.prems(5)] Cons.prems(3) False show ?thesis using qs(2) by auto
  qed
qed simp

text \<open>
  Property C4.  Cancelling a task cancels its whole subtree: the task and every descendant
  of the same user up to the depth bound that had not ended are CANCELLED afterwards, and
  every other row of the table is untouched.
\<close>

theorem cancel_covers_subtree:
  assumes "inv r" "find_task (rdb r) k = Some t"
  shows "let r' = snd (cancel_task tid uid reason who now r);
             targeted = (k = tid \<or> (\<exists>n\<le>MAX_TASK_TREE_DEPTH. below uid (rdb r) tid n t))
         in if targeted \<and> \<not> is_terminal (t_state t)
            then \<exists>t'. find_task (rdb r') k = Some t' \<and> t_state t' = CANCELLED
            else find_task (rdb r') k = Some t"
proof -
  let ?ids = "tid # map t_id (list_descendants uid tid (rdb r))"
  obtain ps r1 where c: "cancel_each reason who now ?ids r = (ps, r1)" by (metis surj_pair)
  have rd: "rdb (snd (cancel_task tid uid reason who now r)) = rdb r1"
    by (simp only: cancel_task_def Let_def c prod.case snd_conv rdb_emit_plan rdb_abort)
  have "k \<in> set ?ids \<longleftrightarrow> k = tid \<or> (\<exists>n\<le>MAX_TASK_TREE_DEPTH. below uid (rdb r) tid n t)"
  proof -
    have "x = t" if "x \<in> set (list_descendants uid tid (rdb r))" "t_id x = k" for x
    proof -
      from that(1) have "x \<in> set (tasks (rdb r))" by (auto simp: set_list_descendants dest: below_in_tasks)
      from find_task_in_set [OF invD(1) [OF assms(1)] this] that(2) assms(2) show ?thesis by simp
    qed
    moreover have "t_id t = k" using find_task_SomeD [OF assms(2)] by simp
    ultimately have "k \<in> t_id ` set (list_descendants uid tid (rdb r)) \<longleftrightarrow> t \<in> set (list_descendants uid tid (rdb r))"
      by blast
    then show ?thesis by (simp add: set_list_descendants)
  qed
  with cancel_each_rows(2) [OF assms(1) c assms(2)] rd show ?thesis by (simp only: Let_def)
qed

theorem cancel_covers_subtree_witness:
  "let r' = snd (cancel_task ''t1'' ''u'' ''user_aborted'' ''c'' 7 demo_router)
   in \<exists>t'. find_task (rdb r') ''t1'' = Some t' \<and> t_state t' = CANCELLED"
  using cancel_covers_subtree [OF demo_inv, of "''t1''" demo_task "''t1''" "''u''" "''user_aborted''" "''c''" 7]
  by (simp add: Let_def demo_task_def)

text \<open>
  Every task a cancellation ends is announced: the agent that awaits it gets
  a Result with status cancelled and the agent that executes it a Cancel, when their
  outboxes have room.
\<close>

theorem cancel_notifies_both_ends:
  assumes "inv r" "find_task (rdb r) k = Some t" "\<not> is_terminal (t_state t)"
    "k = tid \<or> (\<exists>n\<le>MAX_TASK_TREE_DEPTH. below uid (rdb r) tid n t)"
    "room r a (2 * fst (cancel_task tid uid reason who now r))"
  shows "(t_caller t = a \<longrightarrow>
      ResultF (cancelled_result \<lparr>pl_tid = k, pl_active = t_active t, pl_caller = t_caller t, pl_parent = t_parent t\<rparr> reason)
        \<in> set (outbox (snd (cancel_task tid uid reason who now r)) a)) \<and>
    (t_active t = a \<longrightarrow>
      CancelF (Some k) None reason \<in> set (outbox (snd (cancel_task tid uid reason who now r)) a))"
proof -
  let ?ids = "tid # map t_id (list_descendants uid tid (rdb r))"
  obtain ps r1 where c: "cancel_each reason who now ?ids r = (ps, r1)" by (metis surj_pair)
  let ?r2 = "snd (abort_router_side_llm_tasks (map pl_tid ps) r1)"
  have eq: "cancel_task tid uid reason who now r = (length ps, emit_plan reason ps ?r2)"
    by (simp only: cancel_task_def Let_def c prod.case)
  have "t_id t = k" using find_task_SomeD [OF assms(2)] by simp
  then have "k \<in> set ?ids" using assms(4) by (force simp: set_list_descendants)
  then obtain e where e: "e \<in> set ps" "pl_tid e = k" "pl_caller e = t_caller t" "pl_active e = t_active t"
    "pl_parent e = t_parent t" using cancel_each_plan [OF assms(1) c _ assms(2,3)] by blast
  have r1: "live r1 = live r" "sockets r1 = sockets r" "chans r1 = chans r" "parked r1 = parked r"
    using cancel_each_frame [of reason who now ?ids r] c by auto
  have reg: "reg_ok ?r2" using invD(5) [OF assms(1)] r1 reg_ok_cong [of ?r2 r] by simp
  have "room ?r2 a (2 * length ps)"
    using assms(5) eq r1 by (simp add: room_def live_socket_def chan_of_def split: option.splits)
  note out = emit_plan_outbox [OF reg this, of reason]
  have "e = \<lparr>pl_tid = k, pl_active = t_active t, pl_caller = t_caller t, pl_parent = t_parent t\<rparr>"
    using e by simp
  moreover have "set (plan_frames reason a e) \<subseteq> set (outbox (emit_plan reason ps ?r2) a)"
    using e(1) out by auto
  ultimately show ?thesis using eq by (auto simp: plan_frames_def)
qed

theorem cancel_notifies_both_ends_witness:
  "CancelF (Some ''t1'') None ''user_aborted'' \<in>
     set (outbox (snd (cancel_task ''t1'' ''u'' ''user_aborted'' ''c'' 7 demo_router)) ''b'')"
proof -
  have "fst (cancel_task ''t1'' ''u'' ''user_aborted'' ''c'' 7 demo_router) = 1"
    by (simp add: cancel_task_def list_descendants_def MAX_TASK_TREE_DEPTH_def children_def demo_defs
        cancel_one_def task_transition_def tbl_get_def tbl_upd_def insert_event_def Let_def find_task_def
        set_state_def numeral_eq_Suc split: prod.split)
  then have "room demo_router ''b'' (2 * fst (cancel_task ''t1'' ''u'' ''user_aborted'' ''c'' 7 demo_router))"
    by (simp add: room_def live_socket_def chan_of_def demo_defs)
  from cancel_notifies_both_ends [OF demo_inv _ _ _ this, of "''t1''" demo_task] show ?thesis
    by (simp add: demo_task_def)
qed

section \<open>Failure\<close>

lemma children_map:
  assumes "\<And>t. same_identity t (g t)" "tasks d' = map g (tasks d)"
  shows "children uid d' p = map g (children uid d p)"
proof -
  have "filter (\<lambda>t. t_parent t = Some p \<and> t_user t = uid) (map g ts) =
      map g (filter (\<lambda>t. t_parent t = Some p \<and> t_user t = uid) ts)" for ts
    using assms(1) by (induction ts) (auto simp: same_identity_def)
  then show ?thesis by (simp add: children_def assms(2))
qed

lemma below_map:
  assumes "\<And>t. same_identity t (g t)" "tasks d' = map g (tasks d)"
  shows "below uid d' a n y \<longleftrightarrow> (\<exists>x. y = g x \<and> below uid d a n x)"
proof (induction n arbitrary: a)
  case 0
  then show ?case by (auto simp: children_map [OF assms])
next
  case (Suc n)
  have "t_id (g z) = t_id z" for z using assms(1) [of z] by (simp add: same_identity_def)
  then show ?case using Suc by (auto simp: children_map [OF assms])
qed

text \<open>The rows a failure leaves.\<close>

lemma fail_task_rows:
  assumes "inv r" "terminal = FAILED \<or> terminal = TIMED_OUT" "find_task (rdb r) tid = Some t"
    "\<not> is_terminal (t_state t) \<or> t_state t = terminal" "uid = None \<or> uid = Some (t_user t)"
  shows "find_task (rdb (fail_task tid uid sc reason er actor terminal now r)) tid =
      Some (if t_state t = terminal then t
        else set_state terminal (Some sc) None (Some (error_or_reason er reason)) now t)"
    "k \<noteq> tid \<Longrightarrow> find_task (rdb r) k = Some u \<Longrightarrow>
      (if (\<exists>n\<le>MAX_TASK_TREE_DEPTH. below (t_user t) (rdb r) tid n u) \<and> \<not> is_terminal (t_state u)
       then \<exists>u'. find_task (rdb (fail_task tid uid sc reason er actor terminal now r)) k = Some u' \<and> t_state u' = CANCELLED
       else find_task (rdb (fail_task tid uid sc reason er actor terminal now r)) k = Some u)"
proof -
  let ?err = "error_or_reason er reason"
  let ?t' = "if t_state t = terminal then t else set_state terminal (Some sc) None (Some ?err) now t"
  let ?g = "\<lambda>x. if t_id x = tid \<and> t_state t \<noteq> terminal then set_state terminal (Some sc) None (Some ?err) now x else x"
  have al: "t_state t = terminal \<or> terminal \<in> set (ALLOWED (t_state t))" "is_terminal terminal"
    using assms(2,4) by (cases "t_state t"; auto)+
  obtain x d where tr: "task_transition tid terminal reason actor [] (Some sc) None (Some ?err) now (rdb r) = Inr (x, d)"
    using al(1) assms(3) by (cases "t_state t = terminal") (auto simp: transition_cases Let_def)
  have d: "tasks d = map ?g (tasks (rdb r))"
    using tr assms(3) al by (auto simp: transition_cases Let_def tbl_upd_def split: if_splits)
  have fd: "find_task d = (find_task (rdb r))(tid \<mapsto> ?t')"
    using tr by (rule transition_Inr) (use assms(3) in auto)
  have ft: "fail_transition tid uid sc reason er actor terminal now (rdb r) = Some (t_user t, t_parent t, d)"
    using assms(3,5) tr by (auto simp: fail_transition_def)
  let ?r1 = "notify_task_terminal tid (r\<lparr>rdb := d\<rparr>)"
  let ?ids = "map t_id (list_descendants (t_user t) tid (rdb ?r1))"
  obtain plan r2 where c: "cancel_each (cascade_reason terminal) ''router'' now ?ids ?r1 = (plan, r2)"
    by (metis surj_pair)
  have i1: "inv ?r1" using goodD(1) [OF good_trans [OF good_transition [OF tr] good_notify] assms(1)] .
  have rd: "rdb (fail_task tid uid sc reason er actor terminal now r) = rdb r2"
    unfolding fail_task_def ft option.case prod.case Let_def c by (simp split: option.split)
  have "find_task (rdb ?r1) tid = Some ?t'" using fd by simp
  from cancel_each_rows(2) [OF i1 c this] al(2) rd
  show "find_task (rdb (fail_task tid uid sc reason er actor terminal now r)) tid = Some ?t'" by simp
  assume k: "k \<noteq> tid" "find_task (rdb r) k = Some u"
  have id: "same_identity x (?g x)" for x by (simp add: same_identity_set_state same_identity_def)
  note bm = below_map [OF id d]
  have "k \<in> set ?ids \<longleftrightarrow> (\<exists>n\<le>MAX_TASK_TREE_DEPTH. below (t_user t) (rdb r) tid n u)"
  proof -
    have r1d: "rdb ?r1 = d" by simp
    have gid: "t_id (?g x) = t_id x" for x using id [of x] by (simp add: same_identity_def)
    have "k \<in> set ?ids \<longleftrightarrow> (\<exists>n x. n \<le> MAX_TASK_TREE_DEPTH \<and> below (t_user t) (rdb r) tid n x \<and> t_id (?g x) = k)"
      unfolding r1d by (simp only: set_map set_list_descendants image_iff mem_Collect_eq bm bex_simps) blast
    moreover have "x = u" if "below (t_user t) (rdb r) tid n x" "t_id x = k" for x n
      using find_task_in_set [OF invD(1) [OF assms(1)]] below_in_tasks [OF that(1)] that(2) k(2) by fastforce
    ultimately show ?thesis unfolding gid using find_task_SomeD [OF k(2)] by blast
  qed
  moreover have "find_task (rdb ?r1) k = Some u" using fd k by simp
  ultimately show "if (\<exists>n\<le>MAX_TASK_TREE_DEPTH. below (t_user t) (rdb r) tid n u) \<and> \<not> is_terminal (t_state u)
       then \<exists>u'. find_task (rdb (fail_task tid uid sc reason er actor terminal now r)) k = Some u' \<and> t_state u' = CANCELLED
       else find_task (rdb (fail_task tid uid sc reason er actor terminal now r)) k = Some u"
    using cancel_each_rows(2) [OF i1 c, of k u] rd by simp
qed

text \<open>
  A task that fails or times out takes its unfinished subtree with it: the
  task ends in the failure state with its status code and error, every unfinished
  descendant is CANCELLED, and no other row changes.
\<close>

theorem failure_cascades:
  assumes "inv r" "terminal = FAILED \<or> terminal = TIMED_OUT" "find_task (rdb r) tid = Some t"
    "\<not> is_terminal (t_state t)" "uid = None \<or> uid = Some (t_user t)"
  shows "let r' = fail_task tid uid sc reason er actor terminal now r
    in find_task (rdb r') tid = Some (set_state terminal (Some sc) None (Some (error_or_reason er reason)) now t) \<and>
      (\<forall>k u. k \<noteq> tid \<longrightarrow> find_task (rdb r) k = Some u \<longrightarrow>
         (if (\<exists>n\<le>MAX_TASK_TREE_DEPTH. below (t_user t) (rdb r) tid n u) \<and> \<not> is_terminal (t_state u)
          then \<exists>u'. find_task (rdb r') k = Some u' \<and> t_state u' = CANCELLED
          else find_task (rdb r') k = Some u))"
proof -
  have "\<not> is_terminal (t_state t) \<or> t_state t = terminal" "t_state t \<noteq> terminal" using assms(2,4) by auto
  with fail_task_rows [OF assms(1-3) this(1) assms(5)] show ?thesis by (simp only: Let_def if_False) blast
qed

theorem failure_cascades_witness:
  "find_task (rdb (fail_task ''t1'' None 503 ''agent_disconnected'' None None FAILED 9 demo_router)) ''t1'' =
   Some (set_state FAILED (Some 503) None (Some (error_or_reason None ''agent_disconnected'')) 9 demo_task)"
  using failure_cascades [OF demo_inv, of FAILED "''t1''" demo_task None 503 "''agent_disconnected''" None None 9]
  by (simp add: Let_def demo_task_def)

text \<open>
  The failure of a root task with no children is announced to nobody: no
  outbox changes, although the agent that issued the task awaits its Result.
\<close>

theorem root_failure_not_announced:
  assumes "find_task (rdb r) tid = Some t" "t_parent t = None" "\<forall>x\<in>set (tasks (rdb r)). t_parent x \<noteq> Some tid"
  shows "chans (fail_task tid (Some (t_user t)) sc reason er actor terminal now r) = chans r"
proof (cases "fail_transition tid (Some (t_user t)) sc reason er actor terminal now (rdb r)")
  case (Some x)
  obtain u p d where x: "x = (u, p, d)" by (cases x)
  obtain y where y: "task_transition tid terminal reason actor [] (Some sc) None
      (Some (error_or_reason er reason)) now (rdb r) = Inr (y, d)" and p: "p = None"
    using Some x assms(1,2) by (auto simp: fail_transition_def split: option.splits sum.splits)
  have "\<forall>x\<in>set (tasks d). t_parent x \<noteq> Some tid"
    using y assms(3) by (auto simp: transition_cases Let_def set_tbl_upd split: option.splits if_splits)
  then have "children u d tid = []" by (auto simp: children_def filter_empty_conv)
  moreover have "descend n u d [] = []" for n by (induction n) auto
  ultimately have nil: "list_descendants u tid d = []" by (simp add: list_descendants_def)
  show ?thesis
    unfolding fail_task_def Some x option.case prod.case Let_def p
    by (simp add: nil)
qed (simp add: fail_task_def)

theorem root_failure_not_announced_witness:
  "chans (fail_task ''t1'' (Some (t_user demo_task)) 504 ''deadline_exceeded'' None None TIMED_OUT 60 demo_router) =
   chans demo_router"
  by (rule root_failure_not_announced [of _ _ demo_task]) (simp, simp_all add: demo_defs)

section \<open>Disconnect and deadlines\<close>

lemma fail_task_verdict:
  assumes "inv r" "terminal = FAILED \<or> terminal = TIMED_OUT" "find_task (rdb r) k = Some u"
    "\<And>t. find_task (rdb r) tid = Some t \<Longrightarrow> uid = None \<or> uid = Some (t_user t)"
  shows "\<exists>u'. find_task (rdb (fail_task tid uid sc reason er actor terminal now r)) k = Some u' \<and>
    (u' = u \<or> t_state u' \<in> {terminal, CANCELLED}) \<and> (k = tid \<longrightarrow> is_terminal (t_state u'))"
proof (cases "find_task (rdb r) tid")
  case None
  have "fail_task tid uid sc reason er actor terminal now r = r"
    using None by (cases uid) (simp_all add: fail_task_def fail_transition_def)
  then show ?thesis using assms(3) None by auto
next
  case (Some t)
  show ?thesis
  proof (cases "is_terminal (t_state t) \<and> t_state t \<noteq> terminal")
    case True
    then have "fail_task tid uid sc reason er actor terminal now r = r"
      using Some assms(4) terminal_no_exit [of "t_state t"]
      by (auto simp: fail_task_def fail_transition_def transition_cases Let_def split: option.split)
    then show ?thesis using assms(3) True Some by auto
  next
    case False
    then have f: "\<not> is_terminal (t_state t) \<or> t_state t = terminal" by auto
    have "uid = None \<or> uid = Some (t_user t)" using assms(4) Some by simp
    note rows = fail_task_rows [OF assms(1,2) Some f this, where sc = sc and reason = reason and er = er and actor = actor and now = now]
    show ?thesis
    proof (cases "k = tid")
      case True
      then show ?thesis using rows(1) assms(2,3) Some by auto
    next
      case False
      with rows(2) [OF False assms(3)] show ?thesis by (auto split: if_splits)
    qed
  qed
qed

text \<open>A batch of failures: what each row becomes, and that each named row ends.\<close>

lemma fail_batch:
  assumes "inv r" "terminal = FAILED \<or> terminal = TIMED_OUT" "find_task (rdb r) k = Some u"
    "\<And>r x t. find_task (rdb r) (tid_of x) = Some t \<Longrightarrow> x \<in> set xs \<Longrightarrow>
       (\<exists>t0. find_task (rdb r0) (tid_of x) = Some t0 \<and> t_user t0 = t_user t) \<Longrightarrow>
       \<exists>uid sc reason er actor. f r x = fail_task (tid_of x) uid sc reason er actor terminal now r \<and>
         (uid = None \<or> uid = Some (t_user t))"
    "\<And>r x. find_task (rdb r) (tid_of x) = None \<Longrightarrow> f r x = r"
    "evolves (rdb r0) (rdb r)" "\<forall>x\<in>set xs. find_task (rdb r0) (tid_of x) \<noteq> None"
  shows "\<exists>u'. find_task (rdb (foldl f r xs)) k = Some u' \<and> (u' = u \<or> t_state u' \<in> {terminal, CANCELLED}) \<and>
    (k \<in> tid_of ` set xs \<longrightarrow> is_terminal (t_state u'))"
  using assms
proof (induction xs arbitrary: r u)
  case (Cons x xs)
  obtain t0 where t0: "find_task (rdb r0) (tid_of x) = Some t0" using Cons.prems(7) by auto
  then obtain t where t: "find_task (rdb r) (tid_of x) = Some t" "t_user t = t_user t0"
    using evolvesD [OF Cons.prems(6)] by (fastforce simp: row_evolves_def same_identity_def)
  then obtain uid sc reason er actor where fx:
    "f r x = fail_task (tid_of x) uid sc reason er actor terminal now r" "uid = None \<or> uid = Some (t_user t)"
    using Cons.prems(4) [OF t(1)] t0 by force
  have g: "good r (f r x)" unfolding fx(1) by (rule good_fail_task [OF Cons.prems(2)])
  obtain u1 where u1: "find_task (rdb (f r x)) k = Some u1" "u1 = u \<or> t_state u1 \<in> {terminal, CANCELLED}"
    "k = tid_of x \<longrightarrow> is_terminal (t_state u1)"
    using fail_task_verdict [OF Cons.prems(1,2,3), of "tid_of x" uid sc reason er actor now] fx t by auto
  have "\<exists>u'. find_task (rdb (foldl f (f r x) xs)) k = Some u' \<and> (u' = u1 \<or> t_state u' \<in> {terminal, CANCELLED}) \<and>
    (k \<in> tid_of ` set xs \<longrightarrow> is_terminal (t_state u'))"
    by (rule Cons.IH [OF goodD(1) [OF g Cons.prems(1)] Cons.prems(2) u1(1) Cons.prems(4)])
      (use Cons.prems(5-7) evolves_trans goodD(2) [OF g Cons.prems(1)] in auto)
  then obtain u' where u': "find_task (rdb (foldl f (f r x) xs)) k = Some u'"
    "u' = u1 \<or> t_state u' \<in> {terminal, CANCELLED}" "k \<in> tid_of ` set xs \<longrightarrow> is_terminal (t_state u')" by blast
  moreover have "is_terminal (t_state u')" if "k = tid_of x"
    using u'(2) u1(3) that Cons.prems(2) by auto
  ultimately show ?case using u1(2) by auto
qed auto

text \<open>
  Property C16.  A sweep ends every overdue task it selects, as timed out or, when it is
  swept with an overdue ancestor, as cancelled; it changes a row in no other way; and with
  at most a hundred overdue tasks none is left.
\<close>

theorem sweep_ends_overdue:
  assumes "inv r" "find_task (rdb r) k = Some u"
  shows "let overdue = (\<exists>dl. t_deadline u = Some dl \<and> dl < now) \<and> \<not> is_terminal (t_state u);
             few = length (filter (\<lambda>t. (\<exists>dl. t_deadline t = Some dl \<and> dl < now) \<and> \<not> is_terminal (t_state t))
                      (tasks (rdb r))) \<le> SWEEP_LIMIT
    in \<exists>u'. find_task (rdb (snd (sweep_once now r))) k = Some u' \<and>
         (u' = u \<or> t_state u' \<in> {TIMED_OUT, CANCELLED}) \<and>
         (u \<in> set (find_expired_tasks now SWEEP_LIMIT (rdb r)) \<or> overdue \<and> few \<longrightarrow> is_terminal (t_state u'))"
proof -
  let ?rows = "find_expired_tasks now SWEEP_LIMIT (rdb r)"
  let ?due = "\<lambda>t. (\<exists>dl. t_deadline t = Some dl \<and> dl < now) \<and> \<not> is_terminal (t_state t)"
  let ?l = "filter (\<lambda>t. (case t_deadline t of None \<Rightarrow> False | Some dl \<Rightarrow> dl < now) \<and>
      t_state t \<in> {QUEUED, RUNNING, WAITING_CHILDREN}) (tasks (rdb r))"
  have live_states: "s \<in> {QUEUED, RUNNING, WAITING_CHILDREN} \<longleftrightarrow> \<not> is_terminal s" for s by (cases s) auto
  have l: "?l = filter ?due (tasks (rdb r))"
    unfolding live_states by (rule filter_cong) (auto split: option.split)
  have rows: "?rows = take SWEEP_LIMIT (sort_key (\<lambda>t. the (t_deadline t)) ?l)" by (simp add: find_expired_tasks_def)
  have sub: "x \<in> set ?rows \<Longrightarrow> x \<in> set (tasks (rdb r))" for x unfolding rows by (auto dest: in_set_takeD)
  have all: "?due u \<Longrightarrow> length (filter ?due (tasks (rdb r))) \<le> SWEEP_LIMIT \<Longrightarrow> u \<in> set ?rows"
    using find_task_SomeD [OF assms(2)] unfolding rows l by simp
  have "\<exists>u'. find_task (rdb (foldl (sweep_row now) r ?rows)) k = Some u' \<and> (u' = u \<or> t_state u' \<in> {TIMED_OUT, CANCELLED}) \<and>
    (k \<in> t_id ` set ?rows \<longrightarrow> is_terminal (t_state u'))"
  proof (rule fail_batch [where r0 = r and now = now, OF assms(1) _ assms(2)])
    fix s :: "'a router" and x t assume *: "find_task (rdb s) (t_id x) = Some t" "x \<in> set ?rows"
      "\<exists>t0. find_task (rdb r) (t_id x) = Some t0 \<and> t_user t0 = t_user t"
    then have "t_user x = t_user t" using find_task_in_set [OF invD(1) [OF assms(1)] sub] by auto
    then show "\<exists>uid sc reason er actor. sweep_row now s x = fail_task (t_id x) uid sc reason er actor TIMED_OUT now s \<and>
         (uid = None \<or> uid = Some (t_user t))" unfolding sweep_row_def by blast
  next
    show "\<forall>x\<in>set ?rows. find_task (rdb r) (t_id x) \<noteq> None"
      using find_task_in_set [OF invD(1) [OF assms(1)] sub] by auto
  qed (auto simp: sweep_row_def fail_task_def fail_transition_def)
  moreover have "u \<in> set ?rows \<Longrightarrow> k \<in> t_id ` set ?rows" using find_task_SomeD [OF assms(2)] by auto
  ultimately show ?thesis using all by (simp only: Let_def sweep_once_def snd_conv) blast
qed

theorem sweep_ends_overdue_witness:
  "\<exists>u'. find_task (rdb (snd (sweep_once 60 demo_router))) ''t1'' = Some u' \<and> is_terminal (t_state u')"
  using sweep_ends_overdue [OF demo_inv, of "''t1''" demo_task 60]
  by (simp add: Let_def) (simp add: demo_defs SWEEP_LIMIT_def, blast)

lemma fail_inflight_ends:
  assumes "inv r" "find_task (rdb r) k = Some u" "t_agent u = a"
  shows "\<exists>u'. find_task (rdb (snd (fail_inflight_for_agent a reason now r))) k = Some u' \<and> is_terminal (t_state u')"
proof -
  let ?er = "Some (JObj [(''code'', JStr reason), (''agent_id'', JStr a)])"
  let ?f = "\<lambda>r tid. fail_task tid None 503 reason ?er (Some ''router'') FAILED now r"
  have live_states: "s \<in> {QUEUED, RUNNING, WAITING_CHILDREN} \<longleftrightarrow> \<not> is_terminal s" for s by (cases s) auto
  have ids: "x \<in> set (inflight_ids a (rdb r)) \<Longrightarrow> find_task (rdb r) x \<noteq> None" for x
    using find_task_in_set [OF invD(1) [OF assms(1)]] by (auto simp: inflight_ids_def)
  have "\<exists>u'. find_task (rdb (foldl ?f r (inflight_ids a (rdb r)))) k = Some u' \<and> (u' = u \<or> t_state u' \<in> {FAILED, CANCELLED}) \<and>
    (k \<in> (\<lambda>x. x) ` set (inflight_ids a (rdb r)) \<longrightarrow> is_terminal (t_state u'))"
  proof (rule fail_batch [where r0 = r and now = now, OF assms(1) _ assms(2)])
    show "\<forall>x\<in>set (inflight_ids a (rdb r)). find_task (rdb r) x \<noteq> None" using ids by blast
  qed (simp, blast, simp add: fail_task_def fail_transition_def, simp)
  moreover have "\<not> is_terminal (t_state u) \<Longrightarrow> k \<in> set (inflight_ids a (rdb r))"
    using find_task_SomeD [OF assms(2)] assms(3) live_states by (auto simp: inflight_ids_def)
  ultimately show ?thesis by (auto simp: fail_inflight_for_agent_def Let_def)
qed

text \<open>
  When an agent's resume window ends, every unfinished task that was assigned
  to it ends.
\<close>

theorem disconnect_ends_assigned:
  assumes "inv r" "find_task (rdb r) k = Some u" "t_agent u = a"
  shows "\<exists>u'. find_task (rdb (snd (fail_inflight_for_agent a reason now r))) k = Some u' \<and> is_terminal (t_state u')"
  by (rule fail_inflight_ends [OF assms])

theorem disconnect_ends_assigned_witness:
  "\<exists>u'. find_task (rdb (snd (fail_inflight_for_agent ''a'' ''agent_disconnected'' 9 demo_router))) ''t1'' = Some u' \<and>
     is_terminal (t_state u')"
  by (rule disconnect_ends_assigned [of _ _ demo_task]) (simp_all add: demo_task_def)

text \<open>
  The selection is by the agent a task was created for, not by the agent that
  executes it: when an agent that only executes delegated tasks disconnects, none of them
  is failed.
\<close>

theorem disconnect_misses_delegated:
  assumes "find_task (rdb r) k = Some t" "t_active t = a" "\<not> is_terminal (t_state t)"
    "\<forall>x\<in>set (tasks (rdb r)). t_agent x = a \<longrightarrow> is_terminal (t_state x)"
  shows "t_agent t \<noteq> a \<and>
    find_task (rdb (snd (fail_inflight_for_agent a reason now r))) k = Some t"
proof -
  have "inflight_ids a (rdb r) = []" using assms(4) by (auto simp: inflight_ids_def filter_empty_conv)
  then show ?thesis using assms(1,3,4) find_task_SomeD [OF assms(1)]
    by (auto simp: fail_inflight_for_agent_def)
qed

theorem disconnect_misses_delegated_witness:
  "t_agent demo_task \<noteq> ''b'' \<and>
   find_task (rdb (snd (fail_inflight_for_agent ''b'' ''agent_disconnected'' 9 demo_router))) ''t1'' = Some demo_task"
  by (rule disconnect_misses_delegated) (simp_all, simp_all add: demo_defs)

end
