(* ===== verification/Hub.thy ===== *)
theory Hub
  imports TaskProps
begin

text \<open>
  \<open>bp_router/ws_hub.py\<close>: the registry of live and parked sockets, the registration of a
  new connection (fresh or resumed), disconnect and the resume window, the send loop and
  the heartbeat.  A socket entry is an address; the outbox and the in-flight correlation
  ids, which a resumed entry takes over by reference, are its channel.
\<close>

section \<open>The registry\<close>

definition attach :: "nat \<Rightarrow> 'r router \<Rightarrow> nat option \<times> 'r router" where
  "attach s r = (let a = so_agent (the_socket r s)
     in (map_of (live r) a, r\<lparr>live := dict_pop a (live r) @ [(a, s)]\<rparr>))"

definition detach :: "agent_id \<Rightarrow> bool \<Rightarrow> nat option \<Rightarrow> 'r router \<Rightarrow> nat option \<times> 'r router" where
  "detach a into_resume expected r =
     (if expected \<noteq> None \<and> map_of (live r) a \<noteq> expected then (None, r)
      else case map_of (live r) a of
             None \<Rightarrow> (None, r)
           | Some s \<Rightarrow> (Some s, r\<lparr>live := dict_pop a (live r),
                 parked := (if into_resume then dict_set a s (parked r) else parked r)\<rparr>))"

definition consume_resume :: "agent_id \<Rightarrow> string \<Rightarrow> 'r router \<Rightarrow> nat option \<times> 'r router" where
  "consume_resume a tok r =
     (case map_of (parked r) a of
        None \<Rightarrow> (None, r)
      | Some s \<Rightarrow> if so_token (the_socket r s) \<noteq> tok then (None, r)
                 else (Some s, r\<lparr>parked := dict_pop a (parked r)\<rparr>))"

definition expire_resume :: "agent_id \<Rightarrow> nat \<Rightarrow> 'r router \<Rightarrow> bool \<times> 'r router" where
  "expire_resume a s r =
     (if map_of (parked r) a \<noteq> Some s then (False, r)
      else (True, r\<lparr>parked := dict_pop a (parked r)\<rparr>))"

definition live_agent_ids :: "'r router \<Rightarrow> agent_id list" where
  "live_agent_ids r = map fst (live r)"

section \<open>A new connection\<close>

definition new_outbox :: "'r router \<Rightarrow> channel" where
  "new_outbox r = \<lparr>ch_cap = per_socket_outbox_max (rsettings r), ch_out = [], ch_infl = []\<rparr>"

definition upd_socket :: "nat \<Rightarrow> (socket \<Rightarrow> socket) \<Rightarrow> 'r router \<Rightarrow> 'r router" where
  "upd_socket s f r = r\<lparr>sockets := (if s < length (sockets r) then (sockets r)[s := f (sockets r ! s)] else sockets r)\<rparr>"

definition close_socket :: "nat \<Rightarrow> 'r router \<Rightarrow> 'r router" where
  "close_socket s = upd_socket s (\<lambda>x. x\<lparr>so_closed := True\<rparr>)"

text \<open>
  The registration part of \<open>_handshake\<close>, after the agent has been authenticated: a resume
  token that fits takes over the parked entry's outbox and token (\<open>fresh\<close> is
  \<open>secrets.token_urlsafe\<close>), and a live socket of the same agent is superseded.
\<close>

definition open_socket :: "agent_id \<Rightarrow> string \<Rightarrow> string option \<Rightarrow> string \<Rightarrow> 'r router \<Rightarrow> nat \<times> 'r router" where
  "open_socket a jti resume fresh r =
     (let (resumed, r1) = (if truthy resume then consume_resume a (the resume) r else (None, r));
          (tok, c, r2) = (case resumed of
             Some p \<Rightarrow> (so_token (the_socket r1 p), chan_of r1 p, r1)
           | None \<Rightarrow> (fresh, length (chans r1), r1\<lparr>chans := chans r1 @ [new_outbox r1]\<rparr>));
          s = length (sockets r2);
          r3 = r2\<lparr>sockets := sockets r2 @ [\<lparr>so_agent = a, so_token = tok, so_jti = jti, so_chan = c,
                  so_closed = False, so_llm = []\<rparr>]\<rparr>;
          (previous, r4) = attach s r3
      in (s, case previous of None \<Rightarrow> r4 | Some p \<Rightarrow> close_socket p r4))"

section \<open>Disconnect\<close>

text \<open>
  \<open>_on_disconnect\<close> up to its first \<open>await\<close> (the LLM calls are given two seconds to unwind),
  and from there: pending acks are rejected and the entry is parked.  \<open>env\<close> runs between.
\<close>

definition begin_disconnect :: "nat \<Rightarrow> 'r router \<Rightarrow> 'r router" where
  "begin_disconnect s r =
     (let r1 = close_socket s r;
          r2 = snd (abort_each (map snd (so_llm (the_socket r1 s))) r1)
      in upd_socket s (\<lambda>x. x\<lparr>so_llm := []\<rparr>) r2)"

definition finish_disconnect :: "nat \<Rightarrow> 'r router \<Rightarrow> nat option \<times> 'r router" where
  "finish_disconnect s r =
     (let r1 = r\<lparr>acks := snd (ack_reject_ids (ch_infl (chans r ! chan_of r s)) (acks r))\<rparr>
      in detach (so_agent (the_socket r1 s)) True (Some s) r1)"

definition on_disconnect :: "('r router \<Rightarrow> 'r router) \<Rightarrow> nat \<Rightarrow> 'r router \<Rightarrow> nat option \<times> 'r router" where
  "on_disconnect env s r = finish_disconnect s (env (begin_disconnect s r))"

text \<open>\<open>_resume_window_expiry\<close>, after its sleep.\<close>

definition resume_window_expiry :: "nat \<Rightarrow> time \<Rightarrow> 'r router \<Rightarrow> nat \<times> 'r router" where
  "resume_window_expiry s now r =
     (let a = so_agent (the_socket r s); (expired, r1) = expire_resume a s r
      in if \<not> expired then (0, r1)
         else fail_inflight_for_agent a ''agent_disconnected'' now r1)"

section \<open>The send loop\<close>

text \<open>One turn: take a frame, and put it back at the end when sending it fails.\<close>

definition send_get :: "nat \<Rightarrow> 'r router \<Rightarrow> (frame \<times> 'r router) option" where
  "send_get s r = (case ch_out (chans r ! chan_of r s) of
     [] \<Rightarrow> None
   | f # fs \<Rightarrow> Some (f, upd_chan (chan_of r s) (\<lambda>ch. ch\<lparr>ch_out := fs\<rparr>) r))"

definition send_failed :: "nat \<Rightarrow> frame \<Rightarrow> 'r router \<Rightarrow> 'r router" where
  "send_failed s f r = (if ch_full (chans r ! chan_of r s) then r else put_frame (chan_of r s) f r)"

section \<open>The heartbeat\<close>

text \<open>A Ping that is sent and tracked, or cannot be queued.\<close>

definition send_ping :: "corr_id \<Rightarrow> time \<Rightarrow> time \<Rightarrow> nat \<Rightarrow> 'r router \<Rightarrow> nat option \<times> 'r router" where
  "send_ping cid interval now s r =
     (let (fut, p) = ack_register cid (Some interval) now (acks r);
          c = chan_of r s; r1 = add_infl c cid (r\<lparr>acks := p\<rparr>)
      in if ch_full (chans r1 ! c)
         then (let r2 = discard_infl c cid r1
               in (None, r2\<lparr>acks := snd (ack_reject cid (RuntimeError ''outbox_full'') (acks r2))\<rparr>))
         else (Some fut, put_frame c (PingF cid) r1))"

text \<open>
  What one interval shows: traffic, a full outbox, an answered Ping or one whose future
  timed out or was cancelled.  Two misses in a row close the socket.
\<close>

datatype beat = Active | OutboxFull | PongSeen | PongLost

datatype pulse = Misses nat | Closed string

definition MAX_MISSES :: nat where
  "MAX_MISSES = 2"

fun heartbeat_round :: "nat \<Rightarrow> beat \<Rightarrow> pulse" where
  "heartbeat_round misses Active = Misses 0"
| "heartbeat_round misses OutboxFull =
     (if misses + 1 \<ge> MAX_MISSES then Closed ''outbox_full'' else Misses (misses + 1))"
| "heartbeat_round misses PongSeen = Misses 0"
| "heartbeat_round misses PongLost =
     (if misses + 1 \<ge> MAX_MISSES then Closed ''heartbeat_timeout'' else Misses (misses + 1))"

fun heartbeat_loop :: "nat \<Rightarrow> beat list \<Rightarrow> pulse" where
  "heartbeat_loop misses [] = Misses misses"
| "heartbeat_loop misses (b # bs) =
     (case heartbeat_round misses b of Misses m \<Rightarrow> heartbeat_loop m bs | Closed why \<Rightarrow> Closed why)"

section \<open>Registry lemmas\<close>

lemma upd_socket_frame [simp]:
  "rdb (upd_socket s f r) = rdb r" "chans (upd_socket s f r) = chans r" "live (upd_socket s f r) = live r"
  "parked (upd_socket s f r) = parked r" "caller_cache (upd_socket s f r) = caller_cache r"
  "length (sockets (upd_socket s f r)) = length (sockets r)" "acks (upd_socket s f r) = acks r"
  by (simp_all add: upd_socket_def)

lemma keys_upd_socket:
  "(\<And>x. so_agent (f x) = so_agent x \<and> so_chan (f x) = so_chan x) \<Longrightarrow> socket_keys (upd_socket s f r) = socket_keys r"
  by (auto simp: socket_keys_def upd_socket_def map_update list_update_same_conv)

lemma good_cong_keys:
  assumes "rdb r' = rdb r" "caller_cache r' = caller_cache r" "chans r' = chans r" "live r' = live r"
    "socket_keys r' = socket_keys r" "parked r' = parked r"
  shows "good r r'"
  using assms reg_ok_cong_keys [of r' r] by (simp add: good_def inv_def cache_ok_def frames_ok_def)

lemma good_upd_socket:
  "(\<And>x. so_agent (f x) = so_agent x \<and> so_chan (f x) = so_chan x) \<Longrightarrow> good r (upd_socket s f r)"
  by (rule good_cong_keys) (simp_all add: keys_upd_socket)

lemma good_close: "good r (close_socket s r)"
  by (simp add: close_socket_def good_upd_socket)

lemma good_begin_disconnect: "good r (begin_disconnect s r)"
proof -
  let ?r1 = "close_socket s r"
  let ?r2 = "snd (abort_each (map snd (so_llm (the_socket ?r1 s))) ?r1)"
  have "good r ?r1" by (rule good_close)
  also have "good ?r1 ?r2" by (rule good_cong) simp_all
  also have "good ?r2 (upd_socket s (\<lambda>x. x\<lparr>so_llm := []\<rparr>) ?r2)" by (rule good_upd_socket) simp
  finally show ?thesis by (simp add: begin_disconnect_def Let_def)
qed

lemma dict_pop_in: "e \<in> set (dict_pop k d) \<Longrightarrow> e \<in> set d \<and> fst e \<noteq> k"
  by (simp add: dict_pop_def)

lemma map_of_in: "distinct (map fst d) \<Longrightarrow> map_of d k = Some v \<longleftrightarrow> (k, v) \<in> set d"
  by (simp add: map_of_eq_Some_iff)

lemma dict_set_in:
  assumes "distinct (map fst d)" "e \<in> set (dict_set k v d)"
  shows "e = (k, v) \<or> (e \<in> set d \<and> fst e \<noteq> k)"
proof (cases e)
  case (Pair a b)
  then have "map_of (dict_set k v d) a = Some b" using map_of_in [OF distinct_dict_set [OF assms(1)]] assms(2) by simp
  then show ?thesis using Pair map_of_in [OF assms(1), of a b] by (auto simp: map_of_dict_set split: if_splits)
qed

text \<open>Changing what is live and parked.\<close>

lemma reg_ok_refile:
  assumes "reg_ok r" "distinct (map fst l)" "distinct (map fst p)" "set l \<inter> set p = {}"
    "set l \<subseteq> set (live r) \<union> set (parked r)" "set p \<subseteq> set (live r) \<union> set (parked r)"
  shows "reg_ok (r\<lparr>live := l, parked := p\<rparr>)"
proof -
  have "\<forall>e \<in> set l \<union> set p. snd e < length (sockets r) \<and> so_agent (sockets r ! snd e) = fst e"
    using assms(1,5,6) unfolding reg_ok_def by blast
  then show ?thesis using assms(1-4) by (simp add: reg_ok_def socket_keys_def)
qed

lemma reg_ok_detach:
  assumes "reg_ok r"
  shows "reg_ok (snd (detach a into_resume expected r))"
proof (cases "expected \<noteq> None \<and> map_of (live r) a \<noteq> expected")
  case False
  show ?thesis
  proof (cases "map_of (live r) a")
    case (Some s)
    have d: "distinct (map fst (live r))" "distinct (map fst (parked r))" "set (live r) \<inter> set (parked r) = {}"
      using assms by (simp_all add: reg_ok_def)
    have in_live: "(a, s) \<in> set (live r)" using Some by (rule map_of_SomeD)
    let ?l = "dict_pop a (live r)"
    let ?p = "if into_resume then dict_set a s (parked r) else parked r"
    have l: "e \<in> set ?l \<Longrightarrow> e \<in> set (live r) \<and> fst e \<noteq> a" for e by (rule dict_pop_in)
    have p: "e = (a, s) \<or> e \<in> set (parked r)" if "e \<in> set ?p" for e
      using that dict_set_in [OF d(2), of e a s] by (auto split: if_splits)
    have "set ?l \<inter> set ?p = {}" using l p d(3) by fastforce
    moreover have "set ?l \<subseteq> set (live r) \<union> set (parked r)" "set ?p \<subseteq> set (live r) \<union> set (parked r)"
      using l p in_live by blast+
    moreover have "distinct (map fst ?p)" using d(2) distinct_dict_set by auto
    ultimately have "reg_ok (r\<lparr>live := ?l, parked := ?p\<rparr>)"
      using reg_ok_refile [OF assms distinct_dict_pop [OF d(1)]] by blast
    then show ?thesis using Some False by (auto simp: detach_def)
  qed (use assms False in \<open>simp add: detach_def\<close>)
qed (use assms in \<open>simp add: detach_def\<close>)

lemma reg_ok_drop_parked:
  assumes "reg_ok r"
  shows "reg_ok (r\<lparr>parked := dict_pop a (parked r)\<rparr>)"
proof -
  have "reg_ok (r\<lparr>live := live r, parked := dict_pop a (parked r)\<rparr>)"
    by (rule reg_ok_refile [OF assms])
      (use assms distinct_dict_pop [of "parked r" a] in \<open>auto simp: reg_ok_def dict_pop_def\<close>)
  then show ?thesis by simp
qed

lemma consume_resume_cases:
  assumes "consume_resume a tok r = (res, r')"
  shows "(res = None \<and> r' = r) \<or> (\<exists>p. res = Some p \<and> map_of (parked r) a = Some p \<and>
     so_token (sockets r ! p) = tok \<and> r' = r\<lparr>parked := dict_pop a (parked r)\<rparr>)"
  using assms by (auto simp: consume_resume_def the_socket_def split: option.splits if_splits)

text \<open>
  The state a new connection is registered in: its token and channel, and whether it
  resumed.
\<close>

lemma open_socket_cases:
  assumes "open_socket a jti resume fresh r = (s, r')"
  obtains tok c r1 where "s = length (sockets r)"
    "(tok = fresh \<and> c = length (chans r) \<and> r1 = r\<lparr>chans := chans r @ [new_outbox r]\<rparr>) \<or>
     (\<exists>p. truthy resume \<and> map_of (parked r) a = Some p \<and> so_token (sockets r ! p) = the resume \<and>
        tok = so_token (sockets r ! p) \<and> c = chan_of r p \<and> r1 = r\<lparr>parked := dict_pop a (parked r)\<rparr>)"
    "r' = (case map_of (live r) a of None \<Rightarrow> id | Some p \<Rightarrow> close_socket p)
       (r1\<lparr>sockets := sockets r @ [\<lparr>so_agent = a, so_token = tok, so_jti = jti, so_chan = c,
             so_closed = False, so_llm = []\<rparr>], live := dict_pop a (live r) @ [(a, s)]\<rparr>)"
proof -
  obtain res q where q: "(if truthy resume then consume_resume a (the resume) r else (None, r)) = (res, q)"
    by (metis surj_pair)
  have sock: "sockets q = sockets r" "live q = live r"
    using q consume_resume_cases [of a "the resume" r res q] by (auto split: if_splits)
  have att: "attach (length (sockets r)) (p\<lparr>sockets := sockets r @ [x]\<rparr>) =
      (map_of (live p) (so_agent x), p\<lparr>sockets := sockets r @ [x],
         live := dict_pop (so_agent x) (live p) @ [(so_agent x, length (sockets r))]\<rparr>)" for p :: "'a router" and x
    by (simp add: attach_def the_socket_def Let_def)
  show thesis
  proof (cases res)
    case None
    then have "q = r" using q consume_resume_cases [of a "the resume" r res q] by (auto split: if_splits)
    then show thesis using assms q None
      by (intro that [of fresh "length (chans r)" "r\<lparr>chans := chans r @ [new_outbox r]\<rparr>"])
        (auto simp: open_socket_def Let_def att split: option.split)
  next
    case (Some p)
    then have "truthy resume" "map_of (parked r) a = Some p" "so_token (sockets r ! p) = the resume"
      "q = r\<lparr>parked := dict_pop a (parked r)\<rparr>"
      using q consume_resume_cases [of a "the resume" r res q] by (auto split: if_splits)
    then show thesis using assms q Some
      by (intro that [of "so_token (sockets r ! p)" "chan_of r p" "r\<lparr>parked := dict_pop a (parked r)\<rparr>"])
        (auto simp: open_socket_def Let_def att the_socket_def chan_of_def split: option.split)
  qed
qed

lemma chans_ok_mono: "chans_ok ks n \<Longrightarrow> n \<le> m \<Longrightarrow> chans_ok ks m"
  unfolding chans_ok_def by (meson less_le_trans)

lemma reg_ok_attach:
  assumes "reg_ok r" "so_agent x = a" "so_chan x < length (chans r)"
    "\<And>y. y \<in> set (sockets r) \<Longrightarrow> so_chan y = so_chan x \<Longrightarrow> so_agent y = a"
  shows "reg_ok (r\<lparr>sockets := sockets r @ [x], live := dict_pop a (live r) @ [(a, length (sockets r))]\<rparr>)"
proof -
  note d = assms(1) [unfolded reg_ok_def]
  have l: "set (dict_pop a (live r)) \<subseteq> set (live r)" "a \<notin> fst ` set (dict_pop a (live r))"
    by (auto simp: dict_pop_def)
  have "distinct (map fst (dict_pop a (live r)))" using d by (simp add: distinct_dict_pop)
  moreover have fresh: "e \<in> set (live r) \<union> set (parked r) \<Longrightarrow> snd e < length (sockets r)" for e
    using d by blast
  have new: "(a, length (sockets r)) \<notin> set (parked r)" using fresh [of "(a, length (sockets r))"] by auto
  moreover have "snd e < Suc (length (sockets r)) \<and> so_agent ((sockets r @ [x]) ! snd e) = fst e"
    if "e \<in> insert (a, length (sockets r)) (set (dict_pop a (live r)) \<union> set (parked r))" for e
  proof (cases "e = (a, length (sockets r))")
    case False
    then have "e \<in> set (live r) \<union> set (parked r)" using that l(1) by blast
    then have "snd e < length (sockets r) \<and> so_agent (sockets r ! snd e) = fst e" using d by blast
    then show ?thesis by (simp add: nth_append)
  qed (use assms(2) in simp)
  moreover have "chans_ok (socket_keys r @ [(a, so_chan x)]) (length (chans r))"
    unfolding chans_ok_def
  proof (intro ballI conjI impI)
    fix y z assume y: "y \<in> set (socket_keys r @ [(a, so_chan x)])" and z: "z \<in> set (socket_keys r @ [(a, so_chan x)])"
    show "snd y < length (chans r)" using y d assms(3) by (auto simp: chans_ok_def)
    have old: "fst w = a" if "w \<in> set (socket_keys r)" "snd w = so_chan x" for w
      using that assms(4) by (auto simp: socket_keys_def)
    assume "snd y = snd z"
    then show "fst y = fst z"
    proof (cases "y \<in> set (socket_keys r) \<and> z \<in> set (socket_keys r)")
      case True
      then show ?thesis using d \<open>snd y = snd z\<close> unfolding chans_ok_def by blast
    next
      case False
      then show ?thesis using y z old [of y] old [of z] \<open>snd y = snd z\<close> by auto
    qed
  qed
  moreover have "set (dict_pop a (live r)) \<inter> set (parked r) = {}" using l(1) d by blast
  ultimately show ?thesis using d l(2) new assms(2)
    by (simp add: reg_ok_def socket_keys_def)
qed

lemma good_open_socket: "good r (snd (open_socket a jti resume fresh r))"
  unfolding good_def
proof
  assume i: "inv r"
  obtain s r' where o: "open_socket a jti resume fresh r = (s, r')" by (metis surj_pair)
  obtain tok c r1 where c: "s = length (sockets r)"
    "(tok = fresh \<and> c = length (chans r) \<and> r1 = r\<lparr>chans := chans r @ [new_outbox r]\<rparr>) \<or>
     (\<exists>p. truthy resume \<and> map_of (parked r) a = Some p \<and> so_token (sockets r ! p) = the resume \<and>
        tok = so_token (sockets r ! p) \<and> c = chan_of r p \<and> r1 = r\<lparr>parked := dict_pop a (parked r)\<rparr>)"
    "r' = (case map_of (live r) a of None \<Rightarrow> id | Some p \<Rightarrow> close_socket p)
       (r1\<lparr>sockets := sockets r @ [\<lparr>so_agent = a, so_token = tok, so_jti = jti, so_chan = c,
             so_closed = False, so_llm = []\<rparr>], live := dict_pop a (live r) @ [(a, s)]\<rparr>)"
    using o by (rule open_socket_cases)
  let ?x = "\<lparr>so_agent = a, so_token = tok, so_jti = jti, so_chan = c, so_closed = False, so_llm = []\<rparr>"
  let ?q = "r1\<lparr>sockets := sockets r1 @ [?x], live := dict_pop a (live r1) @ [(a, length (sockets r1))]\<rparr>"
  have s1: "sockets r1 = sockets r" "live r1 = live r" "rdb r1 = rdb r" "caller_cache r1 = caller_cache r"
    using c(2) by auto
  have reg: "reg_ok r" by (rule invD(5) [OF i])
  have "reg_ok (r\<lparr>chans := chans r @ [new_outbox r]\<rparr>)"
    using reg chans_ok_mono [of "socket_keys r" "length (chans r)" "Suc (length (chans r))"]
    by (simp add: reg_ok_def socket_keys_def)
  then have "reg_ok r1" using c(2) reg_ok_drop_parked [OF reg, of a] by auto
  moreover have "c < length (chans r1)" using c(2) reg_okD(3) [OF reg, of a] by auto
  moreover have "so_agent y = a" if y: "y \<in> set (sockets r1)" "so_chan y = c" for y
    using c(2)
  proof
    assume "tok = fresh \<and> c = length (chans r) \<and> r1 = r\<lparr>chans := chans r @ [new_outbox r]\<rparr>"
    moreover obtain k where "k < length (sockets r)" "y = sockets r ! k"
      using y(1) unfolding s1 in_set_conv_nth by blast
    moreover have "chans_ok (socket_keys r) (length (chans r))" using reg unfolding reg_ok_def by blast
    ultimately show ?thesis using y(2) chans_okD(1) [of r "length (chans r)" k] by (simp add: chan_of_def)
  next
    assume "\<exists>p. truthy resume \<and> map_of (parked r) a = Some p \<and> so_token (sockets r ! p) = the resume \<and>
        tok = so_token (sockets r ! p) \<and> c = chan_of r p \<and> r1 = r\<lparr>parked := dict_pop a (parked r)\<rparr>"
    then obtain p where p: "map_of (parked r) a = Some p" "c = chan_of r p" by blast
    obtain k where "k < length (sockets r)" "y = sockets r ! k" using y(1) unfolding s1 in_set_conv_nth by blast
    then show ?thesis
      using reg_ok_same_chan [OF reg, of k p] reg_okD(1,2) [OF reg, of a p] p y(2) by (simp add: chan_of_def)
  qed
  ultimately have "reg_ok ?q" by (intro reg_ok_attach) simp_all
  then have q: "reg_ok (r1\<lparr>sockets := sockets r @ [?x], live := dict_pop a (live r) @ [(a, s)]\<rparr>)"
    using s1 c(1) by simp
  let ?q = "r1\<lparr>sockets := sockets r @ [?x], live := dict_pop a (live r) @ [(a, s)]\<rparr>"
  have "set (chans r1) \<subseteq> insert (new_outbox r) (set (chans r))" using c(2) by auto
  then have "frames_ok ?q" using invD(4) [OF i] s1 by (force simp: frames_ok_def new_outbox_def)
  then have iq: "inv ?q" using i q s1 by (simp add: inv_def cache_ok_def)
  have "inv r' \<and> rdb r' = rdb r"
    using c(3) goodD(1) [OF good_close iq] iq s1 by (auto simp: close_socket_def split: option.splits)
  then show "inv (snd (open_socket a jti resume fresh r)) \<and> evolves (rdb r) (rdb (snd (open_socket a jti resume fresh r)))"
    using o by simp
qed

lemma detach_frame [simp]:
  "rdb (snd (detach a into expected r)) = rdb r" "chans (snd (detach a into expected r)) = chans r"
  "sockets (snd (detach a into expected r)) = sockets r" "caller_cache (snd (detach a into expected r)) = caller_cache r"
  "acks (snd (detach a into expected r)) = acks r"
  by (auto simp: detach_def split: option.split)

lemma good_finish_disconnect: "good r (snd (finish_disconnect s r))"
  unfolding good_def
proof
  assume i: "inv r"
  let ?r1 = "r\<lparr>acks := snd (ack_reject_ids (ch_infl (chans r ! chan_of r s)) (acks r))\<rparr>"
  have i1: "inv ?r1" by (rule goodD(1) [OF good_cong i]) simp_all
  have "inv (snd (detach (so_agent (the_socket ?r1 s)) True (Some s) ?r1))"
    using i1 reg_ok_detach [OF invD(5) [OF i1]] by (simp add: inv_def frames_ok_def cache_ok_def)
  then show "inv (snd (finish_disconnect s r)) \<and> evolves (rdb r) (rdb (snd (finish_disconnect s r)))"
    by (simp add: finish_disconnect_def Let_def)
qed

lemma good_on_disconnect: "(\<And>q. good q (env q)) \<Longrightarrow> good r (snd (on_disconnect env s r))"
  unfolding on_disconnect_def using good_trans [OF good_trans [OF good_begin_disconnect]] good_finish_disconnect by blast

lemma good_expiry: "good r (snd (resume_window_expiry s now r))"
proof -
  let ?a = "so_agent (the_socket r s)"
  have "good r (r\<lparr>parked := dict_pop ?a (parked r)\<rparr>)"
    using reg_ok_drop_parked by (auto simp: good_def inv_def frames_ok_def cache_ok_def)
  from good_trans [OF this good_fail_inflight] show ?thesis
    by (simp add: resume_window_expiry_def expire_resume_def Let_def)
qed

section \<open>What a new connection and a disconnect change\<close>

lemma close_socket_live [simp]: "live (close_socket s r) = live r" "parked (close_socket s r) = parked r"
  "chans (close_socket s r) = chans r" "rdb (close_socket s r) = rdb r"
  by (simp_all add: close_socket_def)

lemma sockets_close_socket:
  "so_agent (sockets (close_socket s r) ! k) = so_agent (sockets r ! k)"
  "so_chan (sockets (close_socket s r) ! k) = so_chan (sockets r ! k)"
  "so_token (sockets (close_socket s r) ! k) = so_token (sockets r ! k)"
  "length (sockets (close_socket s r)) = length (sockets r)"
  by (auto simp: close_socket_def upd_socket_def nth_list_update)

lemma open_socket_facts:
  assumes "open_socket a jti resume fresh r = (s, r')"
  shows "s = length (sockets r)" "length (sockets r') = Suc (length (sockets r))"
    "live_socket r' = (live_socket r)(a \<mapsto> s)" "so_agent (sockets r' ! s) = a"
    "k < length (sockets r) \<Longrightarrow> so_agent (sockets r' ! k) = so_agent (sockets r ! k) \<and>
       chan_of r' k = chan_of r k \<and> so_token (sockets r' ! k) = so_token (sockets r ! k)"
    "rdb r' = rdb r"
proof -
  obtain tok c r1 where c: "s = length (sockets r)"
    "(tok = fresh \<and> c = length (chans r) \<and> r1 = r\<lparr>chans := chans r @ [new_outbox r]\<rparr>) \<or>
     (\<exists>p. truthy resume \<and> map_of (parked r) a = Some p \<and> so_token (sockets r ! p) = the resume \<and>
        tok = so_token (sockets r ! p) \<and> c = chan_of r p \<and> r1 = r\<lparr>parked := dict_pop a (parked r)\<rparr>)"
    "r' = (case map_of (live r) a of None \<Rightarrow> id | Some p \<Rightarrow> close_socket p)
       (r1\<lparr>sockets := sockets r @ [\<lparr>so_agent = a, so_token = tok, so_jti = jti, so_chan = c,
             so_closed = False, so_llm = []\<rparr>], live := dict_pop a (live r) @ [(a, s)]\<rparr>)"
    using assms by (rule open_socket_cases)
  let ?q = "r1\<lparr>sockets := sockets r @ [\<lparr>so_agent = a, so_token = tok, so_jti = jti, so_chan = c,
             so_closed = False, so_llm = []\<rparr>], live := dict_pop a (live r) @ [(a, s)]\<rparr>"
  have r': "r' = ?q \<or> (\<exists>p. r' = close_socket p ?q)" using c(3) by (auto split: option.splits)
  show "s = length (sockets r)" by (rule c(1))
  show "length (sockets r') = Suc (length (sockets r))" using r' by (auto simp: sockets_close_socket)
  have "map_of (dict_pop a (live r) @ [(a, s)]) = (map_of (live r))(a \<mapsto> s)"
    by (auto simp: fun_eq_iff map_of_dict_pop map_add_def split: option.split)
  then show "live_socket r' = (live_socket r)(a \<mapsto> s)" using r' by (auto simp: live_socket_def fun_eq_iff)
  show "so_agent (sockets r' ! s) = a" using r' c(1) by (auto simp: sockets_close_socket)
  show "k < length (sockets r) \<Longrightarrow> so_agent (sockets r' ! k) = so_agent (sockets r ! k) \<and>
       chan_of r' k = chan_of r k \<and> so_token (sockets r' ! k) = so_token (sockets r ! k)"
    using r' by (auto simp: sockets_close_socket chan_of_def nth_append)
  show "rdb r' = rdb r" using r' c(2) by auto
qed

lemma begin_disconnect_facts:
  "live (begin_disconnect s r) = live r" "parked (begin_disconnect s r) = parked r"
  "chans (begin_disconnect s r) = chans r" "rdb (begin_disconnect s r) = rdb r"
  "length (sockets (begin_disconnect s r)) = length (sockets r)"
  "so_agent (sockets (begin_disconnect s r) ! k) = so_agent (sockets r ! k)"
  "so_token (sockets (begin_disconnect s r) ! k) = so_token (sockets r ! k)"
  "chan_of (begin_disconnect s r) k = chan_of r k"
  by (auto simp: begin_disconnect_def Let_def upd_socket_def close_socket_def chan_of_def nth_list_update)

lemma finish_disconnect_superseded:
  assumes "map_of (live r) (so_agent (sockets r ! s)) \<noteq> Some s"
  shows "fst (finish_disconnect s r) = None \<and> live (snd (finish_disconnect s r)) = live r \<and>
    parked (snd (finish_disconnect s r)) = parked r"
  using assms by (simp add: finish_disconnect_def detach_def the_socket_def Let_def)

lemma finish_disconnect_live:
  assumes "map_of (live r) a = Some s" "so_agent (sockets r ! s) = a"
  shows "fst (finish_disconnect s r) = Some s" "live (snd (finish_disconnect s r)) = dict_pop a (live r)"
    "parked (snd (finish_disconnect s r)) = dict_set a s (parked r)"
  using assms by (simp_all add: finish_disconnect_def detach_def the_socket_def Let_def)

lemma finish_disconnect_frame [simp]:
  "sockets (snd (finish_disconnect s r)) = sockets r" "chans (snd (finish_disconnect s r)) = chans r"
  "rdb (snd (finish_disconnect s r)) = rdb r"
  by (simp_all add: finish_disconnect_def Let_def)

section \<open>Properties\<close>

text \<open>
  The supersede race is harmless: when an agent reconnects while its old
  socket is still going down, the old socket's disconnect leaves the new one registered,
  parks nothing and empties no outbox.
\<close>

theorem superseded_disconnect_spares_new:
  assumes "inv r" "live_socket r a = Some old"
  shows "let (s, r1) = open_socket a jti resume fresh r; (p, r2) = on_disconnect id old r1
    in p = None \<and> live_socket r2 a = Some s \<and> s \<noteq> old \<and> parked r2 = parked r1 \<and> outbox r2 = outbox r1"
proof -
  obtain s r1 where o: "open_socket a jti resume fresh r = (s, r1)" by (metis surj_pair)
  let ?b = "begin_disconnect old r1"
  obtain p r2 where d: "finish_disconnect old ?b = (p, r2)" by (metis surj_pair)
  note f = open_socket_facts [OF o]
  have old: "old < length (sockets r)" "so_agent (sockets r ! old) = a"
    using reg_okD(1,2) [OF invD(5) [OF assms(1)], of a old] assms(2) by (auto simp: live_socket_def)
  have ag: "so_agent (sockets ?b ! old) = a" using f(5) [OF old(1)] old(2) by (simp add: begin_disconnect_facts)
  have ls: "map_of (live ?b) a = Some s"
    using fun_cong [OF f(3), of a] by (simp add: begin_disconnect_facts live_socket_def)
  have ne: "s \<noteq> old" using f(1) old(1) by simp
  have "fst (finish_disconnect old ?b) = None \<and> live (snd (finish_disconnect old ?b)) = live ?b \<and>
      parked (snd (finish_disconnect old ?b)) = parked ?b"
    by (rule finish_disconnect_superseded) (use ag ls ne in simp)
  then have r2: "p = None" "live r2 = live r1" "parked r2 = parked r1" using d by (simp_all add: begin_disconnect_facts)
  moreover have "chans r2 = chans r1" "chan_of r2 k = chan_of r1 k" for k
    using finish_disconnect_frame(1,2) [of old ?b] d
    by (simp_all add: begin_disconnect_facts chan_of_def) (metis begin_disconnect_facts(8) chan_of_def)
  ultimately have "outbox r2 = outbox r1"
    by (auto simp: outbox_def live_socket_def fun_eq_iff split: option.split)
  moreover have "live_socket r2 a = Some s"
    using fun_cong [OF f(3), of a] r2(2) by (simp add: live_socket_def)
  ultimately show ?thesis using o d r2 ne by (simp add: on_disconnect_def)
qed

theorem superseded_disconnect_spares_new_witness:
  "let (s, r1) = open_socket ''b'' ''j9'' None ''k9'' demo_router; (p, r2) = on_disconnect id 1 r1
    in p = None \<and> live_socket r2 ''b'' = Some s \<and> s \<noteq> 1 \<and> parked r2 = parked r1 \<and> outbox r2 = outbox r1"
  by (rule superseded_disconnect_spares_new [OF demo_inv]) (simp add: demo_defs live_socket_def)

lemma disconnect_parks:
  assumes "inv r" "live_socket r a = Some s"
  shows "let r1 = snd (on_disconnect id s r)
    in inv r1 \<and> map_of (parked r1) a = Some s \<and> live_socket r1 = (live_socket r)(a := None) \<and>
      chans r1 = chans r \<and> s < length (sockets r1) \<and> so_agent (sockets r1 ! s) = a \<and> chan_of r1 s = chan_of r s \<and>
      so_token (sockets r1 ! s) = so_token (sockets r ! s) \<and> rdb r1 = rdb r"
proof -
  let ?b = "begin_disconnect s r"
  have s: "s < length (sockets r)" "so_agent (sockets r ! s) = a" "map_of (live r) a = Some s"
    using reg_okD(1,2) [OF invD(5) [OF assms(1)], of a s] assms(2) by (auto simp: live_socket_def)
  have fl: "fst (finish_disconnect s ?b) = Some s" "live (snd (finish_disconnect s ?b)) = dict_pop a (live r)"
    "parked (snd (finish_disconnect s ?b)) = dict_set a s (parked r)"
    using finish_disconnect_live [of ?b a s] s by (simp_all add: begin_disconnect_facts)
  have "inv (snd (on_disconnect id s r))"
    by (rule goodD(1) [OF good_on_disconnect assms(1)]) simp
  then show ?thesis using fl s begin_disconnect_facts(5,6,7,8) [of s r]
    by (simp add: on_disconnect_def Let_def live_socket_def map_of_dict_set map_of_dict_pop fun_eq_iff
        begin_disconnect_facts chan_of_def)
qed

text \<open>
  Property C17.  A reconnect within the resume window picks up where the old socket left
  off: with the session token the agent was given it gets the frames that were still in its
  outbox, and the window's expiry then fails nothing.
\<close>

theorem resume_keeps_outbox:
  assumes "inv r" "live_socket r a = Some s" "so_token (sockets r ! s) \<noteq> []"
  shows "let r1 = snd (on_disconnect id s r);
             (s2, r2) = open_socket a jti (Some (so_token (sockets r ! s))) fresh r1
    in live_socket r1 a = None \<and> live_socket r2 a = Some s2 \<and> outbox r2 a = outbox r a \<and>
       resume_window_expiry s now r2 = (0, r2)"
proof -
  let ?r1 = "snd (on_disconnect id s r)"
  let ?tok = "so_token (sockets r ! s)"
  note d = disconnect_parks [OF assms(1,2), unfolded Let_def]
  obtain s2 r2 where o: "open_socket a jti (Some ?tok) fresh ?r1 = (s2, r2)" by (metis surj_pair)
  have "consume_resume a ?tok ?r1 = (Some s, ?r1\<lparr>parked := dict_pop a (parked ?r1)\<rparr>)"
    using d by (simp add: consume_resume_def the_socket_def)
  then have r2: "r2 = ?r1\<lparr>parked := dict_pop a (parked ?r1), sockets := sockets ?r1 @ [\<lparr>so_agent = a, so_token = ?tok,
      so_jti = jti, so_chan = chan_of r s, so_closed = False, so_llm = []\<rparr>],
      live := dict_pop a (live ?r1) @ [(a, s2)]\<rparr>"
    and s2: "s2 = length (sockets ?r1)"
  proof -
    have m: "map_of (live ?r1) a = None" using fun_cong [OF conjunct1 [OF conjunct2 [OF conjunct2 [OF d]]], of a]
      by (simp add: live_socket_def)
    show s2: "s2 = length (sockets ?r1)" using open_socket_facts(1) [OF o] .
    show "r2 = ?r1\<lparr>parked := dict_pop a (parked ?r1), sockets := sockets ?r1 @ [\<lparr>so_agent = a, so_token = ?tok,
        so_jti = jti, so_chan = chan_of r s, so_closed = False, so_llm = []\<rparr>],
        live := dict_pop a (live ?r1) @ [(a, s2)]\<rparr>"
      using o m assms(3) d \<open>consume_resume a ?tok ?r1 = _\<close> unfolding s2
      by (auto simp: open_socket_def attach_def Let_def truthy_def the_socket_def chan_of_def)
  qed
  have l2: "live_socket r2 a = Some s2" using open_socket_facts(3) [OF o] by simp
  have "chan_of r2 s2 = chan_of r s" using r2 s2 by (simp add: chan_of_def)
  then have "outbox r2 a = outbox r a" using l2 r2 d assms(2) by (simp add: outbox_def)
  moreover have "resume_window_expiry s now r2 = (0, r2)"
  proof -
    have "so_agent (the_socket r2 s) = a" using r2 d by (simp add: the_socket_def nth_append)
    then show ?thesis using r2 by (simp add: resume_window_expiry_def expire_resume_def map_of_dict_pop Let_def)
  qed
  ultimately show ?thesis using o l2 d by simp
qed

theorem resume_keeps_outbox_witness:
  "let r1 = snd (on_disconnect id 1 demo_router);
       (s2, r2) = open_socket ''b'' ''j9'' (Some (so_token (sockets demo_router ! 1))) ''k9'' r1
   in live_socket r1 ''b'' = None \<and> live_socket r2 ''b'' = Some s2 \<and> outbox r2 ''b'' = outbox demo_router ''b'' \<and>
      resume_window_expiry 1 99 r2 = (0, r2)"
  by (rule resume_keeps_outbox [OF demo_inv]) (simp_all add: demo_defs live_socket_def)

text \<open>
  A reconnect without the token does not stop the window: it leaves the parked
  entry in place, so that its expiry fails the agent's tasks although the agent is connected.
\<close>

theorem fresh_reconnect_still_expires:
  assumes "inv r" "live_socket r a = Some s" "find_task (rdb r) k = Some t" "t_agent t = a"
  shows "let r1 = snd (on_disconnect id s r); (s2, r2) = open_socket a jti None fresh r1;
             r3 = snd (resume_window_expiry s now r2)
    in live_socket r2 a = Some s2 \<and> (\<exists>t'. find_task (rdb r3) k = Some t' \<and> is_terminal (t_state t'))"
proof -
  let ?r1 = "snd (on_disconnect id s r)"
  note d = disconnect_parks [OF assms(1,2), unfolded Let_def]
  obtain s2 r2 where o: "open_socket a jti None fresh ?r1 = (s2, r2)" by (metis surj_pair)
  note f = open_socket_facts [OF o]
  have "parked r2 = parked ?r1"
    using o by (auto simp: open_socket_def attach_def Let_def truthy_def split: option.splits)
  then have pk: "map_of (parked r2) a = Some s" using d by simp
  have ag: "so_agent (the_socket r2 s) = a" using f(5) [of s] d by (simp add: the_socket_def)
  let ?q = "r2\<lparr>parked := dict_pop a (parked r2)\<rparr>"
  have "inv r2" using goodD(1) [OF good_open_socket, of ?r1 a jti None fresh] d o by simp
  then have iq: "inv ?q" using reg_ok_drop_parked [OF invD(5)] by (auto simp: inv_def frames_ok_def cache_ok_def)
  have "find_task (rdb ?q) k = Some t" using f(6) d assms(3) by simp
  from fail_inflight_ends [OF iq this assms(4)] pk ag o f(3) show ?thesis
    by (simp add: resume_window_expiry_def expire_resume_def Let_def)
qed

text \<open>The demo router with its task assigned to \<open>b\<close>.\<close>

definition owner_router :: "unit router" where
  "owner_router = demo_router\<lparr>rdb := (rdb demo_router)\<lparr>tasks := [demo_task\<lparr>t_agent := ''b''\<rparr>]\<rparr>\<rparr>"

lemma owner_find [simp]:
  "find_task (rdb owner_router) tid = (if tid = ''t1'' then Some (demo_task\<lparr>t_agent := ''b''\<rparr>) else None)"
  by (simp add: owner_router_def demo_defs find_task_def tbl_get_def)

lemma owner_inv: "inv owner_router"
proof -
  have "cache_ok owner_router"
    by (auto simp: cache_ok_def lru.coherent_def lru_ok_def task_agents_def lru_peek_def)
      (auto simp: owner_router_def demo_defs lru_peek_def split: if_splits)
  moreover have "frames_ok owner_router" "reg_ok owner_router"
    by (auto simp: frames_ok_def reg_ok_def socket_keys_def chans_ok_def owner_router_def demo_defs)
  ultimately show ?thesis
    by (simp add: inv_def) (simp add: db_ok_def tbl_ok_def idem_unique_def tree_ok_def owner_router_def demo_defs)
qed

theorem fresh_reconnect_still_expires_witness:
  "let r1 = snd (on_disconnect id 1 owner_router); (s2, r2) = open_socket ''b'' ''j9'' None ''k9'' r1;
       r3 = snd (resume_window_expiry 1 99 r2)
   in live_socket r2 ''b'' = Some s2 \<and> (\<exists>t'. find_task (rdb r3) ''t1'' = Some t' \<and> is_terminal (t_state t'))"
  by (rule fresh_reconnect_still_expires [OF owner_inv, where t = "demo_task\<lparr>t_agent := ''b''\<rparr>"])
    (simp_all, simp_all add: owner_router_def demo_defs live_socket_def)

definition missed :: "beat \<Rightarrow> bool" where
  "missed b \<longleftrightarrow> b = OutboxFull \<or> b = PongLost"

lemma ex_nat_Suc: "(\<exists>i. P i) \<longleftrightarrow> P 0 \<or> (\<exists>i. P (Suc i))"
  by (metis not0_implies_Suc)

lemma heartbeat_loop_closes:
  "m < MAX_MISSES \<Longrightarrow> (\<exists>why. heartbeat_loop m bs = Closed why) \<longleftrightarrow>
     (m = 1 \<and> bs \<noteq> [] \<and> missed (hd bs)) \<or> (\<exists>i. Suc i < length bs \<and> missed (bs ! i) \<and> missed (bs ! Suc i))"
proof (induction bs arbitrary: m)
  case (Cons b bs)
  have split: "(\<exists>i. Suc i < length (b # bs) \<and> missed ((b # bs) ! i) \<and> missed ((b # bs) ! Suc i)) \<longleftrightarrow>
      (bs \<noteq> [] \<and> missed b \<and> missed (hd bs)) \<or> (\<exists>i. Suc i < length bs \<and> missed (bs ! i) \<and> missed (bs ! Suc i))"
    by (subst ex_nat_Suc) (auto simp: hd_conv_nth)
  have m: "m = 0 \<or> m = 1" using Cons.prems by (auto simp: MAX_MISSES_def)
  show ?case unfolding split
    using m Cons.IH [of 0] Cons.IH [of 1] by (cases b) (auto simp: MAX_MISSES_def missed_def)
qed simp

text \<open>
  The heartbeat closes a socket exactly when two intervals in a row pass with
  neither traffic nor an answered Ping.
\<close>

theorem heartbeat_closes_iff:
  "(\<exists>why. heartbeat_loop 0 bs = Closed why) \<longleftrightarrow>
   (\<exists>i. Suc i < length bs \<and> missed (bs ! i) \<and> missed (bs ! Suc i))"
  using heartbeat_loop_closes [of 0 bs] by (simp add: MAX_MISSES_def)

end
