(* ===== verification/Levels.thy ===== *)
theory Levels
  imports TaskFacts
begin

text \<open>
  The user-level cache of \<open>bp_router/llm/service.py\<close> (\<open>resolve_user_level\<close>,
  \<open>peek_user_level_cached\<close>, \<open>invalidate_user_level\<close>) and \<open>tasks._session_level\<close>,
  which the admission path reads a user's level through.
\<close>

definition USER_LEVEL_TTL_S :: rat where
  "USER_LEVEL_TTL_S = 60"

definition USER_LEVEL_CACHE_MAX :: nat where
  "USER_LEVEL_CACHE_MAX = 5000"

definition peek_user_level_cached :: "user_id \<Rightarrow> time \<Rightarrow> 'r router \<Rightarrow> level option" where
  "peek_user_level_cached uid now r =
     (if uid = [] then None
      else case lru_peek (level_cache r) uid of
             None \<Rightarrow> None
           | Some (lvl, expires) \<Rightarrow> if expires \<le> now then None else Some lvl)"

definition resolve_user_level :: "user_id \<Rightarrow> time \<Rightarrow> 'r router \<Rightarrow> level option \<times> 'r router" where
  "resolve_user_level uid now r =
     (if uid = [] then (None, r)
      else case peek_user_level_cached uid now r of
             Some lvl \<Rightarrow> (Some lvl, r\<lparr>level_cache := lru_touch uid (level_cache r)\<rparr>)
           | None \<Rightarrow>
               (case get_user_by_id uid (rdb r) of
                  None \<Rightarrow> (None, r)
                | Some u \<Rightarrow>
                    if u_suspended u \<noteq> None \<or> u_deleted u \<noteq> None then (None, r)
                    else (Some (u_level u),
                          r\<lparr>level_cache := lru_set uid (u_level u, now + USER_LEVEL_TTL_S) (level_cache r)\<rparr>)))"

definition invalidate_user_level :: "user_id \<Rightarrow> 'r router \<Rightarrow> 'r router" where
  "invalidate_user_level uid r = r\<lparr>level_cache := lru_drop uid (level_cache r)\<rparr>"

definition session_level :: "user_id \<Rightarrow> time \<Rightarrow> 'r router \<Rightarrow> level option \<times> 'r router" where
  "session_level uid now r =
     (if uid = [] then (None, r)
      else case peek_user_level_cached uid now r of
             Some lvl \<Rightarrow> (Some lvl, r)
           | None \<Rightarrow> resolve_user_level uid now r)"

text \<open>What a cached level was at most \<open>USER_LEVEL_TTL_S\<close> ago, or is now.\<close>

lemma session_level_cases:
  assumes "session_level uid now r = (Some lvl, r')"
  shows "uid \<noteq> [] \<and>
    ((\<exists>e. lru_peek (level_cache r) uid = Some (lvl, e) \<and> now < e \<and> r' = r) \<or>
     (\<exists>u. get_user_by_id uid (rdb r) = Some u \<and> user_is_active (Some u) \<and> lvl = u_level u))"
  using assms
  by (auto simp: session_level_def resolve_user_level_def peek_user_level_cached_def user_is_active_def
      split: if_splits option.splits)

lemma session_level_frame:
  "rdb (snd (session_level uid now r)) = rdb r" "caller_cache (snd (session_level uid now r)) = caller_cache r"
  "chans (snd (session_level uid now r)) = chans r" "live (snd (session_level uid now r)) = live r"
  "sockets (snd (session_level uid now r)) = sockets r" "parked (snd (session_level uid now r)) = parked r" "rrules (snd (session_level uid now r)) = rrules r"
  "rsettings (snd (session_level uid now r)) = rsettings r" "acks (snd (session_level uid now r)) = acks r"
  "admit_quota (snd (session_level uid now r)) = admit_quota r"
  by (auto simp: session_level_def resolve_user_level_def split: option.split)

lemma good_session_level: "good r (snd (session_level uid now r))"
  by (rule good_cong) (simp_all add: session_level_frame)

text \<open>
  A user who is suspended or deleted is refused as soon as the cached level
  is invalidated: the level is then read from the row, and a missing, suspended or deleted
  user has none.
\<close>

theorem invalidated_level_is_fresh:
  "fst (session_level uid now (invalidate_user_level uid r)) =
   (if uid \<noteq> [] \<and> user_is_active (get_user_by_id uid (rdb r))
    then map_option u_level (get_user_by_id uid (rdb r)) else None)"
  by (auto simp: session_level_def resolve_user_level_def peek_user_level_cached_def
      invalidate_user_level_def lru_peek_def lru_drop_def map_of_dict_pop user_is_active_def split: option.split)

end
