(* ===== verification/Admission.thy ===== *)
theory Admission
  imports Levels TaskProps "HOL-Library.List_Lexorder" "HOL-Library.Char_ord"
begin

text \<open>
  \<open>tasks.admit_task\<close>: validation, ACL, quota, insert, dispatch and acknowledgement of a
  new task.  Every transaction and every other \<open>await\<close> of the code is a step; between
  two steps the rest of the router runs.  A schedule gives what runs there (\<open>sc_env i\<close>
  before step \<open>i\<close>, an arbitrary change of the state) and what the clock reads.
\<close>

text \<open>
  What failing a task runs into: nothing, a \<open>fail_task\<close> that raises before its transition
  commits (pool exhausted), or a database where the fallback raises as well.
\<close>

datatype db_health = DbUp | FailTaskRaises | DbDown

record 'r schedule =
  sc_env :: "nat \<Rightarrow> 'r router \<Rightarrow> 'r router"
  sc_clock :: "nat \<Rightarrow> time"
  sc_health :: db_health

text \<open>
  How an admission ends: an \<open>AdmitResult\<close>, an \<open>AdmitError\<close>, any other exception, or not
  yet, its ack future being still open.
\<close>

datatype admit_outcome =
    Admitted task_id "result_frame option"
  | Refused string string "rat option"
  | Crashed string
  | StillWaiting

section \<open>Steps that may stop\<close>

type_synonym ('r, 'a) step = "'r router \<Rightarrow> (admit_outcome + 'a) \<times> 'r router"

definition bindS :: "('r, 'a) step \<Rightarrow> ('a \<Rightarrow> ('r, 'b) step) \<Rightarrow> ('r, 'b) step" where
  "bindS m f r = (case m r of (Inl out, r') \<Rightarrow> (Inl out, r') | (Inr a, r') \<Rightarrow> f a r')"

definition retS :: "'a \<Rightarrow> ('r, 'a) step" where
  "retS a r = (Inr a, r)"

definition refuse :: "string \<Rightarrow> string \<Rightarrow> admit_outcome" where
  "refuse c m = Refused c m None"

definition yieldS :: "'r schedule \<Rightarrow> nat \<Rightarrow> ('r, unit) step" where
  "yieldS s i r = (Inr (), sc_env s i r)"

section \<open>The checks before the insert\<close>

definition safe_rehydrate_output :: "json option \<Rightarrow> agent_output option" where
  "safe_rehydrate_output stored = (case stored of None \<Rightarrow> None | Some j \<Rightarrow> parse_output j)"

definition idempotent_admit_result :: "task_row \<Rightarrow> admit_outcome" where
  "idempotent_admit_result t =
     (case status_from_state (t_state t) of
        None \<Rightarrow> Admitted (t_id t) None
      | Some st \<Rightarrow> Admitted (t_id t) (Some
          \<lparr>rf_agent = t_agent t, rf_task = t_id t, rf_parent = t_parent t, rf_status = st,
           rf_code = (case t_status_code t of None \<Rightarrow> DEFAULT_TERMINAL_STATUS_CODE st | Some c \<Rightarrow> c),
           rf_output = safe_rehydrate_output (t_output t), rf_error = t_error t\<rparr>))"

definition lookup_idempotent :: "new_task_frame \<Rightarrow> agent_id \<Rightarrow> ('r, unit) step" where
  "lookup_idempotent f caller r =
     ((if truthy (nf_idem f)
       then (case find_idempotent (nf_user f) (the (nf_idem f)) caller (rdb r) of
               None \<Rightarrow> Inr () | Some t \<Rightarrow> Inl (idempotent_admit_result t))
       else Inr ()), r)"

definition lookup_agents :: "agent_id \<Rightarrow> agent_id \<Rightarrow> ('r, agent_row \<times> agent_row) step" where
  "lookup_agents caller dest r =
     ((case (get_agent caller (rdb r), get_agent dest (rdb r)) of
         (None, _) \<Rightarrow> Inl (refuse ''agent_not_found'' (''caller '' @ [CHR 0x27] @ caller @ [CHR 0x27] @ '' unknown''))
       | (Some c, None) \<Rightarrow> Inl (refuse ''agent_not_found'' (''destination '' @ [CHR 0x27] @ dest @ [CHR 0x27] @ '' unknown''))
       | (Some c, Some d) \<Rightarrow>
           if a_status d \<noteq> ''active''
           then Inl (refuse ''agent_not_found'' (''destination '' @ [CHR 0x27] @ dest @ [CHR 0x27] @ '' not active''))
           else Inr (c, d)), r)"

fun json_truthy :: "json \<Rightarrow> bool" where
  "json_truthy JNull = False"
| "json_truthy (JBool b) = b"
| "json_truthy (JInt i) = (i \<noteq> 0)"
| "json_truthy (JStr s) = (s \<noteq> [])"
| "json_truthy (JArr js) = (js \<noteq> [])"
| "json_truthy (JObj kvs) = (kvs \<noteq> [])"

text \<open>The schema of the requested mode: the refusal, or the schema if there is one.\<close>

definition select_schema :: "json \<Rightarrow> string option \<Rightarrow> admit_outcome + json option" where
  "select_schema info mode =
     (case json_get info ''accepts_schema'' of
        Some (JObj (kv # kvs)) \<Rightarrow>
          let schemas = kv # kvs; names = py_repr_list (sort (map fst schemas))
          in (case mode of
                None \<Rightarrow> if kvs = [] then Inr (Some (snd kv))
                        else Inl (refuse ''schema_mismatch'' (''destination exposes multiple modes ('' @ names @
                          ''); NewTaskFrame.input_mode is required''))
              | Some m \<Rightarrow>
                  (case map_of schemas m of
                     None \<Rightarrow> Inl (refuse ''schema_mismatch'' (''unknown input_mode '' @ py_repr m @
                       ''; destination modes: '' @ names))
                   | Some sch \<Rightarrow> Inr (Some sch)))
      | _ \<Rightarrow> Inr None)"

definition check_schema :: "(json \<Rightarrow> json \<Rightarrow> validation) \<Rightarrow> agent_row \<Rightarrow> new_task_frame \<Rightarrow> ('r, unit) step" where
  "check_schema validate callee f r =
     ((case select_schema (a_info callee) (nf_mode f) of
         Inl out \<Rightarrow> Inl out
       | Inr None \<Rightarrow> Inr ()
       | Inr (Some sch) \<Rightarrow>
           if \<not> json_truthy sch then Inr ()
           else (case validate (nf_payload f) sch of
                   Valid \<Rightarrow> Inr ()
                 | ValidationErr m \<Rightarrow> Inl (refuse ''schema_mismatch''
                     (''payload does not match destination'' @ [CHR 0x27] @ ''s accepts_schema['' @
                      py_repr_opt (nf_mode f) @ '']: '' @ m))
                 | SchemaErr m \<Rightarrow> Inl (refuse ''internal_error''
                     (''destination'' @ [CHR 0x27] @ ''s accepts_schema['' @
                      py_repr_opt (nf_mode f) @ ''] is invalid: '' @ m)))), r)"

definition check_level :: "user_id \<Rightarrow> time \<Rightarrow> ('r, level) step" where
  "check_level uid now r =
     (case session_level uid now r of
        (None, r') \<Rightarrow> (Inl (refuse ''user_unknown''
           (''user '' @ [CHR 0x27] @ uid @ [CHR 0x27] @ '' is unknown or suspended'')), r')
      | (Some lvl, r') \<Rightarrow> (Inr lvl, r'))"

definition check_session :: "user_id \<Rightarrow> session_id \<Rightarrow> string \<Rightarrow> ('r, unit) step" where
  "check_session uid sid closed_msg r =
     ((case get_session uid sid (rdb r) of
         None \<Rightarrow> Inl (refuse ''session_unknown'' (''session '' @ [CHR 0x27] @ sid @ [CHR 0x27] @
           '' not found or does not belong to user '' @ [CHR 0x27] @ uid @ [CHR 0x27]))
       | Some s \<Rightarrow> if s_closed s \<noteq> None
                  then Inl (refuse ''session_closed'' (''session '' @ [CHR 0x27] @ sid @ [CHR 0x27] @ closed_msg))
                  else Inr ()), r)"

definition view_of_agent :: "agent_row \<Rightarrow> agent_view" where
  "view_of_agent a = \<lparr>view_id = a_id a, view_groups = a_groups a, view_caps = a_caps a\<rparr>"

definition check_acl :: "string \<Rightarrow> agent_row \<Rightarrow> agent_row \<Rightarrow> agent_id \<Rightarrow> agent_id \<Rightarrow> level \<Rightarrow> ('r, unit) step" where
  "check_acl verb caller callee caller_id dest lvl r =
     (let (d, (kind, eff, label)) = is_allowed_for (rrules r) (view_of_agent caller) (view_of_agent callee) (Some lvl);
          r' = count_metric (''acl_'' @ kind @ ''_'' @ eff) label r
      in if allow d then (Inr (), r')
         else (Inl (refuse ''acl_denied'' (''caller '' @ [CHR 0x27] @ caller_id @ [CHR 0x27] @ '' may not '' @ verb @
                '' '' @ [CHR 0x27] @ dest @ [CHR 0x27] @ '' (rule='' @ decision_rule d @ '')'')), r'))"

text \<open>\<open>f"{x:.2f}"\<close> of a non-negative number (exact half cents round up).\<close>

definition show_fixed2 :: "rat \<Rightarrow> string" where
  "show_fixed2 x = (let c = \<lfloor>x * 100 + 1 / 2\<rfloor>
     in show_int (c div 100) @ ''.'' @ [digit_char (nat (c mod 100 div 10)), digit_char (nat (c mod 10))])"

definition check_quota :: "'r redis_eval \<Rightarrow> user_id \<Rightarrow> level \<Rightarrow> time \<Rightarrow> ('r, unit) step" where
  "check_quota ev uid lvl now r =
     (case (quota_admit_rate_per_s (rsettings r) lvl, quota_admit_burst (rsettings r) lvl) of
        (Some rate, Some burst) \<Rightarrow>
          let (d, q) = try_consume ev (uid @ '':'' @ lvl) rate burst 1 now (admit_quota r);
              r1 = r\<lparr>admit_quota := q\<rparr>
          in if rl_allowed d then (Inr (), r1)
             else (Inl (Refused ''quota_exceeded'' (''per-user admit rate exceeded (level='' @ lvl @
                     '', retry after '' @ show_fixed2 (retry_after_s d) @ ''s)'') (Some (retry_after_s d))),
                   count_metric ''quota_exceeded_total'' lvl r1)
      | _ \<Rightarrow> (Inr (), r))"

definition check_depth :: "task_id option \<Rightarrow> user_id \<Rightarrow> ('r, unit) step" where
  "check_depth parent uid r =
     ((case parent of
         None \<Rightarrow> Inr ()
       | Some p \<Rightarrow>
           let depth = count_task_chain_depth p uid (rdb r); m = spawn_max_depth (rsettings r)
           in if depth \<ge> m
              then Inl (refuse ''spawn_depth_exceeded'' (''spawn would exceed max depth ('' @ show_nat (depth + 1) @
                '' > '' @ show_nat m @ ''); agents may have entered a recursion cycle''))
              else Inr ()), r)"

section \<open>The insert\<close>

text \<open>
  One transaction: the session is read again under its row lock, then the task and its
  first event are inserted.  A unique violation on the idempotency key is answered from
  the row that won.
\<close>

definition insert_new_task :: "new_task_frame \<Rightarrow> agent_id \<Rightarrow> task_id \<Rightarrow> time \<Rightarrow> ('r, task_row) step" where
  "insert_new_task f caller new_id now r =
     (let deadline = (case nf_deadline f of Some dl \<Rightarrow> dl | None \<Rightarrow> now + default_task_deadline_s (rsettings r))
      in (case create_task (nf_user f) new_id (nf_session f) (nf_dest f) caller (nf_parent f) (nf_priority f)
                (Some deadline) (nf_idem f) (nf_payload f) None now (rdb r) of
            Inl (CrossUserTaskAccess p) \<Rightarrow>
              (Inl (refuse ''invalid_parent_task'' (''parent_task_id '' @ py_repr p @ '' not found in caller'' @
                 [CHR 0x27] @ ''s tree'')), r)
          | Inl (UniqueViolation c) \<Rightarrow>
              if c \<noteq> ''tasks_idempotency_unique'' then (Inl (Crashed ''UniqueViolationError''), r)
              else (case find_idempotent (nf_user f) (the (nf_idem f)) caller (rdb r) of
                      None \<Rightarrow> (Inl (Crashed ''UniqueViolationError''), r)
                    | Some t \<Rightarrow> (Inl (idempotent_admit_result t), r))
          | Inl e \<Rightarrow> (Inl (Crashed ''database''), r)
          | Inr (row, d) \<Rightarrow>
              (case insert_task_event (nf_user f) (t_id row) ''admitted'' (Some caller) None None
                      [(''caller'', JStr caller)] now d of
                 Inl e \<Rightarrow> (Inl (Crashed ''CrossUserTaskAccess''), r)
               | Inr (_, d') \<Rightarrow> (Inr row, r\<lparr>rdb := d'\<rparr>))))"

definition persist_task :: "new_task_frame \<Rightarrow> agent_id \<Rightarrow> task_id \<Rightarrow> time \<Rightarrow> ('r, task_row) step" where
  "persist_task f caller new_id now =
     bindS (check_session (nf_user f) (nf_session f) '' was closed between pre-flight and admit; open a new session'')
       (\<lambda>_. insert_new_task f caller new_id now)"

section \<open>Dispatch and acknowledgement\<close>

definition delivery_frame :: "new_task_frame \<Rightarrow> task_row \<Rightarrow> level \<Rightarrow> new_task_frame" where
  "delivery_frame f row lvl =
     \<lparr>nf_agent = ''router'', nf_task = Some (t_id row), nf_parent = t_parent row, nf_dest = nf_dest f,
      nf_user = nf_user f, nf_level = lvl, nf_session = nf_session f, nf_priority = nf_priority f,
      nf_deadline = t_deadline row, nf_idem = None, nf_mode = nf_mode f, nf_payload = nf_payload f,
      nf_delegator = None\<rparr>"

text \<open>\<open>_safe_fail\<close>: the failure transition, or the single-statement fallback when it raises;
  an exception of either is logged and swallowed.\<close>

definition safe_fail :: "db_health \<Rightarrow> task_id \<Rightarrow> user_id \<Rightarrow> int \<Rightarrow> string \<Rightarrow> json \<Rightarrow> time \<Rightarrow> 'r router \<Rightarrow> 'r router" where
  "safe_fail health tid uid sc reason er now r =
     (case health of
        DbUp \<Rightarrow> fail_task tid (Some uid) sc reason (Some er) None FAILED now r
      | FailTaskRaises \<Rightarrow> r\<lparr>rdb := snd (force_fail_task uid tid sc (Some er) now (rdb r))\<rparr>
      | DbDown \<Rightarrow> r)"

definition error_code :: "string \<Rightarrow> json" where
  "error_code c = JObj [(''code'', JStr c)]"

text \<open>The rest of \<open>deliver_frame\<close> and the handling of what the ack future gave.\<close>

definition finish_dispatch ::
  "'r schedule \<Rightarrow> new_task_frame \<Rightarrow> task_row \<Rightarrow> nat \<Rightarrow> nat \<Rightarrow> corr_id \<Rightarrow> ('r, unit) step" where
  "finish_dispatch s f row c fut cid r =
     (let now = sc_clock s 9; (v, r1) = deliver_finish c fut cid r;
          fail = (\<lambda>sc reason er. safe_fail (sc_health s) (t_id row) (nf_user f) sc reason er now r1)
      in (case v of
            Unset \<Rightarrow> (Inl StillWaiting, r)
          | Raised (TimeoutError m) \<Rightarrow>
              (Inl (refuse ''ack_timeout'' ''destination agent did not ack in time''),
               fail 504 ''ack_timeout'' (error_code ''ack_timeout''))
          | Raised e \<Rightarrow> (Inl (Crashed ''ack future''), r1)
          | Cancelled \<Rightarrow> (Inl (Crashed ''cancelled''), r1)
          | Result (AckF a) \<Rightarrow>
              if ak_accepted a then (Inr (), r1)
              else let reason = take 240 (py_or (ak_reason a) ''rejected'')
                   in (Inl (refuse ''rejected'' (py_or (Some reason) ''destination rejected the task'')),
                       fail 400 reason (JObj [(''code'', JStr ''rejected''), (''reason'', JStr reason)]))
          | Result _ \<Rightarrow> (Inl (Crashed ''AttributeError''), r1)))"

definition dispatch_task ::
  "'r schedule \<Rightarrow> new_task_frame \<Rightarrow> task_row \<Rightarrow> level \<Rightarrow> corr_id \<Rightarrow> ('r, unit) step" where
  "dispatch_task s f row lvl cid r =
     (case deliver_frame (nf_dest f) (NewTaskF cid (delivery_frame f row lvl)) (Some cid)
             (Some (pending_ack_timeout_s (rsettings r))) (sc_clock s 8) r of
        (NotConnected, r1) \<Rightarrow>
          (Inl (refuse ''agent_disconnected'' ''destination agent has no live socket''),
           safe_fail (sc_health s) (t_id row) (nf_user f) 503 ''agent_disconnected''
             (error_code ''agent_disconnected'') (sc_clock s 8) r1)
      | (QueueFull, r1) \<Rightarrow> (Inl (Crashed ''QueueFull''), r1)
      | (Queued, r1) \<Rightarrow> (Inr (), r1)
      | (Awaiting c fut, r1) \<Rightarrow> bindS (yieldS s 9) (\<lambda>_. finish_dispatch s f row c fut cid) r1)"

definition mark_running :: "task_row \<Rightarrow> agent_id \<Rightarrow> time \<Rightarrow> ('r, unit) step" where
  "mark_running row dest now r =
     (case task_transition (t_id row) RUNNING ''agent_accepted'' (Some dest) [] None None None now (rdb r) of
        Inl e \<Rightarrow> (Inr (), r)
      | Inr (_, d) \<Rightarrow> (Inr (), r\<lparr>rdb := d\<rparr>))"

definition cache_step :: "task_row \<Rightarrow> agent_id \<Rightarrow> agent_id \<Rightarrow> ('r, unit) step" where
  "cache_step row caller dest r = (Inr (), cache_caller_agent (t_id row) caller dest r)"

section \<open>The admission of a new task\<close>

definition pre_checks :: "'r deps \<Rightarrow> 'r schedule \<Rightarrow> new_task_frame \<Rightarrow> agent_id \<Rightarrow> ('r, level) step" where
  "pre_checks dp s f caller =
     bindS (lookup_idempotent f caller) (\<lambda>_.
     bindS (yieldS s 1) (\<lambda>_.
     bindS (lookup_agents caller (nf_dest f)) (\<lambda>(ca, de).
     bindS (check_schema (dep_validate dp) de f) (\<lambda>_.
     bindS (yieldS s 2) (\<lambda>_.
     bindS (check_level (nf_user f) (sc_clock s 2)) (\<lambda>lvl.
     bindS (yieldS s 3) (\<lambda>_.
     bindS (check_session (nf_user f) (nf_session f) '' is closed; open a new session'') (\<lambda>_.
     bindS (check_acl ''invoke'' ca de caller (nf_dest f) lvl) (\<lambda>_.
     bindS (yieldS s 4) (\<lambda>_.
     bindS (check_quota (dep_redis dp) (nf_user f) lvl (sc_clock s 4)) (\<lambda>_.
     bindS (yieldS s 5) (\<lambda>_.
     bindS (check_depth (nf_parent f) (nf_user f)) (\<lambda>_.
     retS lvl)))))))))))))"

definition admit_new_task ::
  "'r deps \<Rightarrow> 'r schedule \<Rightarrow> new_task_frame \<Rightarrow> agent_id \<Rightarrow> task_id \<Rightarrow> corr_id \<Rightarrow> ('r, admit_outcome) step" where
  "admit_new_task dp s f caller new_id cid =
     bindS (pre_checks dp s f caller) (\<lambda>lvl.
     bindS (yieldS s 6) (\<lambda>_.
     bindS (persist_task f caller new_id (sc_clock s 6)) (\<lambda>row.
     bindS (yieldS s 7) (\<lambda>_.
     bindS (cache_step row caller (nf_dest f)) (\<lambda>_.
     bindS (dispatch_task s f row lvl cid) (\<lambda>_.
     bindS (yieldS s 10) (\<lambda>_.
     bindS (mark_running row (nf_dest f) (sc_clock s 10)) (\<lambda>_.
     retS (Admitted (t_id row) None)))))))))"

definition outcome_of :: "(admit_outcome + admit_outcome) \<times> 'r router \<Rightarrow> admit_outcome \<times> 'r router" where
  "outcome_of x = (case fst x of Inl out \<Rightarrow> out | Inr out \<Rightarrow> out, snd x)"

end
