(* ===== verification/AuditLog.thy ===== *)
theory AuditLog
  imports Tables "HOL-Library.List_Lexorder" "HOL-Library.Char_ord"
begin

text \<open>
  The hash-chained audit log: \<open>_maybe_truncate_audit_payload\<close> and \<open>append_audit_event\<close> of
  \<open>bp_router/db/queries.py\<close>.  \<open>digest\<close>, a parameter, is SHA-256 of the canonical JSON of a
  row's body (every column but \<open>self_hash\<close>); a body is a row with an empty \<open>self_hash\<close>.
\<close>

section \<open>\<open>json.dumps(..., sort_keys=True)\<close>\<close>

definition json_escape :: "char \<Rightarrow> string" where
  "json_escape c =
     (if c = CHR 0x22 \<or> c = CHR 0x5C then [CHR 0x5C, c]
      else if c = CHR 0x0A then [CHR 0x5C, CHR ''n'']
      else if c = CHR 0x0D then [CHR 0x5C, CHR ''r'']
      else if c = CHR 0x09 then [CHR 0x5C, CHR ''t'']
      else if c = CHR 0x08 then [CHR 0x5C, CHR ''b'']
      else if c = CHR 0x0C then [CHR 0x5C, CHR ''f'']
      else if code c < 32 \<or> 128 \<le> code c
        then [CHR 0x5C, CHR ''u'', CHR ''0'', CHR ''0'', hex_digit (code c div 16), hex_digit (code c mod 16)]
      else [c])"

definition json_string :: "string \<Rightarrow> string" where
  "json_string s = [CHR 0x22] @ concat (map json_escape s) @ [CHR 0x22]"

fun json_dumps :: "json \<Rightarrow> string" where
  "json_dumps JNull = ''null''"
| "json_dumps (JBool b) = (if b then ''true'' else ''false'')"
| "json_dumps (JInt i) = show_int i"
| "json_dumps (JStr s) = json_string s"
| "json_dumps (JArr js) = ''['' @ join_with '', '' (map json_dumps js) @ '']''"
| "json_dumps (JObj kvs) = ''{'' @ join_with '', ''
     (map (\<lambda>(k, s). json_string k @ '': '' @ s) (sort_key fst (map (\<lambda>kv. (fst kv, json_dumps (snd kv))) kvs))) @ ''}''"

section \<open>Appending\<close>

definition AUDIT_PAYLOAD_MAX_BYTES :: nat where
  "AUDIT_PAYLOAD_MAX_BYTES = 8192"

definition AUDIT_TRUNCATION_MARKER_KEY :: string where
  "AUDIT_TRUNCATION_MARKER_KEY = ''__bp_audit_truncated__''"

definition maybe_truncate_audit_payload :: "(string \<times> json) list option \<Rightarrow> json" where
  "maybe_truncate_audit_payload payload =
     (case payload of
        None \<Rightarrow> JObj []
      | Some kvs \<Rightarrow>
          if kvs = [] then JObj []
          else let encoded_size = length (json_dumps (JObj kvs))
               in if encoded_size \<le> AUDIT_PAYLOAD_MAX_BYTES then JObj kvs
                  else JObj [(AUDIT_TRUNCATION_MARKER_KEY, JBool True),
                             (''original_size_bytes'', JInt (int encoded_size)),
                             (''max_bytes'', JInt (int AUDIT_PAYLOAD_MAX_BYTES))])"

text \<open>The table in \<open>seq\<close> order: the last row is the head of the chain.\<close>

definition audit_head :: "db \<Rightarrow> string" where
  "audit_head d = (if audit d = [] then '''' else au_self (last (audit d)))"

definition append_audit_event ::
  "(audit_row \<Rightarrow> string) \<Rightarrow> string \<Rightarrow> string option \<Rightarrow> string \<Rightarrow> string option \<Rightarrow> string option \<Rightarrow>
   (string \<times> json) list option \<Rightarrow> time \<Rightarrow> db \<Rightarrow> db" where
  "append_audit_event digest actor_kind actor event target_kind target payload now d =
     (let prev_hash = audit_head d;
          body = \<lparr>au_ts = now, au_actor_kind = actor_kind, au_actor = actor, au_event = event,
                  au_target_kind = target_kind, au_target = target,
                  au_payload = maybe_truncate_audit_payload payload,
                  au_prev = (if prev_hash = [] then None else Some prev_hash), au_self = ''''\<rparr>
      in d\<lparr>audit := audit d @ [body\<lparr>au_self := digest body\<rparr>]\<rparr>)"

section \<open>The chain\<close>

definition row_hash_ok :: "(audit_row \<Rightarrow> string) \<Rightarrow> audit_row \<Rightarrow> bool" where
  "row_hash_ok digest a = (au_self a = digest (a\<lparr>au_self := ''''\<rparr>))"

text \<open>Every row hashes its own body, and names the hash of the row before it.\<close>

fun chain_from :: "(audit_row \<Rightarrow> string) \<Rightarrow> string option \<Rightarrow> audit_row list \<Rightarrow> bool" where
  "chain_from digest prev [] = True"
| "chain_from digest prev (a # as) =
     (row_hash_ok digest a \<and> au_prev a = prev \<and> chain_from digest (Some (au_self a)) as)"

definition audit_ok :: "(audit_row \<Rightarrow> string) \<Rightarrow> db \<Rightarrow> bool" where
  "audit_ok digest d = chain_from digest None (audit d)"

lemma chain_from_snoc:
  "chain_from digest prev (as @ [a]) \<longleftrightarrow> chain_from digest prev as \<and> row_hash_ok digest a \<and>
     au_prev a = (if as = [] then prev else Some (au_self (last as)))"
  by (induction "as" arbitrary: prev) auto

lemma append_audit_ok:
  assumes "\<And>b. digest b \<noteq> []" "audit_ok digest d"
  shows "audit_ok digest (append_audit_event digest k a e tk t p now d)"
proof -
  have "audit d \<noteq> [] \<Longrightarrow> au_self (last (audit d)) \<noteq> []"
    using assms by (cases "audit d" rule: rev_cases) (auto simp: audit_ok_def chain_from_snoc row_hash_ok_def)
  then show ?thesis using assms(2)
    by (simp add: audit_ok_def append_audit_event_def Let_def chain_from_snoc row_hash_ok_def audit_head_def)
qed

lemma append_audit_frame [simp]:
  "tasks (append_audit_event digest k a e tk t p now d) = tasks d"
  "events (append_audit_event digest k a e tk t p now d) = events d"
  "users (append_audit_event digest k a e tk t p now d) = users d"
  "sessions (append_audit_event digest k a e tk t p now d) = sessions d"
  "agents (append_audit_event digest k a e tk t p now d) = agents d"
  "files (append_audit_event digest k a e tk t p now d) = files d"
  "names (append_audit_event digest k a e tk t p now d) = names d"
  "refresh_tokens (append_audit_event digest k a e tk t p now d) = refresh_tokens d"
  "reset_tokens (append_audit_event digest k a e tk t p now d) = reset_tokens d"
  "invitations (append_audit_event digest k a e tk t p now d) = invitations d"
  "oidc_identities (append_audit_event digest k a e tk t p now d) = oidc_identities d"
  "registrations (append_audit_event digest k a e tk t p now d) = registrations d"
  "registration_attempts (append_audit_event digest k a e tk t p now d) = registration_attempts d"
  "acl_rules (append_audit_event digest k a e tk t p now d) = acl_rules d"
  "llm_presets (append_audit_event digest k a e tk t p now d) = llm_presets d"
  by (simp_all add: append_audit_event_def Let_def)

text \<open>The body a row's hash is the digest of, and a collision between two logs.\<close>

definition body_of :: "audit_row \<Rightarrow> audit_row" where
  "body_of a = a\<lparr>au_self := []\<rparr>"

definition collision :: "(audit_row \<Rightarrow> string) \<Rightarrow> audit_row list \<Rightarrow> audit_row list \<Rightarrow> bool" where
  "collision digest as bs = (\<exists>x\<in>set as. \<exists>y\<in>set bs. body_of x \<noteq> body_of y \<and> digest (body_of x) = digest (body_of y))"

text \<open>
  A chain is determined by its last hash: two chains that end in the same hash are the same
  rows, or exhibit a collision of the digest.
\<close>

lemma chain_determined:
  assumes "chain_from digest None as" "chain_from digest None bs" "as \<noteq> []" "bs \<noteq> []"
    "au_self (last as) = au_self (last bs)"
  shows "as = bs \<or> collision digest as bs"
  using assms
proof (induction "as" arbitrary: bs rule: rev_induct)
  case (snoc a as')
  obtain b bs' where bs: "bs = bs' @ [b]" using snoc.prems(4) by (cases bs rule: rev_cases) auto
  have dg: "digest (body_of a) = digest (body_of b)"
    using snoc.prems bs by (auto simp: chain_from_snoc row_hash_ok_def body_of_def)
  show ?case
  proof (cases "body_of a = body_of b")
    case False
    then show ?thesis using dg bs by (auto simp: collision_def)
  next
    case True
    moreover have "au_self a = au_self b" using snoc.prems(5) bs by simp
    ultimately have ab: "a = b" by (cases a; cases b) (simp add: body_of_def)
    show ?thesis
    proof (cases "as' = [] \<or> bs' = []")
      case True
      then show ?thesis using snoc.prems(1,2) bs ab by (auto simp: chain_from_snoc split: if_splits)
    next
      case False
      then have "au_self (last as') = au_self (last bs')"
        using snoc.prems(1,2) bs ab by (auto simp: chain_from_snoc)
      with snoc.IH [of bs'] snoc.prems(1,2) bs False have "as' = bs' \<or> collision digest as' bs'"
        by (simp add: chain_from_snoc)
      then show ?thesis using bs ab by (auto simp: collision_def)
    qed
  qed
qed simp



end
