(* ===== verification/Delegation.thy ===== *)
theory Delegation
  imports Admission AuditLog
begin

text \<open>
  \<open>tasks._admit_delegation\<close>: a running task is handed to another agent.  Phase A
  validates under a row lock, phase B asks the destination and awaits its ack with no lock
  held, phase C validates again and flips \<open>active_agent_id\<close>.
\<close>

definition quote :: "string \<Rightarrow> string" where
  "quote s = [CHR 0x27] @ s @ [CHR 0x27]"

text \<open>The guards phase A and phase C share, and their messages.\<close>

definition phase_a :: "new_task_frame \<Rightarrow> task_id \<Rightarrow> agent_id \<Rightarrow> ('r, task_row) step" where
  "phase_a f tid caller r =
     ((case lock_task_for_delegation (nf_user f) tid (rdb r) of
         None \<Rightarrow> Inl (refuse ''task_unknown'' (''task '' @ quote tid @ '' not found in caller'' @ [CHR 0x27] @ ''s user scope''))
       | Some t \<Rightarrow>
           if is_terminal (t_state t)
           then Inl (refuse ''task_terminal'' (''task '' @ quote tid @ '' is already in terminal state '' @
                  state_value (t_state t)))
           else if t_active t \<noteq> caller
           then Inl (refuse ''not_active_executor'' (''caller '' @ quote caller @ '' is not the active executor for task '' @
                  quote tid @ '' (current active: '' @ quote (t_active t) @ '')''))
           else
             let max_depth = task_delegation_max_depth (rsettings r);
                 prior = list_delegation_destinations (nf_user f) (t_id t) (max_depth + 1) (rdb r)
             in if length prior \<ge> max_depth
                then Inl (refuse ''delegation_depth_exceeded'' (''task '' @ quote (t_id t) @
                       '' has already been delegated '' @ show_nat (length prior) @ '' times (max '' @
                       show_nat max_depth @ ''); refusing further hops to avoid runaway chain growth''))
                else if nf_dest f = t_agent t \<or> nf_dest f \<in> set prior
                then Inl (refuse ''delegation_cycle'' (''delegation to '' @ quote (nf_dest f) @
                       '' would create a cycle; task '' @ quote (t_id t) @ '' has already passed through that agent''))
                else Inr t), r)"

definition delegation_frame :: "new_task_frame \<Rightarrow> task_row \<Rightarrow> level \<Rightarrow> agent_id \<Rightarrow> new_task_frame" where
  "delegation_frame f t lvl caller =
     \<lparr>nf_agent = ''router'', nf_task = Some (t_id t), nf_parent = t_parent t, nf_dest = nf_dest f,
      nf_user = nf_user f, nf_level = lvl, nf_session = nf_session f, nf_priority = t_priority t,
      nf_deadline = t_deadline t, nf_idem = None, nf_mode = nf_mode f, nf_payload = nf_payload f,
      nf_delegator = Some caller\<rparr>"

definition finish_delegation :: "nat \<Rightarrow> nat \<Rightarrow> corr_id \<Rightarrow> ('r, unit) step" where
  "finish_delegation c fut cid r =
     (let (v, r1) = deliver_finish c fut cid r
      in (case v of
            Unset \<Rightarrow> (Inl StillWaiting, r)
          | Raised (TimeoutError m) \<Rightarrow> (Inl (refuse ''ack_timeout'' ''destination agent did not ack delegation in time''), r1)
          | Raised e \<Rightarrow> (Inl (Crashed ''ack future''), r1)
          | Cancelled \<Rightarrow> (Inl (Crashed ''cancelled''), r1)
          | Result (AckF a) \<Rightarrow>
              if ak_accepted a then (Inr (), r1)
              else (Inl (refuse ''rejected'' (py_or (ak_reason a) ''destination rejected the delegation'')), r1)
          | Result _ \<Rightarrow> (Inl (Crashed ''AttributeError''), r1)))"

definition phase_b :: "'r schedule \<Rightarrow> new_task_frame \<Rightarrow> task_row \<Rightarrow> level \<Rightarrow> agent_id \<Rightarrow> corr_id \<Rightarrow> ('r, unit) step" where
  "phase_b s f t lvl caller cid r =
     (case deliver_frame (nf_dest f) (NewTaskF cid (delegation_frame f t lvl caller)) (Some cid)
             (Some (pending_ack_timeout_s (rsettings r))) (sc_clock s 4) r of
        (NotConnected, r1) \<Rightarrow> (Inl (refuse ''agent_disconnected'' ''destination agent has no live socket''), r1)
      | (QueueFull, r1) \<Rightarrow> (Inl (Crashed ''QueueFull''), r1)
      | (Queued, r1) \<Rightarrow> (Inr (), r1)
      | (Awaiting c fut, r1) \<Rightarrow> bindS (yieldS s 5) (\<lambda>_. finish_delegation c fut cid) r1)"

definition phase_c ::
  "(audit_row \<Rightarrow> string) \<Rightarrow> new_task_frame \<Rightarrow> task_id \<Rightarrow> agent_id \<Rightarrow> time \<Rightarrow> ('r, unit) step" where
  "phase_c digest f tid caller now r =
     (case lock_task_for_delegation (nf_user f) tid (rdb r) of
        None \<Rightarrow> (Inl (refuse ''task_unknown'' (''task '' @ quote tid @ '' not found in caller'' @ [CHR 0x27] @ ''s user scope'')), r)
      | Some t \<Rightarrow>
          if is_terminal (t_state t)
          then (Inl (refuse ''task_terminal'' (''task '' @ quote tid @ '' reached terminal state '' @
                  state_value (t_state t) @ '' while the destination was being asked to accept the delegation'')), r)
          else if t_active t \<noteq> caller
          then (Inl (refuse ''not_active_executor'' (''caller '' @ quote caller @
                  '' is no longer the active executor for task '' @ quote tid @ '' (current active: '' @
                  quote (t_active t) @ '')'')), r)
          else
            (case reassign_active_agent (nf_user f) tid (nf_dest f) caller now (rdb r) of
               (False, d) \<Rightarrow> (Inl (refuse ''internal_error''
                  ''active_agent_id reassignment lost the optimistic concurrency check; investigate''), r)
             | (True, d) \<Rightarrow>
                 let from_to = [(''from'', JStr caller), (''to'', JStr (nf_dest f))]
                 in (case insert_task_event (nf_user f) tid ''delegated'' (Some caller) None None from_to now d of
                       Inl e \<Rightarrow> (Inl (Crashed ''CrossUserTaskAccess''), recache_active_agent tid (nf_dest f) r)
                     | Inr (_, d1) \<Rightarrow>
                         (Inr (), recache_active_agent tid (nf_dest f)
                            (r\<lparr>rdb := append_audit_event digest ''agent'' (Some caller) ''task.delegated''
                                (Some ''task'') (Some tid) (Some from_to) now d1\<rparr>)))))"

definition admit_delegation ::
  "'r deps \<Rightarrow> 'r schedule \<Rightarrow> new_task_frame \<Rightarrow> task_id \<Rightarrow> agent_id \<Rightarrow> corr_id \<Rightarrow> ('r, admit_outcome) step" where
  "admit_delegation dp s f tid caller cid =
     bindS (lookup_agents caller (nf_dest f)) (\<lambda>(ca, de).
     bindS (yieldS s 1) (\<lambda>_.
     bindS (check_level (nf_user f) (sc_clock s 1)) (\<lambda>lvl.
     bindS (yieldS s 2) (\<lambda>_.
     bindS (check_acl ''delegate to'' ca de caller (nf_dest f) lvl) (\<lambda>_.
     bindS (yieldS s 3) (\<lambda>_.
     bindS (phase_a f tid caller) (\<lambda>t.
     bindS (yieldS s 4) (\<lambda>_.
     bindS (phase_b s f t lvl caller cid) (\<lambda>_.
     bindS (yieldS s 6) (\<lambda>_.
     bindS (phase_c (dep_digest dp) f tid caller (sc_clock s 6)) (\<lambda>_.
     retS (Admitted tid None))))))))))))"

text \<open>\<open>admit_task\<close>: a frame with a task id is a delegation.\<close>

definition admit_task ::
  "'r deps \<Rightarrow> 'r schedule \<Rightarrow> new_task_frame \<Rightarrow> agent_id \<Rightarrow> task_id \<Rightarrow> corr_id \<Rightarrow> 'r router \<Rightarrow> admit_outcome \<times> 'r router" where
  "admit_task dp s f caller new_id cid r =
     outcome_of ((case nf_task f of
        Some tid \<Rightarrow> admit_delegation dp s f tid caller cid
      | None \<Rightarrow> admit_new_task dp s f caller new_id cid) r)"

end
