(* ===== verification/AdmissionFacts.thy ===== *)
theory AdmissionFacts
  imports Delegation
begin

text \<open>
  Admission and delegation keep the router's invariant whatever runs between their steps,
  as long as that does; and what an admitted, a refused, a retried and a delegated task
  look like afterwards.
\<close>

section \<open>Steps\<close>

lemma bindS_Inr: "bindS m f r = (Inr b, r2) \<longleftrightarrow> (\<exists>a r1. m r = (Inr a, r1) \<and> f a r1 = (Inr b, r2))"
  by (auto simp: bindS_def split: sum.splits prod.splits)

lemma bindS_Inl: "bindS m f r = (Inl out, r2) \<longleftrightarrow>
    m r = (Inl out, r2) \<or> (\<exists>a r1. m r = (Inr a, r1) \<and> f a r1 = (Inl out, r2))"
  by (auto simp: bindS_def split: sum.splits prod.splits)

definition goodS :: "('r, 'a) step \<Rightarrow> bool" where
  "goodS m = (\<forall>r. good r (snd (m r)))"

lemma goodS_bind: "goodS m \<Longrightarrow> (\<And>a. goodS (f a)) \<Longrightarrow> goodS (bindS m f)"
  unfolding goodS_def bindS_def
  by (auto split: sum.split prod.split) (metis good_trans snd_conv)+

lemma goodS_case: "(\<And>x y. goodS (g x y)) \<Longrightarrow> goodS (case p of (x, y) \<Rightarrow> g x y)"
  by (cases p) simp

lemma goodS_pure: "(\<And>r. snd (m r) = r) \<Longrightarrow> goodS m"
  by (simp add: goodS_def)

lemma goodS_ret [simp]: "goodS (retS a)"
  by (rule goodS_pure) (simp add: retS_def)

text \<open>
  A calm schedule: what runs between the steps keeps the invariant, and between the insert
  of a task and the write of its cache entry nobody reassigns a task.
\<close>

definition calm :: "'r schedule \<Rightarrow> bool" where
  "calm s \<longleftrightarrow> (\<forall>i r. good r (sc_env s i r)) \<and>
     (\<forall>r tid. inv r \<longrightarrow> task_agents (rdb r) tid \<noteq> None \<longrightarrow>
        task_agents (rdb (sc_env s 7 r)) tid = task_agents (rdb r) tid)"

lemma goodS_yield: "calm s \<Longrightarrow> goodS (yieldS s i)"
  by (simp add: goodS_def yieldS_def calm_def)

section \<open>Delivery of an awaited frame\<close>

lemma good_same_store:
  assumes "same_store r r'"
    "\<And>c f. inv r \<Longrightarrow> c \<in> set (chans r') \<Longrightarrow> f \<in> set (ch_out c) \<Longrightarrow> frame_ok (rdb r) f"
  shows "good r r'"
  using assms reg_ok_cong [of r' r]
  by (auto simp: good_def inv_def cache_ok_def frames_ok_def same_store_def)

definition outs :: "'r router \<Rightarrow> frame set" where
  "outs r = (\<Union>c\<in>set (chans r). set (ch_out c))"

lemma outs_upd_chan:
  assumes "\<And>c. set (ch_out (g c)) \<subseteq> set (ch_out c) \<union> A"
  shows "outs (upd_chan k g r) \<subseteq> outs r \<union> A"
proof
  fix f assume "f \<in> outs (upd_chan k g r)"
  then obtain c where c: "c \<in> set (chans (upd_chan k g r))" "f \<in> set (ch_out c)" by (auto simp: outs_def)
  then have "c \<in> set (chans r) \<or> (k < length (chans r) \<and> c = g (chans r ! k))"
    using set_update_subset_insert by (fastforce simp: upd_chan_def split: if_splits)
  then show "f \<in> outs r \<union> A" using c(2) assms nth_mem by (fastforce simp: outs_def)
qed

lemma outs_chan_ops:
  "outs (put_frame c f r) \<subseteq> insert f (outs r)" "outs (add_infl c cid r) \<subseteq> outs r"
  "outs (discard_infl c cid r) \<subseteq> outs r"
  using outs_upd_chan [of "\<lambda>ch. ch\<lparr>ch_out := ch_out ch @ [f]\<rparr>" "{f}" c r]
    outs_upd_chan [of "\<lambda>ch. ch\<lparr>ch_infl := List.insert cid (ch_infl ch)\<rparr>" "{}" c r]
    outs_upd_chan [of "\<lambda>ch. ch\<lparr>ch_infl := removeAll cid (ch_infl ch)\<rparr>" "{}" c r]
  by (auto simp: put_frame_def add_infl_def discard_infl_def)

lemma outs_cong [simp]: "outs (r\<lparr>acks := p\<rparr>) = outs r" "outs (record_deliver_dropped ty r) = outs r"
  "outs (r\<lparr>rdb := d\<rparr>) = outs r"
  by (simp_all add: outs_def record_deliver_dropped_def count_metric_def)

lemma outs_deliver: "outs (snd (deliver_frame a f wait timeout now r)) \<subseteq> insert f (outs r)"
proof (cases "live_socket r a")
  case (Some s)
  show ?thesis
  proof (cases wait)
    case None
    then show ?thesis using Some outs_chan_ops(1) [of "chan_of r s" f r]
      by (auto simp: deliver_frame_def Let_def)
  next
    case w: (Some cid)
    obtain n p where p: "ack_register cid timeout now (acks r) = (n, p)" by (metis surj_pair)
    let ?c = "chan_of r s"
    let ?r1 = "add_infl ?c cid (r\<lparr>acks := p\<rparr>)"
    have 1: "outs ?r1 \<subseteq> outs r" using outs_chan_ops(2) [of ?c cid "r\<lparr>acks := p\<rparr>"] by simp
    have 2: "outs (put_frame ?c f ?r1) \<subseteq> insert f (outs r)"
      using outs_chan_ops(1) [of ?c f ?r1] 1 by blast
    have 3: "outs (discard_infl ?c cid (?r1\<lparr>acks := q\<rparr>)) \<subseteq> outs r" for q
      using outs_chan_ops(3) [of ?c cid "?r1\<lparr>acks := q\<rparr>"] 1 by auto
    have "snd (deliver_frame a f wait timeout now r) = (if ch_full (chans ?r1 ! ?c)
        then record_deliver_dropped (frame_type f) (discard_infl ?c cid
          (?r1\<lparr>acks := snd (ack_reject cid (RuntimeError ''backpressure'') (acks ?r1))\<rparr>))
        else put_frame ?c f ?r1)"
      unfolding deliver_frame_def Some w option.case Let_def p prod.case by simp
    then show ?thesis using 2 3 by auto
  qed
qed (auto simp: deliver_frame_def)

lemma good_deliver: "frame_ok (rdb r) f \<Longrightarrow> good r (snd (deliver_frame a f wait timeout now r))"
proof (rule good_same_store [OF same_store_deliver])
  fix c g assume ok: "frame_ok (rdb r) f" and i: "inv r"
    and c: "c \<in> set (chans (snd (deliver_frame a f wait timeout now r)))" "g \<in> set (ch_out c)"
  then have "g \<in> insert f (outs r)" using outs_deliver [of a f wait timeout now r] by (auto simp: outs_def)
  then show "frame_ok (rdb r) g" using ok invD(4) [OF i] by (auto simp: outs_def frames_ok_def)
qed

lemma good_discard: "good r (discard_infl c cid r)"
proof (rule good_same_store)
  fix k f assume i: "inv r" and "k \<in> set (chans (discard_infl c cid r))" "f \<in> set (ch_out k)"
  then have "f \<in> outs r" using outs_chan_ops(3) [of c cid r] by (auto simp: outs_def)
  then show "frame_ok (rdb r) f" using invD(4) [OF i] by (auto simp: outs_def frames_ok_def)
qed simp

lemma good_deliver_finish: "good r (snd (deliver_finish c fut cid r))"
  by (simp add: deliver_finish_def good_discard)

section \<open>The checks\<close>

lemma checks_pure:
  "snd (lookup_idempotent f caller r) = r" "snd (lookup_agents caller dest r) = r"
  "snd (check_schema v callee f r) = r" "snd (check_session uid sid m r) = r"
  "snd (check_depth parent uid r) = r" "snd (phase_a f tid caller r) = r"
  by (simp_all add: lookup_idempotent_def lookup_agents_def check_schema_def check_session_def
      check_depth_def phase_a_def)

lemma goodS_checks: "goodS (lookup_idempotent f caller)" "goodS (lookup_agents caller dest)"
  "goodS (check_schema v callee f)" "goodS (check_session uid sid m)" "goodS (check_depth parent uid)"
  "goodS (phase_a f tid caller)"
  by (rule goodS_pure, simp add: checks_pure)+

lemma goodS_check_level: "goodS (check_level uid now)"
  unfolding goodS_def
proof
  fix r
  have "snd (check_level uid now r) = snd (session_level uid now r)"
    by (simp add: check_level_def split: prod.split option.split)
  then show "good r (snd (check_level uid now r))" by (simp add: good_session_level)
qed

lemma goodS_check_acl: "goodS (check_acl verb ca de caller dest lvl)"
  by (auto simp: goodS_def check_acl_def Let_def good_metric split: prod.split)

lemma goodS_check_quota: "goodS (check_quota ev uid lvl now)"
  unfolding goodS_def
proof
  fix r :: "'a router"
  have "good r (r\<lparr>admit_quota := q\<rparr>)" for q by (rule good_cong) simp_all
  then have "good r (count_metric m l (r\<lparr>admit_quota := q\<rparr>))" "good r (r\<lparr>admit_quota := q\<rparr>)" for m l q
    using good_metric good_trans by blast+
  then show "good r (snd (check_quota ev uid lvl now r))"
    by (auto simp: check_quota_def Let_def split: option.split prod.split)
qed

lemma goodS_pre_checks: "calm s \<Longrightarrow> goodS (pre_checks dp s f caller)"
  unfolding pre_checks_def
  by (intro goodS_bind goodS_yield goodS_checks goodS_check_level goodS_check_acl goodS_check_quota
      goodS_ret goodS_case)

section \<open>The insert\<close>

lemma insert_task_event_Inr:
  assumes "insert_task_event uid tid kind actor frm to pl now d = Inr (e, d')"
  shows "tasks d' = tasks d" "users d' = users d" "sessions d' = sessions d" "agents d' = agents d"
    "files d' = files d" "names d' = names d" "audit d' = audit d"
    "events d' = events d @ [\<lparr>ev_task = tid, ev_ts = now, ev_kind = kind, ev_actor = actor, ev_from = frm,
       ev_to = to, ev_payload = JObj pl\<rparr>]" "\<exists>t\<in>set (tasks d). t_id t = tid \<and> t_user t = uid"
  using assms by (auto simp: insert_task_event_def Let_def list_ex_iff split: if_splits)

lemma db_ok_cong:
  "users d' = users d \<Longrightarrow> sessions d' = sessions d \<Longrightarrow> agents d' = agents d \<Longrightarrow> tasks d' = tasks d \<Longrightarrow>
   files d' = files d \<Longrightarrow> names d' = names d \<Longrightarrow> db_ok d' = db_ok d"
  by (simp add: db_ok_def)

text \<open>What a successful insert has seen and done.\<close>

lemma insert_new_task_Inl:
  assumes "insert_new_task f caller new_id now r = (Inl out, r')"
  shows "r' = r"
proof (cases "create_task (nf_user f) new_id (nf_session f) (nf_dest f) caller (nf_parent f) (nf_priority f)
       (Some (case nf_deadline f of Some dl \<Rightarrow> dl | None \<Rightarrow> now + default_task_deadline_s (rsettings r)))
       (nf_idem f) (nf_payload f) None now (rdb r)")
  case (Inl e)
  show ?thesis using assms unfolding insert_new_task_def Let_def Inl sum.case
    by (cases e) (simp_all split: option.splits if_splits)
next
  case (Inr x)
  obtain row d where x: "x = (row, d)" by (cases x)
  show ?thesis using assms unfolding insert_new_task_def Let_def Inr x sum.case prod.case
    by (simp split: sum.splits prod.splits)
qed

lemma insert_new_task_Inr:
  assumes "insert_new_task f caller new_id now r = (Inr row, r')"
  shows "\<exists>d e d'. create_task (nf_user f) new_id (nf_session f) (nf_dest f) caller (nf_parent f) (nf_priority f)
       (Some (case nf_deadline f of Some dl \<Rightarrow> dl | None \<Rightarrow> now + default_task_deadline_s (rsettings r)))
       (nf_idem f) (nf_payload f) None now (rdb r) = Inr (row, d) \<and>
     insert_task_event (nf_user f) (t_id row) ''admitted'' (Some caller) None None
       [(''caller'', JStr caller)] now d = Inr (e, d') \<and> r' = r\<lparr>rdb := d'\<rparr>"
proof (cases "create_task (nf_user f) new_id (nf_session f) (nf_dest f) caller (nf_parent f) (nf_priority f)
       (Some (case nf_deadline f of Some dl \<Rightarrow> dl | None \<Rightarrow> now + default_task_deadline_s (rsettings r)))
       (nf_idem f) (nf_payload f) None now (rdb r)")
  case (Inl e)
  show ?thesis using assms unfolding insert_new_task_def Let_def Inl sum.case
    by (cases e) (simp_all split: option.splits if_splits)
next
  case (Inr x)
  obtain row1 d where x: "x = (row1, d)" by (cases x)
  show ?thesis using assms unfolding insert_new_task_def Let_def Inr x sum.case prod.case
    by (simp split: sum.splits prod.splits)
qed

lemma check_session_Inr:
  "check_session uid sid m r = (Inr u, r') \<longleftrightarrow>
   r' = r \<and> (\<exists>s. get_session uid sid (rdb r) = Some s \<and> s_closed s = None)"
  by (auto simp: check_session_def split: option.splits if_splits)

lemma persist_task_Inr:
  assumes "persist_task f caller new_id now r = (Inr row, r')"
  shows "\<exists>s. get_session (nf_user f) (nf_session f) (rdb r) = Some s \<and> s_closed s = None"
    "insert_new_task f caller new_id now r = (Inr row, r')"
  using assms by (auto simp: persist_task_def bindS_Inr check_session_Inr)

lemma persist_task_find:
  assumes "persist_task f caller new_id now r = (Inr row, r')"
  shows "find_task (rdb r') = (find_task (rdb r))(new_id \<mapsto> row)" "find_task (rdb r) new_id = None"
    "t_id row = new_id" "t_user row = nf_user f" "t_caller row = caller" "t_agent row = nf_dest f"
    "t_active row = nf_dest f" "t_state row = QUEUED" "t_parent row = nf_parent f" "t_idem row = nf_idem f"
    "t_session row = nf_session f" "t_input row = nf_payload f"
proof -
  from insert_new_task_Inr [OF persist_task_Inr(2) [OF assms]] obtain dl d e d' where
    c: "create_task (nf_user f) new_id (nf_session f) (nf_dest f) caller (nf_parent f) (nf_priority f)
       dl (nf_idem f) (nf_payload f) None now (rdb r) = Inr (row, d)" and
    e: "insert_task_event (nf_user f) (t_id row) ''admitted'' (Some caller) None None
       [(''caller'', JStr caller)] now d = Inr (e, d')" "r' = r\<lparr>rdb := d'\<rparr>" by blast
  note cr = create_task_Inr [OF c]
  show "find_task (rdb r') = (find_task (rdb r))(new_id \<mapsto> row)"
    using create_task_find [OF c] find_task_cong [OF insert_task_event_Inr(1) [OF e(1)]] e(2) by simp
  show "find_task (rdb r) new_id = None"
    "t_id row = new_id" "t_user row = nf_user f" "t_caller row = caller" "t_agent row = nf_dest f"
    "t_active row = nf_dest f" "t_state row = QUEUED" "t_parent row = nf_parent f" "t_idem row = nf_idem f"
    "t_session row = nf_session f" "t_input row = nf_payload f"
    using cr by simp_all
qed

lemma good_insert:
  assumes p: "persist_task f caller new_id now r = (Inr row, r')"
  shows "good r r'"
proof -
  from insert_new_task_Inr [OF persist_task_Inr(2) [OF p]] obtain dl d e d' where
    c: "create_task (nf_user f) new_id (nf_session f) (nf_dest f) caller (nf_parent f) (nf_priority f)
       dl (nf_idem f) (nf_payload f) None now (rdb r) = Inr (row, d)" and
    e: "insert_task_event (nf_user f) (t_id row) ''admitted'' (Some caller) None None
       [(''caller'', JStr caller)] now d = Inr (e, d')" "r' = r\<lparr>rdb := d'\<rparr>" by blast
  note ie = insert_task_event_Inr [OF e(1)]
  show ?thesis unfolding e(2)
  proof (rule good_rdb)
    assume i: "inv r"
    have "db_ok d'" using create_task_db_ok [OF c invD(1) [OF i]] db_ok_cong [of d' d] ie by simp
    moreover have "tree_ok d'" using create_task_tree_ok [OF c invD(2) [OF i]] tree_ok_tasks_eq [OF ie(1)] by simp
    moreover have "evolves (rdb r) d'"
      using evolves_trans [OF create_task_evolves [OF c] evolves_tasks_eq [OF ie(1)]] .
    ultimately show "evolves (rdb r) d' \<and> db_ok d' \<and> tree_ok d'" by blast
  next
    fix tid assume "task_agents (rdb r) tid \<noteq> None"
    then show "task_agents d' tid = task_agents (rdb r) tid"
      using persist_task_find(1,2) [OF p] e(2) by (auto simp: task_agents_def)
  qed
qed

lemma goodS_persist: "goodS (persist_task f caller new_id now)"
  unfolding goodS_def
proof
  fix r :: "'a router"
  show "good r (snd (persist_task f caller new_id now r))"
  proof (cases "fst (persist_task f caller new_id now r)")
    case (Inl out)
    then have "persist_task f caller new_id now r = (Inl out, snd (persist_task f caller new_id now r))"
      by (metis prod.collapse)
    then have "snd (persist_task f caller new_id now r) = r"
      by (auto simp: persist_task_def bindS_Inl check_session_def insert_new_task_Inl split: option.splits if_splits)
    then show ?thesis by simp
  next
    case (Inr row)
    then show ?thesis using good_insert by (metis prod.collapse)
  qed
qed

section \<open>Dispatch\<close>

lemma good_force_fail:
  "good r (r\<lparr>rdb := snd (force_fail_task uid tid sc er now (rdb r))\<rparr>)"
proof (rule good_rdb)
  obtain hit d where h: "force_fail_task uid tid sc er now (rdb r) = (hit, d)" by (metis surj_pair)
  {
    assume i: "inv r"
    note ff = force_fail_facts [OF invD(1) [OF i] h]
    have "tree_ok d"
    proof -
      have "tree_ok ((rdb r)\<lparr>tasks := map (\<lambda>t. if force_guard uid tid t
          then t\<lparr>t_state := FAILED, t_status_code := Some sc, t_error := er, t_updated := now\<rparr>
          else t) (tasks (rdb r))\<rparr>)"
        by (rule tree_ok_update [OF _ invD(2) [OF i]]) (simp add: same_identity_def)
      then show ?thesis using h by (auto simp: force_fail_task_def)
    qed
    moreover have "evolves (rdb r) d"
      using ff(2,3) by (auto simp: evolves_def row_evolves_def same_identity_def reaches_def)
    ultimately show "evolves (rdb r) (snd (force_fail_task uid tid sc er now (rdb r))) \<and>
        db_ok (snd (force_fail_task uid tid sc er now (rdb r))) \<and> tree_ok (snd (force_fail_task uid tid sc er now (rdb r)))"
      using ff(1) h by simp
    fix k assume "task_agents (rdb r) k \<noteq> None"
    show "task_agents (snd (force_fail_task uid tid sc er now (rdb r))) k = task_agents (rdb r) k"
      using ff(2,3) h by (auto simp: task_agents_def)
  }
qed

lemma good_safe_fail: "good r (safe_fail health tid uid sc reason er now r)"
  by (cases health) (simp_all add: safe_fail_def good_force_fail good_fail_task)

lemma goodS_finish_dispatch: "goodS (finish_dispatch s f row c fut cid)"
  unfolding goodS_def
proof
  fix r :: "'a router"
  obtain v r1 where v: "deliver_finish c fut cid r = (v, r1)" by (metis surj_pair)
  have g: "good r r1" using good_deliver_finish [of r c fut cid] v by simp
  have "good r (safe_fail x (t_id row) (nf_user f) sc reason er now r1)" for x sc reason er now
    by (rule good_trans [OF g good_safe_fail])
  with g show "good r (snd (finish_dispatch s f row c fut cid r))"
    unfolding finish_dispatch_def Let_def v prod.case
    by (auto split: fut.split exn.split frame.split)
qed

lemma frame_ok_new_task [simp]: "frame_ok d (NewTaskF cid nf)"
  by (simp add: frame_ok_def)

lemma goodS_dispatch: "calm s \<Longrightarrow> goodS (dispatch_task s f row lvl cid)"
  unfolding goodS_def
proof
  fix r :: "'a router" assume c: "calm s"
  obtain v r1 where v: "deliver_frame (nf_dest f) (NewTaskF cid (delivery_frame f row lvl)) (Some cid)
      (Some (pending_ack_timeout_s (rsettings r))) (sc_clock s 8) r = (v, r1)" by (metis surj_pair)
  have g: "good r r1" using good_deliver [of r] v by (metis frame_ok_new_task snd_conv)
  have w: "goodS (bindS (yieldS s 9) (\<lambda>_. finish_dispatch s f row ch fut cid))" for ch fut
    by (intro goodS_bind goodS_yield c goodS_finish_dispatch)
  have "good r1 (snd (bindS (yieldS s 9) (\<lambda>_. finish_dispatch s f row ch fut cid) r1))" for ch fut
    using w by (simp add: goodS_def)
  then show "good r (snd (dispatch_task s f row lvl cid r))"
    unfolding dispatch_task_def v prod.case
    using g good_trans [OF g] good_trans [OF g good_safe_fail] by (auto split: delivery.split)
qed

lemma goodS_mark_running: "goodS (mark_running row dest now)"
  by (auto simp: goodS_def mark_running_def good_transition split: sum.split prod.split)

section \<open>The whole admission\<close>

text \<open>From the insert to the cache entry, which a calm schedule leaves describing the task.\<close>

lemma good_persist_then_cache:
  assumes "calm s" "persist_task f caller new_id now r = (Inr row, r')"
  shows "good r (cache_caller_agent (t_id row) caller (nf_dest f) (sc_env s 7 r'))"
proof -
  let ?r = "sc_env s 7 r'"
  have g: "good r' ?r" using assms(1) by (simp add: calm_def)
  have "good ?r (cache_caller_agent (t_id row) caller (nf_dest f) ?r)" if i: "inv r'"
  proof -
    have "task_agents (rdb r') new_id = Some (caller, nf_dest f)"
      using persist_task_find [OF assms(2)] by (simp add: task_agents_def)
    then have ta: "task_agents (rdb ?r) (t_id row) = Some (caller, nf_dest f)"
      using assms(1) i persist_task_find(3) [OF assms(2)] by (auto simp: calm_def)
    show ?thesis
      unfolding good_def
    proof
      assume j: "inv ?r"
      have "cache_ok (cache_caller_agent (t_id row) caller (nf_dest f) ?r)"
        using invD(3) [OF j] ta lru_ok_set
        by (auto simp: cache_ok_def cache_caller_agent_def intro: lru.coherent_put)
      then show "inv (cache_caller_agent (t_id row) caller (nf_dest f) ?r) \<and>
          evolves (rdb ?r) (rdb (cache_caller_agent (t_id row) caller (nf_dest f) ?r))"
        using j reg_ok_cong [of "cache_caller_agent (t_id row) caller (nf_dest f) ?r" ?r]
        by (simp add: inv_def cache_caller_agent_def frames_ok_def)
    qed
  qed
  note cached = this
  show ?thesis
  proof (cases "inv r")
    case True
    then have "inv r'" using goodD(1) [OF good_insert [OF assms(2)]] by blast
    from good_trans [OF good_trans [OF good_insert [OF assms(2)] g] cached [OF this]] show ?thesis .
  qed (simp add: good_def)
qed

lemma goodS_admit_new: "calm s \<Longrightarrow> goodS (admit_new_task dp s f caller new_id cid)"
proof -
  assume c: "calm s"
  let ?rest = "\<lambda>row lvl. bindS (dispatch_task s f row lvl cid) (\<lambda>_. bindS (yieldS s 10) (\<lambda>_.
     bindS (mark_running row (nf_dest f) (sc_clock s 10)) (\<lambda>_. retS (Admitted (t_id row) None))))"
  have rest: "goodS (?rest row lvl)" for row lvl
    by (intro goodS_bind goodS_dispatch goodS_yield goodS_mark_running goodS_ret c)
  have tail: "goodS (bindS (persist_task f caller new_id (sc_clock s 6)) (\<lambda>row. bindS (yieldS s 7) (\<lambda>_.
     bindS (cache_step row caller (nf_dest f)) (\<lambda>_. ?rest row lvl))))" for lvl
    unfolding goodS_def
  proof
    fix r :: "'a router"
    show "good r (snd (bindS (persist_task f caller new_id (sc_clock s 6)) (\<lambda>row. bindS (yieldS s 7) (\<lambda>_.
       bindS (cache_step row caller (nf_dest f)) (\<lambda>_. ?rest row lvl))) r))"
    proof (cases "persist_task f caller new_id (sc_clock s 6) r")
      case (Pair x r')
      show ?thesis
      proof (cases x)
        case (Inl out)
        then have "snd (bindS (persist_task f caller new_id (sc_clock s 6)) (\<lambda>row. bindS (yieldS s 7) (\<lambda>_.
            bindS (cache_step row caller (nf_dest f)) (\<lambda>_. ?rest row lvl))) r) =
            snd (persist_task f caller new_id (sc_clock s 6) r)" using Pair by (simp add: bindS_def)
        then show ?thesis using goodS_persist by (metis goodS_def)
      next
        case (Inr row)
        have "good r (cache_caller_agent (t_id row) caller (nf_dest f) (sc_env s 7 r'))"
          using good_persist_then_cache [OF c] Pair Inr by blast
        then have "good r (snd (?rest row lvl (cache_caller_agent (t_id row) caller (nf_dest f) (sc_env s 7 r'))))"
          using rest good_trans unfolding goodS_def by blast
        moreover have "bindS (persist_task f caller new_id (sc_clock s 6)) (\<lambda>row. bindS (yieldS s 7) (\<lambda>_.
            bindS (cache_step row caller (nf_dest f)) (\<lambda>_. ?rest row lvl))) r =
            ?rest row lvl (cache_caller_agent (t_id row) caller (nf_dest f) (sc_env s 7 r'))"
          unfolding bindS_def [of "persist_task f caller new_id (sc_clock s 6)"] Pair prod.case Inr sum.case
          by (simp add: bindS_def [of "yieldS s 7"] yieldS_def bindS_def [of "cache_step row caller (nf_dest f)"] cache_step_def)
        ultimately show ?thesis by simp
      qed
    qed
  qed
  show ?thesis unfolding admit_new_task_def
    by (rule goodS_bind [OF goodS_pre_checks [OF c]], rule goodS_bind [OF goodS_yield [OF c]], rule tail)
qed

section \<open>Delegation\<close>

lemma recache_facts:
  "rdb (recache_active_agent tid a r) = rdb r" "chans (recache_active_agent tid a r) = chans r"
  "live (recache_active_agent tid a r) = live r" "parked (recache_active_agent tid a r) = parked r" "sockets (recache_active_agent tid a r) = sockets r"
  by (auto simp: recache_active_agent_def split: option.split prod.split)

lemma recache_coherent:
  assumes "lru_ok (caller_cache r)" "lru.coherent (caller_cache r) src"
    "\<And>k. k \<noteq> tid \<Longrightarrow> src' k = src k" "\<And>c b. src tid = Some (c, b) \<Longrightarrow> src' tid = Some (c, a)"
  shows "lru_ok (caller_cache (recache_active_agent tid a r)) \<and>
    lru.coherent (caller_cache (recache_active_agent tid a r)) src'"
proof (cases "lru_getitem tid (caller_cache r)")
  case None
  then have "lru_peek (caller_cache r) tid = None"
    by (auto simp: lru_getitem_def lru_peek_def split: option.splits)
  then have "lru.coherent (caller_cache r) src'" using assms(2,3)
    unfolding lru.coherent_def by (metis option.distinct(1))
  then show ?thesis using None assms(1) by (simp add: recache_active_agent_def)
next
  case (Some x)
  obtain c b m where x: "x = ((c, b), m)" by (metis prod.collapse)
  have m: "m = lru_touch tid (caller_cache r)" using Some x by (simp add: lru_touch_def)
  have pk: "lru_peek (caller_cache r) tid = Some (c, b)"
    using Some unfolding x lru_getitem_def lru_peek_def
    by (cases "map_of (data (caller_cache r)) tid") simp_all
  have okm: "lru_ok m" unfolding m by (rule lru_ok_touch [OF assms(1)])
  have "lru.coherent m src" using assms(1,2) m by (simp add: lru.coherent_touch)
  moreover have "src' tid = Some (c, a)" using assms(2,4) pk by (simp add: lru.coherent_def)
  ultimately have "lru.coherent (lru_set tid (c, a) m) src'"
    using lru.coherent_put [OF okm] assms(3) by blast
  then show ?thesis using Some x lru_ok_set [OF okm] by (simp add: recache_active_agent_def)
qed

text \<open>What phase C has seen and done when it succeeds.\<close>

lemma phase_c_Inr:
  assumes "inv r" "phase_c digest f tid caller now r = (Inr u, r')"
  obtains t d d1 e where "find_task (rdb r) tid = Some t" "t_user t = nf_user f" "\<not> is_terminal (t_state t)"
    "t_active t = caller"
    "reassign_active_agent (nf_user f) tid (nf_dest f) caller now (rdb r) = (True, d)"
    "insert_task_event (nf_user f) tid ''delegated'' (Some caller) None None
       [(''from'', JStr caller), (''to'', JStr (nf_dest f))] now d = Inr (e, d1)"
    "r' = recache_active_agent tid (nf_dest f) (r\<lparr>rdb := append_audit_event digest ''agent'' (Some caller)
       ''task.delegated'' (Some ''task'') (Some tid) (Some [(''from'', JStr caller), (''to'', JStr (nf_dest f))]) now d1\<rparr>)"
    "find_task (rdb r') = (find_task (rdb r))(tid \<mapsto> t\<lparr>t_active := nf_dest f, t_updated := now\<rparr>)"
proof -
  obtain t where t: "get_task (nf_user f) tid (rdb r) = Some t" "\<not> is_terminal (t_state t)" "t_active t = caller"
    using assms(2) by (auto simp: phase_c_def lock_is_get split: option.splits if_splits)
  obtain hit d where d: "reassign_active_agent (nf_user f) tid (nf_dest f) caller now (rdb r) = (hit, d)" by (metis surj_pair)
  have hit: "hit" using assms(2) t d by (cases hit) (simp_all add: phase_c_def lock_is_get)
  obtain e d1 where e: "insert_task_event (nf_user f) tid ''delegated'' (Some caller) None None
       [(''from'', JStr caller), (''to'', JStr (nf_dest f))] now d = Inr (e, d1)"
    using assms(2) t d hit
    by (cases "insert_task_event (nf_user f) tid ''delegated'' (Some caller) None None
       [(''from'', JStr caller), (''to'', JStr (nf_dest f))] now d") (auto simp: phase_c_def lock_is_get Let_def)
  have r': "r' = recache_active_agent tid (nf_dest f) (r\<lparr>rdb := append_audit_event digest ''agent'' (Some caller)
       ''task.delegated'' (Some ''task'') (Some tid) (Some [(''from'', JStr caller), (''to'', JStr (nf_dest f))]) now d1\<rparr>)"
    using assms(2) t d hit e by (simp add: phase_c_def lock_is_get Let_def)
  have gt: "find_task (rdb r) tid = Some t" "t_user t = nf_user f"
    using t(1) get_task_iff [OF invD(1) [OF assms(1)]] by auto
  have "find_task (rdb r') = find_task d"
    using r' find_task_cong [OF insert_task_event_Inr(1) [OF e]]
      by (simp add: recache_facts find_task_cong [of "append_audit_event a b c e f g h i d1" d1 for a b c e f g h i])
  then have "find_task (rdb r') = (find_task (rdb r))(tid \<mapsto> t\<lparr>t_active := nf_dest f, t_updated := now\<rparr>)"
    using reassign_facts(3) [OF invD(1) [OF assms(1)] d] hit gt by simp
  with that [OF gt t(2,3) _ e r'] d hit show thesis by simp
qed

lemma phase_c_Inl:
  assumes "inv r" "phase_c digest f tid caller now r = (Inl out, r')"
  shows "r' = r"
proof (cases "\<exists>t. get_task (nf_user f) tid (rdb r) = Some t \<and> \<not> is_terminal (t_state t) \<and> t_active t = caller")
  case False
  then show ?thesis using assms(2) by (auto simp: phase_c_def lock_is_get split: option.splits if_splits)
next
  case True
  then obtain t where t: "get_task (nf_user f) tid (rdb r) = Some t" "\<not> is_terminal (t_state t)" "t_active t = caller"
    by blast
  then have gt: "find_task (rdb r) tid = Some t" "t_user t = nf_user f" "t_active t = caller"
    using get_task_iff [OF invD(1) [OF assms(1)]] by auto
  obtain hit d where d: "reassign_active_agent (nf_user f) tid (nf_dest f) caller now (rdb r) = (hit, d)" by (metis surj_pair)
  note rf = reassign_facts [OF invD(1) [OF assms(1)] d]
  have hit: "hit" using rf(2) gt by blast
  have "find_task d tid = Some (t\<lparr>t_active := nf_dest f, t_updated := now\<rparr>)" using rf(3) hit gt by simp
  then have "\<exists>u\<in>set (tasks d). t_id u = tid \<and> t_user u = nf_user f"
    using gt(2) find_task_SomeD by fastforce
  then obtain e d1 where "insert_task_event (nf_user f) tid ''delegated'' (Some caller) None None
       [(''from'', JStr caller), (''to'', JStr (nf_dest f))] now d = Inr (e, d1)"
    by (force simp: insert_task_event_def list_ex_iff Let_def)
  then show ?thesis using assms(2) t d hit by (simp add: phase_c_def lock_is_get Let_def)
qed

lemma good_phase_c_Inr:
  assumes p: "phase_c digest f tid caller now r = (Inr u, r')"
  shows "good r r'"
  unfolding good_def
proof
  assume i: "inv r"
  obtain t d d1 e where c: "find_task (rdb r) tid = Some t" "t_user t = nf_user f" "\<not> is_terminal (t_state t)"
    "t_active t = caller"
    "reassign_active_agent (nf_user f) tid (nf_dest f) caller now (rdb r) = (True, d)"
    "insert_task_event (nf_user f) tid ''delegated'' (Some caller) None None
       [(''from'', JStr caller), (''to'', JStr (nf_dest f))] now d = Inr (e, d1)"
    "r' = recache_active_agent tid (nf_dest f) (r\<lparr>rdb := append_audit_event digest ''agent'' (Some caller)
       ''task.delegated'' (Some ''task'') (Some tid) (Some [(''from'', JStr caller), (''to'', JStr (nf_dest f))]) now d1\<rparr>)"
    "find_task (rdb r') = (find_task (rdb r))(tid \<mapsto> t\<lparr>t_active := nf_dest f, t_updated := now\<rparr>)"
    by (rule phase_c_Inr [OF i p]) (rule that; assumption)
  note rf = reassign_facts [OF invD(1) [OF i] c(5)] and ie = insert_task_event_Inr [OF c(6)]
  have tk: "tasks (rdb r') = tasks d" using c(7) ie(1) by (simp add: recache_facts)
  have dbo: "db_ok (rdb r')" using rf(1) c(7) ie db_ok_cong [of "rdb r'" d] by (simp add: recache_facts)
  have tro: "tree_ok (rdb r')"
  proof -
    have "tree_ok ((rdb r)\<lparr>tasks := map (\<lambda>t. if reassign_guard (nf_user f) tid caller t
        then t\<lparr>t_active := nf_dest f, t_updated := now\<rparr> else t) (tasks (rdb r))\<rparr>)"
      by (rule tree_ok_update [OF _ invD(2) [OF i]]) (simp add: same_identity_def)
    then have "tree_ok d" using c(5) by (auto simp: reassign_active_agent_def)
    then show ?thesis using tree_ok_tasks_eq [OF tk] by simp
  qed
  have ev: "evolves (rdb r) (rdb r')"
    using c(1,3,8) by (auto simp: evolves_def row_evolves_def same_identity_def reaches_def)
  have "cache_ok r'"
  proof -
    let ?q = "r\<lparr>rdb := rdb r'\<rparr>"
    have q: "r' = recache_active_agent tid (nf_dest f) ?q" using c(7) by (simp add: recache_facts)
    have "lru_ok (caller_cache (recache_active_agent tid (nf_dest f) ?q)) \<and>
      lru.coherent (caller_cache (recache_active_agent tid (nf_dest f) ?q)) (task_agents (rdb r'))"
      by (rule recache_coherent [where src = "task_agents (rdb r)"])
        (use invD(3) [OF i] c(1,8) in \<open>auto simp: cache_ok_def task_agents_def\<close>)
    then show ?thesis using q by (simp add: cache_ok_def)
  qed
  moreover have ch: "chans r' = chans r" "live r' = live r" "parked r' = parked r" "sockets r' = sockets r"
    using c(7) by (simp_all add: recache_facts)
  moreover have "frames_ok r'"
    using invD(4) [OF i] frame_ok_evolves [OF _ ev] ch by (auto simp: frames_ok_def)
  ultimately show "inv r' \<and> evolves (rdb r) (rdb r')"
    using dbo tro ev invD(5) [OF i] reg_ok_cong [of r' r] by (simp add: inv_def)
qed

lemma goodS_phase_c: "goodS (phase_c digest f tid caller now)"
  unfolding goodS_def
proof
  fix r :: "'a router"
  obtain v r' where p: "phase_c digest f tid caller now r = (v, r')" by (metis surj_pair)
  show "good r (snd (phase_c digest f tid caller now r))"
  proof (cases v)
    case (Inl out)
    then have "inv r \<Longrightarrow> r' = r" using phase_c_Inl p by blast
    then show ?thesis using p by (auto simp: good_def)
  next
    case (Inr u)
    then show ?thesis using good_phase_c_Inr p by simp
  qed
qed

lemma goodS_finish_delegation: "goodS (finish_delegation c fut cid)"
  unfolding goodS_def
proof
  fix r :: "'a router"
  obtain v r1 where v: "deliver_finish c fut cid r = (v, r1)" by (metis surj_pair)
  have g: "good r r1" using good_deliver_finish [of r c fut cid] v by simp
  then show "good r (snd (finish_delegation c fut cid r))"
    unfolding finish_delegation_def Let_def v prod.case
    by (auto split: fut.split exn.split frame.split)
qed

lemma goodS_phase_b: "calm s \<Longrightarrow> goodS (phase_b s f t lvl caller cid)"
  unfolding goodS_def
proof
  fix r :: "'a router" assume c: "calm s"
  obtain v r1 where v: "deliver_frame (nf_dest f) (NewTaskF cid (delegation_frame f t lvl caller)) (Some cid)
      (Some (pending_ack_timeout_s (rsettings r))) (sc_clock s 4) r = (v, r1)" by (metis surj_pair)
  have g: "good r r1" using good_deliver [of r] v by (metis frame_ok_new_task snd_conv)
  have w: "goodS (bindS (yieldS s 5) (\<lambda>_. finish_delegation ch fut cid))" for ch fut
    by (intro goodS_bind goodS_yield c goodS_finish_delegation)
  have "good r1 (snd (bindS (yieldS s 5) (\<lambda>_. finish_delegation ch fut cid) r1))" for ch fut
    using w by (simp add: goodS_def)
  then show "good r (snd (phase_b s f t lvl caller cid r))"
    unfolding phase_b_def v prod.case
    using g good_trans [OF g] by (auto split: delivery.split)
qed

lemma goodS_admit_delegation:
  assumes c: "calm s"
  shows "goodS (admit_delegation dp s f tid caller cid)"
  unfolding admit_delegation_def
  by (intro goodS_bind goodS_checks goodS_case goodS_yield goodS_check_level goodS_check_acl
      goodS_phase_b goodS_phase_c goodS_ret c)

lemma good_admit_task: "calm s \<Longrightarrow> good r (snd (admit_task dp s f caller new_id cid r))"
  using goodS_admit_new [of s dp f caller new_id cid] goodS_admit_delegation [of s dp f _ caller cid]
  by (auto simp: admit_task_def outcome_of_def goodS_def split: option.split)

end
