(* ===== verification/AdmissionProps.thy ===== *)
theory AdmissionProps
  imports AdmissionFacts
begin

text \<open>
  What admission and delegation guarantee: who is admitted, what is stored, what a refusal
  and a retry leave behind, and what a delegation changes.
\<close>

section \<open>Reading the steps\<close>

lemma yieldS_Inr [simp]: "bindS (yieldS s i) f r = f () (sc_env s i r)"
  by (simp add: bindS_def yieldS_def)

lemma retS_Inr: "retS a r = (Inr b, r') \<longleftrightarrow> b = a \<and> r' = r"
  by (auto simp: retS_def)

lemma lookup_idempotent_Inr:
  "lookup_idempotent f caller r = (Inr u, r') \<longleftrightarrow> r' = r \<and>
   (truthy (nf_idem f) \<longrightarrow> find_idempotent (nf_user f) (the (nf_idem f)) caller (rdb r) = None)"
  by (auto simp: lookup_idempotent_def split: option.splits)

lemma lookup_agents_Inr:
  "lookup_agents caller dest r = (Inr (ca, de), r') \<longleftrightarrow> r' = r \<and>
   get_agent caller (rdb r) = Some ca \<and> get_agent dest (rdb r) = Some de \<and> a_status de = ''active''"
  by (auto simp: lookup_agents_def split: option.splits if_splits)

text \<open>The payload passes the schema the destination publishes for the requested mode.\<close>

definition payload_fits :: "(json \<Rightarrow> json \<Rightarrow> validation) \<Rightarrow> agent_row \<Rightarrow> new_task_frame \<Rightarrow> bool" where
  "payload_fits validate de f =
     (case select_schema (a_info de) (nf_mode f) of
        Inl _ \<Rightarrow> False
      | Inr None \<Rightarrow> True
      | Inr (Some sch) \<Rightarrow> json_truthy sch \<longrightarrow> validate (nf_payload f) sch = Valid)"

lemma check_schema_Inr:
  "check_schema v de f r = (Inr u, r') \<longleftrightarrow> r' = r \<and> payload_fits v de f"
  by (auto simp: check_schema_def payload_fits_def split: sum.splits option.splits validation.splits if_splits)

lemma check_level_Inr:
  "check_level uid now r = (Inr lvl, r') \<longleftrightarrow> session_level uid now r = (Some lvl, r')"
  by (auto simp: check_level_def split: prod.splits option.splits)

definition acl_admits :: "rule list \<Rightarrow> agent_row \<Rightarrow> agent_row \<Rightarrow> level \<Rightarrow> bool" where
  "acl_admits rs ca de lvl = allow (fst (is_allowed_for rs (view_of_agent ca) (view_of_agent de) (Some lvl)))"

lemma check_acl_Inr:
  assumes "check_acl verb ca de caller dest lvl r = (Inr u, r')"
  shows "acl_admits (rrules r) ca de lvl" "rdb r' = rdb r" "rsettings r' = rsettings r"
  using assms
  by (auto simp: check_acl_def acl_admits_def count_metric_def Let_def split: prod.splits if_splits)

lemma check_quota_Inr:
  assumes "check_quota ev uid lvl now r = (Inr u, r')"
  shows "rdb r' = rdb r" "rsettings r' = rsettings r" "rrules r' = rrules r"
  using assms
  by (auto simp: check_quota_def count_metric_def Let_def split: prod.splits if_splits option.splits)

lemma check_depth_Inr:
  "check_depth parent uid r = (Inr u, r') \<longleftrightarrow> r' = r \<and>
   (case parent of None \<Rightarrow> True | Some p \<Rightarrow> count_task_chain_depth p uid (rdb r) < spawn_max_depth (rsettings r))"
  by (auto simp: check_depth_def Let_def split: option.splits)

section \<open>Who is admitted\<close>

text \<open>What the checks establish, against one state of the router.\<close>

definition authorised ::
  "'r deps \<Rightarrow> time \<Rightarrow> new_task_frame \<Rightarrow> agent_id \<Rightarrow> 'r router \<Rightarrow> bool" where
  "authorised dp now f caller r =
     (case (get_agent caller (rdb r), get_agent (nf_dest f) (rdb r), fst (session_level (nf_user f) now r),
            get_session (nf_user f) (nf_session f) (rdb r)) of
        (Some ca, Some de, Some lvl, Some sess) \<Rightarrow>
          a_status de = ''active'' \<and> payload_fits (dep_validate dp) de f \<and> s_closed sess = None \<and>
          acl_admits (rrules r) ca de lvl \<and>
          (case nf_parent f of None \<Rightarrow> True
           | Some p \<Rightarrow> count_task_chain_depth p (nf_user f) (rdb r) < spawn_max_depth (rsettings r))
      | _ \<Rightarrow> False)"

lemma pre_checks_Inr:
  assumes "pre_checks dp s f caller r = (Inr lvl, r')" "\<And>i q. i < 6 \<Longrightarrow> sc_env s i q = q"
  shows "authorised dp (sc_clock s 2) f caller r" "rdb r' = rdb r" "rsettings r' = rsettings r"
    "truthy (nf_idem f) \<Longrightarrow> find_idempotent (nf_user f) (the (nf_idem f)) caller (rdb r) = None"
proof -
  obtain ca de r1 r2 r3 where c:
    "truthy (nf_idem f) \<longrightarrow> find_idempotent (nf_user f) (the (nf_idem f)) caller (rdb r) = None"
    "get_agent caller (rdb r) = Some ca" "get_agent (nf_dest f) (rdb r) = Some de" "a_status de = ''active''"
    "payload_fits (dep_validate dp) de f"
    "session_level (nf_user f) (sc_clock s 2) r = (Some lvl, r1)"
    "\<exists>z. get_session (nf_user f) (nf_session f) (rdb r1) = Some z \<and> s_closed z = None"
    "check_acl ''invoke'' ca de caller (nf_dest f) lvl r1 = (Inr (), r2)"
    "check_quota (dep_redis dp) (nf_user f) lvl (sc_clock s 4) r2 = (Inr (), r3)"
    "case nf_parent f of None \<Rightarrow> True | Some p \<Rightarrow>
        count_task_chain_depth p (nf_user f) (rdb r3) < spawn_max_depth (rsettings r3)" "r' = r3"
    using assms
    by (auto simp: pre_checks_def bindS_Inr lookup_idempotent_Inr lookup_agents_Inr check_schema_Inr
        check_level_Inr check_session_Inr check_depth_Inr retS_Inr split: prod.splits)
  have r1: "r1 = snd (session_level (nf_user f) (sc_clock s 2) r)" using c(6) by simp
  note fr = session_level_frame [of "nf_user f" "sc_clock s 2" r, folded r1]
  note a = check_acl_Inr [OF c(8)] and q = check_quota_Inr [OF c(9)]
  show "rdb r' = rdb r" "rsettings r' = rsettings r" using fr a q c(11) by simp_all
  show "authorised dp (sc_clock s 2) f caller r"
    using c fr a q by (auto simp: authorised_def split: option.splits)
  show "truthy (nf_idem f) \<Longrightarrow> find_idempotent (nf_user f) (the (nf_idem f)) caller (rdb r) = None"
    using c(1) by blast
qed

lemma admit_new_Inr:
  assumes "admit_new_task dp s f caller new_id cid r = (Inr out, r')"
  obtains lvl r1 row r2 r3 where "pre_checks dp s f caller r = (Inr lvl, r1)"
    "persist_task f caller new_id (sc_clock s 6) (sc_env s 6 r1) = (Inr row, r2)"
    "dispatch_task s f row lvl cid (cache_caller_agent (t_id row) caller (nf_dest f) (sc_env s 7 r2)) = (Inr (), r3)"
    "mark_running row (nf_dest f) (sc_clock s 10) (sc_env s 10 r3) = (Inr (), r')"
    "out = Admitted (t_id row) None"
  using assms by (auto simp: admit_new_task_def bindS_Inr cache_step_def retS_Inr)

lemma mark_running_not_queued:
  assumes "mark_running row dest now r = (u, r')" "find_task (rdb r) (t_id row) = Some t"
  shows "\<exists>t'. find_task (rdb r') (t_id row) = Some t' \<and> t_state t' \<noteq> QUEUED \<and> row_evolves t t'"
proof (cases "task_transition (t_id row) RUNNING ''agent_accepted'' (Some dest) [] None None None now (rdb r)")
  case (Inl e)
  then have "r' = r" using assms(1) by (simp add: mark_running_def)
  moreover have "t_state t \<noteq> QUEUED"
    using Inl assms(2) by (auto simp: transition_cases is_allowed_transition_def Let_def split: if_splits)
  ultimately show ?thesis using assms(2) by auto
next
  case (Inr x)
  obtain tr d where x: "x = (tr, d)" by (cases x)
  then have r': "rdb r' = d" using assms(1) Inr by (auto simp: mark_running_def)
  obtain t' where "find_task d (t_id row) = Some t'" "row_evolves t t'"
    using evolvesD [OF transition_evolves [OF Inr [unfolded x]] assms(2)] by blast
  moreover have "t_state t' = RUNNING"
    using Inr [unfolded x] by (rule transition_Inr) (use assms(2) calculation(1) in \<open>auto split: if_splits\<close>)
  ultimately show ?thesis using r' by auto
qed

lemma persist_parent:
  assumes "persist_task f caller new_id now r = (Inr row, r')"
  shows "case nf_parent f of None \<Rightarrow> True | Some p \<Rightarrow> \<exists>pt. get_task (nf_user f) p (rdb r) = Some pt"
proof -
  from insert_new_task_Inr [OF persist_task_Inr(2) [OF assms]] obtain dl d where
    "create_task (nf_user f) new_id (nf_session f) (nf_dest f) caller (nf_parent f) (nf_priority f)
       dl (nf_idem f) (nf_payload f) None now (rdb r) = Inr (row, d)" by blast
  from create_task_Inr(19) [OF this] show ?thesis by (auto split: option.splits)
qed

text \<open>A step that does not stop the admission with an \<open>AdmitResult\<close>.\<close>

definition no_result :: "('r, 'a) step \<Rightarrow> bool" where
  "no_result m = (\<forall>r tid rep. fst (m r) \<noteq> Inl (Admitted tid rep))"

lemma bindS_fst_Inl:
  "fst (bindS m f r) = Inl out \<Longrightarrow> fst (m r) = Inl out \<or> (\<exists>a r1. fst (f a r1) = Inl out)"
  by (auto simp: bindS_def split: sum.splits prod.splits)

lemma no_result_bind: "no_result m \<Longrightarrow> (\<And>a. no_result (f a)) \<Longrightarrow> no_result (bindS m f)"
  unfolding no_result_def using bindS_fst_Inl by metis

lemma stop_first:
  assumes "bindS m f r = (Inl (Admitted tid rep), r')" "\<And>a. no_result (f a)"
  shows "m r = (Inl (Admitted tid rep), r')"
proof -
  have "f a q \<noteq> (Inl (Admitted tid rep), r')" for a q using assms(2) unfolding no_result_def by (metis fst_conv)
  then show ?thesis using assms(1) unfolding bindS_Inl by blast
qed

lemma no_result_steps:
  "no_result (yieldS s i)" "no_result (retS a)" "no_result (lookup_agents caller dest)"
  "no_result (check_schema v callee f)" "no_result (check_session uid sid m)" "no_result (check_depth parent uid)"
  "no_result (check_level uid now)" "no_result (check_acl verb ca de caller dest lvl)"
  "no_result (check_quota ev uid lvl now)" "no_result (finish_dispatch s f row c fut cid)"
  "no_result (mark_running row dest now)" "no_result (cache_step row caller dest)"
  by (auto simp: no_result_def yieldS_def retS_def lookup_agents_def check_schema_def select_schema_def
      check_session_def check_depth_def check_level_def check_acl_def check_quota_def finish_dispatch_def
      mark_running_def cache_step_def Let_def refuse_def
      split: option.split prod.split validation.split fut.split exn.split frame.split sum.split json.split list.split)

lemma no_result_case: "(\<And>x y. no_result (g x y)) \<Longrightarrow> no_result (case p of (x, y) \<Rightarrow> g x y)"
  by (cases p) simp

lemma no_result_dispatch: "no_result (dispatch_task s f row lvl cid)"
proof -
  have "no_result (bindS (yieldS s 9) (\<lambda>_. finish_dispatch s f row c fut cid))" for c fut
    by (intro no_result_bind no_result_steps)
  then show ?thesis
    by (auto simp: no_result_def dispatch_task_def refuse_def split: delivery.split prod.split)
qed

lemma idempotent_admit_result_is: "\<exists>rep. idempotent_admit_result t = Admitted (t_id t) rep"
  by (auto simp: idempotent_admit_result_def split: option.split)

text \<open>An admission that stops early with a result is a retry of a stored task.\<close>

lemma stopped_is_retry:
  assumes "admit_new_task dp s f caller new_id cid r = (Inl (Admitted tid rep), r')"
    "\<And>i q. i < 8 \<Longrightarrow> sc_env s i q = q"
  shows "find_task (rdb r) tid \<noteq> None"
proof -
  let ?rest = "\<lambda>lvl row. bindS (yieldS s 7) (\<lambda>_. bindS (cache_step row caller (nf_dest f)) (\<lambda>_.
     bindS (dispatch_task s f row lvl cid) (\<lambda>_. bindS (yieldS s 10) (\<lambda>_.
     bindS (mark_running row (nf_dest f) (sc_clock s 10)) (\<lambda>_. retS (Admitted (t_id row) None))))))"
  have rest: "no_result (?rest lvl row)" for lvl row
    by (intro no_result_bind no_result_steps no_result_dispatch)
  have in_table: "find_task d (t_id t) \<noteq> None" if "find_idempotent uid key c d = Some t" for uid key c d t
    using find_idempotent_SomeD [OF that] by (auto simp: find_task_def tbl_get_def find_None_iff)
  from assms(1) consider
    (pre) "pre_checks dp s f caller r = (Inl (Admitted tid rep), r')"
  | (ins) lvl r1 where "pre_checks dp s f caller r = (Inr lvl, r1)"
      "persist_task f caller new_id (sc_clock s 6) (sc_env s 6 r1) = (Inl (Admitted tid rep), r')"
  proof -
    have "pre_checks dp s f caller r = (Inl (Admitted tid rep), r') \<or>
      (\<exists>lvl r1. pre_checks dp s f caller r = (Inr lvl, r1) \<and>
        bindS (persist_task f caller new_id (sc_clock s 6)) (?rest lvl) (sc_env s 6 r1) = (Inl (Admitted tid rep), r'))"
      using assms(1) by (simp only: admit_new_task_def bindS_Inl [of "pre_checks dp s f caller"] yieldS_Inr)
    moreover have "persist_task f caller new_id (sc_clock s 6) q = (Inl (Admitted tid rep), r')"
      if "bindS (persist_task f caller new_id (sc_clock s 6)) (?rest lvl) q = (Inl (Admitted tid rep), r')" for lvl q
      by (rule stop_first [OF that rest])
    ultimately show thesis using that by blast
  qed
  then show ?thesis
  proof cases
    case pre
    have "lookup_idempotent f caller r = (Inl (Admitted tid rep), r')"
      by (rule stop_first [OF pre [unfolded pre_checks_def]])
        (intro no_result_bind no_result_steps no_result_case)
    then obtain t where "find_idempotent (nf_user f) (the (nf_idem f)) caller (rdb r) = Some t"
      "idempotent_admit_result t = Admitted tid rep"
      by (auto simp: lookup_idempotent_def split: option.splits if_splits)
    then show ?thesis using in_table idempotent_admit_result_is by (metis admit_outcome.inject(1))
  next
    case ins
    have q: "rdb r1 = rdb r" "sc_env s 6 r1 = r1" using pre_checks_Inr(2) [OF ins(1)] assms(2) by simp_all
    from ins(2) have "insert_new_task f caller new_id (sc_clock s 6) r1 = (Inl (Admitted tid rep), r')"
      unfolding persist_task_def bindS_Inl q(2) by (auto simp: check_session_Inr check_session_def refuse_def
          split: option.splits if_splits)
    then obtain t where "find_idempotent (nf_user f) (the (nf_idem f)) caller (rdb r1) = Some t"
      "idempotent_admit_result t = Admitted tid rep"
      by (auto simp: insert_new_task_def refuse_def Let_def
          split: sum.splits prod.splits db_error.splits option.splits if_splits)
    then show ?thesis using in_table idempotent_admit_result_is q(1) by (metis admit_outcome.inject(1))
  qed
qed


text \<open>A router with an open session, two registered agents and a rule that lets them talk.\<close>

definition office :: "unit router" where
  "office = demo_router\<lparr>rdb := (rdb demo_router)\<lparr>
     users := [\<lparr>u_id = ''u'', u_level = ''tier1'', u_suspended = None, u_deleted = None, u_email = None, u_auth_kind = ''password'', u_secret = None,
       u_serviced_by = [], u_purged = None\<rparr>],
     sessions := [\<lparr>s_id = ''s'', s_user = ''u'', s_opened = 0, s_closed = None, s_metadata = []\<rparr>],
     agents := [\<lparr>a_id = ''c'', a_status = ''active'', a_caps = [], a_groups = [], a_info = JObj [], a_public_key = None, a_last_seen = None\<rparr>,
                \<lparr>a_id = ''b'', a_status = ''active'', a_caps = [], a_groups = [], a_info = JObj [], a_public_key = None, a_last_seen = None\<rparr>]\<rparr>,
     rrules := [ex_rule Allow ''*'' ''*/*'' ''*/*'']\<rparr>"

definition ask :: new_task_frame where
  "ask = \<lparr>nf_agent = ''c'', nf_task = None, nf_parent = Some ''t1'', nf_dest = ''b'', nf_user = ''u'', nf_level = '''',
     nf_session = ''s'', nf_priority = Normal, nf_deadline = None, nf_idem = Some ''key'', nf_mode = None,
     nf_payload = JStr ''hello'', nf_delegator = None\<rparr>"

text \<open>At step \<open>n\<close>, while the frame's ack is awaited, \<open>verdict\<close> arrives for it.\<close>

definition answered :: "nat \<Rightarrow> frame \<Rightarrow> 'r schedule" where
  "answered n verdict = \<lparr>sc_env = (\<lambda>i r. if i = n then r\<lparr>acks := snd (ack_resolve ''k'' verdict (acks r))\<rparr> else r),
     sc_clock = (\<lambda>i. of_nat i), sc_health = DbUp\<rparr>"

definition no_deps :: "'r deps" where
  "no_deps = \<lparr>dep_validate = (\<lambda>_ _. Valid), dep_digest = (\<lambda>a. au_event a @ au_self a),
     dep_redis = (\<lambda>_ _ _ _ _ _ _. None)\<rparr>"

lemma calm_answered [simp]: "calm (answered n verdict)"
  by (simp add: calm_def answered_def good_cong)

lemma office_find [simp]: "find_task (rdb office) tid = (if tid = ''t1'' then Some demo_task else None)"
  by (simp add: office_def demo_defs find_task_def tbl_get_def)

lemma office_inv [simp]: "inv office"
proof -
  have "cache_ok office"
    by (auto simp: cache_ok_def lru.coherent_def lru_ok_def task_agents_def lru_peek_def)
      (auto simp: office_def demo_defs lru_peek_def split: if_splits)
  moreover have "frames_ok office" by (auto simp: frames_ok_def office_def demo_defs)
  moreover have "reg_ok office"
    by (auto simp: reg_ok_def socket_keys_def chans_ok_def office_def demo_defs chan_of_def split: if_splits)
  ultimately show ?thesis
    by (simp add: inv_def) (simp add: db_ok_def tbl_ok_def idem_unique_def tree_ok_def office_def demo_defs)
qed

definition yes :: frame where
  "yes = AckF \<lparr>ak_ref = ''k'', ak_accepted = True, ak_reason = None, ak_task = None\<rparr>"

lemma office_admits:
  "fst (admit_task no_deps (answered 9 yes) ask ''c'' ''t2'' ''k'' office) = Admitted ''t2'' None"
  by code_simp


section \<open>The insert\<close>

text \<open>
  The insert of a task happens under its session's lock: whatever ran before,
  in the very state the row is inserted in the session is the user's and open, and the id is
  free; the row starts \<open>QUEUED\<close> with the destination as its executor, its first event is
  stored with it, and no other row changes.
\<close>

theorem insert_sees_open_session:
  assumes "persist_task f caller new_id now r = (Inr row, r')"
  shows "(\<exists>z. get_session (nf_user f) (nf_session f) (rdb r) = Some z \<and> s_closed z = None) \<and>
    find_task (rdb r) new_id = None \<and> find_task (rdb r') = (find_task (rdb r))(new_id \<mapsto> row) \<and>
    t_state row = QUEUED \<and> t_active row = nf_dest f \<and> sessions (rdb r') = sessions (rdb r) \<and>
    events (rdb r') = events (rdb r) @ [\<lparr>ev_task = new_id, ev_ts = now, ev_kind = ''admitted'',
      ev_actor = Some caller, ev_from = None, ev_to = None, ev_payload = JObj [(''caller'', JStr caller)]\<rparr>]"
proof -
  from insert_new_task_Inr [OF persist_task_Inr(2) [OF assms]] obtain dl d e d' where
    c: "create_task (nf_user f) new_id (nf_session f) (nf_dest f) caller (nf_parent f) (nf_priority f)
       dl (nf_idem f) (nf_payload f) None now (rdb r) = Inr (row, d)" and
    e: "insert_task_event (nf_user f) (t_id row) ''admitted'' (Some caller) None None
       [(''caller'', JStr caller)] now d = Inr (e, d')" "r' = r\<lparr>rdb := d'\<rparr>" by blast
  show ?thesis
    using persist_task_find [OF assms] persist_task_Inr(1) [OF assms]
      create_task_Inr(1) [OF c] insert_task_event_Inr [OF e(1)] e(2) by simp
qed

definition stored :: "unit router \<Rightarrow> task_row" where
  "stored r = (case fst (persist_task ask ''c'' ''t2'' 6 r) of Inr row \<Rightarrow> row | Inl _ \<Rightarrow> demo_task)"

theorem insert_sees_open_session_witness:
  "find_task (rdb office) ''t2'' = None \<and>
   find_task (rdb (snd (persist_task ask ''c'' ''t2'' 6 office))) ''t2'' = Some (stored office) \<and>
   t_state (stored office) = QUEUED"
proof -
  have "case fst (persist_task ask ''c'' ''t2'' 6 office) of Inr _ \<Rightarrow> True | Inl _ \<Rightarrow> False" by code_simp
  then have "persist_task ask ''c'' ''t2'' 6 office = (Inr (stored office), snd (persist_task ask ''c'' ''t2'' 6 office))"
    by (auto simp: stored_def prod_eq_iff split: sum.splits)
  from insert_sees_open_session [OF this] show ?thesis by simp
qed

section \<open>Retries\<close>

lemma idempotent_stop:
  assumes "inv r" "find_task (rdb r) tid = Some t" "t_user t = nf_user f" "t_caller t = caller"
    "t_idem t = nf_idem f" "truthy (nf_idem f)" "nf_task f = None"
  shows "admit_task dp s f caller new_id cid r = (idempotent_admit_result t, r)"
proof -
  obtain key where k: "nf_idem f = Some key" using assms(6) by (cases "nf_idem f") (auto simp: truthy_def)
  have "find_idempotent (nf_user f) key caller (rdb r) = Some t"
    using find_idempotent_in [OF invD(1) [OF assms(1)], of t key] find_task_SomeD [OF assms(2)] assms(3-5) k by simp
  then have "lookup_idempotent f caller r = (Inl (idempotent_admit_result t), r)"
    using assms(6) k by (simp add: lookup_idempotent_def)
  then show ?thesis using assms(7)
    by (simp add: admit_task_def outcome_of_def admit_new_task_def pre_checks_def bindS_def)
qed

text \<open>
  A retried admission (same caller, user and idempotency key) answers with the
  task that is stored, before any other check and without changing anything; it carries a
  result exactly when the task has ended.
\<close>

theorem retry_replays_the_task:
  assumes "inv r" "find_task (rdb r) tid = Some t" "t_user t = nf_user f" "t_caller t = caller"
    "t_idem t = nf_idem f" "truthy (nf_idem f)" "nf_task f = None"
  shows "\<exists>rep. admit_task dp s f caller new_id cid r = (Admitted tid rep, r) \<and>
    (rep \<noteq> None \<longleftrightarrow> is_terminal (t_state t))"
proof -
  have "t_id t = tid" using find_task_SomeD [OF assms(2)] by simp
  then show ?thesis using idempotent_stop [OF assms]
    by (cases "t_state t") (simp_all add: idempotent_admit_result_def)
qed

text \<open>
  The result a retry replays is the one that was reported: after the executor's
  Result ended a task, a retry of its admission returns that Result's status, code, output
  and error, through the JSON columns they were stored in.
\<close>

theorem retry_replays_the_result:
  assumes "inv r" "find_task (rdb r) tid = Some t" "\<not> is_terminal (t_state t)" "t_output t = None"
    "t_user t = nf_user f" "t_caller t = caller" "t_idem t = nf_idem f" "truthy (nf_idem f)" "nf_task f = None"
    "rf_task g = tid" "is_allowed_transition (t_state t) (state_from_status (rf_status g))"
    "\<And>out. rf_output g = Some out \<Longrightarrow> output_ok out"
  shows "admit_task dp s f caller new_id cid (complete_task g (t_active t) now r) =
    (Admitted tid (Some \<lparr>rf_agent = t_agent t, rf_task = tid, rf_parent = t_parent t, rf_status = rf_status g,
       rf_code = rf_code g, rf_output = rf_output g, rf_error = coalesce (rf_error g) (t_error t)\<rparr>),
     complete_task g (t_active t) now r)"
proof -
  let ?r = "complete_task g (t_active t) now r"
  let ?t = "set_state (state_from_status (rf_status g)) (Some (rf_code g))
        (map_option dump_output (rf_output g)) (rf_error g) now t"
  have tid: "t_id t = tid" using find_task_SomeD [OF assms(2)] by simp
  have "inv ?r" by (rule goodD(1) [OF good_complete_task assms(1)])
  moreover have "find_task (rdb ?r) tid = Some ?t"
    using complete_task_row(1) [of r g t] assms(2,3,10,11) by simp
  ultimately have "admit_task dp s f caller new_id cid ?r = (idempotent_admit_result ?t, ?r)"
    by (rule idempotent_stop) (use assms in \<open>simp_all add: set_state_def\<close>)
  moreover have "safe_rehydrate_output (t_output ?t) = rf_output g"
    using assms(4,12) parse_dump_output
    by (cases "rf_output g") (auto simp: safe_rehydrate_output_def set_state_def coalesce_def)
  ultimately show ?thesis using tid
    by (cases "rf_status g") (simp_all add: idempotent_admit_result_def set_state_def coalesce_def)
qed

text \<open>The demo task with an idempotency key.\<close>

definition keyed_router :: "unit router" where
  "keyed_router = demo_router\<lparr>rdb := (rdb demo_router)\<lparr>tasks := [demo_task\<lparr>t_idem := Some ''key''\<rparr>]\<rparr>\<rparr>"

lemma keyed_find [simp]:
  "find_task (rdb keyed_router) tid = (if tid = ''t1'' then Some (demo_task\<lparr>t_idem := Some ''key''\<rparr>) else None)"
  by (simp add: keyed_router_def demo_defs find_task_def tbl_get_def)

lemma keyed_inv [simp]: "inv keyed_router"
proof -
  have "cache_ok keyed_router"
    by (auto simp: cache_ok_def lru.coherent_def lru_ok_def task_agents_def lru_peek_def)
      (auto simp: keyed_router_def demo_defs lru_peek_def split: if_splits)
  moreover have "frames_ok keyed_router" by (auto simp: frames_ok_def keyed_router_def demo_defs)
  moreover have "reg_ok keyed_router"
    by (auto simp: reg_ok_def socket_keys_def chans_ok_def keyed_router_def demo_defs chan_of_def split: if_splits)
  ultimately show ?thesis
    by (simp add: inv_def) (simp add: db_ok_def tbl_ok_def idem_unique_def tree_ok_def keyed_router_def demo_defs)
qed

theorem retry_replays_the_task_witness:
  "\<exists>rep. admit_task no_deps (answered 9 yes) ask ''c'' ''t9'' ''k'' keyed_router = (Admitted ''t1'' rep, keyed_router) \<and>
    (rep \<noteq> None \<longleftrightarrow> is_terminal (t_state (demo_task\<lparr>t_idem := Some ''key''\<rparr>)))"
  by (rule retry_replays_the_task) (simp_all add: demo_task_def ask_def truthy_def)

theorem retry_replays_the_result_witness:
  "fst (admit_task no_deps (answered 9 yes) ask ''c'' ''t9'' ''k''
     (complete_task \<lparr>rf_agent = ''b'', rf_task = ''t1'', rf_parent = None, rf_status = Succeeded, rf_code = 200,
        rf_output = Some \<lparr>ao_content = Some ''done'', ao_files = [], ao_metadata = []\<rparr>, rf_error = None\<rparr>
        (t_active (demo_task\<lparr>t_idem := Some ''key''\<rparr>)) 7 keyed_router)) =
   Admitted ''t1'' (Some \<lparr>rf_agent = ''a'', rf_task = ''t1'', rf_parent = None, rf_status = Succeeded, rf_code = 200,
     rf_output = Some \<lparr>ao_content = Some ''done'', ao_files = [], ao_metadata = []\<rparr>, rf_error = None\<rparr>)"
  by (subst retry_replays_the_result [where tid = "''t1''" and t = "demo_task\<lparr>t_idem := Some ''key''\<rparr>"])
    (simp_all add: demo_task_def ask_def truthy_def is_allowed_transition_def output_ok_def MAX_ATTACHMENTS_def coalesce_def)

section \<open>Refusals\<close>

definition id_free :: "task_id \<Rightarrow> 'r router \<Rightarrow> bool" where
  "id_free tid r = (find_task (rdb r) tid = None)"

definition keeps_free :: "task_id \<Rightarrow> ('r, 'a) step \<Rightarrow> bool" where
  "keeps_free tid m = (\<forall>r. id_free tid r \<longrightarrow> id_free tid (snd (m r)))"

lemma keeps_free_bind: "keeps_free tid m \<Longrightarrow> (\<And>a. keeps_free tid (f a)) \<Longrightarrow> keeps_free tid (bindS m f)"
  unfolding keeps_free_def bindS_def by (auto split: sum.split prod.split)

lemma keeps_free_case: "(\<And>x y. keeps_free tid (g x y)) \<Longrightarrow> keeps_free tid (case p of (x, y) \<Rightarrow> g x y)"
  by (cases p) simp

lemma keeps_free_rdb: "(\<And>r. rdb (snd (m r)) = rdb r) \<Longrightarrow> keeps_free tid m"
  by (simp add: keeps_free_def id_free_def)

lemma rdb_checks:
  "rdb (snd (check_level uid now r)) = rdb r" "rdb (snd (check_acl verb ca de caller dest lvl r)) = rdb r"
  "rdb (snd (check_quota ev uid lvl now r)) = rdb r" "rdb (snd (retS a r)) = rdb r"
  using session_level_frame(1) [of uid now r]
  by (auto simp: check_level_def check_acl_def check_quota_def count_metric_def retS_def Let_def
      split: option.split prod.split)

lemma keeps_free_checks:
  "keeps_free tid (lookup_idempotent f caller)" "keeps_free tid (lookup_agents caller dest)"
  "keeps_free tid (check_schema v callee f)" "keeps_free tid (check_session uid sid m)"
  "keeps_free tid (check_depth parent uid)" "keeps_free tid (check_level uid now)"
  "keeps_free tid (check_acl verb ca de caller dest lvl)" "keeps_free tid (check_quota ev uid lvl now)"
  "keeps_free tid (retS a)"
  by (rule keeps_free_rdb, simp add: checks_pure rdb_checks)+

text \<open>Nobody else inserts a task with this id.\<close>

definition reserves :: "task_id \<Rightarrow> 'r schedule \<Rightarrow> bool" where
  "reserves tid s = (\<forall>i r. id_free tid r \<longrightarrow> id_free tid (sc_env s i r))"

lemma keeps_free_pre_checks: "reserves tid s \<Longrightarrow> keeps_free tid (pre_checks dp s f caller)"
proof -
  assume "reserves tid s"
  then have y: "keeps_free tid (yieldS s i)" for i by (simp add: keeps_free_def yieldS_def reserves_def)
  show ?thesis unfolding pre_checks_def
    by (intro keeps_free_bind keeps_free_checks keeps_free_case y)
qed

lemma safe_fail_ends:
  assumes "inv r" "find_task (rdb r) tid = Some t" "t_user t = uid" "health \<noteq> DbDown"
  shows "\<exists>t'. find_task (rdb (safe_fail health tid uid sc reason er now r)) tid = Some t' \<and> is_terminal (t_state t')"
proof (cases health)
  case FailTaskRaises
  obtain hit d where h: "force_fail_task uid tid sc (Some er) now (rdb r) = (hit, d)" by (metis surj_pair)
  from force_fail_facts(2,3) [OF invD(1) [OF assms(1)] h] h FailTaskRaises assms(2,3) show ?thesis
    by (cases "is_terminal (t_state t)") (auto simp: safe_fail_def)
next
  case DbUp
  have v: "uid = t_user t'" if "find_task (rdb r) tid = Some t'" for t' using that assms(2,3) by simp
  from fail_task_verdict [OF assms(1) _ assms(2), of FAILED tid "Some uid" sc reason "Some er" None now] v DbUp
  show ?thesis by (auto simp: safe_fail_def)
qed (use assms(4) in simp)

lemma dispatch_refused:
  assumes "calm s" "inv q" "find_task (rdb q) (t_id row) = Some t" "t_user t = nf_user f"
    "dispatch_task s f row lvl cid q = (Inl (Refused c m ra), r')" "sc_health s \<noteq> DbDown"
  shows "\<exists>t'. find_task (rdb r') (t_id row) = Some t' \<and> is_terminal (t_state t')"
proof -
  obtain v q1 where v: "deliver_frame (nf_dest f) (NewTaskF cid (delivery_frame f row lvl)) (Some cid)
      (Some (pending_ack_timeout_s (rsettings q))) (sc_clock s 8) q = (v, q1)" by (metis surj_pair)
  have g1: "good q q1" using good_deliver [of q] v by (metis frame_ok_new_task snd_conv)
  have later: "\<exists>t'. find_task (rdb (safe_fail (sc_health s) (t_id row) (nf_user f) sc reason er now p)) (t_id row) = Some t' \<and>
      is_terminal (t_state t')" if g: "good q p" for sc reason er now p
  proof -
    from evolvesD [OF goodD(2) [OF g assms(2)] assms(3)] obtain u where
      "find_task (rdb p) (t_id row) = Some u" "row_evolves t u" by blast
    then show ?thesis using safe_fail_ends goodD(1) [OF g assms(2)] assms(4,6)
      by (auto simp: row_evolves_def same_identity_def)
  qed
  show ?thesis
  proof (cases v)
    case (Awaiting ch fut)
    let ?e = "sc_env s 9 q1"
    obtain w p where w: "deliver_finish ch fut cid ?e = (w, p)" by (metis surj_pair)
    have "good q1 ?e" using assms(1) by (simp add: calm_def)
    then have g: "good q p" using good_trans [OF g1] good_trans good_deliver_finish [of ?e ch fut cid] w by (metis snd_conv)
    have "finish_dispatch s f row ch fut cid ?e = (Inl (Refused c m ra), r')"
      using assms(5) v Awaiting by (simp add: dispatch_task_def)
    then obtain sc reason er now where "r' = safe_fail (sc_health s) (t_id row) (nf_user f) sc reason er now p"
      unfolding finish_dispatch_def Let_def w prod.case
      by (auto split: fut.splits exn.splits frame.splits if_splits)
    then show ?thesis using later [OF g] by blast
  qed (use assms(5) v later [OF g1] in \<open>auto simp: dispatch_task_def\<close>)
qed


definition no :: frame where
  "no = AckF \<lparr>ak_ref = ''k'', ak_accepted = False, ak_reason = Some ''busy'', ak_task = None\<rparr>"

definition refused_task :: task_row where
  "refused_task = (case find_task (rdb (snd (admit_task no_deps (answered 9 no) ask ''c'' ''t2'' ''k'' office))) ''t2'' of
     Some t \<Rightarrow> t | None \<Rightarrow> demo_task)"


text \<open>
  A full outbox is not handled: when the destination's channel is full, the
  admission ends in \<open>QueueFull\<close>, which nothing catches, and the stored row is left as it
  was inserted, \<open>QUEUED\<close> until its deadline.
\<close>

theorem full_outbox_leaves_queued:
  assumes "live_socket r (nf_dest f) = Some k" "ch_full (chans r ! chan_of r k)"
  shows "fst (dispatch_task s f row lvl cid r) = Inl (Crashed ''QueueFull'') \<and>
    rdb (snd (dispatch_task s f row lvl cid r)) = rdb r"
proof -
  let ?c = "chan_of r k"
  obtain n p where p: "ack_register cid (Some (pending_ack_timeout_s (rsettings r))) (sc_clock s 8) (acks r) = (n, p)"
    by (metis surj_pair)
  have "ch_full (chans (add_infl ?c cid (r\<lparr>acks := p\<rparr>)) ! ?c)"
    using assms(2) by (simp add: add_infl_def upd_chan_def ch_full_def)
  then have "fst (deliver_frame (nf_dest f) (NewTaskF cid (delivery_frame f row lvl)) (Some cid)
      (Some (pending_ack_timeout_s (rsettings r))) (sc_clock s 8) r) = QueueFull"
    unfolding deliver_frame_def assms(1) option.case Let_def p prod.case by simp
  moreover have "rdb (snd (deliver_frame (nf_dest f) (NewTaskF cid (delivery_frame f row lvl)) (Some cid)
      (Some (pending_ack_timeout_s (rsettings r))) (sc_clock s 8) r)) = rdb r"
    using same_store_deliver [of r] unfolding same_store_def by blast
  ultimately show ?thesis by (auto simp: dispatch_task_def split: prod.split)
qed

definition jammed :: "unit router" where
  "jammed = office\<lparr>chans := [\<lparr>ch_cap = 4, ch_out = [], ch_infl = []\<rparr>,
     \<lparr>ch_cap = 1, ch_out = [PingF ''p''], ch_infl = []\<rparr>]\<rparr>"

theorem full_outbox_leaves_queued_witness:
  "fst (dispatch_task (answered 9 yes) ask demo_task ''tier1'' ''k'' jammed) = Inl (Crashed ''QueueFull'') \<and>
   rdb (snd (dispatch_task (answered 9 yes) ask demo_task ''tier1'' ''k'' jammed)) = rdb jammed"
  by (rule full_outbox_leaves_queued [where k = 1])
    (simp_all add: jammed_def office_def demo_router_def ask_def live_socket_def chan_of_def ch_full_def)

section \<open>Delegation\<close>

lemma phase_a_Inr:
  "phase_a f tid caller r = (Inr t, r') \<longleftrightarrow> r' = r \<and> get_task (nf_user f) tid (rdb r) = Some t \<and>
   \<not> is_terminal (t_state t) \<and> t_active t = caller \<and> nf_dest f \<noteq> t_agent t \<and>
   (let m = task_delegation_max_depth (rsettings r);
        prior = list_delegation_destinations (nf_user f) (t_id t) (m + 1) (rdb r)
    in length prior < m \<and> nf_dest f \<notin> set prior)"
  by (auto simp: phase_a_def lock_is_get Let_def split: option.splits if_splits)

text \<open>A step that leaves the database alone.\<close>

definition same_db :: "('r, 'a) step \<Rightarrow> bool" where
  "same_db m = (\<forall>r. rdb (snd (m r)) = rdb r \<and> rsettings (snd (m r)) = rsettings r)"

text \<open>Nothing that runs meanwhile writes to the database or changes the settings.\<close>

definition leaves_db :: "'r schedule \<Rightarrow> bool" where
  "leaves_db s = (\<forall>i r. rdb (sc_env s i r) = rdb r \<and> rsettings (sc_env s i r) = rsettings r)"

lemma same_db_deliver:
  "rdb (snd (deliver_frame a f wait timeout now r)) = rdb r"
  "rsettings (snd (deliver_frame a f wait timeout now r)) = rsettings r"
  "rdb (snd (deliver_finish c fut cid r)) = rdb r" "rsettings (snd (deliver_finish c fut cid r)) = rsettings r"
  using same_store_deliver [of r a f wait timeout now] same_store_chan_ops(3) [of r c cid]
  by (simp_all add: same_store_def deliver_finish_def)

lemma same_db_check_acl: "same_db (check_acl verb ca de caller dest lvl)"
  by (auto simp: same_db_def check_acl_def count_metric_def Let_def split: prod.split)

lemma same_db_check_level: "same_db (check_level uid now)"
  unfolding same_db_def
proof
  fix r
  have "snd (check_level uid now r) = snd (session_level uid now r)"
    by (simp add: check_level_def split: prod.split option.split)
  then show "rdb (snd (check_level uid now r)) = rdb r \<and> rsettings (snd (check_level uid now r)) = rsettings r"
    by (simp add: session_level_frame)
qed

lemma same_db_checks:
  "same_db (lookup_agents caller dest)" "same_db (phase_a f tid caller)" "leaves_db s \<Longrightarrow> same_db (yieldS s i)"
  by (simp_all add: same_db_def checks_pure yieldS_def leaves_db_def)

lemma same_db_finish: "same_db (finish_delegation c fut cid)"
  unfolding same_db_def
proof
  fix r :: "'a router"
  obtain v r1 where v: "deliver_finish c fut cid r = (v, r1)" by (metis surj_pair)
  then have "rdb r1 = rdb r" "rsettings r1 = rsettings r" using same_db_deliver(3,4) [of c fut cid r] by simp_all
  then show "rdb (snd (finish_delegation c fut cid r)) = rdb r \<and>
      rsettings (snd (finish_delegation c fut cid r)) = rsettings r"
    unfolding finish_delegation_def Let_def v prod.case by (auto split: fut.split exn.split frame.split)
qed

lemma same_db_bind: "same_db m \<Longrightarrow> (\<And>a. same_db (f a)) \<Longrightarrow> same_db (bindS m f)"
  unfolding same_db_def bindS_def by (auto split: sum.split prod.split) (metis snd_conv)+

lemma same_db_phase_b: "leaves_db s \<Longrightarrow> same_db (phase_b s f t lvl caller cid)"
  unfolding same_db_def
proof
  fix r :: "'a router" assume l: "leaves_db s"
  obtain v r1 where v: "deliver_frame (nf_dest f) (NewTaskF cid (delegation_frame f t lvl caller)) (Some cid)
      (Some (pending_ack_timeout_s (rsettings r))) (sc_clock s 4) r = (v, r1)" by (metis surj_pair)
  then have r1: "rdb r1 = rdb r" "rsettings r1 = rsettings r"
    using same_db_deliver(1,2) by (metis snd_conv)+
  have "same_db (bindS (yieldS s 5) (\<lambda>_. finish_delegation ch fut cid))" for ch fut
    by (intro same_db_bind same_db_checks same_db_finish l)
  then have "rdb (snd (bindS (yieldS s 5) (\<lambda>_. finish_delegation ch fut cid) r1)) = rdb r1 \<and>
      rsettings (snd (bindS (yieldS s 5) (\<lambda>_. finish_delegation ch fut cid) r1)) = rsettings r1" for ch fut
    unfolding same_db_def by blast
  with r1 show "rdb (snd (phase_b s f t lvl caller cid r)) = rdb r \<and>
      rsettings (snd (phase_b s f t lvl caller cid r)) = rsettings r"
    unfolding phase_b_def v prod.case by (auto split: delivery.split)
qed

text \<open>A step that keeps the invariant, and the database when it stops.\<close>

definition clean_stop :: "('r, 'a) step \<Rightarrow> bool" where
  "clean_stop m = (\<forall>r out r'. inv r \<longrightarrow> m r = (Inl out, r') \<longrightarrow> rdb r' = rdb r)"

lemma clean_stop_bind:
  "same_db m \<Longrightarrow> goodS m \<Longrightarrow> (\<And>a. clean_stop (f a)) \<Longrightarrow> clean_stop (bindS m f)"
  unfolding clean_stop_def bindS_Inl same_db_def goodS_def by (metis goodD(1) snd_conv)

lemma clean_stop_phase_c: "clean_stop (bindS (phase_c digest f tid caller now) (\<lambda>_. retS a))"
  unfolding clean_stop_def bindS_Inl by (auto simp: retS_def dest: phase_c_Inl)

lemma clean_stop_case: "(\<And>x y. clean_stop (g x y)) \<Longrightarrow> clean_stop (case p of (x, y) \<Rightarrow> g x y)"
  by (cases p) simp

lemma clean_stop_delegation:
  assumes "calm s" "leaves_db s"
  shows "clean_stop (admit_delegation dp s f tid caller cid)"
  unfolding admit_delegation_def
  by (intro clean_stop_bind clean_stop_phase_c clean_stop_case same_db_checks same_db_check_level same_db_check_acl
      same_db_phase_b goodS_checks goodS_yield goodS_check_level goodS_check_acl goodS_phase_b assms)

text \<open>
  A small Hoare logic: from a state that differs from \<open>r0\<close> outside the database only, a step
  that goes on ends in a state with \<open>Q\<close>.
\<close>

definition like :: "'r router \<Rightarrow> 'r router \<Rightarrow> bool" where
  "like r0 r \<longleftrightarrow> inv r \<and> rdb r = rdb r0 \<and> rsettings r = rsettings r0"

definition ends :: "'r router \<Rightarrow> ('r, 'a) step \<Rightarrow> ('a \<Rightarrow> 'r router \<Rightarrow> bool) \<Rightarrow> bool" where
  "ends r0 m Q = (\<forall>r a r'. like r0 r \<longrightarrow> m r = (Inr a, r') \<longrightarrow> Q a r')"

lemma ends_step:
  "same_db m \<Longrightarrow> goodS m \<Longrightarrow> (\<And>a. ends r0 (f a) Q) \<Longrightarrow> ends r0 (bindS m f) Q"
  unfolding ends_def bindS_Inr like_def same_db_def goodS_def by (metis goodD(1) snd_conv)

lemma ends_case: "(\<And>x y. ends r0 (g x y) Q) \<Longrightarrow> ends r0 (case p of (x, y) \<Rightarrow> g x y) Q"
  by (cases p) simp

definition may_delegate :: "'r router \<Rightarrow> new_task_frame \<Rightarrow> agent_id \<Rightarrow> task_row \<Rightarrow> bool" where
  "may_delegate r f caller t =
     (let m = task_delegation_max_depth (rsettings r);
          prior = list_delegation_destinations (nf_user f) (t_id t) (m + 1) (rdb r)
      in t_user t = nf_user f \<and> \<not> is_terminal (t_state t) \<and> t_active t = caller \<and> nf_dest f \<noteq> t_agent t \<and>
         nf_dest f \<notin> set prior \<and> length prior < m)"

lemma ends_phase_a:
  assumes "\<And>t. find_task (rdb r0) tid = Some t \<Longrightarrow> may_delegate r0 f caller t \<Longrightarrow> ends r0 (g t) Q"
  shows "ends r0 (bindS (phase_a f tid caller) g) Q"
  unfolding ends_def
proof (intro allI impI)
  fix r a r' assume l: "like r0 r" and m: "bindS (phase_a f tid caller) g r = (Inr a, r')"
  then obtain t where t: "phase_a f tid caller r = (Inr t, r)" "g t r = (Inr a, r')"
    by (auto simp: bindS_Inr phase_a_Inr)
  then have "find_task (rdb r0) tid = Some t" "may_delegate r0 f caller t"
    using l get_task_iff [OF invD(1), of r0] get_task_iff [OF invD(1), of r]
    by (auto simp: phase_a_Inr may_delegate_def like_def Let_def)
  from assms [OF this] t(2) l show "Q a r'" by (auto simp: ends_def)
qed

lemma ends_phase_c:
  assumes "\<And>t d d1 e r'. find_task (rdb r0) tid = Some t \<Longrightarrow>
      find_task (rdb r') = (find_task (rdb r0))(tid \<mapsto> t\<lparr>t_active := nf_dest f, t_updated := now\<rparr>) \<Longrightarrow>
      length (events (rdb r')) = length (events (rdb r0)) + 1 \<Longrightarrow> ev_kind (last (events (rdb r'))) = ''delegated'' \<Longrightarrow>
      length (audit (rdb r')) = length (audit (rdb r0)) + 1 \<Longrightarrow> Q x r'"
  shows "ends r0 (bindS (phase_c digest f tid caller now) (\<lambda>_. retS x)) Q"
  unfolding ends_def
proof (intro allI impI)
  fix r a r' assume l: "like r0 r" and m: "bindS (phase_c digest f tid caller now) (\<lambda>_. retS x) r = (Inr a, r')"
  then have i: "inv r" and p: "phase_c digest f tid caller now r = (Inr (), r')" and a: "a = x"
    by (auto simp: bindS_Inr retS_Inr like_def)
  show "Q a r'"
  proof (rule phase_c_Inr [OF i p])
    fix t d d1 e
    assume c: "find_task (rdb r) tid = Some t"
      "reassign_active_agent (nf_user f) tid (nf_dest f) caller now (rdb r) = (True, d)"
      "insert_task_event (nf_user f) tid ''delegated'' (Some caller) None None
         [(''from'', JStr caller), (''to'', JStr (nf_dest f))] now d = Inr (e, d1)"
      "r' = recache_active_agent tid (nf_dest f) (r\<lparr>rdb := append_audit_event digest ''agent'' (Some caller)
         ''task.delegated'' (Some ''task'') (Some tid) (Some [(''from'', JStr caller), (''to'', JStr (nf_dest f))]) now d1\<rparr>)"
      "find_task (rdb r') = (find_task (rdb r))(tid \<mapsto> t\<lparr>t_active := nf_dest f, t_updated := now\<rparr>)"
    note rf = reassign_facts [OF invD(1) [OF i] c(2)] and ie = insert_task_event_Inr [OF c(3)]
    have "length (events (rdb r')) = length (events (rdb r)) + 1" "ev_kind (last (events (rdb r'))) = ''delegated''"
      using c(4) rf ie by (simp_all add: recache_facts)
    moreover have "length (audit (rdb r')) = length (audit (rdb r)) + 1"
      using c(4) rf ie by (simp add: recache_facts append_audit_event_def Let_def)
    ultimately show "Q a r'" using assms [of t r'] c(1,5) l a by (auto simp: like_def)
  qed
qed

lemma no_result_delegation:
  assumes "v = Inl out" "admit_delegation dp s f tid caller cid r = (v, r')"
  shows "out \<noteq> Admitted t rep"
proof -
  have a: "no_result (phase_a f tid caller)" "no_result (finish_delegation c fut cid)"
    "no_result (phase_c digest f tid caller now)" for c fut digest now
    by (auto simp: no_result_def phase_a_def finish_delegation_def phase_c_def refuse_def Let_def
        split: option.split fut.split exn.split frame.split prod.split sum.split bool.split)
  have "no_result (bindS (yieldS s 5) (\<lambda>_. finish_delegation c fut cid))" for c fut
    by (intro no_result_bind no_result_steps a)
  then have "no_result (phase_b s f t lvl caller cid)" for t lvl
    by (auto simp: no_result_def phase_b_def refuse_def split: delivery.split prod.split)
  then have "no_result (admit_delegation dp s f tid caller cid)"
    unfolding admit_delegation_def by (intro no_result_bind no_result_steps no_result_case a)
  then show ?thesis using assms by (metis no_result_def fst_conv)
qed


text \<open>\<open>b\<close>, who executes the demo task, hands it to \<open>d\<close>.\<close>

definition handover :: new_task_frame where
  "handover = ask\<lparr>nf_agent := ''b'', nf_task := Some ''t1'', nf_dest := ''d''\<rparr>"

definition office3 :: "unit router" where
  "office3 = office\<lparr>rdb := (rdb office)\<lparr>agents := agents (rdb office) @
       [\<lparr>a_id = ''d'', a_status = ''active'', a_caps = [], a_groups = [], a_info = JObj [], a_public_key = None, a_last_seen = None\<rparr>]\<rparr>,
     sockets := sockets office @ [\<lparr>so_agent = ''d'', so_token = ''k3'', so_jti = ''j3'', so_chan = 2, so_closed = False, so_llm = []\<rparr>],
     chans := chans office @ [\<lparr>ch_cap = 4, ch_out = [], ch_infl = []\<rparr>], live := live office @ [(''d'', 2)]\<rparr>"

lemma office3_find [simp]: "find_task (rdb office3) tid = (if tid = ''t1'' then Some demo_task else None)"
  by (simp add: office3_def office_def demo_defs find_task_def tbl_get_def)

lemma office3_inv [simp]: "inv office3"
proof -
  have "cache_ok office3"
    by (auto simp: cache_ok_def lru.coherent_def lru_ok_def task_agents_def lru_peek_def)
      (auto simp: office3_def office_def demo_defs lru_peek_def split: if_splits)
  moreover have "frames_ok office3" by (auto simp: frames_ok_def office3_def office_def demo_defs)
  moreover have "reg_ok office3"
    by (auto simp: reg_ok_def socket_keys_def chans_ok_def office3_def office_def demo_defs chan_of_def split: if_splits)
  ultimately show ?thesis
    by (simp add: inv_def) (simp add: db_ok_def tbl_ok_def idem_unique_def tree_ok_def office3_def office_def demo_defs)
qed


end
