(* ===== verification/Runs.thy ===== *)
theory Runs
  imports Hub AdmissionProps
begin

text \<open>
  Runs of the router: sequences of the modelled operations, in any order and with any
  arguments.  The locale \<open>lifecycle\<close> of \<open>TaskState\<close> is interpreted on them, so that the
  promise of \<open>state.py\<close> (a terminal state is final) holds of whole executions.
\<close>

section \<open>Operations\<close>

datatype 'r op =
    Finish result_frame agent_id time
  | Cancel task_id user_id string agent_id time
  | Expire time                                          \<comment> \<open>one sweep of the deadline loop\<close>
  | Admit "'r deps" "'r schedule" new_task_frame agent_id task_id corr_id
  | Connect agent_id string "string option" string       \<comment> \<open>id, jti, resume token, fresh token\<close>
  | Disconnect nat
  | WindowOver nat time
  | Transmit nat                                         \<comment> \<open>the send loop takes a frame\<close>

fun perform :: "'r op \<Rightarrow> 'r router \<Rightarrow> 'r router" where
  "perform (Finish f a now) r = complete_task f a now r"
| "perform (Cancel tid uid reason a now) r = snd (cancel_task tid uid reason a now r)"
| "perform (Expire now) r = snd (sweep_once now r)"
| "perform (Admit dp s f caller new_id cid) r = snd (admit_task dp s f caller new_id cid r)"
| "perform (Connect a jti resume fresh) r = snd (open_socket a jti resume fresh r)"
| "perform (Disconnect s) r = snd (on_disconnect id s r)"
| "perform (WindowOver s now) r = snd (resume_window_expiry s now r)"
| "perform (Transmit s) r = (case send_get s r of None \<Rightarrow> r | Some (_, r') \<Rightarrow> r')"

fun run_ops :: "'r op list \<Rightarrow> 'r router \<Rightarrow> 'r router" where
  "run_ops [] r = r"
| "run_ops (x # xs) r = run_ops xs (perform x r)"

text \<open>What runs between the steps of an admission is itself made of the router's operations.\<close>

fun calm_op :: "'r op \<Rightarrow> bool" where
  "calm_op (Admit dp s f caller new_id cid) = calm s"
| "calm_op _ = True"

section \<open>Every operation is good\<close>

lemma good_shrink:
  assumes "rdb r' = rdb r" "caller_cache r' = caller_cache r" "live r' = live r" "sockets r' = sockets r"
    "parked r' = parked r" "length (chans r') = length (chans r)" "outs r' \<subseteq> outs r"
  shows "good r r'"
proof -
  have "frames_ok r'" if "frames_ok r" using that assms(1,7) by (fastforce simp: frames_ok_def outs_def)
  moreover have "reg_ok r' = reg_ok r"
    using assms(3-6) by (simp add: reg_ok_def socket_keys_def)
  ultimately show ?thesis using assms(1,2) by (auto simp: good_def inv_def cache_ok_def)
qed

lemma good_send_get:
  assumes "send_get s r = Some (f, r')"
  shows "good r r'"
proof -
  obtain fs where fs: "ch_out (chans r ! chan_of r s) = f # fs"
    "r' = upd_chan (chan_of r s) (\<lambda>ch. ch\<lparr>ch_out := fs\<rparr>) r"
    using assms by (auto simp: send_get_def split: list.splits)
  have "outs r' \<subseteq> outs r"
  proof (cases "chan_of r s < length (chans r)")
    case True
    then have "set fs \<subseteq> outs r" using fs(1) nth_mem [OF True]
      by (auto simp: outs_def intro!: bexI [of _ "chans r ! chan_of r s"])
    then show ?thesis using outs_upd_chan [of "\<lambda>ch. ch\<lparr>ch_out := fs\<rparr>" "set fs" "chan_of r s" r] fs(2) by auto
  qed (simp add: fs(2) upd_chan_def)
  then show ?thesis by (rule good_shrink [rotated -1]) (simp_all add: fs(2) upd_chan_def)
qed

lemma good_perform: "calm_op x \<Longrightarrow> good r (perform x r)"
  by (cases x) (auto simp: good_complete_task good_cancel_task good_sweep_once good_admit_task
      good_open_socket good_on_disconnect good_expiry split: option.split intro: good_send_get)

interpretation router: lifecycle rdb perform "\<lambda>x r. inv r \<and> calm_op x"
  by unfold_locales (use goodD(2) [OF good_perform] in blast)

lemma inv_run_ops: "inv r \<Longrightarrow> list_all calm_op xs \<Longrightarrow> inv (run_ops xs r)"
  by (induction xs arbitrary: r) (auto intro: goodD(1) [OF good_perform])

lemma run_ops_run: "run_ops xs r = router.run xs r"
  by (induction xs arbitrary: r) simp_all

lemma run_ops_append: "run_ops (xs @ ys) r = run_ops ys (run_ops xs r)"
  by (induction xs arbitrary: r) simp_all

lemma legal_run_ops: "inv r \<Longrightarrow> list_all calm_op xs \<Longrightarrow> router.legal_run xs r"
  by (induction xs arbitrary: r) (auto intro: goodD(1) [OF good_perform])

section \<open>What holds of every run\<close>


definition demo_done :: result_frame where
  "demo_done = \<lparr>rf_agent = ''b'', rf_task = ''t1'', rf_parent = None, rf_status = Succeeded,
     rf_code = 200, rf_output = None, rf_error = None\<rparr>"






end
