(* ===== verification/Dispatch.thy ===== *)
theory Dispatch
  imports Hub Delegation AdmissionFacts
begin

text \<open>
  The handlers of \<open>bp_router/dispatch.py\<close> for task, acknowledgement and heartbeat frames,
  and the book-keeping of LLM calls.  A handler is a step (\<open>Admission\<close>): it ends, stops with
  an exception that \<open>_recv_loop\<close> logs, or still waits for room in an outbox.
\<close>

section \<open>Replies\<close>

text \<open>\<open>await entry.outbox.put(frame)\<close>: at once when there is room, otherwise after \<open>env\<close>.\<close>

definition outbox_put :: "('r router \<Rightarrow> 'r router) \<Rightarrow> nat \<Rightarrow> frame \<Rightarrow> ('r, unit) step" where
  "outbox_put env s f r =
     (if \<not> ch_full (chans r ! chan_of r s) then (Inr (), put_frame (chan_of r s) f r)
      else let r1 = env r
           in if ch_full (chans r1 ! chan_of r1 s) then (Inl StillWaiting, r1)
              else (Inr (), put_frame (chan_of r1 s) f r1))"

text \<open>An ack whose reason is too long cannot be built: its constructor raises.\<close>

definition reply_ack ::
  "('r router \<Rightarrow> 'r router) \<Rightarrow> nat \<Rightarrow> corr_id \<Rightarrow> bool \<Rightarrow> string option \<Rightarrow> task_id option \<Rightarrow> ('r, unit) step" where
  "reply_ack env s cid accepted reason tid r =
     (case mk_ack cid accepted reason tid of
        None \<Rightarrow> (Inl (Crashed ''ValidationError''), r)
      | Some f \<Rightarrow> outbox_put env s f r)"

section \<open>Tasks\<close>

definition handle_new_task ::
  "'r deps \<Rightarrow> 'r schedule \<Rightarrow> ('r router \<Rightarrow> 'r router) \<Rightarrow> nat \<Rightarrow> corr_id \<Rightarrow> new_task_frame \<Rightarrow> task_id \<Rightarrow> corr_id \<Rightarrow>
   ('r, unit) step" where
  "handle_new_task dp sc env s cid f new_id out_cid r =
     (case admit_task dp sc f (so_agent (the_socket r s)) new_id out_cid r of
        (Refused c m retry, r1) \<Rightarrow> reply_ack env s cid False (Some m) None r1
      | (Crashed e, r1) \<Rightarrow> reply_ack env s cid False (Some ''internal_error'') None r1
      | (StillWaiting, r1) \<Rightarrow> (Inl StillWaiting, r1)
      | (Admitted tid replay, r1) \<Rightarrow>
          bindS (reply_ack env s cid True None (Some tid)) (\<lambda>_.
            case replay of None \<Rightarrow> retS () | Some x \<Rightarrow> outbox_put env s (ResultF x)) r1)"

text \<open>\<open>db_up\<close> is false when \<open>complete_task\<close> cannot reach the database.\<close>

definition handle_result ::
  "bool \<Rightarrow> ('r router \<Rightarrow> 'r router) \<Rightarrow> nat \<Rightarrow> corr_id \<Rightarrow> result_frame \<Rightarrow> time \<Rightarrow> ('r, unit) step" where
  "handle_result db_up env s cid f now r =
     (if \<not> db_up then reply_ack env s cid False (Some ''internal_error'') None r
      else reply_ack env s cid True None None (complete_task f (so_agent (the_socket r s)) now r))"

text \<open>
  The caller and the executor of the task come from the cache or from the row; the row is
  read first and written to the cache when its connection has been given back (\<open>env\<close>).
\<close>

definition progress_agents ::
  "('r router \<Rightarrow> 'r router) \<Rightarrow> task_id \<Rightarrow> 'r router \<Rightarrow> (agent_id \<times> agent_id) option \<times> 'r router" where
  "progress_agents env tid r =
     (case lru_getitem tid (caller_cache r) of
        Some (v, c) \<Rightarrow> (Some v, r\<lparr>caller_cache := c\<rparr>)
      | None \<Rightarrow>
          (case find_task (rdb r) tid of
             None \<Rightarrow> (None, env r)
           | Some t \<Rightarrow>
               let v = (t_caller t, t_active t); r1 = env r
               in (Some v, if is_terminal (t_state t) then r1
                           else r1\<lparr>caller_cache := lru_set tid v (caller_cache r1)\<rparr>)))"

definition handle_progress :: "('r router \<Rightarrow> 'r router) \<Rightarrow> nat \<Rightarrow> progress_frame \<Rightarrow> 'r router \<Rightarrow> 'r router" where
  "handle_progress env s f r =
     (case progress_agents env (pf_task f) r of
        (None, r1) \<Rightarrow> r1
      | (Some (caller, active), r1) \<Rightarrow>
          if so_agent (the_socket r s) \<noteq> active then r1
          else snd (fanout_frame [caller] (ProgressF f) r1))"

definition handle_cancel ::
  "nat \<Rightarrow> task_id option \<Rightarrow> corr_id option \<Rightarrow> string \<Rightarrow> time \<Rightarrow> 'r router \<Rightarrow> 'r router" where
  "handle_cancel s tid ref reason now r =
     (case ref of
        Some cid \<Rightarrow>
          (case map_of (so_llm (the_socket r s)) cid of
             None \<Rightarrow> r
           | Some l \<Rightarrow> snd (abort_llm l (upd_socket s (\<lambda>x. x\<lparr>so_llm := dict_pop cid (so_llm x)\<rparr>) r)))
      | None \<Rightarrow>
          (case tid of
             None \<Rightarrow> r
           | Some k \<Rightarrow>
               (case find_task (rdb r) k of
                  None \<Rightarrow> r
                | Some t \<Rightarrow>
                    if \<not> task_has_ancestor_with_agent k (so_agent (the_socket r s)) (t_user t) (rdb r) then r
                    else snd (cancel_task k (t_user t) reason (so_agent (the_socket r s)) now r))))"

section \<open>Acknowledgements and heartbeats\<close>

definition settle_inbound :: "string \<Rightarrow> nat \<Rightarrow> corr_id \<Rightarrow> frame \<Rightarrow> 'r router \<Rightarrow> 'r router" where
  "settle_inbound ty s ref f r =
     (if ref \<notin> set (ch_infl (chans r ! chan_of r s)) then count_metric ''ws_unknown_correlation_total'' ty r
      else r\<lparr>acks := snd (ack_resolve ref f (acks r))\<rparr>)"

definition handle_ack :: "nat \<Rightarrow> ack_frame \<Rightarrow> 'r router \<Rightarrow> 'r router" where
  "handle_ack s a r = settle_inbound ''Ack'' s (ak_ref a) (AckF a) r"

definition handle_pong :: "nat \<Rightarrow> corr_id \<Rightarrow> 'r router \<Rightarrow> 'r router" where
  "handle_pong s ref r = settle_inbound ''Pong'' s ref (PongF ref) r"

definition handle_ping :: "('r router \<Rightarrow> 'r router) \<Rightarrow> nat \<Rightarrow> corr_id \<Rightarrow> ('r, unit) step" where
  "handle_ping env s cid r = outbox_put env s (PongF cid) r"

section \<open>LLM calls\<close>

text \<open>
  A call is an address in \<open>llms\<close>, found under its correlation id in the socket's \<open>so_llm\<close> and
  under its task in \<open>llm_index\<close>.  The done callback runs some time after the call has ended
  and removes it from both by identity.
\<close>

definition start_llm :: "nat \<Rightarrow> corr_id \<Rightarrow> task_id option \<Rightarrow> 'r router \<Rightarrow> 'r router" where
  "start_llm s cid tid r =
     (let l = length (llms r);
          bucket = (\<lambda>t. case map_of (llm_index r) t of None \<Rightarrow> [] | Some b \<Rightarrow> b)
      in upd_socket s (\<lambda>x. x\<lparr>so_llm := dict_set cid l (so_llm x)\<rparr>)
           (r\<lparr>llms := llms r @ [\<lparr>lt_task = tid, lt_status = LlmRunning\<rparr>],
              llm_index := (case tid of None \<Rightarrow> llm_index r | Some t \<Rightarrow> dict_set t (bucket t @ [l]) (llm_index r))\<rparr>))"

definition handle_llm_request ::
  "('r router \<Rightarrow> 'r router) \<Rightarrow> nat \<Rightarrow> corr_id \<Rightarrow> task_id option \<Rightarrow> ('r, unit) step" where
  "handle_llm_request env s cid tid r =
     (case map_of (so_llm (the_socket r s)) cid of
        Some l \<Rightarrow>
          if lt_status (llms r ! l) \<noteq> LlmDone
          then outbox_put env s (LlmErrorF cid ''frame_invalid''
                 ''duplicate correlation_id - another LlmRequest with this correlation_id is still in flight'') r
          else (Inr (), start_llm s cid tid r)
      | None \<Rightarrow> (Inr (), start_llm s cid tid r))"

definition llm_ends :: "nat \<Rightarrow> 'r router \<Rightarrow> 'r router" where
  "llm_ends l r = r\<lparr>llms := (if l < length (llms r) then (llms r)[l := (llms r ! l)\<lparr>lt_status := LlmDone\<rparr>] else llms r)\<rparr>"

definition llm_cleanup :: "nat \<Rightarrow> corr_id \<Rightarrow> task_id option \<Rightarrow> nat \<Rightarrow> 'r router \<Rightarrow> 'r router" where
  "llm_cleanup s cid tid l r =
     (let r1 = (if map_of (so_llm (the_socket r s)) cid = Some l
                then upd_socket s (\<lambda>x. x\<lparr>so_llm := dict_pop cid (so_llm x)\<rparr>) r else r)
      in case tid of
           None \<Rightarrow> r1
         | Some t \<Rightarrow>
             (case map_of (llm_index r1) t of
                None \<Rightarrow> r1
              | Some b \<Rightarrow>
                  let b' = removeAll l b
                  in r1\<lparr>llm_index := (if b' = [] then dict_pop t (llm_index r1) else dict_set t b' (llm_index r1))\<rparr>))"

section \<open>The handlers are good\<close>

lemma good_put: "(inv r \<Longrightarrow> frame_ok (rdb r) f) \<Longrightarrow> good r (put_frame c f r)"
proof (rule good_same_store)
  fix k g assume ok: "inv r \<Longrightarrow> frame_ok (rdb r) f" and i: "inv r"
    and k: "k \<in> set (chans (put_frame c f r))" "g \<in> set (ch_out k)"
  then have "g \<in> insert f (outs r)" using outs_chan_ops(1) [of c f r] by (auto simp: outs_def)
  then show "frame_ok (rdb r) g" using ok [OF i] invD(4) [OF i] by (auto simp: outs_def frames_ok_def)
qed simp

lemma good_outbox_put:
  assumes "inv r \<Longrightarrow> frame_ok (rdb r) f" "\<And>q. good q (env q)"
  shows "good r (snd (outbox_put env s f r))"
proof -
  have "inv (env r) \<Longrightarrow> inv r \<Longrightarrow> frame_ok (rdb (env r)) f"
    using frame_ok_evolves [OF assms(1) goodD(2) [OF assms(2)]] by blast
  then have "good r (put_frame c f (env r))" for c
    using assms(2) [of r] good_put [of "env r" f c] unfolding good_def by (meson evolves_trans)
  then show ?thesis using good_put [OF assms(1)] assms(2) [of r] by (simp add: outbox_put_def Let_def)
qed

lemma good_reply_ack: "(\<And>q. good q (env q)) \<Longrightarrow> good r (snd (reply_ack env s cid acc reason tid r))"
  by (auto simp: reply_ack_def mk_ack_def frame_ok_def split: option.splits if_splits intro!: good_outbox_put)

lemma goodS_reply_ack: "(\<And>q. good q (env q)) \<Longrightarrow> goodS (reply_ack env s cid acc reason tid)"
  by (simp add: goodS_def good_reply_ack)

text \<open>The Result an admission replays is the one of the row.\<close>

definition replayS :: "('r, 'a) step \<Rightarrow> bool" where
  "replayS m \<longleftrightarrow> (\<forall>r t x r'. inv r \<longrightarrow> m r = (Inl (Admitted t (Some x)), r') \<longrightarrow> frame_ok (rdb r') (ResultF x))"

lemma replayS_bind: "replayS m \<Longrightarrow> goodS m \<Longrightarrow> (\<And>a. replayS (f a)) \<Longrightarrow> replayS (bindS m f)"
  unfolding replayS_def goodS_def good_def bindS_Inl by (metis snd_conv)

lemma replayS_case: "(\<And>x y. replayS (g x y)) \<Longrightarrow> replayS (case p of (x, y) \<Rightarrow> g x y)"
  by (cases p) simp

text \<open>Steps that never answer with an admission.\<close>

definition plainS :: "('r, 'a) step \<Rightarrow> bool" where
  "plainS m \<longleftrightarrow> (\<forall>r t x. fst (m r) \<noteq> Inl (Admitted t x))"

lemma plainS_bind: "plainS m \<Longrightarrow> (\<And>a. plainS (f a)) \<Longrightarrow> plainS (bindS m f)"
  by (auto simp: plainS_def bindS_def split: prod.split sum.split) (metis fst_conv)

lemma plainS_case: "(\<And>x y. plainS (g x y)) \<Longrightarrow> plainS (case p of (x, y) \<Rightarrow> g x y)"
  by (cases p) simp

lemma replayS_then_plain: "replayS m \<Longrightarrow> (\<And>a. plainS (f a)) \<Longrightarrow> replayS (bindS m f)"
  unfolding replayS_def plainS_def bindS_Inl by (metis fst_conv)

lemma replayS_plain: "plainS m \<Longrightarrow> replayS m"
  unfolding replayS_def plainS_def by (metis fst_conv)

lemma idempotent_frame_ok:
  assumes "db_ok d" "t \<in> set (tasks d)" "idempotent_admit_result t = Admitted k (Some x)"
  shows "frame_ok d (ResultF x)"
proof -
  have "find_task d (t_id t) = Some t" by (rule find_task_in_set [OF assms(1,2)])
  then show ?thesis using assms(3)
    by (auto simp: idempotent_admit_result_def frame_ok_def status_from_state_Some split: option.splits)
qed

lemma find_idempotent_row: "find_idempotent uid key caller d = Some t \<Longrightarrow> t \<in> set (tasks d)"
  unfolding find_idempotent_def by (rule conjunct1 [OF find_SomeD])

lemma replayS_lookup: "replayS (lookup_idempotent f caller)"
  by (auto simp: replayS_def lookup_idempotent_def split: if_splits option.splits
      dest!: find_idempotent_row intro: idempotent_frame_ok invD)

lemma replayS_insert: "replayS (insert_new_task f caller new_id now)"
  unfolding replayS_def
proof (intro allI impI)
  fix r :: "'a router" and t x r'
  assume i: "inv r" and m: "insert_new_task f caller new_id now r = (Inl (Admitted t (Some x)), r')"
  let ?c = "create_task (nf_user f) new_id (nf_session f) (nf_dest f) caller (nf_parent f) (nf_priority f)
       (Some (case nf_deadline f of Some dl \<Rightarrow> dl | None \<Rightarrow> now + default_task_deadline_s (rsettings r)))
       (nf_idem f) (nf_payload f) None now (rdb r)"
  have r': "r' = r" by (rule insert_new_task_Inl [OF m])
  show "frame_ok (rdb r') (ResultF x)"
  proof (cases ?c)
    case (Inl e)
    have "\<exists>row. find_idempotent (nf_user f) (the (nf_idem f)) caller (rdb r) = Some row \<and>
        idempotent_admit_result row = Admitted t (Some x)"
      using m unfolding insert_new_task_def Let_def Inl sum.case
      by (cases e) (auto simp: refuse_def split: option.splits if_splits)
    then show ?thesis using idempotent_frame_ok [OF invD(1) [OF i]] find_idempotent_row r' by blast
  next
    case (Inr y)
    then show ?thesis using m unfolding insert_new_task_def Let_def Inr sum.case
      by (auto split: prod.splits sum.splits)
  qed
qed

lemma plain_steps:
  "plainS (lookup_agents caller dest)" "plainS (check_level uid now)" "plainS (check_session uid sid m)"
  "plainS (check_acl verb ca de caller dest lvl)" "plainS (check_quota ev uid lvl now)"
  "plainS (check_depth parent uid)" "plainS (yieldS s i)" "plainS (retS a)"
  "plainS (mark_running row dest now)" "plainS (cache_step row caller dest)" "plainS (phase_a nf tid caller)"
  "plainS (phase_c digest nf tid caller now)"
  unfolding plainS_def
  by (auto simp: lookup_agents_def check_level_def check_session_def check_acl_def
      check_quota_def check_depth_def yieldS_def retS_def mark_running_def cache_step_def phase_a_def phase_c_def
      refuse_def Let_def split: option.splits prod.splits sum.splits if_splits bool.splits)

lemma plain_schema: "plainS (check_schema v callee f)"
proof -
  have "select_schema info m \<noteq> Inl (Admitted t x)" for info m t x
    by (auto simp: select_schema_def refuse_def Let_def split: option.splits json.splits list.splits if_splits)
  then show ?thesis
    by (auto simp: plainS_def check_schema_def refuse_def split: sum.splits option.splits validation.splits if_splits)
qed

lemma plain_dispatch: "plainS (dispatch_task s f row lvl cid)" "plainS (phase_b s f row lvl caller cid)"
  unfolding plainS_def
  by (auto simp: dispatch_task_def phase_b_def finish_dispatch_def finish_delegation_def
      bindS_def yieldS_def refuse_def Let_def
      split: delivery.splits prod.splits fut.splits exn.splits frame.splits if_splits sum.splits)

lemma admit_replay_ok:
  assumes "calm sc" "inv r" "admit_task dp sc f caller new_id cid r = (Admitted t (Some x), r')"
  shows "frame_ok (rdb r') (ResultF x)"
proof -
  have "replayS (pre_checks dp sc f caller)" unfolding pre_checks_def
    by (intro replayS_then_plain [OF replayS_lookup] plainS_bind plainS_case plain_steps plain_schema)
  moreover have "replayS (persist_task f caller new_id (sc_clock sc 6))" unfolding persist_task_def
    by (intro replayS_bind replayS_insert replayS_plain plain_steps goodS_checks)
  ultimately have n: "replayS (admit_new_task dp sc f caller new_id cid)" unfolding admit_new_task_def
    by (intro replayS_bind goodS_pre_checks goodS_yield replayS_plain [OF plain_steps(7)] replayS_then_plain
        plainS_bind plain_steps plain_dispatch assms) simp_all
  have "plainS (admit_delegation dp sc f tid caller cid)" for tid
    unfolding admit_delegation_def
    by (intro plainS_bind plainS_case plain_steps plain_dispatch)
  then have d: "replayS (admit_delegation dp sc f tid caller cid)" for tid by (rule replayS_plain)
  have last: "fst (admit_new_task dp sc f caller new_id cid r) \<noteq> Inr (Admitted t (Some x))"
    "fst (admit_delegation dp sc f tid caller cid r) \<noteq> Inr (Admitted t (Some x))" for tid
    unfolding admit_new_task_def admit_delegation_def bindS_def retS_def
    by (auto split: prod.splits sum.splits)
  show ?thesis
  proof (cases "nf_task f")
    case None
    then have "admit_new_task dp sc f caller new_id cid r = (Inl (Admitted t (Some x)), r')"
      using assms(3) last(1) by (auto simp: admit_task_def outcome_of_def prod_eq_iff split: sum.splits)
    then show ?thesis using n assms(2) unfolding replayS_def by blast
  next
    case (Some tid)
    then have "admit_delegation dp sc f tid caller cid r = (Inl (Admitted t (Some x)), r')"
      using assms(3) last(2) [of tid] by (auto simp: admit_task_def outcome_of_def prod_eq_iff split: sum.splits)
    then show ?thesis using d assms(2) unfolding replayS_def by blast
  qed
qed


lemma good_handle_new_task:
  assumes "calm sc" "\<And>q. good q (env q)"
  shows "good r (snd (handle_new_task dp sc env s cid f new_id out_cid r))"
proof -
  obtain out r1 where a: "admit_task dp sc f (so_agent (the_socket r s)) new_id out_cid r = (out, r1)"
    by (metis surj_pair)
  have g: "good r r1" using good_admit_task [OF assms(1)] a by (metis snd_conv)
  note reply = good_trans [OF g good_reply_ack [OF assms(2)]]
  show ?thesis
  proof (cases out)
    case (Admitted tid replay)
    let ?put = "\<lambda>_ :: unit. case replay of None \<Rightarrow> retS () | Some x \<Rightarrow> outbox_put env s (ResultF x)"
    have "good r1 (snd (bindS (reply_ack env s cid True None (Some tid)) ?put r1))" if i: "inv r"
    proof (cases replay)
      case None
      have "goodS (bindS (reply_ack env s cid True None (Some tid)) (\<lambda>_. retS ()))"
        by (intro goodS_bind goodS_reply_ack goodS_ret assms)
      then show ?thesis using None by (simp add: goodS_def)
    next
      case (Some x)
      obtain v r2 where v: "reply_ack env s cid True None (Some tid) r1 = (v, r2)" by (metis surj_pair)
      have g2: "good r1 r2" using good_reply_ack [OF assms(2)] v by (metis snd_conv)
      have ok: "frame_ok (rdb r1) (ResultF x)"
        using admit_replay_ok [OF assms(1) i] a Admitted Some by blast
      have "good r2 (snd (outbox_put env s (ResultF x) r2))"
        using frame_ok_evolves [OF ok goodD(2) [OF g2 goodD(1) [OF g i]]]
        by (intro good_outbox_put assms)
      with g2 have "good r1 (snd (outbox_put env s (ResultF x) r2))" by (rule good_trans)
      then show ?thesis using v Some g2 by (auto simp: bindS_def split: sum.split)
    qed
    then show ?thesis using g a Admitted good_trans unfolding handle_new_task_def
      by (cases "inv r") (auto simp: good_def)
  qed (use reply a in \<open>auto simp: handle_new_task_def g\<close>)
qed

lemma good_handle_result:
  assumes "\<And>q. good q (env q)"
  shows "good r (snd (handle_result up env s cid f now r))"
  using good_trans [OF good_complete_task good_reply_ack [OF assms]] good_reply_ack [OF assms]
  by (simp add: handle_result_def)

lemma good_handle_cancel: "good r (handle_cancel s tid ref reason now r)"
proof -
  have "good r (snd (abort_llm l (upd_socket s (\<lambda>x. x\<lparr>so_llm := dict_pop cid (so_llm x)\<rparr>) r)))" for l cid
  proof (rule good_trans)
    show "good r (upd_socket s (\<lambda>x. x\<lparr>so_llm := dict_pop cid (so_llm x)\<rparr>) r)" by (rule good_upd_socket) simp
    show "good q (snd (abort_llm l q))" for q :: "'a router"
      by (rule good_cong) (simp_all add: abort_llm_def)
  qed
  then show ?thesis by (auto simp: handle_cancel_def good_cancel_task split: option.split)
qed

lemma good_settle: "good r (settle_inbound ty s ref f r)"
proof -
  have "good r (r\<lparr>acks := p\<rparr>)" for p by (rule good_cong) simp_all
  then show ?thesis by (simp add: settle_inbound_def good_metric)
qed

lemma good_handle_ping: "(\<And>q. good q (env q)) \<Longrightarrow> good r (snd (handle_ping env s cid r))"
  unfolding handle_ping_def by (rule good_outbox_put) (simp_all add: frame_ok_def)

lemma good_start_llm: "good r (start_llm s cid tid r)"
  unfolding start_llm_def Let_def by (rule good_cong_keys) (simp_all add: keys_upd_socket, simp add: socket_keys_def)

lemma good_handle_llm: "(\<And>q. good q (env q)) \<Longrightarrow> good r (snd (handle_llm_request env s cid tid r))"
  by (auto simp: handle_llm_request_def good_start_llm frame_ok_def split: option.split intro!: good_outbox_put)

text \<open>Progress: fan-out to one agent is a send; the cache stays coherent if the wait does not
  touch the task's agents.\<close>

lemma fanout_one: "snd (fanout_frame [a] f r) = send_to a f r"
  by (auto simp: send_to_def deliver_frame_def Let_def split: option.split)

definition steady :: "('r router \<Rightarrow> 'r router) \<Rightarrow> 'r router \<Rightarrow> bool" where
  "steady env r \<longleftrightarrow> good r (env r) \<and> (inv r \<longrightarrow> (\<forall>tid. task_agents (rdb r) tid \<noteq> None \<longrightarrow>
     task_agents (rdb (env r)) tid = task_agents (rdb r) tid))"

lemma good_cache:
  assumes "inv r \<Longrightarrow> lru_ok c \<and> lru.coherent c (task_agents (rdb r))"
  shows "good r (r\<lparr>caller_cache := c\<rparr>)"
  using assms reg_ok_cong [of "r\<lparr>caller_cache := c\<rparr>" r] by (auto simp: good_def inv_def cache_ok_def frames_ok_def)

lemma good_cache_put:
  assumes "inv r \<Longrightarrow> task_agents (rdb r) tid = Some v"
  shows "good r (r\<lparr>caller_cache := lru_set tid v (caller_cache r)\<rparr>)"
proof (rule good_cache)
  assume i: "inv r"
  then have c: "lru_ok (caller_cache r)" "lru.coherent (caller_cache r) (task_agents (rdb r))"
    using invD(3) by (auto simp: cache_ok_def)
  show "lru_ok (lru_set tid v (caller_cache r)) \<and> lru.coherent (lru_set tid v (caller_cache r)) (task_agents (rdb r))"
    using lru_ok_set [OF c(1)]
      lru.coherent_put [where src' = "task_agents (rdb r)" and k = tid and v = v, OF c assms [OF i] refl] by simp
qed

lemma lru_getitem_touch: "lru_getitem k c = Some (v, c') \<Longrightarrow> lru_peek c k = Some v \<and> c' = lru_touch k c"
  by (auto simp: lru_getitem_def lru_peek_def lru_touch_def split: option.splits)

lemma progress_agents_ok:
  assumes "steady env r" "progress_agents env tid r = (v, r1)"
  shows "good r r1 \<and> (inv r \<longrightarrow> v = task_agents (rdb r) tid)"
proof -
  have e: "good r (env r)" using assms(1) by (simp add: steady_def)
  consider (hit) w c where "lru_getitem tid (caller_cache r) = Some (w, c)" "v = Some w" "r1 = r\<lparr>caller_cache := c\<rparr>"
    | (none) "find_task (rdb r) tid = None" "v = None" "r1 = env r"
    | (row) t where "find_task (rdb r) tid = Some t" "v = Some (t_caller t, t_active t)"
        "r1 = (if is_terminal (t_state t) then env r
               else (env r)\<lparr>caller_cache := lru_set tid (t_caller t, t_active t) (caller_cache (env r))\<rparr>)"
    using assms(2) by (auto simp: progress_agents_def Let_def split: option.splits)
  then show ?thesis
  proof cases
    case hit
    note h = lru_getitem_touch [OF hit(1)]
    have "good r r1" unfolding hit(3) using h lru_ok_touch lru.coherent_touch
      by (intro good_cache) (auto dest!: invD(3) simp: cache_ok_def)
    moreover have "v = task_agents (rdb r) tid" if "inv r"
      using lru.coherent_peek [OF _ conjunct1 [OF h], of "task_agents (rdb r)"] hit(2) invD(3) [OF that]
      by (simp add: cache_ok_def)
    ultimately show ?thesis by blast
  next
    case none
    then show ?thesis using e by (simp add: task_agents_def)
  next
    case row
    let ?c = "lru_set tid (t_caller t, t_active t) (caller_cache (env r))"
    have a: "inv r \<Longrightarrow> task_agents (rdb (env r)) tid = Some (t_caller t, t_active t)"
      using assms(1) row(1) by (simp add: steady_def task_agents_def)
    have "inv r \<Longrightarrow> good (env r) ((env r)\<lparr>caller_cache := ?c\<rparr>)" by (rule good_cache_put) (rule a)
    with e good_trans [OF e] have "good r r1" using row(3) by (cases "inv r") (auto simp: good_def)
    then show ?thesis using row by (simp add: task_agents_def)
  qed
qed

lemma good_handle_progress:
  assumes "steady env r"
  shows "good r (handle_progress env s f r)"
proof -
  obtain v r1 where v: "progress_agents env (pf_task f) r = (v, r1)" by (metis surj_pair)
  have g: "good r r1" using progress_agents_ok [OF assms v] by blast
  have "good r1 (send_to a (ProgressF f) r1)" for a by (rule good_send_to) (simp add: frame_ok_def)
  from good_trans [OF g this] g show ?thesis
    by (auto simp: handle_progress_def v fanout_one simp del: fanout_frame.simps split: option.split)
qed

end
