(* ===== verification/DispatchProps.thy ===== *)
theory DispatchProps
  imports Dispatch AdmissionProps
begin

text \<open>
  What the handlers of \<open>Dispatch\<close> guarantee: who may report progress, cancel or acknowledge,
  how a new task is answered, and that no running LLM call escapes cancellation.
\<close>

section \<open>Progress\<close>

text \<open>
  Progress is passed on exactly when it comes from the task's current executor,
  to the agent that awaits the task and to nobody else, whether the cache knows the task or
  not.
\<close>

theorem progress_only_from_executor:
  assumes "inv r"
  shows "outbox (handle_progress id s f r) b =
    (case find_task (rdb r) (pf_task f) of
       Some t \<Rightarrow> if so_agent (the_socket r s) = t_active t \<and> b = t_caller t \<and> accepts r b
                 then outbox r b @ [ProgressF f] else outbox r b
     | None \<Rightarrow> outbox r b)"
proof -
  obtain v r1 where v: "progress_agents id (pf_task f) r = (v, r1)" by (metis surj_pair)
  have "steady id r" by (simp add: steady_def)
  from progress_agents_ok [OF this v] assms have ok: "v = task_agents (rdb r) (pf_task f)" by simp
  obtain c where r1: "r1 = r\<lparr>caller_cache := c\<rparr>"
    using v by (auto simp: progress_agents_def Let_def split: option.splits if_splits)
      (metis router.surjective router.update_convs(7))+
  have reg: "reg_ok r1" using invD(5) [OF assms] reg_ok_cong [of r1 r] by (simp add: r1)
  have same: "outbox r1 = outbox r" "accepts r1 = accepts r" "the_socket r1 s = the_socket r s"
    by (simp_all add: r1 outbox_def accepts_def live_socket_def chan_of_def the_socket_def fun_eq_iff
        split: option.split)
  show ?thesis
    using ok v outbox_send_to [OF reg, of _ "ProgressF f" b] same
    by (auto simp: handle_progress_def fanout_one task_agents_def simp del: fanout_frame.simps split: option.splits)
qed

theorem progress_only_from_executor_witness:
  "outbox (handle_progress id 1 \<lparr>pf_agent = ''b'', pf_task = ''t1'', pf_event = ''e'', pf_content = ''half'',
      pf_metadata = []\<rparr> demo_router) ''c'' =
   [ProgressF \<lparr>pf_agent = ''b'', pf_task = ''t1'', pf_event = ''e'', pf_content = ''half'', pf_metadata = []\<rparr>]"
  by (simp only: progress_only_from_executor [OF demo_inv])
    (simp add: demo_defs outbox_def live_socket_def chan_of_def the_socket_def accepts_def ch_full_def
      find_task_def tbl_get_def)

text \<open>
  The row a Progress frame reads can be out of date when it is written to the
  cache: a delegation that commits in between is not noticed, the cache keeps the previous
  executor, and the Progress of the new one is dropped from then on.
\<close>

theorem stale_executor_cached:
  assumes "inv r" "find_task (rdb r) k = Some t" "\<not> is_terminal (t_state t)" "lru_peek (caller_cache r) k = None"
    "phase_c digest nf k (t_active t) now r = (Inr (), r1)" "nf_dest nf \<noteq> t_active t" "pf_task f = k"
  shows "let r2 = handle_progress (\<lambda>_. r1) s f r
    in task_agents (rdb r2) k = Some (t_caller t, nf_dest nf) \<and>
       lru_peek (caller_cache r2) k = Some (t_caller t, t_active t) \<and>
       (\<forall>u g. pf_task g = k \<longrightarrow> so_agent (the_socket r2 u) = nf_dest nf \<longrightarrow>
          chans (handle_progress id u g r2) = chans r2)"
proof -
  let ?c = "lru_set k (t_caller t, t_active t) (caller_cache r1)"
  have miss: "lru_getitem k (caller_cache r) = None"
    using assms(4) by (simp add: lru_getitem_def lru_peek_def)
  have i1: "inv r1" using good_phase_c_Inr [OF assms(5)] assms(1) by (auto dest: goodD)
  have row: "find_task (rdb r1) k = Some (t\<lparr>t_active := nf_dest nf, t_updated := now\<rparr>)"
    by (rule phase_c_Inr [OF assms(1,5)]) (use assms(2) in auto)
  let ?r2 = "handle_progress (\<lambda>_. r1) s f r"
  have p: "progress_agents (\<lambda>_. r1) k r = (Some (t_caller t, t_active t), r1\<lparr>caller_cache := ?c\<rparr>)"
    using miss assms(2,3) by (simp add: progress_agents_def Let_def)
  have r2: "rdb ?r2 = rdb r1 \<and> caller_cache ?r2 = ?c"
    using same_store_send_to [of "r1\<lparr>caller_cache := ?c\<rparr>" "t_caller t" "ProgressF f"] p assms(7)
    by (simp add: handle_progress_def fanout_one same_store_def del: fanout_frame.simps)
  have peek: "lru_peek ?c k = Some (t_caller t, t_active t)"
    using lru_peek_set_same invD(3) [OF i1] by (auto simp: cache_ok_def)
  have "chans (handle_progress id u g ?r2) = chans ?r2"
    if "pf_task g = k" "so_agent (the_socket ?r2 u) = nf_dest nf" for u g
  proof -
    obtain c where "lru_getitem k ?c = Some ((t_caller t, t_active t), c)"
      using peek by (auto simp: lru_getitem_def lru_peek_def split: option.splits)
    then have "progress_agents id k ?r2 = (Some (t_caller t, t_active t), ?r2\<lparr>caller_cache := c\<rparr>)"
      using r2 by (simp add: progress_agents_def)
    then show ?thesis using that assms(6) by (simp add: handle_progress_def the_socket_def)
  qed
  then show ?thesis using r2 peek row by (simp add: Let_def task_agents_def)
qed

definition cold_router :: "unit router" where
  "cold_router = demo_router\<lparr>caller_cache := \<lparr>maxsize = 8, data = []\<rparr>\<rparr>"

lemma cold_inv: "inv cold_router"
proof -
  have "lru_ok (caller_cache cold_router) \<and> lru.coherent (caller_cache cold_router) (task_agents (rdb cold_router))"
    by (simp add: cold_router_def lru_ok_def lru.coherent_def lru_peek_def)
  then show ?thesis using demo_inv reg_ok_cong [of cold_router demo_router]
    by (auto simp: inv_def cache_ok_def frames_ok_def cold_router_def)
qed

theorem stale_executor_cached_witness:
  "let r1 = snd (phase_c (\<lambda>_. ''h'') handover ''t1'' ''b'' 7 cold_router);
       r2 = handle_progress (\<lambda>_. r1) 1 \<lparr>pf_agent = ''b'', pf_task = ''t1'', pf_event = ''e'', pf_content = ''x'',
              pf_metadata = []\<rparr> cold_router
   in task_agents (rdb r2) ''t1'' = Some (''c'', ''d'') \<and> lru_peek (caller_cache r2) ''t1'' = Some (''c'', ''b'')"
proof -
  let ?f = "\<lparr>pf_agent = ''b'', pf_task = ''t1'', pf_event = ''e'', pf_content = ''x'', pf_metadata = []\<rparr>"
  let ?r1 = "snd (phase_c (\<lambda>_. ''h'') handover ''t1'' ''b'' 7 cold_router)"
  have c: "phase_c (\<lambda>_. ''h'') handover ''t1'' (t_active demo_task) 7 cold_router = (Inr (), ?r1)"
    by (simp add: prod_eq_iff demo_task_def) code_simp
  have "find_task (rdb cold_router) ''t1'' = Some demo_task" "lru_peek (caller_cache cold_router) ''t1'' = None"
    by (simp_all add: cold_router_def lru_peek_def)
  from stale_executor_cached [OF cold_inv this(1) _ this(2) c, of ?f] show ?thesis
    by (simp add: Let_def demo_task_def handover_def ask_def)
qed

section \<open>Cancellation\<close>

text \<open>The chain of a task holds the task and its ancestors in the user's tree.\<close>

lemma below_snoc:
  "below uid d a m y \<Longrightarrow> x \<in> set (children uid d (t_id y)) \<Longrightarrow> below uid d a (Suc m) x"
  by (induction m arbitrary: a) auto

lemma chain_above:
  assumes "db_ok d" "find_task d k = Some t" "a \<in> set (chain n uid d (Some k))"
  shows "t_user a = uid \<and> find_task d (t_id a) = Some a \<and> (a = t \<or> (\<exists>m. below uid d (t_id a) m t))"
  using assms(2,3)
proof (induction n arbitrary: k t)
  case (Suc n)
  obtain x where "get_task uid k d = Some x" using Suc.prems(2) by (cases "get_task uid k d") simp_all
  then have g: "get_task uid k d = Some t" using Suc.prems(1) unfolding get_task_iff [OF assms(1)] by simp
  then have tu: "find_task d k = Some t" "t_user t = uid" using get_task_iff [OF assms(1)] by auto
  have tid: "t_id t = k" "t \<in> set (tasks d)" using find_task_SomeD [OF tu(1)] by auto
  from Suc.prems(2) g consider "a = t" | "a \<in> set (chain n uid d (t_parent t))" by auto
  then show ?case
  proof cases
    case 1
    then show ?thesis using tu tid by simp
  next
    case 2
    then obtain p where p: "t_parent t = Some p" "a \<in> set (chain n uid d (Some p))"
      by (cases "t_parent t"; cases n) auto
    obtain q where q: "get_task uid p d = Some q" using p(2) by (cases n; cases "get_task uid p d") simp_all
    then have fq: "find_task d p = Some q" "t_id q = p" using get_task_iff [OF assms(1)] find_task_SomeD by auto
    have c: "t \<in> set (children uid d p)" using p(1) tid tu by (auto simp: children_def)
    from Suc.IH [OF fq(1) p(2)] have a: "t_user a = uid" "find_task d (t_id a) = Some a"
      "a = q \<or> (\<exists>m. below uid d (t_id a) m q)" by auto
    then have "\<exists>m. below uid d (t_id a) m t"
      using below_snoc [of uid d "t_id a" _ q t] c fq(2) below.simps(1) by metis
    with a show ?thesis by blast
  qed
qed simp

lemma rdb_cancel_task:
  "cancel_each reason who now (tid # map t_id (list_descendants uid tid (rdb r))) r = (ps, r1) \<Longrightarrow>
   rdb (snd (cancel_task tid uid reason who now r)) = rdb r1"
  by (simp only: cancel_task_def Let_def prod.case snd_conv rdb_emit_plan rdb_abort)

text \<open>
  Property C15.  A Cancel frame reaches only one user's tree, and only for an agent that is
  assigned the named task or one of its ancestors in that tree: whatever row it changes is
  the named task's or a descendant's, of the same user.
\<close>

theorem cancel_stays_in_tree:
  assumes "inv r" "find_task (rdb (handle_cancel s (Some k) None reason now r)) j \<noteq> find_task (rdb r) j"
  shows "\<exists>t a u. find_task (rdb r) k = Some t \<and>
    find_task (rdb r) (t_id a) = Some a \<and> t_user a = t_user t \<and> t_agent a = so_agent (the_socket r s) \<and>
    (a = t \<or> (\<exists>m. below (t_user t) (rdb r) (t_id a) m t)) \<and>
    find_task (rdb r) j = Some u \<and> t_user u = t_user t \<and>
    (u = t \<or> (\<exists>n\<le>MAX_TASK_TREE_DEPTH. below (t_user t) (rdb r) k n u))"
proof -
  let ?who = "so_agent (the_socket r s)"
  obtain t where t: "find_task (rdb r) k = Some t" "task_has_ancestor_with_agent k ?who (t_user t) (rdb r)"
    "find_task (rdb (snd (cancel_task k (t_user t) reason ?who now r))) j \<noteq> find_task (rdb r) j"
    using assms(2) by (auto simp: handle_cancel_def split: option.splits if_splits)
  from t(2) obtain a where a: "a \<in> set (chain (Suc MAX_TASK_TREE_DEPTH) (t_user t) (rdb r) (Some k))" "t_agent a = ?who"
    unfolding task_has_ancestor_with_agent_def list_ex_iff by blast
  note above = chain_above [OF invD(1) [OF assms(1)] t(1) a(1)]
  let ?ids = "k # map t_id (list_descendants (t_user t) k (rdb r))"
  obtain ps r1 where c: "cancel_each reason ?who now ?ids r = (ps, r1)" by (metis surj_pair)
  note rows = cancel_each_rows [OF assms(1) c, of j]
  have "\<exists>u. find_task (rdb r) j = Some u \<and> j \<in> set ?ids"
    using t(3) rows(1) rows(2) rdb_cancel_task [OF c] by (cases "find_task (rdb r) j") (auto split: if_splits)
  then obtain u where u: "find_task (rdb r) j = Some u" "j \<in> set ?ids" by blast
  have "u = t \<or> (t_user u = t_user t \<and> (\<exists>n\<le>MAX_TASK_TREE_DEPTH. below (t_user t) (rdb r) k n u))"
  proof (cases "j = k")
    case False
    then obtain x where x: "x \<in> set (list_descendants (t_user t) k (rdb r))" "t_id x = j" using u(2) by auto
    then obtain n where n: "n \<le> MAX_TASK_TREE_DEPTH" "below (t_user t) (rdb r) k n x" by (auto simp: set_list_descendants)
    have "x = u" using below_in_tasks [OF n(2)] find_task_in_set [OF invD(1) [OF assms(1)], of x] x(2) u(1) by auto
    then show ?thesis using n below_in_tasks [OF n(2)] by blast
  qed (use u(1) t(1) in simp)
  then show ?thesis using t(1) above a(2) u(1) by blast
qed

theorem cancel_stays_in_tree_witness:
  "find_task (rdb (handle_cancel 0 (Some ''t1'') None ''stop'' 7
       (demo_router\<lparr>sockets := [(the_socket demo_router 0)\<lparr>so_agent := ''a''\<rparr>, the_socket demo_router 1],
          live := [(''a'', 0), (''b'', 1)]\<rparr>))) ''t1'' \<noteq> Some demo_task \<and>
   t_agent demo_task = ''a''"
proof -
  let ?r = "demo_router\<lparr>sockets := [(the_socket demo_router 0)\<lparr>so_agent := ''a''\<rparr>, the_socket demo_router 1],
      live := [(''a'', 0), (''b'', 1)]\<rparr>"
  have "reg_ok ?r" by (auto simp: reg_ok_def socket_keys_def chans_ok_def demo_defs chan_of_def the_socket_def split: if_splits)
  then have i: "inv ?r" using demo_inv by (auto simp: inv_def cache_ok_def frames_ok_def)
  have n: "find_task (rdb (handle_cancel 0 (Some ''t1'') None ''stop'' 7 ?r)) ''t1'' \<noteq> find_task (rdb ?r) ''t1''"
    by code_simp
  from cancel_stays_in_tree [OF i n] obtain t a where "find_task (rdb ?r) ''t1'' = Some t"
    "t_agent a = so_agent (the_socket ?r 0)" "find_task (rdb ?r) (t_id a) = Some a" by blast
  then have "a = demo_task" by (auto simp: split: if_splits)
  with n show ?thesis by simp (simp add: demo_task_def)
qed

text \<open>
  The agent that issued a root task cannot cancel it: it is the task's caller,
  but the check asks for the assignee of the task or of an ancestor.
\<close>

theorem issuer_cannot_cancel_root:
  assumes "inv r" "find_task (rdb r) k = Some t" "t_parent t = None" "so_agent (the_socket r s) = t_caller t"
    "t_agent t \<noteq> t_caller t"
  shows "handle_cancel s (Some k) None reason now r = r"
proof -
  have "a = t" if "a \<in> set (chain n (t_user t) (rdb r) (Some k))" for a n
  proof (cases n)
    case (Suc m)
    have "get_task (t_user t) k (rdb r) = Some t" using get_task_iff [OF invD(1) [OF assms(1)]] assms(2) by simp
    then show ?thesis using that Suc assms(3) by (cases m) auto
  qed (use that in simp)
  then have "\<not> task_has_ancestor_with_agent k (so_agent (the_socket r s)) (t_user t) (rdb r)"
    using assms(4,5) unfolding task_has_ancestor_with_agent_def list_ex_iff by metis
  then show ?thesis using assms(2) by (simp add: handle_cancel_def)
qed

theorem issuer_cannot_cancel_root_witness:
  "handle_cancel 0 (Some ''t1'') None ''stop'' 7 demo_router = demo_router"
  by (rule issuer_cannot_cancel_root [OF demo_inv, of _ demo_task])
    (simp_all add: demo_task_def, simp add: demo_defs the_socket_def)

section \<open>How a new task is answered\<close>

definition room_for :: "nat \<Rightarrow> channel \<Rightarrow> bool" where
  "room_for n c = (ch_cap c \<le> 0 \<or> int (length (ch_out c) + n) \<le> ch_cap c)"

lemma outbox_put_room:
  assumes "room_for (Suc n) (chans r ! chan_of r s)" "chan_of r s < length (chans r)"
  shows "outbox_put env s f r = (Inr (), put_frame (chan_of r s) f r)"
    "chans (put_frame (chan_of r s) f r) ! chan_of r s =
      (chans r ! chan_of r s)\<lparr>ch_out := ch_out (chans r ! chan_of r s) @ [f]\<rparr>"
    "room_for n (chans (put_frame (chan_of r s) f r) ! chan_of r s)"
    "chan_of (put_frame (chan_of r s) f r) s = chan_of r s"
    "length (chans (put_frame (chan_of r s) f r)) = length (chans r)"
  using assms by (auto simp: outbox_put_def room_for_def ch_full_def put_frame_def upd_chan_def chan_of_def)

definition the_ack :: "corr_id \<Rightarrow> bool \<Rightarrow> string option \<Rightarrow> task_id option \<Rightarrow> frame" where
  "the_ack cid ok reason tid = AckF \<lparr>ak_ref = cid, ak_accepted = ok, ak_reason = reason, ak_task = tid\<rparr>"

text \<open>
  What the sender of a NewTask gets, when its outbox has room: one Ack for its
  correlation id on every outcome, followed by the stored Result when the task had already
  ended; but nothing at all when the admission is refused with a reason longer than an Ack
  may carry.
\<close>

theorem new_task_reply:
  assumes "admit_task dp sc f (so_agent (the_socket r s)) new_id out_cid r = (out, r1)" "out \<noteq> StillWaiting"
    "chan_of r1 s < length (chans r1)" "room_for 2 (chans r1 ! chan_of r1 s)"
  shows "ch_out (chans (snd (handle_new_task dp sc env s cid f new_id out_cid r)) ! chan_of r1 s) =
    ch_out (chans r1 ! chan_of r1 s) @
    (case out of
       Refused c m retry \<Rightarrow> if length m \<le> ACK_REASON_MAX then [the_ack cid False (Some m) None] else []
     | Crashed e \<Rightarrow> [the_ack cid False (Some ''internal_error'') None]
     | Admitted tid replay \<Rightarrow> the_ack cid True None (Some tid) #
         (case replay of None \<Rightarrow> [] | Some x \<Rightarrow> [ResultF x])
     | StillWaiting \<Rightarrow> [])"
proof -
  note p = outbox_put_room [of 1 r1 s, unfolded One_nat_def [symmetric] Suc_1, OF assms(4,3)]
  let ?q = "\<lambda>f. put_frame (chan_of r1 s) f r1"
  have two: "snd (outbox_put env s g (?q f)) = put_frame (chan_of r1 s) g (?q f)"
    "ch_out (chans (put_frame (chan_of r1 s) g (?q f)) ! chan_of r1 s) = ch_out (chans r1 ! chan_of r1 s) @ [f, g]" for f g
    using outbox_put_room [of 0 "?q f" s] p assms(3) by simp_all
  have reply: "reply_ack env s cid ok reason tid r1 =
      (if case reason of None \<Rightarrow> True | Some m \<Rightarrow> length m \<le> ACK_REASON_MAX
       then (Inr (), ?q (the_ack cid ok reason tid)) else (Inl (Crashed ''ValidationError''), r1))" for ok reason tid
    using p(1) by (auto simp: reply_ack_def mk_ack_def the_ack_def split: option.splits)
  show ?thesis
  proof (cases out)
    case (Admitted tid replay)
    then show ?thesis using two p(2)
      by (cases replay) (simp_all add: handle_new_task_def assms(1) bindS_def reply retS_def)
  qed (use assms(2) p(2) in \<open>simp_all add: handle_new_task_def assms(1) reply ACK_REASON_MAX_def\<close>)
qed

theorem new_task_reply_witness:
  "let (out, r1) = admit_task no_deps (answered 9 yes) ask ''c'' ''t9'' ''k'' office
   in ch_out (chans (snd (handle_new_task no_deps (answered 9 yes) id 0 ''q1'' ask ''t9'' ''k'' office)) ! chan_of r1 0) =
      ch_out (chans r1 ! chan_of r1 0) @ [the_ack ''q1'' True None (Some ''t9'')]"
proof -
  let ?a = "admit_task no_deps (answered 9 yes) ask (so_agent (the_socket office 0)) ''t9'' ''k'' office"
  have a: "?a = (Admitted ''t9'' None, snd ?a)" by (simp add: prod_eq_iff) code_simp
  have b: "so_agent (the_socket office 0) = ''c''" by code_simp
  have c: "chan_of (snd ?a) 0 < length (chans (snd ?a))" by code_simp
  have d: "room_for 2 (chans (snd ?a) ! chan_of (snd ?a) 0)" by code_simp
  from new_task_reply [OF a _ c d, of id "''q1''"] a b show ?thesis by (auto simp: Let_def split: prod.splits)
qed

section \<open>Who may answer\<close>

fun acks_from :: "(nat \<times> (ack_frame + corr_id)) list \<Rightarrow> 'r router \<Rightarrow> 'r router" where
  "acks_from [] r = r"
| "acks_from ((s, Inl a) # xs) r = acks_from xs (handle_ack s a r)"
| "acks_from ((s, Inr ref) # xs) r = acks_from xs (handle_pong s ref r)"

definition awaits :: "'r router \<Rightarrow> nat \<Rightarrow> corr_id \<Rightarrow> nat \<Rightarrow> bool" where
  "awaits r c cid n \<longleftrightarrow> (\<forall>d. waits_for (acks r) d = Some n \<longleftrightarrow> d = cid) \<and> futs (acks r) ! n = Unset \<and>
     n < length (futs (acks r)) \<and>
     (\<forall>k. k \<noteq> c \<longrightarrow> k < length (chans r) \<longrightarrow> cid \<notin> set (ch_infl (chans r ! k)))"

lemma awaits_foreign:
  assumes "awaits r c cid n" "chan_of r s \<noteq> c" "chan_of r s < length (chans r)"
  shows "awaits (settle_inbound ty s ref f r) c cid n"
proof (cases "ref \<in> set (ch_infl (chans r ! chan_of r s))")
  case True
  then have "ref \<noteq> cid" using assms by (auto simp: awaits_def)
  then have "\<And>d. waits_for (acks r) ref = Some d \<Longrightarrow> d \<noteq> n" using assms(1) by (auto simp: awaits_def)
  then show ?thesis using assms(1) True \<open>ref \<noteq> cid\<close>
    by (auto simp: awaits_def settle_inbound_def ack_resolve_def ack_settle_def waits_for_def map_of_dict_pop settle_def
        split: option.splits)
qed (use assms in \<open>simp add: settle_inbound_def awaits_def count_metric_def\<close>)

lemma settle_inbound_frame [simp]:
  "chans (settle_inbound ty s ref f r) = chans r" "sockets (settle_inbound ty s ref f r) = sockets r"
  by (simp_all add: settle_inbound_def count_metric_def)

text \<open>
  Only the destination answers a delivery: from the moment a frame is queued for
  an agent, no acknowledgement or Pong from sockets of other outboxes, however many and
  whatever ids they name, settles the future that waits for its Ack.
\<close>

theorem foreign_acks_cannot_answer:
  assumes "deliver_frame a f (Some cid) timeout now r = (Awaiting c n, r1)" "pending_ok (acks r)"
    "waits_for (acks r) cid = None" "\<forall>k<length (chans r). cid \<notin> set (ch_infl (chans r ! k))"
    "\<forall>(s, x)\<in>set xs. chan_of r s \<noteq> c \<and> chan_of r s < length (chans r)"
  shows "futs (acks (acks_from xs r1)) ! n = Unset \<and> waits_for (acks (acks_from xs r1)) cid = Some n"
proof -
  obtain s where s: "live_socket r a = Some s" "c = chan_of r s" "n = length (futs (acks r))"
    "r1 = put_frame c f (add_infl c cid (r\<lparr>acks := snd (ack_register cid timeout now (acks r))\<rparr>))"
    using assms(1) by (auto simp: deliver_frame_def Let_def ack_register_def split: option.splits prod.splits if_splits)
  have old: "waits_for (acks r) d \<noteq> Some n" for d
    using pending_ok_waits [OF assms(2)] s(3) by (fastforce simp: waits_for_def)
  have len: "length (chans r1) = length (chans r)" "sockets r1 = sockets r"
    by (simp_all add: s(4) put_frame_def add_infl_def upd_chan_def)
  have "awaits r1 c cid n" using old assms(4) len
    by (auto simp: awaits_def s(3,4) ack_register_def Let_def waits_for_def map_of_dict_set put_frame_def add_infl_def
        upd_chan_def nth_append nth_list_update split: if_splits)
  moreover have "\<forall>(s, x)\<in>set xs. chan_of r1 s \<noteq> c \<and> chan_of r1 s < length (chans r1)"
    using assms(5) len by (auto simp: chan_of_def)
  ultimately have "awaits (acks_from xs r1) c cid n"
  proof (induction xs r1 rule: acks_from.induct)
    case (2 s x xs r)
    then show ?case using awaits_foreign [of r c cid n s] by (auto simp: handle_ack_def chan_of_def split: prod.splits)
  next
    case (3 s x xs r)
    then show ?case using awaits_foreign [of r c cid n s] by (auto simp: handle_pong_def chan_of_def split: prod.splits)
  qed simp
  then show ?thesis by (auto simp: awaits_def)
qed

theorem foreign_acks_cannot_answer_witness:
  "let r1 = snd (deliver_frame ''b'' (PingF ''k1'') (Some ''k1'') None 5 demo_router)
   in futs (acks (acks_from [(0, Inl \<lparr>ak_ref = ''k1'', ak_accepted = True, ak_reason = None, ak_task = None\<rparr>),
        (0, Inr ''k1'')] r1)) ! 0 = Unset"
proof -
  let ?d = "deliver_frame ''b'' (PingF ''k1'') (Some ''k1'') None 5 demo_router"
  have d: "?d = (Awaiting 1 0, snd ?d)" by (simp add: prod_eq_iff) code_simp
  have "pending_ok (acks demo_router)" by (simp add: demo_defs pending_ok_def)
  moreover have "waits_for (acks demo_router) ''k1'' = None" by (simp add: demo_defs waits_for_def)
  moreover have "\<forall>k<length (chans demo_router). ''k1'' \<notin> set (ch_infl (chans demo_router ! k))"
    by (simp add: demo_defs less_Suc_eq)
  ultimately show ?thesis
    using foreign_acks_cannot_answer [OF d, of "[(0, Inl \<lparr>ak_ref = ''k1'', ak_accepted = True, ak_reason = None,
        ak_task = None\<rparr>), (0, Inr ''k1'')]"]
    by (simp add: Let_def chan_of_def demo_defs)
qed

section \<open>LLM calls\<close>

definition bucket :: "'r router \<Rightarrow> task_id \<Rightarrow> nat list" where
  "bucket r t = (case map_of (llm_index r) t of None \<Rightarrow> [] | Some b \<Rightarrow> b)"

text \<open>Every running call is found through its socket and, if it has a task, through the index.\<close>

definition llm_tracked :: "'r router \<Rightarrow> bool" where
  "llm_tracked r \<longleftrightarrow>
     (\<forall>s<length (sockets r). \<forall>cid l. map_of (so_llm (sockets r ! s)) cid = Some l \<longrightarrow> l < length (llms r)) \<and>
     (\<forall>t. \<forall>l\<in>set (bucket r t). l < length (llms r)) \<and>
     (\<forall>l<length (llms r). lt_status (llms r ! l) = LlmRunning \<longrightarrow>
        (\<exists>s<length (sockets r). \<exists>cid. map_of (so_llm (sockets r ! s)) cid = Some l) \<and>
        (\<forall>t. lt_task (llms r ! l) = Some t \<longrightarrow> l \<in> set (bucket r t)))"

datatype llm_event =
    Ask nat corr_id "task_id option"
  | Ends nat
  | CleanUp nat corr_id nat
  | AbortRef nat corr_id
  | AbortTasks "task_id list"
  | SocketLost nat

fun llm_step :: "llm_event \<Rightarrow> 'r router \<Rightarrow> 'r router" where
  "llm_step (Ask s cid tid) r = snd (handle_llm_request id s cid tid r)"
| "llm_step (Ends l) r = llm_ends l r"
| "llm_step (CleanUp s cid l) r = llm_cleanup s cid (lt_task (llms r ! l)) l r"
| "llm_step (AbortRef s cid) r = handle_cancel s None (Some cid) [] 0 r"
| "llm_step (AbortTasks tids) r = snd (abort_router_side_llm_tasks tids r)"
| "llm_step (SocketLost s) r = begin_disconnect s r"

text \<open>A request comes from a socket, a clean-up from a call that has ended.\<close>

fun llm_legal :: "llm_event \<Rightarrow> 'r router \<Rightarrow> bool" where
  "llm_legal (Ask s cid tid) r = (s < length (sockets r))"
| "llm_legal (CleanUp s cid l) r = (l < length (llms r) \<and> lt_status (llms r ! l) = LlmDone)"
| "llm_legal _ r = True"

fun llm_run :: "llm_event list \<Rightarrow> 'r router \<Rightarrow> 'r router" where
  "llm_run [] r = r"
| "llm_run (e # es) r = llm_run es (llm_step e r)"

fun llm_legal_run :: "llm_event list \<Rightarrow> 'r router \<Rightarrow> bool" where
  "llm_legal_run [] r = True"
| "llm_legal_run (e # es) r = (llm_legal e r \<and> llm_legal_run es (llm_step e r))"

text \<open>Calls that stop and nothing else: the tracking only loses obligations.\<close>

definition calls_stop :: "'r router \<Rightarrow> 'r router \<Rightarrow> bool" where
  "calls_stop r r' \<longleftrightarrow> llm_index r' = llm_index r \<and> length (llms r') = length (llms r) \<and>
     (\<forall>l<length (llms r). lt_task (llms r' ! l) = lt_task (llms r ! l) \<and>
        (lt_status (llms r' ! l) = LlmRunning \<longrightarrow> lt_status (llms r ! l) = LlmRunning))"

lemma calls_stop_refl [simp]: "calls_stop r r"
  by (simp add: calls_stop_def)

lemma calls_stop_trans: "calls_stop r s \<Longrightarrow> calls_stop s t \<Longrightarrow> calls_stop r t"
  by (simp add: calls_stop_def)

lemma abort_llm_stops:
  "calls_stop r (snd (abort_llm l r))" "sockets (snd (abort_llm l r)) = sockets r"
  "l < length (llms r) \<Longrightarrow> lt_status (llms (snd (abort_llm l r)) ! l) \<noteq> LlmRunning"
  by (auto simp: calls_stop_def abort_llm_def nth_list_update)

lemma abort_each_stops:
  "calls_stop r (snd (abort_each ls r)) \<and>
   (\<forall>l\<in>set ls. l < length (llms r) \<longrightarrow> lt_status (llms (snd (abort_each ls r)) ! l) \<noteq> LlmRunning)"
proof (induction ls arbitrary: r)
  case (Cons x ls)
  let ?r1 = "snd (abort_llm x r)"
  have c: "calls_stop r ?r1" and d: "calls_stop ?r1 (snd (abort_each ls ?r1))"
    using abort_llm_stops(1) Cons.IH [of ?r1] by blast+
  have e: "snd (abort_each (x # ls) r) = snd (abort_each ls ?r1)" by (simp add: split_beta)
  have "lt_status (llms (snd (abort_each ls ?r1)) ! l) \<noteq> LlmRunning" if "l \<in> set (x # ls)" "l < length (llms r)" for l
  proof (cases "l = x")
    case True
    then have "lt_status (llms ?r1 ! l) \<noteq> LlmRunning" using abort_llm_stops(3) that(2) by blast
    moreover have "length (llms ?r1) = length (llms r)" using c by (simp add: calls_stop_def)
    ultimately show ?thesis using d that(2) by (auto simp: calls_stop_def)
  next
    case False
    then show ?thesis using Cons.IH [of ?r1] that c by (auto simp: calls_stop_def)
  qed
  then show ?case using calls_stop_trans [OF c d] e by simp
qed simp

text \<open>The three parts of the tracking.\<close>

definition llm_addrs :: "'r router \<Rightarrow> bool" where
  "llm_addrs r \<longleftrightarrow>
     (\<forall>s<length (sockets r). \<forall>cid l. map_of (so_llm (sockets r ! s)) cid = Some l \<longrightarrow> l < length (llms r)) \<and>
     (\<forall>t. \<forall>l\<in>set (bucket r t). l < length (llms r))"

definition held :: "'r router \<Rightarrow> nat \<Rightarrow> bool" where
  "held r l \<longleftrightarrow> (\<exists>s<length (sockets r). \<exists>cid. map_of (so_llm (sockets r ! s)) cid = Some l)"

definition indexed :: "'r router \<Rightarrow> nat \<Rightarrow> bool" where
  "indexed r l \<longleftrightarrow> (\<forall>t. lt_task (llms r ! l) = Some t \<longrightarrow> l \<in> set (bucket r t))"

lemma llm_tracked_iff:
  "llm_tracked r \<longleftrightarrow> llm_addrs r \<and>
     (\<forall>l<length (llms r). lt_status (llms r ! l) = LlmRunning \<longrightarrow> held r l \<and> indexed r l)"
  unfolding llm_tracked_def llm_addrs_def held_def indexed_def by blast

lemma tracked_stop:
  assumes t: "llm_tracked r" and c: "calls_stop r r'" and s: "length (sockets r') = length (sockets r)"
    "\<And>k cid l. k < length (sockets r) \<Longrightarrow> map_of (so_llm (sockets r' ! k)) cid = Some l \<Longrightarrow>
       map_of (so_llm (sockets r ! k)) cid = Some l"
    "\<And>k cid l. k < length (sockets r) \<Longrightarrow> map_of (so_llm (sockets r ! k)) cid = Some l \<Longrightarrow>
       l < length (llms r) \<Longrightarrow> lt_status (llms r' ! l) = LlmRunning \<Longrightarrow> map_of (so_llm (sockets r' ! k)) cid = Some l"
  shows "llm_tracked r'"
  unfolding llm_tracked_iff
proof (intro conjI allI impI)
  have b: "bucket r' = bucket r" "length (llms r') = length (llms r)"
    using c by (auto simp: calls_stop_def bucket_def fun_eq_iff)
  show "llm_addrs r'" using t b s(1,2) unfolding llm_tracked_iff llm_addrs_def by metis
  fix l assume l: "l < length (llms r')" "lt_status (llms r' ! l) = LlmRunning"
  then have r: "lt_status (llms r ! l) = LlmRunning" "lt_task (llms r' ! l) = lt_task (llms r ! l)" "l < length (llms r)"
    using c by (auto simp: calls_stop_def)
  then have h: "held r l" "indexed r l" using t by (auto simp: llm_tracked_iff)
  show "held r' l" using h(1) s(1,3) r(3) l(2) unfolding held_def by metis
  show "indexed r' l" using h(2) r(2) b(1) unfolding indexed_def by simp
qed

lemma so_llm_upd:
  "k < length (sockets r) \<Longrightarrow> so_llm (sockets (upd_socket s f r) ! k) =
     (if k = s then so_llm (f (sockets r ! s)) else so_llm (sockets r ! k))"
  by (auto simp: upd_socket_def nth_list_update)

lemma upd_socket_llms [simp]: "llms (upd_socket s f r) = llms r" "llm_index (upd_socket s f r) = llm_index r"
  "bucket (upd_socket s f r) = bucket r"
  by (simp_all add: upd_socket_def bucket_def fun_eq_iff)

lemma tracked_ends: "llm_tracked r \<Longrightarrow> llm_tracked (llm_ends l r)"
  by (erule tracked_stop) (auto simp: calls_stop_def llm_ends_def nth_list_update)

lemma tracked_abort_tasks: "llm_tracked r \<Longrightarrow> llm_tracked (snd (abort_router_side_llm_tasks tids r))"
  using abort_each_stops by (erule_tac tracked_stop) (auto simp: abort_router_side_llm_tasks_def)

lemma tracked_abort_ref:
  assumes "llm_tracked r"
  shows "llm_tracked (handle_cancel s None (Some cid) [] now r)"
proof (cases "map_of (so_llm (the_socket r s)) cid")
  case (Some l)
  let ?q = "upd_socket s (\<lambda>x. x\<lparr>so_llm := dict_pop cid (so_llm x)\<rparr>) r"
  have e: "handle_cancel s None (Some cid) [] now r = snd (abort_llm l ?q)" using Some by (simp add: handle_cancel_def)
  have c: "calls_stop r (snd (abort_llm l ?q))"
    using abort_llm_stops(1) [of ?q l] by (simp add: calls_stop_def)
  show ?thesis unfolding e
  proof (rule tracked_stop [OF assms c])
    show "length (sockets (snd (abort_llm l ?q))) = length (sockets r)" by (simp add: abort_llm_stops(2))
  next
    fix k d m assume "k < length (sockets r)" "map_of (so_llm (sockets (snd (abort_llm l ?q)) ! k)) d = Some m"
    then show "map_of (so_llm (sockets r ! k)) d = Some m"
      by (auto simp: abort_llm_stops(2) so_llm_upd map_of_dict_pop split: if_splits)
  next
    fix k d m assume k: "k < length (sockets r)" "map_of (so_llm (sockets r ! k)) d = Some m" "m < length (llms r)"
      "lt_status (llms (snd (abort_llm l ?q)) ! m) = LlmRunning"
    have "m \<noteq> l" using abort_llm_stops(3) [of l ?q] k(3,4) by auto
    then have "k = s \<Longrightarrow> d \<noteq> cid" using Some k(2) by (auto simp: the_socket_def)
    then show "map_of (so_llm (sockets (snd (abort_llm l ?q)) ! k)) d = Some m"
      using k(1,2) by (auto simp: abort_llm_stops(2) so_llm_upd map_of_dict_pop)
  qed
qed (simp add: handle_cancel_def assms)

lemma tracked_lost:
  assumes "llm_tracked r"
  shows "llm_tracked (begin_disconnect s r)"
proof -
  let ?r1 = "close_socket s r"
  let ?ls = "map snd (so_llm (the_socket ?r1 s))"
  let ?r2 = "snd (abort_each ?ls ?r1)"
  have e: "begin_disconnect s r = upd_socket s (\<lambda>x. x\<lparr>so_llm := []\<rparr>) ?r2" by (simp add: begin_disconnect_def Let_def)
  have same: "so_llm (sockets ?r1 ! k) = so_llm (sockets r ! k)" if "k < length (sockets r)" for k
    using that by (simp add: close_socket_def so_llm_upd)
  have ln: "length (sockets ?r2) = length (sockets r)" "length (sockets (close_socket s r)) = length (sockets r)"
    by (simp_all add: close_socket_def)
  note ab = abort_each_stops [of ?r1 ?ls]
  have c: "calls_stop r (begin_disconnect s r)" using ab unfolding e by (simp add: calls_stop_def close_socket_def)
  show ?thesis
  proof (rule tracked_stop [OF assms c])
    show "length (sockets (begin_disconnect s r)) = length (sockets r)" using ln by (simp add: e)
  next
    fix k d m assume "k < length (sockets r)" "map_of (so_llm (sockets (begin_disconnect s r) ! k)) d = Some m"
    then show "map_of (so_llm (sockets r ! k)) d = Some m" by (auto simp: e so_llm_upd ln same split: if_splits)
  next
    fix k d m assume k: "k < length (sockets r)" "map_of (so_llm (sockets r ! k)) d = Some m" "m < length (llms r)"
      "lt_status (llms (begin_disconnect s r) ! m) = LlmRunning"
    have "k \<noteq> s"
    proof
      assume "k = s"
      then have "(d, m) \<in> set (so_llm (the_socket ?r1 s))" using k(1,2) map_of_SomeD [OF k(2)]
        by (simp add: the_socket_def close_socket_def so_llm_upd)
      then have "m \<in> set ?ls" by force
      then show False using ab k(3,4) by (auto simp: e close_socket_def)
    qed
    then show "map_of (so_llm (sockets (begin_disconnect s r) ! k)) d = Some m" using k(1,2) by (simp add: e so_llm_upd ln same)
  qed
qed

lemma tracked_cleanup:
  assumes "llm_tracked r" "l < length (llms r)" "lt_status (llms r ! l) = LlmDone"
  shows "llm_tracked (llm_cleanup s cid tid l r)"
proof -
  let ?r1 = "if map_of (so_llm (the_socket r s)) cid = Some l
      then upd_socket s (\<lambda>x. x\<lparr>so_llm := dict_pop cid (so_llm x)\<rparr>) r else r"
  let ?r' = "llm_cleanup s cid tid l r"
  have "removeAll l b = [] \<Longrightarrow> set b \<subseteq> {l}" for b :: "nat list" by (metis Diff_eq_empty_iff set_empty set_removeAll)
  then have b: "set (bucket ?r' t) = (if tid = Some t then set (bucket r t) - {l} else set (bucket r t))" for t
    by (auto simp: llm_cleanup_def bucket_def Let_def map_of_dict_pop map_of_dict_set split: option.splits)
  have f: "llms ?r' = llms r" "sockets ?r' = sockets ?r1"
    by (auto simp: llm_cleanup_def Let_def split: option.splits)
  have t: "llm_tracked ?r1"
  proof (cases "map_of (so_llm (the_socket r s)) cid = Some l")
    case True
    show ?thesis unfolding if_P [OF True]
    proof (rule tracked_stop [OF assms(1)])
      fix k d m assume k: "k < length (sockets r)" "map_of (so_llm (sockets r ! k)) d = Some m"
        "lt_status (llms (upd_socket s (\<lambda>x. x\<lparr>so_llm := dict_pop cid (so_llm x)\<rparr>) r) ! m) = LlmRunning"
      then have "m \<noteq> l" using assms(3) by auto
      then show "map_of (so_llm (sockets (upd_socket s (\<lambda>x. x\<lparr>so_llm := dict_pop cid (so_llm x)\<rparr>) r) ! k)) d = Some m"
        using k True by (auto simp: so_llm_upd map_of_dict_pop the_socket_def)
    qed (auto simp: calls_stop_def so_llm_upd map_of_dict_pop split: if_splits)
  qed (use assms in simp)
  have r1: "bucket ?r1 = bucket r" "llms ?r1 = llms r" by simp_all
  have "llm_addrs ?r'" using t b f r1 unfolding llm_tracked_iff llm_addrs_def by (auto split: if_splits)
  moreover have "held ?r' m \<and> indexed ?r' m" if "m < length (llms r)" "lt_status (llms r ! m) = LlmRunning" for m
  proof -
    have h: "held ?r1 m" "indexed ?r1 m" using t that r1 by (simp_all only: llm_tracked_iff)
    have "m \<noteq> l" using that(2) assms(3) by auto
    then have "indexed ?r' m" using h(2) b r1 f(1) by (auto simp: indexed_def)
    moreover have "held ?r' m" using h(1) f(2) by (simp only: held_def)
    ultimately show ?thesis by simp
  qed
  ultimately show ?thesis by (simp add: llm_tracked_iff f(1))
qed

lemma tracked_start:
  assumes t: "llm_tracked r" and s: "s < length (sockets r)"
    and free: "\<And>l. map_of (so_llm (sockets r ! s)) cid = Some l \<Longrightarrow> lt_status (llms r ! l) = LlmDone"
  shows "llm_tracked (start_llm s cid tid r)"
proof -
  let ?r' = "start_llm s cid tid r" and ?n = "length (llms r)"
  have f: "llms ?r' = llms r @ [\<lparr>lt_task = tid, lt_status = LlmRunning\<rparr>]" "length (sockets ?r') = length (sockets r)"
    by (simp_all add: start_llm_def Let_def)
  have b: "bucket ?r' u = bucket r u @ (if tid = Some u then [?n] else [])" for u
    by (auto simp: start_llm_def Let_def bucket_def map_of_dict_set split: option.splits)
  have so: "map_of (so_llm (sockets ?r' ! k)) d = (if k = s \<and> d = cid then Some ?n else map_of (so_llm (sockets r ! k)) d)"
    if "k < length (sockets r)" for k d
    using that by (auto simp: start_llm_def Let_def so_llm_upd map_of_dict_set)
  have a: "llm_addrs r" using t by (simp add: llm_tracked_iff)
  have "llm_addrs ?r'" unfolding llm_addrs_def
  proof (intro conjI allI ballI impI)
    fix k d l assume "k < length (sockets ?r')" "map_of (so_llm (sockets ?r' ! k)) d = Some l"
    then show "l < length (llms ?r')" using a so f unfolding llm_addrs_def
      by (fastforce split: if_splits)
  next
    fix u l assume "l \<in> set (bucket ?r' u)"
    then show "l < length (llms ?r')" using a b [of u] f unfolding llm_addrs_def
      by (fastforce split: if_splits)
  qed
  moreover have "held ?r' l \<and> indexed ?r' l" if l: "l < length (llms ?r')" "lt_status (llms ?r' ! l) = LlmRunning" for l
  proof (cases "l = ?n")
    case True
    then have "map_of (so_llm (sockets ?r' ! s)) cid = Some l" using so [OF s, of cid] by simp
    then show ?thesis using True s f b unfolding held_def indexed_def by (auto simp: nth_append)
  next
    case False
    then have l': "l < ?n" "lt_status (llms r ! l) = LlmRunning" "llms ?r' ! l = llms r ! l"
      using l by (auto simp: f nth_append)
    then have h: "held r l" "indexed r l" using t by (auto simp: llm_tracked_iff)
    then obtain k d where k: "k < length (sockets r)" "map_of (so_llm (sockets r ! k)) d = Some l"
      by (auto simp: held_def)
    then have "\<not> (k = s \<and> d = cid)" using free l'(2) by auto
    then have "held ?r' l" using k so [OF k(1), of d] f unfolding held_def by (metis (full_types))
    moreover have "indexed ?r' l" using h(2) l'(3) b by (auto simp: indexed_def)
    ultimately show ?thesis by simp
  qed
  ultimately show ?thesis unfolding llm_tracked_iff by blast
qed

lemma tracked_put: "llm_tracked (put_frame c f r) = llm_tracked r"
  by (simp add: llm_tracked_def put_frame_def upd_chan_def bucket_def)

lemma tracked_ask:
  assumes "llm_tracked r" "s < length (sockets r)"
  shows "llm_tracked (snd (handle_llm_request id s cid tid r))"
proof (cases "\<exists>l. map_of (so_llm (the_socket r s)) cid = Some l \<and> lt_status (llms r ! l) \<noteq> LlmDone")
  case True
  then show ?thesis using assms
    by (auto simp: handle_llm_request_def outbox_put_def Let_def tracked_put split: option.splits)
next
  case False
  then have "snd (handle_llm_request id s cid tid r) = start_llm s cid tid r"
    by (auto simp: handle_llm_request_def split: option.splits)
  then show ?thesis using tracked_start [OF assms] False by (auto simp: the_socket_def)
qed

lemma tracked_step: "llm_tracked r \<Longrightarrow> llm_legal e r \<Longrightarrow> llm_tracked (llm_step e r)"
  by (cases e) (simp_all add: tracked_ask tracked_ends tracked_cleanup tracked_abort_ref tracked_abort_tasks tracked_lost)

lemma tracked_run: "llm_tracked r \<Longrightarrow> llm_legal_run es r \<Longrightarrow> llm_tracked (llm_run es r)"
  by (induction es r rule: llm_run.induct) (auto intro: tracked_step)

text \<open>
  Property C14.  No LLM call escapes: whatever requests (with reused correlation ids too),
  endings, late clean-ups, aborts and disconnects came before, cancelling tasks stops every
  call running for them, and losing a socket leaves no running call that only this socket
  could reach.
\<close>

theorem llm_calls_never_escape:
  assumes "llms r = []" "llm_index r = []" "\<forall>x\<in>set (sockets r). so_llm x = []" "llm_legal_run es r"
  shows "let r1 = llm_run es r;
             r2 = snd (abort_router_side_llm_tasks tids r1); r3 = begin_disconnect s r1
    in (\<forall>l<length (llms r2). lt_status (llms r2 ! l) = LlmRunning \<longrightarrow> lt_task (llms r2 ! l) \<notin> Some ` set tids) \<and>
       (\<forall>l<length (llms r3). lt_status (llms r3 ! l) = LlmRunning \<longrightarrow>
          (\<exists>k<length (sockets r3). k \<noteq> s \<and> l \<in> snd ` set (so_llm (sockets r3 ! k))))"
proof -
  let ?r1 = "llm_run es r"
  let ?r2 = "snd (abort_router_side_llm_tasks tids ?r1)" and ?r3 = "begin_disconnect s ?r1"
  have "llm_tracked r" using assms(1-3) by (auto simp: llm_tracked_def bucket_def)
  then have t: "llm_tracked ?r1" using tracked_run assms(4) by blast
  let ?ls = "concat (map (\<lambda>t. case map_of (llm_index ?r1) t of None \<Rightarrow> [] | Some ls \<Rightarrow> ls) tids)"
  have r2: "?r2 = snd (abort_each ?ls ?r1)" by (simp add: abort_router_side_llm_tasks_def)
  have "lt_task (llms ?r2 ! l) \<notin> Some ` set tids" if "l < length (llms ?r2)" "lt_status (llms ?r2 ! l) = LlmRunning" for l
  proof
    assume "lt_task (llms ?r2 ! l) \<in> Some ` set tids"
    then obtain u where u: "u \<in> set tids" "lt_task (llms ?r2 ! l) = Some u" by auto
    note ab = abort_each_stops [of ?r1 ?ls, folded r2]
    then have l: "l < length (llms ?r1)" "lt_status (llms ?r1 ! l) = LlmRunning" "lt_task (llms ?r1 ! l) = Some u"
      using that u(2) by (auto simp: calls_stop_def)
    then have "l \<in> set (bucket ?r1 u)" using t by (auto simp: llm_tracked_iff indexed_def)
    then have "l \<in> set ?ls" using u(1) by (auto simp: bucket_def intro!: bexI [of _ u])
    then show False using ab l(1) that(2) by blast
  qed
  moreover have "\<exists>k<length (sockets ?r3). k \<noteq> s \<and> l \<in> snd ` set (so_llm (sockets ?r3 ! k))"
    if "l < length (llms ?r3)" "lt_status (llms ?r3 ! l) = LlmRunning" for l
  proof -
    have "held ?r3 l" using tracked_lost [OF t] that by (auto simp: llm_tracked_iff)
    then obtain k d where k: "k < length (sockets ?r3)" "map_of (so_llm (sockets ?r3 ! k)) d = Some l"
      by (auto simp: held_def)
    then have "k \<noteq> s" by (auto simp: begin_disconnect_def Let_def so_llm_upd close_socket_def)
    then show ?thesis using k map_of_SomeD [OF k(2)] by force
  qed
  ultimately show ?thesis unfolding Let_def by blast
qed

theorem llm_calls_never_escape_witness:
  "let r1 = llm_run [Ask 0 ''q'' (Some ''t1''), Ends 0, Ask 0 ''q'' (Some ''t1''), CleanUp 0 ''q'' 0] demo_router
   in lt_status (llms r1 ! 1) = LlmRunning \<and>
      lt_status (llms (snd (abort_router_side_llm_tasks [''t1''] r1)) ! 1) \<noteq> LlmRunning"
proof -
  let ?es = "[Ask 0 ''q'' (Some ''t1''), Ends 0, Ask 0 ''q'' (Some ''t1''), CleanUp 0 ''q'' 0]"
  let ?r1 = "llm_run ?es demo_router"
  have "llms demo_router = []" "llm_index demo_router = []" "\<forall>x\<in>set (sockets demo_router). so_llm x = []"
    by (simp_all add: demo_defs)
  moreover have "llm_legal_run ?es demo_router" by code_simp
  moreover have "lt_status (llms ?r1 ! 1) = LlmRunning" by code_simp
  moreover have "1 < length (llms (snd (abort_router_side_llm_tasks [''t1''] ?r1)))" by code_simp
  moreover have "lt_task (llms (snd (abort_router_side_llm_tasks [''t1''] ?r1)) ! 1) = Some ''t1''" by code_simp
  ultimately show ?thesis using llm_calls_never_escape [of demo_router ?es "[''t1'']" 0]
    by (auto simp: Let_def simp del: llm_run.simps)
qed

end
