(* ===== verification/FileNames.thy ===== *)
theory FileNames
  imports Prelude
begin

text \<open>
  \<open>bp_router/filename_utils.py\<close> and the name grammar of \<open>bp_router/file_store.py\<close>, with the
  SQL \<open>LIKE\<close> patterns that \<open>db/queries.py\<close> builds from names.  A character is a code point
  below 256.
\<close>

section \<open>File names\<close>

definition reject_char :: "char \<Rightarrow> bool" where
  "reject_char c = (code c < 32 \<or> code c = 127 \<or> c = CHR 0x22)"

definition valid_bare_filename :: "string \<Rightarrow> bool" where
  "valid_bare_filename name = (name \<noteq> [] \<and> CHR 0x2F \<notin> set name \<and> \<not> list_ex reject_char name)"

definition PERSIST_PREFIX :: string where
  "PERSIST_PREFIX = ''persist/''"

definition split_stash_name :: "string \<Rightarrow> (bool \<times> string) option" where
  "split_stash_name name =
     (let (persistent, bare) = (if starts_with PERSIST_PREFIX name then (True, drop (length PERSIST_PREFIX) name)
                                else (False, name))
      in if \<not> valid_bare_filename bare then None else Some (persistent, bare))"

definition scope_for :: "bool \<Rightarrow> string \<Rightarrow> string" where
  "scope_for persistent sid = (if persistent then ''persist'' else ''session:'' @ sid)"

definition display_name :: "bool \<Rightarrow> string \<Rightarrow> string" where
  "display_name persistent bare = (if persistent then PERSIST_PREFIX @ bare else bare)"

text \<open>\<open>s.rpartition(c)\<close> when \<open>c\<close> occurs: what is before and after its last occurrence.\<close>

definition rpartition :: "char \<Rightarrow> string \<Rightarrow> (string \<times> string) option" where
  "rpartition c s = (if c \<in> set s then Some (rev (after_char c (rev s)), rev (before_char c (rev s))) else None)"

definition next_dedup_candidate :: "string \<Rightarrow> nat \<Rightarrow> string" where
  "next_dedup_candidate filename n =
     (case rpartition (CHR 0x2E) filename of
        Some (stem, ext) \<Rightarrow> stem @ ''_'' @ show_nat n @ ''.'' @ ext
      | None \<Rightarrow> filename @ ''_'' @ show_nat n)"

section \<open>The \<open>Content-Disposition\<close> header\<close>

definition defang :: "char \<Rightarrow> char" where
  "defang c = (if c = CHR 0x5C \<or> c = CHR 0x22 \<or> code c < 32 \<or> code c = 127 then CHR 0x5F else c)"

definition unreserved :: "char \<Rightarrow> bool" where
  "unreserved c = (is_lower c \<or> is_upper c \<or> is_digit c \<or> c \<in> {CHR 0x5F, CHR 0x2E, CHR 0x2D, CHR 0x7E})"

definition HEX_digit :: "nat \<Rightarrow> char" where
  "HEX_digit d = (if d < 10 then char_of (48 + d) else char_of (55 + d))"

definition percent :: "nat \<Rightarrow> string" where
  "percent b = [CHR 0x25, HEX_digit (b div 16), HEX_digit (b mod 16)]"

text \<open>\<open>urllib.parse.quote(s, safe="")\<close>: each byte of the UTF-8 form.\<close>

definition quote_char :: "char \<Rightarrow> string" where
  "quote_char c = (if unreserved c then [c]
     else if code c < 128 then percent (code c)
     else percent (192 + code c div 64) @ percent (128 + code c mod 64))"

definition base_name :: "string \<Rightarrow> string" where
  "base_name name = py_or (Some (last (split_char (CHR 0x2F)
     (map (\<lambda>c. if c = CHR 0x5C then CHR 0x2F else c) name)))) ''download''"

definition safe_filename_for_header :: "string \<Rightarrow> string" where
  "safe_filename_for_header name =
     (let base = base_name name;
          ascii_safe = py_or (Some (map defang (filter (\<lambda>c. code c < 128) base))) ''download''
      in ''attachment; filename='' @ [CHR 0x22] @ ascii_safe @ [CHR 0x22] @ ''; filename*=UTF-8'' @
         [CHR 0x27, CHR 0x27] @ concat (map quote_char base))"

section \<open>LIKE patterns\<close>

definition subst_char :: "char \<Rightarrow> string \<Rightarrow> string \<Rightarrow> string" where
  "subst_char c t s = concat (map (\<lambda>x. if x = c then t else [x]) s)"

definition like_escape :: "string \<Rightarrow> string" where
  "like_escape s = subst_char (CHR 0x5F) [CHR 0x5C, CHR 0x5F]
     (subst_char (CHR 0x25) [CHR 0x5C, CHR 0x25] (subst_char (CHR 0x5C) [CHR 0x5C, CHR 0x5C] s))"

text \<open>
  SQL's \<open>s LIKE p ESCAPE '\'\<close>: \<open>%\<close> is any text, \<open>_\<close> any character, and the escape character
  takes the next one literally.  \<open>nrm\<close> is the identity, or lower-casing for \<open>ILIKE\<close>.
\<close>

fun like_match :: "(char \<Rightarrow> char) \<Rightarrow> string \<Rightarrow> string \<Rightarrow> bool" where
  "like_match nrm [] s = (s = [])"
| "like_match nrm (c # p) s =
     (if c = CHR 0x5C
      then (case p of [] \<Rightarrow> False
            | d # p' \<Rightarrow> (case s of [] \<Rightarrow> False | x # xs \<Rightarrow> nrm x = nrm d \<and> like_match nrm p' xs))
      else if c = CHR 0x25 then list_ex (\<lambda>k. like_match nrm p (drop k s)) [0..<Suc (length s)]
      else (case s of [] \<Rightarrow> False
            | x # xs \<Rightarrow> (c = CHR 0x5F \<or> nrm x = nrm c) \<and> like_match nrm p xs))"

definition to_lower :: "char \<Rightarrow> char" where
  "to_lower c = (if is_upper c then char_of (code c + 32) else c)"

text \<open>The \<open>*\<close>-glob of \<open>DeleteFileRequest\<close>.\<close>

definition glob_to_like :: "string \<Rightarrow> string" where
  "glob_to_like pattern = subst_char (CHR 0x2A) [CHR 0x25] (like_escape pattern)"

section \<open>Names\<close>

lemma valid_no_slash: "valid_bare_filename b \<Longrightarrow> \<not> starts_with PERSIST_PREFIX b"
  by (auto simp: valid_bare_filename_def starts_with_iff PERSIST_PREFIX_def)

text \<open>
  A stash name and its parts determine each other: parsing a name gives scope
  and bare name exactly when the bare name is valid and displaying them gives the name back.
\<close>

theorem stash_name_roundtrip:
  "split_stash_name n = Some (p, b) \<longleftrightarrow> display_name p b = n \<and> valid_bare_filename b"
proof (cases "starts_with PERSIST_PREFIX n")
  case True
  then obtain m where m: "n = PERSIST_PREFIX @ m" by (auto simp: starts_with_iff)
  have "split_stash_name n = (if valid_bare_filename m then Some (True, m) else None)"
    using True by (simp add: split_stash_name_def m)
  then show ?thesis using valid_no_slash [of b] True by (auto simp: display_name_def m)
next
  case False
  then show ?thesis by (auto simp: split_stash_name_def display_name_def starts_with_iff)
qed

lemma scope_for_inject: "scope_for p s = scope_for q t \<longleftrightarrow> p = q \<and> (p \<or> s = t)"
  by (auto simp: scope_for_def)

lemma show_nat_inject: "show_nat m = show_nat n \<longleftrightarrow> m = n"
  by (metis parse_show_nat)

lemma rpartition_Some:
  assumes "rpartition c s = Some (stem, ext)"
  shows "s = stem @ c # ext"
proof -
  have c: "c \<in> set (rev s)" "stem = rev (after_char c (rev s))" "ext = rev (before_char c (rev s))"
    using assms by (auto simp: rpartition_def split: if_splits)
  have "rev s = before_char c (rev s) @ c # after_char c (rev s)" by (rule partition_join [OF c(1)])
  then have "rev (rev s) = rev (after_char c (rev s)) @ c # rev (before_char c (rev s))"
    by (metis rev_append rev.simps(2) append.assoc append_Cons append_Nil)
  then show ?thesis using c by simp
qed

lemma candidate_inject:
  "next_dedup_candidate f m = next_dedup_candidate f n \<longleftrightarrow> m = n" "next_dedup_candidate f n \<noteq> f"
  using rpartition_Some [of "CHR 0x2E" f]
  by (auto simp: next_dedup_candidate_def show_nat_inject split: option.splits dest: arg_cong [where f = length])

lemma candidate_valid:
  assumes "valid_bare_filename f"
  shows "valid_bare_filename (next_dedup_candidate f n)"
proof -
  have d: "\<not> reject_char c \<and> c \<noteq> CHR 0x2F" if "c \<in> set (show_nat n)" for c
    using show_nat_digits [of n] that by (auto simp: list_all_iff is_digit_def reject_char_def code_def)
  then have "\<not> list_ex reject_char (show_nat n)" "CHR 0x2F \<notin> set (show_nat n)" by (auto simp: list_ex_iff)
  then show ?thesis using assms rpartition_Some [of "CHR 0x2E" f]
    by (auto simp: valid_bare_filename_def next_dedup_candidate_def reject_char_def code_def split: option.splits)
qed

section \<open>The header\<close>

lemma HEX_digit_code: "d < 16 \<Longrightarrow> 48 \<le> code (HEX_digit d) \<and> code (HEX_digit d) < 127 \<and> HEX_digit d \<noteq> CHR 0x22"
proof -
  assume "d < 16"
  then have c: "48 \<le> code (HEX_digit d) \<and> code (HEX_digit d) < 127" by (auto simp: HEX_digit_def code_def)
  then have "HEX_digit d \<noteq> CHR 0x22" by (auto simp: code_def)
  with c show ?thesis by simp
qed

lemma percent_plain:
  assumes "b < 256" "c \<in> set (percent b)"
  shows "32 \<le> code c \<and> code c < 127 \<and> c \<noteq> CHR 0x22"
proof -
  have "b div 16 < 16" "b mod 16 < 16" using assms(1) by auto
  then show ?thesis using assms(2) HEX_digit_code [of "b div 16"] HEX_digit_code [of "b mod 16"]
    by (auto simp: percent_def code_def)
qed

lemma quote_plain:
  assumes "c \<in> set (quote_char x)"
  shows "32 \<le> code c \<and> code c < 127 \<and> c \<noteq> CHR 0x22"
proof -
  have x: "code x < 256" by (simp add: code_def)
  then have "192 + code x div 64 < 256" by auto
  moreover have "128 + code x mod 64 < 256" using mod_less_divisor [of 64 "code x"] by linarith
  moreover note x
  ultimately have p: "c \<in> set (percent (192 + code x div 64)) \<or> c \<in> set (percent (128 + code x mod 64)) \<or>
      c \<in> set (percent (code x)) \<Longrightarrow> 32 \<le> code c \<and> code c < 127 \<and> c \<noteq> CHR 0x22"
    using percent_plain by blast
  show ?thesis
  proof (cases "unreserved x")
    case True
    then show ?thesis using assms
      by (auto simp: quote_char_def unreserved_def is_lower_def is_upper_def is_digit_def code_def)
  qed (use assms p in \<open>auto simp: quote_char_def split: if_splits\<close>)
qed

lemma defang_plain:
  assumes "code c < 128"
  shows "32 \<le> code (defang c) \<and> code (defang c) < 127 \<and> defang c \<noteq> CHR 0x22 \<and> defang c \<noteq> CHR 0x5C"
proof -
  have "code c \<noteq> 127 \<Longrightarrow> code c < 127" using assms by simp
  then show ?thesis by (auto simp: defang_def code_def)
qed

text \<open>
  No stored file name can break out of the download header: the value is one
  line of printable ASCII, and the only double quotes in it are the two around the fallback
  name.
\<close>

theorem no_header_injection:
  "list_all (\<lambda>c. 32 \<le> code c \<and> code c < 127) (safe_filename_for_header n) \<and>
   filter (\<lambda>c. c = CHR 0x22) (safe_filename_for_header n) = [CHR 0x22, CHR 0x22]"
proof -
  let ?a = "py_or (Some (map defang (filter (\<lambda>c. code c < 128) (base_name n)))) ''download''"
  have a: "32 \<le> code c \<and> code c < 127 \<and> c \<noteq> CHR 0x22" if "c \<in> set ?a" for c
    using that defang_plain by (auto simp: py_or_def truthy_def code_def split: if_splits)
  have q: "32 \<le> code c \<and> code c < 127 \<and> c \<noteq> CHR 0x22" if "c \<in> set (concat (map quote_char (base_name n)))" for c
    using that quote_plain by auto
  have "filter (\<lambda>c. c = CHR 0x22) ?a = []" "filter (\<lambda>c. c = CHR 0x22) (concat (map quote_char (base_name n))) = []"
    using a q by (auto simp: filter_empty_conv)
  moreover have "list_all (\<lambda>c. 32 \<le> code c \<and> code c < 127) (safe_filename_for_header n)"
    using a q by (auto simp: safe_filename_for_header_def Let_def code_def list_all_iff)
  ultimately show ?thesis by (simp add: safe_filename_for_header_def Let_def)
qed

section \<open>Patterns\<close>

definition esc :: "char \<Rightarrow> string" where
  "esc c = (if c \<in> {CHR 0x5C, CHR 0x25, CHR 0x5F} then [CHR 0x5C, c] else [c])"

lemma subst_char_simps: "subst_char c t [] = []" "subst_char c t (x # s) = (if x = c then t else [x]) @ subst_char c t s"
  "subst_char c t (a @ b) = subst_char c t a @ subst_char c t b"
  by (simp_all add: subst_char_def)

lemma like_escape_simps: "like_escape [] = []" "like_escape (c # s) = esc c @ like_escape s"
  by (simp_all add: like_escape_def esc_def subst_char_simps)

lemma like_literal:
  "like_match nrm (like_escape q @ p) s \<longleftrightarrow>
   length q \<le> length s \<and> map nrm (take (length q) s) = map nrm q \<and> like_match nrm p (drop (length q) s)"
proof (induction q arbitrary: s)
  case (Cons c q)
  show ?case
    by (cases s) (auto simp: like_escape_simps esc_def Cons.IH)
qed (simp add: like_escape_simps)

lemma like_any: "like_match nrm (CHR 0x25 # p) s \<longleftrightarrow> (\<exists>a z. s = a @ z \<and> like_match nrm p z)"
proof
  assume "like_match nrm (CHR 0x25 # p) s"
  then obtain k where "like_match nrm p (drop k s)" by (auto simp: list_ex_iff simp del: upt_Suc)
  then show "\<exists>a z. s = a @ z \<and> like_match nrm p z" by (metis append_take_drop_id)
next
  assume "\<exists>a z. s = a @ z \<and> like_match nrm p z"
  then obtain a z where "s = a @ z" "like_match nrm p z" by blast
  then have "like_match nrm p (drop (length a) s)" "length a < Suc (length s)" by simp_all
  then show "like_match nrm (CHR 0x25 # p) s" by (force simp: list_ex_iff)
qed

text \<open>
  A listing query is a literal substring search: the pattern the query builds
  matches exactly the names that contain it, letter case aside, whatever \<open>%\<close>, \<open>_\<close> and
  backslashes it has.
\<close>

theorem like_query_is_substring:
  "like_match to_lower (''%'' @ like_escape q @ ''%'') s \<longleftrightarrow>
   (\<exists>a m z. s = a @ m @ z \<and> map to_lower m = map to_lower q)"
proof -
  have "like_match to_lower (like_escape q @ ''%'') z \<longleftrightarrow> (\<exists>m y. z = m @ y \<and> map to_lower m = map to_lower q)" for z
  proof -
    have "like_match to_lower ''%'' x" for x using like_any [of to_lower "[]" x] by auto
    then have "like_match to_lower (like_escape q @ ''%'') z \<longleftrightarrow>
        length q \<le> length z \<and> map to_lower (take (length q) z) = map to_lower q"
      by (simp add: like_literal del: like_match.simps)
    also have "\<dots> \<longleftrightarrow> (\<exists>m y. z = m @ y \<and> map to_lower m = map to_lower q)"
    proof
      assume "length q \<le> length z \<and> map to_lower (take (length q) z) = map to_lower q"
      then show "\<exists>m y. z = m @ y \<and> map to_lower m = map to_lower q" by (metis append_take_drop_id)
    next
      assume "\<exists>m y. z = m @ y \<and> map to_lower m = map to_lower q"
      then obtain m y where m: "z = m @ y" "map to_lower m = map to_lower q" by blast
      then have "length m = length q" by (metis length_map)
      then show "length q \<le> length z \<and> map to_lower (take (length q) z) = map to_lower q" using m by simp
    qed
    finally show ?thesis .
  qed
  then show ?thesis using like_any [of to_lower "like_escape q @ ''%''" s] by auto
qed

text \<open>The glob a deletion means: \<open>*\<close> is any text, everything else itself.\<close>

fun glob_match :: "string \<Rightarrow> string \<Rightarrow> bool" where
  "glob_match [] s = (s = [])"
| "glob_match (c # p) s =
     (if c = CHR 0x2A then list_ex (\<lambda>k. glob_match p (drop k s)) [0..<Suc (length s)]
      else (case s of [] \<Rightarrow> False | x # xs \<Rightarrow> x = c \<and> glob_match p xs))"

lemma glob_to_like_simps: "glob_to_like [] = []"
  "glob_to_like (c # p) = (if c = CHR 0x2A then [CHR 0x25] else esc c) @ glob_to_like p"
  by (simp_all add: glob_to_like_def like_escape_simps subst_char_simps esc_def)

text \<open>A glob deletion removes exactly the names its glob matches.\<close>

theorem glob_is_like: "like_match (\<lambda>c. c) (glob_to_like p) s \<longleftrightarrow> glob_match p s"
proof (induction p arbitrary: s)
  case (Cons c p)
  show ?case by (cases s) (auto simp: glob_to_like_simps esc_def Cons.IH)
qed (simp add: glob_to_like_simps)

end
