(* ===== verification/FileQueries.thy ===== *)
theory FileQueries
  imports QueryFacts FileNames Frames
begin

text \<open>
  The statements of \<open>db/queries.py\<close> on blobs (\<open>files\<close>) and names (\<open>file_names\<close>), the scope a
  task gives its executor (\<open>attachments.py\<close>) and the name allocation of \<open>file_store.py\<close>.  A
  name's key is user, scope and file name; it points at a blob by file id.
\<close>

section \<open>Blobs\<close>

definition get_file :: "user_id \<Rightarrow> string \<Rightarrow> db \<Rightarrow> file_row option" where
  "get_file uid fid d = find (\<lambda>f. f_id f = fid \<and> f_user f = uid) (files d)"

definition get_file_by_id :: "string \<Rightarrow> db \<Rightarrow> file_row option" where
  "get_file_by_id fid d = tbl_get f_id fid (files d)"

definition get_file_by_sha256 :: "user_id \<Rightarrow> string \<Rightarrow> db \<Rightarrow> file_row option" where
  "get_file_by_sha256 uid sha d = find (\<lambda>f. f_user f = uid \<and> f_sha f = sha) (files d)"

definition insert_file ::
  "user_id \<Rightarrow> string \<Rightarrow> session_id option \<Rightarrow> task_id option \<Rightarrow> int \<Rightarrow> string option \<Rightarrow> string option \<Rightarrow>
   time option \<Rightarrow> string \<Rightarrow> time \<Rightarrow> db \<Rightarrow> db_error + file_row \<times> db" where
  "insert_file uid sha sid tid sz mime orig expires new_id now d =
     (case get_file_by_sha256 uid sha d of
        Some f \<Rightarrow> Inr (f, d)
      | None \<Rightarrow>
          let row = \<lparr>f_id = new_id, f_sha = sha, f_user = uid, f_session = sid, f_task = tid, f_size = sz,
                f_mime = mime, f_orig = orig, f_created = now, f_expires = expires\<rparr>
          in if tbl_get f_id new_id (files d) \<noteq> None then Inl (UniqueViolation ''files_pkey'')
             else if tbl_get u_id uid (users d) = None \<or>
                (case sid of None \<Rightarrow> False | Some s \<Rightarrow> tbl_get s_id s (sessions d) = None) \<or>
                (case tid of None \<Rightarrow> False | Some t \<Rightarrow> tbl_get t_id t (tasks d) = None)
             then Inl (ForeignKeyViolation ''files'')
             else Inr (row, d\<lparr>files := files d @ [row]\<rparr>))"

section \<open>Names\<close>

definition is_name :: "user_id \<Rightarrow> string \<Rightarrow> string \<Rightarrow> name_row \<Rightarrow> bool" where
  "is_name uid scope fn n = (n_user n = uid \<and> n_scope n = scope \<and> n_name n = fn)"

definition resolve_file_name :: "user_id \<Rightarrow> string \<Rightarrow> string \<Rightarrow> db \<Rightarrow> name_row option" where
  "resolve_file_name uid scope fn d = find (is_name uid scope fn) (names d)"

definition insert_file_name ::
  "user_id \<Rightarrow> string \<Rightarrow> string \<Rightarrow> string \<Rightarrow> int \<Rightarrow> time \<Rightarrow> db \<Rightarrow> db_error + bool \<times> db" where
  "insert_file_name uid scope fn fid sz now d =
     (if resolve_file_name uid scope fn d \<noteq> None then Inr (False, d)
      else if tbl_get u_id uid (users d) = None \<or> tbl_get f_id fid (files d) = None
      then Inl (ForeignKeyViolation ''file_names'')
      else Inr (True, d\<lparr>names := names d @ [\<lparr>n_user = uid, n_scope = scope, n_name = fn, n_file = fid,
                         n_size = sz, n_created = now, n_updated = now\<rparr>]\<rparr>))"

definition repoint_file_name ::
  "user_id \<Rightarrow> string \<Rightarrow> string \<Rightarrow> string \<Rightarrow> int \<Rightarrow> time \<Rightarrow> db \<Rightarrow> db_error + db" where
  "repoint_file_name uid scope fn fid sz now d =
     (if resolve_file_name uid scope fn d \<noteq> None \<and> tbl_get f_id fid (files d) = None
      then Inl (ForeignKeyViolation ''file_names'')
      else Inr (d\<lparr>names := map (\<lambda>n. if is_name uid scope fn n
              then n\<lparr>n_file := fid, n_size := sz, n_updated := now\<rparr> else n) (names d)\<rparr>))"

definition query_ok :: "string option \<Rightarrow> string \<Rightarrow> bool" where
  "query_ok query fn = (case query of None \<Rightarrow> True
     | Some q \<Rightarrow> like_match to_lower (''%'' @ like_escape q @ ''%'') fn)"

definition list_file_names :: "user_id \<Rightarrow> string \<Rightarrow> string option \<Rightarrow> time option \<Rightarrow> db \<Rightarrow> name_row list" where
  "list_file_names uid scope query stored_after d =
     sort_key (\<lambda>n. - n_created n)
       (filter (\<lambda>n. n_user n = uid \<and> n_scope n = scope \<and> query_ok query (n_name n) \<and>
                    (case stored_after of None \<Rightarrow> True | Some t \<Rightarrow> t < n_created n)) (names d))"

text \<open>The join with the blob: a name without one gives no row.\<close>

definition entry_of :: "db \<Rightarrow> name_row \<Rightarrow> file_entry list" where
  "entry_of d n = (case get_file (n_user n) (n_file n) d of
     None \<Rightarrow> []
   | Some f \<Rightarrow> [\<lparr>fe_name = n_name n, fe_size = n_size n, fe_mime = f_mime f, fe_created = n_created n\<rparr>])"

definition stat_file_name :: "user_id \<Rightarrow> string \<Rightarrow> string \<Rightarrow> db \<Rightarrow> file_entry option" where
  "stat_file_name uid scope fn d =
     (case resolve_file_name uid scope fn d of
        None \<Rightarrow> None
      | Some n \<Rightarrow> (case entry_of d n of [] \<Rightarrow> None | e # _ \<Rightarrow> Some e))"

definition list_file_entries :: "user_id \<Rightarrow> string \<Rightarrow> string option \<Rightarrow> time option \<Rightarrow> db \<Rightarrow> file_entry list" where
  "list_file_entries uid scope query stored_after d =
     concat (map (entry_of d) (list_file_names uid scope query stored_after d))"

definition delete_names_where :: "(name_row \<Rightarrow> bool) \<Rightarrow> db \<Rightarrow> nat \<times> db" where
  "delete_names_where hit d =
     (length (filter hit (names d)), d\<lparr>names := filter (\<lambda>n. \<not> hit n) (names d)\<rparr>)"

definition delete_file_name :: "user_id \<Rightarrow> string \<Rightarrow> string \<Rightarrow> db \<Rightarrow> nat \<times> db" where
  "delete_file_name uid scope fn = delete_names_where (is_name uid scope fn)"

definition delete_file_names_glob :: "user_id \<Rightarrow> string \<Rightarrow> string \<Rightarrow> db \<Rightarrow> nat \<times> db" where
  "delete_file_names_glob uid scope pattern = delete_names_where
     (\<lambda>n. n_user n = uid \<and> n_scope n = scope \<and> like_match (\<lambda>c. c) (glob_to_like pattern) (n_name n))"

definition count_user_storage_bytes :: "user_id \<Rightarrow> db \<Rightarrow> int" where
  "count_user_storage_bytes uid d = sum_list (map n_size (filter (\<lambda>n. n_user n = uid) (names d)))"

definition count_names_for_file :: "user_id \<Rightarrow> string \<Rightarrow> db \<Rightarrow> nat" where
  "count_names_for_file uid fid d = length (filter (\<lambda>n. n_user n = uid \<and> n_file n = fid) (names d))"

section \<open>Reclaiming blobs\<close>

definition find_expired_files :: "time \<Rightarrow> nat \<Rightarrow> db \<Rightarrow> file_row list" where
  "find_expired_files now limit d =
     take limit (sort_key (\<lambda>f. the (f_expires f))
       (filter (\<lambda>f. (case f_expires f of None \<Rightarrow> False | Some e \<Rightarrow> e < now) \<and>
                    \<not> list_ex (\<lambda>n. n_file n = f_id f) (names d)) (files d)))"

definition delete_file_row :: "string \<Rightarrow> db \<Rightarrow> db_error + db" where
  "delete_file_row fid d =
     (if tbl_get f_id fid (files d) \<noteq> None \<and> list_ex (\<lambda>n. n_file n = fid) (names d)
      then Inl (ForeignKeyViolation ''file_names'')
      else Inr (d\<lparr>files := tbl_del f_id fid (files d)\<rparr>))"

definition count_other_file_refs :: "string \<Rightarrow> string \<Rightarrow> db \<Rightarrow> nat" where
  "count_other_file_refs sha exclude d = length (filter (\<lambda>f. f_sha f = sha \<and> f_id f \<noteq> exclude) (files d))"

section \<open>Authority\<close>

definition derive_task_file_scope :: "task_id \<Rightarrow> agent_id \<Rightarrow> db \<Rightarrow> (user_id \<times> session_id) option" where
  "derive_task_file_scope tid agent d =
     (case find_task d tid of
        None \<Rightarrow> None
      | Some t \<Rightarrow> if t_active t \<noteq> agent then None else Some (t_user t, t_session t))"

section \<open>Allocation\<close>

datatype dedup = AppendCount | Overwrite | ErrorOnExisting

definition MAX_DEDUP_ATTEMPTS :: nat where
  "MAX_DEDUP_ATTEMPTS = 1000"

text \<open>\<open>for n in range(1, MAX + 1)\<close>, from \<open>n\<close> on.\<close>

function append_count ::
  "user_id \<Rightarrow> string \<Rightarrow> string \<Rightarrow> string \<Rightarrow> int \<Rightarrow> time \<Rightarrow> nat \<Rightarrow> db \<Rightarrow> db_error + (string option \<times> db)" where
  "append_count uid scope fn fid sz now n d =
     (if MAX_DEDUP_ATTEMPTS < n then Inr (None, d)
      else case insert_file_name uid scope (next_dedup_candidate fn n) fid sz now d of
             Inl e \<Rightarrow> Inl e
           | Inr (True, d') \<Rightarrow> Inr (Some (next_dedup_candidate fn n), d')
           | Inr (False, d') \<Rightarrow> append_count uid scope fn fid sz now (Suc n) d')"
  by pat_completeness auto
termination
  by (relation "measure (\<lambda>(uid, scope, fn, fid, sz, now, n, d). Suc MAX_DEDUP_ATTEMPTS - n)") auto

declare append_count.simps [simp del]

text \<open>
  \<open>_allocate_name\<close>: \<open>Inl\<close> an error text, or the saved name and the bytes added.  The name is
  resolved first; \<open>env\<close> is what other transactions commit before the write.
\<close>

definition settle_name ::
  "user_id \<Rightarrow> string \<Rightarrow> string \<Rightarrow> string \<Rightarrow> int \<Rightarrow> dedup \<Rightarrow> time \<Rightarrow> name_row option \<Rightarrow> db \<Rightarrow>
   db_error + (string + string \<times> int) \<times> db" where
  "settle_name uid scope fn fid sz dd now existing d =
     (if (case existing of None \<Rightarrow> False | Some n \<Rightarrow> n_file n = fid) then Inr (Inr (fn, 0), d)
      else if dd = ErrorOnExisting then Inr (Inl ''filename_exists'', d)
      else case (dd, existing) of
             (Overwrite, Some n) \<Rightarrow>
               (case repoint_file_name uid scope fn fid sz now d of
                  Inl e \<Rightarrow> Inl e
                | Inr d' \<Rightarrow> Inr (Inr (fn, sz - n_size n), d'))
           | _ \<Rightarrow>
               (case append_count uid scope fn fid sz now 1 d of
                  Inl e \<Rightarrow> Inl e
                | Inr (Some c, d') \<Rightarrow> Inr (Inr (c, sz), d')
                | Inr (None, d') \<Rightarrow> Inr (Inl ''filename_exists'', d')))"

definition allocate_name ::
  "(db \<Rightarrow> db) \<Rightarrow> user_id \<Rightarrow> string \<Rightarrow> string \<Rightarrow> string \<Rightarrow> int \<Rightarrow> dedup \<Rightarrow> time \<Rightarrow> db \<Rightarrow>
   db_error + (string + string \<times> int) \<times> db" where
  "allocate_name env uid scope fn fid sz dd now d =
     (case resolve_file_name uid scope fn d of
        Some n \<Rightarrow> settle_name uid scope fn fid sz dd now (Some n) (env d)
      | None \<Rightarrow>
          let d1 = env d
          in (case insert_file_name uid scope fn fid sz now d1 of
                Inl e \<Rightarrow> Inl e
              | Inr (True, d') \<Rightarrow> Inr (Inr (fn, sz), d')
              | Inr (False, d') \<Rightarrow>
                  settle_name uid scope fn fid sz dd now (resolve_file_name uid scope fn d') d'))"

end
