(* ===== verification/FileFacts.thy ===== *)
theory FileFacts
  imports FileQueries
begin

text \<open>
  What the statements of \<open>FileQueries\<close> do to the directory, seen as a map from keys to rows,
  and the properties of name allocation.
\<close>

section \<open>The directory as a map\<close>

definition lookup_names :: "db \<Rightarrow> user_id \<times> string \<times> string \<Rightarrow> name_row option" where
  "lookup_names d k = resolve_file_name (fst k) (fst (snd k)) (snd (snd k)) d"

lemma is_name_key: "is_name u s f n \<longleftrightarrow> (n_user n, n_scope n, n_name n) = (u, s, f)"
  by (simp add: is_name_def)

lemma lookup_tbl: "lookup_names d k = tbl_get (\<lambda>n. (n_user n, n_scope n, n_name n)) k (names d)"
  by (cases k) (simp add: lookup_names_def resolve_file_name_def tbl_get_def is_name_key [abs_def])

lemma resolve_lookup: "resolve_file_name u s f d = lookup_names d (u, s, f)"
  by (simp add: lookup_names_def)

lemma lookup_key: "lookup_names d (u, s, f) = Some n \<Longrightarrow> n \<in> set (names d) \<and> n_user n = u \<and> n_scope n = s \<and> n_name n = f"
  unfolding lookup_tbl by (drule tbl_get_SomeD) auto

text \<open>Statements that touch the directory only.\<close>

definition only_names :: "db \<Rightarrow> db \<Rightarrow> bool" where
  "only_names d d' \<longleftrightarrow> d' = d\<lparr>names := names d'\<rparr>"

lemma only_names_refl [simp]: "only_names d d"
  by (simp add: only_names_def)

lemma only_namesD:
  assumes "only_names d d'"
  shows "users d' = users d" "sessions d' = sessions d" "agents d' = agents d" "tasks d' = tasks d"
    "events d' = events d" "files d' = files d" "audit d' = audit d"
  by (subst assms [unfolded only_names_def], simp)+

lemma only_names_upd [simp]: "only_names d (d\<lparr>names := x\<rparr>)"
  by (simp add: only_names_def)

lemma insert_name_True:
  assumes "insert_file_name uid scope fn fid sz now d = Inr (True, d')"
  shows "lookup_names d (uid, scope, fn) = None" "only_names d d'"
    "\<exists>n. n_file n = fid \<and> n_size n = sz \<and> n_user n = uid \<and> n_scope n = scope \<and> n_name n = fn \<and>
       names d' = names d @ [n] \<and> lookup_names d' = (lookup_names d)((uid, scope, fn) \<mapsto> n)"
    "tbl_get f_id fid (files d) \<noteq> None"
proof -
  let ?n = "\<lparr>n_user = uid, n_scope = scope, n_name = fn, n_file = fid, n_size = sz, n_created = now, n_updated = now\<rparr>"
  have i: "resolve_file_name uid scope fn d = None" "d' = d\<lparr>names := names d @ [?n]\<rparr>" "tbl_get f_id fid (files d) \<noteq> None"
    using assms by (auto simp: insert_file_name_def split: if_splits)
  then show "lookup_names d (uid, scope, fn) = None" "only_names d d'" "tbl_get f_id fid (files d) \<noteq> None"
    by (simp_all add: resolve_lookup)
  have "lookup_names d' k = ((lookup_names d)((uid, scope, fn) \<mapsto> ?n)) k" for k
    using i(1) by (auto simp: i(2) lookup_tbl resolve_lookup tbl_get_append tbl_get_Cons tbl_get_Nil split: option.split)
  then show "\<exists>n. n_file n = fid \<and> n_size n = sz \<and> n_user n = uid \<and> n_scope n = scope \<and> n_name n = fn \<and>
       names d' = names d @ [n] \<and> lookup_names d' = (lookup_names d)((uid, scope, fn) \<mapsto> n)"
    using i(2) by (intro exI [of _ ?n]) (auto simp: fun_eq_iff)
qed

lemma insert_name_False: "insert_file_name uid scope fn fid sz now d = Inr (False, d') \<Longrightarrow>
   d' = d \<and> lookup_names d (uid, scope, fn) \<noteq> None"
  by (auto simp: insert_file_name_def resolve_lookup split: if_splits)

lemma count_append: "names d' = names d @ [n] \<Longrightarrow>
   count_user_storage_bytes u d' = count_user_storage_bytes u d + (if n_user n = u then n_size n else 0)"
  by (simp add: count_user_storage_bytes_def)

lemma repoint_name:
  assumes "tbl_ok (\<lambda>n. (n_user n, n_scope n, n_name n)) (names d)"
    "lookup_names d (uid, scope, fn) = Some n" "repoint_file_name uid scope fn fid sz now d = Inr d'"
  shows "only_names d d'"
    "lookup_names d' = (lookup_names d)((uid, scope, fn) \<mapsto> n\<lparr>n_file := fid, n_size := sz, n_updated := now\<rparr>)"
    "count_user_storage_bytes u d' = count_user_storage_bytes u d + (if u = uid then sz - n_size n else 0)"
    "tbl_get f_id fid (files d) \<noteq> None" "tbl_ok (\<lambda>n. (n_user n, n_scope n, n_name n)) (names d')"
proof -
  let ?key = "\<lambda>n. (n_user n, n_scope n, n_name n)"
  let ?f = "\<lambda>n. n\<lparr>n_file := fid, n_size := sz, n_updated := now\<rparr>"
  have d': "d' = d\<lparr>names := tbl_upd ?key (uid, scope, fn) ?f (names d)\<rparr>" "tbl_get f_id fid (files d) \<noteq> None"
    using assms(2,3) by (auto simp: repoint_file_name_def resolve_lookup tbl_upd_def is_name_key split: if_splits)
  then show "only_names d d'" "tbl_get f_id fid (files d) \<noteq> None" by simp_all
  show "tbl_ok ?key (names d')" using assms(1) by (simp add: d'(1) tbl_ok_upd)
  show "lookup_names d' = (lookup_names d)((uid, scope, fn) \<mapsto> ?f n)"
    using assms(2) by (auto simp: d'(1) lookup_tbl tbl_get_upd fun_eq_iff)
  have "sum_list (map n_size (filter (\<lambda>n. n_user n = u) (tbl_upd ?key (uid, scope, fn) ?f xs))) =
      sum_list (map n_size (filter (\<lambda>n. n_user n = u) xs)) +
      (case tbl_get ?key (uid, scope, fn) xs of None \<Rightarrow> 0 | Some n \<Rightarrow> if u = uid then sz - n_size n else 0)"
    if "tbl_ok ?key xs" for xs
    using that
  proof (induction xs)
    case (Cons x xs)
    have "tbl_ok ?key xs" using Cons.prems by (simp add: tbl_ok_def)
    note IH = Cons.IH [OF this]
    show ?case
    proof (cases "?key x = (uid, scope, fn)")
      case True
      have "?key x \<notin> ?key ` set xs" using Cons.prems unfolding tbl_ok_def by simp
      then have "tbl_get ?key (uid, scope, fn) xs = None" unfolding True tbl_get_None_iff .
      with True IH show ?thesis by (auto simp: tbl_upd_def tbl_get_Cons)
    next
      case False
      with IH show ?thesis by (auto simp: tbl_upd_def tbl_get_Cons split: option.split)
    qed
  qed (simp add: tbl_upd_def tbl_get_Nil)
  from this [OF assms(1)] assms(2) show
    "count_user_storage_bytes u d' = count_user_storage_bytes u d + (if u = uid then sz - n_size n else 0)"
    by (simp add: count_user_storage_bytes_def d'(1) lookup_tbl)
qed

section \<open>The append counter\<close>

lemma append_count_find:
  "append_count uid scope fn fid sz now n d =
   (case find (\<lambda>k. lookup_names d (uid, scope, next_dedup_candidate fn k) = None) [n..<Suc MAX_DEDUP_ATTEMPTS] of
      None \<Rightarrow> Inr (None, d)
    | Some k \<Rightarrow> (case insert_file_name uid scope (next_dedup_candidate fn k) fid sz now d of
                   Inl e \<Rightarrow> Inl e | Inr (_, d') \<Rightarrow> Inr (Some (next_dedup_candidate fn k), d')))"
proof (induction uid scope fn fid sz now n d rule: append_count.induct)
  case (1 uid scope fn fid sz now n d)
  show ?case
  proof (cases "MAX_DEDUP_ATTEMPTS < n")
    case True
    then show ?thesis by (subst append_count.simps) simp
  next
    case nle: False
    then have u: "[n..<Suc MAX_DEDUP_ATTEMPTS] = n # [Suc n..<Suc MAX_DEDUP_ATTEMPTS]"
      by (intro upt_conv_Cons) simp
    show ?thesis
    proof (cases "lookup_names d (uid, scope, next_dedup_candidate fn n) = None")
      case True
      then have "insert_file_name uid scope (next_dedup_candidate fn n) fid sz now d \<noteq> Inr (False, d')" for d'
        using insert_name_False by blast
      then show ?thesis unfolding u using nle True
        by (subst append_count.simps) (auto simp del: upt_Suc split: sum.split bool.split)
    next
      case False
      then obtain y where taken: "lookup_names d (uid, scope, next_dedup_candidate fn n) = Some y" by blast
      then have i: "insert_file_name uid scope (next_dedup_candidate fn n) fid sz now d = Inr (False, d)"
        by (simp add: insert_file_name_def resolve_lookup)
      show ?thesis unfolding u using nle taken 1 [OF nle i] i
        by (subst append_count.simps) (simp del: upt_Suc)
    qed
  qed
qed

lemma append_count_Some:
  assumes "append_count uid scope fn fid sz now n d = Inr (Some c, d')"
  shows "insert_file_name uid scope c fid sz now d = Inr (True, d')" "\<exists>k\<ge>n. c = next_dedup_candidate fn k"
proof -
  let ?P = "\<lambda>k. lookup_names d (uid, scope, next_dedup_candidate fn k) = None"
  obtain k b where k: "find ?P [n..<Suc MAX_DEDUP_ATTEMPTS] = Some k" "c = next_dedup_candidate fn k"
    "insert_file_name uid scope c fid sz now d = Inr (b, d')"
    using assms unfolding append_count_find by (auto split: option.splits sum.splits)
  have f: "k \<in> set [n..<Suc MAX_DEDUP_ATTEMPTS]" "?P k" using find_SomeD [OF k(1)] by blast+
  then have "b" using insert_name_False [of uid scope c fid sz now d d'] k(2,3) by (cases b) simp_all
  then show "insert_file_name uid scope c fid sz now d = Inr (True, d')" using k(3) by simp
  show "\<exists>k\<ge>n. c = next_dedup_candidate fn k" using f(1) k(2) by auto
qed

lemma append_count_None:
  assumes "append_count uid scope fn fid sz now n d = Inr (None, d')"
  shows "d' = d \<and> (\<forall>k\<in>{n..MAX_DEDUP_ATTEMPTS}. lookup_names d (uid, scope, next_dedup_candidate fn k) \<noteq> None)"
proof -
  let ?P = "\<lambda>k. lookup_names d (uid, scope, next_dedup_candidate fn k) = None"
  have "find ?P [n..<Suc MAX_DEDUP_ATTEMPTS] = None \<and> d' = d"
    using assms unfolding append_count_find by (auto simp del: upt_Suc split: option.splits sum.splits)
  then show ?thesis unfolding find_None_iff by auto
qed

section \<open>Allocation\<close>

abbreviation names_unique :: "db \<Rightarrow> bool" where
  "names_unique d \<equiv> tbl_ok (\<lambda>n. (n_user n, n_scope n, n_name n)) (names d)"

definition same_blob :: "db \<Rightarrow> user_id \<times> string \<times> string \<Rightarrow> string \<Rightarrow> bool" where
  "same_blob d k fid = (case lookup_names d k of None \<Rightarrow> False | Some n \<Rightarrow> n_file n = fid)"

text \<open>What a successful allocation has done: one key is bound to the blob, nothing else moves.\<close>

definition bound :: "user_id \<Rightarrow> string \<Rightarrow> string \<Rightarrow> string \<Rightarrow> int \<Rightarrow> db \<Rightarrow> db \<Rightarrow> bool" where
  "bound uid scope saved fid added d d' \<longleftrightarrow> only_names d d' \<and> names_unique d' \<and>
     (\<exists>n. n_file n = fid \<and> lookup_names d' = (lookup_names d)((uid, scope, saved) \<mapsto> n)) \<and>
     tbl_get f_id fid (files d) \<noteq> None \<and>
     (\<forall>u. count_user_storage_bytes u d' = count_user_storage_bytes u d + (if u = uid then added else 0))"

lemma bound_insert:
  assumes "insert_file_name uid scope fn fid sz now d = Inr (True, d')" "names_unique d"
  shows "bound uid scope fn fid sz d d' \<and> lookup_names d (uid, scope, fn) = None"
proof -
  note t = insert_name_True [OF assms(1)]
  then obtain n where n: "n_file n = fid" "n_size n = sz" "n_user n = uid" "n_scope n = scope" "n_name n = fn"
    "names d' = names d @ [n]" "lookup_names d' = (lookup_names d)((uid, scope, fn) \<mapsto> n)" by blast
  have "names_unique d'" using assms(2) t(1) n(3-6) by (simp add: tbl_ok_snoc lookup_tbl)
  then show ?thesis using t n count_append [OF n(6)] by (auto simp: bound_def)
qed

lemma allocate_cases:
  assumes "names_unique d" "allocate_name id uid scope fn fid sz dd now d = Inr (v, d')"
  shows "(case v of
     Inl e \<Rightarrow> e = ''filename_exists'' \<and> d' = d \<and> lookup_names d (uid, scope, fn) \<noteq> None \<and>
       \<not> same_blob d (uid, scope, fn) fid \<and> (dd = ErrorOnExisting \<or> (dd = AppendCount \<and>
        (\<forall>k\<in>{1..MAX_DEDUP_ATTEMPTS}. lookup_names d (uid, scope, next_dedup_candidate fn k) \<noteq> None)))
   | Inr (saved, added) \<Rightarrow>
       (if same_blob d (uid, scope, fn) fid then saved = fn \<and> added = 0 \<and> d' = d
        else bound uid scope saved fid added d d' \<and>
          (case lookup_names d (uid, scope, fn) of
             None \<Rightarrow> saved = fn \<and> added = sz
           | Some n \<Rightarrow> (dd = Overwrite \<and> saved = fn \<and> added = sz - n_size n) \<or>
               (dd = AppendCount \<and> added = sz \<and> lookup_names d (uid, scope, saved) = None \<and>
                (\<exists>k\<ge>1. saved = next_dedup_candidate fn k)))))"
proof (cases "lookup_names d (uid, scope, fn)")
  case None
  then have sb: "\<not> same_blob d (uid, scope, fn) fid" by (simp add: same_blob_def)
  obtain b e where r: "insert_file_name uid scope fn fid sz now d = Inr (b, e)"
    using assms(2) None by (auto simp: allocate_name_def resolve_lookup Let_def split: sum.splits)
  have b
  proof (rule ccontr)
    assume "\<not> b"
    then have "insert_file_name uid scope fn fid sz now d = Inr (False, e)" using r by simp
    from insert_name_False [OF this] None show False by simp
  qed
  then have "v = Inr (fn, sz) \<and> insert_file_name uid scope fn fid sz now d = Inr (True, d')"
    using assms(2) None r by (simp add: allocate_name_def resolve_lookup)
  with bound_insert [OF _ assms(1)] None sb show ?thesis by auto
next
  case (Some n)
  then have a: "settle_name uid scope fn fid sz dd now (Some n) d = Inr (v, d')"
    using assms(2) by (simp add: allocate_name_def resolve_lookup)
  show ?thesis
  proof (cases "n_file n = fid")
    case True
    then show ?thesis using a Some by (auto simp: settle_name_def same_blob_def)
  next
    case False
    then have sb: "\<not> same_blob d (uid, scope, fn) fid" using Some by (simp add: same_blob_def)
    show ?thesis
    proof (cases dd)
      case AppendCount
      then consider c where "append_count uid scope fn fid sz now 1 d = Inr (Some c, d')" "v = Inr (c, sz)"
        | "append_count uid scope fn fid sz now 1 d = Inr (None, d')" "v = Inl ''filename_exists''"
        using a False by (auto simp: settle_name_def split: sum.splits option.splits)
      then show ?thesis
      proof cases
        case (1 c)
        then show ?thesis using append_count_Some [OF 1(1)] bound_insert [OF _ assms(1)] sb Some AppendCount by auto
      next
        case 2
        then show ?thesis using append_count_None [OF 2(1)] sb Some AppendCount by simp
      qed
    next
      case Overwrite
      then have r: "repoint_file_name uid scope fn fid sz now d = Inr d'" "v = Inr (fn, sz - n_size n)"
        using a False by (auto simp: settle_name_def split: sum.splits)
      note rp = repoint_name [OF assms(1) Some r(1)]
      have "\<exists>n. n_file n = fid \<and> lookup_names d' = (lookup_names d)((uid, scope, fn) \<mapsto> n)"
        using rp(2) by (intro exI [of _ "n\<lparr>n_file := fid, n_size := sz, n_updated := now\<rparr>"]) simp
      then have "bound uid scope fn fid (sz - n_size n) d d'"
        using rp by (simp add: bound_def)
      then show ?thesis using r(2) sb Some Overwrite by simp
    next
      case ErrorOnExisting
      then show ?thesis using a False sb Some by (auto simp: settle_name_def)
    qed
  qed
qed


definition demo_files :: db where
  "demo_files = empty_db\<lparr>users := [\<lparr>u_id = ''u'', u_level = ''tier1'', u_suspended = None, u_deleted = None, u_email = None, u_auth_kind = ''password'', u_secret = None,
       u_serviced_by = [], u_purged = None\<rparr>],
     files := [\<lparr>f_id = ''f1'', f_sha = ''x'', f_user = ''u'', f_session = None, f_task = None, f_size = 40,
                f_mime = None, f_orig = None, f_created = 0, f_expires = Some 9\<rparr>,
              \<lparr>f_id = ''f2'', f_sha = ''y'', f_user = ''u'', f_session = None, f_task = None, f_size = 30,
                f_mime = None, f_orig = None, f_created = 0, f_expires = Some 9\<rparr>],
     names := [\<lparr>n_user = ''u'', n_scope = ''persist'', n_name = ''a.txt'', n_file = ''f1'', n_size = 40,
                n_created = 1, n_updated = 1\<rparr>]\<rparr>"

lemma demo_files_ok [simp]: "db_ok demo_files"
  by (simp add: demo_files_def db_ok_def tbl_ok_def idem_unique_def)

lemma demo_append: "allocate_name id ''u'' ''persist'' ''a.txt'' ''f2'' 30 AppendCount 5 demo_files =
   Inr (Inr (''a_1.txt'', 30), demo_files\<lparr>names := names demo_files @
     [\<lparr>n_user = ''u'', n_scope = ''persist'', n_name = ''a_1.txt'', n_file = ''f2'', n_size = 30,
       n_created = 5, n_updated = 5\<rparr>]\<rparr>)"
proof -
  have "next_dedup_candidate ''a.txt'' 1 = ''a_1.txt''" by code_simp
  then have "append_count ''u'' ''persist'' ''a.txt'' ''f2'' 30 5 1 demo_files = Inr (Some ''a_1.txt'', demo_files\<lparr>names := names demo_files @
     [\<lparr>n_user = ''u'', n_scope = ''persist'', n_name = ''a_1.txt'', n_file = ''f2'', n_size = 30,
       n_created = 5, n_updated = 5\<rparr>]\<rparr>)"
    by (subst append_count.simps)
      (simp add: MAX_DEDUP_ATTEMPTS_def insert_file_name_def resolve_file_name_def is_name_def demo_files_def tbl_get_def)
  then show ?thesis
    by (simp add: allocate_name_def settle_name_def resolve_file_name_def is_name_def demo_files_def)
qed


text \<open>
  Property C21.  The numbered variants do not run out: a user with fewer names in the scope
  than attempts allowed always gets one, since the variants of a name are all different.
\<close>

theorem append_finds_room:
  assumes "db_ok d" "length (filter (\<lambda>n. n_user n = uid \<and> n_scope n = scope) (names d)) < MAX_DEDUP_ATTEMPTS"
    "tbl_get u_id uid (users d) \<noteq> None" "tbl_get f_id fid (files d) \<noteq> None"
  shows "\<exists>saved added d'. allocate_name id uid scope fn fid sz AppendCount now d = Inr (Inr (saved, added), d')"
proof -
  let ?in = "filter (\<lambda>n. n_user n = uid \<and> n_scope n = scope) (names d)"
  have ins: "insert_file_name uid scope f fid sz now d \<noteq> Inl e" for f e
    using assms(3,4) by (auto simp: insert_file_name_def)
  have no_err: "allocate_name id uid scope fn fid sz AppendCount now d \<noteq> Inl e" for e
  proof
    assume "allocate_name id uid scope fn fid sz AppendCount now d = Inl e"
    moreover have "append_count uid scope fn fid sz now 1 d \<noteq> Inl e" for e
      unfolding append_count_find using ins by (auto simp del: upt_Suc split: option.splits sum.splits)
    moreover have "insert_file_name uid scope fn fid sz now d = Inr (False, d') \<Longrightarrow> d' = d" for d'
      using insert_name_False by blast
    ultimately show False using ins
      by (auto simp: allocate_name_def settle_name_def resolve_lookup Let_def split: option.splits sum.splits bool.splits if_splits)
  qed
  have "\<exists>k\<in>{1..MAX_DEDUP_ATTEMPTS}. lookup_names d (uid, scope, next_dedup_candidate fn k) = None"
  proof (rule ccontr)
    assume "\<not> ?thesis"
    then have taken: "\<forall>k\<in>{1..MAX_DEDUP_ATTEMPTS}. \<exists>n\<in>set ?in. n_name n = next_dedup_candidate fn k"
      using lookup_key by fastforce
    have "next_dedup_candidate fn ` {1..MAX_DEDUP_ATTEMPTS} \<subseteq> n_name ` set ?in" using taken by force
    then have "card (next_dedup_candidate fn ` {1..MAX_DEDUP_ATTEMPTS}) \<le> card (n_name ` set ?in)"
      by (intro card_mono) simp_all
    also have "\<dots> \<le> length ?in" by (rule le_trans [OF card_image_le card_length]) simp
    finally have "card {1..MAX_DEDUP_ATTEMPTS} \<le> length ?in"
      by (simp add: card_image inj_on_def candidate_inject(1))
    then show False using assms(2) by simp
  qed
  then obtain k where k: "k \<in> {1..MAX_DEDUP_ATTEMPTS}" "lookup_names d (uid, scope, next_dedup_candidate fn k) = None"
    by blast
  obtain v d' where v: "allocate_name id uid scope fn fid sz AppendCount now d = Inr (v, d')"
    using no_err by (metis sum.exhaust surj_pair)
  show ?thesis
  proof (cases v)
    case (Inl e)
    have "\<forall>k\<in>{1..MAX_DEDUP_ATTEMPTS}. lookup_names d (uid, scope, next_dedup_candidate fn k) \<noteq> None"
      using allocate_cases [OF db_okD(6) [OF assms(1)] v] unfolding Inl by simp
    with k show ?thesis by blast
  next
    case (Inr a)
    then show ?thesis using v by (cases a) simp
  qed
qed

theorem append_finds_room_witness:
  "\<exists>saved added d'. allocate_name id ''u'' ''persist'' ''a.txt'' ''f2'' 30 AppendCount 5 demo_files = Inr (Inr (saved, added), d')"
  by (rule append_finds_room [OF demo_files_ok]) (simp_all add: demo_files_def MAX_DEDUP_ATTEMPTS_def tbl_get_def)

text \<open>
  Overwriting a name that another transaction deletes in between reports
  success although nothing is stored: the name it returns is not bound afterwards.
\<close>

theorem overwrite_racing_delete_lost:
  assumes "resolve_file_name uid scope fn d = Some n" "n_file n \<noteq> fid"
  shows "allocate_name (\<lambda>d. snd (delete_file_name uid scope fn d)) uid scope fn fid sz Overwrite now d =
      Inr (Inr (fn, sz - n_size n), snd (delete_file_name uid scope fn d)) \<and>
    resolve_file_name uid scope fn (snd (delete_file_name uid scope fn d)) = None"
proof -
  let ?d = "snd (delete_file_name uid scope fn d)"
  have gone: "resolve_file_name uid scope fn ?d = None"
    by (auto simp: delete_file_name_def delete_names_where_def resolve_file_name_def find_None_iff)
  have "map (\<lambda>n. if is_name uid scope fn n then n\<lparr>n_file := fid, n_size := sz, n_updated := now\<rparr> else n) (names ?d) = names ?d"
    by (rule map_idI) (auto simp: delete_file_name_def delete_names_where_def)
  then have "repoint_file_name uid scope fn fid sz now ?d = Inr ?d" using gone by (simp add: repoint_file_name_def)
  then show ?thesis using assms gone by (simp add: allocate_name_def settle_name_def)
qed

theorem overwrite_racing_delete_lost_witness:
  "\<exists>d'. allocate_name (\<lambda>d. snd (delete_file_name ''u'' ''persist'' ''a.txt'' d)) ''u'' ''persist'' ''a.txt'' ''f2'' 30 Overwrite 5
      demo_files = Inr (Inr (''a.txt'', -10), d') \<and> resolve_file_name ''u'' ''persist'' ''a.txt'' d' = None"
proof -
  have n: "resolve_file_name ''u'' ''persist'' ''a.txt'' demo_files = Some (hd (names demo_files))"
    "n_file (hd (names demo_files)) \<noteq> ''f2''" "n_size (hd (names demo_files)) = 40"
    by (simp_all add: demo_files_def resolve_file_name_def is_name_def)
  from overwrite_racing_delete_lost [OF n(1,2), of 30 5] n(3) show ?thesis by simp
qed

end
