(* ===== verification/Tokens.thy ===== *)
theory Tokens
  imports Principals
begin

text \<open>
  The credentials of \<open>bp_router/security/jwt.py\<close>: what the four issuing functions sign and
  what the verifiers accept.  PyJWT is not part of the repository: \<open>jwt_lib\<close> holds its
  \<open>encode\<close> and \<open>decode\<close>, and \<open>pyjwt_ok\<close> states the documented behaviour relied on.  The
  type \<open>'t\<close> is the type of signed tokens.
\<close>

section \<open>The library\<close>

type_synonym claims = "(string \<times> json) list"

datatype jwt_error = ExpiredSignature | InvalidToken string

text \<open>\<open>jw_decode token secret algorithm issuer required now\<close>.\<close>

record 't jwt_lib =
  jw_encode :: "claims \<Rightarrow> string \<Rightarrow> string \<Rightarrow> 't"
  jw_decode :: "'t \<Rightarrow> string \<Rightarrow> string \<Rightarrow> string \<Rightarrow> string list \<Rightarrow> time \<Rightarrow> jwt_error + claims"

text \<open>
  \<open>present\<close>: the issuer matches and the required claims are there.  \<open>current\<close>: in addition
  the token is issued, not expired, and carries no claim that \<open>decode\<close> would refuse.
\<close>

definition present :: "string \<Rightarrow> string list \<Rightarrow> claims \<Rightarrow> bool" where
  "present iss req c \<longleftrightarrow> map_of c ''iss'' = Some (JStr iss) \<and>
     list_all (\<lambda>k. map_of c k \<noteq> None \<and> map_of c k \<noteq> Some JNull) req"

definition current :: "time \<Rightarrow> claims \<Rightarrow> bool" where
  "current now c \<longleftrightarrow> (case map_of c ''exp'' of Some (JInt e) \<Rightarrow> now < of_int e | _ \<Rightarrow> False) \<and>
     (case map_of c ''iat'' of Some (JInt i) \<Rightarrow> of_int i \<le> now | _ \<Rightarrow> False) \<and>
     (case map_of c ''sub'' of Some (JStr s) \<Rightarrow> True | _ \<Rightarrow> False) \<and>
     (case map_of c ''jti'' of Some (JStr s) \<Rightarrow> True | _ \<Rightarrow> False) \<and>
     map_of c ''nbf'' = None \<and> map_of c ''aud'' = None"

definition not_expired :: "time \<Rightarrow> claims \<Rightarrow> bool" where
  "not_expired now c \<longleftrightarrow> (case map_of c ''exp'' of Some (JInt e) \<Rightarrow> now < of_int e | _ \<Rightarrow> True)"

text \<open>
  A token that verifies under a secret was signed with it, is not expired and has the claims
  asked for; a current token verifies and gives back its claims; a token carries its claims.
\<close>

definition pyjwt_ok :: "'t jwt_lib \<Rightarrow> bool" where
  "pyjwt_ok jw \<longleftrightarrow>
     (\<forall>tok s a iss req now c. jw_decode jw tok s a iss req now = Inr c \<longrightarrow>
        tok = jw_encode jw c s a \<and> present iss req c \<and> not_expired now c) \<and>
     (\<forall>c s a iss req now. present iss req c \<and> current now c \<longrightarrow>
        jw_decode jw (jw_encode jw c s a) s a iss req now = Inr c) \<and>
     (\<forall>c s a c' s' a'. jw_encode jw c s a = jw_encode jw c' s' a' \<longrightarrow> c = c')"

section \<open>Issuing\<close>

definition ISSUER :: string where
  "ISSUER = ''bp_router''"

record token_key =
  tk_secret :: string
  tk_version :: int
  tk_algorithm :: string

text \<open>\<open>TokenError\<close>, or an exception no caller handles.\<close>

datatype token_error = TokenError string | Uncaught string

definition issue_session_token ::
  "'t jwt_lib \<Rightarrow> token_key \<Rightarrow> user_id \<Rightarrow> level \<Rightarrow> int \<Rightarrow> time \<Rightarrow> string \<Rightarrow> token_error + ('t \<times> time \<times> string)" where
  "issue_session_token jw k uid lvl ttl_s iat jti =
     (if \<not> is_valid_level lvl then Inl (Uncaught ''ValueError'')
      else
        let exp = iat + of_int ttl_s;
            claims = [(''iss'', JStr ISSUER), (''sub'', JStr uid), (''iat'', JInt \<lfloor>iat\<rfloor>), (''exp'', JInt \<lfloor>exp\<rfloor>),
              (''kind'', JStr ''session''), (''level'', JStr lvl), (''kver'', JInt (tk_version k)), (''jti'', JStr jti)]
        in Inr (jw_encode jw claims (tk_secret k) (tk_algorithm k), exp, jti))"

definition issue_agent_token ::
  "'t jwt_lib \<Rightarrow> token_key \<Rightarrow> agent_id \<Rightarrow> string \<Rightarrow> int \<Rightarrow> time \<Rightarrow> string \<Rightarrow> 't \<times> time \<times> string" where
  "issue_agent_token jw k aid protocol_version ttl_s iat jti =
     (let exp = iat + of_int ttl_s;
          claims = [(''iss'', JStr ISSUER), (''sub'', JStr aid), (''iat'', JInt \<lfloor>iat\<rfloor>), (''exp'', JInt \<lfloor>exp\<rfloor>),
            (''kind'', JStr ''agent''), (''ver'', JStr protocol_version), (''kver'', JInt (tk_version k)),
            (''jti'', JStr jti)]
      in (jw_encode jw claims (tk_secret k) (tk_algorithm k), exp, jti))"

definition issue_file_upload_token ::
  "'t jwt_lib \<Rightarrow> token_key \<Rightarrow> user_id \<Rightarrow> string \<Rightarrow> int \<Rightarrow> string option \<Rightarrow> int \<Rightarrow> time \<Rightarrow> string \<Rightarrow>
   't \<times> time \<times> string" where
  "issue_file_upload_token jw k uid sha byte_size mime ttl_s iat jti =
     (let exp = iat + of_int ttl_s;
          claims = [(''iss'', JStr ISSUER), (''sub'', JStr uid), (''iat'', JInt \<lfloor>iat\<rfloor>), (''exp'', JInt \<lfloor>exp\<rfloor>),
            (''kind'', JStr ''file-upload''), (''sha'', JStr sha), (''sz'', JInt byte_size),
            (''mt'', case mime of None \<Rightarrow> JNull | Some m \<Rightarrow> JStr m), (''kver'', JInt (tk_version k)),
            (''jti'', JStr jti)]
      in (jw_encode jw claims (tk_secret k) (tk_algorithm k), exp, jti))"

definition issue_file_fetch_token ::
  "'t jwt_lib \<Rightarrow> token_key \<Rightarrow> string \<Rightarrow> user_id \<Rightarrow> int \<Rightarrow> time \<Rightarrow> string \<Rightarrow> 't \<times> time \<times> string" where
  "issue_file_fetch_token jw k fid uid ttl_s iat jti =
     (let exp = iat + of_int ttl_s;
          claims = [(''iss'', JStr ISSUER), (''sub'', JStr uid), (''iat'', JInt \<lfloor>iat\<rfloor>), (''exp'', JInt \<lfloor>exp\<rfloor>),
            (''kind'', JStr ''file-fetch''), (''fid'', JStr fid), (''kver'', JInt (tk_version k)), (''jti'', JStr jti)]
      in (jw_encode jw claims (tk_secret k) (tk_algorithm k), exp, jti))"

section \<open>Verifying\<close>

text \<open>Python's \<open>int(...)\<close>: white space around, a sign, digits with single underscores.\<close>

definition is_py_space :: "char \<Rightarrow> bool" where
  "is_py_space c = (code c \<in> {9, 10, 11, 12, 13, 28, 29, 30, 31, 32, 133, 160})"

definition strip :: "string \<Rightarrow> string" where
  "strip s = rev (dropWhile is_py_space (rev (dropWhile is_py_space s)))"

definition py_digits :: "string \<Rightarrow> int option" where
  "py_digits s = (if list_all all_digits (split_char CHR ''_'' s)
                  then Some (int (parse_nat (filter is_digit s))) else None)"

definition py_int :: "string \<Rightarrow> int option" where
  "py_int s =
     (let t = strip s
      in if starts_with ''-'' t then map_option uminus (py_digits (tl t))
         else if starts_with ''+'' t then py_digits (tl t)
         else py_digits t)"

text \<open>\<open>None\<close> stands for \<open>ValueError\<close> and \<open>TypeError\<close>.\<close>

definition json_int :: "json option \<Rightarrow> int option" where
  "json_int j = (case j of
     None \<Rightarrow> Some 0
   | Some (JInt i) \<Rightarrow> Some i
   | Some (JBool b) \<Rightarrow> Some (of_bool b)
   | Some (JStr s) \<Rightarrow> py_int s
   | _ \<Rightarrow> None)"

definition verify_token ::
  "'t jwt_lib \<Rightarrow> token_key \<Rightarrow> 't \<Rightarrow> string \<Rightarrow> string list option \<Rightarrow> time \<Rightarrow> token_error + claims" where
  "verify_token jw k tok expected_kind revoked_jti now =
     (case jw_decode jw tok (tk_secret k) (tk_algorithm k) ISSUER
             [''exp'', ''iat'', ''iss'', ''sub'', ''kind'', ''jti'', ''kver''] now of
        Inl ExpiredSignature \<Rightarrow> Inl (TokenError ''expired'')
      | Inl (InvalidToken m) \<Rightarrow> Inl (TokenError (''invalid: '' @ m))
      | Inr claims \<Rightarrow>
          if map_of claims ''kind'' \<noteq> Some (JStr expected_kind) then Inl (TokenError ''wrong_kind'')
          else case json_int (map_of claims ''kver'') of
                 None \<Rightarrow> Inl (TokenError ''invalid'')
               | Some kver \<Rightarrow>
                   if kver \<noteq> tk_version k then Inl (TokenError ''stale_key_version'')
                   else if (case revoked_jti of None \<Rightarrow> False
                            | Some js \<Rightarrow> list_ex (\<lambda>j. map_of claims ''jti'' = Some (JStr j)) js)
                   then Inl (TokenError ''revoked'')
                   else Inr claims)"

text \<open>
  \<open>claims[k]\<close> where a string is needed (PyJWT refuses a \<open>sub\<close> or \<open>jti\<close> that is none) and
  \<open>datetime.fromtimestamp(claims["exp"])\<close>.
\<close>

definition str_claim :: "claims \<Rightarrow> string \<Rightarrow> token_error + string" where
  "str_claim c k = (case map_of c k of Some (JStr s) \<Rightarrow> Inr s | None \<Rightarrow> Inl (Uncaught ''KeyError'')
                    | _ \<Rightarrow> Inl (Uncaught ''TypeError''))"

definition time_claim :: "claims \<Rightarrow> string \<Rightarrow> token_error + time" where
  "time_claim c k = (case map_of c k of Some (JInt i) \<Rightarrow> Inr (of_int i) | None \<Rightarrow> Inl (Uncaught ''KeyError'')
                     | _ \<Rightarrow> Inl (Uncaught ''TypeError''))"

record agent_principal =
  ap_agent :: agent_id
  ap_expires :: time
  ap_jti :: string
  ap_version :: string

record upload_grant =
  ug_user :: user_id
  ug_sha :: string
  ug_size :: int
  ug_mime :: "string option"
  ug_expires :: time
  ug_jti :: string

record fetch_grant =
  fg_file :: string
  fg_user :: user_id
  fg_expires :: time
  fg_jti :: string

text \<open>The fields every principal has.\<close>

definition subject_of :: "claims \<Rightarrow> token_error + string \<times> time \<times> string" where
  "subject_of c = bindE (str_claim c ''sub'') (\<lambda>sub. bindE (time_claim c ''exp'') (\<lambda>exp.
     bindE (str_claim c ''jti'') (\<lambda>jti. Inr (sub, exp, jti))))"

text \<open>\<open>str(claims.get("ver", "1"))\<close>, for the values a version can have.\<close>

definition version_of :: "json option \<Rightarrow> string" where
  "version_of j = (case j of None \<Rightarrow> ''1'' | Some (JStr s) \<Rightarrow> s | Some (JInt i) \<Rightarrow> show_int i
     | Some (JBool b) \<Rightarrow> if b then ''True'' else ''False'' | _ \<Rightarrow> ''None'')"

definition verify_agent_token ::
  "'t jwt_lib \<Rightarrow> token_key \<Rightarrow> 't \<Rightarrow> string list option \<Rightarrow> time \<Rightarrow> token_error + agent_principal" where
  "verify_agent_token jw k tok revoked_jti now =
     bindE (verify_token jw k tok ''agent'' revoked_jti now) (\<lambda>c.
       bindE (subject_of c) (\<lambda>(sub, exp, jti).
         Inr \<lparr>ap_agent = sub, ap_expires = exp, ap_jti = jti, ap_version = version_of (map_of c ''ver'')\<rparr>))"

definition verify_file_upload_token :: "'t jwt_lib \<Rightarrow> token_key \<Rightarrow> 't \<Rightarrow> time \<Rightarrow> token_error + upload_grant" where
  "verify_file_upload_token jw k tok now =
     bindE (verify_token jw k tok ''file-upload'' None now) (\<lambda>c.
       case (map_of c ''sha'', map_of c ''sz'') of
         (Some (JStr sha), Some (JInt sz)) \<Rightarrow>
           if sha = [] \<or> sz < 0 then Inl (TokenError ''invalid'')
           else (let mk = (\<lambda>mt. bindE (subject_of c) (\<lambda>(sub, exp, jti).
                   Inr \<lparr>ug_user = sub, ug_sha = sha, ug_size = sz, ug_mime = mt, ug_expires = exp, ug_jti = jti\<rparr>))
                 in case map_of c ''mt'' of
                      None \<Rightarrow> mk None | Some JNull \<Rightarrow> mk None | Some (JStr m) \<Rightarrow> mk (Some m)
                    | _ \<Rightarrow> Inl (TokenError ''invalid''))
       | _ \<Rightarrow> Inl (TokenError ''invalid''))"

definition verify_file_fetch_token :: "'t jwt_lib \<Rightarrow> token_key \<Rightarrow> 't \<Rightarrow> time \<Rightarrow> token_error + fetch_grant" where
  "verify_file_fetch_token jw k tok now =
     bindE (verify_token jw k tok ''file-fetch'' None now) (\<lambda>c.
       case map_of c ''fid'' of
         Some (JStr fid) \<Rightarrow>
           if fid = [] then Inl (TokenError ''invalid'')
           else bindE (subject_of c) (\<lambda>(sub, exp, jti).
                  Inr \<lparr>fg_file = fid, fg_user = sub, fg_expires = exp, fg_jti = jti\<rparr>)
       | _ \<Rightarrow> Inl (TokenError ''invalid''))"

section \<open>The header\<close>

definition extract_bearer :: "string \<Rightarrow> string option" where
  "extract_bearer h =
     (if \<not> starts_with ''bearer '' (map (\<lambda>c. if is_upper c then char_of (code c + 32) else c) h) then None
      else let t = strip (drop 7 h) in if t = [] then None else Some t)"

end
