(* ===== verification/Auth.thy ===== *)
theory Auth
  imports Tokens Levels
begin

text \<open>
  The FastAPI dependencies of \<open>bp_router/security/jwt.py\<close>: who an HTTP request speaks for.
  A result is \<open>Inl\<close> the status and detail of an \<open>HTTPException\<close>.  Redis is a parameter: none
  configured, or its \<open>EXISTS\<close>, which may raise (\<open>None\<close>).
\<close>

type_synonym http_error = "int \<times> string"

type_synonym redis_exists = "(string \<Rightarrow> bool option) option"

section \<open>Revocation\<close>

definition REVOKED_JTI_KEY_PREFIX :: string where
  "REVOKED_JTI_KEY_PREFIX = ''router:revoked_jti:''"

definition revoked_jti_key :: "string \<Rightarrow> string" where
  "revoked_jti_key jti = REVOKED_JTI_KEY_PREFIX @ jti"

definition is_jti_revoked :: "redis_exists \<Rightarrow> string \<Rightarrow> 'r router \<Rightarrow> bool \<times> 'r router" where
  "is_jti_revoked rd jti r =
     (case rd of
        None \<Rightarrow> (False, r)
      | Some exists \<Rightarrow>
          (case exists (revoked_jti_key jti) of
             Some out \<Rightarrow> (out, r)
           | None \<Rightarrow> (False, count_metric ''redis_health'' ''0'' (count_metric ''redis_fallback_total'' ''jwt'' r))))"

section \<open>Principals\<close>

record session_principal =
  sp_user :: user_id
  sp_level :: level
  sp_expires :: time
  sp_jti :: string

definition router_key :: "'r router \<Rightarrow> token_key" where
  "router_key r = \<lparr>tk_secret = jwt_secret (rsettings r), tk_version = jwt_key_version (rsettings r),
     tk_algorithm = jwt_algorithm (rsettings r)\<rparr>"

text \<open>A \<open>TokenError\<close> is answered with 401, any other exception with 500.\<close>

definition token_http :: "token_error \<Rightarrow> http_error" where
  "token_http e = (case e of TokenError _ \<Rightarrow> (401, ''invalid token'') | Uncaught x \<Rightarrow> (500, x))"

definition lift_token :: "token_error + 'a \<Rightarrow> http_error + 'a" where
  "lift_token m = (case m of Inl e \<Rightarrow> Inl (token_http e) | Inr a \<Rightarrow> Inr a)"

text \<open>The cached level stands for an account that was active when it was cached.\<close>

definition account_gone :: "user_id \<Rightarrow> time \<Rightarrow> 'r router \<Rightarrow> bool" where
  "account_gone uid now r =
     (peek_user_level_cached uid now r = None \<and>
      (case get_user_by_id uid (rdb r) of None \<Rightarrow> True | Some u \<Rightarrow> u_deleted u \<noteq> None))"

definition principal_of_claims :: "claims \<Rightarrow> string \<Rightarrow> time \<Rightarrow> 'r router \<Rightarrow> http_error + session_principal" where
  "principal_of_claims claims jti now r =
     (case map_of claims ''level'' of
        Some (JStr lvl) \<Rightarrow>
          if \<not> is_valid_level lvl then Inl (401, ''invalid token'')
          else bindE (lift_token (str_claim claims ''sub'')) (\<lambda>uid.
            if account_gone uid now r then Inl (401, ''invalid token'')
            else bindE (lift_token (time_claim claims ''exp'')) (\<lambda>exp.
              Inr \<lparr>sp_user = uid, sp_level = lvl, sp_expires = exp, sp_jti = jti\<rparr>))
      | _ \<Rightarrow> Inl (401, ''invalid token''))"

definition principal_from_request ::
  "string jwt_lib \<Rightarrow> redis_exists \<Rightarrow> string \<Rightarrow> time \<Rightarrow> 'r router \<Rightarrow> (http_error + session_principal) \<times> 'r router" where
  "principal_from_request jw rd header now r =
     (case extract_bearer header of
        None \<Rightarrow> (Inl (401, ''missing bearer token''), r)
      | Some tok \<Rightarrow>
          (case lift_token (bindE (verify_token jw (router_key r) tok ''session'' None now)
                  (\<lambda>c. bindE (str_claim c ''jti'') (\<lambda>jti. Inr (c, jti)))) of
             Inl e \<Rightarrow> (Inl e, r)
           | Inr (claims, jti) \<Rightarrow>
               (let (revoked, r1) = is_jti_revoked rd jti r
                in if revoked then (Inl (401, ''invalid token''), r1)
                   else (principal_of_claims claims jti now r1, r1))))"

section \<open>Gates\<close>

definition require_admin :: "session_principal \<Rightarrow> http_error + session_principal" where
  "require_admin p = (if sp_level p \<noteq> ''admin'' then Inl (403, ''admin only'') else Inr p)"

definition require_service :: "session_principal \<Rightarrow> http_error + session_principal" where
  "require_service p = (if sp_level p \<noteq> ''service'' then Inl (403, ''service only'') else Inr p)"

definition is_mcp_bridge :: "session_principal \<Rightarrow> bool" where
  "is_mcp_bridge p = (sp_level p = ''service'' \<and> sp_user p = MCP_BRIDGE_USER_ID)"

definition require_mcp_bridge :: "session_principal \<Rightarrow> http_error + session_principal" where
  "require_mcp_bridge p = (if \<not> is_mcp_bridge p then Inl (403, ''mcp bridge service only'') else Inr p)"

definition require_admin_or_mcp_bridge :: "session_principal \<Rightarrow> http_error + session_principal" where
  "require_admin_or_mcp_bridge p =
     (if sp_level p \<noteq> ''admin'' \<and> \<not> is_mcp_bridge p then Inl (403, ''admin or mcp bridge only'') else Inr p)"

definition require_tier :: "nat \<Rightarrow> session_principal \<Rightarrow> http_error + session_principal" where
  "require_tier max_tier p =
     (if \<not> level_satisfies_tier (Some (sp_level p)) (int max_tier)
      then Inl (403, ''tier'' @ show_nat max_tier @ '' or stricter required'') else Inr p)"

section \<open>Reading a file\<close>

record read_access =
  fra_user :: user_id
  fra_key_file :: "string option"

definition file_read_access ::
  "string jwt_lib \<Rightarrow> redis_exists \<Rightarrow> string \<Rightarrow> time \<Rightarrow> 'r router \<Rightarrow> (http_error + read_access) \<times> 'r router" where
  "file_read_access jw rd header now r =
     (case extract_bearer header of
        None \<Rightarrow> (Inl (401, ''missing bearer token''), r)
      | Some tok \<Rightarrow>
          (case verify_file_fetch_token jw (router_key r) tok now of
             Inr g \<Rightarrow> (Inr \<lparr>fra_user = fg_user g, fra_key_file = Some (fg_file g)\<rparr>, r)
           | Inl (Uncaught e) \<Rightarrow> (Inl (500, e), r)
           | Inl (TokenError _) \<Rightarrow>
               (case principal_from_request jw rd header now r of
                  (Inl e, r1) \<Rightarrow> (Inl e, r1)
                | (Inr p, r1) \<Rightarrow> (Inr \<lparr>fra_user = sp_user p, fra_key_file = None\<rparr>, r1))))"

section \<open>Properties\<close>

definition demo_jwt :: "(claims \<times> string \<times> string) jwt_lib" where
  "demo_jwt = \<lparr>jw_encode = (\<lambda>c s a. (c, s, a)),
     jw_decode = (\<lambda>(c, s', a') s a iss req now.
       if s = s' \<and> a = a' \<and> present iss req c \<and> current now c then Inr c else Inl (InvalidToken ''x''))\<rparr>"

lemma demo_jwt_ok [simp]: "pyjwt_ok demo_jwt"
  by (auto simp: pyjwt_ok_def demo_jwt_def current_def not_expired_def split: if_splits option.split json.split)

lemma pyjwt_okD:
  assumes "pyjwt_ok jw"
  shows "jw_decode jw tok s a iss req now = Inr c \<Longrightarrow> tok = jw_encode jw c s a"
    "jw_decode jw tok s a iss req now = Inr c \<Longrightarrow> present iss req c"
    "jw_decode jw tok s a iss req now = Inr c \<Longrightarrow> not_expired now c"
    "present iss req c \<Longrightarrow> current now c \<Longrightarrow> jw_decode jw (jw_encode jw c s a) s a iss req now = Inr c"
    "jw_encode jw c s a = jw_encode jw c' s' a' \<Longrightarrow> c = c'"
  using assms unfolding pyjwt_ok_def by blast+

lemma verify_tokenD:
  assumes "verify_token jw k tok kind rv now = Inr c"
  shows "jw_decode jw tok (tk_secret k) (tk_algorithm k) ISSUER
      [''exp'', ''iat'', ''iss'', ''sub'', ''kind'', ''jti'', ''kver''] now = Inr c"
    "map_of c ''kind'' = Some (JStr kind)" "json_int (map_of c ''kver'') = Some (tk_version k)"
  using assms by (auto simp: verify_token_def split: sum.splits jwt_error.splits if_splits option.splits)

text \<open>
  Property C11.  A key says what it was issued for: until it expires, the token of a file fetch
  or a file upload verifies to exactly the file, user, hash and size it was issued with.
\<close>

theorem issued_keys_verify:
  assumes "pyjwt_ok jw" "iat \<le> now" "now < of_int \<lfloor>iat + of_int ttl\<rfloor>" "fid \<noteq> []" "sha \<noteq> []" "0 \<le> sz"
  shows "verify_file_fetch_token jw k (fst (issue_file_fetch_token jw k fid uid ttl iat jti)) now =
      Inr \<lparr>fg_file = fid, fg_user = uid, fg_expires = of_int \<lfloor>iat + of_int ttl\<rfloor>, fg_jti = jti\<rparr> \<and>
    verify_file_upload_token jw k (fst (issue_file_upload_token jw k uid sha sz mime ttl iat jti)) now =
      Inr \<lparr>ug_user = uid, ug_sha = sha, ug_size = sz, ug_mime = mime,
           ug_expires = of_int \<lfloor>iat + of_int ttl\<rfloor>, ug_jti = jti\<rparr>"
proof -
  note enc = pyjwt_okD(4) [OF assms(1)]
  have i: "of_int \<lfloor>iat\<rfloor> \<le> now" using assms(2) of_int_floor_le order_trans by blast
  show ?thesis
    using assms(3-6) i
    by (cases mime) (simp_all add: issue_file_fetch_token_def issue_file_upload_token_def verify_file_fetch_token_def
      verify_file_upload_token_def verify_token_def Let_def enc present_def current_def json_int_def
      subject_of_def str_claim_def time_claim_def)
qed

theorem issued_keys_verify_witness:
  "verify_file_fetch_token demo_jwt \<lparr>tk_secret = ''k'', tk_version = 1, tk_algorithm = ''HS256''\<rparr>
     (fst (issue_file_fetch_token demo_jwt \<lparr>tk_secret = ''k'', tk_version = 1, tk_algorithm = ''HS256''\<rparr> ''f'' ''u'' 60 (5/2) ''j'')) 9 =
   Inr \<lparr>fg_file = ''f'', fg_user = ''u'', fg_expires = 62, fg_jti = ''j''\<rparr>"
  using issued_keys_verify [OF demo_jwt_ok, of "5/2" 9 60 "''f''" "''s''" 1
      "\<lparr>tk_secret = ''k'', tk_version = 1, tk_algorithm = ''HS256''\<rparr>" "''u''" "''j''" None]
  by (simp add: floor_eq_iff)

text \<open>
  Credentials are not interchangeable: a token some verifier accepts as one kind
  under one key version is accepted as no other kind and under no other version, by any
  router at any time, and always with the same claims.
\<close>

theorem token_kind_unique:
  assumes "pyjwt_ok jw" "verify_token jw k tok kind rv now = Inr c" "verify_token jw k' tok kind' rv' now' = Inr c'"
  shows "kind = kind' \<and> tk_version k = tk_version k' \<and> c = c'"
proof -
  note v = verify_tokenD [OF assms(2)] and v' = verify_tokenD [OF assms(3)]
  have "c = c'"
    using pyjwt_okD(1) [OF assms(1) v(1)] pyjwt_okD(1) [OF assms(1) v'(1)] pyjwt_okD(5) [OF assms(1)] by metis
  with v v' show ?thesis by simp
qed

theorem token_kind_unique_witness:
  "\<exists>tok c. verify_token demo_jwt \<lparr>tk_secret = ''k'', tk_version = 1, tk_algorithm = ''HS256''\<rparr> tok ''agent'' None 9 = Inr c \<and>
     verify_token demo_jwt \<lparr>tk_secret = ''k'', tk_version = 1, tk_algorithm = ''HS256''\<rparr> tok ''session'' None 10 \<noteq> Inr c"
proof -
  let ?k = "\<lparr>tk_secret = ''k'', tk_version = 1, tk_algorithm = ''HS256''\<rparr>"
  let ?tok = "fst (issue_agent_token demo_jwt ?k ''a'' ''1'' 60 3 ''j'')"
  obtain c where c: "verify_token demo_jwt ?k ?tok ''agent'' None 9 = Inr c"
    by (simp add: issue_agent_token_def verify_token_def demo_jwt_def Let_def present_def current_def json_int_def ISSUER_def)
  then have "verify_token demo_jwt ?k ?tok ''session'' None 10 \<noteq> Inr c"
    using token_kind_unique [OF demo_jwt_ok c, of ?k "''session''" None 10 c] by auto
  with c show ?thesis by blast
qed

end
