(* ===== verification/FileOps.thy ===== *)
theory FileOps
  imports FileFacts Auth Dispatch
begin

text \<open>
  The file frames of \<open>bp_router/dispatch.py\<close>: upload credentials, store, fetch and the typed
  management commands, all under the authority of the task the sender executes, and the
  storage quota of \<open>bp_router/file_store.py\<close>.
\<close>

section \<open>Frames\<close>

datatype file_command =
    ListFile bool "string option" "time option" bool   \<comment> \<open>persistent, query, stored after, detail\<close>
  | StatFile string
  | DeleteFile string
  | CopyFile string string bool                        \<comment> \<open>source, destination, move\<close>
  | WriteFile string string bool dedup                 \<comment> \<open>name, text, persistent\<close>

record store_frame =
  sf_task :: task_id
  sf_sha :: string
  sf_name :: "string option"
  sf_persistent :: bool
  sf_dedup :: dedup

record upload_frame =
  uf_task :: task_id
  uf_sha :: string
  uf_size :: int
  uf_mime :: "string option"

text \<open>
  What a handler finds around it: PyJWT, SHA-256, the clock, a fresh id, what others commit
  between its checks and its transaction (\<open>fr_env\<close>), between the two statements of an
  allocation (\<open>fr_race\<close>) and while it waits for room in the outbox (\<open>fr_room\<close>).
\<close>

record 'r file_run =
  fr_jwt :: "string jwt_lib"
  fr_sha :: "string \<Rightarrow> string"
  fr_deps :: "'r deps"
  fr_now :: time
  fr_id :: string
  fr_env :: "'r router \<Rightarrow> 'r router"
  fr_race :: "db \<Rightarrow> db"
  fr_room :: "'r router \<Rightarrow> 'r router"

text \<open>The length of \<open>text.encode("utf-8")\<close>; a character here is a code point below 256.\<close>

definition utf8_length :: "string \<Rightarrow> int" where
  "utf8_length s = sum_list (map (\<lambda>c. if code c < 128 then 1 else 2) s)"

section \<open>The quota\<close>

definition storage_ceiling :: "level option \<Rightarrow> 'r router \<Rightarrow> int option" where
  "storage_ceiling lvl r = file_storage_quota_bytes (rsettings r) (py_or lvl '''')"

definition quota_ok :: "user_id \<Rightarrow> int \<Rightarrow> time \<Rightarrow> 'r router \<Rightarrow> bool \<times> 'r router" where
  "quota_ok uid added now r =
     (if added \<le> 0 then (True, r)
      else let (lvl, r1) = session_level uid now r
           in (case storage_ceiling lvl r1 of
                 None \<Rightarrow> True
               | Some q \<Rightarrow> count_user_storage_bytes uid (rdb r1) + added \<le> q, r1))"

text \<open>What binding a name to a blob can add at most.\<close>

definition worst_add :: "user_id \<Rightarrow> string \<Rightarrow> string \<Rightarrow> string \<Rightarrow> int \<Rightarrow> db \<Rightarrow> int" where
  "worst_add uid scope fn fid sz d = (if same_blob d (uid, scope, fn) fid then 0 else sz)"

section \<open>Binding a name in a transaction\<close>

definition show_dedup :: "dedup \<Rightarrow> string" where
  "show_dedup dd = (case dd of AppendCount \<Rightarrow> ''append_count'' | Overwrite \<Rightarrow> ''overwrite'' | ErrorOnExisting \<Rightarrow> ''error'')"

definition file_audit ::
  "'r file_run \<Rightarrow> string \<Rightarrow> string \<Rightarrow> string \<Rightarrow> string \<Rightarrow> (string \<times> json) list \<Rightarrow> db \<Rightarrow> db" where
  "file_audit run actor_kind actor event target payload d =
     append_audit_event (dep_digest (fr_deps run)) actor_kind (Some actor) event (Some ''file'') (Some target)
       (Some payload) (fr_now run) d"

text \<open>
  \<open>after saved\<close> is what the transaction does once the name is allocated.  \<open>Inl\<close> is an
  exception; the error text of the allocation and the saved name are the other two outcomes.
\<close>

definition bind_in_tx ::
  "'r file_run \<Rightarrow> user_id \<Rightarrow> string \<Rightarrow> string \<Rightarrow> string \<Rightarrow> int \<Rightarrow> dedup \<Rightarrow> (string \<Rightarrow> db \<Rightarrow> db) \<Rightarrow> 'r router \<Rightarrow>
   (string + (string + string)) \<times> 'r router" where
  "bind_in_tx run uid scope fn fid sz dd after r =
     (case allocate_name (fr_race run) uid scope fn fid sz dd (fr_now run) (rdb r) of
        Inl e \<Rightarrow> (Inl ''ForeignKeyViolationError'', r\<lparr>rdb := fr_race run (rdb r)\<rparr>)
      | Inr (Inl err, d) \<Rightarrow> (Inr (Inl err), r\<lparr>rdb := d\<rparr>)
      | Inr (Inr (saved, _), d) \<Rightarrow> (Inr (Inr saved), r\<lparr>rdb := after saved d\<rparr>))"

definition saved_result :: "bool \<Rightarrow> string + (string + string) \<Rightarrow> string + file_result" where
  "saved_result persistent x = (case x of
     Inl e \<Rightarrow> Inl e
   | Inr (Inl err) \<Rightarrow> Inr (FileError err)
   | Inr (Inr saved) \<Rightarrow> Inr (SavedName (display_name persistent saved)))"

section \<open>Store and fetch\<close>

text \<open>What a handler answers: \<open>Inl\<close> when it raises, and then nothing is sent.\<close>

definition file_store :: "'r file_run \<Rightarrow> agent_id \<Rightarrow> store_frame \<Rightarrow> 'r router \<Rightarrow> (string + file_result) \<times> 'r router" where
  "file_store run agent f r =
     (case derive_task_file_scope (sf_task f) agent (rdb r) of
        None \<Rightarrow> (Inr (FileError ''denied''), r)
      | Some (uid, sid) \<Rightarrow>
          (case get_file_by_sha256 uid (sf_sha f) (rdb r) of
             None \<Rightarrow> (Inr (FileError ''not_found''), r)
           | Some blob \<Rightarrow>
               let fn = py_or (sf_name f) (py_or (f_orig blob) (f_id blob));
                   scope = scope_for (sf_persistent f) sid
               in if \<not> valid_bare_filename fn then (Inr (FileError ''invalid_filename''), r)
                  else let (ok, r1) = quota_ok uid (worst_add uid scope fn (f_id blob) (f_size blob) (rdb r))
                                        (fr_now run) r
                       in if \<not> ok then (Inr (FileError ''quota_exceeded''), r1)
                          else let (x, r2) = bind_in_tx run uid scope fn (f_id blob) (f_size blob) (sf_dedup f)
                                 (\<lambda>saved. file_audit run ''agent'' agent ''file.store'' (scope @ ''/'' @ saved)
                                    [(''byte_size'', JInt (f_size blob)), (''dedup'', JStr (show_dedup (sf_dedup f)))])
                                 (fr_env run r1)
                               in (saved_result (sf_persistent f) x, r2)))"

definition file_url :: "string \<Rightarrow> string" where
  "file_url fid = ''/v1/files/'' @ fid"

definition file_fetch :: "'r file_run \<Rightarrow> agent_id \<Rightarrow> task_id \<Rightarrow> string \<Rightarrow> 'r router \<Rightarrow> file_result" where
  "file_fetch run agent tid name r =
     (case split_stash_name name of
        None \<Rightarrow> FileError ''invalid_filename''
      | Some (persistent, bare) \<Rightarrow>
          (case derive_task_file_scope tid agent (rdb r) of
             None \<Rightarrow> FileError ''denied''
           | Some (uid, sid) \<Rightarrow>
               (case resolve_file_name uid (scope_for persistent sid) bare (rdb r) of
                  None \<Rightarrow> FileError ''not_found''
                | Some row \<Rightarrow>
                    let (token, exp, jti) = issue_file_fetch_token (fr_jwt run) (router_key r) (n_file row) uid
                          (file_fetch_token_ttl_s (rsettings r)) (fr_now run) (fr_id run)
                    in FetchGrant (file_url (n_file row)) token exp)))"

section \<open>The commands\<close>

definition file_list ::
  "user_id \<Rightarrow> session_id \<Rightarrow> bool \<Rightarrow> string option \<Rightarrow> time option \<Rightarrow> bool \<Rightarrow> db \<Rightarrow> file_result" where
  "file_list uid sid persistent query stored_after detail d =
     (let scope = scope_for persistent sid
      in if detail
         then EntryList (map (\<lambda>e. e\<lparr>fe_name := display_name persistent (fe_name e)\<rparr>)
                (list_file_entries uid scope query stored_after d))
         else NameList (map (\<lambda>n. display_name persistent (n_name n)) (list_file_names uid scope query stored_after d)))"

definition file_stat :: "user_id \<Rightarrow> session_id \<Rightarrow> string \<Rightarrow> db \<Rightarrow> file_result" where
  "file_stat uid sid name d =
     (case split_stash_name name of
        None \<Rightarrow> FileError ''invalid_filename''
      | Some (persistent, bare) \<Rightarrow>
          (case stat_file_name uid (scope_for persistent sid) bare d of
             None \<Rightarrow> FileError ''not_found''
           | Some e \<Rightarrow> StatOf (e\<lparr>fe_name := display_name persistent (fe_name e)\<rparr>)))"

definition file_delete ::
  "'r file_run \<Rightarrow> agent_id \<Rightarrow> user_id \<Rightarrow> session_id \<Rightarrow> string \<Rightarrow> db \<Rightarrow> file_result \<times> db" where
  "file_delete run agent uid sid name d =
     (let persistent = starts_with PERSIST_PREFIX name;
          bare = (if persistent then drop (length PERSIST_PREFIX) name else name);
          scope = scope_for persistent sid
      in if bare = [] \<or> CHR ''/'' \<in> set bare then (FileError ''invalid_filename'', d)
         else let (deleted, d1) = (if CHR ''*'' \<in> set bare then delete_file_names_glob uid scope bare d
                                   else delete_file_name uid scope bare d)
              in (DeletedCount deleted,
                  file_audit run ''agent'' agent ''file.delete'' (scope @ ''/'' @ bare)
                    [(''deleted_count'', JInt (int deleted))] d1))"

definition file_copy ::
  "'r file_run \<Rightarrow> agent_id \<Rightarrow> user_id \<Rightarrow> session_id \<Rightarrow> string \<Rightarrow> string \<Rightarrow> bool \<Rightarrow> 'r router \<Rightarrow>
   (string + file_result) \<times> 'r router" where
  "file_copy run agent uid sid src dst delete_original r =
     (case (split_stash_name src, split_stash_name dst) of
        (Some (src_persist, src_name), Some (dst_persist, dst_name)) \<Rightarrow>
          let src_scope = scope_for src_persist sid; dst_scope = scope_for dst_persist sid
          in (case resolve_file_name uid src_scope src_name (rdb r) of
                None \<Rightarrow> (Inr (FileError ''not_found''), r)
              | Some row \<Rightarrow>
                  if src_scope = dst_scope \<and> src_name = dst_name
                  then (Inr (SavedName (display_name dst_persist dst_name)), r)
                  else
                    let (ok, r1) = (if delete_original then (True, r)
                          else quota_ok uid (worst_add uid dst_scope dst_name (n_file row) (n_size row) (rdb r))
                                 (fr_now run) r)
                    in if \<not> ok then (Inr (FileError ''quota_exceeded''), r1)
                       else let (x, r2) = bind_in_tx run uid dst_scope dst_name (n_file row) (n_size row) AppendCount
                              (\<lambda>saved d. file_audit run ''agent'' agent ''file.copy'' (dst_scope @ ''/'' @ saved)
                                 [(''src'', JStr src), (''move'', JBool delete_original)]
                                 (if delete_original then snd (delete_file_name uid src_scope src_name d) else d))
                              (fr_env run r1)
                            in (saved_result dst_persist x, r2))
      | _ \<Rightarrow> (Inr (FileError ''invalid_filename''), r))"

text \<open>
  An inline write registers the blob in the same transaction; the bytes are put to the store
  first, and stay there when the transaction fails.
\<close>

definition TEXT_MIME :: string where
  "TEXT_MIME = ''text/plain; charset=utf-8''"

definition file_write ::
  "'r file_run \<Rightarrow> agent_id \<Rightarrow> task_id \<Rightarrow> user_id \<Rightarrow> session_id \<Rightarrow> string \<Rightarrow> string \<Rightarrow> bool \<Rightarrow> dedup \<Rightarrow> 'r router \<Rightarrow>
   (string + file_result) \<times> 'r router" where
  "file_write run agent tid uid sid fn text persistent dd r =
     (let size = utf8_length text; sha = fr_sha run text; scope = scope_for persistent sid
      in if \<not> valid_bare_filename fn then (Inr (FileError ''invalid_filename''), r)
         else if max_upload_bytes (rsettings r) < size then (Inr (FileError ''too_large''), r)
         else
           let blob = get_file_by_sha256 uid sha (rdb r);
               idem = (case blob of None \<Rightarrow> False | Some b \<Rightarrow> same_blob (rdb r) (uid, scope, fn) (f_id b));
               (ok, r1) = quota_ok uid (if idem then 0 else size) (fr_now run) r
           in if \<not> ok then (Inr (FileError ''quota_exceeded''), r1)
              else
                let r2 = fr_env run r1;
                    (inserted, r3) = (case blob of
                       Some b \<Rightarrow> (Inr (b, rdb r2), r2)
                     | None \<Rightarrow> (insert_file uid sha (if persistent then None else Some sid) (Some tid) size
                                  (Some TEXT_MIME) (Some fn)
                                  (Some (fr_now run + file_default_ttl_s (rsettings r2))) (fr_id run) (fr_now run) (rdb r2),
                                r2\<lparr>blobs := List.insert sha (blobs r2)\<rparr>))
                in (case inserted of
                      Inl e \<Rightarrow> (Inl ''ForeignKeyViolationError'', r3)
                    | Inr (b, d) \<Rightarrow>
                        (case bind_in_tx run uid scope fn (f_id b) size dd
                           (\<lambda>saved. file_audit run ''agent'' agent ''file.write'' (scope @ ''/'' @ saved)
                              [(''byte_size'', JInt size), (''dedup'', JStr (show_dedup dd))])
                           (r3\<lparr>rdb := d\<rparr>) of
                           (Inl e, _) \<Rightarrow> (Inl e, r3\<lparr>rdb := fr_race run (rdb r3)\<rparr>)
                         | (Inr x, r4) \<Rightarrow> (saved_result persistent (Inr x), r4))))"

definition file_manage ::
  "'r file_run \<Rightarrow> agent_id \<Rightarrow> task_id \<Rightarrow> file_command \<Rightarrow> 'r router \<Rightarrow> (string + file_result) \<times> 'r router" where
  "file_manage run agent tid cmd r =
     (case derive_task_file_scope tid agent (rdb r) of
        None \<Rightarrow> (Inr (FileError ''denied''), r)
      | Some (uid, sid) \<Rightarrow>
          (case cmd of
             ListFile persistent query stored_after detail \<Rightarrow>
               (Inr (file_list uid sid persistent query stored_after detail (rdb r)), r)
           | StatFile name \<Rightarrow> (Inr (file_stat uid sid name (rdb r)), r)
           | DeleteFile name \<Rightarrow> (let (x, d) = file_delete run agent uid sid name (rdb r) in (Inr x, r\<lparr>rdb := d\<rparr>))
           | CopyFile src dst delete_original \<Rightarrow> file_copy run agent uid sid src dst delete_original r
           | WriteFile fn text persistent dd \<Rightarrow> file_write run agent tid uid sid fn text persistent dd r))"

section \<open>The handlers\<close>

definition file_reply ::
  "'r file_run \<Rightarrow> nat \<Rightarrow> corr_id \<Rightarrow> (string + file_result) \<times> 'r router \<Rightarrow> (admit_outcome + unit) \<times> 'r router" where
  "file_reply run s cid x = (case x of
     (Inl e, r) \<Rightarrow> (Inl (Crashed e), r)
   | (Inr v, r) \<Rightarrow> outbox_put (fr_room run) s (FileResultF cid v) r)"

definition handle_file_store :: "'r file_run \<Rightarrow> nat \<Rightarrow> corr_id \<Rightarrow> store_frame \<Rightarrow> ('r, unit) step" where
  "handle_file_store run s cid f r = file_reply run s cid (file_store run (so_agent (the_socket r s)) f r)"

definition handle_file_fetch :: "'r file_run \<Rightarrow> nat \<Rightarrow> corr_id \<Rightarrow> task_id \<Rightarrow> string \<Rightarrow> ('r, unit) step" where
  "handle_file_fetch run s cid tid name r =
     file_reply run s cid (Inr (file_fetch run (so_agent (the_socket r s)) tid name r), r)"

definition handle_file_manage :: "'r file_run \<Rightarrow> nat \<Rightarrow> corr_id \<Rightarrow> task_id \<Rightarrow> file_command \<Rightarrow> ('r, unit) step" where
  "handle_file_manage run s cid tid cmd r =
     file_reply run s cid (file_manage run (so_agent (the_socket r s)) tid cmd r)"

definition BUCKET_FILE_UPLOAD_REQUEST :: string where
  "BUCKET_FILE_UPLOAD_REQUEST = ''file_upload_request''"

definition handle_file_upload_request :: "'r file_run \<Rightarrow> nat \<Rightarrow> corr_id \<Rightarrow> upload_frame \<Rightarrow> ('r, unit) step" where
  "handle_file_upload_request run s cid f r =
     (let agent = so_agent (the_socket r s);
          st = rsettings r;
          (decision, q) = try_consume (dep_redis (fr_deps run)) (BUCKET_FILE_UPLOAD_REQUEST @ '':'' @ agent)
             (file_upload_request_rate_per_s st) (file_upload_request_burst st) 1 (fr_now run) (login_quota r);
          r1 = r\<lparr>login_quota := q\<rparr>;
          grant = (\<lambda>x. outbox_put (fr_room run) s (FileUploadGrantF cid x) r1)
      in if \<not> rl_allowed decision then grant (Inl ''rate_limited'')
         else if uf_size f \<le> 0 \<or> max_upload_bytes st < uf_size f then grant (Inl ''denied'')
         else case find_task (rdb r1) (uf_task f) of
                None \<Rightarrow> grant (Inl ''denied'')
              | Some t \<Rightarrow>
                  if t_active t \<noteq> agent then grant (Inl ''denied'')
                  else let (token, exp, jti) = issue_file_upload_token (fr_jwt run) (router_key r1) (t_user t)
                             (uf_sha f) (uf_size f) (uf_mime f) (file_upload_token_ttl_s st) (fr_now run) (fr_id run)
                       in grant (Inr (''/v1/files/upload'', token, exp)))"

end
