(* ===== verification/FileProps.thy ===== *)
theory FileProps
  imports FileOps
begin

text \<open>
  What the file frames promise: every change is made under the authority of the task the
  sender executes, storage stays within the quota, a move keeps the file; and where they
  fall short under interleaving and with star names.
\<close>

section \<open>A request served without interleaving\<close>

definition alone :: "'r file_run \<Rightarrow> bool" where
  "alone run \<longleftrightarrow> fr_env run = id \<and> fr_race run = id \<and> fr_room run = id"

lemma aloneD: "alone run \<Longrightarrow> fr_env run = id" "alone run \<Longrightarrow> fr_race run = id" "alone run \<Longrightarrow> fr_room run = id"
  by (simp_all add: alone_def)

datatype file_request = StoreReq store_frame | FetchReq task_id string | ManageReq task_id file_command

fun request_task :: "file_request \<Rightarrow> task_id" where
  "request_task (StoreReq f) = sf_task f"
| "request_task (FetchReq tid name) = tid"
| "request_task (ManageReq tid cmd) = tid"

fun serve_file :: "'r file_run \<Rightarrow> agent_id \<Rightarrow> file_request \<Rightarrow> 'r router \<Rightarrow> (string + file_result) \<times> 'r router" where
  "serve_file run a (StoreReq f) r = file_store run a f r"
| "serve_file run a (FetchReq tid name) r = (Inr (file_fetch run a tid name r), r)"
| "serve_file run a (ManageReq tid cmd) r = file_manage run a tid cmd r"

fun handle_file_frame :: "'r file_run \<Rightarrow> nat \<Rightarrow> corr_id \<Rightarrow> file_request \<Rightarrow> ('r, unit) step" where
  "handle_file_frame run s cid (StoreReq f) r = handle_file_store run s cid f r"
| "handle_file_frame run s cid (FetchReq tid name) r = handle_file_fetch run s cid tid name r"
| "handle_file_frame run s cid (ManageReq tid cmd) r = handle_file_manage run s cid tid cmd r"

lemma rdb_outbox_put [simp]: "rdb (snd (outbox_put id s f r)) = rdb r"
  by (simp add: outbox_put_def put_frame_def upd_chan_def Let_def)

lemma rdb_file_reply: "alone run \<Longrightarrow> rdb (snd (file_reply run s cid x)) = rdb (snd x)"
  by (cases x; cases "fst x") (auto simp: file_reply_def aloneD)

lemma rdb_handle_file_frame:
  "alone run \<Longrightarrow> rdb (snd (handle_file_frame run s cid q r)) = rdb (snd (serve_file run (so_agent (the_socket r s)) q r))"
  by (cases q) (simp_all add: handle_file_store_def handle_file_fetch_def handle_file_manage_def rdb_file_reply)

lemma rdb_quota_ok [simp]: "rdb (snd (quota_ok uid n now r)) = rdb r"
  using session_level_frame(1) [of uid now r] by (auto simp: quota_ok_def Let_def split: prod.splits)

text \<open>The gate lets through only what fits.\<close>

lemma quota_ok_fits:
  assumes "quota_ok uid n now r = (True, r1)" "storage_ceiling (fst (session_level uid now r)) r = Some q"
    "count_user_storage_bytes uid (rdb r) \<le> q"
  shows "count_user_storage_bytes uid (rdb r) + n \<le> q"
proof (cases "n \<le> 0")
  case False
  have "rdb (snd (session_level uid now r)) = rdb r" "rsettings (snd (session_level uid now r)) = rsettings r"
    by (auto simp: session_level_def resolve_user_level_def split: option.split)
  with False assms(1,2) show ?thesis
    by (auto simp: quota_ok_def storage_ceiling_def Let_def split: prod.splits)
qed (use assms(3) in simp)

section \<open>What one bound name changes\<close>

definition nonneg :: "db \<Rightarrow> bool" where
  "nonneg d = (\<forall>n\<in>set (names d). 0 \<le> n_size n)"

definition placed :: "user_id \<Rightarrow> string \<Rightarrow> string \<Rightarrow> string \<Rightarrow> string \<Rightarrow> int \<Rightarrow> db \<Rightarrow> db \<Rightarrow> bool" where
  "placed uid scope fn saved fid sz d d' \<longleftrightarrow> only_names d d' \<and> names_unique d' \<and>
     (\<forall>k. k \<noteq> (uid, scope, saved) \<longrightarrow> lookup_names d' k = lookup_names d k) \<and>
     (\<exists>n. lookup_names d' (uid, scope, saved) = Some n \<and> n_file n = fid) \<and>
     (saved = fn \<or> lookup_names d (uid, scope, saved) = None) \<and>
     (nonneg d \<longrightarrow> count_user_storage_bytes uid d' \<le> count_user_storage_bytes uid d + worst_add uid scope fn fid sz d)"

lemma allocate_placed:
  assumes "names_unique d" "allocate_name id uid scope fn fid sz dd now d = Inr (Inr (saved, added), d')"
  shows "placed uid scope fn saved fid sz d d'"
proof -
  have nn: "0 \<le> n_size n" if "nonneg d" "lookup_names d (uid, scope, fn) = Some n" for n
    using that lookup_key [OF that(2)] by (simp add: nonneg_def)
  note c = allocate_cases [OF assms, simplified sum.case prod.case]
  show ?thesis
  proof (cases "same_blob d (uid, scope, fn) fid")
    case True
    then show ?thesis using c assms(1) by (auto simp: placed_def worst_add_def same_blob_def split: option.splits)
  next
    case sb: False
    with c have b: "bound uid scope saved fid added d d'" by simp
    have "saved = fn \<or> lookup_names d (uid, scope, saved) = None"
      using c sb by (auto split: option.splits)
    moreover have "nonneg d \<longrightarrow> added \<le> sz"
      using c sb nn by (fastforce split: option.splits)
    ultimately show ?thesis using b sb by (auto simp: placed_def bound_def worst_add_def)
  qed
qed

lemma bind_alone:
  assumes "alone run" "names_unique (rdb r)" "bind_in_tx run uid scope fn fid sz dd after r = (x, r')"
  shows "(case x of
     Inr (Inr saved) \<Rightarrow> (\<exists>d. placed uid scope fn saved fid sz (rdb r) d \<and> rdb r' = after saved d)
   | _ \<Rightarrow> rdb r' = rdb r)"
proof (cases "allocate_name id uid scope fn fid sz dd (fr_now run) (rdb r)")
  case (Inl e)
  then show ?thesis using assms by (auto simp: bind_in_tx_def aloneD)
next
  case (Inr v)
  obtain y d where v: "v = (y, d)" by (cases v)
  note a = Inr [unfolded v]
  show ?thesis
  proof (cases y)
    case (Inl err)
    then have "d = rdb r" using allocate_cases [OF assms(2) a] by simp
    then show ?thesis using assms a Inl by (auto simp: bind_in_tx_def aloneD)
  next
    case (Inr z)
    then obtain saved added where "y = Inr (saved, added)" by (cases z) auto
    then have "placed uid scope fn saved fid sz (rdb r) d" "x = Inr (Inr saved)" "rdb r' = after saved d"
      using assms a allocate_placed [OF assms(2), of uid scope fn fid sz dd "fr_now run" saved added d]
      by (auto simp: bind_in_tx_def aloneD)
    then show ?thesis by auto
  qed
qed

lemma bind_alone_disj:
  assumes "alone run" "names_unique (rdb r)" "bind_in_tx run uid scope fn fid sz dd after r = (x, r')"
  shows "rdb r' = rdb r \<and> (\<forall>saved. x \<noteq> Inr (Inr saved)) \<or>
    (\<exists>saved d. placed uid scope fn saved fid sz (rdb r) d \<and> rdb r' = after saved d \<and> x = Inr (Inr saved))"
proof (cases "\<exists>saved. x = Inr (Inr saved)")
  case True
  then obtain saved where "x = Inr (Inr saved)" by blast
  with bind_alone [OF assms] show ?thesis by auto
next
  case False
  with bind_alone [OF assms] show ?thesis by (cases x; cases "projr x") auto
qed

section \<open>Authority\<close>

text \<open>
  What the authority over a user's store and one session covers: names in the user-wide and
  in the session's scope, and new blobs of the user.
\<close>

definition inside :: "user_id \<Rightarrow> session_id \<Rightarrow> db \<Rightarrow> db \<Rightarrow> bool" where
  "inside uid sid d d' \<longleftrightarrow>
     (\<forall>u scope fn. lookup_names d' (u, scope, fn) \<noteq> lookup_names d (u, scope, fn) \<longrightarrow>
        u = uid \<and> (scope = ''persist'' \<or> scope = ''session:'' @ sid)) \<and>
     (\<exists>fs. files d' = files d @ fs \<and> (\<forall>f\<in>set fs. f_user f = uid)) \<and>
     tasks d' = tasks d \<and> users d' = users d \<and> sessions d' = sessions d \<and> agents d' = agents d"

lemma inside_refl [simp]: "inside uid sid d d"
  by (simp add: inside_def)

lemma inside_trans: "inside uid sid d e \<Longrightarrow> inside uid sid e f \<Longrightarrow> inside uid sid d f"
proof -
  assume a: "inside uid sid d e" and b: "inside uid sid e f"
  have "u = uid \<and> (s = ''persist'' \<or> s = ''session:'' @ sid)"
    if "lookup_names f (u, s, n) \<noteq> lookup_names d (u, s, n)" for u s n
    using a b that unfolding inside_def by metis
  moreover obtain fs gs where "files e = files d @ fs" "\<forall>f\<in>set fs. f_user f = uid"
    "files f = files e @ gs" "\<forall>f\<in>set gs. f_user f = uid"
    using a b unfolding inside_def by blast
  then have "\<exists>hs. files f = files d @ hs \<and> (\<forall>f\<in>set hs. f_user f = uid)"
    by (intro exI [of _ "fs @ gs"]) auto
  ultimately show ?thesis using a b unfolding inside_def by simp
qed

lemma lookup_cong: "names d' = names d \<Longrightarrow> lookup_names d' = lookup_names d"
  by (simp add: lookup_tbl fun_eq_iff)

lemma inside_audit [simp]: "inside uid sid d (file_audit run k a e t p d') = inside uid sid d d'"
  by (simp add: inside_def file_audit_def lookup_cong [OF append_audit_frame(7)])

lemma scope_cases: "scope_for persistent sid = ''persist'' \<or> scope_for persistent sid = ''session:'' @ sid"
  by (simp add: scope_for_def)

lemma inside_placed: "placed uid (scope_for persistent sid) fn saved fid sz d d' \<Longrightarrow> inside uid sid d d'"
  using scope_cases [of persistent sid] by (auto simp: placed_def inside_def only_namesD) metis+

lemma find_filtered:
  "find (\<lambda>n. key n = k) (filter (\<lambda>n. \<not> hit n) ns) \<noteq> find (\<lambda>n. key n = k) ns \<Longrightarrow> \<exists>n\<in>set ns. hit n \<and> key n = k"
  by (induction ns) (auto split: if_splits)

lemma inside_delete:
  assumes "\<And>n. hit n \<Longrightarrow> n_user n = uid \<and> n_scope n = scope_for persistent sid"
  shows "inside uid sid d (snd (delete_names_where hit d))"
proof -
  have "u = uid \<and> s = scope_for persistent sid"
    if ch: "lookup_names (snd (delete_names_where hit d)) (u, s, f) \<noteq> lookup_names d (u, s, f)" for u s f
  proof -
    have "\<exists>n\<in>set (names d). hit n \<and> (n_user n, n_scope n, n_name n) = (u, s, f)"
      by (rule find_filtered) (use ch in \<open>simp add: lookup_tbl tbl_get_def delete_names_where_def\<close>)
    then show ?thesis using assms by blast
  qed
  then show ?thesis using scope_cases [of persistent sid] by (auto simp: inside_def delete_names_where_def)
qed

lemma inside_delete_name: "inside uid sid d (snd (delete_file_name uid (scope_for persistent sid) fn d))"
  unfolding delete_file_name_def by (rule inside_delete [of _ _ persistent]) (simp_all add: is_name_def)

lemma inside_delete_glob: "inside uid sid d (snd (delete_file_names_glob uid (scope_for persistent sid) pat d))"
  unfolding delete_file_names_glob_def by (rule inside_delete [of _ _ persistent]) simp_all

lemma inside_insert_file:
  "insert_file uid sha s t sz mime orig e new_id now d = Inr (b, d') \<Longrightarrow> inside uid sid d d' \<and> names d' = names d"
  by (auto simp: insert_file_def inside_def Let_def lookup_tbl split: option.splits if_splits)

text \<open>A name was bound, and the quota gate had let it through; the audit row aside.\<close>

definition stored :: "'r file_run \<Rightarrow> user_id \<Rightarrow> session_id \<Rightarrow> 'r router \<Rightarrow> db \<Rightarrow> db \<Rightarrow> bool" where
  "stored run uid sid r d0 d' \<longleftrightarrow> (\<exists>p fn fid sz saved n d au.
     placed uid (scope_for p sid) fn saved fid sz d0 d \<and> worst_add uid (scope_for p sid) fn fid sz d0 \<le> n \<and>
     fst (quota_ok uid n (fr_now run) r) \<and> d' = d\<lparr>audit := au\<rparr>)"

lemma audit_eq: "\<exists>au. file_audit run k ac ev tg pl d = d\<lparr>audit := au\<rparr>"
  by (simp add: file_audit_def append_audit_event_def Let_def) blast

lemma file_store_shape:
  assumes "alone run" "names_unique (rdb r)" "derive_task_file_scope (sf_task f) a (rdb r) = Some (uid, sid)"
    "file_store run a f r = (x, r')"
  shows "rdb r' = rdb r \<or> stored run uid sid r (rdb r) (rdb r')"
proof (cases "get_file_by_sha256 uid (sf_sha f) (rdb r)")
  case None
  then show ?thesis using assms(3,4) by (auto simp: file_store_def)
next
  case (Some blob)
  let ?fn = "py_or (sf_name f) (py_or (f_orig blob) (f_id blob))" and ?sc = "scope_for (sf_persistent f) sid"
  let ?w = "worst_add uid ?sc ?fn (f_id blob) (f_size blob) (rdb r)"
  let ?after = "\<lambda>saved. file_audit run ''agent'' a ''file.store'' (?sc @ ''/'' @ saved)
     [(''byte_size'', JInt (f_size blob)), (''dedup'', JStr (show_dedup (sf_dedup f)))]"
  obtain ok r1 where q: "quota_ok uid ?w (fr_now run) r = (ok, r1)" by (cases "quota_ok uid ?w (fr_now run) r")
  then have r1: "rdb r1 = rdb r" using rdb_quota_ok [of uid ?w "fr_now run" r] by simp
  obtain y r2 where b: "bind_in_tx run uid ?sc ?fn (f_id blob) (f_size blob) (sf_dedup f) ?after r1 = (y, r2)"
    by (cases "bind_in_tx run uid ?sc ?fn (f_id blob) (f_size blob) (sf_dedup f) ?after r1")
  show ?thesis
  proof (cases "valid_bare_filename ?fn \<and> ok")
    case True
    then have "rdb r' = rdb r2" using assms(3,4) Some q b by (simp add: file_store_def Let_def aloneD [OF assms(1)])
    moreover from bind_alone [OF assms(1) _ b] assms(2) r1
    have "rdb r2 = rdb r \<or> (\<exists>saved d. placed uid ?sc ?fn saved (f_id blob) (f_size blob) (rdb r) d \<and> rdb r2 = ?after saved d)"
      by (auto split: sum.splits)
    ultimately show ?thesis using True q audit_eq unfolding stored_def by (metis fst_conv order_refl)
  next
    case False
    then show ?thesis using assms(3,4) Some q r1 by (auto simp: file_store_def Let_def split: if_splits)
  qed
qed

text \<open>A copy binds the destination to the source's blob; a move then drops the source.\<close>

definition copied ::
  "'r file_run \<Rightarrow> user_id \<Rightarrow> session_id \<Rightarrow> string \<Rightarrow> string \<Rightarrow> bool \<Rightarrow> 'r router \<Rightarrow> string + file_result \<Rightarrow> db \<Rightarrow> bool" where
  "copied run uid sid src dst mv r x d' \<longleftrightarrow> (\<exists>sp sn dp dn row saved d au.
     split_stash_name src = Some (sp, sn) \<and> split_stash_name dst = Some (dp, dn) \<and>
     lookup_names (rdb r) (uid, scope_for sp sid, sn) = Some row \<and>
     (scope_for sp sid, sn) \<noteq> (scope_for dp sid, dn) \<and>
     placed uid (scope_for dp sid) dn saved (n_file row) (n_size row) (rdb r) d \<and>
     (\<not> mv \<longrightarrow> fst (quota_ok uid (worst_add uid (scope_for dp sid) dn (n_file row) (n_size row) (rdb r)) (fr_now run) r)) \<and>
     x = Inr (SavedName (display_name dp saved)) \<and>
     d' = (if mv then snd (delete_file_name uid (scope_for sp sid) sn d) else d)\<lparr>audit := au\<rparr>)"

lemma file_copy_shape:
  assumes "alone run" "names_unique (rdb r)" "file_copy run a uid sid src dst mv r = (x, r')"
  shows "rdb r' = rdb r \<and> (\<forall>shown. x = Inr (SavedName shown) \<longrightarrow>
      (\<exists>sp sn dp. split_stash_name src = Some (sp, sn) \<and> scope_for sp sid = scope_for dp sid \<and> shown = display_name dp sn)) \<or>
    copied run uid sid src dst mv r x (rdb r')"
proof (cases "\<exists>sp sn dp dn row. split_stash_name src = Some (sp, sn) \<and> split_stash_name dst = Some (dp, dn) \<and>
    resolve_file_name uid (scope_for sp sid) sn (rdb r) = Some row \<and> (scope_for sp sid, sn) \<noteq> (scope_for dp sid, dn)")
  case False
  then show ?thesis using assms(3) by (fastforce simp: file_copy_def Let_def split: option.splits if_splits)
next
  case True
  then obtain sp sn dp dn row where e: "split_stash_name src = Some (sp, sn)" "split_stash_name dst = Some (dp, dn)"
    "resolve_file_name uid (scope_for sp sid) sn (rdb r) = Some row" "(scope_for sp sid, sn) \<noteq> (scope_for dp sid, dn)"
    by blast
  let ?w = "worst_add uid (scope_for dp sid) dn (n_file row) (n_size row) (rdb r)"
  let ?q = "if mv then (True, r) else quota_ok uid ?w (fr_now run) r"
  let ?after = "\<lambda>saved d. file_audit run ''agent'' a ''file.copy'' (scope_for dp sid @ ''/'' @ saved)
     [(''src'', JStr src), (''move'', JBool mv)] (if mv then snd (delete_file_name uid (scope_for sp sid) sn d) else d)"
  obtain ok r1 where q: "?q = (ok, r1)" by (cases ?q)
  have r1: "rdb r1 = rdb r" using arg_cong [OF q, of "\<lambda>x. rdb (snd x)"] by (simp split: if_splits)
  obtain y r2 where b: "bind_in_tx run uid (scope_for dp sid) dn (n_file row) (n_size row) AppendCount ?after r1 = (y, r2)"
    by (cases "bind_in_tx run uid (scope_for dp sid) dn (n_file row) (n_size row) AppendCount ?after r1")
  show ?thesis
  proof (cases ok)
    case True
    then have o: "rdb r' = rdb r2" "x = saved_result dp y"
      using assms(3) e q b by (auto simp: file_copy_def Let_def aloneD [OF assms(1)])
    from bind_alone_disj [OF assms(1) _ b, unfolded r1, OF assms(2)] show ?thesis
    proof
      assume "\<exists>saved d. placed uid (scope_for dp sid) dn saved (n_file row) (n_size row) (rdb r) d \<and>
        rdb r2 = ?after saved d \<and> y = Inr (Inr saved)"
      then obtain saved d where p: "placed uid (scope_for dp sid) dn saved (n_file row) (n_size row) (rdb r) d"
        "rdb r2 = ?after saved d" "y = Inr (Inr saved)" by blast
      obtain au where au: "?after saved d = (if mv then snd (delete_file_name uid (scope_for sp sid) sn d) else d)\<lparr>audit := au\<rparr>"
        using audit_eq by blast
      have qq: "\<not> mv \<longrightarrow> fst (quota_ok uid ?w (fr_now run) r)" using q True by (cases mv) simp_all
      have "copied run uid sid src dst mv r x (rdb r')"
        unfolding copied_def
        by (intro exI [of _ sp] exI [of _ sn] exI [of _ dp] exI [of _ dn] exI [of _ row] exI [of _ saved] exI [of _ d] exI [of _ au])
          (use e p o au qq in \<open>simp add: resolve_lookup saved_result_def\<close>)
      then show ?thesis by simp
    qed (auto simp: o saved_result_def split: sum.splits)
  next
    case False
    then show ?thesis using assms(3) e q r1 by (auto simp: file_copy_def Let_def)
  qed
qed

text \<open>A write may register the blob before it binds the name.\<close>

lemma worst_add_le: "0 \<le> sz \<Longrightarrow> worst_add uid scope fn fid sz d \<le> sz"
  by (simp add: worst_add_def)

lemma utf8_length_nonneg [simp]: "0 \<le> utf8_length s"
  by (induction s) (auto simp: utf8_length_def)

lemma file_write_shape:
  assumes "alone run" "names_unique (rdb r)" "file_write run a tid uid sid fn text p dd r = (x, r')"
  shows "rdb r' = rdb r \<or> (\<exists>d0. inside uid sid (rdb r) d0 \<and> names d0 = names (rdb r) \<and>
    (rdb r' = d0 \<or> stored run uid sid r d0 (rdb r')))"
proof -
  let ?n = "utf8_length text" and ?sha = "fr_sha run text" and ?sc = "scope_for p sid"
  let ?blob = "get_file_by_sha256 uid ?sha (rdb r)"
  let ?idem = "case ?blob of None \<Rightarrow> False | Some b \<Rightarrow> same_blob (rdb r) (uid, ?sc, fn) (f_id b)"
  let ?w = "if ?idem then 0 else ?n"
  obtain ok r1 where q: "quota_ok uid ?w (fr_now run) r = (ok, r1)" by (cases "quota_ok uid ?w (fr_now run) r")
  have r1: "rdb r1 = rdb r" using arg_cong [OF q, of "\<lambda>x. rdb (snd x)"] by simp
  let ?ins = "case ?blob of
       Some b \<Rightarrow> (Inr (b, rdb r1), r1)
     | None \<Rightarrow> (insert_file uid ?sha (if p then None else Some sid) (Some tid) ?n (Some TEXT_MIME) (Some fn)
                  (Some (fr_now run + file_default_ttl_s (rsettings r1))) (fr_id run) (fr_now run) (rdb r1),
                r1\<lparr>blobs := List.insert ?sha (blobs r1)\<rparr>)"
  obtain ins r3 where i: "?ins = (ins, r3)" by (cases ?ins)
  have r3: "rdb r3 = rdb r" using i r1 by (auto split: option.splits)
  let ?after = "\<lambda>saved. file_audit run ''agent'' a ''file.write'' (?sc @ ''/'' @ saved)
     [(''byte_size'', JInt ?n), (''dedup'', JStr (show_dedup dd))]"
  show ?thesis
  proof (cases "valid_bare_filename fn \<and> \<not> max_upload_bytes (rsettings r) < ?n \<and> ok")
    case True
    note w = assms(3) [unfolded file_write_def Let_def aloneD [OF assms(1)] id_apply]
    show ?thesis
    proof (cases ins)
      case (Inl e)
      then have "rdb r' = rdb r3" using w True q i by (auto simp: aloneD [OF assms(1)])
      then show ?thesis using r3 by simp
    next
      case (Inr bd)
      obtain b d0 where bd: "bd = (b, d0)" by (cases bd)
      have d0: "inside uid sid (rdb r) d0 \<and> names d0 = names (rdb r)" and
        wa: "worst_add uid ?sc fn (f_id b) ?n d0 \<le> ?w"
        using i Inr bd r1 inside_insert_file worst_add_le [of ?n uid ?sc fn "f_id b"]
        by (auto split: option.splits simp: worst_add_def same_blob_def)
      obtain y r4 where bt: "bind_in_tx run uid ?sc fn (f_id b) ?n dd ?after (r3\<lparr>rdb := d0\<rparr>) = (y, r4)"
        by (cases "bind_in_tx run uid ?sc fn (f_id b) ?n dd ?after (r3\<lparr>rdb := d0\<rparr>)")
      have "names_unique (rdb (r3\<lparr>rdb := d0\<rparr>))" using assms(2) d0 by simp
      from bind_alone_disj [OF assms(1) this bt]
      have "rdb r4 = d0 \<or> (\<exists>saved d. placed uid ?sc fn saved (f_id b) ?n d0 d \<and> rdb r4 = ?after saved d)"
        by auto
      then have st: "rdb r4 = d0 \<or> stored run uid sid r d0 (rdb r4)"
        using wa q True audit_eq unfolding stored_def by (metis fst_conv)
      have "rdb r' = rdb r3 \<or> rdb r' = rdb r4"
        using w True q i Inr bd bt by (cases y) (auto simp: aloneD [OF assms(1)])
      then show ?thesis using st d0 r3 by auto
    qed
  next
    case False
    then show ?thesis using assms(3) q r1 by (auto simp: file_write_def Let_def split: if_splits)
  qed
qed

section \<open>What the shapes give\<close>

lemma inside_upd_audit [simp]: "inside uid sid d (d'\<lparr>audit := au\<rparr>) = inside uid sid d d'"
  by (simp add: inside_def lookup_cong [of "d'\<lparr>audit := au\<rparr>" d'])

lemma count_cong [simp]: "count_user_storage_bytes u (d\<lparr>audit := au\<rparr>) = count_user_storage_bytes u d"
  by (simp add: count_user_storage_bytes_def)

lemma inside_stored: "stored run uid sid r d d' \<Longrightarrow> inside uid sid d d'"
  by (auto simp: stored_def intro: inside_placed)

lemma inside_copied: "copied run uid sid src dst mv r x d' \<Longrightarrow> inside uid sid (rdb r) d'"
  by (auto simp: copied_def intro: inside_placed inside_trans [OF inside_placed inside_delete_name])

lemma derive_Some:
  "derive_task_file_scope tid a d = Some (uid, sid) \<longleftrightarrow>
   (\<exists>t. find_task d tid = Some t \<and> t_active t = a \<and> uid = t_user t \<and> sid = t_session t)"
  by (auto simp: derive_task_file_scope_def split: option.splits if_splits)

lemma inside_file_delete: "inside uid sid d (snd (file_delete run a uid sid name d))"
  using inside_delete_name inside_delete_glob by (auto simp: file_delete_def Let_def split_beta)

lemma serve_denied: "derive_task_file_scope (request_task q) a (rdb r) = None \<Longrightarrow> rdb (snd (serve_file run a q r)) = rdb r"
  by (cases q) (auto simp: file_store_def file_manage_def)

lemma serve_inside:
  assumes "alone run" "names_unique (rdb r)" "derive_task_file_scope (request_task q) a (rdb r) = Some (uid, sid)"
  shows "inside uid sid (rdb r) (rdb (snd (serve_file run a q r)))"
proof (cases q)
  case q: (StoreReq f)
  obtain x r' where e: "file_store run a f r = (x, r')" by (cases "file_store run a f r")
  with file_store_shape [OF assms(1,2) _ e, of uid sid] assms(3) q show ?thesis
    using inside_stored by auto
next
  case (ManageReq tid cmd)
  show ?thesis
  proof (cases cmd)
    case (CopyFile src dst mv)
    obtain x r' where e: "file_copy run a uid sid src dst mv r = (x, r')" by (cases "file_copy run a uid sid src dst mv r")
    with file_copy_shape [OF assms(1,2) e] assms(3) ManageReq CopyFile show ?thesis
      using inside_copied by (auto simp: file_manage_def)
  next
    case (WriteFile fn body p dd)
    obtain x r' where e: "file_write run a tid uid sid fn body p dd r = (x, r')"
      by (cases "file_write run a tid uid sid fn body p dd r")
    with file_write_shape [OF assms(1,2) e] have "inside uid sid (rdb r) (rdb r')"
      using inside_stored inside_trans inside_refl by metis
    with assms(3) ManageReq WriteFile e show ?thesis by (simp add: file_manage_def)
  next
    case (DeleteFile name)
    then show ?thesis using assms(3) ManageReq inside_file_delete by (simp add: file_manage_def split_beta)
  qed (use assms(3) ManageReq in \<open>simp_all add: file_manage_def\<close>)
qed simp

section \<open>Properties\<close>

text \<open>
  Property C8.  File frames act only with authority: a frame that changes the database at all
  names a task whose active executor is the sender, and then changes only names of that task's
  user, in the user-wide scope or the scope of that task's session, adds only blobs of that
  user, and leaves tasks, users, sessions and agents alone.
\<close>

theorem file_ops_confined:
  assumes "alone run" "db_ok (rdb r)" "rdb (snd (handle_file_frame run s cid q r)) \<noteq> rdb r"
  shows "\<exists>t. find_task (rdb r) (request_task q) = Some t \<and> t_active t = so_agent (the_socket r s) \<and>
    inside (t_user t) (t_session t) (rdb r) (rdb (snd (handle_file_frame run s cid q r)))"
proof -
  let ?a = "so_agent (the_socket r s)"
  have "derive_task_file_scope (request_task q) ?a (rdb r) \<noteq> None"
    using assms(3) serve_denied [of q ?a r run] unfolding rdb_handle_file_frame [OF assms(1)] by blast
  then obtain uid sid where d: "derive_task_file_scope (request_task q) ?a (rdb r) = Some (uid, sid)" by auto
  with serve_inside [OF assms(1) db_okD(6) [OF assms(2)] d] show ?thesis
    by (auto simp: derive_Some rdb_handle_file_frame [OF assms(1)])
qed

text \<open>Deleting never adds to what is stored.\<close>

lemma count_filter_le: "nonneg d \<Longrightarrow> count_user_storage_bytes u (snd (delete_names_where hit d)) \<le> count_user_storage_bytes u d"
proof -
  have "(\<forall>n\<in>set ns. 0 \<le> n_size n) \<Longrightarrow>
    sum_list (map n_size (filter (\<lambda>n. n_user n = u) (filter (\<lambda>n. \<not> hit n) ns))) \<le>
    sum_list (map n_size (filter (\<lambda>n. n_user n = u) ns))" for ns
    by (induction ns) auto
  then show "nonneg d \<Longrightarrow> ?thesis"
    by (simp add: nonneg_def count_user_storage_bytes_def delete_names_where_def)
qed

lemma count_delete_name:
  assumes "names_unique d" "lookup_names d (uid, scope, fn) = Some n"
  shows "count_user_storage_bytes uid (snd (delete_file_name uid scope fn d)) = count_user_storage_bytes uid d - n_size n"
proof -
  let ?key = "\<lambda>n. (n_user n, n_scope n, n_name n)"
  have "tbl_ok ?key ns \<Longrightarrow> tbl_get ?key (uid, scope, fn) ns = Some n \<Longrightarrow>
    sum_list (map n_size (filter (\<lambda>n. n_user n = uid) (filter (\<lambda>n. \<not> is_name uid scope fn n) ns))) =
    sum_list (map n_size (filter (\<lambda>n. n_user n = uid) ns)) - n_size n" for ns
  proof (induction ns)
    case (Cons x ns)
    show ?case
    proof (cases "is_name uid scope fn x")
      case True
      then have "n = x" using Cons.prems(2) by (simp add: tbl_get_Cons is_name_key)
      moreover have "filter (\<lambda>n. \<not> is_name uid scope fn n) ns = ns"
        using Cons.prems(1) True by (auto simp: tbl_ok_def is_name_key filter_id_conv image_iff)
      ultimately show ?thesis using True by (simp add: is_name_def)
    next
      case False
      then show ?thesis using Cons by (auto simp: tbl_get_Cons is_name_key tbl_ok_def)
    qed
  qed (simp add: tbl_get_Nil)
  from this [OF assms(1)] assms(2) show ?thesis
    by (simp add: lookup_tbl count_user_storage_bytes_def delete_file_name_def delete_names_where_def)
qed

lemma count_names_cong: "names d' = names d \<Longrightarrow> count_user_storage_bytes u d' = count_user_storage_bytes u d"
  by (simp add: count_user_storage_bytes_def)

lemma stored_fits:
  assumes "stored run uid sid r d0 d'" "names d0 = names (rdb r)" "nonneg d0"
    "storage_ceiling (fst (session_level uid (fr_now run) r)) r = Some q" "count_user_storage_bytes uid (rdb r) \<le> q"
  shows "count_user_storage_bytes uid d' \<le> q"
proof -
  obtain p fn fid sz saved n d au where s: "placed uid (scope_for p sid) fn saved fid sz d0 d"
    "worst_add uid (scope_for p sid) fn fid sz d0 \<le> n" "fst (quota_ok uid n (fr_now run) r)" "d' = d\<lparr>audit := au\<rparr>"
    using assms(1) unfolding stored_def by blast
  have "count_user_storage_bytes uid (rdb r) + n \<le> q"
    using quota_ok_fits [OF _ assms(4,5), of n "snd (quota_ok uid n (fr_now run) r)"] s(3) by (simp add: prod_eq_iff)
  moreover have "count_user_storage_bytes uid d \<le> count_user_storage_bytes uid d0 + worst_add uid (scope_for p sid) fn fid sz d0"
    using s(1) assms(3) by (simp add: placed_def)
  ultimately show ?thesis using s(2,4) count_names_cong [OF assms(2), of uid] by simp
qed

text \<open>A move frees what it binds: the source's own bytes.\<close>

lemma moved_row:
  assumes "placed uid dsc dn saved fid sz d0 d" "lookup_names d0 (uid, ssc, sn) = Some row" "(ssc, sn) \<noteq> (dsc, dn)"
  shows "lookup_names d (uid, ssc, sn) = Some row" "(ssc, sn) \<noteq> (dsc, saved)"
proof -
  show "(ssc, sn) \<noteq> (dsc, saved)" using assms by (auto simp: placed_def)
  then show "lookup_names d (uid, ssc, sn) = Some row" using assms(1,2) by (auto simp: placed_def)
qed

lemma copied_fits:
  assumes "copied run uid sid src dst mv r x d'" "nonneg (rdb r)"
    "storage_ceiling (fst (session_level uid (fr_now run) r)) r = Some q" "count_user_storage_bytes uid (rdb r) \<le> q"
  shows "count_user_storage_bytes uid d' \<le> q"
proof -
  obtain sp sn dp dn row saved d au where c: "lookup_names (rdb r) (uid, scope_for sp sid, sn) = Some row"
    "(scope_for sp sid, sn) \<noteq> (scope_for dp sid, dn)"
    "placed uid (scope_for dp sid) dn saved (n_file row) (n_size row) (rdb r) d"
    "\<not> mv \<longrightarrow> fst (quota_ok uid (worst_add uid (scope_for dp sid) dn (n_file row) (n_size row) (rdb r)) (fr_now run) r)"
    "d' = (if mv then snd (delete_file_name uid (scope_for sp sid) sn d) else d)\<lparr>audit := au\<rparr>"
    using assms(1) unfolding copied_def by blast
  show ?thesis
  proof (cases mv)
    case False
    have "stored run uid sid r (rdb r) d'" unfolding stored_def
      by (intro exI [of _ dp] exI [of _ dn] exI [of _ "n_file row"] exI [of _ "n_size row"] exI [of _ saved]
          exI [of _ "worst_add uid (scope_for dp sid) dn (n_file row) (n_size row) (rdb r)"] exI [of _ d] exI [of _ au])
        (use c(3-5) False in simp)
    then show ?thesis by (rule stored_fits [OF _ refl assms(2-4)])
  next
    case True
    have "0 \<le> n_size row" using c(1) lookup_key assms(2) by (auto simp: nonneg_def)
    then have "worst_add uid (scope_for dp sid) dn (n_file row) (n_size row) (rdb r) \<le> n_size row" by (rule worst_add_le)
    then have "count_user_storage_bytes uid d \<le> count_user_storage_bytes uid (rdb r) + n_size row"
      using c(3) assms(2) by (fastforce simp: placed_def)
    moreover have "names_unique d" using c(3) by (simp add: placed_def)
    note count_delete_name [OF this moved_row(1) [OF c(3,1,2)]]
    ultimately show ?thesis using True c(5) assms(4) by simp
  qed
qed

text \<open>
  Property C9.  Storage stays within the quota: when no other request interleaves, no file
  frame takes the user of its task past the ceiling of the user's level.
\<close>

theorem storage_within_quota:
  assumes "alone run" "db_ok (rdb r)" "nonneg (rdb r)" "find_task (rdb r) (request_task q) = Some t"
    "storage_ceiling (fst (session_level (t_user t) (fr_now run) r)) r = Some cap"
    "count_user_storage_bytes (t_user t) (rdb r) \<le> cap"
  shows "count_user_storage_bytes (t_user t) (rdb (snd (handle_file_frame run s cid q r))) \<le> cap"
proof -
  let ?a = "so_agent (the_socket r s)" and ?u = "t_user t" and ?s = "t_session t"
  note nu = db_okD(6) [OF assms(2)]
  have "count_user_storage_bytes ?u (rdb (snd (serve_file run ?a q r))) \<le> cap"
  proof (cases "t_active t = ?a")
    case False
    then have "derive_task_file_scope (request_task q) ?a (rdb r) = None"
      using assms(4) by (simp add: derive_task_file_scope_def)
    with serve_denied [OF this] assms(6) show ?thesis by simp
  next
    case True
    then have d: "derive_task_file_scope (request_task q) ?a (rdb r) = Some (?u, ?s)"
      using assms(4) by (simp add: derive_task_file_scope_def)
    show ?thesis
    proof (cases q)
      case q: (StoreReq f)
      obtain x r' where e: "file_store run ?a f r = (x, r')" by (cases "file_store run ?a f r")
      from file_store_shape [OF assms(1) nu _ e, of ?u ?s] d q
      have "rdb r' = rdb r \<or> stored run ?u ?s r (rdb r) (rdb r')" by simp
      then show ?thesis using stored_fits [OF _ refl assms(3,5,6), of ?s "rdb r'"] assms(6) e q by auto
    next
      case q: (ManageReq tid cmd)
      show ?thesis
      proof (cases cmd)
        case c: (CopyFile src dst mv)
        obtain x r' where e: "file_copy run ?a ?u ?s src dst mv r = (x, r')" by (cases "file_copy run ?a ?u ?s src dst mv r")
        from file_copy_shape [OF assms(1) nu e] copied_fits [OF _ assms(3,5,6)] assms(6)
        have "count_user_storage_bytes ?u (rdb r') \<le> cap" by metis
        then show ?thesis using e c q d by (simp add: file_manage_def)
      next
        case c: (WriteFile fn body p dd)
        obtain x r' where e: "file_write run ?a tid ?u ?s fn body p dd r = (x, r')"
          by (cases "file_write run ?a tid ?u ?s fn body p dd r")
        from file_write_shape [OF assms(1) nu e]
        have "count_user_storage_bytes ?u (rdb r') \<le> cap"
        proof (elim disjE exE conjE)
          fix d0 assume n: "names d0 = names (rdb r)" and st: "stored run ?u ?s r d0 (rdb r')"
          have "nonneg d0" using assms(3) n by (simp add: nonneg_def)
          from stored_fits [OF st n this assms(5,6)] show ?thesis .
        next
          fix d0 assume n: "names d0 = names (rdb r)" and "rdb r' = d0"
          with count_names_cong [OF n] assms(6) show ?thesis by simp
        qed (use assms(6) in simp)
        then show ?thesis using e c q d by (simp add: file_manage_def)
      next
        case c: (DeleteFile name)
        have "count_user_storage_bytes ?u (snd (file_delete run ?a ?u ?s name (rdb r))) \<le> count_user_storage_bytes ?u (rdb r)"
          using count_filter_le [OF assms(3)]
          by (auto simp: file_delete_def Let_def split_beta file_audit_def delete_file_name_def
              delete_file_names_glob_def count_names_cong [OF append_audit_frame(7)])
        then show ?thesis using c q d assms(6) by (simp add: file_manage_def split_beta)
      qed (use assms(6) q d in \<open>simp_all add: file_manage_def\<close>)
    qed (use assms(6) in simp)
  qed
  then show ?thesis unfolding rdb_handle_file_frame [OF assms(1)] .
qed

lemma lookup_deleted: "lookup_names (snd (delete_file_name uid scope fn d)) k =
    (if k = (uid, scope, fn) then None else lookup_names d k)"
proof -
  have "find (\<lambda>n. key n = k) (filter (\<lambda>n. key n \<noteq> j) ns) = (if k = j then None else find (\<lambda>n. key n = k) ns)"
    for key :: "name_row \<Rightarrow> string \<times> string \<times> string" and j ns
    by (induction ns) auto
  from this [of "\<lambda>n. (n_user n, n_scope n, n_name n)" "(uid, scope, fn)" "names d"] show ?thesis
    by (simp add: lookup_tbl tbl_get_def delete_file_name_def delete_names_where_def is_name_key)
qed

text \<open>
  A move never loses the file: when it reports a name, that name holds the blob
  the source held.  Either source and destination are the same name and nothing has changed,
  or the source is gone, every other name is as before, and the user stores no more than
  before.
\<close>

theorem move_keeps_file:
  assumes "alone run" "db_ok (rdb r)" "nonneg (rdb r)" "split_stash_name src = Some (sp, sn)"
    "resolve_file_name uid (scope_for sp sid) sn (rdb r) = Some row"
    "file_copy run a uid sid src dst True r = (Inr (SavedName shown), r')"
  shows "\<exists>dp saved n. shown = display_name dp saved \<and>
    resolve_file_name uid (scope_for dp sid) saved (rdb r') = Some n \<and> n_file n = n_file row \<and>
    (rdb r' = rdb r \<or>
     resolve_file_name uid (scope_for sp sid) sn (rdb r') = None \<and>
     (\<forall>u scope fn. (u, scope, fn) \<noteq> (uid, scope_for dp sid, saved) \<and> (u, scope, fn) \<noteq> (uid, scope_for sp sid, sn) \<longrightarrow>
        resolve_file_name u scope fn (rdb r') = resolve_file_name u scope fn (rdb r)) \<and>
     count_user_storage_bytes uid (rdb r') \<le> count_user_storage_bytes uid (rdb r))"
  using file_copy_shape [OF assms(1) db_okD(6) [OF assms(2)] assms(6)]
proof
  assume "rdb r' = rdb r \<and> (\<forall>shown'. Inr (SavedName shown) = Inr (SavedName shown') \<longrightarrow>
      (\<exists>sp sn dp. split_stash_name src = Some (sp, sn) \<and> scope_for sp sid = scope_for dp sid \<and> shown' = display_name dp sn))"
  then have "rdb r' = rdb r" "\<exists>dp. scope_for sp sid = scope_for dp sid \<and> shown = display_name dp sn"
    using assms(4) by auto
  then show ?thesis using assms(5) by metis
next
  assume "copied run uid sid src dst True r (Inr (SavedName shown)) (rdb r')"
  then obtain sp' sn' dp dn row' saved d au where c': "split_stash_name src = Some (sp', sn')"
    "lookup_names (rdb r) (uid, scope_for sp' sid, sn') = Some row'"
    "(scope_for sp' sid, sn') \<noteq> (scope_for dp sid, dn)"
    "placed uid (scope_for dp sid) dn saved (n_file row') (n_size row') (rdb r) d"
    "Inr (SavedName shown) = Inr (SavedName (display_name dp saved))"
    "rdb r' = (if True then snd (delete_file_name uid (scope_for sp' sid) sn' d) else d)\<lparr>audit := au\<rparr>"
    unfolding copied_def by blast
  then have eq: "sp' = sp" "sn' = sn" "row' = row" using assms(4,5) by (auto simp: resolve_lookup)
  have c: "(scope_for sp sid, sn) \<noteq> (scope_for dp sid, dn)"
    "placed uid (scope_for dp sid) dn saved (n_file row) (n_size row) (rdb r) d" "shown = display_name dp saved"
    "rdb r' = (snd (delete_file_name uid (scope_for sp sid) sn d))\<lparr>audit := au\<rparr>"
    using c' unfolding eq by simp_all
  note src = assms(5) [unfolded resolve_lookup]
  note m = moved_row [OF c(2) src c(1)]
  have l: "lookup_names (rdb r') k = (if k = (uid, scope_for sp sid, sn) then None else lookup_names d k)" for k
    using lookup_cong [of "rdb r'" "snd (delete_file_name uid (scope_for sp sid) sn d)"] c(4) lookup_deleted by simp
  obtain n where n: "lookup_names d (uid, scope_for dp sid, saved) = Some n" "n_file n = n_file row"
    using c(2) by (auto simp: placed_def)
  have "0 \<le> n_size row" using src lookup_key assms(3) by (auto simp: nonneg_def)
  then have "worst_add uid (scope_for dp sid) dn (n_file row) (n_size row) (rdb r) \<le> n_size row" by (rule worst_add_le)
  then have "count_user_storage_bytes uid d \<le> count_user_storage_bytes uid (rdb r) + n_size row"
    using c(2) assms(3) by (fastforce simp: placed_def)
  moreover have "names_unique d" using c(2) by (simp add: placed_def)
  note count_delete_name [OF this m(1)]
  ultimately have "count_user_storage_bytes uid (rdb r') \<le> count_user_storage_bytes uid (rdb r)" using c(4) by simp
  moreover have "\<forall>u scope fn. (u, scope, fn) \<noteq> (uid, scope_for dp sid, saved) \<and> (u, scope, fn) \<noteq> (uid, scope_for sp sid, sn) \<longrightarrow>
      lookup_names (rdb r') (u, scope, fn) = lookup_names (rdb r) (u, scope, fn)"
    using c(2) l by (auto simp: placed_def)
  moreover have "lookup_names (rdb r') (uid, scope_for dp sid, saved) = Some n" using l n m(2) by auto
  moreover have "lookup_names (rdb r') (uid, scope_for sp sid, sn) = None" using l by simp
  ultimately show ?thesis using c(3) n(2) unfolding resolve_lookup
    by (intro exI [of _ dp] exI [of _ saved] exI [of _ n]) blast
qed

section \<open>A small store\<close>

definition demo_run :: "unit file_run" where
  "demo_run = \<lparr>fr_jwt = \<lparr>jw_encode = (\<lambda>c s a. ''token''), jw_decode = (\<lambda>t s a i q n. Inl ExpiredSignature)\<rparr>,
     fr_sha = (\<lambda>s. s), fr_deps = \<lparr>dep_validate = (\<lambda>_ _. Valid), dep_digest = (\<lambda>_. ''h''), dep_redis = (\<lambda>_ _ _ _ _ _ _. None)\<rparr>,
     fr_now = 5, fr_id = ''f9'', fr_env = id, fr_race = id, fr_room = id\<rparr>"

definition demo_store :: "unit router" where
  "demo_store = demo_router\<lparr>rdb := demo_files\<lparr>tasks := [demo_task],
     files := files demo_files @ [\<lparr>f_id = ''f3'', f_sha = ''z'', f_user = ''u'', f_session = None, f_task = None, f_size = 40,
                f_mime = None, f_orig = None, f_created = 0, f_expires = Some 9\<rparr>]\<rparr>\<rparr>"

definition demo_request :: "string \<Rightarrow> string \<Rightarrow> file_request" where
  "demo_request sha fn = StoreReq \<lparr>sf_task = ''t1'', sf_sha = sha, sf_name = Some fn, sf_persistent = True, sf_dedup = AppendCount\<rparr>"

lemma demo_store_facts [simp]: "alone demo_run" "db_ok (rdb demo_store)" "nonneg (rdb demo_store)"
  "find_task (rdb demo_store) ''t1'' = Some demo_task" "count_user_storage_bytes ''u'' (rdb demo_store) = 40"
  by (simp_all add: alone_def demo_run_def demo_store_def demo_files_def demo_defs db_ok_def tbl_ok_def idem_unique_def
      nonneg_def find_task_def tbl_get_def count_user_storage_bytes_def)

theorem file_ops_confined_witness:
  "\<exists>t. find_task (rdb demo_store) ''t1'' = Some t \<and> t_active t = so_agent (the_socket demo_store 1) \<and>
     inside (t_user t) (t_session t) (rdb demo_store) (rdb (snd (handle_file_frame demo_run 1 ''c'' (demo_request ''y'' ''b.txt'') demo_store)))"
proof -
  have "length (names (rdb (snd (handle_file_frame demo_run 1 ''c'' (demo_request ''y'' ''b.txt'') demo_store)))) \<noteq>
      length (names (rdb demo_store))"
    by code_simp
  then have "rdb (snd (handle_file_frame demo_run 1 ''c'' (demo_request ''y'' ''b.txt'') demo_store)) \<noteq> rdb demo_store" by metis
  from file_ops_confined [OF _ _ this] show ?thesis by (simp add: demo_request_def)
qed

theorem storage_within_quota_witness:
  "storage_ceiling (fst (session_level ''u'' 5 demo_store)) demo_store = Some 100 \<and>
   count_user_storage_bytes ''u'' (rdb (snd (handle_file_frame demo_run 1 ''c'' (demo_request ''y'' ''b.txt'') demo_store))) \<le> 100"
proof -
  have s: "storage_ceiling (fst (session_level ''u'' 5 demo_store)) demo_store = Some 100" by code_simp
  have "count_user_storage_bytes (t_user demo_task)
      (rdb (snd (handle_file_frame demo_run 1 ''c'' (demo_request ''y'' ''b.txt'') demo_store))) \<le> 100"
    by (rule storage_within_quota [where t = demo_task])
      (use s in \<open>simp_all add: demo_request_def demo_task_def demo_run_def [THEN arg_cong, of fr_now]\<close>)
  with s show ?thesis by (simp add: demo_task_def)
qed

theorem move_keeps_file_witness:
  "let r' = snd (file_copy demo_run ''b'' ''u'' ''s'' ''persist/a.txt'' ''c.txt'' True demo_store)
   in \<exists>n. resolve_file_name ''u'' ''session:s'' ''c.txt'' (rdb r') = Some n \<and> n_file n = ''f1''"
proof -
  let ?r = "snd (file_copy demo_run ''b'' ''u'' ''s'' ''persist/a.txt'' ''c.txt'' True demo_store)"
  have a: "fst (file_copy demo_run ''b'' ''u'' ''s'' ''persist/a.txt'' ''c.txt'' True demo_store) = Inr (SavedName ''c.txt'')"
    by code_simp
  have c: "file_copy demo_run ''b'' ''u'' ''s'' ''persist/a.txt'' ''c.txt'' True demo_store = (Inr (SavedName ''c.txt''), ?r)"
    using a by (simp add: prod_eq_iff)
  have b: "split_stash_name ''persist/a.txt'' = Some (True, ''a.txt'')" by code_simp
  have d: "resolve_file_name ''u'' (scope_for True ''s'') ''a.txt'' (rdb demo_store) = Some (hd (names demo_files))"
    "n_file (hd (names demo_files)) = ''f1''" by code_simp+
  from move_keeps_file [OF _ _ _ b d(1) c] d(2) obtain dp saved n where
    e: "''c.txt'' = display_name dp saved" "resolve_file_name ''u'' (scope_for dp ''s'') saved (rdb ?r) = Some n" "n_file n = ''f1''"
    by auto
  have "\<not> dp" "saved = ''c.txt''" using e(1) by (auto simp: display_name_def PERSIST_PREFIX_def split: if_splits)
  with e show ?thesis by (auto simp: scope_for_def Let_def)
qed

text \<open>
  The quota gate does not hold under interleaving: usage is read before the
  transaction, so two stores that each fit can both go through and leave the user over the
  ceiling.
\<close>

theorem quota_gate_races:
  "storage_ceiling (fst (session_level ''u'' 5 demo_store)) demo_store = Some 100 \<and>
   count_user_storage_bytes ''u'' (rdb demo_store) = 40 \<and>
   count_user_storage_bytes ''u'' (rdb (snd (handle_file_frame
     (demo_run\<lparr>fr_env := (\<lambda>r. snd (handle_file_frame demo_run 1 ''c2'' (demo_request ''z'' ''c.txt'') r))\<rparr>)
     1 ''c1'' (demo_request ''y'' ''b.txt'') demo_store))) = 110"
  by code_simp

text \<open>
  A name may contain a star, but cannot be deleted alone: deleting it by name
  also deletes every other name of the scope that the star matches.
\<close>

theorem star_name_delete_overreaches:
  assumes "valid_bare_filename fn" "CHR ''*'' \<in> set fn" "\<not> starts_with PERSIST_PREFIX fn"
    "resolve_file_name uid (scope_for False sid) other d = Some n"
    "like_match (\<lambda>c. c) (glob_to_like fn) other"
  shows "resolve_file_name uid (scope_for False sid) other (snd (file_delete run a uid sid fn d)) = None"
proof -
  have "fn \<noteq> []" "CHR ''/'' \<notin> set fn" using assms(1,2) by (auto simp: valid_bare_filename_def)
  then have "names (snd (file_delete run a uid sid fn d)) =
      filter (\<lambda>n. \<not> (n_user n = uid \<and> n_scope n = scope_for False sid \<and> like_match (\<lambda>c. c) (glob_to_like fn) (n_name n))) (names d)"
    using assms(2,3) by (simp add: file_delete_def delete_file_names_glob_def delete_names_where_def file_audit_def Let_def)
  then show ?thesis using assms(5)
    by (auto simp: resolve_file_name_def find_None_iff is_name_def)
qed

theorem star_name_delete_overreaches_witness:
  "\<exists>d. resolve_file_name ''u'' (scope_for False ''s'') ''ab'' d \<noteq> None \<and>
     resolve_file_name ''u'' (scope_for False ''s'') ''ab'' (snd (file_delete demo_run ''b'' ''u'' ''s'' ''a*'' d)) = None"
proof -
  let ?n = "\<lparr>n_user = ''u'', n_scope = ''session:s'', n_name = ''ab'', n_file = ''f1'', n_size = 40, n_created = 1, n_updated = 1\<rparr>"
  let ?d = "demo_files\<lparr>names := [?n]\<rparr>"
  have n: "resolve_file_name ''u'' (scope_for False ''s'') ''ab'' ?d = Some ?n" by code_simp
  have "valid_bare_filename ''a*''" "\<not> starts_with PERSIST_PREFIX ''a*''" "like_match (\<lambda>c. c) (glob_to_like ''a*'') ''ab''"
    by code_simp+
  from star_name_delete_overreaches [OF this(1) _ this(2) n this(3), of demo_run "''b''"] n show ?thesis by auto
qed

end
