(* ===== verification/FileApi.thy ===== *)
theory FileApi
  imports FileProps
begin

text \<open>
  The HTTP side of the file store, \<open>bp_router/api/files.py\<close> with \<open>upload_utils.py\<close>: uploads,
  the named store of a session principal and downloads.  A request that ends in an
  \<open>HTTPException\<close> is \<open>Inl\<close> its status and detail; an exception nobody handles is a 500.
\<close>

section \<open>Uploads\<close>

text \<open>
  A body is the list of the chunks its reader returns, the empty chunk being its end;
  \<open>sz\<close> and \<open>read\<close> are what has been read so far.  \<open>Inl\<close> is \<open>UploadTooLarge\<close> with the size
  observed.
\<close>

fun hash_loop :: "(string \<Rightarrow> string) \<Rightarrow> int \<Rightarrow> int \<Rightarrow> string \<Rightarrow> string list \<Rightarrow> int + string \<times> int" where
  "hash_loop sha max_bytes sz read [] = Inr (sha read, sz)"
| "hash_loop sha max_bytes sz read (chunk # rest) =
     (if chunk = [] then Inr (sha read, sz)
      else let sz' = sz + int (length chunk)
           in if max_bytes < sz' then Inl sz'
              else hash_loop sha max_bytes sz' (read @ chunk) rest)"

definition hash_with_size_cap :: "(string \<Rightarrow> string) \<Rightarrow> int \<Rightarrow> string list \<Rightarrow> int + string \<times> int" where
  "hash_with_size_cap sha max_bytes chunks = hash_loop sha max_bytes 0 [] chunks"

definition too_large :: "int \<Rightarrow> int \<Rightarrow> http_error" where
  "too_large observed max_bytes =
     (413, ''upload exceeds max_upload_bytes='' @ show_int max_bytes @ '' (observed '' @ show_int observed @ ''+)'')"

record upload_reply =
  ur_file :: string
  ur_sha :: string
  ur_size :: string
  ur_path :: string
  ur_key :: string

definition mint_fetch_key :: "'r file_run \<Rightarrow> string \<Rightarrow> user_id \<Rightarrow> 'r router \<Rightarrow> string" where
  "mint_fetch_key run fid uid r =
     fst (issue_file_fetch_token (fr_jwt run) (router_key r) fid uid (file_fetch_token_ttl_s (rsettings r))
            (fr_now run) (fr_id run))"

definition upload_reply_of :: "'r file_run \<Rightarrow> file_row \<Rightarrow> user_id \<Rightarrow> 'r router \<Rightarrow> upload_reply" where
  "upload_reply_of run row uid r =
     \<lparr>ur_file = f_id row, ur_sha = f_sha row, ur_size = show_int (f_size row), ur_path = file_url (f_id row),
       ur_key = mint_fetch_key run (f_id row) uid r\<rparr>"

definition bad_upload_name :: "string option \<Rightarrow> bool" where
  "bad_upload_name fn = (case fn of None \<Rightarrow> False | Some n \<Rightarrow> list_ex reject_char n)"

text \<open>The bytes are put to the store before the row is written; \<open>fr_env\<close> runs in between.\<close>

definition put_blob :: "'r file_run \<Rightarrow> string \<Rightarrow> 'r router \<Rightarrow> 'r router" where
  "put_blob run sha r = fr_env run (r\<lparr>blobs := List.insert sha (blobs r)\<rparr>)"

definition register_blob ::
  "'r file_run \<Rightarrow> user_id \<Rightarrow> string \<Rightarrow> session_id option \<Rightarrow> task_id option \<Rightarrow> int \<Rightarrow> string option \<Rightarrow> string option \<Rightarrow>
   'r router \<Rightarrow> (http_error + upload_reply) \<times> 'r router" where
  "register_blob run uid sha sid tid sz mime fn r =
     (case insert_file uid sha sid tid sz mime fn (Some (fr_now run + file_default_ttl_s (rsettings r)))
             (fr_id run) (fr_now run) (rdb r) of
        Inl e \<Rightarrow> (Inl (500, ''ForeignKeyViolationError''), r)
      | Inr (row, d) \<Rightarrow> (Inr (upload_reply_of run row uid r), r\<lparr>rdb := d\<rparr>))"

definition upload ::
  "'r file_run \<Rightarrow> redis_exists \<Rightarrow> string \<Rightarrow> string list \<Rightarrow> string option \<Rightarrow> string option \<Rightarrow> session_id option \<Rightarrow>
   task_id option \<Rightarrow> 'r router \<Rightarrow> (http_error + upload_reply) \<times> 'r router" where
  "upload run rd header chunks fn mime sid tid r =
     (case principal_from_request (fr_jwt run) rd header (fr_now run) r of
        (Inl e, r1) \<Rightarrow> (Inl e, r1)
      | (Inr p, r1) \<Rightarrow>
          if bad_upload_name fn then (Inl (400, ''filename contains control characters or quotes''), r1)
          else (case hash_with_size_cap (fr_sha run) (max_upload_bytes (rsettings r1)) chunks of
                  Inl n \<Rightarrow> (Inl (too_large n (max_upload_bytes (rsettings r1))), r1)
                | Inr (sha, sz) \<Rightarrow>
                    if sz = 0 then (Inl (400, ''empty upload''), r1)
                    else let r2 = put_blob run sha r1
                         in if (case sid of None \<Rightarrow> False | Some s \<Rightarrow> get_session (sp_user p) s (rdb r2) = None)
                            then (Inl (404, ''session_id not found in caller's tree''), r2)
                            else if (case tid of None \<Rightarrow> False | Some t \<Rightarrow> get_task (sp_user p) t (rdb r2) = None)
                            then (Inl (404, ''task_id not found in caller's tree''), r2)
                            else register_blob run (sp_user p) sha sid tid sz
                                   (if truthy mime then mime else None) fn r2))"

definition upload_with_grant ::
  "'r file_run \<Rightarrow> string \<Rightarrow> string list \<Rightarrow> string option \<Rightarrow> 'r router \<Rightarrow> (http_error + upload_reply) \<times> 'r router" where
  "upload_with_grant run header chunks fn r =
     (case extract_bearer header of
        None \<Rightarrow> (Inl (401, ''missing bearer token''), r)
      | Some tok \<Rightarrow>
          (case lift_token (verify_file_upload_token (fr_jwt run) (router_key r) tok (fr_now run)) of
             Inl e \<Rightarrow> (Inl e, r)
           | Inr g \<Rightarrow>
               if bad_upload_name fn then (Inl (400, ''filename contains control characters or quotes''), r)
               else let cap = min (max_upload_bytes (rsettings r)) (ug_size g)
                    in (case hash_with_size_cap (fr_sha run) cap chunks of
                          Inl n \<Rightarrow> (Inl (too_large n cap), r)
                        | Inr (sha, sz) \<Rightarrow>
                            if sz = 0 then (Inl (400, ''empty upload''), r)
                            else if sha \<noteq> ug_sha g \<or> sz \<noteq> ug_size g
                            then (Inl (400, ''upload does not match grant''), r)
                            else register_blob run (ug_user g) sha None None sz (ug_mime g) fn (put_blob run sha r))))"

section \<open>Names\<close>

definition resolve_scope :: "user_id \<Rightarrow> bool \<Rightarrow> session_id option \<Rightarrow> db \<Rightarrow> http_error + string" where
  "resolve_scope uid persistent sid d =
     (if persistent then Inr (scope_for True (py_or sid ''''))
      else case sid of
             None \<Rightarrow> Inl (400, ''session_id is required for a session-scoped name'')
           | Some s \<Rightarrow>
               if get_session uid s d = None then Inl (404, ''session_id not found in caller's tree'')
               else Inr (scope_for False s))"

text \<open>The steps the four endpoints share: who asks, under which name and in which scope.\<close>

definition with_name ::
  "'r file_run \<Rightarrow> redis_exists \<Rightarrow> string \<Rightarrow> string \<Rightarrow> session_id option \<Rightarrow>
   (user_id \<Rightarrow> string \<Rightarrow> bool \<Rightarrow> string \<Rightarrow> 'r router \<Rightarrow> (http_error + 'a) \<times> 'r router) \<Rightarrow> 'r router \<Rightarrow>
   (http_error + 'a) \<times> 'r router" where
  "with_name run rd header name sid k r =
     (case principal_from_request (fr_jwt run) rd header (fr_now run) r of
        (Inl e, r1) \<Rightarrow> (Inl e, r1)
      | (Inr p, r1) \<Rightarrow>
          (case split_stash_name name of
             None \<Rightarrow> (Inl (400, ''invalid filename''), r1)
           | Some (persistent, bare) \<Rightarrow>
               (case resolve_scope (sp_user p) persistent sid (rdb r1) of
                  Inl e \<Rightarrow> (Inl e, r1)
                | Inr scope \<Rightarrow> k (sp_user p) scope persistent bare r1)))"

definition bind_blob ::
  "'r file_run \<Rightarrow> string \<Rightarrow> dedup \<Rightarrow> user_id \<Rightarrow> string \<Rightarrow> bool \<Rightarrow> string \<Rightarrow> 'r router \<Rightarrow> (http_error + string) \<times> 'r router" where
  "bind_blob run sha dd uid scope persistent bare r =
     (case get_file_by_sha256 uid sha (rdb r) of
        None \<Rightarrow> (Inl (404, ''blob not found''), r)
      | Some blob \<Rightarrow>
          let (ok, r1) = quota_ok uid (worst_add uid scope bare (f_id blob) (f_size blob) (rdb r)) (fr_now run) r
          in if \<not> ok then (Inl (413, ''storage quota exceeded''), r1)
             else (case bind_in_tx run uid scope bare (f_id blob) (f_size blob) dd
                     (\<lambda>saved. file_audit run ''user'' uid ''file.store'' (scope @ ''/'' @ saved)
                        [(''byte_size'', JInt (f_size blob)), (''dedup'', JStr (show_dedup dd))])
                     (fr_env run r1) of
                     (Inl e, r2) \<Rightarrow> (Inl (500, e), r2)
                   | (Inr (Inl err), r2) \<Rightarrow> (Inl (409, err), r2)
                   | (Inr (Inr saved), r2) \<Rightarrow> (Inr (display_name persistent saved), r2)))"

definition bind_name ::
  "'r file_run \<Rightarrow> redis_exists \<Rightarrow> string \<Rightarrow> string \<Rightarrow> string \<Rightarrow> session_id option \<Rightarrow> dedup \<Rightarrow> 'r router \<Rightarrow>
   (http_error + string) \<times> 'r router" where
  "bind_name run rd header name sha sid dd = with_name run rd header name sid (bind_blob run sha dd)"

definition delete_name ::
  "'r file_run \<Rightarrow> redis_exists \<Rightarrow> string \<Rightarrow> string \<Rightarrow> session_id option \<Rightarrow> 'r router \<Rightarrow> (http_error + nat) \<times> 'r router" where
  "delete_name run rd header name sid = with_name run rd header name sid (\<lambda>uid scope persistent bare r.
     let (deleted, d) = delete_file_name uid scope bare (rdb r)
     in (Inr deleted, r\<lparr>rdb := if deleted = 0 then d
                                else file_audit run ''user'' uid ''file.delete'' (scope @ ''/'' @ bare) [] d\<rparr>))"

definition list_names ::
  "'r file_run \<Rightarrow> redis_exists \<Rightarrow> string \<Rightarrow> session_id option \<Rightarrow> bool \<Rightarrow> string option \<Rightarrow> 'r router \<Rightarrow>
   (http_error + string list) \<times> 'r router" where
  "list_names run rd header sid persistent query r =
     (case principal_from_request (fr_jwt run) rd header (fr_now run) r of
        (Inl e, r1) \<Rightarrow> (Inl e, r1)
      | (Inr p, r1) \<Rightarrow>
          (case resolve_scope (sp_user p) persistent sid (rdb r1) of
             Inl e \<Rightarrow> (Inl e, r1)
           | Inr scope \<Rightarrow> (Inr (map (\<lambda>n. display_name persistent (n_name n))
                                (list_file_names (sp_user p) scope query None (rdb r1))), r1)))"

record resolved_name =
  rn_name :: string
  rn_file :: string
  rn_size :: string
  rn_path :: string
  rn_key :: string

definition resolve_name ::
  "'r file_run \<Rightarrow> redis_exists \<Rightarrow> string \<Rightarrow> string \<Rightarrow> session_id option \<Rightarrow> 'r router \<Rightarrow>
   (http_error + resolved_name) \<times> 'r router" where
  "resolve_name run rd header name sid = with_name run rd header name sid (\<lambda>uid scope persistent bare r.
     case resolve_file_name uid scope bare (rdb r) of
       None \<Rightarrow> (Inl (404, ''name not bound''), r)
     | Some row \<Rightarrow> (Inr \<lparr>rn_name = display_name persistent bare, rn_file = n_file row, rn_size = show_int (n_size row),
         rn_path = file_url (n_file row), rn_key = mint_fetch_key run (n_file row) uid r\<rparr>, r))"

section \<open>Downloads\<close>

definition SAFE_RESPONSE_MIME_TYPES :: "string list" where
  "SAFE_RESPONSE_MIME_TYPES = [''application/pdf'', ''application/json'', ''application/octet-stream'', ''application/zip'',
     ''image/png'', ''image/jpeg'', ''image/gif'', ''image/webp'', ''text/plain'', ''text/csv'', ''audio/mpeg'', ''audio/wav'',
     ''audio/ogg'', ''video/mp4'', ''video/webm'']"

definition safe_response_mime :: "string option \<Rightarrow> string" where
  "safe_response_mime mime =
     (if \<not> truthy mime then ''application/octet-stream''
      else let base = map to_lower (strip (before_char CHR '';'' (the mime)))
           in if base \<in> set SAFE_RESPONSE_MIME_TYPES then base else ''application/octet-stream'')"

datatype download_reply =
    Redirect string                           \<comment> \<open>302 to a presigned url\<close>
  | Streamed string string string string      \<comment> \<open>hash of the bytes, media type, disposition, length\<close>

text \<open>
  \<open>presign\<close> is the store's presigned url for a hash, a disposition and a media type, if it
  has any; \<open>audit_up\<close> is false when writing the audit row raises.
\<close>

definition download ::
  "'r file_run \<Rightarrow> redis_exists \<Rightarrow> (string \<Rightarrow> string \<Rightarrow> string \<Rightarrow> string option) \<Rightarrow> bool \<Rightarrow> string \<Rightarrow> string \<Rightarrow> 'r router \<Rightarrow>
   (http_error + download_reply) \<times> 'r router" where
  "download run rd presign audit_up header fid r =
     (case file_read_access (fr_jwt run) rd header (fr_now run) r of
        (Inl e, r1) \<Rightarrow> (Inl e, r1)
      | (Inr access, r1) \<Rightarrow>
          if fra_key_file access \<noteq> None \<and> fra_key_file access \<noteq> Some fid
          then (Inl (403, ''key not valid for this file''), r1)
          else
            (case (if fra_key_file access \<noteq> None then get_file_by_id fid (rdb r1)
                   else get_file (fra_user access) fid (rdb r1)) of
               None \<Rightarrow> (Inl (404, ''file not found''), r1)
             | Some row \<Rightarrow>
                 let r2 = (if audit_up
                       then r1\<lparr>rdb := file_audit run ''user'' (fra_user access) ''file.downloaded'' fid
                              [(''byte_size'', JInt (f_size row)), (''sha256'', JStr (f_sha row))] (rdb r1)\<rparr>
                       else r1);
                     disposition = (if truthy (f_orig row) then safe_filename_for_header (the (f_orig row)) else ''attachment'');
                     safe_mime = safe_response_mime (f_mime row);
                     presigned = (if file_download_presigned (rsettings r2)
                       then presign (f_sha row) disposition safe_mime else None)
                 in (Inr (if truthy presigned then Redirect (the presigned)
                          else Streamed (f_sha row) safe_mime disposition (show_int (f_size row))), r2)))"

section \<open>Properties\<close>

lemma hash_loop_fits:
  assumes "\<forall>c\<in>set chunks. c \<noteq> []" "int (length (read @ concat chunks)) \<le> max_bytes"
  shows "hash_loop sha max_bytes (int (length read)) read chunks =
    Inr (sha (read @ concat chunks), int (length (read @ concat chunks)))"
  using assms
proof (induction chunks arbitrary: read)
  case (Cons c cs)
  from Cons.IH [of "read @ c"] Cons.prems show ?case by (simp add: Let_def)
qed simp

lemma hash_loop_exceeds:
  assumes "\<forall>c\<in>set chunks. c \<noteq> []" "int (length read) \<le> max_bytes" "max_bytes < int (length (read @ concat chunks))"
  shows "\<exists>n. hash_loop sha max_bytes (int (length read)) read chunks = Inl n"
  using assms
proof (induction chunks arbitrary: read)
  case (Cons c cs)
  from Cons.IH [of "read @ c"] Cons.prems show ?case by (simp add: Let_def not_less)
qed simp

lemma hash_loop_observed:
  assumes "hash_loop sha max_bytes sz read chunks = Inl n" "\<forall>c\<in>set chunks. int (length c) \<le> k" "sz \<le> max_bytes"
  shows "max_bytes < n \<and> n \<le> max_bytes + k"
  using assms by (induction chunks arbitrary: sz read) (auto simp: Let_def split: if_splits)

text \<open>
  Reading in chunks is reading the whole: the capped loop accepts a body exactly
  when it is within the cap, with the hash and length of the whole body; and when it refuses,
  it has read at most one chunk past the cap.
\<close>

theorem size_cap_exact:
  assumes "\<forall>c\<in>set chunks. c \<noteq> [] \<and> int (length c) \<le> k" "0 \<le> max_bytes"
  shows "(case hash_with_size_cap sha max_bytes chunks of
      Inr x \<Rightarrow> int (length (concat chunks)) \<le> max_bytes \<and> x = (sha (concat chunks), int (length (concat chunks)))
    | Inl n \<Rightarrow> max_bytes < int (length (concat chunks)) \<and> max_bytes < n \<and> n \<le> max_bytes + k)"
proof -
  have c: "\<forall>c\<in>set chunks. c \<noteq> []" "\<forall>c\<in>set chunks. int (length c) \<le> k" using assms(1) by auto
  show ?thesis
  proof (cases "int (length (concat chunks)) \<le> max_bytes")
    case True
    with hash_loop_fits [OF c(1), of "[]" max_bytes sha] show ?thesis by (simp add: hash_with_size_cap_def)
  next
    case False
    with hash_loop_exceeds [OF c(1), of "[]" max_bytes sha] assms(2) obtain n where
      n: "hash_loop sha max_bytes 0 [] chunks = Inl n" by auto
    with hash_loop_observed [OF n c(2) assms(2)] False show ?thesis by (simp add: hash_with_size_cap_def)
  qed
qed

theorem size_cap_exact_witness:
  "hash_with_size_cap (\<lambda>s. s) 5 [''ab'', ''cd''] = Inr (''abcd'', 4) \<and> hash_with_size_cap (\<lambda>s. s) 5 [''abc'', ''def'', ''gh''] = Inl 6 \<and>
   (6 :: int) \<le> 5 + 3"
  using size_cap_exact [of "[''ab'', ''cd'']" 2 5 "\<lambda>s. s"] size_cap_exact [of "[''abc'', ''def'', ''gh'']" 3 5 "\<lambda>s. s"]
  by (simp add: hash_with_size_cap_def)

lemma find_snoc: "find P xs = None \<Longrightarrow> find P (xs @ [x]) = (if P x then Some x else None)"
  by (induction xs) (auto split: if_splits)

lemma register_blob_Inr:
  assumes "register_blob run uid sha sid tid sz mime fn r = (Inr reply, r')"
  shows "\<exists>row. get_file_by_sha256 uid sha (rdb r') = Some row \<and> ur_file reply = f_id row \<and> ur_sha reply = sha \<and>
    blobs r' = blobs r"
proof -
  obtain row d where i: "insert_file uid sha sid tid sz mime fn (Some (fr_now run + file_default_ttl_s (rsettings r)))
      (fr_id run) (fr_now run) (rdb r) = Inr (row, d)" "r' = r\<lparr>rdb := d\<rparr>" "reply = upload_reply_of run row uid r"
    using assms by (auto simp: register_blob_def split: sum.splits)
  have "get_file_by_sha256 uid sha d = Some row"
    using i(1) by (auto simp: insert_file_def Let_def get_file_by_sha256_def find_snoc split: option.splits if_splits)
  moreover from this have "f_sha row = sha" by (auto simp: get_file_by_sha256_def dest: find_SomeD)
  ultimately show ?thesis using i by (simp add: upload_reply_of_def)
qed

text \<open>
  A grant uploads what it was granted for: an upload it authorises has exactly
  the granted length and hash, and registers the granted content for the granted user.
\<close>

theorem grant_upload_bound:
  assumes "upload_with_grant run header chunks fn r = (Inr reply, r')" "\<forall>c\<in>set chunks. c \<noteq> []"
  shows "\<exists>tok g row. extract_bearer header = Some tok \<and>
    verify_file_upload_token (fr_jwt run) (router_key r) tok (fr_now run) = Inr g \<and>
    fr_sha run (concat chunks) = ug_sha g \<and> int (length (concat chunks)) = ug_size g \<and>
    ug_size g \<le> max_upload_bytes (rsettings r) \<and>
    get_file_by_sha256 (ug_user g) (ug_sha g) (rdb r') = Some row \<and> ur_file reply = f_id row"
proof -
  obtain tok g sha sz where t: "extract_bearer header = Some tok"
    "verify_file_upload_token (fr_jwt run) (router_key r) tok (fr_now run) = Inr g"
    "hash_with_size_cap (fr_sha run) (min (max_upload_bytes (rsettings r)) (ug_size g)) chunks = Inr (sha, sz)"
    "sha = ug_sha g" "sz = ug_size g" "sz \<noteq> 0"
    "register_blob run (ug_user g) sha None None sz (ug_mime g) fn (put_blob run sha r) = (Inr reply, r')"
    using assms(1) by (auto simp: upload_with_grant_def lift_token_def Let_def split: option.splits sum.splits if_splits prod.splits)
  define cap where "cap = min (max_upload_bytes (rsettings r)) (ug_size g)"
  note h = t(3) [folded cap_def, unfolded hash_with_size_cap_def]
  have cap: "0 \<le> cap" "int (length (concat chunks)) \<le> cap"
  proof -
    show "0 \<le> cap" using h assms(2) t(6) by (cases chunks) (auto simp: Let_def split: if_splits)
    then show "int (length (concat chunks)) \<le> cap"
      using hash_loop_exceeds [OF assms(2), of "[]" cap "fr_sha run"] h by (auto simp: not_le [symmetric])
  qed
  with hash_loop_fits [OF assms(2), of "[]" cap "fr_sha run"] h
  have "sha = fr_sha run (concat chunks)" "sz = int (length (concat chunks))" by simp_all
  with register_blob_Inr [OF t(7)] t(1-5) cap show ?thesis unfolding cap_def by auto
qed

definition demo_grant_claims :: claims where
  "demo_grant_claims = [(''iss'', JStr ''bp_router''), (''sub'', JStr ''u''), (''iat'', JInt 0), (''exp'', JInt 99),
     (''kind'', JStr ''file-upload''), (''sha'', JStr ''hello''), (''sz'', JInt 5), (''mt'', JNull), (''kver'', JInt 1),
     (''jti'', JStr ''j'')]"

text \<open>A library under which one token verifies, to the given claims.\<close>

definition one_token :: "claims \<Rightarrow> string jwt_lib" where
  "one_token c = \<lparr>jw_encode = (\<lambda>c s a. ''key''), jw_decode = (\<lambda>t s a i q n.
     if t = ''tok'' then Inr c else Inl (InvalidToken ''x''))\<rparr>"

definition grant_run :: "unit file_run" where
  "grant_run = demo_run\<lparr>fr_jwt := one_token demo_grant_claims\<rparr>"

theorem grant_upload_bound_witness:
  "\<exists>reply r' row. upload_with_grant grant_run ''Bearer tok'' [''hel'', ''lo''] None demo_store = (Inr reply, r') \<and>
     get_file_by_sha256 ''u'' ''hello'' (rdb r') = Some row \<and> ur_file reply = f_id row"
proof -
  let ?u = "upload_with_grant grant_run ''Bearer tok'' [''hel'', ''lo''] None demo_store"
  have "isl (fst ?u) = False" by code_simp
  then obtain reply r' where u: "?u = (Inr reply, r')" by (cases ?u; cases "fst ?u") auto
  have b: "extract_bearer ''Bearer tok'' = Some ''tok''" by code_simp
  have g: "map_sum (\<lambda>x. x) (\<lambda>g. (ug_user g, ug_sha g))
      (verify_file_upload_token (fr_jwt grant_run) (router_key demo_store) ''tok'' (fr_now grant_run)) = Inr (''u'', ''hello'')"
    by code_simp
  from grant_upload_bound [OF u] b g show ?thesis using u by auto
qed

lemma mime_safe: "safe_response_mime m \<in> set SAFE_RESPONSE_MIME_TYPES"
  by (simp add: safe_response_mime_def Let_def) (simp add: SAFE_RESPONSE_MIME_TYPES_def)

lemma disposition_attachment: "take 10 (safe_filename_for_header n) = ''attachment''"
  by (simp add: safe_filename_for_header_def Let_def)


definition demo_fetch_claims :: claims where
  "demo_fetch_claims = [(''iss'', JStr ''bp_router''), (''sub'', JStr ''v''), (''iat'', JInt 0), (''exp'', JInt 99),
     (''kind'', JStr ''file-fetch''), (''fid'', JStr ''f1''), (''kver'', JInt 1), (''jti'', JStr ''j'')]"

definition fetch_run :: "unit file_run" where
  "fetch_run = demo_run\<lparr>fr_jwt := one_token demo_fetch_claims\<rparr>"


text \<open>
  A refused upload leaves bytes behind: the session of an upload is checked after
  its bytes are put to the store, so a request that names a session that is not the caller's
  is refused with 404 although its bytes are now stored, without a row.
\<close>

theorem refused_upload_leaks_bytes:
  assumes "principal_from_request (fr_jwt run) rd header (fr_now run) r = (Inr p, r)" "fr_env run = id"
    "\<not> bad_upload_name fn" "hash_with_size_cap (fr_sha run) (max_upload_bytes (rsettings r)) chunks = Inr (sha, sz)" "sz \<noteq> 0"
    "get_session (sp_user p) sid (rdb r) = None"
  shows "upload run rd header chunks fn mime (Some sid) tid r =
    (Inl (404, ''session_id not found in caller's tree''), r\<lparr>blobs := List.insert sha (blobs r)\<rparr>)"
  using assms by (simp add: upload_def put_blob_def Let_def)

definition demo_session_claims :: claims where
  "demo_session_claims = [(''iss'', JStr ''bp_router''), (''sub'', JStr ''u''), (''iat'', JInt 0), (''exp'', JInt 99),
     (''kind'', JStr ''session''), (''level'', JStr ''tier1''), (''kver'', JInt 1), (''jti'', JStr ''j'')]"

definition session_run :: "unit file_run" where
  "session_run = demo_run\<lparr>fr_jwt := one_token demo_session_claims\<rparr>"

lemma session_principal:
  "principal_from_request (fr_jwt session_run) None ''Bearer tok'' (fr_now session_run) demo_store =
   (Inr \<lparr>sp_user = ''u'', sp_level = ''tier1'', sp_expires = 99, sp_jti = ''j''\<rparr>, demo_store)"
proof -
  have b: "extract_bearer ''Bearer tok'' = Some ''tok''" by code_simp
  have v: "verify_token (fr_jwt session_run) (router_key demo_store) ''tok'' ''session'' None (fr_now session_run) =
     Inr demo_session_claims" by code_simp
  have j: "str_claim demo_session_claims ''jti'' = Inr ''j''" by code_simp
  have p: "principal_of_claims demo_session_claims ''j'' (fr_now session_run) demo_store =
     Inr \<lparr>sp_user = ''u'', sp_level = ''tier1'', sp_expires = 99, sp_jti = ''j''\<rparr>" by code_simp
  show ?thesis by (simp add: principal_from_request_def b v p j lift_token_def is_jti_revoked_def)
qed

theorem refused_upload_leaks_bytes_witness:
  "let (x, r') = upload session_run None ''Bearer tok'' [''hello''] None None (Some ''nobody'') None demo_store
   in isl x \<and> ''hello'' \<in> set (blobs r') \<and> files (rdb r') = files (rdb demo_store)"
proof -
  have "get_session ''u'' ''nobody'' (rdb demo_store) = None" by code_simp
  moreover have "hash_with_size_cap (fr_sha session_run) (max_upload_bytes (rsettings demo_store)) [''hello''] = Inr (''hello'', 5)" by code_simp
  moreover have "fr_env session_run = id" "\<not> bad_upload_name None"
    by (simp_all add: session_run_def demo_run_def bad_upload_name_def)
  ultimately show ?thesis
    using refused_upload_leaks_bytes [OF session_principal, of None "[''hello'']" "''hello''" 5 "''nobody''" None None] by simp
qed

end
