(* ===== verification/Gc.thy ===== *)
theory Gc
  imports FileApi
begin

text \<open>
  The background sweeps of \<open>bp_router/tasks.py\<close> over stored data: \<open>_gc_files_once\<close>, which
  reclaims expired blobs no name points at, and the two session sweeps.  A sweep stops at the
  first exception (\<open>Inl\<close>), keeping what it has committed.
\<close>

section \<open>Blobs\<close>

text \<open>
  What goes on around a sweep: \<open>gc_env\<close> before every transaction, \<open>gc_race\<close> between the last
  check and the deletion of the bytes; whether the check and the store answer.
\<close>

record 'r gc_run =
  gc_env :: "'r router \<Rightarrow> 'r router"
  gc_race :: "'r router \<Rightarrow> 'r router"
  gc_check_up :: "string \<Rightarrow> bool"
  gc_store_up :: "string \<Rightarrow> bool"

definition GC_BATCH :: nat where
  "GC_BATCH = 1000"

text \<open>One transaction per row; the rows whose bytes nobody else refers to are collected.\<close>

fun gc_rows :: "'r gc_run \<Rightarrow> file_row list \<Rightarrow> 'r router \<Rightarrow> (db_error + (string \<times> string) list) \<times> 'r router" where
  "gc_rows g [] r = (Inr [], r)"
| "gc_rows g (f # fs) r =
     (let r1 = gc_env g r
      in case delete_file_row (f_id f) (rdb r1) of
           Inl e \<Rightarrow> (Inl e, r1)
         | Inr d \<Rightarrow>
             let other_refs = count_other_file_refs (f_sha f) (f_id f) d
             in case gc_rows g fs (r1\<lparr>rdb := d\<rparr>) of
                  (Inl e, r2) \<Rightarrow> (Inl e, r2)
                | (Inr xs, r2) \<Rightarrow> (Inr (if 0 < other_refs then xs else (f_id f, f_sha f) # xs), r2))"

fun gc_storage :: "'r gc_run \<Rightarrow> (string \<times> string) list \<Rightarrow> 'r router \<Rightarrow> 'r router" where
  "gc_storage g [] r = r"
| "gc_storage g ((fid, sha) # xs) r =
     (let r1 = gc_env g r
      in if \<not> gc_check_up g fid then gc_storage g xs r1
         else if 0 < count_other_file_refs sha fid (rdb r1) then gc_storage g xs r1
         else let r2 = gc_race g r1
              in gc_storage g xs (if gc_store_up g sha then r2\<lparr>blobs := removeAll sha (blobs r2)\<rparr> else r2))"

definition gc_files_once :: "'r gc_run \<Rightarrow> time \<Rightarrow> 'r router \<Rightarrow> (db_error + nat) \<times> 'r router" where
  "gc_files_once g now r =
     (let rows = find_expired_files now GC_BATCH (rdb r)
      in case gc_rows g rows r of
           (Inl e, r1) \<Rightarrow> (Inl e, r1)
         | (Inr xs, r1) \<Rightarrow> (Inr (length rows), gc_storage g xs r1))"

section \<open>Sessions\<close>

definition days :: "int \<Rightarrow> time" where
  "days n = of_int (86400 * n)"

definition closed_for_purge :: "time \<Rightarrow> db \<Rightarrow> session_row \<Rightarrow> bool" where
  "closed_for_purge cutoff d s \<longleftrightarrow>
     (case s_closed s of None \<Rightarrow> False | Some c \<Rightarrow> c < cutoff) \<and>
     \<not> list_ex (\<lambda>t. t_session t = s_id s \<and> t_state t \<in> {QUEUED, RUNNING, WAITING_CHILDREN}) (tasks d)"

text \<open>One transaction per session found; \<open>env\<close> is what others commit before it.\<close>

fun purge_each ::
  "(audit_row \<Rightarrow> string) \<Rightarrow> (db \<Rightarrow> db) \<Rightarrow> time \<Rightarrow> session_row list \<Rightarrow> db \<Rightarrow> (db_error + nat) \<times> db" where
  "purge_each digest env now [] d = (Inr 0, d)"
| "purge_each digest env now (s # ss) d =
     (case purge_session (s_user s) (s_id s) (env d) of
        Inl e \<Rightarrow> (Inl e, env d)
      | Inr (removed, d1) \<Rightarrow>
          let d2 = (if removed then append_audit_event digest ''system'' (Some ''session_gc'') ''session.purged''
                      (Some ''session'') (Some (s_id s)) None now d1 else d1)
          in (case purge_each digest env now ss d2 of
                (Inl e, d3) \<Rightarrow> (Inl e, d3)
              | (Inr n, d3) \<Rightarrow> (Inr (n + of_bool removed), d3)))"

definition gc_closed_sessions ::
  "(audit_row \<Rightarrow> string) \<Rightarrow> (db \<Rightarrow> db) \<Rightarrow> int \<Rightarrow> nat \<Rightarrow> time \<Rightarrow> db \<Rightarrow> (db_error + nat) \<times> db" where
  "gc_closed_sessions digest env retention_days batch now d =
     (let rows = take batch (sort_key (\<lambda>s. the (s_closed s))
                   (filter (closed_for_purge (now - days retention_days) d) (sessions d)))
      in purge_each digest env now rows d)"

definition admin_test_stale :: "time \<Rightarrow> db \<Rightarrow> session_row \<Rightarrow> bool" where
  "admin_test_stale cutoff d s \<longleftrightarrow> map_of (s_metadata s) ''kind'' = Some (JStr ''admin_test'') \<and> s_opened s < cutoff \<and>
     \<not> list_ex (\<lambda>t. t_session t = s_id s) (tasks d)"

text \<open>One \<open>DELETE\<close>; blobs may still point at a session it deletes.\<close>

definition gc_admin_test_sessions :: "int \<Rightarrow> time \<Rightarrow> db \<Rightarrow> db_error + nat \<times> db" where
  "gc_admin_test_sessions retention_days now d =
     (let hit = admin_test_stale (now - days retention_days) d
      in if list_ex (\<lambda>s. hit s \<and> list_ex (\<lambda>f. f_session f = Some (s_id s)) (files d)) (sessions d)
         then Inl (ForeignKeyViolation ''files'')
         else Inr (length (filter hit (sessions d)), d\<lparr>sessions := filter (\<lambda>s. \<not> hit s) (sessions d)\<rparr>))"

text \<open>One cycle of \<open>session_gc_loop\<close>; an exception ends the cycle and is logged.\<close>

definition session_gc_cycle :: "(audit_row \<Rightarrow> string) \<Rightarrow> (db \<Rightarrow> db) \<Rightarrow> int \<Rightarrow> int \<Rightarrow> time \<Rightarrow> db \<Rightarrow> db" where
  "session_gc_cycle digest env retention_days closed_retention_days now d =
     (case gc_admin_test_sessions retention_days now d of
        Inl e \<Rightarrow> d
      | Inr (n, d1) \<Rightarrow>
          if 0 < closed_retention_days then snd (gc_closed_sessions digest env closed_retention_days 200 now d1) else d1)"

section \<open>Reclaiming blobs\<close>

definition quiet :: "'r gc_run \<Rightarrow> bool" where
  "quiet g \<longleftrightarrow> gc_env g = id \<and> gc_race g = id \<and> gc_check_up g = (\<lambda>_. True) \<and> gc_store_up g = (\<lambda>_. True)"

lemma quietD: "quiet g \<Longrightarrow> gc_env g = id" "quiet g \<Longrightarrow> gc_race g = id"
  "quiet g \<Longrightarrow> gc_check_up g = (\<lambda>_. True)" "quiet g \<Longrightarrow> gc_store_up g = (\<lambda>_. True)"
  by (simp_all add: quiet_def)

text \<open>Without interleaving the rows all go, and the bytes listed are those of hashes left without a row.\<close>

lemma gc_rows_quiet:
  assumes "quiet g" "\<forall>f\<in>set fs. \<forall>n\<in>set (names (rdb r)). n_file n \<noteq> f_id f" "set fs \<subseteq> set (files (rdb r))"
    "distinct (map f_id fs)" "tbl_ok f_id (files (rdb r))"
  shows "\<exists>xs. gc_rows g fs r = (Inr xs, r\<lparr>rdb := rdb r\<lparr>files := filter (\<lambda>f. f_id f \<notin> f_id ` set fs) (files (rdb r))\<rparr>\<rparr>) \<and>
    snd ` set xs = {sha \<in> f_sha ` set fs. \<forall>f\<in>set (files (rdb r)). f_sha f = sha \<longrightarrow> f_id f \<in> f_id ` set fs}"
  using assms(2-5)
proof (induction fs arbitrary: r)
  case (Cons f fs)
  let ?d = "rdb r\<lparr>files := tbl_del f_id (f_id f) (files (rdb r))\<rparr>" and ?r = "r\<lparr>rdb := rdb r\<lparr>files := tbl_del f_id (f_id f) (files (rdb r))\<rparr>\<rparr>"
  have del: "delete_file_row (f_id f) (rdb r) = Inr ?d"
    using Cons.prems(1) by (auto simp: delete_file_row_def list_ex_iff)
  have td: "set (files ?d) = {g \<in> set (files (rdb r)). f_id g \<noteq> f_id f}" by (auto simp: tbl_del_def)
  have "tbl_ok f_id (files (rdb ?r))" using Cons.prems(4) by (simp add: tbl_ok_def tbl_del_def distinct_map_filter)
  moreover have "set fs \<subseteq> set (files (rdb ?r))" using Cons.prems(2,3) td by (auto simp: image_iff)
  ultimately obtain xs where xs: "gc_rows g fs ?r = (Inr xs, ?r\<lparr>rdb := rdb ?r\<lparr>files := filter (\<lambda>h. f_id h \<notin> f_id ` set fs) (files (rdb ?r))\<rparr>\<rparr>)"
    "snd ` set xs = {sha \<in> f_sha ` set fs. \<forall>h\<in>set (files (rdb ?r)). f_sha h = sha \<longrightarrow> f_id h \<in> f_id ` set fs}"
    using Cons.IH [of ?r] Cons.prems(1,3) by auto
  have refs: "0 < count_other_file_refs (f_sha f) (f_id f) ?d \<longleftrightarrow> (\<exists>h\<in>set (files (rdb r)). f_sha h = f_sha f \<and> f_id h \<noteq> f_id f)"
    using td by (auto simp: count_other_file_refs_def filter_empty_conv)
  let ?ys = "if 0 < count_other_file_refs (f_sha f) (f_id f) ?d then xs else (f_id f, f_sha f) # xs"
  have "filter (\<lambda>h. f_id h \<notin> f_id ` set fs) (files ?d) = filter (\<lambda>h. f_id h \<notin> f_id ` set (f # fs)) (files (rdb r))"
    by (simp add: tbl_del_def)
  then have "gc_rows g (f # fs) r = (Inr ?ys, r\<lparr>rdb := rdb r\<lparr>files := filter (\<lambda>h. f_id h \<notin> f_id ` set (f # fs)) (files (rdb r))\<rparr>\<rparr>)"
    using del xs(1) by (simp add: quietD [OF assms(1)] Let_def)
  moreover have "snd ` set ?ys = {sha \<in> f_sha ` set (f # fs). \<forall>h\<in>set (files (rdb r)). f_sha h = sha \<longrightarrow> f_id h \<in> f_id ` set (f # fs)}"
  proof (rule set_eqI)
    fix sha
    have inj: "h = h'" if "h \<in> set (files (rdb r))" "h' \<in> set (files (rdb r))" "f_id h = f_id h'" for h h'
      using Cons.prems(4) that by (auto simp: tbl_ok_def distinct_map inj_on_def)
    have in_fs: "f_sha h \<in> f_sha ` set fs" if "h \<in> set (files (rdb r))" "f_id h \<in> f_id ` set fs" for h
      using that inj Cons.prems(2) by (metis (no_types, lifting) image_iff in_mono list.set_intros(2))
    have S: "sha \<in> snd ` set xs \<longleftrightarrow> sha \<in> f_sha ` set fs \<and>
        (\<forall>h\<in>set (files (rdb r)). f_sha h = sha \<longrightarrow> f_id h \<in> f_id ` set (f # fs))"
      unfolding xs(2) using td by auto
    show "sha \<in> snd ` set ?ys \<longleftrightarrow> sha \<in> {sha \<in> f_sha ` set (f # fs). \<forall>h\<in>set (files (rdb r)). f_sha h = sha \<longrightarrow> f_id h \<in> f_id ` set (f # fs)}"
    proof (cases "sha = f_sha f")
      case False
      then show ?thesis using S by auto
    next
      case True
      show ?thesis
      proof (cases "0 < count_other_file_refs (f_sha f) (f_id f) ?d")
        case pos: True
        then obtain h where h: "h \<in> set (files (rdb r))" "f_sha h = f_sha f" "f_id h \<noteq> f_id f" using refs by blast
        then have "f_id h \<in> f_id ` set fs \<Longrightarrow> sha \<in> f_sha ` set fs" using in_fs True by metis
        then show ?thesis using S h pos True by auto
      next
        case zero: False
        then show ?thesis using refs True by auto
      qed
    qed
  qed
  ultimately show ?case by blast
qed simp

lemma gc_storage_quiet:
  assumes "quiet g" "\<forall>x\<in>set xs. \<forall>f\<in>set (files (rdb r)). f_sha f \<noteq> snd x"
  shows "gc_storage g xs r = r\<lparr>blobs := filter (\<lambda>sha. sha \<notin> snd ` set xs) (blobs r)\<rparr>"
  using assms(2)
proof (induction xs arbitrary: r)
  case (Cons x xs)
  obtain fid sha where x: "x = (fid, sha)" by (cases x)
  have "count_other_file_refs sha fid (rdb r) = 0"
    using Cons.prems x by (auto simp: count_other_file_refs_def filter_empty_conv)
  moreover have "filter (\<lambda>s. s \<notin> snd ` set xs) (removeAll sha (blobs r)) = filter (\<lambda>s. s \<notin> snd ` set (x # xs)) (blobs r)"
    by (auto simp: x removeAll_filter_not_eq intro: filter_cong)
  ultimately show ?case using Cons.IH [of "r\<lparr>blobs := removeAll sha (blobs r)\<rparr>"] Cons.prems
    by (simp add: x quietD [OF assms(1)] Let_def)
qed simp

definition reclaimable :: "time \<Rightarrow> db \<Rightarrow> file_row \<Rightarrow> bool" where
  "reclaimable now d f \<longleftrightarrow> (\<exists>e. f_expires f = Some e \<and> e < now) \<and> (\<forall>n\<in>set (names d). n_file n \<noteq> f_id f)"

lemma find_expired_eq:
  "find_expired_files now limit d = take limit (sort_key (\<lambda>f. the (f_expires f)) (filter (reclaimable now d) (files d)))"
proof -
  have "(\<lambda>f. (case f_expires f of None \<Rightarrow> False | Some e \<Rightarrow> e < now) \<and> \<not> list_ex (\<lambda>n. n_file n = f_id f) (names d)) =
      reclaimable now d"
    by (auto simp: reclaimable_def fun_eq_iff list_ex_iff split: option.split)
  then show ?thesis by (simp add: find_expired_files_def)
qed

lemma find_expired_facts:
  assumes "tbl_ok f_id (files d)"
  shows "set (find_expired_files now limit d) \<subseteq> {f \<in> set (files d). reclaimable now d f}"
    "distinct (map f_id (find_expired_files now limit d))"
    "length (filter (reclaimable now d) (files d)) \<le> limit \<Longrightarrow>
      set (find_expired_files now limit d) = {f \<in> set (files d). reclaimable now d f}"
proof -
  let ?s = "sort_key (\<lambda>f. the (f_expires f)) (filter (reclaimable now d) (files d))"
  show "set (find_expired_files now limit d) \<subseteq> {f \<in> set (files d). reclaimable now d f}"
    unfolding find_expired_eq using set_take_subset [of limit ?s] by auto
  have "inj_on f_id (set (files d))" "distinct (files d)" using assms by (auto simp: tbl_ok_def distinct_map)
  then have "distinct (map f_id ?s)" by (auto simp: distinct_map intro: inj_on_subset)
  then show "distinct (map f_id (find_expired_files now limit d))"
    unfolding find_expired_eq by (simp add: take_map [symmetric] distinct_take)
  show "set (find_expired_files now limit d) = {f \<in> set (files d). reclaimable now d f}"
    if "length (filter (reclaimable now d) (files d)) \<le> limit"
    unfolding find_expired_eq using that by auto
qed


definition demo_gc :: "unit gc_run" where
  "demo_gc = \<lparr>gc_env = id, gc_race = id, gc_check_up = (\<lambda>_. True), gc_store_up = (\<lambda>_. True)\<rparr>"

text \<open>User \<open>u\<close> has a named blob \<open>f1\<close> and two blobs without a name, all long expired.\<close>

definition gc_store :: "unit router" where
  "gc_store = demo_store\<lparr>blobs := [''x'', ''y'', ''z'']\<rparr>"


text \<open>
  The recheck before deleting bytes does not protect an upload in progress: its
  bytes are put to the store before its row is written, so a sweep of an expired row with the
  same hash in between deletes them, and the upload succeeds with a row whose bytes are gone.
\<close>

theorem gc_deletes_bytes_of_upload:
  "let gc = (\<lambda>r. snd (gc_files_once demo_gc 50 r));
       (x, r') = upload_with_grant (grant_run\<lparr>fr_env := gc\<rparr>) ''Bearer tok'' [''hello''] None
         (gc_store\<lparr>rdb := (rdb gc_store)\<lparr>users := users (rdb gc_store) @ [\<lparr>u_id = ''v'', u_level = ''tier1'', u_suspended = None, u_deleted = None, u_email = None, u_auth_kind = ''password'', u_secret = None,
       u_serviced_by = [], u_purged = None\<rparr>],
            files := [\<lparr>f_id = ''f5'', f_sha = ''hello'', f_user = ''v'', f_session = None, f_task = None, f_size = 5,
                f_mime = None, f_orig = None, f_created = 0, f_expires = Some 9\<rparr>], names := []\<rparr>, blobs := [''hello'']\<rparr>)
   in \<not> isl x \<and> map f_sha (files (rdb r')) = [''hello''] \<and> ''hello'' \<notin> set (blobs r')"
  by code_simp

text \<open>
  A sweep that is interrupted by an exception forgets the bytes it was to delete:
  when a name is bound to a later row of the batch after the batch was read, deleting that row
  violates the foreign key, and the bytes of the rows already deleted stay without any row.
\<close>

theorem gc_abort_leaks_bytes:
  "let env = (\<lambda>r. if length (files (rdb r)) = 3 then r
                   else r\<lparr>rdb := (case insert_file_name ''u'' ''persist'' ''late'' ''f3'' 40 50 (rdb r) of
                                     Inl e \<Rightarrow> rdb r | Inr (b, d) \<Rightarrow> d)\<rparr>);
       (x, r') = gc_files_once (demo_gc\<lparr>gc_env := env\<rparr>) 50 gc_store
   in isl x \<and> map f_sha (files (rdb r')) = [''x'', ''z''] \<and> ''y'' \<in> set (blobs r')"
  by code_simp

section \<open>Purging sessions\<close>

lemma purge_session_effect:
  assumes "purge_session uid sid d = Inr (b, d')"
  shows "sessions d' = filter (\<lambda>s. \<not> owns_session uid sid s) (sessions d)"
    "tasks d' = filter (\<lambda>t. \<not> (t_session t = sid \<and> t_user t = uid)) (tasks d)"
    "names d' = filter (\<lambda>n. \<not> (n_user n = uid \<and> n_scope n = ''session:'' @ sid)) (names d)"
  using assms by (auto simp: purge_session_def Let_def delete_file_names_for_scope_def split: if_splits)

text \<open>What a purge of sessions found eligible may take with it.\<close>

definition spares :: "session_row set \<Rightarrow> db \<Rightarrow> db \<Rightarrow> bool" where
  "spares S d d' \<longleftrightarrow>
     set (sessions d') \<subseteq> set (sessions d) \<and> set (tasks d') \<subseteq> set (tasks d) \<and> set (names d') \<subseteq> set (names d) \<and>
     (\<forall>s\<in>set (sessions d) - set (sessions d'). \<exists>s'\<in>S. s_id s = s_id s') \<and>
     (\<forall>t\<in>set (tasks d) - set (tasks d'). \<exists>s'\<in>S. t_session t = s_id s') \<and>
     (\<forall>n\<in>set (names d) - set (names d'). \<exists>s'\<in>S. n_user n = s_user s' \<and> n_scope n = ''session:'' @ s_id s')"

lemma spares_refl [simp]: "spares S d d"
  by (simp add: spares_def)

lemma spares_trans: "spares S d e \<Longrightarrow> spares S e f \<Longrightarrow> spares S d f"
proof -
  assume a: "spares S d e" and b: "spares S e f"
  note a' = a [unfolded spares_def] and b' = b [unfolded spares_def]
  have "\<exists>s'\<in>S. s_id s = s_id s'" if "s \<in> set (sessions d) - set (sessions f)" for s
    using a' b' that by (cases "s \<in> set (sessions e)") simp_all
  moreover have "\<exists>s'\<in>S. t_session t = s_id s'" if "t \<in> set (tasks d) - set (tasks f)" for t
    using a' b' that by (cases "t \<in> set (tasks e)") simp_all
  moreover have "\<exists>s'\<in>S. n_user n = s_user s' \<and> n_scope n = ''session:'' @ s_id s'" if "n \<in> set (names d) - set (names f)" for n
    using a' b' that by (cases "n \<in> set (names e)") simp_all
  ultimately show ?thesis using a' b' unfolding spares_def by (meson subset_trans)
qed

lemma sparesD:
  assumes "spares S d d'"
  shows "s \<in> set (sessions d) - set (sessions d') \<Longrightarrow> \<exists>s'\<in>S. s_id s = s_id s'"
    "t \<in> set (tasks d) - set (tasks d') \<Longrightarrow> \<exists>s'\<in>S. t_session t = s_id s'"
    "n \<in> set (names d) - set (names d') \<Longrightarrow> \<exists>s'\<in>S. n_user n = s_user s' \<and> n_scope n = ''session:'' @ s_id s'"
  using assms unfolding spares_def by simp_all

lemma spares_audit [simp]: "spares S d (append_audit_event digest k a e tk t p now d') = spares S d d'"
  by (simp add: spares_def)

lemma spares_purge: "purge_session (s_user s) (s_id s) d = Inr (b, d') \<Longrightarrow> s \<in> S \<Longrightarrow> spares S d d'"
proof -
  assume "purge_session (s_user s) (s_id s) d = Inr (b, d')" and s: "s \<in> S"
  note e = purge_session_effect [OF this(1)]
  show ?thesis unfolding spares_def e using s by (auto simp: owns_session_def)
qed

lemma spares_purge_each:
  "purge_each digest env now ss d = (x, d') \<Longrightarrow> set ss \<subseteq> S \<Longrightarrow> (\<And>e. env e = e) \<Longrightarrow> spares S d d'"
proof (induction ss arbitrary: d x d')
  case (Cons s ss)
  show ?case
  proof (cases "purge_session (s_user s) (s_id s) d")
    case (Inl e)
    then show ?thesis using Cons.prems by (simp add: Cons.prems(3) [of d])
  next
    case (Inr y)
    obtain b d1 where y: "y = (b, d1)" by (cases y)
    let ?d2 = "if b then append_audit_event digest ''system'' (Some ''session_gc'') ''session.purged''
                      (Some ''session'') (Some (s_id s)) None now d1 else d1"
    obtain z d3 where z: "purge_each digest env now ss ?d2 = (z, d3)" by (cases "purge_each digest env now ss ?d2")
    have "d' = d3" using Cons.prems(1) Inr y z by (auto simp: Let_def Cons.prems(3) [of d] split: sum.splits)
    moreover have "spares S d ?d2" using spares_purge Inr y Cons.prems(2) by auto
    moreover have "spares S ?d2 d3" using Cons.IH [OF z _ Cons.prems(3)] Cons.prems(2) by simp
    ultimately show ?thesis using spares_trans by blast
  qed
qed simp

text \<open>
  Purging is conservative: uninterrupted, the sweep removes only sessions closed
  longer than the retention without a live task, only terminal tasks, and no name of the
  user-wide scope.
\<close>

theorem closed_gc_conservative:
  assumes "db_ok d" "gc_closed_sessions digest id retention_days batch now d = (x, d')"
  shows "(\<forall>s\<in>set (sessions d) - set (sessions d'). closed_for_purge (now - days retention_days) d s) \<and>
    (\<forall>t\<in>set (tasks d) - set (tasks d'). is_terminal (t_state t)) \<and>
    (\<forall>n\<in>set (names d) - set (names d'). n_scope n \<noteq> ''persist'')"
proof -
  let ?ok = "closed_for_purge (now - days retention_days) d"
  let ?S = "{s \<in> set (sessions d). ?ok s}"
  have sp: "spares ?S d d'"
    by (rule spares_purge_each [OF assms(2) [unfolded gc_closed_sessions_def Let_def]])
      (auto dest: in_set_takeD)
  have "?ok s" if s: "s \<in> set (sessions d) - set (sessions d')" for s
  proof -
    obtain s' where "s' \<in> ?S" "s_id s = s_id s'" using sparesD(1) [OF sp s] by blast
    moreover have "inj_on s_id (set (sessions d))" using db_okD(2) [OF assms(1)] by (simp add: tbl_ok_def distinct_map)
    ultimately show ?thesis using s by (auto dest: inj_onD)
  qed
  moreover have "is_terminal (t_state t)" if t: "t \<in> set (tasks d) - set (tasks d')" for t
  proof -
    obtain s' where "s' \<in> ?S" "t_session t = s_id s'" using sparesD(2) [OF sp t] by blast
    then have "t_state t \<notin> {QUEUED, RUNNING, WAITING_CHILDREN}" using t by (auto simp: closed_for_purge_def list_ex_iff)
    then show ?thesis by (cases "t_state t") simp_all
  qed
  moreover have "n_scope n \<noteq> ''persist''" if n: "n \<in> set (names d) - set (names d')" for n
  proof -
    obtain s' :: session_row where "n_scope n = ''session:'' @ s_id s'" using sparesD(3) [OF sp n] by blast
    then show ?thesis by simp
  qed
  ultimately show ?thesis by blast
qed

definition gc_sessions :: db where
  "gc_sessions = demo_files\<lparr>sessions := [\<lparr>s_id = ''s'', s_user = ''u'', s_opened = 0, s_closed = Some 10, s_metadata = []\<rparr>,
     \<lparr>s_id = ''open'', s_user = ''u'', s_opened = 0, s_closed = None, s_metadata = []\<rparr>],
     tasks := [demo_task\<lparr>t_state := SUCCEEDED\<rparr>]\<rparr>"

theorem closed_gc_conservative_witness:
  "\<exists>d'. gc_closed_sessions (\<lambda>_. ''h'') id 1 200 999999 gc_sessions = (Inr 1, d') \<and> map s_id (sessions d') = [''open''] \<and>
     (\<forall>n\<in>set (names gc_sessions) - set (names d'). n_scope n \<noteq> ''persist'')"
proof -
  let ?g = "gc_closed_sessions (\<lambda>_. ''h'') id 1 200 999999 gc_sessions"
  have "fst ?g = Inr 1" "map s_id (sessions (snd ?g)) = [''open'']" by code_simp+
  moreover have "db_ok gc_sessions"
    by (simp add: gc_sessions_def demo_files_def db_ok_def tbl_ok_def idem_unique_def demo_task_def)
  from closed_gc_conservative [OF this, of "\<lambda>_. ''h''" 1 200 999999 "fst ?g" "snd ?g"]
  have "\<forall>n\<in>set (names gc_sessions) - set (names (snd ?g)). n_scope n \<noteq> ''persist''" by simp
  ultimately show ?thesis by (metis prod.collapse)
qed

text \<open>
  The sweep does not look again before it purges: a session that its user has
  reopened after the sweep listed it is deleted with the task running in it.
\<close>

theorem gc_purges_reopened_session:
  "let env = (\<lambda>d. (snd (reopen_session ''u'' ''s'' d))\<lparr>tasks := tasks d @ [demo_task\<lparr>t_id := ''t9'', t_root := ''t9'', t_session := ''s''\<rparr>]\<rparr>);
       before = env gc_sessions;
       (x, after) = gc_closed_sessions (\<lambda>_. ''h'') env 1 200 999999 gc_sessions
   in map_option t_state (find_task before ''t9'') = Some RUNNING \<and> map_option s_closed (get_session ''u'' ''s'' before) = Some None \<and>
      x = Inr 1 \<and> find_task after ''t9'' = None \<and> get_session ''u'' ''s'' after = None"
  by code_simp

text \<open>
  One blob stops session clean-up: while a stale admin-test session without tasks
  has a blob attached to it, deleting it violates the foreign key, and the cycle ends there,
  before any closed session is purged.
\<close>

theorem admin_test_blob_blocks_gc:
  assumes "s \<in> set (sessions d)" "admin_test_stale (now - days retention_days) d s"
    "f \<in> set (files d)" "f_session f = Some (s_id s)"
  shows "session_gc_cycle digest env retention_days closed_days now d = d"
  using assms by (auto simp: session_gc_cycle_def gc_admin_test_sessions_def Let_def list_ex_iff)

theorem admin_test_blob_blocks_gc_witness:
  "let d = gc_sessions\<lparr>sessions := \<lparr>s_id = ''adm'', s_user = ''u'', s_opened = 0, s_closed = None, s_metadata = [(''kind'', JStr ''admin_test'')]\<rparr>
             # sessions gc_sessions,
           files := map (\<lambda>f. f\<lparr>f_session := Some ''adm''\<rparr>) (files gc_sessions)\<rparr>
   in sessions (session_gc_cycle (\<lambda>_. ''h'') id 1 1 999999 d) = sessions d \<and>
      map s_id (filter (closed_for_purge (999999 - days 1) d) (sessions d)) = [''s'']"
proof -
  let ?s = "\<lparr>s_id = ''adm'', s_user = ''u'', s_opened = 0, s_closed = None, s_metadata = [(''kind'', JStr ''admin_test'')]\<rparr>"
  let ?d = "gc_sessions\<lparr>sessions := ?s # sessions gc_sessions, files := map (\<lambda>f. f\<lparr>f_session := Some ''adm''\<rparr>) (files gc_sessions)\<rparr>"
  have f: "hd (files gc_sessions) \<in> set (files gc_sessions)" by (rule hd_in_set) (simp add: gc_sessions_def demo_files_def)
  have "session_gc_cycle (\<lambda>_. ''h'') id 1 1 999999 ?d = ?d"
    by (rule admin_test_blob_blocks_gc [where s = ?s and f = "(hd (files gc_sessions))\<lparr>f_session := Some ''adm''\<rparr>"])
      (use f in \<open>auto simp: admin_test_stale_def days_def gc_sessions_def demo_task_def\<close>)
  moreover have "map s_id (filter (closed_for_purge (999999 - days 1) ?d) (sessions ?d)) = [''s'']" by code_simp
  ultimately show ?thesis by simp
qed

text \<open>A child task in another session blocks the purge of its parent's session.\<close>

lemma purge_blocked_by_foreign_child:
  assumes "p \<in> set (tasks d)" "t_session p = sid" "t_user p = uid" "c \<in> set (tasks d)" "t_parent c = Some (t_id p)" "t_session c \<noteq> sid"
  shows "purge_session uid sid d = Inl (ForeignKeyViolation ''tasks'')"
proof -
  let ?hit = "\<lambda>t. t_session t = sid \<and> t_user t = uid"
  have "list_ex (\<lambda>t. case t_parent t of None \<Rightarrow> False | Some q \<Rightarrow> q \<in> set (map t_id (filter ?hit (tasks d))))
      (filter (\<lambda>t. \<not> ?hit t) (tasks d))"
    unfolding list_ex_iff by (rule bexI [of _ c]) (use assms in auto)
  then show ?thesis by (simp add: purge_session_def Let_def delete_file_names_for_scope_def del: set_map set_filter)
qed

end
