(* ===== verification/Http.thy ===== *)
theory Http
  imports Auth AuditLog Admission
begin

text \<open>
  How the HTTP endpoints of \<open>bp_router/api\<close> run: a computation on the router that ends in a
  result or in an \<open>HTTPException\<close> (status and detail; the headers are left out).  A
  \<open>conn.transaction()\<close> block that ends in an exception leaves the database as it found it.
  An exception that nobody handles is answered with 500.
\<close>

named_theorems http_defs \<open>the combinators of endpoint computations\<close>

section \<open>The environment of a request\<close>

text \<open>
  Argon2 (\<open>ae_verify\<close>, \<open>ae_hash\<close>, \<open>ae_rehash\<close>), SHA-256 and Redis are parameters; \<open>ae_redis\<close>
  names the exception a \<open>SET\<close> raises, if any.  \<open>ae_others\<close> is what other requests commit
  between two transactions of this one.
\<close>

record 'r api_env =
  ae_deps :: "'r deps"
  ae_jwt :: "string jwt_lib"
  ae_sha :: "string \<Rightarrow> string"
  ae_verify :: "string \<Rightarrow> string \<Rightarrow> bool"   \<comment> \<open>password, encoded hash\<close>
  ae_hash :: "string \<Rightarrow> string"
  ae_rehash :: "string \<Rightarrow> bool"
  ae_redis :: "(string \<Rightarrow> int \<Rightarrow> string option) option"
  ae_now :: time
  ae_token :: string    \<comment> \<open>\<open>secrets.token_urlsafe\<close>\<close>
  ae_id :: string       \<comment> \<open>the id of a row to insert\<close>
  ae_sid :: session_id
  ae_jti :: string
  ae_others :: "'r router \<Rightarrow> 'r router"

section \<open>Computations\<close>

text \<open>Returning and sequencing are the same for any state and any exceptions.\<close>

type_synonym ('r, 'a) http = "'r router \<Rightarrow> (http_error + 'a) \<times> 'r router"

definition retH :: "'a \<Rightarrow> 's \<Rightarrow> ('e + 'a) \<times> 's" where
  "retH a r = (Inr a, r)"

definition raiseH :: "int \<Rightarrow> string \<Rightarrow> ('r, 'a) http" where
  "raiseH st detail r = (Inl (st, detail), r)"

definition bindH ::
  "('s \<Rightarrow> ('e + 'a) \<times> 's) \<Rightarrow> ('a \<Rightarrow> 's \<Rightarrow> ('e + 'b) \<times> 's) \<Rightarrow> 's \<Rightarrow> ('e + 'b) \<times> 's" where
  "bindH m f r = (case m r of (Inl e, r') \<Rightarrow> (Inl e, r') | (Inr a, r') \<Rightarrow> f a r')"

definition thenH ::
  "('s \<Rightarrow> ('e + unit) \<times> 's) \<Rightarrow> ('s \<Rightarrow> ('e + 'b) \<times> 's) \<Rightarrow> 's \<Rightarrow> ('e + 'b) \<times> 's" where
  "thenH m k = bindH m (\<lambda>_. k)"

definition guardH :: "bool \<Rightarrow> int \<Rightarrow> string \<Rightarrow> ('r, unit) http" where
  "guardH ok st detail = (if ok then retH () else raiseH st detail)"

definition someH :: "'a option \<Rightarrow> int \<Rightarrow> string \<Rightarrow> ('r, 'a) http" where
  "someH x st detail = (case x of None \<Rightarrow> raiseH st detail | Some a \<Rightarrow> retH a)"

definition readH :: "(db \<Rightarrow> 'a) \<Rightarrow> ('r, 'a) http" where
  "readH f r = (Inr (f (rdb r)), r)"

definition confH :: "(settings \<Rightarrow> 'a) \<Rightarrow> ('r, 'a) http" where
  "confH f r = (Inr (f (rsettings r)), r)"

definition execH :: "(db \<Rightarrow> 'a \<times> db) \<Rightarrow> ('r, 'a) http" where
  "execH f r = (let (a, d) = f (rdb r) in (Inr a, r\<lparr>rdb := d\<rparr>))"

definition runH :: "(db \<Rightarrow> db) \<Rightarrow> ('r, unit) http" where
  "runH f r = (Inr (), r\<lparr>rdb := f (rdb r)\<rparr>)"

text \<open>A statement that can violate a constraint.\<close>

definition db_http :: "db_error \<Rightarrow> http_error" where
  "db_http e = (500, case e of UniqueViolation c \<Rightarrow> c | ForeignKeyViolation c \<Rightarrow> c | CheckViolation c \<Rightarrow> c
                     | _ \<Rightarrow> ''internal error'')"

definition tryH :: "(db \<Rightarrow> db_error + 'a \<times> db) \<Rightarrow> ('r, 'a) http" where
  "tryH f r = (case f (rdb r) of Inl e \<Rightarrow> (Inl (db_http e), r) | Inr (a, d) \<Rightarrow> (Inr a, r\<lparr>rdb := d\<rparr>))"

definition transaction :: "('r, 'a) http \<Rightarrow> ('r, 'a) http" where
  "transaction m r = (case m r of (Inl e, r') \<Rightarrow> (Inl e, r'\<lparr>rdb := rdb r\<rparr>) | (Inr a, r') \<Rightarrow> (Inr a, r'))"

definition othersH :: "'r api_env \<Rightarrow> ('r, unit) http" where
  "othersH en r = (Inr (), ae_others en r)"

definition liftH :: "http_error + 'a \<Rightarrow> ('r, 'a) http" where
  "liftH x r = (x, r)"

declare retH_def [http_defs] raiseH_def [http_defs] bindH_def [http_defs] thenH_def [http_defs]
  guardH_def [http_defs] someH_def [http_defs] readH_def [http_defs] confH_def [http_defs] execH_def [http_defs]
  runH_def [http_defs] tryH_def [http_defs] transaction_def [http_defs] othersH_def [http_defs] liftH_def [http_defs]

section \<open>Text\<close>

text \<open>\<open>str.lower\<close> on code points below 256.\<close>

definition lower_char :: "char \<Rightarrow> char" where
  "lower_char c = (if is_upper c \<or> (192 \<le> code c \<and> code c \<le> 222 \<and> code c \<noteq> 215) then char_of (code c + 32) else c)"

definition py_lower :: "string \<Rightarrow> string" where
  "py_lower s = map lower_char s"

text \<open>
  \<open>datetime.isoformat\<close> of a time in UTC, a time being the seconds since the epoch: the date of a
  day number in the proleptic Gregorian calendar, then the time of day down to microseconds.
\<close>

definition civil_date :: "int \<Rightarrow> int \<times> int \<times> int" where
  "civil_date days =
     (let z = days + 719468; era = z div 146097; doe = z mod 146097;
          yoe = (doe - doe div 1460 + doe div 36524 - doe div 146096) div 365;
          doy = doe - (365 * yoe + yoe div 4 - yoe div 100);
          mp = (5 * doy + 2) div 153;
          m = (if mp < 10 then mp + 3 else mp - 9)
      in (yoe + era * 400 + (if m \<le> 2 then 1 else 0), m, doy - (153 * mp + 2) div 5 + 1))"

definition pad :: "nat \<Rightarrow> int \<Rightarrow> string" where
  "pad n i = (let s = show_nat (nat i) in replicate (n - length s) (CHR ''0'') @ s)"

definition iso_date :: "time \<Rightarrow> string" where
  "iso_date t = (let (y, m, d) = civil_date (\<lfloor>t\<rfloor> div 86400) in pad 4 y @ ''-'' @ pad 2 m @ ''-'' @ pad 2 d)"

definition iso_minutes :: "time \<Rightarrow> string" where
  "iso_minutes t = (let s = \<lfloor>t\<rfloor> mod 86400 in pad 2 (s div 3600) @ '':'' @ pad 2 (s div 60 mod 60))"

definition isoformat :: "time \<Rightarrow> string" where
  "isoformat t = (let us = \<lfloor>t * 1000000\<rfloor> mod 1000000
     in iso_date t @ ''T'' @ iso_minutes t @ '':'' @ pad 2 (\<lfloor>t\<rfloor> mod 60) @
        (if us = 0 then '''' else ''.'' @ pad 6 us) @ ''+00:00'')"

section \<open>Audit, rate limits, revocation\<close>

definition auditH ::
  "'r api_env \<Rightarrow> string \<Rightarrow> string option \<Rightarrow> string \<Rightarrow> string option \<Rightarrow> string option \<Rightarrow> (string \<times> json) list option \<Rightarrow>
   ('r, unit) http" where
  "auditH en kind actor event tk target payload =
     runH (append_audit_event (dep_digest (ae_deps en)) kind actor event tk target payload (ae_now en))"

text \<open>\<open>login_quota.try_consume(key, rate_per_s, burst)\<close>.\<close>

definition quotaH :: "'r api_env \<Rightarrow> string \<Rightarrow> rat \<times> int \<Rightarrow> ('r, rl_decision) http" where
  "quotaH en key cap r =
     (let (d, q) = try_consume (dep_redis (ae_deps en)) key (fst cap) (snd cap) 1 (ae_now en) (login_quota r)
      in (Inr d, r\<lparr>login_quota := q\<rparr>))"

text \<open>\<open>_enforce_single_bucket_rate_limit\<close>: how long to wait.\<close>

definition bucket_wait :: "'r api_env \<Rightarrow> string \<Rightarrow> rat \<times> int \<Rightarrow> ('r, rat) http" where
  "bucket_wait en key cap =
     bindH (quotaH en key cap) (\<lambda>d. retH (if rl_allowed d then 0 else max (retry_after_s d) 0))"

definition AUDIT_DENIAL_DAMPENER :: "rat \<times> int" where
  "AUDIT_DENIAL_DAMPENER = (1 / 10, 10)"

definition metricH :: "string \<Rightarrow> string \<Rightarrow> ('r, unit) http" where
  "metricH m label r = (Inr (), count_metric m label r)"

definition denial_audit_allowed :: "'r api_env \<Rightarrow> user_id option \<Rightarrow> string \<Rightarrow> ('r, bool) http" where
  "denial_audit_allowed en actor event =
     bindH (quotaH en (''audit_denial:'' @ event @ '':'' @ py_or actor ''anon'') AUDIT_DENIAL_DAMPENER) (\<lambda>d.
     if rl_allowed d then retH True
     else thenH (metricH ''audit_denials_dropped_total'' event) (retH False))"

text \<open>\<open>int(x)\<close> of a number of seconds.\<close>

definition py_trunc :: "rat \<Rightarrow> int" where
  "py_trunc x = (if 0 \<le> x then \<lfloor>x\<rfloor> else \<lceil>x\<rceil>)"

text \<open>\<open>revoke_jti\<close> and the exception it raises, if any.\<close>

definition revoke_jti :: "'r api_env \<Rightarrow> string \<Rightarrow> int \<Rightarrow> ('r, string option) http" where
  "revoke_jti en jti ttl r =
     (case ae_redis en of
        None \<Rightarrow> (Inr None, r)
      | Some set_ex \<Rightarrow>
          (case set_ex (revoked_jti_key jti) ttl of
             None \<Rightarrow> (Inr None, r\<lparr>revocations := revocations r @ [(revoked_jti_key jti, ttl)]\<rparr>)
           | Some exc \<Rightarrow> (Inr (Some exc), r)))"

text \<open>The time a revocation lasts: what the token has left, and at least a token's lifetime.\<close>

definition revoke_ttl :: "time \<Rightarrow> time \<Rightarrow> int \<Rightarrow> int" where
  "revoke_ttl expires now life = max (py_trunc (expires - now)) life"

section \<open>Facts about computations\<close>

lemma bindH_Inr: "bindH m f r = (Inr b, r') \<longleftrightarrow> (\<exists>a r1. m r = (Inr a, r1) \<and> f a r1 = (Inr b, r'))"
  by (auto simp: bindH_def split: prod.splits sum.splits)

lemma thenH_Inr: "thenH m k r = (Inr b, r') \<longleftrightarrow> (\<exists>r1. m r = (Inr (), r1) \<and> k r1 = (Inr b, r'))"
  by (simp add: thenH_def bindH_Inr)

lemma transaction_Inr [simp]: "transaction m r = (Inr a, r') \<longleftrightarrow> m r = (Inr a, r')"
  by (auto simp: transaction_def split: prod.splits sum.splits)

lemma guardH_Inr [simp]: "guardH ok st e r = (Inr x, r') \<longleftrightarrow> ok \<and> r' = r"
  by (auto simp: guardH_def retH_def raiseH_def)

lemma someH_Inr [simp]: "someH x st e r = (Inr a, r') \<longleftrightarrow> x = Some a \<and> r' = r"
  by (auto simp: someH_def retH_def raiseH_def split: option.splits)

lemma simple_Inr [simp]:
  "retH a r = (Inr b, r') \<longleftrightarrow> b = a \<and> r' = r" "raiseH st e r \<noteq> (Inr b, r')"
  "readH f r = (Inr a', r') \<longleftrightarrow> a' = f (rdb r) \<and> r' = r"
  "confH g r = (Inr a'', r') \<longleftrightarrow> a'' = g (rsettings r) \<and> r' = r"
  "runH h r = (Inr u, r') \<longleftrightarrow> r' = r\<lparr>rdb := h (rdb r)\<rparr>"
  "othersH en r = (Inr u, r') \<longleftrightarrow> r' = ae_others en r"
  "liftH x r = (Inr c, r') \<longleftrightarrow> x = Inr c \<and> r' = r"
  by (auto simp: http_defs)

lemma execH_Inr: "execH f r = (Inr a, r') \<longleftrightarrow> (\<exists>d. f (rdb r) = (a, d) \<and> r' = r\<lparr>rdb := d\<rparr>)"
  by (auto simp: execH_def split: prod.splits)

lemma tryH_Inr: "tryH f r = (Inr a, r') \<longleftrightarrow> (\<exists>d. f (rdb r) = Inr (a, d) \<and> r' = r\<lparr>rdb := d\<rparr>)"
  by (auto simp: tryH_def split: sum.splits)

lemma auditH_Inr [simp]: "auditH en k a e tk t p r = (Inr u, r') \<longleftrightarrow>
    r' = r\<lparr>rdb := append_audit_event (dep_digest (ae_deps en)) k a e tk t p (ae_now en) (rdb r)\<rparr>"
  by (simp add: auditH_def)

lemma quotaH_Inr: "quotaH en key cap r = (Inr w, r') \<Longrightarrow> rdb r' = rdb r \<and> rsettings r' = rsettings r"
  by (auto simp: quotaH_def Let_def split_beta)

lemma bucket_wait_Inr: "bucket_wait en key cap r = (Inr w, r') \<Longrightarrow> rdb r' = rdb r \<and> rsettings r' = rsettings r"
  by (auto simp: bucket_wait_def bindH_Inr dest: quotaH_Inr)

lemma revoke_jti_Inr: "revoke_jti en j t r = (Inr b, r') \<Longrightarrow> rdb r' = rdb r \<and> rsettings r' = rsettings r"
  by (auto simp: revoke_jti_def split: option.splits if_splits)

lemmas http_Inr = bindH_Inr thenH_Inr execH_Inr tryH_Inr

text \<open>A transaction that fails leaves the database alone.\<close>

lemma transaction_Inl: "transaction m r = (Inl e, r') \<Longrightarrow> rdb r' = rdb r"
  by (auto simp: transaction_def split: prod.splits sum.splits)

end
