(* ===== verification/Accounts.thy ===== *)
theory Accounts
  imports Queries AuditLog
begin

text \<open>
  The statements of \<open>bp_router/db/queries.py\<close> on users, their credentials (refresh tokens,
  password-reset tokens, linked OIDC identities), invitations and pending registrations.  A
  statement that may violate a constraint gives \<open>Inl\<close> the violation.
\<close>

section \<open>Users\<close>

text \<open>The \<open>CHECK\<close> on levels: unlike Python's, Postgres's \<open>$\<close> does not skip a trailing newline.\<close>

definition level_check :: "level \<Rightarrow> bool" where
  "level_check lvl = (lvl = ''admin'' \<or> lvl = ''service'' \<or> tier_body lvl)"

definition get_user_by_email :: "string \<Rightarrow> db \<Rightarrow> user_row option" where
  "get_user_by_email email d = find (\<lambda>u. u_email u = Some email) (users d)"

definition insert_user ::
  "user_id option \<Rightarrow> string option \<Rightarrow> level \<Rightarrow> string \<Rightarrow> string option \<Rightarrow> user_id list \<Rightarrow> user_id \<Rightarrow> db \<Rightarrow>
   db_error + user_row \<times> db" where
  "insert_user uid email lvl kind secret serviced_by new_id d =
     (let row = \<lparr>u_id = py_or uid new_id, u_level = lvl, u_suspended = None, u_deleted = None, u_email = email,
                 u_auth_kind = kind, u_secret = secret, u_serviced_by = serviced_by, u_purged = None\<rparr>
      in if \<not> level_check lvl then Inl (CheckViolation ''users_level_check'')
         else if get_user_by_id (u_id row) d \<noteq> None then Inl (UniqueViolation ''users_pkey'')
         else if (case email of None \<Rightarrow> False | Some e \<Rightarrow> get_user_by_email e d \<noteq> None)
           then Inl (UniqueViolation ''users_email_key'')
         else Inr (row, d\<lparr>users := users d @ [row]\<rparr>))"

definition upd_user :: "user_id \<Rightarrow> (user_row \<Rightarrow> user_row) \<Rightarrow> db \<Rightarrow> db" where
  "upd_user uid f d = d\<lparr>users := tbl_upd u_id uid f (users d)\<rparr>"

definition append_to_serviced_by :: "user_id \<Rightarrow> user_id \<Rightarrow> db \<Rightarrow> bool \<times> db" where
  "append_to_serviced_by target svc d =
     (case get_user_by_id target d of
        None \<Rightarrow> (False, d)
      | Some u \<Rightarrow>
          if svc \<in> set (u_serviced_by u) then (False, d)
          else (True, upd_user target (\<lambda>u. u\<lparr>u_serviced_by := u_serviced_by u @ [svc]\<rparr>) d))"

definition remove_from_serviced_by :: "user_id \<Rightarrow> user_id \<Rightarrow> db \<Rightarrow> bool \<times> db" where
  "remove_from_serviced_by target svc d =
     (case get_user_by_id target d of
        None \<Rightarrow> (False, d)
      | Some u \<Rightarrow>
          if svc \<in> set (u_serviced_by u)
          then (True, upd_user target (\<lambda>u. u\<lparr>u_serviced_by := removeAll svc (u_serviced_by u)\<rparr>) d)
          else (False, d))"

definition sweep_serviced_by_references :: "user_id \<Rightarrow> db \<Rightarrow> nat \<times> db" where
  "sweep_serviced_by_references svc d =
     (length (filter (\<lambda>u. svc \<in> set (u_serviced_by u)) (users d)),
      d\<lparr>users := map (\<lambda>u. u\<lparr>u_serviced_by := removeAll svc (u_serviced_by u)\<rparr>) (users d)\<rparr>)"

definition set_user_password_hash :: "user_id \<Rightarrow> string \<Rightarrow> db \<Rightarrow> db" where
  "set_user_password_hash uid secret = upd_user uid (\<lambda>u. u\<lparr>u_secret := Some secret\<rparr>)"

definition list_serviced_sessions ::
  "user_id \<Rightarrow> string option \<Rightarrow> time option \<Rightarrow> nat \<Rightarrow> db \<Rightarrow> session_row list" where
  "list_serviced_sessions svc channel since limit d =
     take limit (sort_key s_opened (filter (\<lambda>s.
        (\<exists>u\<in>set (users d). u_id u = s_user s \<and> svc \<in> set (u_serviced_by u) \<and> u_deleted u = None) \<and>
        (case channel of None \<Rightarrow> True | Some c \<Rightarrow> map_of (s_metadata s) ''kind'' = Some (JStr c)) \<and>
        (case since of None \<Rightarrow> True | Some t \<Rightarrow> t < s_opened s)) (sessions d)))"

section \<open>Refresh tokens\<close>

definition insert_refresh_token :: "string \<Rightarrow> user_id \<Rightarrow> time \<Rightarrow> time \<Rightarrow> db \<Rightarrow> db_error + unit \<times> db" where
  "insert_refresh_token h uid expires now d =
     (if tbl_get rt_hash h (refresh_tokens d) \<noteq> None then Inl (UniqueViolation ''auth_refresh_tokens_pkey'')
      else if get_user_by_id uid d = None then Inl (ForeignKeyViolation ''auth_refresh_tokens_user_id_fkey'')
      else Inr ((), d\<lparr>refresh_tokens := refresh_tokens d @
             [\<lparr>rt_hash = h, rt_user = uid, rt_issued = now, rt_expires = expires, rt_used = None, rt_replaced = None\<rparr>]\<rparr>))"

definition arm_refresh_token :: "string \<Rightarrow> user_id \<Rightarrow> time \<Rightarrow> time \<Rightarrow> db \<Rightarrow> db_error + unit \<times> db" where
  "arm_refresh_token h uid expires now d =
     (let row = \<lparr>rt_hash = h, rt_user = uid, rt_issued = now, rt_expires = expires, rt_used = None, rt_replaced = None\<rparr>
      in if get_user_by_id uid d = None then Inl (ForeignKeyViolation ''auth_refresh_tokens_user_id_fkey'')
         else Inr ((), d\<lparr>refresh_tokens :=
                (if tbl_get rt_hash h (refresh_tokens d) = None then refresh_tokens d @ [row]
                 else tbl_upd rt_hash h (\<lambda>_. row) (refresh_tokens d))\<rparr>))"

definition revoke_refresh_token :: "string \<Rightarrow> time \<Rightarrow> db \<Rightarrow> bool \<times> db" where
  "revoke_refresh_token h now d =
     (case tbl_get rt_hash h (refresh_tokens d) of
        None \<Rightarrow> (False, d)
      | Some t \<Rightarrow>
          if rt_used t = None
          then (True, d\<lparr>refresh_tokens := tbl_upd rt_hash h (\<lambda>t. t\<lparr>rt_used := Some now\<rparr>) (refresh_tokens d)\<rparr>)
          else (False, d))"

definition delete_user_refresh_tokens :: "user_id \<Rightarrow> db \<Rightarrow> nat \<times> db" where
  "delete_user_refresh_tokens uid d =
     (length (filter (\<lambda>t. rt_user t = uid) (refresh_tokens d)),
      d\<lparr>refresh_tokens := filter (\<lambda>t. rt_user t \<noteq> uid) (refresh_tokens d)\<rparr>)"

definition consume_refresh_token :: "string \<Rightarrow> string \<Rightarrow> time \<Rightarrow> db \<Rightarrow> user_id option \<times> db" where
  "consume_refresh_token h replaced_by now d =
     (case tbl_get rt_hash h (refresh_tokens d) of
        None \<Rightarrow> (None, d)
      | Some t \<Rightarrow>
          if \<not> now < rt_expires t then (None, d)
          else if rt_used t \<noteq> None then (None, snd (delete_user_refresh_tokens (rt_user t) d))
          else (Some (rt_user t), d\<lparr>refresh_tokens :=
                 tbl_upd rt_hash h (\<lambda>t. t\<lparr>rt_used := Some now, rt_replaced := Some replaced_by\<rparr>) (refresh_tokens d)\<rparr>))"

section \<open>Password-reset tokens\<close>

definition insert_password_reset_token ::
  "string \<Rightarrow> user_id \<Rightarrow> time \<Rightarrow> user_id \<Rightarrow> db \<Rightarrow> db_error + unit \<times> db" where
  "insert_password_reset_token h uid expires by_user d =
     (if tbl_get pr_hash h (reset_tokens d) \<noteq> None then Inl (UniqueViolation ''password_reset_tokens_pkey'')
      else if get_user_by_id uid d = None then Inl (ForeignKeyViolation ''password_reset_tokens_user_id_fkey'')
      else if get_user_by_id by_user d = None then Inl (ForeignKeyViolation ''password_reset_tokens_created_by_fkey'')
      else Inr ((), d\<lparr>reset_tokens := reset_tokens d @
             [\<lparr>pr_hash = h, pr_user = uid, pr_expires = expires, pr_used = None, pr_by = Some by_user\<rparr>]\<rparr>))"

definition consume_password_reset_token :: "string \<Rightarrow> time \<Rightarrow> db \<Rightarrow> user_id option \<times> db" where
  "consume_password_reset_token h now d =
     (case tbl_get pr_hash h (reset_tokens d) of
        None \<Rightarrow> (None, d)
      | Some t \<Rightarrow>
          if pr_used t \<noteq> None \<or> pr_expires t < now then (None, d)
          else (Some (pr_user t),
                d\<lparr>reset_tokens := tbl_upd pr_hash h (\<lambda>t. t\<lparr>pr_used := Some now\<rparr>) (reset_tokens d)\<rparr>))"

definition delete_user_password_reset_tokens :: "user_id \<Rightarrow> db \<Rightarrow> nat \<times> db" where
  "delete_user_password_reset_tokens uid d =
     (length (filter (\<lambda>t. pr_user t = uid) (reset_tokens d)),
      d\<lparr>reset_tokens := filter (\<lambda>t. pr_user t \<noteq> uid) (reset_tokens d)\<rparr>)"

section \<open>OIDC identities\<close>

definition oi_key :: "oidc_row \<Rightarrow> string \<times> string" where
  "oi_key i = (oi_issuer i, oi_sub i)"

definition get_user_by_oidc_sub :: "string \<Rightarrow> string \<Rightarrow> db \<Rightarrow> user_row option" where
  "get_user_by_oidc_sub issuer sub d =
     (case tbl_get oi_key (issuer, sub) (oidc_identities d) of
        None \<Rightarrow> None
      | Some i \<Rightarrow> get_user_by_id (oi_user i) d)"

definition link_oidc_identity ::
  "string \<Rightarrow> string \<Rightarrow> user_id \<Rightarrow> string option \<Rightarrow> time \<Rightarrow> db \<Rightarrow> db_error + unit \<times> db" where
  "link_oidc_identity issuer sub uid email now d =
     (case tbl_get oi_key (issuer, sub) (oidc_identities d) of
        Some i \<Rightarrow>
          if oi_user i = uid
          then Inr ((), d\<lparr>oidc_identities := tbl_upd oi_key (issuer, sub)
                  (\<lambda>i. i\<lparr>oi_email := (case email of None \<Rightarrow> oi_email i | Some e \<Rightarrow> Some e), oi_last := Some now\<rparr>)
                  (oidc_identities d)\<rparr>)
          else Inl (UniqueViolation ''user_oidc_identities_pkey'')
      | None \<Rightarrow>
          if get_user_by_id uid d = None then Inl (ForeignKeyViolation ''user_oidc_identities_user_id_fkey'')
          else Inr ((), d\<lparr>oidc_identities := oidc_identities d @
                 [\<lparr>oi_issuer = issuer, oi_sub = sub, oi_user = uid, oi_email = email, oi_created = now, oi_last = None\<rparr>]\<rparr>))"

definition touch_oidc_identity :: "string \<Rightarrow> string \<Rightarrow> time \<Rightarrow> db \<Rightarrow> db" where
  "touch_oidc_identity issuer sub now d =
     d\<lparr>oidc_identities := tbl_upd oi_key (issuer, sub) (\<lambda>i. i\<lparr>oi_last := Some now\<rparr>) (oidc_identities d)\<rparr>"

definition list_oidc_identities_for_user :: "user_id \<Rightarrow> db \<Rightarrow> oidc_row list" where
  "list_oidc_identities_for_user uid d = sort_key oi_created (filter (\<lambda>i. oi_user i = uid) (oidc_identities d))"

definition unlink_oidc_identity :: "user_id \<Rightarrow> string \<Rightarrow> string \<Rightarrow> db \<Rightarrow> bool \<times> db" where
  "unlink_oidc_identity uid issuer sub d =
     (list_ex (\<lambda>i. oi_user i = uid \<and> oi_key i = (issuer, sub)) (oidc_identities d),
      d\<lparr>oidc_identities := filter (\<lambda>i. \<not> (oi_user i = uid \<and> oi_key i = (issuer, sub))) (oidc_identities d)\<rparr>)"

section \<open>Invitations\<close>

definition insert_invitation ::
  "string \<Rightarrow> level \<Rightarrow> time \<Rightarrow> user_id \<Rightarrow> string option \<Rightarrow> bool \<Rightarrow> time \<Rightarrow> db \<Rightarrow> db_error + unit \<times> db" where
  "insert_invitation h lvl expires by_user idem service now d =
     (if \<not> level_check lvl then Inl (CheckViolation ''invitations_level_check'')
      else if tbl_get iv_hash h (invitations d) \<noteq> None then Inl (UniqueViolation ''invitations_pkey'')
      else if (case idem of None \<Rightarrow> False
               | Some k \<Rightarrow> list_ex (\<lambda>i. iv_by i = by_user \<and> iv_idem i = Some k) (invitations d))
        then Inl (UniqueViolation ''invitations_created_by_idempotency_key_uniq'')
      else if get_user_by_id by_user d = None then Inl (ForeignKeyViolation ''invitations_created_by_fkey'')
      else Inr ((), d\<lparr>invitations := invitations d @
             [\<lparr>iv_hash = h, iv_level = lvl, iv_expires = expires, iv_used = None, iv_used_by = None, iv_by = by_user,
               iv_idem = idem, iv_service = service, iv_created = now\<rparr>]\<rparr>))"

definition get_invitation :: "string \<Rightarrow> db \<Rightarrow> invitation_row option" where
  "get_invitation h d = tbl_get iv_hash h (invitations d)"

definition delete_invitation :: "string \<Rightarrow> db \<Rightarrow> bool \<times> db" where
  "delete_invitation h d =
     (case get_invitation h d of
        None \<Rightarrow> (False, d)
      | Some i \<Rightarrow> if iv_used i \<noteq> None then (False, d)
                  else (True, d\<lparr>invitations := filter (\<lambda>i. \<not> (iv_hash i = h \<and> iv_used i = None)) (invitations d)\<rparr>))"

definition consume_invitation :: "string \<Rightarrow> string \<Rightarrow> time \<Rightarrow> db \<Rightarrow> (level \<times> bool) option \<times> db" where
  "consume_invitation h used_by now d =
     (case tbl_get iv_hash h (invitations d) of
        None \<Rightarrow> (None, d)
      | Some i \<Rightarrow>
          if iv_used i \<noteq> None \<or> iv_expires i < now then (None, d)
          else (Some (iv_level i, iv_service i),
                d\<lparr>invitations := tbl_upd iv_hash h (\<lambda>i. i\<lparr>iv_used := Some now, iv_used_by := Some used_by\<rparr>)
                    (invitations d)\<rparr>))"

text \<open>The filter of a listing; \<open>None\<close> is \<open>ValueError\<close>.\<close>

definition invitation_status :: "string option \<Rightarrow> time \<Rightarrow> (invitation_row \<Rightarrow> bool) option" where
  "invitation_status st now =
     (case st of
        None \<Rightarrow> Some (\<lambda>_. True)
      | Some s \<Rightarrow>
          if s = ''valid'' then Some (\<lambda>i. iv_used i = None \<and> now < iv_expires i)
          else if s = ''used'' then Some (\<lambda>i. iv_used i \<noteq> None)
          else if s = ''expired'' then Some (\<lambda>i. iv_used i = None \<and> iv_expires i \<le> now)
          else None)"

definition list_invitations ::
  "nat \<Rightarrow> nat \<Rightarrow> string option \<Rightarrow> time \<Rightarrow> db \<Rightarrow> invitation_row list option" where
  "list_invitations limit offset st now d =
     map_option (\<lambda>p. take limit (drop offset
        (rev (sort_key iv_created (sort_key iv_hash (filter p (invitations d))))))) (invitation_status st now)"

definition gc_expired_invitations :: "time \<Rightarrow> db \<Rightarrow> nat \<times> db" where
  "gc_expired_invitations cutoff d =
     (let dead = (\<lambda>i. (case iv_used i of None \<Rightarrow> iv_expires i | Some t \<Rightarrow> t) < cutoff)
      in (length (filter dead (invitations d)),
          d\<lparr>invitations := filter (\<lambda>i. \<not> dead i) (invitations d)\<rparr>))"

section \<open>Pending registrations\<close>

definition pg_key :: "registration_row \<Rightarrow> string \<times> string" where
  "pg_key g = (pg_channel g, pg_external g)"

text \<open>The \<open>CHECK\<close> on channel names.\<close>

definition channel_char :: "char \<Rightarrow> bool" where
  "channel_char c = (is_lower c \<or> is_digit c \<or> c = CHR ''_'' \<or> c = CHR ''-'')"

definition channel_check :: "string \<Rightarrow> bool" where
  "channel_check s = (case s of [] \<Rightarrow> False | c # cs \<Rightarrow> is_lower c \<and> length cs \<le> 31 \<and> list_all channel_char cs)"

definition upsert_pending_registration ::
  "string \<Rightarrow> string \<Rightarrow> string option \<Rightarrow> string option \<Rightarrow> (string \<times> json) list \<Rightarrow> user_id option \<Rightarrow> string option \<Rightarrow>
   string \<Rightarrow> time \<Rightarrow> db \<Rightarrow> db_error + registration_row \<times> db" where
  "upsert_pending_registration channel ext display email meta submitter secret new_id now d =
     (if \<not> channel_check channel then Inl (CheckViolation ''pending_user_registrations_channel_check'')
      else case tbl_get pg_key (channel, ext) (registrations d) of
        None \<Rightarrow>
          (let row = \<lparr>pg_id = new_id, pg_channel = channel, pg_external = ext, pg_display = display, pg_email = email,
                      pg_metadata = meta, pg_requested = now, pg_attempts = 1, pg_last = now, pg_by = submitter,
                      pg_secret = secret\<rparr>
           in if (case submitter of None \<Rightarrow> False | Some u \<Rightarrow> get_user_by_id u d = None)
              then Inl (ForeignKeyViolation ''pending_user_registrations_submitted_by_fkey'')
              else Inr (row, d\<lparr>registrations := registrations d @ [row]\<rparr>))
      | Some g \<Rightarrow>
          (let row = g\<lparr>pg_attempts := pg_attempts g + 1, pg_last := now,
                       pg_display := coalesce display (pg_display g), pg_email := coalesce email (pg_email g),
                       pg_metadata := (if meta = [] then pg_metadata g else meta),
                       pg_by := coalesce submitter (pg_by g), pg_secret := coalesce secret (pg_secret g)\<rparr>
           in if (case submitter of None \<Rightarrow> False | Some u \<Rightarrow> get_user_by_id u d = None)
              then Inl (ForeignKeyViolation ''pending_user_registrations_submitted_by_fkey'')
              else Inr (row, d\<lparr>registrations := tbl_upd pg_key (channel, ext) (\<lambda>_. row) (registrations d)\<rparr>)))"

definition log_registration_attempt :: "string \<Rightarrow> string \<Rightarrow> time \<Rightarrow> db \<Rightarrow> db" where
  "log_registration_attempt channel ext now d =
     d\<lparr>registration_attempts := registration_attempts d @ [(channel, ext, now)]\<rparr>"

definition gc_registration_attempts :: "time \<Rightarrow> db \<Rightarrow> nat \<times> db" where
  "gc_registration_attempts cutoff d =
     (length (filter (\<lambda>(c, e, t). t < cutoff) (registration_attempts d)),
      d\<lparr>registration_attempts := filter (\<lambda>(c, e, t). \<not> t < cutoff) (registration_attempts d)\<rparr>)"

definition get_registration :: "string \<Rightarrow> db \<Rightarrow> registration_row option" where
  "get_registration rid d = find (\<lambda>g. pg_id g = rid) (registrations d)"

definition list_pending_registrations ::
  "string option \<Rightarrow> user_id option \<Rightarrow> nat \<Rightarrow> nat \<Rightarrow> db \<Rightarrow> registration_row list" where
  "list_pending_registrations channel submitter limit offset d =
     take limit (drop offset (rev (sort_key pg_requested (filter (\<lambda>g.
       (channel = None \<or> channel = Some (pg_channel g)) \<and> (submitter = None \<or> pg_by g = submitter))
       (registrations d)))))"

definition delete_pending_registration :: "string \<Rightarrow> db \<Rightarrow> bool \<times> db" where
  "delete_pending_registration rid d =
     (list_ex (\<lambda>g. pg_id g = rid) (registrations d),
      d\<lparr>registrations := filter (\<lambda>g. pg_id g \<noteq> rid) (registrations d)\<rparr>)"

section \<open>Deleting and purging a user\<close>

record deletion_counts =
  dc_already :: bool
  dc_refresh :: nat
  dc_reset :: nat
  dc_sweep :: nat
  dc_files :: nat

definition soft_delete_user :: "user_id \<Rightarrow> time \<Rightarrow> db \<Rightarrow> deletion_counts option \<times> db" where
  "soft_delete_user uid now d =
     (case get_user_by_id uid d of
        None \<Rightarrow> (None, d)
      | Some u \<Rightarrow>
          if u_deleted u \<noteq> None
          then (Some \<lparr>dc_already = True, dc_refresh = 0, dc_reset = 0, dc_sweep = 0, dc_files = 0\<rparr>, d)
          else let d1 = upd_user uid (\<lambda>u. u\<lparr>u_deleted := Some now\<rparr>) d;
                   (n_refresh, d2) = delete_user_refresh_tokens uid d1;
                   (n_reset, d3) = delete_user_password_reset_tokens uid d2;
                   (n_sweep, d4) = sweep_serviced_by_references uid d3;
                   cap = now + 86400;
                   d5 = d4\<lparr>files := map (\<lambda>f. if f_user f = uid
                            then f\<lparr>f_expires := Some (case f_expires f of None \<Rightarrow> cap | Some e \<Rightarrow> min e cap)\<rparr> else f) (files d4)\<rparr>
               in (Some \<lparr>dc_already = False, dc_refresh = n_refresh, dc_reset = n_reset, dc_sweep = n_sweep,
                         dc_files = length (filter (\<lambda>f. f_user f = uid) (files d4))\<rparr>, d5))"

fun purge_sessions :: "user_id \<Rightarrow> session_id list \<Rightarrow> db \<Rightarrow> db_error + nat \<times> db" where
  "purge_sessions uid [] d = Inr (0, d)"
| "purge_sessions uid (sid # sids) d =
     bindE (purge_session uid sid d) (\<lambda>(removed, d1).
     bindE (purge_sessions uid sids d1) (\<lambda>(n, d2). Inr (n + of_bool removed, d2)))"

text \<open>\<open>Some None\<close>: the user was purged before.\<close>

definition purge_user ::
  "(audit_row \<Rightarrow> string) \<Rightarrow> user_id \<Rightarrow> user_id option \<Rightarrow> time \<Rightarrow> db \<Rightarrow>
   db_error + (deletion_counts \<times> nat \<times> nat) option option \<times> db" where
  "purge_user digest uid actor now d =
     (case get_user_by_id uid d of
        None \<Rightarrow> Inr (None, d)
      | Some u \<Rightarrow>
          if u_purged u \<noteq> None then Inr (Some None, d)
          else (case soft_delete_user uid now d of
                  (None, d1) \<Rightarrow> Inr (None, d1)
                | (Some base, d1) \<Rightarrow>
                    bindE (purge_sessions uid (map s_id (filter (\<lambda>s. s_user s = uid) (sessions d1))) d1) (\<lambda>(n_sessions, d2).
                      let n_names = length (filter (\<lambda>n. n_user n = uid) (names d2));
                          d3 = d2\<lparr>names := filter (\<lambda>n. n_user n \<noteq> uid) (names d2)\<rparr>;
                          d4 = d3\<lparr>files := map (\<lambda>f. if f_user f = uid then f\<lparr>f_expires := Some now\<rparr> else f) (files d3)\<rparr>;
                          d5 = d4\<lparr>oidc_identities := filter (\<lambda>i. oi_user i \<noteq> uid) (oidc_identities d4)\<rparr>;
                          d6 = upd_user uid (\<lambda>u. u\<lparr>u_email := None, u_secret := None, u_purged := Some now\<rparr>) d5;
                          d7 = append_audit_event digest ''user'' actor ''user.purged'' (Some ''user'') (Some uid)
                                 (Some [(''was_already_deleted'', JBool (dc_already base)),
                                        (''refresh_tokens_deleted'', JInt (int (dc_refresh base))),
                                        (''reset_tokens_deleted'', JInt (int (dc_reset base))),
                                        (''serviced_by_sweep_count'', JInt (int (dc_sweep base))),
                                        (''files_expired_count'', JInt (int (dc_files base))),
                                        (''sessions_purged'', JInt (int n_sessions)),
                                        (''file_names_deleted'', JInt (int n_names))]) now d6
                      in Inr (Some (Some (base, n_sessions, n_names)), d7))))"

end
