(* ===== verification/AuthApi.thy ===== *)
theory AuthApi
  imports Http Accounts
begin

text \<open>
  \<open>bp_router/api/auth.py\<close>: login, rotation of refresh tokens, logout, change and reset of a
  password, channel linking and SSO.  An endpoint that requires authentication takes the
  principal its dependency yields (\<open>Auth\<close>).
\<close>

record token_pair =
  tp_access :: string
  tp_refresh :: string
  tp_expires :: time
  tp_level :: level

definition PRIVILEGED_LEVELS :: "level list" where
  "PRIVILEGED_LEVELS = [''admin'', ''service'']"

text \<open>The access token, issued from the row that was read.\<close>

definition issue_access :: "'r api_env \<Rightarrow> user_row \<Rightarrow> ('r, string \<times> time) http" where
  "issue_access en u r =
     (case issue_session_token (ae_jwt en) (router_key r) (u_id u) (u_level u) (session_jwt_ttl_s (rsettings r))
             (ae_now en) (ae_jti en) of
        Inl e \<Rightarrow> (Inl (token_http e), r)
      | Inr (tok, expires, jti) \<Rightarrow> (Inr (tok, expires), r))"

definition insert_refresh :: "'r api_env \<Rightarrow> string \<Rightarrow> user_id \<Rightarrow> ('r, unit) http" where
  "insert_refresh en tok uid =
     bindH (confH refresh_token_ttl_s) (\<lambda>ttl.
     tryH (insert_refresh_token (ae_sha en tok) uid (ae_now en + of_int ttl) (ae_now en)))"

definition token_pair_of :: "'r api_env \<Rightarrow> user_row \<Rightarrow> ('r, token_pair) http" where
  "token_pair_of en u =
     bindH (issue_access en u) (\<lambda>(access, expires).
     retH \<lparr>tp_access = access, tp_refresh = ae_token en, tp_expires = expires, tp_level = u_level u\<rparr>)"

text \<open>A single-bucket limit that answers 429.\<close>

definition limit_or_429 :: "'r api_env \<Rightarrow> string \<Rightarrow> (settings \<Rightarrow> rat \<times> int) \<Rightarrow> string \<Rightarrow> ('r, unit) http" where
  "limit_or_429 en key cap detail =
     bindH (confH cap) (\<lambda>l. bindH (bucket_wait en key l) (\<lambda>w. guardH (\<not> 0 < w) 429 detail))"

text \<open>\<open>user_is_active(user)\<close> and then the row.\<close>

definition active_user :: "user_id \<Rightarrow> int \<Rightarrow> string \<Rightarrow> ('r, user_row) http" where
  "active_user uid st detail =
     bindH (readH (get_user_by_id uid)) (\<lambda>u.
     if user_is_active u then someH u st detail else raiseH st detail)"

section \<open>Login\<close>

definition enforce_login_rate_limit :: "'r api_env \<Rightarrow> string \<Rightarrow> string \<Rightarrow> ('r, unit) http" where
  "enforce_login_rate_limit en ip email =
     bindH (confH login_rate_limit_per_ip) (\<lambda>l1.
     bindH (bucket_wait en (''login:ip:'' @ ip) l1) (\<lambda>ip_wait.
     bindH (confH login_rate_limit_per_email) (\<lambda>l2.
     bindH (bucket_wait en (''login:email:'' @ py_lower email) l2) (\<lambda>email_wait.
       if 0 < ip_wait \<or> 0 < email_wait
       then thenH (auditH en ''user'' None ''auth.login_rate_limited'' None None
                     (Some [(''bucket'', JStr (if ip_wait \<ge> email_wait then ''ip'' else ''email'')),
                            (''email'', JStr email), (''ip'', JStr ip)]))
                  (raiseH 429 ''too many login attempts'')
       else retH ()))))"

text \<open>The first connection: everything up to the row whose password was verified.\<close>

definition login_check :: "'r api_env \<Rightarrow> string \<Rightarrow> string \<Rightarrow> ('r, user_row) http" where
  "login_check en email password =
     bindH (readH (get_user_by_email email)) (\<lambda>u0.
     case (if user_is_active u0 then u0 else None) of
       None \<Rightarrow> thenH (auditH en ''user'' None ''auth.login_failed'' None None
                        (Some [(''email'', JStr email), (''reason'', JStr ''no_user'')]))
                     (raiseH 401 ''invalid credentials'')
     | Some u \<Rightarrow>
         if u_auth_kind u \<noteq> ''password'' \<or> \<not> truthy (u_secret u) then raiseH 401 ''invalid credentials''
         else let secret = py_or (u_secret u) ''''
              in if \<not> ae_verify en password secret
                 then thenH (auditH en ''user'' (Some (u_id u)) ''auth.login_failed'' None None
                               (Some [(''reason'', JStr ''bad_password'')]))
                            (raiseH 401 ''invalid credentials'')
                 else thenH (if ae_rehash en secret
                             then runH (set_user_password_hash (u_id u) (ae_hash en password)) else retH ())
                      (retH u))"

definition login :: "'r api_env \<Rightarrow> string \<Rightarrow> string \<Rightarrow> string \<Rightarrow> ('r, token_pair) http" where
  "login en ip email password =
     thenH (enforce_login_rate_limit en ip email)
     (bindH (login_check en email password) (\<lambda>u.
      thenH (othersH en)
      (bindH (token_pair_of en u) (\<lambda>pair.
       thenH (transaction
               (thenH (insert_refresh en (ae_token en) (u_id u))
                      (auditH en ''user'' (Some (u_id u)) ''auth.login_succeeded'' None None None)))
       (retH pair)))))"

section \<open>Rotation of refresh tokens\<close>

definition refresh_tx :: "'r api_env \<Rightarrow> string \<Rightarrow> ('r, user_row) http" where
  "refresh_tx en tok =
     bindH (execH (consume_refresh_token (ae_sha en tok) (ae_sha en (ae_token en)) (ae_now en))) (\<lambda>owner.
     case owner of
       None \<Rightarrow> thenH (auditH en ''user'' None ''auth.refresh_replayed'' None None None)
                     (raiseH 401 ''invalid refresh token'')
     | Some uid \<Rightarrow>
         bindH (active_user uid 401 ''user inactive'') (\<lambda>u.
         thenH (insert_refresh en (ae_token en) (u_id u))
         (thenH (auditH en ''user'' (Some (u_id u)) ''auth.refresh_succeeded'' None None None)
         (retH u))))"

definition refresh :: "'r api_env \<Rightarrow> string \<Rightarrow> string \<Rightarrow> ('r, token_pair) http" where
  "refresh en ip tok =
     thenH (limit_or_429 en (''refresh:ip:'' @ ip) refresh_rate_limit_per_ip ''too many refresh attempts'')
     (bindH (transaction (refresh_tx en tok)) (token_pair_of en))"

section \<open>Logout\<close>

text \<open>\<open>await revoke_jti(...)\<close> of a principal's own token, if Redis is configured.\<close>

definition revoke_own :: "'r api_env \<Rightarrow> session_principal \<Rightarrow> ('r, string option) http" where
  "revoke_own en p =
     bindH (confH session_jwt_ttl_s) (\<lambda>life.
     revoke_jti en (sp_jti p) (revoke_ttl (sp_expires p) (ae_now en) life))"

definition logout :: "'r api_env \<Rightarrow> session_principal \<Rightarrow> string option \<Rightarrow> ('r, unit) http" where
  "logout en p tok =
     bindH (revoke_own en p) (\<lambda>exc.
     thenH (guardH (exc = None) 500 (py_or exc ''''))
     (thenH (case tok of
         Some t \<Rightarrow> if t \<noteq> [] then bindH (execH (revoke_refresh_token (ae_sha en t) (ae_now en))) (\<lambda>_. retH ()) else retH ()
       | None \<Rightarrow> retH ())
     (auditH en ''user'' (Some (sp_user p)) ''auth.logout'' None None
        (Some [(''refresh_token_revoked'', JBool (truthy tok))]))))"

section \<open>Changing and resetting a password\<close>

definition change_password :: "'r api_env \<Rightarrow> session_principal \<Rightarrow> string \<Rightarrow> string \<Rightarrow> ('r, unit) http" where
  "change_password en p pw_old pw_new =
     thenH (guardH (8 \<le> length pw_new) 422 ''new_password'')
     (thenH (limit_or_429 en (''change_password:user:'' @ sp_user p) change_password_rate_limit_per_user
               ''too many change-password attempts'')
     (bindH (active_user (sp_user p) 404 ''user not found'') (\<lambda>u.
      if u_auth_kind u \<noteq> ''password'' \<or> \<not> truthy (u_secret u)
      then raiseH 409 (''cannot change password for auth_kind='' @ py_repr (u_auth_kind u))
      else if \<not> ae_verify en pw_old (py_or (u_secret u) '''')
      then thenH (auditH en ''user'' (Some (sp_user p)) ''auth.password_change_failed'' None None
                    (Some [(''reason'', JStr ''bad_current_password'')]))
                 (raiseH 401 ''invalid credentials'')
      else if pw_old = pw_new then raiseH 400 ''new password must differ from current password''
      else
        thenH (transaction
          (thenH (runH (set_user_password_hash (sp_user p) (ae_hash en pw_new)))
          (bindH (execH (delete_user_refresh_tokens (sp_user p))) (\<lambda>deleted.
           auditH en ''user'' (Some (sp_user p)) ''auth.password_changed'' None None
             (Some [(''refresh_tokens_revoked'', JInt (int deleted)),
                    (''active_jti_revoke_attempted'', JBool (ae_redis en \<noteq> None))])))))
        (if ae_redis en = None then retH ()
         else bindH (revoke_own en p) (\<lambda>exc.
              auditH en ''user'' (Some (sp_user p)) ''auth.password_change_revoke_jti'' None None
                (Some [(''outcome'', JStr (case exc of None \<Rightarrow> ''ok'' | Some e \<Rightarrow> ''failed:'' @ e))]))))))"

definition reset_tx :: "'r api_env \<Rightarrow> string \<Rightarrow> string \<Rightarrow> ('r, user_row) http" where
  "reset_tx en tok pw_new =
     bindH (execH (consume_password_reset_token (ae_sha en tok) (ae_now en))) (\<lambda>owner.
     case owner of
       None \<Rightarrow> thenH (auditH en ''user'' None ''auth.password_reset_token_invalid'' None None None)
                     (raiseH 401 ''invalid or expired token'')
     | Some uid \<Rightarrow>
         bindH (active_user uid 409 ''user inactive'') (\<lambda>u.
         thenH (guardH (u_auth_kind u = ''password'') 409
                  (''user auth_kind='' @ py_repr (u_auth_kind u) @
                   ''; password reset is only supported for password-authenticated users''))
         (thenH (runH (set_user_password_hash uid (ae_hash en pw_new)))
         (bindH (execH (delete_user_refresh_tokens uid)) (\<lambda>deleted.
          thenH (insert_refresh en (ae_token en) uid)
          (thenH (auditH en ''user'' (Some uid) ''auth.password_reset_token_consumed'' (Some ''user'') (Some uid)
                    (Some [(''refresh_tokens_revoked'', JInt (int deleted))]))
          (retH u)))))))"

definition reset_password :: "'r api_env \<Rightarrow> string \<Rightarrow> string \<Rightarrow> string \<Rightarrow> ('r, token_pair) http" where
  "reset_password en ip tok pw_new =
     bindH (confH password_reset_consume_rate_limit_per_ip) (\<lambda>l.
     bindH (bucket_wait en (''reset_password:ip:'' @ ip) l) (\<lambda>w.
     if 0 < w
     then thenH (auditH en ''user'' None ''auth.password_reset_rate_limited'' None None
                   (Some [(''ip'', JStr ip), (''retry_after_s'', JInt (max (py_trunc (w + 999 / 1000)) 1))]))
                (raiseH 429 ''too many reset-password attempts; retry later'')
     else bindH (transaction (reset_tx en tok pw_new)) (token_pair_of en)))"

section \<open>Linking a channel\<close>

definition mint_link_token :: "'r api_env \<Rightarrow> session_principal \<Rightarrow> ('r, string \<times> time) http" where
  "mint_link_token en p =
     thenH (limit_or_429 en (''link_token_mint:user:'' @ sp_user p) link_token_mint_rate_limit_per_user
              ''too many link-token mints; retry later'')
     (bindH (confH link_token_ttl_s) (\<lambda>ttl.
      let expires = ae_now en + of_int ttl
      in thenH (transaction
           (thenH (tryH (insert_password_reset_token (ae_sha en (ae_token en)) (sp_user p) expires (sp_user p)))
                  (auditH en ''user'' (Some (sp_user p)) ''auth.link_token_minted'' (Some ''user'') (Some (sp_user p))
                     (Some [(''expires_at'', JStr (isoformat expires))]))))
         (retH (ae_token en, expires))))"

definition link_tx :: "'r api_env \<Rightarrow> session_principal \<Rightarrow> string \<Rightarrow> bool \<Rightarrow> ('r, user_id) http" where
  "link_tx en p tok grant =
     bindH (execH (consume_password_reset_token (ae_sha en tok) (ae_now en))) (\<lambda>owner.
     case owner of
       None \<Rightarrow> thenH (auditH en ''user'' (Some (sp_user p)) ''auth.password_reset_token_invalid'' None None
                        (Some [(''purpose'', JStr ''link_channel'')]))
                     (raiseH 401 ''invalid or expired token'')
     | Some uid \<Rightarrow>
         bindH (active_user uid 409 ''user inactive'') (\<lambda>u.
         bindH (if \<not> grant then retH False
                else if u_level u \<in> set PRIVILEGED_LEVELS
                then bindH (denial_audit_allowed en (Some (sp_user p)) ''user.serviced_by_grant_denied'') (\<lambda>ok.
                     thenH (if ok then auditH en ''user'' (Some (sp_user p)) ''user.serviced_by_grant_denied''
                                         (Some ''user'') (Some uid)
                                         (Some [(''reason'', JStr ''privileged_target''), (''purpose'', JStr ''link_channel'')])
                            else retH ())
                     (raiseH 403 ''service principals may not be granted serviced_by over admin/service users''))
                else execH (append_to_serviced_by uid (sp_user p))) (\<lambda>granted.
         thenH (auditH en ''user'' (Some (sp_user p)) ''auth.channel_linked'' (Some ''user'') (Some uid)
                  (Some [(''service_user_id'', JStr (sp_user p)), (''grant_requested'', JBool grant),
                         (''serviced_by_granted'', JBool granted)]))
         (retH uid))))"

definition link_channel :: "'r api_env \<Rightarrow> session_principal \<Rightarrow> string \<Rightarrow> bool \<Rightarrow> ('r, user_id) http" where
  "link_channel en p tok grant =
     bindH (liftH (require_service p)) (\<lambda>p. transaction (link_tx en p tok grant))"

end
