(* ===== verification/UserAdmin.thy ===== *)
theory UserAdmin
  imports AuthApi
begin

text \<open>
  The part of \<open>bp_router/api/admin.py\<close> on invitations, users, credential grants and the
  registration queue, and \<open>bp_router/api/registrations.py\<close>.  A body that fails validation is
  answered with 422.  Registration ids are taken to be well-formed UUIDs.
\<close>

section \<open>Request shapes\<close>

text \<open>\<open>str.isalnum\<close> on code points below 256.\<close>

definition py_isalnum :: "char \<Rightarrow> bool" where
  "py_isalnum c = (is_lower c \<or> is_upper c \<or> is_digit c \<or>
     code c \<in> {170, 178, 179, 181, 185, 186, 188, 189, 190} \<or>
     (192 \<le> code c \<and> code c \<noteq> 215 \<and> code c \<noteq> 247))"

definition token_shape :: "string option \<Rightarrow> bool" where
  "token_shape v = (case v of None \<Rightarrow> True
     | Some t \<Rightarrow> 32 \<le> length t \<and> list_all (\<lambda>c. py_isalnum c \<or> c = CHR ''-'' \<or> c = CHR ''_'') t)"

definition user_id_shape :: "user_id option \<Rightarrow> bool" where
  "user_id_shape v = (case v of None \<Rightarrow> True
     | Some u \<Rightarrow>
         (let b = chomp u
          in starts_with ''usr_'' b \<and> 8 \<le> length (drop 4 b) \<and> length (drop 4 b) \<le> 128 \<and>
             list_all agent_char (drop 4 b) \<and> \<not> starts_with SERVICE_USER_ID_PREFIX u))"

section \<open>Invitations\<close>

definition same_invitation ::
  "session_principal \<Rightarrow> level \<Rightarrow> string option \<Rightarrow> bool \<Rightarrow> invitation_row \<Rightarrow> bool" where
  "same_invitation p lvl idem service i =
     (iv_by i = sp_user p \<and> iv_idem i = idem \<and> iv_level i = lvl \<and> iv_service i = service)"

definition issue_invitation ::
  "'r api_env \<Rightarrow> session_principal \<Rightarrow> level \<Rightarrow> int \<Rightarrow> string option \<Rightarrow> bool \<Rightarrow> string option \<Rightarrow> ('r, string \<times> time) http" where
  "issue_invitation en p0 lvl expires_in tok service idem =
     bindH (liftH (require_admin p0)) (\<lambda>p.
     thenH (guardH (is_valid_level lvl \<and> token_shape tok) 422 ''invitation'')
     (let token = py_or tok (ae_token en);
          expires = ae_now en + of_int expires_in;
          written = auditH en ''admin'' (Some (sp_user p)) ''invitation.issued'' None None
                    (Some [(''level'', JStr lvl), (''idempotent'', JBool (idem \<noteq> None)),
                           (''token_supplied'', JBool (tok \<noteq> None)), (''provisions_service_user'', JBool service)])
      in (\<lambda>r. case insert_invitation (ae_sha en token) lvl expires (sp_user p) idem service (ae_now en) (rdb r) of
            Inr (_, d) \<Rightarrow> thenH written (retH (token, expires)) (r\<lparr>rdb := d\<rparr>)
          | Inl (UniqueViolation c) \<Rightarrow>
              if c = ''invitations_pkey'' \<and> tok \<noteq> None \<and> idem \<noteq> None
              then (case get_invitation (ae_sha en token) (rdb r) of
                      Some i \<Rightarrow> if same_invitation p lvl idem service i then retH (token, iv_expires i) r
                                else raiseH 409 ''token already exists'' r
                    | None \<Rightarrow> raiseH 409 ''token already exists'' r)
              else if idem = None \<or> c \<noteq> ''invitations_created_by_idempotency_key_uniq'' then raiseH 500 c r
              else raiseH 409 ''Idempotency-Key already used'' r
          | Inl e \<Rightarrow> (Inl (db_http e), r))))"

definition invitation_view_status :: "time \<Rightarrow> invitation_row \<Rightarrow> string" where
  "invitation_view_status now i =
     (if iv_used i \<noteq> None then ''used'' else if iv_expires i < now then ''expired'' else ''valid'')"

definition list_invitations_api ::
  "'r api_env \<Rightarrow> session_principal \<Rightarrow> string option \<Rightarrow> nat \<Rightarrow> nat \<Rightarrow> ('r, (invitation_row \<times> string) list) http" where
  "list_invitations_api en p0 st limit offset =
     bindH (liftH (require_admin p0)) (\<lambda>p.
     bindH (readH (list_invitations limit offset st (ae_now en))) (\<lambda>rows.
     bindH (someH rows 422 ''status'') (\<lambda>rs. retH (map (\<lambda>i. (i, invitation_view_status (ae_now en) i)) rs))))"

definition revoke_invitation :: "'r api_env \<Rightarrow> session_principal \<Rightarrow> string \<Rightarrow> ('r, unit) http" where
  "revoke_invitation en p0 h =
     bindH (liftH (require_admin p0)) (\<lambda>p.
     bindH (readH (get_invitation h)) (\<lambda>found.
     bindH (someH found 404 ''invitation not found'') (\<lambda>i.
     thenH (guardH (iv_used i = None) 409 ''invitation already consumed; cannot revoke'')
     (thenH (othersH en)
     (transaction
       (bindH (execH (delete_invitation h)) (\<lambda>deleted.
        if \<not> deleted
        then bindH (readH (get_invitation h)) (\<lambda>after.
             case after of None \<Rightarrow> raiseH 404 ''invitation not found''
             | Some _ \<Rightarrow> raiseH 409 ''invitation already consumed; cannot revoke'')
        else auditH en ''admin'' (Some (sp_user p)) ''invitation.revoked'' (Some ''invitation'') (Some h)
               (Some [(''level'', JStr (iv_level i))])))))))) "

section \<open>Users\<close>

fun check_serviced_by :: "user_id list \<Rightarrow> ('r, unit) http" where
  "check_serviced_by [] = retH ()"
| "check_serviced_by (svc # rest) =
     bindH (readH (get_user_by_id svc)) (\<lambda>found.
     bindH (someH found 404 (''service user '' @ py_repr svc @ '' not found'')) (\<lambda>u.
     thenH (guardH (u_level u = ''service'') 400
              (''user '' @ py_repr svc @ '' has level='' @ py_repr (u_level u) @
               ''; only level=service users can be entries in serviced_by''))
     (check_serviced_by rest)))"

record create_user_request =
  cu_email :: string
  cu_level :: level
  cu_password :: "string option"
  cu_user_id :: "user_id option"
  cu_refresh :: "string option"
  cu_serviced_by :: "user_id list"   \<comment> \<open>\<open>None\<close> and the empty list are the same\<close>

definition seed_refresh :: "'r api_env \<Rightarrow> string option \<Rightarrow> user_id \<Rightarrow> ('r, unit) http" where
  "seed_refresh en tok uid = (case tok of None \<Rightarrow> retH () | Some t \<Rightarrow> insert_refresh en t uid)"

definition create_user :: "'r api_env \<Rightarrow> session_principal \<Rightarrow> create_user_request \<Rightarrow> ('r, user_row) http" where
  "create_user en p0 q =
     bindH (liftH (require_admin p0)) (\<lambda>p.
     thenH (guardH (is_valid_level (cu_level q) \<and> user_id_shape (cu_user_id q) \<and> token_shape (cu_refresh q)) 422 ''user'')
     (bindH (readH (get_user_by_email (cu_email q))) (\<lambda>dup.
      thenH (guardH (dup = None) 409 ''email already registered'')
      (thenH (case cu_user_id q of
          None \<Rightarrow> retH ()
        | Some uid \<Rightarrow> bindH (readH (get_user_by_id uid)) (\<lambda>x. guardH (x = None) 409 (''user_id '' @ py_repr uid @ '' already exists'')))
      (thenH (check_serviced_by (cu_serviced_by q))
      (thenH (othersH en)
      (transaction
        (bindH (tryH (insert_user (cu_user_id q) (Some (cu_email q)) (cu_level q)
                   (if truthy (cu_password q) then ''password'' else ''api_key'')
                   (if truthy (cu_password q) then map_option (ae_hash en) (cu_password q) else None)
                   (cu_serviced_by q) (ae_id en))) (\<lambda>u.
         thenH (seed_refresh en (cu_refresh q) (u_id u))
         (thenH (auditH en ''admin'' (Some (sp_user p)) ''user.created'' (Some ''user'') (Some (u_id u))
                   (Some [(''level'', JStr (cu_level q)), (''user_id_supplied'', JBool (cu_user_id q \<noteq> None)),
                          (''refresh_token_seeded'', JBool (cu_refresh q \<noteq> None)),
                          (''serviced_by'', JArr (map JStr (cu_serviced_by q)))]))
         (retH u)))))))))))"

text \<open>\<open>invalidate_user_level\<close> after the commit.\<close>

definition dropLevelH :: "user_id \<Rightarrow> ('r, unit) http" where
  "dropLevelH uid r = (Inr (), invalidate_user_level uid r)"

definition patch_user :: "level option \<Rightarrow> bool option \<Rightarrow> time \<Rightarrow> user_row \<Rightarrow> user_row" where
  "patch_user lvl susp now u =
     (let u1 = (case lvl of None \<Rightarrow> u | Some l \<Rightarrow> u\<lparr>u_level := l\<rparr>)
      in case susp of None \<Rightarrow> u1 | Some True \<Rightarrow> u1\<lparr>u_suspended := Some now\<rparr> | Some False \<Rightarrow> u1\<lparr>u_suspended := None\<rparr>)"

definition patch_events :: "level option \<Rightarrow> bool option \<Rightarrow> (string \<times> (string \<times> json) list) list" where
  "patch_events lvl susp =
     (case lvl of None \<Rightarrow> [] | Some l \<Rightarrow> [(''user.level_changed'', [(''level'', JStr l)])]) @
     (case susp of None \<Rightarrow> [] | Some True \<Rightarrow> [(''user.suspended'', [])] | Some False \<Rightarrow> [(''user.unsuspended'', [])])"

fun audit_all :: "'r api_env \<Rightarrow> user_id \<Rightarrow> user_id \<Rightarrow> (string \<times> (string \<times> json) list) list \<Rightarrow> ('r, unit) http" where
  "audit_all en actor target [] = retH ()"
| "audit_all en actor target (e # es) =
     thenH (auditH en ''admin'' (Some actor) (fst e) (Some ''user'') (Some target) (Some (snd e)))
       (audit_all en actor target es)"

definition update_user ::
  "'r api_env \<Rightarrow> session_principal \<Rightarrow> user_id \<Rightarrow> level option \<Rightarrow> bool option \<Rightarrow> ('r, user_row) http" where
  "update_user en p0 uid lvl susp =
     bindH (liftH (require_admin p0)) (\<lambda>p.
     thenH (guardH (case lvl of None \<Rightarrow> True | Some l \<Rightarrow> is_valid_level l) 422 ''level'')
     (if lvl = None \<and> susp = None
      then bindH (readH (get_user_by_id uid)) (\<lambda>u. someH u 404 ''user not found'')
      else bindH (transaction
             (bindH (readH (get_user_by_id uid)) (\<lambda>found.
              bindH (someH found 404 ''user not found'') (\<lambda>u.
              thenH (guardH (case lvl of None \<Rightarrow> True | Some l \<Rightarrow> level_check l) 500 ''users_level_check'')
              (thenH (runH (upd_user uid (patch_user lvl susp (ae_now en))))
              (thenH (audit_all en (sp_user p) uid (patch_events lvl susp))
              (retH (patch_user lvl susp (ae_now en) u)))))))) (\<lambda>u.
           thenH (dropLevelH uid) (retH u))))"

section \<open>Credentials minted for others\<close>

text \<open>The refusals shared by the two mint endpoints: a dampened audit event and a 403.\<close>

definition deny_mint :: "'r api_env \<Rightarrow> session_principal \<Rightarrow> string \<Rightarrow> user_id \<Rightarrow> string \<Rightarrow> string \<Rightarrow> ('r, unit) http" where
  "deny_mint en p event target reason detail =
     bindH (denial_audit_allowed en (Some (sp_user p)) event) (\<lambda>ok.
     thenH (if ok then auditH en ''user'' (Some (sp_user p)) event (Some ''user'') (Some target)
                         (Some [(''reason'', JStr reason)])
            else retH ())
     (raiseH 403 detail))"

definition mint_target :: "user_id \<Rightarrow> ('r, user_row) http" where
  "mint_target uid =
     bindH (readH (get_user_by_id uid)) (\<lambda>found.
     bindH (someH found 404 ''user not found'') (\<lambda>u.
     thenH (guardH (u_suspended u = None) 409 ''target user is suspended'')
     (thenH (guardH (u_deleted u = None) 410 ''target user has been deleted'')
     (retH u))))"

definition service_may_mint :: "'r api_env \<Rightarrow> session_principal \<Rightarrow> string \<Rightarrow> user_row \<Rightarrow> string \<Rightarrow> ('r, unit) http" where
  "service_may_mint en p event u detail =
     (if u_level u \<in> set PRIVILEGED_LEVELS
      then deny_mint en p event (u_id u) ''privileged_target''
             ''service principals may not mint tokens for admin/service users''
      else if sp_user p \<notin> set (u_serviced_by u)
      then deny_mint en p event (u_id u) ''not_serviced_by'' detail
      else retH ())"

definition enforce_per_target_mint_rate_limit ::
  "'r api_env \<Rightarrow> session_principal \<Rightarrow> user_id \<Rightarrow> string \<Rightarrow> (settings \<Rightarrow> rat \<times> int) \<Rightarrow> string \<Rightarrow> string \<Rightarrow> ('r, unit) http" where
  "enforce_per_target_mint_rate_limit en p target bucket limit event detail =
     bindH (confH limit) (\<lambda>l.
     bindH (quotaH en (bucket @ '':user:'' @ target) l) (\<lambda>d.
     if rl_allowed d then retH ()
     else bindH (denial_audit_allowed en (Some (sp_user p)) event) (\<lambda>ok.
          thenH (if ok then auditH en ''user'' (Some (sp_user p)) event (Some ''user'') (Some target)
                        (Some [(''retry_after_s'', JInt (max (py_trunc (retry_after_s d + 999 / 1000)) 1))])
                 else retH ())
          (raiseH 429 detail))))"

definition service_mint_refresh_token ::
  "'r api_env \<Rightarrow> session_principal \<Rightarrow> user_id \<Rightarrow> ('r, string \<times> time) http" where
  "service_mint_refresh_token en p0 target =
     bindH (liftH (require_service p0)) (\<lambda>p.
     bindH (mint_target target) (\<lambda>u.
     thenH (service_may_mint en p ''auth.refresh_token_mint_denied'' u ''not authorized to service this user'')
     (thenH (enforce_per_target_mint_rate_limit en p target ''service_mint_refresh_token''
              service_mint_refresh_token_rate_limit_per_target ''auth.refresh_token_service_mint_rate_limited''
              ''too many refresh-token mints for this user; retry later'')
     (thenH (othersH en)
     (bindH (confH refresh_token_ttl_s) (\<lambda>ttl.
      thenH (transaction
        (thenH (insert_refresh en (ae_token en) target)
               (auditH en ''user'' (Some (sp_user p)) ''auth.refresh_token_service_minted'' (Some ''user'') (Some target)
                  (Some [(''expires_at'', JStr (isoformat (ae_now en + of_int ttl)))]))))
      (retH (ae_token en, ae_now en + of_int ttl))))))))"

definition mint_password_reset_token ::
  "'r api_env \<Rightarrow> session_principal \<Rightarrow> user_id \<Rightarrow> ('r, string \<times> time) http" where
  "mint_password_reset_token en p target =
     bindH (mint_target target) (\<lambda>u.
     thenH (if sp_level p = ''admin'' then retH ()
            else if sp_level p = ''service''
            then service_may_mint en p ''auth.password_reset_mint_denied'' u ''not authorized to mint for this user''
            else raiseH 403 ''must be admin or service principal'')
     (thenH (enforce_per_target_mint_rate_limit en p target ''password_reset_mint''
              password_reset_mint_rate_limit_per_target ''auth.password_reset_mint_rate_limited''
              ''too many password-reset mints for this user; retry later'')
     (thenH (othersH en)
     (bindH (confH password_reset_token_ttl_s) (\<lambda>ttl.
      let expires = ae_now en + of_int ttl
      in thenH (transaction
        (thenH (tryH (insert_password_reset_token (ae_sha en (ae_token en)) target expires (sp_user p)))
               (auditH en ''user'' (Some (sp_user p)) ''auth.password_reset_token_minted'' (Some ''user'') (Some target)
                  (Some [(''expires_at'', JStr (isoformat expires))]))))
      (retH (ae_token en, expires)))))))"

definition grant_serviced_by :: "'r api_env \<Rightarrow> session_principal \<Rightarrow> user_id \<Rightarrow> user_id \<Rightarrow> ('r, unit) http" where
  "grant_serviced_by en p0 target svc =
     bindH (liftH (require_admin p0)) (\<lambda>p.
     bindH (readH (get_user_by_id svc)) (\<lambda>s0.
     bindH (someH s0 404 ''service user not found'') (\<lambda>s.
     thenH (guardH (u_level s = ''service'') 400
              (''user '' @ py_repr svc @ '' has level='' @ py_repr (u_level s) @
               ''; only level=service users can be entries in serviced_by''))
     (bindH (readH (get_user_by_id target)) (\<lambda>t0.
      bindH (someH t0 404 ''target user not found'') (\<lambda>t.
      thenH (guardH (u_level t \<notin> set PRIVILEGED_LEVELS) 400
               (''target user '' @ py_repr target @ '' has level='' @ py_repr (u_level t) @
                ''; serviced_by may not be granted over admin/service users''))
      (transaction
        (bindH (execH (append_to_serviced_by target svc)) (\<lambda>changed.
         if changed
         then auditH en ''admin'' (Some (sp_user p)) ''user.serviced_by_granted'' (Some ''user'') (Some target)
                (Some [(''service_user_id'', JStr svc)])
         else retH ())))))))))"

definition revoke_serviced_by :: "'r api_env \<Rightarrow> session_principal \<Rightarrow> user_id \<Rightarrow> user_id \<Rightarrow> ('r, unit) http" where
  "revoke_serviced_by en p0 target svc =
     bindH (liftH (require_admin p0)) (\<lambda>p.
     transaction
       (bindH (execH (remove_from_serviced_by target svc)) (\<lambda>changed.
        if changed
        then auditH en ''admin'' (Some (sp_user p)) ''user.serviced_by_revoked'' (Some ''user'') (Some target)
               (Some [(''service_user_id'', JStr svc)])
        else retH ())))"

definition revoke_user_refresh_tokens :: "'r api_env \<Rightarrow> session_principal \<Rightarrow> user_id \<Rightarrow> ('r, unit) http" where
  "revoke_user_refresh_tokens en p0 target =
     bindH (liftH (require_admin p0)) (\<lambda>p.
     transaction
       (bindH (readH (get_user_by_id target)) (\<lambda>found.
        bindH (someH found 404 ''user not found'') (\<lambda>_.
        bindH (execH (delete_user_refresh_tokens target)) (\<lambda>n.
        auditH en ''admin'' (Some (sp_user p)) ''user.refresh_tokens_revoked'' (Some ''user'') (Some target)
          (Some [(''deleted_count'', JInt (int n))]))))))"

definition delete_user :: "'r api_env \<Rightarrow> session_principal \<Rightarrow> user_id \<Rightarrow> bool \<Rightarrow> ('r, unit) http" where
  "delete_user en p0 target purge =
     bindH (liftH (require_admin p0)) (\<lambda>p.
     thenH (guardH (target \<noteq> sp_user p) 400 ''cannot delete your own user'')
     (bindH (transaction
        (if purge
         then bindH (tryH (purge_user (dep_digest (ae_deps en)) target (Some (sp_user p)) (ae_now en))) (\<lambda>res.
              bindH (someH res 404 ''user not found'') (\<lambda>_. retH True))
         else bindH (execH (soft_delete_user target (ae_now en))) (\<lambda>res.
              bindH (someH res 404 ''user not found'') (\<lambda>c.
              if dc_already c then retH False
              else thenH (auditH en ''admin'' (Some (sp_user p)) ''user.deleted'' (Some ''user'') (Some target)
                     (Some [(''refresh_tokens_deleted'', JInt (int (dc_refresh c))),
                            (''reset_tokens_deleted'', JInt (int (dc_reset c))),
                            (''serviced_by_sweep_count'', JInt (int (dc_sweep c)))]))
                   (retH True))))) (\<lambda>go.
      if go then thenH (dropLevelH target) (metricH ''users_soft_deleted_total'' '''')
      else retH ())))"

definition serviced_sessions ::
  "session_principal \<Rightarrow> string option \<Rightarrow> time option \<Rightarrow> nat \<Rightarrow> ('r, session_row list) http" where
  "serviced_sessions p0 channel since limit =
     bindH (liftH (require_service p0)) (\<lambda>p. readH (list_serviced_sessions (sp_user p) channel since limit))"

definition filter_existing_sessions :: "session_principal \<Rightarrow> session_id list \<Rightarrow> ('r, session_id list) http" where
  "filter_existing_sessions p0 sids =
     bindH (liftH (require_service p0)) (\<lambda>p.
     thenH (guardH (length sids \<le> 1000) 422 ''session_ids'')
     (readH (\<lambda>d. filter (\<lambda>s. s \<in> set sids) (map s_id (sessions d)))))"

definition filter_purged_users :: "session_principal \<Rightarrow> user_id list \<Rightarrow> ('r, user_id list) http" where
  "filter_purged_users p0 uids =
     bindH (liftH (require_service p0)) (\<lambda>p.
     thenH (guardH (length uids \<le> 1000) 422 ''user_ids'')
     (readH (\<lambda>d. map u_id (filter (\<lambda>u. u_id u \<in> set uids \<and> u_purged u \<noteq> None) (users d)))))"

end
