(* ===== verification/Registrations.thy ===== *)
theory Registrations
  imports UserAdmin
begin

text \<open>
  The registration queue: \<open>bp_router/api/registrations.py\<close> (submissions by a channel and by the
  public web form) and the admin side of it in \<open>bp_router/api/admin.py\<close>.  A body that fails
  validation is answered with 422.
\<close>

section \<open>Submissions\<close>

definition WEB_CHANNEL :: string where
  "WEB_CHANNEL = ''webapp''"

definition PASSWORD_MIN_LEN :: nat where
  "PASSWORD_MIN_LEN = 8"

definition EXTERNAL_ID_MAX_LEN :: nat where
  "EXTERNAL_ID_MAX_LEN = 256"

definition DISPLAY_NAME_MAX_LEN :: nat where
  "DISPLAY_NAME_MAX_LEN = 256"

record registration_request =
  rq_channel :: string
  rq_external :: string
  rq_display :: "string option"
  rq_email :: "string option"
  rq_metadata :: "(string \<times> json) list"

definition display_ok :: "string option \<Rightarrow> bool" where
  "display_ok d = (case d of None \<Rightarrow> True | Some s \<Rightarrow> length s \<le> DISPLAY_NAME_MAX_LEN)"

definition registration_request_ok :: "registration_request \<Rightarrow> bool" where
  "registration_request_ok q =
     (length (rq_channel q) \<le> 32 \<and> channel_check (chomp (rq_channel q)) \<and>
      1 \<le> length (rq_external q) \<and> length (rq_external q) \<le> EXTERNAL_ID_MAX_LEN \<and> display_ok (rq_display q))"

definition retry_after_of :: "rat \<Rightarrow> int" where
  "retry_after_of wait = max (py_trunc (max wait 1 + 999 / 1000)) 1"

definition registration_deny ::
  "'r api_env \<Rightarrow> string \<Rightarrow> user_id option \<Rightarrow> (string \<times> json) list \<Rightarrow> ('r, unit) http" where
  "registration_deny en damp actor payload =
     bindH (denial_audit_allowed en (Some damp) ''registration.rate_limited'') (\<lambda>ok.
     thenH (if ok then auditH en ''user'' actor ''registration.rate_limited'' None None (Some payload) else retH ())
     (raiseH 429 ''too many registration submissions; retry later''))"

text \<open>One bucket of \<open>submit_registration\<close>.\<close>

definition registration_bucket ::
  "'r api_env \<Rightarrow> session_principal \<Rightarrow> registration_request \<Rightarrow> string \<Rightarrow> (settings \<Rightarrow> rat \<times> int) \<Rightarrow> string \<Rightarrow>
   ('r, unit) http" where
  "registration_bucket en p q key limit scope =
     bindH (confH limit) (\<lambda>l.
     bindH (quotaH en key l) (\<lambda>d.
     if rl_allowed d then retH ()
     else registration_deny en (sp_user p) (Some (sp_user p))
            [(''channel'', JStr (rq_channel q)), (''external_id'', JStr (rq_external q)),
             (''retry_after_s'', JInt (retry_after_of (retry_after_s d))), (''scope'', JStr scope)]))"

definition store_registration ::
  "'r api_env \<Rightarrow> user_id option \<Rightarrow> string \<Rightarrow> string \<Rightarrow> string option \<Rightarrow> string option \<Rightarrow> (string \<times> json) list \<Rightarrow>
   user_id option \<Rightarrow> string option \<Rightarrow> (string \<times> json) list \<Rightarrow> ('r, string \<times> nat) http" where
  "store_registration en actor channel ext display email meta submitter secret extra =
     transaction
       (thenH (runH (log_registration_attempt channel ext (ae_now en)))
       (bindH (tryH (upsert_pending_registration channel ext display email meta submitter secret (ae_id en) (ae_now en))) (\<lambda>g.
        thenH (auditH en ''user'' actor ''registration.submitted'' (Some ''registration'') (Some (pg_id g))
                 (Some ([(''channel'', JStr channel), (''external_id'', JStr ext),
                         (''attempts'', JInt (int (pg_attempts g)))] @ extra)))
        (retH (pg_id g, pg_attempts g)))))"

definition submit_registration ::
  "'r api_env \<Rightarrow> session_principal \<Rightarrow> registration_request \<Rightarrow> ('r, string \<times> nat) http" where
  "submit_registration en p q =
     thenH (guardH (registration_request_ok q) 422 ''registration'')
     (thenH (registration_bucket en p q (''registration_submitter:'' @ sp_user p)
               registration_rate_limit_per_submitter ''per_submitter'')
     (thenH (registration_bucket en p q (''registration:'' @ rq_channel q @ '':'' @ rq_external q)
               registration_rate_limit_per_external ''per_external'')
     (store_registration en (Some (sp_user p)) (rq_channel q) (rq_external q) (rq_display q) (rq_email q) (rq_metadata q)
        (if sp_level p = ''service'' then Some (sp_user p) else None) None [])))"

definition submit_web_registration ::
  "'r api_env \<Rightarrow> string \<Rightarrow> string \<Rightarrow> string \<Rightarrow> string option \<Rightarrow> ('r, string \<times> nat) http" where
  "submit_web_registration en ip req_email password display =
     (let email = py_lower req_email
      in thenH (guardH (PASSWORD_MIN_LEN \<le> length password \<and> length password \<le> 1024 \<and> display_ok display) 422 ''registration'')
     (bindH (confH registration_web_rate_limit_per_ip) (\<lambda>l1.
      bindH (bucket_wait en (''registration_web:ip:'' @ ip) l1) (\<lambda>ip_wait.
      bindH (confH registration_rate_limit_per_external) (\<lambda>l2.
      bindH (bucket_wait en (''registration:'' @ WEB_CHANNEL @ '':'' @ email) l2) (\<lambda>ext_wait.
      thenH (if 0 < ip_wait \<or> 0 < ext_wait
             then registration_deny en (''ip:'' @ ip) None
                    [(''channel'', JStr WEB_CHANNEL), (''external_id'', JStr email),
                     (''retry_after_s'', JInt (retry_after_of (max ip_wait ext_wait))),
                     (''scope'', JStr (if ip_wait \<ge> ext_wait then ''per_ip'' else ''per_external'')),
                     (''self_service'', JBool True)]
             else retH ())
      (store_registration en None WEB_CHANNEL email display (Some email) [] None (Some (ae_hash en password))
         [(''self_service'', JBool True)])))))))"

section \<open>Approval\<close>

definition list_registrations ::
  "session_principal \<Rightarrow> string option \<Rightarrow> user_id option \<Rightarrow> nat \<Rightarrow> nat \<Rightarrow> ('r, registration_row list) http" where
  "list_registrations p0 channel submitter limit offset =
     bindH (liftH (require_admin p0)) (\<lambda>p. readH (list_pending_registrations channel submitter limit offset))"

record approve_request =
  aq_email :: "string option"
  aq_password :: "string option"
  aq_level :: level
  aq_label :: "string option"

record approved =
  av_user :: user_id
  av_email :: string
  av_session :: session_id
  av_password :: "string option"

text \<open>The password to reveal and the hash to store.\<close>

definition approved_secret :: "'r api_env \<Rightarrow> approve_request \<Rightarrow> registration_row \<Rightarrow> string option \<times> string" where
  "approved_secret en q g =
     (if truthy (aq_password q) then (aq_password q, ae_hash en (py_or (aq_password q) ''''))
      else if truthy (pg_secret g) then (None, py_or (pg_secret g) '''')
      else (Some (ae_token en), ae_hash en (ae_token en)))"

definition approve_registration ::
  "'r api_env \<Rightarrow> session_principal \<Rightarrow> string \<Rightarrow> approve_request \<Rightarrow> ('r, approved) http" where
  "approve_registration en p0 rid q =
     bindH (liftH (require_admin p0)) (\<lambda>p.
     thenH (guardH (is_valid_level (aq_level q)) 422 ''level'')
     (transaction
       (bindH (readH (get_registration rid)) (\<lambda>found.
        bindH (someH found 404 ''registration not found'') (\<lambda>g.
        let email = py_or (aq_email q) (py_or (pg_email g) '''')
        in thenH (guardH (email \<noteq> []) 422 ''email required (no requested_email on the pending row)'')
        (bindH (readH (get_user_by_email email)) (\<lambda>dup.
         thenH (guardH (dup = None) 409 (''user with email '' @ py_repr email @ '' already exists''))
         (let (password, secret) = approved_secret en q g; submitter = pg_by g
          in bindH (tryH (insert_user None (Some email) (aq_level q) ''password'' (Some secret)
                            (if truthy submitter then [py_or submitter ''''] else []) (ae_id en))) (\<lambda>u.
             let label = py_or (aq_label q)
                   (pg_channel g @ '' '' @ [CHR 0xB7] @ '' '' @ iso_date (ae_now en) @ '' '' @ iso_minutes (ae_now en) @ '' UTC'')
             in bindH (tryH (open_session (u_id u) (ae_sid en)
                   [(''kind'', JStr (pg_channel g)), (''label'', JStr label), (''external_id'', JStr (pg_external g))]
                   (ae_now en))) (\<lambda>s.
             bindH (execH (delete_pending_registration rid)) (\<lambda>_.
             thenH (auditH en ''admin'' (Some (sp_user p)) ''registration.approved'' (Some ''user'') (Some (u_id u))
                      (Some [(''channel'', JStr (pg_channel g)), (''external_id'', JStr (pg_external g)),
                             (''email'', JStr email), (''level'', JStr (aq_level q)), (''session_id'', JStr (s_id s)),
                             (''auto_serviced_by'', case submitter of None \<Rightarrow> JNull | Some x \<Rightarrow> JStr x)]))
             (retH \<lparr>av_user = u_id u, av_email = email, av_session = s_id s, av_password = password\<rparr>))))))))))))"

definition reject_registration :: "'r api_env \<Rightarrow> session_principal \<Rightarrow> string \<Rightarrow> ('r, unit) http" where
  "reject_registration en p0 rid =
     bindH (liftH (require_admin p0)) (\<lambda>p.
     transaction
       (bindH (readH (get_registration rid)) (\<lambda>found.
        bindH (someH found 404 ''registration not found'') (\<lambda>g.
        bindH (execH (delete_pending_registration rid)) (\<lambda>_.
        auditH en ''admin'' (Some (sp_user p)) ''registration.rejected'' (Some ''registration'') (Some rid)
          (Some [(''channel'', JStr (pg_channel g)), (''external_id'', JStr (pg_external g))]))))))"

end
