(* ===== verification/Oidc.thy ===== *)
theory Oidc
  imports Http FileNames
begin

text \<open>
  \<open>bp_router/security/oidc.py\<close>: the relying party of an OpenID provider.  The state is what the
  client object caches; HTTP and PyJWT are parameters (\<open>oidc_net\<close>), every answer being a value
  or the text of the exception.  A fault is an \<open>OidcError\<close> or an exception nobody catches.
\<close>

section \<open>State and environment\<close>

record oidc_client =
  oc_issuer :: string
  oc_client_id :: string
  oc_client_secret :: string
  oc_scopes :: string
  oc_cache_ttl_s :: rat
  oc_discovery :: "(json \<times> time) option"
  oc_jwks :: "(json \<times> time) option"

text \<open>\<open>OidcProvider(issuer=...)\<close>.\<close>

definition rstrip_char :: "char \<Rightarrow> string \<Rightarrow> string" where
  "rstrip_char c s = rev (dropWhile (\<lambda>x. x = c) (rev s))"

definition new_client :: "string \<Rightarrow> string \<Rightarrow> string \<Rightarrow> string \<Rightarrow> rat \<Rightarrow> oidc_client" where
  "new_client issuer cid secret scopes ttl = \<lparr>oc_issuer = rstrip_char CHR ''/'' issuer, oc_client_id = cid,
     oc_client_secret = secret, oc_scopes = scopes, oc_cache_ttl_s = ttl, oc_discovery = None, oc_jwks = None\<rparr>"

datatype post_reply = Unreachable string | Replied int "json option"   \<comment> \<open>status and body, if it is JSON\<close>

record oidc_net =
  on_get :: "string \<Rightarrow> string + json"
  on_post :: "string \<Rightarrow> (string \<times> string) list \<Rightarrow> post_reply"
  on_header :: "string \<Rightarrow> string + (string \<times> json) list"   \<comment> \<open>\<open>get_unverified_header\<close>\<close>
  on_key :: "json \<Rightarrow> string \<Rightarrow> string + string"             \<comment> \<open>\<open>from_jwk\<close>\<close>
  on_decode :: "string \<Rightarrow> string \<Rightarrow> string \<Rightarrow> string \<Rightarrow> string \<Rightarrow> string + claims"   \<comment> \<open>token, key, alg, audience, issuer\<close>
  on_time :: time

datatype oidc_fault = OidcError string | OidcUncaught string

type_synonym 'a oidc = "oidc_client \<Rightarrow> (oidc_fault + 'a) \<times> oidc_client"

definition failO :: "string \<Rightarrow> 'a oidc" where
  "failO msg c = (Inl (OidcError msg), c)"

definition crashO :: "string \<Rightarrow> 'a oidc" where
  "crashO msg c = (Inl (OidcUncaught msg), c)"

definition ALLOWED_ALGS :: "string list" where
  "ALLOWED_ALGS = [''RS256'', ''RS384'', ''RS512'', ''ES256'', ''ES384'', ''ES512'']"

section \<open>\<open>urllib.parse.urlencode\<close>\<close>

definition plus_char :: "char \<Rightarrow> string" where
  "plus_char c = (if c = CHR '' '' then ''+'' else quote_char c)"

definition urlencode :: "(string \<times> string) list \<Rightarrow> string" where
  "urlencode kvs = join_with ''&''
     (map (\<lambda>(k, v). concat (map plus_char k) @ ''='' @ concat (map plus_char v)) kvs)"

definition with_query :: "string \<Rightarrow> (string \<times> string) list \<Rightarrow> string" where
  "with_query endpoint kvs = endpoint @ (if CHR ''?'' \<in> set endpoint then ''&'' else ''?'') @ urlencode kvs"

section \<open>Discovery and keys\<close>

definition fresh :: "(json \<times> time) option \<Rightarrow> rat \<Rightarrow> time \<Rightarrow> json option" where
  "fresh c ttl now = (case c of None \<Rightarrow> None | Some (v, t) \<Rightarrow> if now - t < ttl then Some v else None)"

definition discovery :: "oidc_net \<Rightarrow> json oidc" where
  "discovery net c =
     (case fresh (oc_discovery c) (oc_cache_ttl_s c) (on_time net) of
        Some doc \<Rightarrow> (Inr doc, c)
      | None \<Rightarrow>
          (case on_get net (oc_issuer c @ ''/.well-known/openid-configuration'') of
             Inl e \<Rightarrow> failO (''OIDC discovery failed: '' @ e) c
           | Inr (JObj kvs) \<Rightarrow>
               (case map_of kvs ''issuer'' of
                  Some (JStr iss) \<Rightarrow>
                    if rstrip_char CHR ''/'' iss \<noteq> oc_issuer c then failO ''OIDC discovery issuer mismatch'' c
                    else (Inr (JObj kvs), c\<lparr>oc_discovery := Some (JObj kvs, on_time net)\<rparr>)
                | None \<Rightarrow> if oc_issuer c \<noteq> [] then failO ''OIDC discovery issuer mismatch'' c
                          else (Inr (JObj kvs), c\<lparr>oc_discovery := Some (JObj kvs, on_time net)\<rparr>)
                | _ \<Rightarrow> crashO ''AttributeError'' c)
           | _ \<Rightarrow> crashO ''AttributeError'' c))"

text \<open>An endpoint of the discovery document; \<open>None\<close> when it is absent or false.\<close>

definition disco_str :: "json \<Rightarrow> string \<Rightarrow> string option" where
  "disco_str doc k = (case json_get doc k of Some (JStr s) \<Rightarrow> if s = [] then None else Some s | _ \<Rightarrow> None)"

definition jwks :: "oidc_net \<Rightarrow> bool \<Rightarrow> json oidc" where
  "jwks net force c =
     (case (if force then None else fresh (oc_jwks c) (oc_cache_ttl_s c) (on_time net)) of
        Some ks \<Rightarrow> (Inr ks, c)
      | None \<Rightarrow>
          bindH (discovery net) (\<lambda>doc c1.
            case disco_str doc ''jwks_uri'' of
              None \<Rightarrow> failO ''OIDC discovery has no jwks_uri'' c1
            | Some uri \<Rightarrow>
                (case on_get net uri of
                   Inl e \<Rightarrow> failO (''OIDC JWKS fetch failed: '' @ e) c1
                 | Inr ks \<Rightarrow> (Inr ks, c1\<lparr>oc_jwks := Some (ks, on_time net)\<rparr>))) c)"

definition select_jwk :: "json list \<Rightarrow> json option \<Rightarrow> json option" where
  "select_jwk keys kid =
     (case kid of
        Some k \<Rightarrow> find (\<lambda>j. json_get j ''kid'' = Some k) keys
      | None \<Rightarrow> (case keys of [j] \<Rightarrow> Some j | _ \<Rightarrow> None))"

definition key_from_jwk :: "oidc_net \<Rightarrow> json \<Rightarrow> string \<Rightarrow> string oidc" where
  "key_from_jwk net jwk alg c =
     (if starts_with ''RS'' alg \<or> starts_with ''ES'' alg
      then (case on_key net jwk alg of Inl e \<Rightarrow> crashO e c | Inr k \<Rightarrow> (Inr k, c))
      else failO (''unsupported id_token alg '' @ py_repr alg) c)"

text \<open>\<open>jwks.get("keys", [])\<close>.\<close>

definition jwks_keys :: "json \<Rightarrow> json list option" where
  "jwks_keys ks = (case ks of
     JObj kvs \<Rightarrow> (case map_of kvs ''keys'' of None \<Rightarrow> Some [] | Some (JArr js) \<Rightarrow> Some js | _ \<Rightarrow> None)
   | _ \<Rightarrow> None)"

fun signing_key :: "oidc_net \<Rightarrow> json option \<Rightarrow> string \<Rightarrow> bool list \<Rightarrow> string oidc" where
  "signing_key net kid alg [] = failO ''no JWKS key matches id_token kid''"
| "signing_key net kid alg (force # rest) =
     bindH (jwks net force) (\<lambda>ks.
       case jwks_keys ks of
         None \<Rightarrow> crashO ''AttributeError''
       | Some keys \<Rightarrow>
           (case select_jwk keys kid of
              Some j \<Rightarrow> key_from_jwk net j alg
            | None \<Rightarrow> signing_key net kid alg rest))"

section \<open>Redirect, exchange, validation\<close>

definition authorize_url :: "oidc_net \<Rightarrow> string \<Rightarrow> string \<Rightarrow> string \<Rightarrow> string \<Rightarrow> string oidc" where
  "authorize_url net redirect_uri st nonce challenge =
     bindH (discovery net) (\<lambda>doc c.
       case disco_str doc ''authorization_endpoint'' of
         None \<Rightarrow> failO ''OIDC discovery has no authorization_endpoint'' c
       | Some endpoint \<Rightarrow>
           (Inr (with_query endpoint
              [(''response_type'', ''code''), (''client_id'', oc_client_id c), (''redirect_uri'', redirect_uri),
               (''scope'', oc_scopes c), (''state'', st), (''nonce'', nonce), (''code_challenge'', challenge),
               (''code_challenge_method'', ''S256'')]), c))"

definition exchange_code :: "oidc_net \<Rightarrow> string \<Rightarrow> string \<Rightarrow> string \<Rightarrow> json oidc" where
  "exchange_code net auth_code verifier redirect_uri =
     bindH (discovery net) (\<lambda>doc c.
       case disco_str doc ''token_endpoint'' of
         None \<Rightarrow> failO ''OIDC discovery has no token_endpoint'' c
       | Some endpoint \<Rightarrow>
           (case on_post net endpoint
                   [(''grant_type'', ''authorization_code''), (''code'', auth_code), (''redirect_uri'', redirect_uri),
                    (''client_id'', oc_client_id c), (''client_secret'', oc_client_secret c), (''code_verifier'', verifier)] of
              Unreachable e \<Rightarrow> failO (''OIDC token endpoint unreachable: '' @ e) c
            | Replied status body \<Rightarrow>
                if 400 \<le> status then failO (''OIDC token exchange rejected ('' @ show_int status @ '')'') c
                else (case body of
                        None \<Rightarrow> failO ''OIDC token response was not JSON'' c
                      | Some j \<Rightarrow> if json_get j ''id_token'' = None then failO ''OIDC token response missing id_token'' c
                                  else (Inr j, c))))"

definition validate_id_token :: "oidc_net \<Rightarrow> string \<Rightarrow> string \<Rightarrow> claims oidc" where
  "validate_id_token net tok nonce c =
     (case on_header net tok of
        Inl e \<Rightarrow> failO (''malformed id_token header: '' @ e) c
      | Inr header \<Rightarrow>
          (case map_of header ''alg'' of
             Some (JStr alg) \<Rightarrow>
               if alg \<notin> set ALLOWED_ALGS then failO (''unsupported id_token alg '' @ py_repr alg) c
               else bindH (signing_key net (case map_of header ''kid'' of Some JNull \<Rightarrow> None | k \<Rightarrow> k) alg [False, True]) (\<lambda>key c1.
                 case on_decode net tok key alg (oc_client_id c1) (oc_issuer c1) of
                   Inl e \<Rightarrow> failO (''id_token validation failed: '' @ e) c1
                 | Inr claims \<Rightarrow>
                     if nonce = [] \<or> map_of claims ''nonce'' \<noteq> Some (JStr nonce) then failO ''id_token nonce mismatch'' c1
                     else (case map_of claims ''azp'' of
                             None \<Rightarrow> (Inr claims, c1)
                           | Some JNull \<Rightarrow> (Inr claims, c1)
                           | Some azp \<Rightarrow> if azp \<noteq> JStr (oc_client_id c1) then failO ''id_token azp mismatch'' c1
                                         else (Inr claims, c1))) c
           | _ \<Rightarrow> failO ''unsupported id_token alg'' c))"

definition end_session_url :: "oidc_net \<Rightarrow> string option \<Rightarrow> string option \<Rightarrow> string option oidc" where
  "end_session_url net hint redirect_uri =
     bindH (discovery net) (\<lambda>doc c.
       case disco_str doc ''end_session_endpoint'' of
         None \<Rightarrow> (Inr None, c)
       | Some endpoint \<Rightarrow>
           let params = (if truthy hint then [(''id_token_hint'', py_or hint '''')] else []) @
                        (if truthy redirect_uri then [(''post_logout_redirect_uri'', py_or redirect_uri '''')] else [])
           in (Inr (Some (if params = [] then endpoint else with_query endpoint params)), c))"

end
