(* ===== verification/Sso.thy ===== *)
theory Sso
  imports AuthApi Oidc
begin

text \<open>
  The SSO endpoints of \<open>bp_router/api/auth.py\<close>.  The state is the OIDC client and the router;
  without a client SSO is off.
\<close>

section \<open>Who a subject is\<close>

text \<open>\<open>str(g)\<close> of the JSON values a group claim holds.\<close>

definition group_str :: "json \<Rightarrow> string" where
  "group_str j = (case j of JStr s \<Rightarrow> s | JInt i \<Rightarrow> show_int i | JBool b \<Rightarrow> (if b then ''True'' else ''False'')
     | JNull \<Rightarrow> ''None'' | _ \<Rightarrow> json_dumps j)"

definition claim_groups :: "settings \<Rightarrow> claims \<Rightarrow> string list" where
  "claim_groups conf claims =
     (case map_of claims (oidc_group_claim conf) of
        None \<Rightarrow> []
      | Some (JArr js) \<Rightarrow> map group_str js
      | Some j \<Rightarrow> if json_truthy j then [group_str j] else [])"

fun level_from_mappings :: "(string \<times> level) list \<Rightarrow> string list \<Rightarrow> level \<Rightarrow> level" where
  "level_from_mappings [] carried d = d"
| "level_from_mappings ((g, lvl) # rest) carried d =
     (if g \<in> set carried then lvl else level_from_mappings rest carried d)"

definition level_from_groups :: "settings \<Rightarrow> string list \<Rightarrow> level" where
  "level_from_groups conf groups = level_from_mappings (oidc_group_to_level conf) groups (oidc_default_level conf)"

definition claim_email :: "claims \<Rightarrow> string option" where
  "claim_email claims = (case map_of claims ''email'' of Some (JStr e) \<Rightarrow> Some e | _ \<Rightarrow> None)"

definition email_verified :: "claims \<Rightarrow> bool" where
  "email_verified claims = (case map_of claims ''email_verified'' of None \<Rightarrow> False | Some j \<Rightarrow> json_truthy j)"

text \<open>Any violation is a conflict.\<close>

definition link_or_conflict ::
  "'r api_env \<Rightarrow> string \<Rightarrow> string \<Rightarrow> user_id \<Rightarrow> string option \<Rightarrow> ('r, unit) http" where
  "link_or_conflict en issuer sub uid email r =
     (case link_oidc_identity issuer sub uid email (ae_now en) (rdb r) of
        Inl e \<Rightarrow> raiseH 409 ''this identity is already linked to another account'' r
      | Inr (_, d) \<Rightarrow> (Inr (), r\<lparr>rdb := d\<rparr>))"

text \<open>The subject is a required claim of the token (\<open>validate_id_token\<close>).\<close>

definition claim_sub :: "claims \<Rightarrow> ('r, string) http" where
  "claim_sub claims = (case map_of claims ''sub'' of Some (JStr s) \<Rightarrow> retH s | _ \<Rightarrow> raiseH 500 ''sub'')"

definition auto_link_target :: "settings \<Rightarrow> claims \<Rightarrow> db \<Rightarrow> user_row option" where
  "auto_link_target conf claims d =
     (if oidc_auto_link_by_verified_email conf \<and> email_verified claims
      then (case claim_email claims of
              None \<Rightarrow> None
            | Some e \<Rightarrow>
                (case get_user_by_email e d of
                   Some u \<Rightarrow> if e \<noteq> [] \<and> user_is_active (Some u) \<and> u_level u \<notin> set PRIVILEGED_LEVELS then Some u else None
                 | None \<Rightarrow> None))
      else None)"

definition provision_oidc_user ::
  "'r api_env \<Rightarrow> settings \<Rightarrow> string \<Rightarrow> claims \<Rightarrow> string \<Rightarrow> ('r, user_row \<times> string) http" where
  "provision_oidc_user en conf issuer claims sub =
     thenH (guardH (oidc_jit_provisioning conf) 403 ''no account for this identity; ask an administrator'')
     (bindH (readH (\<lambda>d. case claim_email claims of
               None \<Rightarrow> None
             | Some e \<Rightarrow> if e \<noteq> [] \<and> email_verified claims \<and> get_user_by_email e d = None then Some e else None)) (\<lambda>store_email.
      bindH (tryH (insert_user None store_email (level_from_groups conf (claim_groups conf claims)) ''oidc'' None []
                     (ae_id en))) (\<lambda>u.
      thenH (link_or_conflict en issuer sub (u_id u) (claim_email claims))
      (retH (u, ''provisioned'')))))"

definition resolve_or_provision_oidc_user ::
  "'r api_env \<Rightarrow> string \<Rightarrow> claims \<Rightarrow> ('r, user_row \<times> string) http" where
  "resolve_or_provision_oidc_user en issuer claims =
     bindH (claim_sub claims) (\<lambda>sub.
     bindH (confH (\<lambda>c. c)) (\<lambda>conf.
     bindH (readH (get_user_by_oidc_sub issuer sub)) (\<lambda>linked.
     case linked of
       Some u \<Rightarrow>
         thenH (guardH (user_is_active (Some u)) 403 ''account is not active'')
         (thenH (runH (touch_oidc_identity issuer sub (ae_now en))) (retH (u, ''login'')))
     | None \<Rightarrow>
         thenH (guardH (oidc_allowed_groups conf = [] \<or>
                        list_ex (\<lambda>g. g \<in> set (oidc_allowed_groups conf)) (claim_groups conf claims)) 403
                  ''not permitted to sign in'')
         (bindH (readH (auto_link_target conf claims)) (\<lambda>target.
          case target of
            Some u \<Rightarrow> thenH (link_or_conflict en issuer sub (u_id u) (claim_email claims)) (retH (u, ''linked_email''))
          | None \<Rightarrow> provision_oidc_user en conf issuer claims sub)))))"

definition link_oidc_via_token :: "'r api_env \<Rightarrow> string \<Rightarrow> string \<Rightarrow> claims \<Rightarrow> ('r, user_row) http" where
  "link_oidc_via_token en tok issuer claims =
     bindH (execH (consume_password_reset_token (ae_sha en tok) (ae_now en))) (\<lambda>owner.
     bindH (someH owner 401 ''invalid or expired link token'') (\<lambda>uid.
     bindH (active_user uid 409 ''account is not active'') (\<lambda>u.
     bindH (claim_sub claims) (\<lambda>sub.
     thenH (link_or_conflict en issuer sub (u_id u) (claim_email claims))
     (retH u)))))"

section \<open>Endpoints\<close>

record exchange_request =
  xq_code :: string
  xq_verifier :: string
  xq_nonce :: string
  xq_redirect :: string
  xq_link :: "string option"

definition oidc_gate :: "'r api_env \<Rightarrow> string \<Rightarrow> string \<Rightarrow> ('r, unit) http" where
  "oidc_gate en ip redirect_uri =
     bindH (confH oidc_allowed_redirect_uris) (\<lambda>uris.
     thenH (guardH (redirect_uri \<in> set uris) 400 ''redirect_uri not allowed'')
     (limit_or_429 en (''oidc:ip:'' @ ip) login_rate_limit_per_ip ''too many OIDC attempts; retry later''))"

definition exchange_tx :: "'r api_env \<Rightarrow> exchange_request \<Rightarrow> claims \<Rightarrow> ('r, user_row) http" where
  "exchange_tx en q claims =
     bindH (confH oidc_issuer) (\<lambda>issuer.
     bindH (if truthy (xq_link q)
            then bindH (link_oidc_via_token en (py_or (xq_link q) '''') issuer claims) (\<lambda>u. retH (u, ''linked_token''))
            else resolve_or_provision_oidc_user en issuer claims) (\<lambda>(u, outcome).
     thenH (insert_refresh en (ae_token en) (u_id u))
     (thenH (auditH en ''user'' (Some (u_id u)) ''auth.oidc_login_succeeded'' (Some ''user'') (Some (u_id u))
               (Some [(''issuer'', JStr issuer), (''outcome'', JStr outcome)]))
     (retH u))))"

text \<open>The two calls of the provider, in the order of the code.\<close>

definition provider_claims :: "oidc_net \<Rightarrow> exchange_request \<Rightarrow> claims oidc" where
  "provider_claims net q =
     bindH (exchange_code net (xq_code q) (xq_verifier q) (xq_redirect q)) (\<lambda>tokens.
       case json_get tokens ''id_token'' of
         Some (JStr tok) \<Rightarrow> validate_id_token net tok (xq_nonce q)
       | _ \<Rightarrow> failO ''malformed id_token header: '')"

definition oidc_exchange ::
  "'r api_env \<Rightarrow> oidc_net \<Rightarrow> string \<Rightarrow> exchange_request \<Rightarrow> oidc_client option \<times> 'r router \<Rightarrow>
   (http_error + token_pair) \<times> oidc_client option \<times> 'r router" where
  "oidc_exchange en net ip q st =
     (case st of
        (None, r) \<Rightarrow> (Inl (404, ''OIDC is not enabled''), None, r)
      | (Some c, r) \<Rightarrow>
          (case oidc_gate en ip (xq_redirect q) r of
             (Inl e, r1) \<Rightarrow> (Inl e, Some c, r1)
           | (Inr _, r1) \<Rightarrow>
               (case provider_claims net q c of
                  (Inl (OidcError m), c1) \<Rightarrow> (Inl (401, ''OIDC authentication failed''), Some c1, r1)
                | (Inl (OidcUncaught m), c1) \<Rightarrow> (Inl (500, m), Some c1, r1)
                | (Inr claims, c1) \<Rightarrow>
                    (let (res, r2) = bindH (transaction (exchange_tx en q claims)) (token_pair_of en) (ae_others en r1)
                     in (res, Some c1, r2)))))"

record authorize_reply =
  ar_url :: string
  ar_state :: string
  ar_nonce :: string
  ar_verifier :: string

text \<open>\<open>st\<close>, \<open>nonce\<close>, \<open>verifier\<close> are fresh, \<open>challenge\<close> is the PKCE digest of the verifier.\<close>

definition oidc_authorize ::
  "'r api_env \<Rightarrow> oidc_net \<Rightarrow> string \<Rightarrow> string \<Rightarrow> string \<Rightarrow> string \<Rightarrow> string \<Rightarrow> string \<Rightarrow>
   oidc_client option \<times> 'r router \<Rightarrow> (http_error + authorize_reply) \<times> oidc_client option \<times> 'r router" where
  "oidc_authorize en net ip redirect_uri state nonce verifier challenge st =
     (case st of
        (None, r) \<Rightarrow> (Inl (404, ''OIDC is not enabled''), None, r)
      | (Some c, r) \<Rightarrow>
          (case oidc_gate en ip redirect_uri r of
             (Inl e, r1) \<Rightarrow> (Inl e, Some c, r1)
           | (Inr _, r1) \<Rightarrow>
               (case authorize_url net redirect_uri state nonce challenge c of
                  (Inl (OidcError m), c1) \<Rightarrow> (Inl (502, ''OIDC provider unavailable''), Some c1, r1)
                | (Inl (OidcUncaught m), c1) \<Rightarrow> (Inl (500, m), Some c1, r1)
                | (Inr url, c1) \<Rightarrow>
                    (Inr \<lparr>ar_url = url, ar_state = state, ar_nonce = nonce, ar_verifier = verifier\<rparr>, Some c1, r1))))"

definition user_has_password :: "user_row option \<Rightarrow> bool" where
  "user_has_password u = (case u of None \<Rightarrow> False | Some x \<Rightarrow> u_auth_kind x = ''password'' \<and> truthy (u_secret x))"

definition list_oidc_identities :: "session_principal \<Rightarrow> ('r, oidc_row list \<times> bool) http" where
  "list_oidc_identities p =
     readH (\<lambda>d. (list_oidc_identities_for_user (sp_user p) d, user_has_password (get_user_by_id (sp_user p) d)))"

definition unlink_oidc :: "'r api_env \<Rightarrow> session_principal \<Rightarrow> string \<Rightarrow> string \<Rightarrow> ('r, unit) http" where
  "unlink_oidc en p issuer sub =
     transaction
       (bindH (list_oidc_identities p) (\<lambda>(rows, has_password).
        thenH (guardH (\<not> (\<not> has_password \<and> length rows \<le> 1 \<and> list_ex (\<lambda>i. oi_key i = (issuer, sub)) rows)) 409
                 ''cannot remove your only sign-in method; set a password or link another login first'')
        (bindH (execH (unlink_oidc_identity (sp_user p) issuer sub)) (\<lambda>removed.
         thenH (guardH removed 404 ''identity not found'')
         (auditH en ''user'' (Some (sp_user p)) ''auth.oidc_identity_unlinked'' (Some ''user'') (Some (sp_user p))
            (Some [(''issuer'', JStr issuer)]))))))"

definition oidc_logout_url ::
  "oidc_net \<Rightarrow> string option \<Rightarrow> oidc_client option \<times> 'r router \<Rightarrow>
   (http_error + string option) \<times> oidc_client option \<times> 'r router" where
  "oidc_logout_url net redirect_uri st =
     (case st of
        (None, r) \<Rightarrow> (Inr None, None, r)
      | (Some c, r) \<Rightarrow>
          (let target = (case redirect_uri of
                 Some u \<Rightarrow> if u \<noteq> [] \<and> u \<notin> set (oidc_allowed_redirect_uris (rsettings r)) then None else Some u
               | None \<Rightarrow> None)
           in (case end_session_url net None target c of
                 (Inl (OidcError m), c1) \<Rightarrow> (Inr None, Some c1, r)
               | (Inl (OidcUncaught m), c1) \<Rightarrow> (Inl (500, m), Some c1, r)
               | (Inr url, c1) \<Rightarrow> (Inr url, Some c1, r))))"

end
