(* ===== verification/AccountFacts.thy ===== *)
theory AccountFacts
  imports Registrations Sso
begin

text \<open>
  How the account tables may evolve: a deleted user stays deleted, and a credential that is
  spent comes alive again only under a hash that is newly issued.  \<open>keeps\<close> lifts such a
  relation to endpoint computations, one rule per combinator, so that each endpoint is checked
  by following its text.
\<close>

section \<open>Relations that every statement of an endpoint respects\<close>

definition keeps :: "(db \<Rightarrow> db \<Rightarrow> bool) \<Rightarrow> ('r, 'a) http \<Rightarrow> bool" where
  "keeps R m \<longleftrightarrow> (\<forall>r. R (rdb r) (rdb (snd (m r))))"

locale db_relation =
  fixes R :: "db \<Rightarrow> db \<Rightarrow> bool"
  assumes refl: "R d d"
    and trans: "R d d' \<Longrightarrow> R d' d'' \<Longrightarrow> R d d''"
    and audit: "R d (append_audit_event digest kind actor event tk target payload now d)"
begin

lemma bind:
  assumes "keeps R m" "\<And>a. keeps R (f a)"
  shows "keeps R (bindH m f)"
  unfolding keeps_def
proof
  fix r
  obtain x r1 where x: "m r = (x, r1)" by (cases "m r")
  have "R (rdb r) (rdb r1)" using assms(1) x by (metis keeps_def snd_conv)
  then show "R (rdb r) (rdb (snd (bindH m f r)))"
    using x assms(2) trans by (cases x) (auto simp: bindH_def keeps_def)
qed

lemma thenn: "keeps R m \<Longrightarrow> keeps R k \<Longrightarrow> keeps R (thenH m k)"
  unfolding thenH_def by (rule bind)

lemma reads: "keeps R (retH a)" "keeps R (raiseH st e)" "keeps R (readH f)" "keeps R (confH g)" "keeps R (liftH x)"
  by (simp_all add: keeps_def http_defs refl)

lemma guard: "keeps R (guardH ok st e)"
  by (simp add: guardH_def reads)

lemma some: "keeps R (someH x st e)"
  by (cases x) (simp_all add: someH_def reads)

lemma exec: "(\<And>d. R d (snd (f d))) \<Longrightarrow> keeps R (execH f)"
  by (simp add: keeps_def execH_def split_beta Let_def)

lemma run: "(\<And>d. R d (f d)) \<Longrightarrow> keeps R (runH f)"
  by (simp add: keeps_def runH_def)

lemma attempt: "(\<And>d a d'. f d = Inr (a, d') \<Longrightarrow> R d d') \<Longrightarrow> keeps R (tryH f)"
  by (auto simp: keeps_def tryH_def refl split: sum.split)

lemma tx:
  assumes "keeps R m"
  shows "keeps R (transaction m)"
  unfolding keeps_def
proof
  fix r
  obtain x r1 where x: "m r = (x, r1)" by (cases "m r")
  have "R (rdb r) (rdb r1)" using assms x by (metis keeps_def snd_conv)
  then show "R (rdb r) (rdb (snd (transaction m r)))"
    using x refl by (cases x) (auto simp: transaction_def)
qed

lemma others: "(\<And>r. R (rdb r) (rdb (ae_others en r))) \<Longrightarrow> keeps R (othersH en)"
  by (simp add: keeps_def othersH_def)

lemma audits: "keeps R (auditH en k a e tk t p)"
  by (simp add: auditH_def run audit)

lemma choice: "(b \<Longrightarrow> keeps R m) \<Longrightarrow> (\<not> b \<Longrightarrow> keeps R k) \<Longrightarrow> keeps R (if b then m else k)"
  by simp

lemma quota: "keeps R (quotaH en key cap)" "keeps R (metricH m l)" "keeps R (revoke_jti en jti ttl)"
  by (auto simp: keeps_def quotaH_def metricH_def revoke_jti_def Let_def split_beta count_metric_def refl
      split: option.split)

lemma limits: "keeps R (bucket_wait en key cap)" "keeps R (denial_audit_allowed en actor event)"
  unfolding bucket_wait_def denial_audit_allowed_def by (intro bind thenn choice quota reads)+

lemma cases_option: "keeps R m \<Longrightarrow> (\<And>a. keeps R (f a)) \<Longrightarrow> keeps R (case x of None \<Rightarrow> m | Some a \<Rightarrow> f a)"
  by (cases x) simp_all

lemma cases_prod: "(\<And>a b. keeps R (f a b)) \<Longrightarrow> keeps R (case x of (a, b) \<Rightarrow> f a b)"
  by (cases x) simp

lemma limited: "keeps R (limit_or_429 en key cap detail)"
  unfolding limit_or_429_def by (intro bind reads limits guard)

lemma active: "keeps R (active_user uid st detail)"
  unfolding active_user_def by (intro bind reads choice some)

lemma access: "keeps R (token_pair_of en u)"
  unfolding token_pair_of_def
  by (rule bind) (auto simp: keeps_def issue_access_def refl retH_def split: sum.split prod.split)

lemma own: "keeps R (revoke_own en p)"
  unfolding revoke_own_def by (intro bind reads quota)

lemmas calculus = bind thenn reads guard some exec run tx others audits quota limits choice cases_option cases_prod
  limited active access own

end

section \<open>Evolution of the account tables\<close>

definition gone :: "db \<Rightarrow> user_id \<Rightarrow> bool" where
  "gone d uid \<longleftrightarrow> (case get_user_by_id uid d of None \<Rightarrow> False | Some u \<Rightarrow> u_deleted u \<noteq> None)"

definition refresh_live :: "db \<Rightarrow> string set" where
  "refresh_live d = rt_hash ` {t \<in> set (refresh_tokens d). rt_used t = None}"

definition reset_live :: "db \<Rightarrow> string set" where
  "reset_live d = pr_hash ` {t \<in> set (reset_tokens d). pr_used t = None}"

definition invitation_live :: "db \<Rightarrow> string set" where
  "invitation_live d = iv_hash ` {i \<in> set (invitations d). iv_used i = None}"

text \<open>\<open>H\<close> holds the hashes of the credentials issued on the way.\<close>

definition evolve :: "string set \<Rightarrow> db \<Rightarrow> db \<Rightarrow> bool" where
  "evolve H d d' \<longleftrightarrow> (tbl_ok u_id (users d) \<longrightarrow> tbl_ok u_id (users d')) \<and>
     (\<forall>uid. gone d uid \<longrightarrow> gone d' uid) \<and> refresh_live d' \<subseteq> refresh_live d \<union> H \<and>
     reset_live d' \<subseteq> reset_live d \<union> H \<and> invitation_live d' \<subseteq> invitation_live d \<union> H"

lemma gone_users: "users d' = users d \<Longrightarrow> gone d' = gone d"
  by (simp add: gone_def get_user_by_id_def fun_eq_iff)

lemma evolve_cong:
  assumes "users d' = users d" "refresh_tokens d' = refresh_tokens d" "reset_tokens d' = reset_tokens d"
    "invitations d' = invitations d"
  shows "evolve H d d'"
  using assms gone_users [OF assms(1)] by (simp add: evolve_def refresh_live_def reset_live_def invitation_live_def)

interpretation accounts: db_relation "evolve H" for H
proof
  show "evolve H d d" for d by (simp add: evolve_def)
  show "evolve H d d' \<Longrightarrow> evolve H d' d'' \<Longrightarrow> evolve H d d''" for d d' d''
    by (simp add: evolve_def) blast
  show "evolve H d (append_audit_event digest kind actor event tk target payload now d)"
    for digest kind actor event tk target payload now d
    by (rule evolve_cong) simp_all
qed

section \<open>Statements\<close>

lemma evolve_users:
  assumes "\<And>u. u_id (f u) = u_id u" "\<And>u. u_deleted u \<noteq> None \<Longrightarrow> u_deleted (f u) \<noteq> None"
  shows "evolve H d (upd_user uid f d)"
  using assms(2)
  by (auto simp: evolve_def upd_user_def gone_def get_user_by_id_def refresh_live_def reset_live_def invitation_live_def
      tbl_get_upd [of u_id f, OF assms(1)] tbl_ok_upd [of u_id f, OF assms(1)] split: option.splits)

lemma tbl_get_map:
  "(\<And>x. key (f x) = key x) \<Longrightarrow> tbl_get key k (map f xs) = map_option f (tbl_get key k xs)"
  by (induction xs) (auto simp: table_simps)

lemma evolve_map_users:
  assumes "\<And>u. u_id (f u) = u_id u" "\<And>u. u_deleted (f u) = u_deleted u"
  shows "evolve H d (d\<lparr>users := map f (users d)\<rparr>)"
proof -
  have "tbl_ok u_id (map f us) = tbl_ok u_id us" for us
    by (simp add: tbl_ok_def comp_def assms(1))
  then show ?thesis using assms(2)
    by (auto simp: tbl_get_map [of u_id f, OF assms(1)] evolve_def gone_def get_user_by_id_def refresh_live_def reset_live_def invitation_live_def
        split: option.splits)
qed

lemma evolve_insert_user: "insert_user uid email lvl kind secret svc new_id d = Inr (u, d') \<Longrightarrow> evolve H d d'"
  by (auto simp: insert_user_def Let_def evolve_def gone_def get_user_by_id_def tbl_get_append tbl_ok_snoc refresh_live_def
      reset_live_def invitation_live_def split: if_splits option.splits)

lemma evolve_serviced_by:
  "evolve H d (snd (append_to_serviced_by target svc d))" "evolve H d (snd (remove_from_serviced_by target svc d))"
  "evolve H d (snd (sweep_serviced_by_references svc d))"
  by (auto simp: append_to_serviced_by_def remove_from_serviced_by_def sweep_serviced_by_references_def
      intro!: evolve_users evolve_map_users accounts.refl split: option.split)

lemma evolve_password: "evolve H d (set_user_password_hash uid secret d)"
  unfolding set_user_password_hash_def by (rule evolve_users) simp_all

text \<open>Refresh tokens are inserted under a listed hash, spent or deleted.\<close>

lemma evolve_refresh:
  assumes "users d' = users d" "reset_tokens d' = reset_tokens d" "invitations d' = invitations d"
    "refresh_live d' \<subseteq> refresh_live d \<union> H"
  shows "evolve H d d'"
  using assms gone_users [OF assms(1)] by (simp add: evolve_def reset_live_def invitation_live_def)

lemma evolve_refresh_statements:
  "insert_refresh_token h uid expires now d = Inr (x, d') \<Longrightarrow> h \<in> H \<Longrightarrow> evolve H d d'"
  "evolve H d (snd (revoke_refresh_token h now d))" "evolve H d (snd (delete_user_refresh_tokens uid d))"
  "evolve H d (snd (consume_refresh_token h replaced_by now d))"
  by (auto simp: insert_refresh_token_def revoke_refresh_token_def delete_user_refresh_tokens_def
      consume_refresh_token_def refresh_live_def set_tbl_upd intro!: evolve_refresh accounts.refl
      split: if_splits option.splits)

lemma evolve_reset:
  assumes "users d' = users d" "refresh_tokens d' = refresh_tokens d" "invitations d' = invitations d"
    "reset_live d' \<subseteq> reset_live d \<union> H"
  shows "evolve H d d'"
  using assms gone_users [OF assms(1)] by (simp add: evolve_def refresh_live_def invitation_live_def)

lemma evolve_reset_statements:
  "insert_password_reset_token h uid expires by_user d = Inr (x, d') \<Longrightarrow> h \<in> H \<Longrightarrow> evolve H d d'"
  "evolve H d (snd (consume_password_reset_token h now d))" "evolve H d (snd (delete_user_password_reset_tokens uid d))"
  by (auto simp: insert_password_reset_token_def consume_password_reset_token_def
      delete_user_password_reset_tokens_def reset_live_def set_tbl_upd intro!: evolve_reset accounts.refl
      split: if_splits option.splits)

lemma evolve_invitation:
  assumes "users d' = users d" "refresh_tokens d' = refresh_tokens d" "reset_tokens d' = reset_tokens d"
    "invitation_live d' \<subseteq> invitation_live d \<union> H"
  shows "evolve H d d'"
  using assms gone_users [OF assms(1)] by (simp add: evolve_def refresh_live_def reset_live_def)

lemma evolve_invitation_statements:
  "insert_invitation h lvl expires by_user idem service now d = Inr (x, d') \<Longrightarrow> h \<in> H \<Longrightarrow> evolve H d d'"
  "evolve H d (snd (consume_invitation h used_by now d))" "evolve H d (snd (delete_invitation h d))"
  "evolve H d (snd (gc_expired_invitations cutoff d))"
  by (auto simp: insert_invitation_def consume_invitation_def delete_invitation_def gc_expired_invitations_def
      invitation_live_def set_tbl_upd Let_def intro!: evolve_invitation accounts.refl split: if_splits option.splits)

lemma evolve_other_tables:
  "link_oidc_identity issuer sub uid email now d = Inr (x, d') \<Longrightarrow> evolve H d d'"
  "evolve H d (touch_oidc_identity issuer sub now d)" "evolve H d (snd (unlink_oidc_identity uid issuer sub d))"
  "upsert_pending_registration ch ext display email meta submitter secret new_id now d = Inr (g, d') \<Longrightarrow> evolve H d d'"
  "evolve H d (log_registration_attempt ch ext now d)" "evolve H d (snd (delete_pending_registration rid d))"
  "open_session uid sid metadata now d = Inr (s, d') \<Longrightarrow> evolve H d d'"
  by (auto simp: link_oidc_identity_def touch_oidc_identity_def unlink_oidc_identity_def
      upsert_pending_registration_def log_registration_attempt_def delete_pending_registration_def open_session_def Let_def
      intro!: evolve_cong split: if_splits option.splits)

lemma evolve_soft_delete: "evolve H d (snd (soft_delete_user uid now d))"
proof (cases "get_user_by_id uid d")
  case (Some u)
  define d1 where "d1 = upd_user uid (\<lambda>u. u\<lparr>u_deleted := Some now\<rparr>) d"
  define d2 where "d2 = snd (delete_user_refresh_tokens uid d1)"
  define d3 where "d3 = snd (delete_user_password_reset_tokens uid d2)"
  define d4 where "d4 = snd (sweep_serviced_by_references uid d3)"
  have "evolve H d d1" unfolding d1_def by (rule evolve_users) simp_all
  moreover have "evolve H d1 d2" unfolding d2_def by (rule evolve_refresh_statements)
  moreover have "evolve H d2 d3" unfolding d3_def by (rule evolve_reset_statements)
  moreover have "evolve H d3 d4" unfolding d4_def by (rule evolve_serviced_by)
  moreover have "evolve H d4 (d4\<lparr>files := fs\<rparr>)" for fs by (rule evolve_cong) simp_all
  ultimately have "evolve H d (d4\<lparr>files := fs\<rparr>)" for fs by (metis accounts.trans)
  then show ?thesis
    using Some by (simp add: soft_delete_user_def split_beta Let_def accounts.refl d1_def d2_def d3_def d4_def)
qed (simp add: soft_delete_user_def accounts.refl)

lemma evolve_purge_session: "purge_session uid sid d = Inr (b, d') \<Longrightarrow> evolve H d d'"
  by (rule evolve_cong) (auto simp: purge_session_def delete_file_names_for_scope_def Let_def split: if_splits)

lemma evolve_purge_sessions: "purge_sessions uid sids d = Inr (n, d') \<Longrightarrow> evolve H d d'"
proof (induction sids arbitrary: d n)
  case (Cons sid sids)
  then obtain b d1 m where "purge_session uid sid d = Inr (b, d1)" "purge_sessions uid sids d1 = Inr (m, d')"
    by (auto simp: bindE_Inr split: prod.splits)
  then show ?case using accounts.trans [OF evolve_purge_session Cons.IH] by blast
qed (simp add: accounts.refl)

abbreviation scrub_user :: "user_id \<Rightarrow> time \<Rightarrow> db \<Rightarrow> db" where
  "scrub_user uid now \<equiv> upd_user uid (\<lambda>u. u\<lparr>u_email := None, u_secret := None, u_purged := Some now\<rparr>)"

lemma purge_user_cases:
  assumes "purge_user digest uid actor now d = Inr (x, d')"
  obtains "d' = d" "x = None \<or> x = Some None" | "d' = snd (soft_delete_user uid now d)" "x = None"
    | n d2 p where "purge_sessions uid (map s_id (filter (\<lambda>s. s_user s = uid) (sessions (snd (soft_delete_user uid now d)))))
          (snd (soft_delete_user uid now d)) = Inr (n, d2)"
        "d' = append_audit_event digest ''user'' actor ''user.purged'' (Some ''user'') (Some uid) p now
          (scrub_user uid now (d2\<lparr>names := filter (\<lambda>n. n_user n \<noteq> uid) (names d2),
             files := map (\<lambda>f. if f_user f = uid then f\<lparr>f_expires := Some now\<rparr> else f) (files d2),
             oidc_identities := filter (\<lambda>i. oi_user i \<noteq> uid) (oidc_identities d2)\<rparr>))"
  using assms unfolding purge_user_def Let_def
  by (force split: option.splits if_splits prod.splits simp: bindE_Inr)

lemma evolve_purge_user:
  assumes "purge_user digest uid actor now d = Inr (x, d')"
  shows "evolve H d d'"
proof -
  have scrub: "evolve H d2 (append_audit_event digest k a e tk t p now (scrub_user uid now
      (d2\<lparr>names := ns, files := fs, oidc_identities := os\<rparr>)))" for d2 k a e tk t p ns fs os
  proof (rule accounts.trans [OF accounts.trans accounts.audit])
    show "evolve H d2 (d2\<lparr>names := ns, files := fs, oidc_identities := os\<rparr>)" by (rule evolve_cong) simp_all
    show "evolve H d0 (scrub_user uid now d0)" for d0
      by (rule evolve_users) simp_all
  qed
  show ?thesis
    using assms
  proof (cases rule: purge_user_cases)
    case 3
    then show ?thesis
      using accounts.trans [OF accounts.trans [OF evolve_soft_delete evolve_purge_sessions] scrub] by blast
  qed (simp_all add: accounts.refl evolve_soft_delete)
qed

section \<open>Endpoints\<close>

lemmas evolve_facts = evolve_serviced_by evolve_password evolve_refresh_statements(2-) evolve_reset_statements(2-)
  evolve_invitation_statements(2-) evolve_other_tables(2,3,5,6) evolve_soft_delete

lemma keeps_tries:
  "keeps (evolve H) (tryH (insert_user uid email lvl kind secret svc new_id))"
  "keeps (evolve H) (tryH (upsert_pending_registration ch ext display email meta submitter secret new_id now))"
  "keeps (evolve H) (tryH (open_session owner sid meta now))"
  "keeps (evolve H) (tryH (purge_user digest owner actor now))"
  by (rule accounts.attempt, erule evolve_insert_user evolve_other_tables evolve_purge_user)+

lemma keeps_tries_issuing:
  "h \<in> H \<Longrightarrow> keeps (evolve H) (tryH (insert_refresh_token h uid expires now))"
  "h \<in> H \<Longrightarrow> keeps (evolve H) (tryH (insert_password_reset_token h uid expires by_user))"
  by (rule accounts.attempt, erule evolve_refresh_statements evolve_reset_statements, assumption)+

text \<open>A request that issues under a listed hash, among others that do so too.\<close>

definition calm_env :: "string set \<Rightarrow> 'r api_env \<Rightarrow> bool" where
  "calm_env H en \<longleftrightarrow> ae_sha en (ae_token en) \<in> H \<and> (\<forall>r. evolve H (rdb r) (rdb (ae_others en r)))"

lemma calm_othersH: "calm_env H en \<Longrightarrow> keeps (evolve H) (othersH en)"
  by (simp add: calm_env_def accounts.others)

lemma keeps_insert_refresh: "ae_sha en tok \<in> H \<Longrightarrow> keeps (evolve H) (insert_refresh en tok uid)"
  unfolding insert_refresh_def by (intro accounts.bind accounts.reads keeps_tries_issuing)

lemma keeps_insert_own: "calm_env H en \<Longrightarrow> keeps (evolve H) (insert_refresh en (ae_token en) uid)"
  by (simp add: calm_env_def keeps_insert_refresh)

lemmas keeps_rules = accounts.calculus calm_othersH keeps_insert_own keeps_tries evolve_facts

lemma keeps_login: "calm_env H en \<Longrightarrow> keeps (evolve H) (login en ip email pw)"
  unfolding login_def enforce_login_rate_limit_def login_check_def Let_def
  by (intro keeps_rules)

lemma keeps_refresh: "calm_env H en \<Longrightarrow> keeps (evolve H) (refresh en ip tok)"
  unfolding refresh_def refresh_tx_def by (intro keeps_rules)

lemma keeps_logout: "keeps (evolve H) (logout en p tok)"
  unfolding logout_def by (intro keeps_rules)

lemma keeps_change_password: "keeps (evolve H) (change_password en p pw_old pw_new)"
  unfolding change_password_def by (intro keeps_rules)

lemma keeps_reset_password: "calm_env H en \<Longrightarrow> keeps (evolve H) (reset_password en ip tok pw_new)"
  unfolding reset_password_def reset_tx_def by (intro keeps_rules)

lemma keeps_mint_link: "calm_env H en \<Longrightarrow> keeps (evolve H) (mint_link_token en p)"
  unfolding mint_link_token_def Let_def by (intro keeps_rules keeps_tries_issuing) (auto simp: calm_env_def)

lemma keeps_link_channel: "keeps (evolve H) (link_channel en p tok grant)"
  unfolding link_channel_def link_tx_def by (intro keeps_rules)

lemma keeps_link_or_conflict: "keeps (evolve H) (link_or_conflict en issuer sub uid email)"
  by (auto simp: keeps_def link_or_conflict_def raiseH_def accounts.refl split: sum.split
      dest: evolve_other_tables(1))

lemma keeps_claim_sub: "keeps (evolve H) (claim_sub claims)"
  by (simp add: claim_sub_def accounts.reads split: option.split json.split)

lemma keeps_exchange_tx: "calm_env H en \<Longrightarrow> keeps (evolve H) (exchange_tx en q claims)"
  unfolding exchange_tx_def link_oidc_via_token_def resolve_or_provision_oidc_user_def provision_oidc_user_def
  by (intro keeps_rules keeps_link_or_conflict keeps_claim_sub)

lemma keeps_unlink_oidc: "keeps (evolve H) (unlink_oidc en p issuer sub)"
  unfolding unlink_oidc_def list_oidc_identities_def by (intro keeps_rules)

lemma keeps_issue_invitation:
  assumes "ae_sha en (py_or tok (ae_token en)) \<in> H"
  shows "keeps (evolve H) (issue_invitation en p0 lvl expires_in tok service idem)"
proof -
  have "evolve H d d'" if "insert_invitation (ae_sha en (py_or tok (ae_token en))) lvl e b i s now d = Inr (x, d')" for e b i s now d x d'
    using evolve_invitation_statements(1) [OF that assms] .
  then have "keeps (evolve H) (\<lambda>r. case insert_invitation (ae_sha en (py_or tok (ae_token en))) lvl e b idem service now (rdb r) of
            Inr (_, d) \<Rightarrow> thenH (auditH en k a ev tk t pl) (retH y) (r\<lparr>rdb := d\<rparr>)
          | Inl (UniqueViolation c) \<Rightarrow>
              if c = ''invitations_pkey'' \<and> tok \<noteq> None \<and> idem \<noteq> None
              then (case get_invitation (ae_sha en (py_or tok (ae_token en))) (rdb r) of
                      Some i \<Rightarrow> if same_invitation p lvl idem service i then retH (py_or tok (ae_token en), iv_expires i) r
                                else raiseH 409 ''token already exists'' r
                    | None \<Rightarrow> raiseH 409 ''token already exists'' r)
              else if idem = None \<or> c \<noteq> ''invitations_created_by_idempotency_key_uniq'' then raiseH 500 c r
              else raiseH 409 ''Idempotency-Key already used'' r
          | Inl e \<Rightarrow> (Inl (db_http e), r))" for e b now k a ev tk t pl y p
    by (auto simp: keeps_def http_defs auditH_def accounts.refl split: sum.split db_error.split option.split
        intro: accounts.trans [OF _ accounts.audit])
  then show ?thesis unfolding issue_invitation_def Let_def by (intro keeps_rules)
qed

lemma keeps_revoke_invitation: "calm_env H en \<Longrightarrow> keeps (evolve H) (revoke_invitation en p0 h)"
  unfolding revoke_invitation_def by (intro keeps_rules)

lemma keeps_check_serviced_by: "keeps (evolve H) (check_serviced_by us)"
  by (induction us) (simp_all, intro keeps_rules, intro keeps_rules)

lemma keeps_seed: "(\<And>t. tok = Some t \<Longrightarrow> ae_sha en t \<in> H) \<Longrightarrow> keeps (evolve H) (seed_refresh en tok uid)"
  by (auto simp: seed_refresh_def accounts.reads keeps_insert_refresh split: option.split)

lemma keeps_create_user:
  assumes "calm_env H en" "\<And>t. cu_refresh q = Some t \<Longrightarrow> ae_sha en t \<in> H"
  shows "keeps (evolve H) (create_user en p0 q)"
  unfolding create_user_def
  by (intro accounts.calculus calm_othersH keeps_seed keeps_check_serviced_by keeps_tries assms) simp_all

lemma patch_user_keeps: "u_id (patch_user lvl susp now u) = u_id u" "u_deleted (patch_user lvl susp now u) = u_deleted u"
  by (auto simp: patch_user_def Let_def split: option.split bool.split)

lemma keeps_audit_all: "keeps (evolve H) (audit_all en actor target es)"
  by (induction es) (simp_all, intro keeps_rules, intro keeps_rules)

lemma keeps_drop_level: "keeps (evolve H) (dropLevelH uid)"
  by (simp add: keeps_def dropLevelH_def invalidate_user_level_def accounts.refl)

lemma keeps_update_user: "keeps (evolve H) (update_user en p0 uid lvl susp)"
  unfolding update_user_def
  by (intro keeps_rules keeps_audit_all keeps_drop_level evolve_users) (simp_all add: patch_user_keeps)

lemma keeps_mint_target: "keeps (evolve H) (mint_target uid)"
  unfolding mint_target_def by (intro keeps_rules)

lemma keeps_deny_mint: "keeps (evolve H) (deny_mint en p event target reason detail)"
  unfolding deny_mint_def by (intro keeps_rules)

lemma keeps_service_may_mint: "keeps (evolve H) (service_may_mint en p event u detail)"
  unfolding service_may_mint_def by (intro keeps_rules keeps_deny_mint)

lemma keeps_mint_limit: "keeps (evolve H) (enforce_per_target_mint_rate_limit en p target bucket limit event detail)"
  unfolding enforce_per_target_mint_rate_limit_def by (intro keeps_rules)

lemma keeps_service_mint: "calm_env H en \<Longrightarrow> keeps (evolve H) (service_mint_refresh_token en p0 target)"
  unfolding service_mint_refresh_token_def
  by (intro keeps_rules keeps_mint_target keeps_service_may_mint keeps_mint_limit)

lemma keeps_mint_reset: "calm_env H en \<Longrightarrow> keeps (evolve H) (mint_password_reset_token en p target)"
  unfolding mint_password_reset_token_def Let_def
  by (intro keeps_rules keeps_tries_issuing keeps_mint_target keeps_service_may_mint keeps_mint_limit)
    (auto simp: calm_env_def)

lemma keeps_serviced_by: "keeps (evolve H) (grant_serviced_by en p0 target svc)"
    "keeps (evolve H) (revoke_serviced_by en p0 target svc)" "keeps (evolve H) (revoke_user_refresh_tokens en p0 target)"
  unfolding grant_serviced_by_def revoke_serviced_by_def revoke_user_refresh_tokens_def by (intro keeps_rules)+

lemma keeps_delete_user: "keeps (evolve H) (delete_user en p0 target purge)"
  unfolding delete_user_def by (intro keeps_rules keeps_drop_level)

lemma keeps_registration_deny: "keeps (evolve H) (registration_deny en damp actor payload)"
  unfolding registration_deny_def by (intro keeps_rules)

lemma keeps_registration_bucket: "keeps (evolve H) (registration_bucket en p q key limit scope)"
  unfolding registration_bucket_def by (intro keeps_rules keeps_registration_deny)

lemma keeps_registrations: "keeps (evolve H) (submit_registration en p q)"
    "keeps (evolve H) (submit_web_registration en ip email pw display)" "keeps (evolve H) (reject_registration en p0 rid)"
  unfolding submit_registration_def submit_web_registration_def store_registration_def Let_def reject_registration_def
  by (intro keeps_rules keeps_registration_bucket keeps_registration_deny)+

lemma keeps_approve: "keeps (evolve H) (approve_registration en p0 rid q)"
  unfolding approve_registration_def Let_def by (intro keeps_rules)

end
