(* ===== verification/AccountOps.thy ===== *)
theory AccountOps
  imports AccountFacts
begin

text \<open>
  The account endpoints as the operations of a state machine, and its runs.  The state is the
  SSO client and the router.  \<open>account_step\<close> keeps what a request commits and drops its reply;
  a reply that carries a token pair is \<open>pair_reply\<close>.
\<close>

type_synonym 'r account_state = "oidc_client option \<times> 'r router"

datatype 'r account_op =
    Login "'r api_env" string string string
  | Refresh "'r api_env" string string
  | Logout "'r api_env" session_principal "string option"
  | ChangePassword "'r api_env" session_principal string string
  | ResetPassword "'r api_env" string string string
  | MintLink "'r api_env" session_principal
  | LinkChannel "'r api_env" session_principal string bool
  | Authorize "'r api_env" oidc_net string string string string string string
  | Exchange "'r api_env" oidc_net string exchange_request
  | UnlinkOidc "'r api_env" session_principal string string
  | IssueInvitation "'r api_env" session_principal level int "string option" bool "string option"
  | RevokeInvitation "'r api_env" session_principal string
  | CreateUser "'r api_env" session_principal create_user_request
  | UpdateUser "'r api_env" session_principal user_id "level option" "bool option"
  | DeleteUser "'r api_env" session_principal user_id bool
  | ServiceMint "'r api_env" session_principal user_id
  | MintReset "'r api_env" session_principal user_id
  | GrantServicedBy "'r api_env" session_principal user_id user_id
  | RevokeServicedBy "'r api_env" session_principal user_id user_id
  | RevokeRefresh "'r api_env" session_principal user_id
  | SubmitRegistration "'r api_env" session_principal registration_request
  | SubmitWeb "'r api_env" string string string "string option"
  | Approve "'r api_env" session_principal string approve_request
  | Reject "'r api_env" session_principal string

fun on_router :: "('r, 'a) http \<Rightarrow> 'r account_state \<Rightarrow> 'r account_state" where
  "on_router m (c, r) = (c, snd (m r))"

fun account_step :: "'r account_op \<Rightarrow> 'r account_state \<Rightarrow> 'r account_state" where
  "account_step (Login en ip email pw) s = on_router (login en ip email pw) s"
| "account_step (Refresh en ip tok) s = on_router (refresh en ip tok) s"
| "account_step (Logout en p tok) s = on_router (logout en p tok) s"
| "account_step (ChangePassword en p pw pw') s = on_router (change_password en p pw pw') s"
| "account_step (ResetPassword en ip tok pw) s = on_router (reset_password en ip tok pw) s"
| "account_step (MintLink en p) s = on_router (mint_link_token en p) s"
| "account_step (LinkChannel en p tok grant) s = on_router (link_channel en p tok grant) s"
| "account_step (Authorize en net ip uri st nonce verifier challenge) s =
     snd (oidc_authorize en net ip uri st nonce verifier challenge s)"
| "account_step (Exchange en net ip q) s = snd (oidc_exchange en net ip q s)"
| "account_step (UnlinkOidc en p issuer sub) s = on_router (unlink_oidc en p issuer sub) s"
| "account_step (IssueInvitation en p lvl expires_in tok service idem) s =
     on_router (issue_invitation en p lvl expires_in tok service idem) s"
| "account_step (RevokeInvitation en p h) s = on_router (revoke_invitation en p h) s"
| "account_step (CreateUser en p q) s = on_router (create_user en p q) s"
| "account_step (UpdateUser en p uid lvl susp) s = on_router (update_user en p uid lvl susp) s"
| "account_step (DeleteUser en p uid purge) s = on_router (delete_user en p uid purge) s"
| "account_step (ServiceMint en p uid) s = on_router (service_mint_refresh_token en p uid) s"
| "account_step (MintReset en p uid) s = on_router (mint_password_reset_token en p uid) s"
| "account_step (GrantServicedBy en p uid svc) s = on_router (grant_serviced_by en p uid svc) s"
| "account_step (RevokeServicedBy en p uid svc) s = on_router (revoke_serviced_by en p uid svc) s"
| "account_step (RevokeRefresh en p uid) s = on_router (revoke_user_refresh_tokens en p uid) s"
| "account_step (SubmitRegistration en p q) s = on_router (submit_registration en p q) s"
| "account_step (SubmitWeb en ip email pw display) s = on_router (submit_web_registration en ip email pw display) s"
| "account_step (Approve en p rid q) s = on_router (approve_registration en p rid q) s"
| "account_step (Reject en p rid) s = on_router (reject_registration en p rid) s"

definition run_accounts :: "'r account_op list \<Rightarrow> 'r account_state \<Rightarrow> 'r account_state" where
  "run_accounts ops s = fold account_step ops s"

fun reply :: "('r, 'a) http \<Rightarrow> 'r router \<Rightarrow> 'a option" where
  "reply m r = (case fst (m r) of Inl e \<Rightarrow> None | Inr a \<Rightarrow> Some a)"

text \<open>The endpoints that answer with a token pair.\<close>

fun pair_reply :: "'r account_op \<Rightarrow> 'r account_state \<Rightarrow> token_pair option" where
  "pair_reply (Login en ip email pw) (c, r) = reply (login en ip email pw) r"
| "pair_reply (Refresh en ip tok) (c, r) = reply (refresh en ip tok) r"
| "pair_reply (ResetPassword en ip tok pw) (c, r) = reply (reset_password en ip tok pw) r"
| "pair_reply (Exchange en net ip q) s = (case oidc_exchange en net ip q s of (Inr pair, _) \<Rightarrow> Some pair | _ \<Rightarrow> None)"
| "pair_reply _ s = None"

section \<open>Lawful operations\<close>

text \<open>What an operation issues has its hash in \<open>H\<close>, and so do the requests interleaved with it.\<close>

fun op_env :: "'r account_op \<Rightarrow> 'r api_env" where
  "op_env (Login en _ _ _) = en" | "op_env (Refresh en _ _) = en" | "op_env (Logout en _ _) = en"
| "op_env (ChangePassword en _ _ _) = en" | "op_env (ResetPassword en _ _ _) = en" | "op_env (MintLink en _) = en"
| "op_env (LinkChannel en _ _ _) = en" | "op_env (Authorize en _ _ _ _ _ _ _) = en" | "op_env (Exchange en _ _ _) = en"
| "op_env (UnlinkOidc en _ _ _) = en" | "op_env (IssueInvitation en _ _ _ _ _ _) = en"
| "op_env (RevokeInvitation en _ _) = en" | "op_env (CreateUser en _ _) = en" | "op_env (UpdateUser en _ _ _ _) = en"
| "op_env (DeleteUser en _ _ _) = en" | "op_env (ServiceMint en _ _) = en" | "op_env (MintReset en _ _) = en"
| "op_env (GrantServicedBy en _ _ _) = en" | "op_env (RevokeServicedBy en _ _ _) = en" | "op_env (RevokeRefresh en _ _) = en"
| "op_env (SubmitRegistration en _ _) = en" | "op_env (SubmitWeb en _ _ _ _) = en" | "op_env (Approve en _ _ _) = en"
| "op_env (Reject en _ _) = en"

text \<open>The tokens that come with the request, to be issued as given.\<close>

fun supplied :: "'r account_op \<Rightarrow> string list" where
  "supplied (IssueInvitation en p lvl expires_in (Some tok) service idem) = [tok]"
| "supplied (CreateUser en p q) = (case cu_refresh q of None \<Rightarrow> [] | Some t \<Rightarrow> [t])"
| "supplied x = []"

definition lawful :: "string set \<Rightarrow> 'r account_op \<Rightarrow> bool" where
  "lawful H x \<longleftrightarrow> calm_env H (op_env x) \<and> list_all (\<lambda>t. ae_sha (op_env x) t \<in> H) (supplied x)"

lemma keepsD: "keeps R m \<Longrightarrow> R (rdb r) (rdb (snd (m r)))"
  by (simp add: keeps_def)

lemma keeps_then: "keeps R m \<Longrightarrow> m r = (x, r') \<Longrightarrow> R (rdb r) (rdb r')"
  by (metis keeps_def snd_conv)

lemma on_router_snd: "snd (on_router m s) = snd (m (snd s))"
  by (cases s) simp

lemma evolve_on_router: "keeps (evolve H) m \<Longrightarrow> evolve H (rdb (snd s)) (rdb (snd (on_router m s)))"
  by (simp add: on_router_snd keepsD)

lemma keeps_oidc_gate: "keeps (evolve H) (oidc_gate en ip uri)"
  unfolding oidc_gate_def by (intro keeps_rules)

lemma evolve_authorize:
  "evolve H (rdb (snd s)) (rdb (snd (snd (oidc_authorize en net ip uri st nonce verifier challenge s))))"
  using keepsD [OF keeps_oidc_gate, of H "snd s" en ip uri] accounts.refl
  by (auto simp: oidc_authorize_def split: prod.splits option.splits sum.splits oidc_fault.splits)

lemma evolve_exchange:
  assumes "calm_env H en"
  shows "evolve H (rdb (snd s)) (rdb (snd (snd (oidc_exchange en net ip q s))))"
proof -
  have "keeps (evolve H) (bindH (transaction (exchange_tx en q claims)) (token_pair_of en))" for claims
    by (intro keeps_rules keeps_exchange_tx assms)
  then have "evolve H (rdb (ae_others en r)) (rdb r2)"
    if "bindH (transaction (exchange_tx en q claims)) (token_pair_of en) (ae_others en r) = (x, r2)" for claims r x r2
    using keeps_then that by blast
  then have post: "evolve H (rdb r) (rdb r2)"
    if "bindH (transaction (exchange_tx en q claims)) (token_pair_of en) (ae_others en r) = (x, r2)" for claims r x r2
    using that assms unfolding calm_env_def by (meson accounts.trans)
  show ?thesis
    using keepsD [OF keeps_oidc_gate, of H "snd s" en ip "xq_redirect q"] accounts.refl
    by (auto simp: oidc_exchange_def split: prod.splits option.splits sum.splits oidc_fault.splits
        intro: accounts.trans [OF _ post])
qed

lemmas keeps_endpoints = keeps_login keeps_refresh keeps_logout keeps_change_password keeps_reset_password
  keeps_mint_link keeps_link_channel keeps_unlink_oidc keeps_revoke_invitation keeps_update_user keeps_delete_user
  keeps_service_mint keeps_mint_reset keeps_serviced_by keeps_registrations keeps_approve

lemma evolve_step:
  assumes "lawful H x"
  shows "evolve H (rdb (snd s)) (rdb (snd (account_step x s)))"
proof -
  have calm: "calm_env H (op_env x)" using assms by (simp add: lawful_def)
  show ?thesis
  proof (cases x)
    case (IssueInvitation en p lvl e tok service idem)
    then have "ae_sha en (py_or tok (ae_token en)) \<in> H"
      using assms by (cases tok) (auto simp: lawful_def calm_env_def py_or_def)
    then show ?thesis using IssueInvitation by (simp add: evolve_on_router keeps_issue_invitation)
  next
    case (CreateUser en p q)
    then have "\<And>t. cu_refresh q = Some t \<Longrightarrow> ae_sha en t \<in> H" using assms by (simp add: lawful_def)
    then show ?thesis using CreateUser calm by (simp add: evolve_on_router keeps_create_user)
  qed (use calm in \<open>simp_all add: evolve_on_router keeps_endpoints evolve_authorize evolve_exchange\<close>)
qed

lemma evolve_run:
  "list_all (lawful H) ops \<Longrightarrow> evolve H (rdb (snd s)) (rdb (snd (run_accounts ops s)))"
proof (induction ops arbitrary: s)
  case (Cons x ops)
  then show ?case
    using accounts.trans [OF evolve_step Cons.IH] by (simp add: run_accounts_def)
qed (simp add: run_accounts_def accounts.refl)

end
