(* ===== verification/AccountProps.thy ===== *)
theory AccountProps
  imports AccountOps TaskProps
begin

text \<open>
  The promises of the account endpoints: a credential is spent by its first use and never comes
  back, a deleted user gets no token, a password change ends every session, and nobody acts for
  a user who did not let them.  Each holds in whatever comes after, requests interleaved with
  others included, unless a credential with the same hash is issued anew.
\<close>

section \<open>What a success says\<close>

lemma limit_or_429_Inr: "limit_or_429 en key cap detail r = (Inr x, r') \<Longrightarrow> rdb r' = rdb r"
  by (auto simp: limit_or_429_def http_Inr dest: bucket_wait_Inr)

lemma active_user_Inr [simp]:
  "active_user uid st detail r = (Inr u, r') \<longleftrightarrow> get_user_by_id uid (rdb r) = Some u \<and> user_is_active (Some u) \<and> r' = r"
  by (auto simp: active_user_def http_defs split: option.split)

lemma active_not_gone: "get_user_by_id uid d = Some u \<Longrightarrow> user_is_active (Some u) \<Longrightarrow> \<not> gone d uid"
  by (simp add: gone_def user_is_active_def)

lemma get_user_id: "get_user_by_id uid d = Some u \<Longrightarrow> u_id u = uid"
  unfolding get_user_by_id_def by (drule tbl_get_SomeD) simp

text \<open>The access token of a pair is issued for \<open>who\<close> at the level of the pair.\<close>

definition issued_for :: "'r api_env \<Rightarrow> user_id \<Rightarrow> token_pair \<Rightarrow> bool" where
  "issued_for en who pair \<longleftrightarrow> (\<exists>k ttl jti. issue_session_token (ae_jwt en) k who (tp_level pair) ttl (ae_now en) (ae_jti en) =
     Inr (tp_access pair, tp_expires pair, jti))"

lemma token_pair_of_Inr:
  "token_pair_of en u r = (Inr pair, r') \<Longrightarrow> issued_for en (u_id u) pair \<and> tp_level pair = u_level u \<and> r' = r"
  by (auto simp: token_pair_of_def http_Inr issue_access_def issued_for_def split: sum.splits prod.splits)

lemma live_snoc: "k ` {t \<in> set (ts @ [x]). P t} = (if P x then insert (k x) else id) (k ` {t \<in> set ts. P t})"
  by auto

lemma live_upd:
  assumes "\<And>t. key (f t) = key t" "\<And>t. \<not> P (f t)"
  shows "h \<notin> key ` {t \<in> set (tbl_upd key h f ts). P t}"
  using assms by (auto simp: set_tbl_upd)

lemma live_get: "tbl_get key h ts = Some t \<Longrightarrow> P t \<Longrightarrow> h \<in> key ` {t \<in> set ts. P t}"
  by (drule tbl_get_SomeD) auto

lemma insert_refresh_Inr:
  "insert_refresh en tok uid r = (Inr x, r') \<Longrightarrow>
   tbl_get rt_hash (ae_sha en tok) (refresh_tokens (rdb r)) = None \<and> users (rdb r') = users (rdb r) \<and>
   reset_live (rdb r') = reset_live (rdb r) \<and> invitation_live (rdb r') = invitation_live (rdb r) \<and>
   refresh_live (rdb r') = insert (ae_sha en tok) (refresh_live (rdb r))"
  by (auto simp: insert_refresh_def http_Inr insert_refresh_token_def refresh_live_def reset_live_def invitation_live_def
      live_snoc simp del: set_append split: if_splits)

lemma consume_refresh_iff: "consume_refresh_token h replaced_by now d = (Some uid, d') \<longleftrightarrow>
    (\<exists>t. tbl_get rt_hash h (refresh_tokens d) = Some t \<and> now < rt_expires t \<and> rt_used t = None \<and> uid = rt_user t \<and>
         d' = d\<lparr>refresh_tokens := tbl_upd rt_hash h (\<lambda>t. t\<lparr>rt_used := Some now, rt_replaced := Some replaced_by\<rparr>)
                 (refresh_tokens d)\<rparr>)"
  by (cases "tbl_get rt_hash h (refresh_tokens d)") (auto simp: consume_refresh_token_def)

lemma consume_reset_iff: "consume_password_reset_token h now d = (Some uid, d') \<longleftrightarrow>
    (\<exists>t. tbl_get pr_hash h (reset_tokens d) = Some t \<and> pr_used t = None \<and> \<not> pr_expires t < now \<and> uid = pr_user t \<and>
         d' = d\<lparr>reset_tokens := tbl_upd pr_hash h (\<lambda>t. t\<lparr>pr_used := Some now\<rparr>) (reset_tokens d)\<rparr>)"
  by (cases "tbl_get pr_hash h (reset_tokens d)") (auto simp: consume_password_reset_token_def)

lemma consume_refresh_Some:
  assumes "consume_refresh_token h replaced_by now d = (Some uid, d')"
  shows "h \<in> refresh_live d" "h \<notin> refresh_live d'" "tbl_get rt_hash h (refresh_tokens d') \<noteq> None" "users d' = users d"
proof -
  obtain t where t: "tbl_get rt_hash h (refresh_tokens d) = Some t" "rt_used t = None"
    and d': "d' = d\<lparr>refresh_tokens := tbl_upd rt_hash h (\<lambda>t. t\<lparr>rt_used := Some now, rt_replaced := Some replaced_by\<rparr>)
       (refresh_tokens d)\<rparr>"
    using assms unfolding consume_refresh_iff by blast
  show "h \<in> refresh_live d" unfolding refresh_live_def by (rule live_get [OF t(1)]) (rule t(2))
  show "h \<notin> refresh_live d'" 
    unfolding refresh_live_def d'
    using live_upd [of rt_hash "\<lambda>t. t\<lparr>rt_used := Some now, rt_replaced := Some replaced_by\<rparr>" "\<lambda>t. rt_used t = None"] by simp
  show "tbl_get rt_hash h (refresh_tokens d') \<noteq> None" using t(1) by (simp add: tbl_get_upd d')
  show "users d' = users d" by (simp add: d')
qed

lemma consume_reset_Some:
  assumes "consume_password_reset_token h now d = (Some uid, d')"
  shows "h \<in> reset_live d" "h \<notin> reset_live d'" "users d' = users d"
proof -
  obtain t where t: "tbl_get pr_hash h (reset_tokens d) = Some t" "pr_used t = None"
    and d': "d' = d\<lparr>reset_tokens := tbl_upd pr_hash h (\<lambda>t. t\<lparr>pr_used := Some now\<rparr>) (reset_tokens d)\<rparr>"
    using assms unfolding consume_reset_iff by blast
  show "h \<in> reset_live d" unfolding reset_live_def by (rule live_get [OF t(1)]) (rule t(2))
  show "h \<notin> reset_live d'" 
    unfolding reset_live_def d' using live_upd [of pr_hash "\<lambda>t. t\<lparr>pr_used := Some now\<rparr>" "\<lambda>t. pr_used t = None"] by simp
  show "users d' = users d" by (simp add: d')
qed

lemma refresh_Inr:
  assumes "refresh en ip tok r = (Inr pair, r')"
  shows "ae_sha en tok \<in> refresh_live (rdb r)" "ae_sha en tok \<notin> refresh_live (rdb r')"
    "\<exists>u. get_user_by_id (u_id u) (rdb r) = Some u \<and> user_is_active (Some u) \<and> issued_for en (u_id u) pair"
proof -
  obtain r1 r2 u where tx: "rdb r1 = rdb r" "refresh_tx en tok r1 = (Inr u, r2)" "token_pair_of en u r2 = (Inr pair, r')"
    using assms by (auto simp: refresh_def http_Inr dest: limit_or_429_Inr)
  then obtain uid d r3 where c: "consume_refresh_token (ae_sha en tok) (ae_sha en (ae_token en)) (ae_now en) (rdb r1) = (Some uid, d)"
      "get_user_by_id uid d = Some u" "user_is_active (Some u)"
    and i: "insert_refresh en (ae_token en) (u_id u) (r1\<lparr>rdb := d\<rparr>) = (Inr (), r3)"
      "refresh_live (rdb r2) = refresh_live (rdb r3)"
    by (auto simp: refresh_tx_def http_Inr refresh_live_def split: option.splits)
  note c' = consume_refresh_Some [OF c(1)] and i' = insert_refresh_Inr [OF i(1)] and p = token_pair_of_Inr [OF tx(3)]
  show "ae_sha en tok \<in> refresh_live (rdb r)" using c' tx(1) by simp
  have "ae_sha en (ae_token en) \<noteq> ae_sha en tok" using c'(3) i' by auto
  then show "ae_sha en tok \<notin> refresh_live (rdb r')" using c'(2) i' i(2) p by auto
  show "\<exists>u. get_user_by_id (u_id u) (rdb r) = Some u \<and> user_is_active (Some u) \<and> issued_for en (u_id u) pair"
    using c(2,3) c'(4) tx(1) p get_user_id [OF c(2)] by (auto simp: get_user_by_id_def)
qed

lemma reset_password_Inr:
  assumes "reset_password en ip tok pw r = (Inr pair, r')"
  shows "ae_sha en tok \<in> reset_live (rdb r)" "ae_sha en tok \<notin> reset_live (rdb r')"
    "\<exists>u. get_user_by_id (u_id u) (rdb r) = Some u \<and> user_is_active (Some u) \<and> issued_for en (u_id u) pair"
proof -
  obtain r1 r2 u where tx: "rdb r1 = rdb r" "reset_tx en tok pw r1 = (Inr u, r2)" "token_pair_of en u r2 = (Inr pair, r')"
    using assms by (auto simp: reset_password_def http_Inr dest: bucket_wait_Inr split: if_splits)
  then obtain uid d r3 where c: "consume_password_reset_token (ae_sha en tok) (ae_now en) (rdb r1) = (Some uid, d)"
      "get_user_by_id uid d = Some u" "user_is_active (Some u)"
    and i: "insert_refresh en (ae_token en) uid
        (r1\<lparr>rdb := snd (delete_user_refresh_tokens uid (set_user_password_hash uid (ae_hash en pw) d))\<rparr>) = (Inr (), r3)"
      "reset_live (rdb r2) = reset_live (rdb r3)"
    by (auto simp: reset_tx_def http_Inr reset_live_def delete_user_refresh_tokens_def split: option.splits)
  note c' = consume_reset_Some [OF c(1)] and i' = insert_refresh_Inr [OF i(1)] and p = token_pair_of_Inr [OF tx(3)]
  show "ae_sha en tok \<in> reset_live (rdb r)" using c' tx(1) by simp
  show "ae_sha en tok \<notin> reset_live (rdb r')" using c'(2) i' i(2) p
    by (simp add: reset_live_def delete_user_refresh_tokens_def set_user_password_hash_def upd_user_def)
  show "\<exists>u. get_user_by_id (u_id u) (rdb r) = Some u \<and> user_is_active (Some u) \<and> issued_for en (u_id u) pair"
    using c(2,3) c'(3) tx(1) p get_user_id [OF c(2)] by (auto simp: get_user_by_id_def)
qed

section \<open>A small deployment\<close>

definition demo_user :: "user_id \<Rightarrow> level \<Rightarrow> string option \<Rightarrow> user_id list \<Rightarrow> user_row" where
  "demo_user uid lvl secret by_users = \<lparr>u_id = uid, u_level = lvl, u_suspended = None, u_deleted = None,
     u_email = Some (uid @ ''@x''), u_auth_kind = ''password'', u_secret = secret, u_serviced_by = by_users, u_purged = None\<rparr>"

definition demo_accounts :: "unit router" where
  "demo_accounts = demo_router\<lparr>rdb := empty_db\<lparr>
     users := [demo_user ''root'' ''admin'' (Some ''r!'') [], demo_user ''bob'' ''tier1'' (Some ''b!'') [''bot''],
               demo_user ''bot'' ''service'' None []],
     refresh_tokens := [\<lparr>rt_hash = ''#r1'', rt_user = ''bob'', rt_issued = 0, rt_expires = 100, rt_used = None, rt_replaced = None\<rparr>],
     reset_tokens := [\<lparr>pr_hash = ''#p1'', pr_user = ''bob'', pr_expires = 100, pr_used = None, pr_by = Some ''bob''\<rparr>]\<rparr>\<rparr>"

definition demo_env :: "string \<Rightarrow> unit api_env" where
  "demo_env tok = \<lparr>ae_deps = \<lparr>dep_validate = (\<lambda>s j. Valid), dep_digest = (\<lambda>a. ''''), dep_redis = (\<lambda>r k now rate burst cost ttl. None)\<rparr>,
     ae_jwt = \<lparr>jw_encode = (\<lambda>c s a. case map_of c ''sub'' of Some (JStr u) \<Rightarrow> u | _ \<Rightarrow> ''''), jw_decode = (\<lambda>t s a iss req now. Inl (InvalidToken ''bad''))\<rparr>,
     ae_sha = (\<lambda>s. CHR ''#'' # s), ae_verify = (\<lambda>pw s. s = pw @ ''!''), ae_hash = (\<lambda>pw. pw @ ''!''),
     ae_rehash = (\<lambda>s. False), ae_redis = None, ae_now = 10, ae_token = tok, ae_id = ''n1'', ae_sid = ''s1'',
     ae_jti = ''j1'', ae_others = (\<lambda>r. r)\<rparr>"

section \<open>Single use\<close>

text \<open>A spent hash stays spent until it is issued anew.\<close>

lemma refresh_needs_live:
  "ae_sha en tok \<notin> refresh_live (rdb r) \<Longrightarrow> \<exists>e r'. refresh en ip tok r = (Inl e, r')"
  using refresh_Inr(1) by (metis sumE surj_pair)

lemma reset_needs_live:
  "ae_sha en tok \<notin> reset_live (rdb r) \<Longrightarrow> \<exists>e r'. reset_password en ip tok pw r = (Inl e, r')"
  using reset_password_Inr(1) by (metis sumE surj_pair)

lemma run_not_live:
  assumes "list_all (lawful (- {h})) ops"
  shows "h \<notin> refresh_live (rdb (snd s)) \<Longrightarrow> h \<notin> refresh_live (rdb (snd (run_accounts ops s)))"
    "h \<notin> reset_live (rdb (snd s)) \<Longrightarrow> h \<notin> reset_live (rdb (snd (run_accounts ops s)))"
  using evolve_run [OF assms, of s] by (auto simp: evolve_def)


lemma demo_sha [simp]: "ae_sha (demo_env tok) s = CHR ''#'' # s"
  by (simp add: demo_env_def)

lemma demo_calm: "CHR ''#'' # tok \<in> H \<Longrightarrow> calm_env H (demo_env tok)"
  by (simp add: calm_env_def demo_env_def accounts.refl)

lemma demo_refresh: "fst (refresh (demo_env ''r2'') ''ip'' ''r1'' demo_accounts) =
    Inr \<lparr>tp_access = ''bob'', tp_refresh = ''r2'', tp_expires = 910, tp_level = ''tier1''\<rparr>"
  by code_simp


text \<open>A reset or link token works once.  After a password was reset with it, the same
  token resets nothing again.\<close>

theorem reset_single_use:
  assumes "reset_password en ip tok pw r = (Inr pair, r1)" "list_all (lawful (- {ae_sha en tok})) ops"
    "ae_sha en' tok' = ae_sha en tok"
  shows "\<exists>e r2. reset_password en' ip' tok' pw' (snd (run_accounts ops (c, r1))) = (Inl e, r2)"
  using reset_needs_live [of en' tok'] run_not_live(2) [OF assms(2), of "(c, r1)"] reset_password_Inr(2) [OF assms(1)] assms(3)
  by simp

lemma demo_reset: "fst (reset_password (demo_env ''r2'') ''ip'' ''p1'' ''new'' demo_accounts) =
    Inr \<lparr>tp_access = ''bob'', tp_refresh = ''r2'', tp_expires = 910, tp_level = ''tier1''\<rparr>"
  by code_simp

theorem reset_single_use_witness:
  "\<exists>e r2. reset_password (demo_env ''r3'') ''ip'' ''p1'' ''other''
     (snd (run_accounts [Login (demo_env ''r4'') ''ip'' ''bob@x'' ''new'']
        (None, snd (reset_password (demo_env ''r2'') ''ip'' ''p1'' ''new'' demo_accounts)))) = (Inl e, r2)"
  by (rule reset_single_use [where en = "demo_env ''r2''" and tok = "''p1''" and ip = "''ip''" and pw = "''new''" and r = demo_accounts])
    (use demo_reset in \<open>simp_all add: prod_eq_iff lawful_def demo_calm\<close>)

section \<open>Replay of a refresh token\<close>

lemma limit_or_429_rdb: "rdb (snd (limit_or_429 en key cap detail r)) = rdb r"
  by (auto simp: limit_or_429_def http_defs bucket_wait_def quotaH_def Let_def split_beta split: sum.split prod.split)



section \<open>Deleted users\<close>

lemma login_Inr:
  assumes "login en ip email pw r = (Inr pair, r')"
  shows "\<exists>u. get_user_by_email email (rdb r) = Some u \<and> user_is_active (Some u) \<and> issued_for en (u_id u) pair \<and>
    u_auth_kind u = ''password'' \<and> (\<exists>secret. u_secret u = Some secret \<and> secret \<noteq> [] \<and> ae_verify en pw secret) \<and>
    tp_level pair = u_level u"
proof -
  obtain r1 r2 r3 r4 u where l: "enforce_login_rate_limit en ip email r = (Inr (), r1)"
      "login_check en email pw r1 = (Inr u, r2)" "token_pair_of en u r3 = (Inr pair, r4)"
    using assms by (auto simp: login_def http_Inr)
  have "rdb r1 = rdb r"
    using l(1) by (auto simp: enforce_login_rate_limit_def http_Inr dest!: bucket_wait_Inr split: if_splits)
  moreover have "get_user_by_email email (rdb r1) = Some u \<and> user_is_active (Some u) \<and> u_auth_kind u = ''password'' \<and>
      (\<exists>secret. u_secret u = Some secret \<and> secret \<noteq> [] \<and> ae_verify en pw secret)"
    using l(2) by (auto simp: login_check_def http_Inr py_or_def truthy_def Let_def split: option.splits if_splits)
  ultimately show ?thesis using token_pair_of_Inr [OF l(3)] by auto
qed

lemma email_id: "tbl_ok u_id (users d) \<Longrightarrow> get_user_by_email e d = Some u \<Longrightarrow> get_user_by_id (u_id u) d = Some u"
  unfolding get_user_by_email_def get_user_by_id_def by (rule tbl_get_in_set) (auto simp: find_Some_iff)

lemma active_row_not_gone: "get_user_by_id uid d = Some u \<Longrightarrow> user_is_active (Some u) \<Longrightarrow> \<not> gone d (u_id u)"
  using active_not_gone get_user_id by blast

lemma oidc_sub_not_gone:
  "get_user_by_oidc_sub issuer sub d = Some u \<Longrightarrow> user_is_active (Some u) \<Longrightarrow> \<not> gone d (u_id u)"
  by (auto simp: get_user_by_oidc_sub_def dest: active_row_not_gone split: option.splits)

lemma auto_link_not_gone: "tbl_ok u_id (users d) \<Longrightarrow> auto_link_target conf claims d = Some u \<Longrightarrow> \<not> gone d (u_id u)"
  by (auto simp: auto_link_target_def dest!: email_id dest: active_row_not_gone split: option.splits if_splits)

lemma inserted_not_gone: "insert_user uid email lvl kind secret svc new_id d = Inr (u, d') \<Longrightarrow> \<not> gone d (u_id u)"
  by (auto simp: insert_user_def Let_def gone_def split: if_splits)

lemma provision_not_gone:
  "provision_oidc_user en conf issuer claims sub r = (Inr (u, o1), r') \<Longrightarrow> \<not> gone (rdb r) (u_id u)"
  by (auto simp: provision_oidc_user_def http_Inr dest: inserted_not_gone)

lemma claim_sub_Inr: "claim_sub claims r = (Inr s, r') \<Longrightarrow> r' = r"
  by (auto simp: claim_sub_def split: option.splits json.splits)

lemma resolve_not_gone:
  assumes "tbl_ok u_id (users (rdb r))" "resolve_or_provision_oidc_user en issuer claims r = (Inr (u, o1), r')"
  shows "\<not> gone (rdb r) (u_id u)"
proof -
  obtain sub r1 where "claim_sub claims r = (Inr sub, r1)" and k: "(case get_user_by_oidc_sub issuer sub (rdb r1) of
       Some u \<Rightarrow>
         thenH (guardH (user_is_active (Some u)) 403 ''account is not active'')
         (thenH (runH (touch_oidc_identity issuer sub (ae_now en))) (retH (u, ''login'')))
     | None \<Rightarrow>
         thenH (guardH (oidc_allowed_groups (rsettings r1) = [] \<or>
                        list_ex (\<lambda>g. g \<in> set (oidc_allowed_groups (rsettings r1))) (claim_groups (rsettings r1) claims)) 403
                  ''not permitted to sign in'')
         (bindH (readH (auto_link_target (rsettings r1) claims)) (\<lambda>target.
          case target of
            Some u \<Rightarrow> thenH (link_or_conflict en issuer sub (u_id u) (claim_email claims)) (retH (u, ''linked_email''))
          | None \<Rightarrow> provision_oidc_user en (rsettings r1) issuer claims sub))) r1 = (Inr (u, o1), r')"
    using assms(2) by (auto simp: resolve_or_provision_oidc_user_def http_Inr)
  then have r1: "r1 = r" using claim_sub_Inr by blast
  show ?thesis
  proof (cases "get_user_by_oidc_sub issuer sub (rdb r)")
    case None
    then show ?thesis
      using k r1 auto_link_not_gone [OF assms(1)]
      by (auto simp: http_Inr dest: provision_not_gone split: option.splits)
  qed (use k r1 oidc_sub_not_gone in \<open>auto simp: http_Inr\<close>)
qed

lemma link_via_token_not_gone:
  "link_oidc_via_token en tok issuer claims r = (Inr u, r') \<Longrightarrow> \<not> gone (rdb r) (u_id u)"
proof -
  assume "link_oidc_via_token en tok issuer claims r = (Inr u, r')"
  then obtain uid d where c: "consume_password_reset_token (ae_sha en tok) (ae_now en) (rdb r) = (Some uid, d)"
      "get_user_by_id uid d = Some u" "user_is_active (Some u)"
    by (auto simp: link_oidc_via_token_def http_Inr)
  then show ?thesis
    using active_not_gone [OF c(2,3)] gone_users [OF consume_reset_Some(3) [OF c(1)]] get_user_id [OF c(2)] by simp
qed

lemma exchange_tx_not_gone:
  "exchange_tx en q claims r = (Inr u, r') \<Longrightarrow> tbl_ok u_id (users (rdb r)) \<Longrightarrow> \<not> gone (rdb r) (u_id u)"
  by (auto simp: exchange_tx_def http_Inr dest: link_via_token_not_gone resolve_not_gone split: if_splits)

text \<open>Whoever gets a token pair was not deleted when the request came in.\<close>

lemma oidc_exchange_Inr:
  assumes "oidc_exchange en net ip q (Some c, r) = (Inr pair, s')"
  obtains claims r1 u r2 r3 where "rdb r1 = rdb r" "exchange_tx en q claims (ae_others en r1) = (Inr u, r2)"
    "token_pair_of en u r2 = (Inr pair, r3)"
proof -
  obtain x r1 where g: "oidc_gate en ip (xq_redirect q) r = (x, r1)" by fastforce
  then obtain claims c1 res r2 where x: "x = Inr ()" "provider_claims net q c = (Inr claims, c1)"
      "bindH (transaction (exchange_tx en q claims)) (token_pair_of en) (ae_others en r1) = (Inr pair, r2)"
    using assms by (auto simp: oidc_exchange_def split: sum.splits prod.splits oidc_fault.splits)
  moreover have "rdb r1 = rdb r"
    using g x(1) by (auto simp: oidc_gate_def http_Inr dest: limit_or_429_Inr)
  ultimately show thesis using that by (auto simp: bindH_Inr)
qed

lemma reply_Some: "reply m r = Some a \<Longrightarrow> \<exists>r'. m r = (Inr a, r')"
  by (cases "m r") (auto split: sum.splits)

lemma pair_not_gone:
  assumes "pair_reply x (c, r) = Some pair" "tbl_ok u_id (users (rdb r))" "lawful H x"
  shows "\<exists>who. issued_for (op_env x) who pair \<and> \<not> gone (rdb r) who"
proof (cases x)
  case (Login en ip email pw)
  then obtain r' where "login en ip email pw r = (Inr pair, r')" using assms(1) reply_Some by fastforce
  then show ?thesis using login_Inr [of en ip email pw r pair r'] email_id [OF assms(2)] active_not_gone Login by auto
next
  case (Refresh en ip tok)
  then obtain r' where "refresh en ip tok r = (Inr pair, r')" using assms(1) reply_Some by fastforce
  then show ?thesis using refresh_Inr(3) [of en ip tok r pair r'] active_not_gone Refresh by auto
next
  case (ResetPassword en ip tok pw)
  then obtain r' where "reset_password en ip tok pw r = (Inr pair, r')" using assms(1) reply_Some by fastforce
  then show ?thesis using reset_password_Inr(3) [of en ip tok pw r pair r'] active_not_gone ResetPassword by auto
next
  case (Exchange en net ip q)
  then obtain s' where s': "oidc_exchange en net ip q (c, r) = (Inr pair, s')"
    using assms(1) by (cases "oidc_exchange en net ip q (c, r)") (simp split: sum.splits)
  then obtain cl where "c = Some cl" by (cases c) (simp_all add: oidc_exchange_def)
  with s' have x: "oidc_exchange en net ip q (Some cl, r) = (Inr pair, s')" by simp
  obtain claims r1 u r2 r3 where e: "rdb r1 = rdb r" "exchange_tx en q claims (ae_others en r1) = (Inr u, r2)"
      "token_pair_of en u r2 = (Inr pair, r3)"
    by (rule oidc_exchange_Inr [OF x])
  have "evolve H (rdb r) (rdb (ae_others en r1))"
    using assms(3) e(1) Exchange by (metis calm_env_def lawful_def op_env.simps(9))
  then show ?thesis
    using exchange_tx_not_gone [OF e(2)] token_pair_of_Inr [OF e(3)] assms(2) Exchange by (auto simp: evolve_def)
qed (use assms(1) in simp_all)

text \<open>Property C23.  A deleted user gets no token pair ever again, by login, rotation, password reset
  or SSO: in whatever follows the deletion, each pair that is issued is issued for somebody else.\<close>

theorem deleted_user_stays_out:
  assumes "gone (rdb (snd s)) uid" "tbl_ok u_id (users (rdb (snd s)))" "list_all (lawful H) ops" "lawful H x"
    "pair_reply x (run_accounts ops s) = Some pair"
  shows "\<exists>who. issued_for (op_env x) who pair \<and> who \<noteq> uid"
proof -
  obtain c r where r: "run_accounts ops s = (c, r)" by fastforce
  then show ?thesis
    using pair_not_gone [OF _ _ assms(4), of c r pair] evolve_run [OF assms(3), of s] assms(1,2,5)
    by (auto simp: evolve_def)
qed

definition demo_principal :: "user_id \<Rightarrow> level \<Rightarrow> session_principal" where
  "demo_principal uid lvl = \<lparr>sp_user = uid, sp_level = lvl, sp_expires = 500, sp_jti = ''j0''\<rparr>"

abbreviation demo_deleted :: "unit account_state" where
  "demo_deleted \<equiv> (None, snd (delete_user (demo_env ''d'') (demo_principal ''root'' ''admin'') ''bob'' False demo_accounts))"

theorem deleted_user_stays_out_witness:
  "\<exists>who. issued_for (demo_env ''r5'') who \<lparr>tp_access = ''root'', tp_refresh = ''r5'', tp_expires = 910, tp_level = ''admin''\<rparr> \<and> who \<noteq> ''bob''"
proof -
  have g: "gone (rdb (snd demo_deleted)) ''bob'' \<and> tbl_ok u_id (users (rdb (snd demo_deleted)))"
    by code_simp
  have p: "pair_reply (Login (demo_env ''r5'') ''ip'' ''root@x'' ''r'')
      (run_accounts [Refresh (demo_env ''r2'') ''ip'' ''r1''] demo_deleted) =
      Some \<lparr>tp_access = ''root'', tp_refresh = ''r5'', tp_expires = 910, tp_level = ''admin''\<rparr>"
    by code_simp
  show ?thesis
    using deleted_user_stays_out [of demo_deleted "''bob''" UNIV "[Refresh (demo_env ''r2'') ''ip'' ''r1'']", OF _ _ _ _ p] g
    by (simp add: lawful_def demo_calm)
qed

section \<open>Logging in and changing the password\<close>

text \<open>A login gives a token pair only for the active account with that email whose stored
  hash the given password verifies against, at the account's level.\<close>

theorem login_needs_password:
  assumes "login en ip email pw r = (Inr pair, r')"
  shows "\<exists>u secret. get_user_by_email email (rdb r) = Some u \<and> u_suspended u = None \<and> u_deleted u = None \<and>
    u_auth_kind u = ''password'' \<and> u_secret u = Some secret \<and> ae_verify en pw secret \<and>
    issued_for en (u_id u) pair \<and> tp_level pair = u_level u"
  using login_Inr [OF assms] by (auto simp: user_is_active_def)

theorem login_needs_password_witness:
  "\<exists>u secret. get_user_by_email ''bob@x'' (rdb demo_accounts) = Some u \<and> u_suspended u = None \<and> u_deleted u = None \<and>
    u_auth_kind u = ''password'' \<and> u_secret u = Some secret \<and> ae_verify (demo_env ''r2'') ''b'' secret \<and>
    issued_for (demo_env ''r2'') (u_id u) \<lparr>tp_access = ''bob'', tp_refresh = ''r2'', tp_expires = 910, tp_level = ''tier1''\<rparr> \<and>
    ''tier1'' = u_level u"
proof -
  have "fst (login (demo_env ''r2'') ''ip'' ''bob@x'' ''b'' demo_accounts) =
      Inr \<lparr>tp_access = ''bob'', tp_refresh = ''r2'', tp_expires = 910, tp_level = ''tier1''\<rparr>"
    by code_simp
  then show ?thesis
    using login_needs_password [of "demo_env ''r2''" "''ip''" "''bob@x''" "''b''" demo_accounts
      "\<lparr>tp_access = ''bob'', tp_refresh = ''r2'', tp_expires = 910, tp_level = ''tier1''\<rparr>"] by (simp add: prod_eq_iff)
qed

lemma revoke_own_rdb: "rdb (snd (revoke_own en p r)) = rdb r"
  by (simp add: revoke_own_def http_defs revoke_jti_def split: option.split)

lemma append_audit_keeps [simp]:
  "refresh_live (append_audit_event digest k a e tk t p now d) = refresh_live d"
  "refresh_tokens (append_audit_event digest k a e tk t p now d) = refresh_tokens d"
  by (simp_all add: refresh_live_def)

lemma change_password_Inr:
  assumes "change_password en p old new r = (Inr (), r')"
  shows "refresh_tokens (rdb r') = filter (\<lambda>t. rt_user t \<noteq> sp_user p) (refresh_tokens (rdb r))"
    "get_user_by_id (sp_user p) (rdb r') = map_option (\<lambda>u. u\<lparr>u_secret := Some (ae_hash en new)\<rparr>) (get_user_by_id (sp_user p) (rdb r))"
    "\<exists>u secret. get_user_by_id (sp_user p) (rdb r) = Some u \<and> u_secret u = Some secret \<and> ae_verify en old secret"
    "8 \<le> length new"
proof -
  show "8 \<le> length new" using assms by (auto simp: change_password_def http_Inr)
  show "\<exists>u secret. get_user_by_id (sp_user p) (rdb r) = Some u \<and> u_secret u = Some secret \<and> ae_verify en old secret"
    using assms by (auto simp: change_password_def http_Inr truthy_def py_or_def dest!: limit_or_429_Inr split: option.splits if_splits)
  show "refresh_tokens (rdb r') = filter (\<lambda>t. rt_user t \<noteq> sp_user p) (refresh_tokens (rdb r))"
    using assms
    by (auto simp: change_password_def http_Inr delete_user_refresh_tokens_def set_user_password_hash_def upd_user_def revoke_own_def
        dest!: limit_or_429_Inr revoke_jti_Inr split: option.splits if_splits)
  show "get_user_by_id (sp_user p) (rdb r') = map_option (\<lambda>u. u\<lparr>u_secret := Some (ae_hash en new)\<rparr>) (get_user_by_id (sp_user p) (rdb r))"
    using assms
    by (auto simp: change_password_def http_Inr delete_user_refresh_tokens_def set_user_password_hash_def upd_user_def revoke_own_def
        get_user_by_id_def table_simps dest!: limit_or_429_Inr revoke_jti_Inr split: option.splits if_splits)
qed

text \<open>A password change ends every other session of the user: no refresh token the user
  held before it can be rotated any more, whatever comes in between.\<close>

theorem change_password_ends_sessions:
  assumes "change_password en p old new r = (Inr (), r1)" "tbl_ok rt_hash (refresh_tokens (rdb r))"
    "t \<in> set (refresh_tokens (rdb r))" "rt_user t = sp_user p"
    "list_all (lawful (- {rt_hash t})) ops" "ae_sha en' tok = rt_hash t"
  shows "\<exists>e r2. refresh en' ip tok (snd (run_accounts ops (c, r1))) = (Inl e, r2)"
proof -
  have "rt_hash t \<notin> refresh_live (rdb r1)"
  proof
    assume "rt_hash t \<in> refresh_live (rdb r1)"
    then obtain t' where "t' \<in> set (refresh_tokens (rdb r))" "rt_user t' \<noteq> sp_user p" "rt_hash t' = rt_hash t"
      by (auto simp: refresh_live_def change_password_Inr(1) [OF assms(1)])
    moreover have "tbl_get rt_hash (rt_hash t) (refresh_tokens (rdb r)) = Some t"
      by (rule tbl_get_in_set [OF assms(2,3)])
    ultimately show False using tbl_get_in_set [OF assms(2), of t'] assms(4) by auto
  qed
  then show ?thesis using run_not_live(1) [OF assms(5), of "(c, r1)"] assms(6) refresh_needs_live [of en' tok] by simp
qed

theorem change_password_ends_sessions_witness:
  "\<exists>e r2. refresh (demo_env ''r3'') ''ip'' ''r1''
     (snd (run_accounts [Login (demo_env ''r4'') ''ip'' ''bob@x'' ''longer-one'']
        (None, snd (change_password (demo_env ''x'') (demo_principal ''bob'' ''tier1'') ''b'' ''longer-one'' demo_accounts)))) = (Inl e, r2)"
proof -
  have c: "fst (change_password (demo_env ''x'') (demo_principal ''bob'' ''tier1'') ''b'' ''longer-one'' demo_accounts) = Inr ()"
    by code_simp
  let ?t = "\<lparr>rt_hash = ''#r1'', rt_user = ''bob'', rt_issued = 0, rt_expires = 100, rt_used = None, rt_replaced = None\<rparr>"
  show ?thesis
    by (rule change_password_ends_sessions [where en = "demo_env ''x''" and p = "demo_principal ''bob'' ''tier1''" and old = "''b''"
        and new = "''longer-one''" and r = demo_accounts and t = ?t])
      (use c in \<open>simp_all add: prod_eq_iff lawful_def demo_calm demo_accounts_def demo_principal_def tbl_ok_def\<close>)
qed

section \<open>Ways to sign in\<close>

lemma filter_key_length:
  "tbl_ok key xs \<Longrightarrow> 2 \<le> length (filter P xs) \<Longrightarrow> \<exists>x\<in>set xs. P x \<and> key x \<noteq> k"
proof (induction xs)
  case (Cons x xs)
  show ?case
  proof (cases "P x \<and> key x = k")
    case True
    then have "1 \<le> length (filter P xs)" using Cons.prems(2) by simp
    then have "filter P xs \<noteq> []" by auto
    then obtain y where y: "y \<in> set xs" "P y" by (auto simp: filter_empty_conv)
    moreover have "key y \<in> key ` set xs" using y(1) by simp
    then have "key y \<noteq> k" using Cons.prems(1) True by (auto simp: tbl_ok_def)
    ultimately show ?thesis by auto
  next
    case False
    show ?thesis
    proof (cases "P x")
      case True
      then show ?thesis using False by auto
    next
      case False
      then show ?thesis using Cons by (auto simp: tbl_ok_def)
    qed
  qed
qed simp

text \<open>Unlinking an SSO identity never locks the user out: afterwards the user has a password or
  another linked identity.\<close>

theorem unlink_keeps_a_way_in:
  assumes "unlink_oidc en p issuer sub r = (Inr (), r')" "tbl_ok oi_key (oidc_identities (rdb r))"
  shows "user_has_password (get_user_by_id (sp_user p) (rdb r')) \<or>
    list_ex (\<lambda>i. oi_user i = sp_user p) (oidc_identities (rdb r'))"
proof -
  define rows where "rows = filter (\<lambda>i. oi_user i = sp_user p) (oidc_identities (rdb r))"
  have len: "length (list_oidc_identities_for_user (sp_user p) (rdb r)) = length rows"
    "set (list_oidc_identities_for_user (sp_user p) (rdb r)) = set rows"
    by (simp_all add: list_oidc_identities_for_user_def rows_def)
  have u: "get_user_by_id (sp_user p) (rdb r') = get_user_by_id (sp_user p) (rdb r)"
    and o: "oidc_identities (rdb r') = filter (\<lambda>i. \<not> (oi_user i = sp_user p \<and> oi_key i = (issuer, sub))) (oidc_identities (rdb r))"
    and hit: "list_ex (\<lambda>i. oi_user i = sp_user p \<and> oi_key i = (issuer, sub)) (oidc_identities (rdb r))"
    and ok: "user_has_password (get_user_by_id (sp_user p) (rdb r)) \<or> \<not> length rows \<le> 1 \<or>
      \<not> list_ex (\<lambda>i. oi_key i = (issuer, sub)) (list_oidc_identities_for_user (sp_user p) (rdb r))"
    using assms(1) len(1)
    by (auto simp: unlink_oidc_def list_oidc_identities_def http_Inr unlink_oidc_identity_def get_user_by_id_def)
  show ?thesis
  proof (cases "user_has_password (get_user_by_id (sp_user p) (rdb r))")
    case False
    have "list_ex (\<lambda>i. oi_key i = (issuer, sub)) (list_oidc_identities_for_user (sp_user p) (rdb r))"
      using hit len(2) by (auto simp: list_ex_iff rows_def)
    then have "2 \<le> length rows" using ok False by simp
    then obtain i where "i \<in> set (oidc_identities (rdb r))" "oi_user i = sp_user p" "oi_key i \<noteq> (issuer, sub)"
      using filter_key_length [OF assms(2), of "\<lambda>i. oi_user i = sp_user p" "(issuer, sub)"] unfolding rows_def by blast
    then show ?thesis by (auto simp: o list_ex_iff)
  qed (simp add: u)
qed

abbreviation demo_sso :: "unit router" where
  "demo_sso \<equiv> demo_accounts\<lparr>rdb := (rdb demo_accounts)\<lparr>
     users := map (\<lambda>u. u\<lparr>u_secret := None\<rparr>) (users (rdb demo_accounts)),
     oidc_identities := [\<lparr>oi_issuer = ''op'', oi_sub = ''1'', oi_user = ''bob'', oi_email = None, oi_created = 0, oi_last = None\<rparr>,
       \<lparr>oi_issuer = ''op'', oi_sub = ''2'', oi_user = ''bob'', oi_email = None, oi_created = 1, oi_last = None\<rparr>]\<rparr>\<rparr>"

theorem unlink_keeps_a_way_in_witness:
  "let r' = snd (unlink_oidc (demo_env ''x'') (demo_principal ''bob'' ''tier1'') ''op'' ''1'' demo_sso)
   in user_has_password (get_user_by_id ''bob'' (rdb r')) \<or> list_ex (\<lambda>i. oi_user i = ''bob'') (oidc_identities (rdb r'))"
proof -
  have c: "fst (unlink_oidc (demo_env ''x'') (demo_principal ''bob'' ''tier1'') ''op'' ''1'' demo_sso) = Inr ()"
    by code_simp
  show ?thesis
    using unlink_keeps_a_way_in [of "demo_env ''x''" "demo_principal ''bob'' ''tier1''" "''op''" "''1''" demo_sso
        "snd (unlink_oidc (demo_env ''x'') (demo_principal ''bob'' ''tier1'') ''op'' ''1'' demo_sso)"] c
    by (simp add: prod_eq_iff Let_def tbl_ok_def oi_key_def demo_principal_def)
qed

section \<open>Erasure\<close>

lemma soft_delete_erases:
  assumes "soft_delete_user uid now d = (Some c, d')" "\<not> dc_already c"
  shows "filter (\<lambda>t. rt_user t = uid) (refresh_tokens d') = []" "filter (\<lambda>t. pr_user t = uid) (reset_tokens d') = []"
  using assms by (auto simp: soft_delete_user_def Let_def delete_user_refresh_tokens_def
      delete_user_password_reset_tokens_def sweep_serviced_by_references_def upd_user_def split: option.splits if_splits)

lemma purge_session_sessions:
  assumes "purge_session uid sid d = Inr (b, d')"
  shows "sessions d' = filter (\<lambda>s. \<not> owns_session uid sid s) (sessions d)" "users d' = users d"
    "refresh_tokens d' = refresh_tokens d" "reset_tokens d' = reset_tokens d"
  using assms by (auto simp: purge_session_def delete_file_names_for_scope_def Let_def split: if_splits)

lemma purge_sessions_all:
  "purge_sessions uid sids d = Inr (n, d') \<Longrightarrow>
   sessions d' = filter (\<lambda>s. \<not> list_ex (\<lambda>sid. owns_session uid sid s) sids) (sessions d) \<and> users d' = users d \<and>
   refresh_tokens d' = refresh_tokens d \<and> reset_tokens d' = reset_tokens d"
proof (induction sids arbitrary: d n)
  case (Cons sid sids)
  then obtain b d1 m where *: "purge_session uid sid d = Inr (b, d1)" "purge_sessions uid sids d1 = Inr (m, d')"
    by (auto simp: bindE_Inr split: prod.splits)
  show ?case using purge_session_sessions [OF *(1)] Cons.IH [OF *(2)] by (auto simp: conj_commute intro: filter_cong)
qed simp

lemma purge_user_erases:
  assumes "purge_user digest uid actor now d = Inr (x, d')" "get_user_by_id uid d = Some u" "u_purged u = None"
  shows "\<exists>v. get_user_by_id uid d' = Some v \<and> u_email v = None \<and> u_secret v = None \<and> u_deleted v \<noteq> None \<and> u_purged v = Some now"
    "filter (\<lambda>s. s_user s = uid) (sessions d') = []" "filter (\<lambda>n. n_user n = uid) (names d') = []"
    "filter (\<lambda>i. oi_user i = uid) (oidc_identities d') = []"
proof -
  let ?d1 = "snd (soft_delete_user uid now d)"
  have "fst (soft_delete_user uid now d) \<noteq> None"
    using assms(2) by (cases "u_deleted u") (simp_all add: soft_delete_user_def split_beta Let_def)
  then obtain c where sd: "soft_delete_user uid now d = (Some c, ?d1)"
    by (metis option.exhaust prod.collapse)
  have "get_user_by_id uid ?d1 \<noteq> None \<and> (\<forall>v. get_user_by_id uid ?d1 = Some v \<longrightarrow> u_deleted v \<noteq> None)"
    using assms(2) by (auto simp: soft_delete_user_def split_beta Let_def delete_user_refresh_tokens_def delete_user_password_reset_tokens_def
        sweep_serviced_by_references_def upd_user_def get_user_by_id_def table_simps tbl_get_map split: option.splits)
  moreover obtain n d2 p where ps: "purge_sessions uid (map s_id (filter (\<lambda>s. s_user s = uid) (sessions ?d1))) ?d1 = Inr (n, d2)"
    and d': "d' = append_audit_event digest ''user'' actor ''user.purged'' (Some ''user'') (Some uid) p now
          (scrub_user uid now (d2\<lparr>names := filter (\<lambda>n. n_user n \<noteq> uid) (names d2),
             files := map (\<lambda>f. if f_user f = uid then f\<lparr>f_expires := Some now\<rparr> else f) (files d2),
             oidc_identities := filter (\<lambda>i. oi_user i \<noteq> uid) (oidc_identities d2)\<rparr>))"
    using assms sd unfolding purge_user_def Let_def by (force simp: bindE_Inr split: prod.splits)
  ultimately show "\<exists>v. get_user_by_id uid d' = Some v \<and> u_email v = None \<and> u_secret v = None \<and> u_deleted v \<noteq> None \<and> u_purged v = Some now"
    using purge_sessions_all [OF ps] by (auto simp: get_user_by_id_def upd_user_def table_simps)
  have "sessions d2 = filter (\<lambda>s. s_user s \<noteq> uid) (sessions ?d1)"
    using purge_sessions_all [OF ps] by (auto simp: list_ex_iff owns_session_def intro!: filter_cong)
  then show "filter (\<lambda>s. s_user s = uid) (sessions d') = []" by (simp add: d' upd_user_def)
  show "filter (\<lambda>n. n_user n = uid) (names d') = []" "filter (\<lambda>i. oi_user i = uid) (oidc_identities d') = []"
    by (simp_all add: d' upd_user_def)
qed

text \<open>Purging an account removes the person from it: email and password hash are cleared, the account
  is deleted, and no session, file name or SSO identity of the user is left.\<close>

theorem purge_erases:
  assumes "delete_user en p uid True r = (Inr (), r')" "get_user_by_id uid (rdb r) = Some u" "u_purged u = None"
  shows "\<exists>v. get_user_by_id uid (rdb r') = Some v \<and> u_email v = None \<and> u_secret v = None \<and> u_deleted v \<noteq> None \<and>
      filter (\<lambda>s. s_user s = uid) (sessions (rdb r')) = [] \<and> filter (\<lambda>n. n_user n = uid) (names (rdb r')) = [] \<and>
      filter (\<lambda>i. oi_user i = uid) (oidc_identities (rdb r')) = []"
proof -
  obtain actor x where p: "purge_user (dep_digest (ae_deps en)) uid actor (ae_now en) (rdb r) = Inr (x, rdb r')"
    using assms(1)
    by (auto simp: delete_user_def http_Inr dropLevelH_def metricH_def count_metric_def invalidate_user_level_def split: if_splits)
  show ?thesis using purge_user_erases [OF p assms(2,3)] by auto
qed

theorem purge_erases_witness:
  "\<exists>v. get_user_by_id ''bob'' (rdb (snd (delete_user (demo_env ''x'') (demo_principal ''root'' ''admin'') ''bob'' True demo_sso))) = Some v \<and>
     u_email v = None"
proof -
  have c: "fst (delete_user (demo_env ''x'') (demo_principal ''root'' ''admin'') ''bob'' True demo_sso) = Inr ()"
    by code_simp
  have u: "get_user_by_id ''bob'' (rdb demo_sso) = Some (demo_user ''bob'' ''tier1'' None [''bot''])"
    by code_simp
  show ?thesis
    using purge_erases [OF _ u, of "demo_env ''x''" "demo_principal ''root'' ''admin''"
        "snd (delete_user (demo_env ''x'') (demo_principal ''root'' ''admin'') ''bob'' True demo_sso)"] c
    by (auto simp: prod_eq_iff demo_user_def)
qed

end
