(* ===== verification/Grants.thy ===== *)
theory Grants
  imports AccountProps
begin

text \<open>
  Who may act for whom.  A service principal in \<open>serviced_by\<close> of a user can mint credentials for
  that user.  The calculus of \<open>AccountFacts\<close> is interpreted a second time, with the relation
  that no service principal gains a user.
\<close>

section \<open>Gaining a user\<close>

definition serves :: "user_id \<Rightarrow> user_id \<Rightarrow> db \<Rightarrow> bool" where
  "serves svc uid d = (case get_user_by_id uid d of None \<Rightarrow> False | Some u \<Rightarrow> svc \<in> set (u_serviced_by u))"

definition no_gain :: "user_id \<Rightarrow> db \<Rightarrow> db \<Rightarrow> bool" where
  "no_gain svc d d' \<longleftrightarrow> (\<forall>uid. serves svc uid d' \<longrightarrow> serves svc uid d)"

lemma serves_cong: "users d' = users d \<Longrightarrow> serves svc uid d' = serves svc uid d"
  by (simp add: serves_def get_user_by_id_def)

lemma no_gain_cong: "users d' = users d \<Longrightarrow> no_gain svc d d'"
  unfolding no_gain_def using serves_cong by blast

interpretation gains: db_relation "no_gain svc" for svc
proof
  show "no_gain svc d d" for d by (simp add: no_gain_def)
  show "no_gain svc d d' \<Longrightarrow> no_gain svc d' d'' \<Longrightarrow> no_gain svc d d''" for d d' d''
    by (simp add: no_gain_def)
  show "no_gain svc d (append_audit_event digest kind actor event tk target payload now d)"
    for digest kind actor event tk target payload now d
    by (rule no_gain_cong) simp
qed

section \<open>Statements\<close>

lemma no_gain_users:
  assumes "\<And>u. u_id (f u) = u_id u" "\<And>u. set (u_serviced_by (f u)) \<subseteq> set (u_serviced_by u)"
  shows "no_gain svc d (upd_user uid f d)" "no_gain svc d (d\<lparr>users := map f (users d)\<rparr>)"
proof -
  show "no_gain svc d (d\<lparr>users := map f (users d)\<rparr>)"
    using assms(2) by (auto simp: no_gain_def serves_def get_user_by_id_def tbl_get_map [of u_id f, OF assms(1)] split: option.splits)
  show "no_gain svc d (upd_user uid f d)"
    using assms(2) by (auto simp: no_gain_def serves_def get_user_by_id_def upd_user_def tbl_get_upd [of u_id f, OF assms(1)]
        split: option.splits)
qed

lemma no_gain_insert_user:
  "insert_user uid email lvl kind secret svcs new_id d = Inr (u, d') \<Longrightarrow> svc \<notin> set svcs \<Longrightarrow> no_gain svc d d'"
  by (auto simp: insert_user_def Let_def no_gain_def serves_def get_user_by_id_def tbl_get_append table_simps
      split: if_splits option.splits)

lemma no_gain_append: "svc' \<noteq> svc \<Longrightarrow> no_gain svc d (snd (append_to_serviced_by target svc' d))"
proof -
  assume ne: "svc' \<noteq> svc"
  have "no_gain svc d (upd_user target (\<lambda>u. u\<lparr>u_serviced_by := u_serviced_by u @ [svc']\<rparr>) d)"
    using ne by (auto simp: no_gain_def serves_def get_user_by_id_def upd_user_def table_simps split: if_splits option.splits)
  then show ?thesis by (auto simp: append_to_serviced_by_def gains.refl split: option.split)
qed

lemma no_gain_user_statements:
  "no_gain svc d (snd (remove_from_serviced_by target svc' d))" "no_gain svc d (snd (sweep_serviced_by_references svc' d))"
  "no_gain svc d (set_user_password_hash uid secret d)"
  by (auto simp: remove_from_serviced_by_def sweep_serviced_by_references_def set_user_password_hash_def
      intro!: no_gain_users gains.refl split: option.split)

lemma no_gain_statements:
  "no_gain svc d (snd (revoke_refresh_token h now d))"
  "no_gain svc d (snd (delete_user_refresh_tokens uid d))" "no_gain svc d (snd (consume_refresh_token h replaced_by now d))"
  "no_gain svc d (snd (consume_password_reset_token h now d))" "no_gain svc d (snd (delete_user_password_reset_tokens uid d))"
  "no_gain svc d (snd (delete_invitation h d))" "no_gain svc d (touch_oidc_identity issuer sub now d)"
  "no_gain svc d (snd (unlink_oidc_identity uid issuer sub d))" "no_gain svc d (log_registration_attempt ch ext now d)"
  "no_gain svc d (snd (delete_pending_registration rid d))"
  by (auto simp: revoke_refresh_token_def
      delete_user_refresh_tokens_def consume_refresh_token_def consume_password_reset_token_def
      delete_user_password_reset_tokens_def delete_invitation_def touch_oidc_identity_def unlink_oidc_identity_def
      log_registration_attempt_def delete_pending_registration_def
      intro!: no_gain_cong split: option.split)

lemma no_gain_fallible:
  "insert_refresh_token h uid expires now d = Inr (x, d') \<Longrightarrow> no_gain svc d d'"
  "insert_password_reset_token h uid expires by_user d = Inr (x, d') \<Longrightarrow> no_gain svc d d'"
  "insert_invitation h lvl expires by_user idem service now d = Inr (x, d') \<Longrightarrow> no_gain svc d d'"
  "link_oidc_identity issuer sub uid email now d = Inr (x, d') \<Longrightarrow> no_gain svc d d'"
  "upsert_pending_registration ch ext display email meta submitter secret new_id now d = Inr (g, d') \<Longrightarrow> no_gain svc d d'"
  "open_session uid sid metadata now d = Inr (s, d') \<Longrightarrow> no_gain svc d d'"
  by (auto simp: insert_refresh_token_def insert_password_reset_token_def insert_invitation_def link_oidc_identity_def
      upsert_pending_registration_def open_session_def Let_def intro!: no_gain_cong split: if_splits option.splits)

lemma no_gain_soft_delete: "no_gain svc d (snd (soft_delete_user uid now d))"
proof (cases "get_user_by_id uid d")
  case (Some u)
  define d1 where "d1 = upd_user uid (\<lambda>u. u\<lparr>u_deleted := Some now\<rparr>) d"
  define d3 where "d3 = snd (delete_user_password_reset_tokens uid (snd (delete_user_refresh_tokens uid d1)))"
  define d4 where "d4 = snd (sweep_serviced_by_references uid d3)"
  have "no_gain svc d d1" unfolding d1_def by (rule no_gain_users) simp_all
  moreover have "no_gain svc d1 d3"
    unfolding d3_def by (rule no_gain_cong) (simp add: delete_user_password_reset_tokens_def delete_user_refresh_tokens_def)
  moreover have "no_gain svc d3 d4" unfolding d4_def by (rule no_gain_user_statements)
  moreover have "no_gain svc d4 (d4\<lparr>files := fs\<rparr>)" for fs by (rule no_gain_cong) simp
  ultimately have "no_gain svc d (d4\<lparr>files := fs\<rparr>)" for fs by (metis gains.trans)
  then show ?thesis
    using Some by (simp add: soft_delete_user_def split_beta Let_def gains.refl d1_def d3_def d4_def)
qed (simp add: soft_delete_user_def gains.refl)

lemma purge_sessions_users: "purge_sessions uid sids d = Inr (n, d') \<Longrightarrow> users d' = users d"
proof (induction sids arbitrary: d n)
  case (Cons sid sids)
  then obtain b d1 m where *: "purge_session uid sid d = Inr (b, d1)" "purge_sessions uid sids d1 = Inr (m, d')"
    by (auto simp: bindE_Inr split: prod.splits)
  have "users d1 = users d"
    using *(1) by (auto simp: purge_session_def delete_file_names_for_scope_def Let_def split: if_splits)
  then show ?case using Cons.IH [OF *(2)] by simp
qed simp

lemma no_gain_purge_user:
  assumes "purge_user digest uid actor now d = Inr (x, d')"
  shows "no_gain svc d d'"
  using assms
proof (cases rule: purge_user_cases)
  case (3 n d2 p)
  have "no_gain svc (snd (soft_delete_user uid now d)) d2" by (rule no_gain_cong) (rule purge_sessions_users [OF 3(1)])
  moreover have "no_gain svc d2 d'" unfolding 3(2)
  proof (rule gains.trans [OF gains.trans gains.audit])
    show "no_gain svc d2 (d2\<lparr>names := ns, files := fs, oidc_identities := os\<rparr>)" for ns fs os
      by (rule no_gain_cong) simp
    show "no_gain svc d0 (scrub_user uid now d0)" for d0 by (rule no_gain_users) simp_all
  qed
  ultimately show ?thesis using gains.trans no_gain_soft_delete by blast
qed (simp_all add: gains.refl no_gain_soft_delete)

section \<open>Endpoints\<close>

lemma gains_tries:
  "svc \<notin> set svcs \<Longrightarrow> keeps (no_gain svc) (tryH (insert_user uid email lvl kind secret svcs new_id))"
  "keeps (no_gain svc) (tryH (insert_refresh_token h owner expires now))"
  "keeps (no_gain svc) (tryH (insert_password_reset_token h owner expires by_user))"
  "keeps (no_gain svc) (tryH (upsert_pending_registration ch ext display req_email meta submitter req_secret pg now))"
  "keeps (no_gain svc) (tryH (open_session owner sid sm now))"
  "keeps (no_gain svc) (tryH (purge_user digest owner actor now))"
  by (rule gains.attempt, erule no_gain_insert_user no_gain_fallible no_gain_purge_user, assumption?)+

definition calm_gains :: "user_id \<Rightarrow> 'r api_env \<Rightarrow> bool" where
  "calm_gains svc en \<longleftrightarrow> (\<forall>r. no_gain svc (rdb r) (rdb (ae_others en r)))"

lemma gains_others: "calm_gains svc en \<Longrightarrow> keeps (no_gain svc) (othersH en)"
  by (simp add: calm_gains_def gains.others)

lemma gains_insert_refresh: "keeps (no_gain svc) (insert_refresh en tok uid)"
  unfolding insert_refresh_def by (intro gains.bind gains.reads gains_tries)

lemmas gain_rules = gains.calculus gains_others gains_insert_refresh gains_tries no_gain_user_statements no_gain_statements
  no_gain_soft_delete

lemma gains_auth:
  "calm_gains svc en \<Longrightarrow> keeps (no_gain svc) (login en ip email pw)" "keeps (no_gain svc) (refresh en ip tok)"
  "keeps (no_gain svc) (logout en p rtok)" "keeps (no_gain svc) (change_password en p pw_old pw_new)"
  "keeps (no_gain svc) (reset_password en ip tok pw)" "keeps (no_gain svc) (mint_link_token en p)"
  unfolding login_def enforce_login_rate_limit_def login_check_def refresh_def refresh_tx_def logout_def change_password_def
    reset_password_def reset_tx_def mint_link_token_def Let_def
  by (intro gain_rules; assumption)+

lemma gains_gate: "(\<And>q. gate = Inr q \<Longrightarrow> keeps (no_gain svc) (f q)) \<Longrightarrow> keeps (no_gain svc) (bindH (liftH gate) f)"
  by (cases gate) (auto simp: keeps_def http_defs gains.refl)

lemma gains_link_channel:
  assumes "grant \<and> sp_level p = ''service'' \<Longrightarrow> sp_user p \<noteq> svc"
  shows "keeps (no_gain svc) (link_channel en p tok grant)"
  unfolding link_channel_def
proof (rule gains_gate)
  fix p' assume "require_service p = Inr p'"
  then have p: "sp_level p = ''service''" "p' = p" by (auto simp: require_service_def split: if_splits)
  have "sp_user p \<noteq> svc" if grant using assms that p by simp
  then show "keeps (no_gain svc) (transaction (link_tx en p' tok grant))"
    unfolding link_tx_def p(2) by (intro gain_rules no_gain_append) simp_all
qed

lemma gains_link_or_conflict: "keeps (no_gain svc) (link_or_conflict en issuer sub uid email)"
  by (auto simp: keeps_def link_or_conflict_def raiseH_def gains.refl split: sum.split dest: no_gain_fallible(4))

lemma gains_claim_sub: "keeps (no_gain svc) (claim_sub claims)"
  by (simp add: claim_sub_def gains.reads split: option.split json.split)

lemma gains_exchange_tx: "keeps (no_gain svc) (exchange_tx en q claims)"
  unfolding exchange_tx_def link_oidc_via_token_def resolve_or_provision_oidc_user_def provision_oidc_user_def
  by (intro gain_rules gains_link_or_conflict gains_claim_sub) simp

lemma gains_unlink_oidc: "keeps (no_gain svc) (unlink_oidc en p issuer sub)"
  unfolding unlink_oidc_def list_oidc_identities_def by (intro gain_rules)

lemma gains_invitations:
  "keeps (no_gain svc) (issue_invitation en p0 lvl expires_in tok service idem)"
  "calm_gains svc en \<Longrightarrow> keeps (no_gain svc) (revoke_invitation en p0 h)"
proof -
  have "keeps (no_gain svc) (\<lambda>r. case insert_invitation (ae_sha en (py_or tok (ae_token en))) lvl e b idem service now (rdb r) of
            Inr (_, d) \<Rightarrow> thenH (auditH en k a ev tk t pl) (retH y) (r\<lparr>rdb := d\<rparr>)
          | Inl (UniqueViolation c) \<Rightarrow>
              if c = ''invitations_pkey'' \<and> tok \<noteq> None \<and> idem \<noteq> None
              then (case get_invitation (ae_sha en (py_or tok (ae_token en))) (rdb r) of
                      Some i \<Rightarrow> if same_invitation p lvl idem service i then retH (py_or tok (ae_token en), iv_expires i) r
                                else raiseH 409 ''token already exists'' r
                    | None \<Rightarrow> raiseH 409 ''token already exists'' r)
              else if idem = None \<or> c \<noteq> ''invitations_created_by_idempotency_key_uniq'' then raiseH 500 c r
              else raiseH 409 ''Idempotency-Key already used'' r
          | Inl e \<Rightarrow> (Inl (db_http e), r))" for e b now k a ev tk t pl y p
    by (auto simp: keeps_def http_defs auditH_def gains.refl split: sum.split db_error.split option.split
        intro: gains.trans [OF no_gain_fallible(3) gains.audit])
  then show "keeps (no_gain svc) (issue_invitation en p0 lvl expires_in tok service idem)"
    unfolding issue_invitation_def Let_def by (intro gain_rules)
  show "calm_gains svc en \<Longrightarrow> keeps (no_gain svc) (revoke_invitation en p0 h)"
    unfolding revoke_invitation_def by (intro gain_rules; assumption)
qed

lemma gains_check_serviced_by: "keeps (no_gain svc) (check_serviced_by us)"
  by (induction us) (simp_all, intro gain_rules, intro gain_rules)

lemma gains_create_user:
  assumes "calm_gains svc en" "sp_level p0 = ''admin'' \<Longrightarrow> svc \<notin> set (cu_serviced_by q)"
  shows "keeps (no_gain svc) (create_user en p0 q)"
  unfolding create_user_def
proof (rule gains_gate, goal_cases)
  case (1 p)
  then have "svc \<notin> set (cu_serviced_by q)" using assms(2) by (auto simp: require_admin_def split: if_splits)
  moreover have "keeps (no_gain svc) (seed_refresh en tok uid)" for tok uid
    by (auto simp: seed_refresh_def gains.reads gains_insert_refresh split: option.split)
  ultimately show ?case by (intro gain_rules gains_check_serviced_by assms(1))
qed

lemma gains_update_user: "keeps (no_gain svc) (update_user en p0 uid lvl susp)"
proof -
  have "u_serviced_by (patch_user lvl susp now u) = u_serviced_by u" for lvl susp now u
    by (simp add: patch_user_def Let_def split: option.split bool.split)
  moreover have "keeps (no_gain svc) (audit_all en actor target es)" for actor target es
    by (induction es) (simp_all, intro gain_rules, intro gain_rules)
  moreover have "keeps (no_gain svc) (dropLevelH uid)" for uid
    by (simp add: keeps_def dropLevelH_def invalidate_user_level_def gains.refl)
  ultimately show ?thesis
    unfolding update_user_def by (intro gain_rules no_gain_users) (simp_all add: patch_user_keeps)
qed

lemma gains_delete_user: "keeps (no_gain svc) (delete_user en p0 uid purge)"
proof -
  have "keeps (no_gain svc) (dropLevelH uid)" for uid
    by (simp add: keeps_def dropLevelH_def invalidate_user_level_def gains.refl)
  then show ?thesis unfolding delete_user_def by (intro gain_rules)
qed

lemma gains_mints:
  assumes "calm_gains svc en"
  shows "keeps (no_gain svc) (service_mint_refresh_token en p0 target)"
    "keeps (no_gain svc) (mint_password_reset_token en p0 target)"
  unfolding service_mint_refresh_token_def mint_password_reset_token_def mint_target_def service_may_mint_def deny_mint_def
    enforce_per_target_mint_rate_limit_def Let_def
  by (intro gain_rules assms)+

lemma gains_grant:
  assumes "sp_level p0 = ''admin'' \<Longrightarrow> svc' \<noteq> svc"
  shows "keeps (no_gain svc) (grant_serviced_by en p0 target svc')"
  unfolding grant_serviced_by_def
proof (rule gains_gate, goal_cases)
  case (1 p)
  then have "svc' \<noteq> svc" using assms by (auto simp: require_admin_def split: if_splits)
  then show ?case by (intro gain_rules no_gain_append)
qed

lemma gains_revokes:
  "keeps (no_gain svc) (revoke_serviced_by en p0 target svc')" "keeps (no_gain svc) (revoke_user_refresh_tokens en p0 target)"
  unfolding revoke_serviced_by_def revoke_user_refresh_tokens_def by (intro gain_rules)+

lemma gains_registrations: "keeps (no_gain svc) (submit_registration en p q)"
    "keeps (no_gain svc) (submit_web_registration en ip email pw display)" "keeps (no_gain svc) (reject_registration en p0 rid)"
  unfolding submit_registration_def submit_web_registration_def store_registration_def Let_def reject_registration_def
    registration_bucket_def registration_deny_def
  by (intro gain_rules)+

lemma gains_approve: "sp_level p0 \<noteq> ''admin'' \<Longrightarrow> keeps (no_gain svc) (approve_registration en p0 rid q)"
  by (simp add: approve_registration_def require_admin_def keeps_def http_defs gains.refl)

section \<open>Provenance\<close>

text \<open>The operations by which \<open>svc\<close> may gain a user: an admin's grant or creation, an admin's approval of
  a registration, and redeeming a link token itself.\<close>

fun grants :: "user_id \<Rightarrow> 'r account_op \<Rightarrow> bool" where
  "grants svc (GrantServicedBy en p target svc') = (svc' = svc \<and> sp_level p = ''admin'')"
| "grants svc (CreateUser en p q) = (svc \<in> set (cu_serviced_by q) \<and> sp_level p = ''admin'')"
| "grants svc (Approve en p rid q) = (sp_level p = ''admin'')"
| "grants svc (LinkChannel en p tok grant) = (grant \<and> sp_user p = svc \<and> sp_level p = ''service'')"
| "grants svc x = False"

lemma gains_on_router: "keeps (no_gain svc) m \<Longrightarrow> no_gain svc (rdb (snd s)) (rdb (snd (on_router m s)))"
  by (simp add: on_router_snd keepsD)

lemma gains_oidc_gate: "keeps (no_gain svc) (oidc_gate en ip uri)"
  unfolding oidc_gate_def by (intro gain_rules)

lemma gains_authorize:
  "no_gain svc (rdb (snd s)) (rdb (snd (snd (oidc_authorize en net ip uri st nonce verifier challenge s))))"
  using keepsD [OF gains_oidc_gate, of svc "snd s" en ip uri] gains.refl
  by (auto simp: oidc_authorize_def split: prod.splits option.splits sum.splits oidc_fault.splits)

lemma gains_exchange:
  assumes "calm_gains svc en"
  shows "no_gain svc (rdb (snd s)) (rdb (snd (snd (oidc_exchange en net ip q s))))"
proof -
  have "keeps (no_gain svc) (bindH (transaction (exchange_tx en q claims)) (token_pair_of en))" for claims
    by (intro gain_rules gains_exchange_tx)
  then have "no_gain svc (rdb (ae_others en r)) (rdb r2)"
    if "bindH (transaction (exchange_tx en q claims)) (token_pair_of en) (ae_others en r) = (x, r2)" for claims r x r2
    using keeps_then that by blast
  then have post: "no_gain svc (rdb r) (rdb r2)"
    if "bindH (transaction (exchange_tx en q claims)) (token_pair_of en) (ae_others en r) = (x, r2)" for claims r x r2
    using that assms unfolding calm_gains_def by (meson gains.trans)
  show ?thesis
    using keepsD [OF gains_oidc_gate, of svc "snd s" en ip "xq_redirect q"] gains.refl
    by (auto simp: oidc_exchange_def split: prod.splits option.splits sum.splits oidc_fault.splits
        intro: gains.trans [OF _ post])
qed

lemmas gains_endpoints = gains_auth gains_unlink_oidc gains_invitations gains_update_user gains_delete_user gains_mints
  gains_revokes gains_registrations

lemma gains_step:
  assumes "calm_gains svc (op_env x)" "\<not> grants svc x"
  shows "no_gain svc (rdb (snd s)) (rdb (snd (account_step x s)))"
  using assms
  by (cases x) (auto simp: gains_authorize gains_exchange
      intro!: gains_on_router gains_endpoints gains_create_user gains_grant gains_link_channel gains_approve)



text \<open>A service principal gets a refresh token for a user only if it serves that user, the user is
  neither suspended nor deleted, and the user is neither an admin nor a service principal.\<close>

theorem mint_needs_grant:
  assumes "service_mint_refresh_token en p uid r = (Inr (tok, expires), r')"
  shows "sp_level p = ''service'' \<and> serves (sp_user p) uid (rdb r) \<and>
    (\<exists>u. get_user_by_id uid (rdb r) = Some u \<and> u_suspended u = None \<and> u_deleted u = None \<and> u_level u \<notin> {''admin'', ''service''})"
  using assms
  by (auto simp: service_mint_refresh_token_def mint_target_def service_may_mint_def deny_mint_def http_Inr require_service_def
      serves_def PRIVILEGED_LEVELS_def split: if_splits)

theorem mint_needs_grant_witness:
  "\<exists>u. get_user_by_id ''bob'' (rdb demo_accounts) = Some u \<and> u_suspended u = None \<and> u_deleted u = None \<and>
     u_level u \<notin> {''admin'', ''service''}"
proof -
  have "fst (service_mint_refresh_token (demo_env ''m'') (demo_principal ''bot'' ''service'') ''bob'' demo_accounts) =
      Inr (''m'', 2592010)"
    by code_simp
  then obtain r' where "service_mint_refresh_token (demo_env ''m'') (demo_principal ''bot'' ''service'') ''bob'' demo_accounts =
      (Inr (''m'', 2592010), r')"
    by (metis prod.collapse)
  from mint_needs_grant [OF this] show ?thesis by simp
qed

lemma append_keeps_resets: "append_to_serviced_by target svc d = (b, d') \<Longrightarrow> reset_tokens d' = reset_tokens d"
  by (auto simp: append_to_serviced_by_def upd_user_def split: option.splits if_splits)

text \<open>Linking a channel takes an unused, unexpired link token of the user who is linked, and the
  token is spent by it; the grant that comes with it never covers an admin or a service principal.\<close>

theorem link_needs_token:
  assumes "link_channel en p tok grant r = (Inr uid, r')"
  shows "\<exists>t. tbl_get pr_hash (ae_sha en tok) (reset_tokens (rdb r)) = Some t \<and> pr_user t = uid \<and> pr_used t = None \<and>
      \<not> pr_expires t < ae_now en \<and> ae_sha en tok \<notin> reset_live (rdb r') \<and> sp_level p = ''service'' \<and>
      (\<exists>u. get_user_by_id uid (rdb r) = Some u \<and> user_is_active (Some u) \<and> (\<not> grant \<or> u_level u \<notin> {''admin'', ''service''}))"
proof -
  have p: "sp_level p = ''service''" and tx: "link_tx en p tok grant r = (Inr uid, r')"
    using assms by (auto simp: link_channel_def http_Inr require_service_def split: if_splits)
  from tx obtain d u r1 granted where c: "consume_password_reset_token (ae_sha en tok) (ae_now en) (rdb r) = (Some uid, d)"
      "get_user_by_id uid d = Some u" "user_is_active (Some u)"
    and k: "(if \<not> grant then retH False
                else if u_level u \<in> set PRIVILEGED_LEVELS
                then bindH (denial_audit_allowed en (Some (sp_user p)) ''user.serviced_by_grant_denied'') (\<lambda>ok.
                     thenH (if ok then auditH en ''user'' (Some (sp_user p)) ''user.serviced_by_grant_denied''
                                         (Some ''user'') (Some uid)
                                         (Some [(''reason'', JStr ''privileged_target''), (''purpose'', JStr ''link_channel'')])
                            else retH ())
                     (raiseH 403 ''service principals may not be granted serviced_by over admin/service users''))
                else execH (append_to_serviced_by uid (sp_user p))) (r\<lparr>rdb := d\<rparr>) = (Inr granted, r1)"
      "reset_tokens (rdb r') = reset_tokens (rdb r1)"
    by (fastforce simp: link_tx_def http_Inr split: option.splits)
  have g: "\<not> grant \<or> u_level u \<notin> {''admin'', ''service''}"
    using k(1) by (auto simp: http_Inr PRIVILEGED_LEVELS_def split: if_splits)
  have l: "reset_live (rdb r') = reset_live d"
    using k by (auto simp: reset_live_def http_Inr dest: append_keeps_resets split: if_splits)
  obtain t where "tbl_get pr_hash (ae_sha en tok) (reset_tokens (rdb r)) = Some t \<and> pr_used t = None \<and>
      \<not> pr_expires t < ae_now en \<and> uid = pr_user t"
    using c(1) unfolding consume_reset_iff by blast
  then show ?thesis
    using consume_reset_Some [OF c(1)] c(2,3) g l p by (auto simp: get_user_by_id_def)
qed

theorem link_needs_token_witness:
  "\<exists>t. tbl_get pr_hash ''#p1'' (reset_tokens (rdb demo_accounts)) = Some t \<and> pr_user t = ''bob''"
proof -
  have "fst (link_channel (demo_env ''m'') (demo_principal ''bot'' ''service'') ''p1'' True demo_accounts) = Inr ''bob''"
    by code_simp
  then obtain r' where "link_channel (demo_env ''m'') (demo_principal ''bot'' ''service'') ''p1'' True demo_accounts = (Inr ''bob'', r')"
    by (metis prod.collapse)
  from link_needs_token [OF this] show ?thesis by auto
qed

end
