(* ===== verification/Agents.thy ===== *)
theory Agents
  imports Http Accounts Hub
begin

text \<open>
  Agents as the router knows them: the identity an agent publishes (\<open>AgentInfo\<close> of
  \<open>bp_protocol/types.py\<close>), its row and the statements on it (\<open>db/queries.py\<close>), the catalog
  one agent sees of the others (\<open>visibility.py\<close>), its broadcast (\<open>catalog.py\<close>) and the cache
  a reconnecting fleet shares (\<open>_CatalogCache\<close> of \<open>ws_hub.py\<close>).
\<close>

section \<open>What an agent publishes\<close>

record agent_info =
  ai_id :: agent_id
  ai_description :: string
  ai_groups :: "string list"
  ai_caps :: "string list"
  ai_accepts :: "(string \<times> json) list option"
  ai_produces :: "(string \<times> json) list option"
  ai_produces_files :: bool
  ai_non_tool :: "string list"
  ai_modes :: "(string \<times> string) list option"
  ai_docs :: "string option"
  ai_hidden :: bool

definition docs_ok :: "string option \<Rightarrow> bool" where
  "docs_ok v = (case v of None \<Rightarrow> True
     | Some u \<Rightarrow> u = [] \<or> starts_with ''http://'' (py_lower u) \<or> starts_with ''https://'' (py_lower u))"

text \<open>The validators of \<open>AgentInfo\<close>.\<close>

definition agent_info_ok :: "agent_info \<Rightarrow> bool" where
  "agent_info_ok ai = (match_agent_id (ai_id ai) \<and> docs_ok (ai_docs ai) \<and>
     list_all match_group_name (ai_groups ai) \<and> list_all match_capability (ai_caps ai))"

definition opt_json :: "('a \<Rightarrow> json) \<Rightarrow> 'a option \<Rightarrow> json" where
  "opt_json f x = (case x of None \<Rightarrow> JNull | Some a \<Rightarrow> f a)"

text \<open>\<open>model_dump()\<close>.\<close>

definition dump_info :: "agent_info \<Rightarrow> (string \<times> json) list" where
  "dump_info ai =
     [(''agent_id'', JStr (ai_id ai)), (''description'', JStr (ai_description ai)),
      (''groups'', JArr (map JStr (ai_groups ai))), (''capabilities'', JArr (map JStr (ai_caps ai))),
      (''accepts_schema'', opt_json JObj (ai_accepts ai)), (''produces_schema'', opt_json JObj (ai_produces ai)),
      (''produces_files'', JBool (ai_produces_files ai)), (''non_tool_modes'', JArr (map JStr (ai_non_tool ai))),
      (''mode_descriptions'', opt_json (\<lambda>d. JObj (map (\<lambda>(m, t). (m, JStr t)) d)) (ai_modes ai)),
      (''documentation_url'', opt_json JStr (ai_docs ai)), (''hidden'', JBool (ai_hidden ai))]"

text \<open>
  \<open>model_validate\<close> of a dict, on values of the types a dump has (pydantic's coercions between
  scalar types are not modelled); \<open>None\<close> is \<open>ValidationError\<close>.
\<close>

definition want :: "'a option \<Rightarrow> (json \<Rightarrow> 'a option) \<Rightarrow> json option \<Rightarrow> 'a option" where
  "want dflt f j = (case j of None \<Rightarrow> dflt | Some v \<Rightarrow> f v)"

fun as_str :: "json \<Rightarrow> string option" where
  "as_str (JStr s) = Some s" | "as_str _ = None"

fun as_bool :: "json \<Rightarrow> bool option" where
  "as_bool (JBool b) = Some b" | "as_bool _ = None"

fun all_some :: "'a option list \<Rightarrow> 'a list option" where
  "all_some [] = Some []"
| "all_some (None # xs) = None"
| "all_some (Some a # xs) = map_option ((#) a) (all_some xs)"

fun as_strs :: "json \<Rightarrow> string list option" where
  "as_strs (JArr js) = all_some (map as_str js)" | "as_strs _ = None"

fun or_null :: "(json \<Rightarrow> 'a option) \<Rightarrow> json \<Rightarrow> 'a option option" where
  "or_null f JNull = Some None" | "or_null f j = map_option Some (f j)"

fun as_obj :: "json \<Rightarrow> (string \<times> json) list option" where
  "as_obj (JObj kvs) = Some kvs" | "as_obj _ = None"

fun as_str_obj :: "json \<Rightarrow> (string \<times> string) list option" where
  "as_str_obj (JObj kvs) = all_some (map (\<lambda>(k, v). map_option (Pair k) (as_str v)) kvs)" | "as_str_obj _ = None"

definition parse_info :: "(string \<times> json) list \<Rightarrow> agent_info option" where
  "parse_info kvs =
     (case (want None as_str (map_of kvs ''agent_id''), want None as_str (map_of kvs ''description''),
            want (Some []) as_strs (map_of kvs ''groups''), want (Some []) as_strs (map_of kvs ''capabilities''),
            want (Some None) (or_null as_obj) (map_of kvs ''accepts_schema''),
            want (Some None) (or_null as_obj) (map_of kvs ''produces_schema''),
            want (Some False) as_bool (map_of kvs ''produces_files''), want (Some []) as_strs (map_of kvs ''non_tool_modes''),
            want (Some None) (or_null as_str_obj) (map_of kvs ''mode_descriptions''),
            want (Some None) (or_null as_str) (map_of kvs ''documentation_url''), want (Some False) as_bool (map_of kvs ''hidden'')) of
        (Some aid, Some desc, Some gs, Some cs, Some acc, Some out, Some pf, Some ntm, Some ms, Some docs, Some hid) \<Rightarrow>
          Some \<lparr>ai_id = aid, ai_description = desc, ai_groups = gs, ai_caps = cs, ai_accepts = acc, ai_produces = out,
                ai_produces_files = pf, ai_non_tool = ntm, ai_modes = ms, ai_docs = docs, ai_hidden = hid\<rparr>
      | _ \<Rightarrow> None)"

definition validate_info :: "(string \<times> json) list \<Rightarrow> agent_info option" where
  "validate_info kvs = (case parse_info kvs of None \<Rightarrow> None | Some ai \<Rightarrow> if agent_info_ok ai then Some ai else None)"

text \<open>\<open>dict(row.agent_info or {})\<close>.\<close>

definition info_dict :: "json \<Rightarrow> (string \<times> json) list" where
  "info_dict j = (case j of JObj kvs \<Rightarrow> kvs | _ \<Rightarrow> [])"

section \<open>Rows\<close>

text \<open>The \<open>CHECK\<close> of the table: Postgres's \<open>$\<close> takes no trailing newline.\<close>

definition agent_id_check :: "agent_id \<Rightarrow> bool" where
  "agent_id_check s = (match_agent_id s \<and> chomp s = s)"

definition upd_agent :: "agent_id \<Rightarrow> (agent_row \<Rightarrow> agent_row) \<Rightarrow> db \<Rightarrow> db" where
  "upd_agent a f d = d\<lparr>agents := tbl_upd a_id a f (agents d)\<rparr>"

definition list_agents :: "db \<Rightarrow> agent_row list" where
  "list_agents d = sort_key a_id (agents d)"

definition insert_agent ::
  "agent_id \<Rightarrow> string list \<Rightarrow> string list \<Rightarrow> json \<Rightarrow> string option \<Rightarrow> db \<Rightarrow> db_error + agent_row \<times> db" where
  "insert_agent a caps groups info pubkey d =
     (let row = \<lparr>a_id = a, a_status = ''active'', a_caps = caps, a_groups = groups, a_info = info, a_public_key = pubkey,
                 a_last_seen = None\<rparr>
      in if \<not> agent_id_check a then Inl (CheckViolation ''agents_agent_id_check'')
         else if get_agent a d \<noteq> None then Inl (UniqueViolation ''agents_pkey'')
         else Inr (row, d\<lparr>agents := agents d @ [row]\<rparr>))"

definition update_agent_last_seen :: "agent_id \<Rightarrow> time \<Rightarrow> db \<Rightarrow> db" where
  "update_agent_last_seen a now = upd_agent a (\<lambda>x. x\<lparr>a_last_seen := Some now\<rparr>)"

definition update_agent_info :: "agent_id \<Rightarrow> json \<Rightarrow> string list \<Rightarrow> string list \<Rightarrow> db \<Rightarrow> bool \<times> db" where
  "update_agent_info a info groups caps d =
     (get_agent a d \<noteq> None, upd_agent a (\<lambda>x. x\<lparr>a_info := info, a_groups := groups, a_caps := caps\<rparr>) d)"

definition suspend_agent_row :: "agent_id \<Rightarrow> db \<Rightarrow> db" where
  "suspend_agent_row a = upd_agent a (\<lambda>x. x\<lparr>a_status := ''suspended''\<rparr>)"

definition unsuspend_agent_row :: "agent_id \<Rightarrow> db \<Rightarrow> db" where
  "unsuspend_agent_row a = upd_agent a (\<lambda>x. if a_status x = ''suspended'' then x\<lparr>a_status := ''active''\<rparr> else x)"

text \<open>\<open>None\<close>: the guard of the \<open>UPDATE\<close> matched no row, and the row object cannot be built.\<close>

definition reactivate_agent_on_onboard ::
  "agent_id \<Rightarrow> string list \<Rightarrow> string list \<Rightarrow> json \<Rightarrow> string option \<Rightarrow> db \<Rightarrow> agent_row option \<times> db" where
  "reactivate_agent_on_onboard a caps groups info pubkey d =
     (case get_agent a d of
        None \<Rightarrow> (None, d)
      | Some x \<Rightarrow>
          if a_status x \<in> {''active'', ''pending'', ''suspended''}
          then (let f = (\<lambda>x. x\<lparr>a_status := ''active'', a_caps := caps, a_groups := groups, a_info := info,
                              a_public_key := coalesce pubkey (a_public_key x)\<rparr>)
                in (Some (f x), upd_agent a f d))
          else (None, d))"

definition evict_agent_row :: "agent_id \<Rightarrow> db \<Rightarrow> db" where
  "evict_agent_row a = upd_agent a (\<lambda>x. x\<lparr>a_status := ''removed''\<rparr>)"

definition reset_agent_to_pending :: "agent_id \<Rightarrow> db \<Rightarrow> bool \<times> db" where
  "reset_agent_to_pending a d =
     ((case get_agent a d of None \<Rightarrow> False | Some x \<Rightarrow> a_status x \<in> {''active'', ''suspended''}),
      upd_agent a (\<lambda>x. if a_status x \<in> {''active'', ''suspended''} then x\<lparr>a_status := ''pending''\<rparr> else x) d)"

section \<open>Tombstones\<close>

definition TOMBSTONE_MAX :: nat where
  "TOMBSTONE_MAX = 64"

definition tombstone_agent_id :: "string \<Rightarrow> int \<Rightarrow> string" where
  "tombstone_agent_id a epoch =
     (let suffix = CHR ''_'' # show_int epoch; head = ''deleted_'' @ a
      in take (TOMBSTONE_MAX - length suffix) head @ suffix)"

text \<open>A new primary key for an agent, cascaded to the tasks that name it.\<close>

definition rename_agent_pk :: "agent_id \<Rightarrow> agent_id \<Rightarrow> db \<Rightarrow> db" where
  "rename_agent_pk a b d =
     (let ren = (\<lambda>x. if x = a then b else x)
      in d\<lparr>agents := tbl_upd a_id a (\<lambda>x. x\<lparr>a_id := b\<rparr>) (agents d),
           tasks := map (\<lambda>t. t\<lparr>t_agent := ren (t_agent t), t_caller := ren (t_caller t), t_active := ren (t_active t)\<rparr>) (tasks d)\<rparr>)"

text \<open>
  A new primary key for a user, cascaded along the foreign keys (\<open>serviced_by\<close> is an array
  without one).
\<close>

definition rename_user_pk :: "user_id \<Rightarrow> user_id \<Rightarrow> db \<Rightarrow> db" where
  "rename_user_pk u v d =
     (let ren = (\<lambda>x. if x = u then v else x)
      in d\<lparr>users := tbl_upd u_id u (\<lambda>x. x\<lparr>u_id := v\<rparr>) (users d),
           sessions := map (\<lambda>s. s\<lparr>s_user := ren (s_user s)\<rparr>) (sessions d),
           tasks := map (\<lambda>t. t\<lparr>t_user := ren (t_user t)\<rparr>) (tasks d),
           files := map (\<lambda>f. f\<lparr>f_user := ren (f_user f)\<rparr>) (files d),
           names := map (\<lambda>n. n\<lparr>n_user := ren (n_user n)\<rparr>) (names d),
           refresh_tokens := map (\<lambda>t. t\<lparr>rt_user := ren (rt_user t)\<rparr>) (refresh_tokens d),
           reset_tokens := map (\<lambda>t. t\<lparr>pr_user := ren (pr_user t), pr_by := map_option ren (pr_by t)\<rparr>) (reset_tokens d),
           invitations := map (\<lambda>i. i\<lparr>iv_by := ren (iv_by i)\<rparr>) (invitations d),
           oidc_identities := map (\<lambda>i. i\<lparr>oi_user := ren (oi_user i)\<rparr>) (oidc_identities d),
           registrations := map (\<lambda>g. g\<lparr>pg_by := map_option ren (pg_by g)\<rparr>) (registrations d),
           acl_rules := map (\<lambda>x. x\<lparr>al_by := map_option ren (al_by x)\<rparr>) (acl_rules d),
           llm_presets := map (\<lambda>x. x\<lparr>lp_by := map_option ren (lp_by x)\<rparr>) (llm_presets d)\<rparr>)"

definition rename_evicted_agent ::
  "agent_id \<Rightarrow> int \<Rightarrow> user_id option \<Rightarrow> db \<Rightarrow> db_error + (agent_id \<times> user_id option) \<times> db" where
  "rename_evicted_agent a epoch svc d =
     (let new_id = tombstone_agent_id a epoch
      in case get_agent a d of
           None \<Rightarrow> Inr ((a, None), d)
         | Some x \<Rightarrow>
             if a_status x \<noteq> ''removed'' then Inr ((a, None), d)
             else if \<not> agent_id_check new_id then Inl (CheckViolation ''agents_agent_id_check'')
             else if new_id \<noteq> a \<and> get_agent new_id d \<noteq> None then Inl (UniqueViolation ''agents_pkey'')
             else let d1 = rename_agent_pk a new_id d
                  in case svc of
                       None \<Rightarrow> Inr ((new_id, None), d1)
                     | Some u \<Rightarrow>
                         let cand = tombstone_agent_id u epoch
                         in case get_user_by_id u d1 of
                              None \<Rightarrow> Inr ((new_id, None), d1)
                            | Some row \<Rightarrow>
                                if u_level row \<noteq> ''service'' then Inr ((new_id, None), d1)
                                else if cand \<noteq> u \<and> get_user_by_id cand d1 \<noteq> None then Inl (UniqueViolation ''users_pkey'')
                                else Inr ((new_id, Some cand), rename_user_pk u cand d1))"

section \<open>What one agent sees of the others\<close>

definition json_or :: "json option \<Rightarrow> json \<Rightarrow> json" where
  "json_or j d = (case j of None \<Rightarrow> d | Some v \<Rightarrow> v)"

definition catalog_entry_of :: "agent_row \<Rightarrow> level list \<Rightarrow> catalog_entry" where
  "catalog_entry_of x levels =
     (let info = info_dict (a_info x)
      in \<lparr>ce_description = json_or (map_of info ''description'') (JStr ''''), ce_groups = a_groups x, ce_caps = a_caps x,
          ce_accepts = json_or (map_of info ''accepts_schema'') JNull,
          ce_non_tool_modes = json_or (map_of info ''non_tool_modes'') (JArr []),
          ce_mode_descriptions = json_or (map_of info ''mode_descriptions'') JNull,
          ce_hidden = json_or (map_of info ''hidden'') (JBool False),
          ce_docs = json_or (map_of info ''documentation_url'') JNull, ce_levels = levels, ce_last_seen = a_last_seen x\<rparr>)"

fun add_destinations :: "agent_row \<Rightarrow> rule list \<Rightarrow> level list \<Rightarrow> agent_row list \<Rightarrow> catalog \<Rightarrow> catalog" where
  "add_destinations caller rules levels [] result = result"
| "add_destinations caller rules levels (x # xs) result =
     add_destinations caller rules levels xs
       (if a_status x \<noteq> ''active'' \<or> a_id x = a_id caller then result
        else let callable = compute_callable_user_levels rules (view_of_agent caller) (view_of_agent x) levels
             in if callable = [] then result else dict_set (a_id x) (catalog_entry_of x callable) result)"

definition available_destinations :: "agent_row \<Rightarrow> agent_row list \<Rightarrow> rule list \<Rightarrow> nat \<Rightarrow> catalog" where
  "available_destinations caller candidates rules max_tier =
     (case deployment_levels (int max_tier) of
        None \<Rightarrow> []
      | Some levels \<Rightarrow> add_destinations caller rules levels candidates [])"

section \<open>The broadcast\<close>

text \<open>One connected agent: it gets its catalog unless its row is gone or its outbox full.\<close>

definition push_catalog_to :: "agent_row list \<Rightarrow> agent_id \<Rightarrow> nat \<times> 'r router \<Rightarrow> nat \<times> 'r router" where
  "push_catalog_to all a nr =
     (let (n, r) = nr
      in case map_of (live r) a of
           None \<Rightarrow> (n, r)
         | Some s \<Rightarrow>
             (case tbl_get a_id a all of
                None \<Rightarrow> (n, r)
              | Some row \<Rightarrow>
                  if ch_full (chans r ! chan_of r s) then (n, r)
                  else (n + 1, put_frame (chan_of r s)
                          (CatalogF (available_destinations row all (rrules r) (acl_max_tier (rsettings r)))) r)))"

text \<open>\<open>env\<close> runs while the rows are read.\<close>

definition push_catalog_update_to_all :: "('r router \<Rightarrow> 'r router) \<Rightarrow> 'r router \<Rightarrow> nat \<times> 'r router" where
  "push_catalog_update_to_all env r =
     (let live_ids = live_agent_ids r
      in if live_ids = [] then (0, r)
         else let r1 = env r in fold (push_catalog_to (list_agents (rdb r1))) live_ids (0, r1))"

section \<open>The shared scan\<close>

definition cached_agents :: "('r router \<Rightarrow> 'r router) \<Rightarrow> time \<Rightarrow> 'r router \<Rightarrow> agent_row list \<times> 'r router" where
  "cached_agents env now r =
     (let ttl = ws_handshake_catalog_cache_ttl_s (rsettings r); fresh = (\<lambda>r. let r1 = env r in (list_agents (rdb r1), r1))
      in if ttl \<le> 0 then fresh r
         else let scan = (let (xs, r1) = fresh (count_metric ''ws_handshake_catalog_cache_total'' ''miss'' r)
                          in (xs, r1\<lparr>agent_catalog_cache := Some (xs, now + ttl)\<rparr>))
              in case agent_catalog_cache r of
                   Some (xs, until) \<Rightarrow>
                     if now < until then (xs, count_metric ''ws_handshake_catalog_cache_total'' ''hit'' r) else scan
                 | None \<Rightarrow> scan)"

definition clear_catalog_cache :: "'r router \<Rightarrow> 'r router" where
  "clear_catalog_cache r = r\<lparr>agent_catalog_cache := None\<rparr>"

end
