(* ===== verification/Handshake.thy ===== *)
theory Handshake
  imports Agents Dispatch
begin

text \<open>
  How an agent connects (\<open>_handshake\<close> of \<open>bp_router/ws_hub.py\<close>) and changes what it publishes
  (\<open>_merged_hello_agent_info\<close>, and \<open>_handle_agent_info_update\<close> of \<open>dispatch.py\<close>).  The parser of
  frames is a parameter, the rest of the handshake is a sequence of steps with what other
  coroutines do (\<open>env\<close>) wherever it awaits.
\<close>

section \<open>Merging what an agent declares\<close>

definition AGENT_INFO_MUTABLE_FIELDS :: "string list" where
  "AGENT_INFO_MUTABLE_FIELDS = [''description'', ''groups'', ''capabilities'', ''accepts_schema'', ''produces_schema'',
     ''produces_files'', ''non_tool_modes'', ''mode_descriptions'', ''hidden'', ''documentation_url'']"

text \<open>Python compares dicts up to the order of their keys, and takes a bool for an int.\<close>

fun json_canon :: "json \<Rightarrow> json" where
  "json_canon (JBool b) = JInt (of_bool b)"
| "json_canon (JArr js) = JArr (map json_canon js)"
| "json_canon (JObj kvs) = JObj (sort_key fst (map (\<lambda>kv. (fst kv, json_canon (snd kv))) kvs))"
| "json_canon j = j"

fun set_fields :: "(string \<times> json) list \<Rightarrow> string list \<Rightarrow> (string \<times> json) list \<Rightarrow> (string \<times> json) list" where
  "set_fields dump [] merged = merged"
| "set_fields dump (k # ks) merged = set_fields dump ks (dict_set k (json_or (map_of dump k) JNull) merged)"

datatype hello_merge = SameInfo | BadInfo | NewInfo agent_info

definition merged_hello_agent_info :: "json \<Rightarrow> agent_info \<Rightarrow> hello_merge" where
  "merged_hello_agent_info stored hello =
     (let existing = info_dict stored;
          aid = (case map_of existing ''agent_id'' of
                   Some j \<Rightarrow> if json_truthy j then j else JStr (ai_id hello)
                 | None \<Rightarrow> JStr (ai_id hello));
          merged = dict_set ''agent_id'' aid (set_fields (dump_info hello) AGENT_INFO_MUTABLE_FIELDS existing)
      in if json_canon (JObj merged) = json_canon (JObj existing) then SameInfo
         else case validate_info merged of None \<Rightarrow> BadInfo | Some ai \<Rightarrow> NewInfo ai)"

text \<open>A patch: only what is set.\<close>

record info_patch =
  ip_description :: "string option"
  ip_groups :: "string list option"
  ip_caps :: "string list option"
  ip_accepts :: "(string \<times> json) list option"
  ip_produces :: "(string \<times> json) list option"
  ip_produces_files :: "bool option"
  ip_non_tool :: "string list option"
  ip_modes :: "(string \<times> string) list option"
  ip_hidden :: "bool option"
  ip_docs :: "string option"

definition patch_fields :: "info_patch \<Rightarrow> (string \<times> json) list" where
  "patch_fields p =
     (let field = (\<lambda>k j. if j = JNull then [] else [(k, j)])
      in field ''description'' (opt_json JStr (ip_description p)) @
         field ''groups'' (opt_json (\<lambda>gs. JArr (map JStr gs)) (ip_groups p)) @
         field ''capabilities'' (opt_json (\<lambda>cs. JArr (map JStr cs)) (ip_caps p)) @
         field ''accepts_schema'' (opt_json JObj (ip_accepts p)) @
         field ''produces_schema'' (opt_json JObj (ip_produces p)) @
         field ''produces_files'' (opt_json JBool (ip_produces_files p)) @
         field ''non_tool_modes'' (opt_json (\<lambda>ms. JArr (map JStr ms)) (ip_non_tool p)) @
         field ''mode_descriptions'' (opt_json (\<lambda>d. JObj (map (\<lambda>(m, t). (m, JStr t)) d)) (ip_modes p)) @
         field ''hidden'' (opt_json JBool (ip_hidden p)) @
         field ''documentation_url'' (opt_json JStr (ip_docs p)))"

fun dict_update :: "('k \<times> 'v) list \<Rightarrow> ('k \<times> 'v) list \<Rightarrow> ('k \<times> 'v) list" where
  "dict_update d [] = d"
| "dict_update d ((k, v) # kvs) = dict_update (dict_set k v d) kvs"

definition patched_info :: "agent_id \<Rightarrow> json \<Rightarrow> info_patch \<Rightarrow> (string \<times> json) list" where
  "patched_info a stored p = dict_set ''agent_id'' (JStr a) (dict_update (info_dict stored) (patch_fields p))"

text \<open>
  The handler: \<open>env i\<close> is what runs at its \<open>i\<close>-th await, \<open>msg\<close> the validator's message for a
  merged dict that is refused.
\<close>

definition BUCKET_AGENT_INFO_UPDATE :: string where
  "BUCKET_AGENT_INFO_UPDATE = ''agent_info_update''"

definition info_update_metric :: "string \<Rightarrow> 'r router \<Rightarrow> 'r router" where
  "info_update_metric = count_metric ''agent_info_update_total''"

definition then_metric :: "string \<Rightarrow> ('r, unit) step \<Rightarrow> ('r, unit) step" where
  "then_metric outcome m r = (case m r of (Inl e, r') \<Rightarrow> (Inl e, r') | (Inr _, r') \<Rightarrow> (Inr (), info_update_metric outcome r'))"

definition persist_info :: "'r deps \<Rightarrow> agent_id \<Rightarrow> agent_info \<Rightarrow> info_patch \<Rightarrow> time \<Rightarrow> db \<Rightarrow> db" where
  "persist_info dp a ai p now d =
     append_audit_event (dep_digest dp) ''agent'' (Some a) ''agent.info_updated'' (Some ''agent'') (Some a)
       (Some [(''fields_changed'', JArr (map JStr (sort (map fst (patch_fields p)))))]) now
       (snd (update_agent_info a (JObj (dump_info ai)) (ai_groups ai) (ai_caps ai) d))"

definition handle_agent_info_update ::
  "'r deps \<Rightarrow> (nat \<Rightarrow> 'r router \<Rightarrow> 'r router) \<Rightarrow> ((string \<times> json) list \<Rightarrow> string) \<Rightarrow> nat \<Rightarrow> corr_id \<Rightarrow> info_patch \<Rightarrow> time \<Rightarrow>
   ('r, unit) step" where
  "handle_agent_info_update dp env msg s cid p now r =
     (let a = so_agent (the_socket r s);
          cap = agent_info_update_rate_limit_per_agent (rsettings r);
          (d, q) = try_consume (dep_redis dp) (BUCKET_AGENT_INFO_UPDATE @ '':'' @ a) (fst cap) (snd cap) 1 now (login_quota r);
          r1 = r\<lparr>login_quota := q\<rparr>
      in if \<not> rl_allowed d
         then then_metric ''rate_limited'' (reply_ack (env 0) s cid False (Some ''rate_limited'') None) r1
         else let r2 = env 1 r1
              in case get_agent a (rdb r2) of
                   None \<Rightarrow> then_metric ''rejected'' (reply_ack (env 2) s cid False (Some ''agent_not_found'') None) r2
                 | Some row \<Rightarrow>
                     let merged = patched_info a (a_info row) p
                     in (case validate_info merged of
                           None \<Rightarrow> then_metric ''rejected''
                             (reply_ack (env 2) s cid False (Some (''invalid_agent_info: '' @ msg merged)) None) r2
                         | Some ai \<Rightarrow>
                             (let r3 = info_update_metric ''accepted'' (r2\<lparr>rdb := persist_info dp a ai p now (rdb r2)\<rparr>);
                                  (n, r4) = push_catalog_update_to_all (env 3) r3
                              in reply_ack (env 4) s cid True None None r4)))"

section \<open>The handshake\<close>

definition PROTOCOL_VERSION :: string where
  "PROTOCOL_VERSION = ''1''"

record hello_frame =
  he_agent :: agent_id
  he_version :: string
  he_token :: string
  he_info :: agent_info
  he_resume :: "string option"

datatype hello_parse = ParseError string | ParsedOther string | ParsedHello hello_frame

datatype handshake_failure =
    HandshakeFailed string string int   \<comment> \<open>reason, error code, close code\<close>
  | HandshakeCrashed string

record welcome_frame =
  we_session :: string
  we_destinations :: catalog
  we_caps :: "string list"

definition utf8_length :: "string \<Rightarrow> nat" where
  "utf8_length s = length s + length (filter (\<lambda>c. 128 \<le> code c) s)"

text \<open>The part without the database: the frame, its version, the token.\<close>

definition read_hello ::
  "(string \<Rightarrow> hello_parse) \<Rightarrow> int \<Rightarrow> string option \<Rightarrow> handshake_failure + hello_frame" where
  "read_hello parse max_payload raw =
     (case raw of
        None \<Rightarrow> Inl (HandshakeFailed ''hello_timeout'' ''auth_failed'' 4001)
      | Some text \<Rightarrow>
          if max_payload < int (length text) * 4 \<and> max_payload < int (utf8_length text)
          then Inl (HandshakeFailed ''hello_too_large'' ''frame_invalid'' 1009)
          else (case parse text of
                  ParseError m \<Rightarrow> Inl (HandshakeFailed (''frame_invalid: '' @ m) ''frame_invalid'' 1002)
                | ParsedOther ty \<Rightarrow> Inl (HandshakeFailed (''expected Hello, got '' @ ty) ''frame_invalid'' 1002)
                | ParsedHello f \<Rightarrow>
                    if he_version f \<noteq> PROTOCOL_VERSION
                    then Inl (HandshakeFailed (''protocol_version mismatch: '' @ he_version f) ''protocol_version'' 1002)
                    else Inr f))"

definition authenticate_hello ::
  "string jwt_lib \<Rightarrow> redis_exists \<Rightarrow> hello_frame \<Rightarrow> time \<Rightarrow> 'r router \<Rightarrow> (handshake_failure + agent_principal) \<times> 'r router" where
  "authenticate_hello jw rd f now r =
     (case verify_agent_token jw (router_key r) (he_token f) None now of
        Inl (TokenError m) \<Rightarrow> (Inl (HandshakeFailed (''auth_failed: '' @ m) ''auth_failed'' 4001), r)
      | Inl (Uncaught x) \<Rightarrow> (Inl (HandshakeCrashed x), r)
      | Inr p \<Rightarrow>
          (let (revoked, r1) = is_jti_revoked rd (ap_jti p) r
           in if revoked then (Inl (HandshakeFailed ''auth_failed: revoked'' ''auth_failed'' 4001), r1)
              else if ap_agent p \<noteq> he_agent f
              then (Inl (HandshakeFailed ''auth_failed: token sub does not match Hello.agent_id'' ''auth_failed'' 4001), r1)
              else (Inr p, r1)))"

text \<open>The row as the handshake goes on with it, and whether what is published changed.\<close>

definition refresh_on_hello :: "agent_id \<Rightarrow> agent_info \<Rightarrow> db \<Rightarrow> (agent_row option \<times> bool) \<times> db" where
  "refresh_on_hello a hello d =
     (case get_agent a d of
        Some row \<Rightarrow>
          if a_status row = ''active''
          then (case merged_hello_agent_info (a_info row) hello of
                  NewInfo ai \<Rightarrow>
                    (let d1 = snd (update_agent_info a (JObj (dump_info ai)) (ai_groups ai) (ai_caps ai) d)
                     in ((get_agent a d1, True), d1))
                | _ \<Rightarrow> ((Some row, False), d))
          else ((Some row, False), d)
      | None \<Rightarrow> ((None, False), d))"

definition check_agent_row :: "agent_id \<Rightarrow> agent_row option \<Rightarrow> handshake_failure + agent_row" where
  "check_agent_row a x =
     (case x of
        None \<Rightarrow> Inl (HandshakeFailed (''unknown agent: '' @ a) ''auth_failed'' 4001)
      | Some row \<Rightarrow>
          if a_status row \<noteq> ''active''
          then Inl (HandshakeFailed (''agent '' @ a_status row @ '': '' @ a)
                 (if a_status row = ''removed'' then ''agent_removed'' else ''agent_suspended'') 4001)
          else Inr row)"

text \<open>From the accepted row to the Welcome that is sent.\<close>

definition welcome_agent ::
  "(nat \<Rightarrow> 'r router \<Rightarrow> 'r router) \<Rightarrow> hello_frame \<Rightarrow> agent_principal \<Rightarrow> agent_row \<Rightarrow> bool \<Rightarrow> string \<Rightarrow> time \<Rightarrow> 'r router \<Rightarrow>
   (nat \<times> welcome_frame) \<times> 'r router" where
  "welcome_agent env f p row changed fresh now r =
     (let (s, r1) = open_socket (ap_agent p) (ap_jti p) (he_resume f) fresh r;
          (all, r2) = cached_agents (env 2) now r1;
          r3 = env 3 r2;
          r4 = r3\<lparr>rdb := update_agent_last_seen (ap_agent p) now (rdb r3)\<rparr>;
          w = \<lparr>we_session = so_token (the_socket r4 s),
               we_destinations = available_destinations row all (rrules r4) (acl_max_tier (rsettings r4)),
               we_caps = a_caps row\<rparr>;
          r5 = env 4 r4
      in ((s, w), if changed then snd (push_catalog_update_to_all (env 5) (clear_catalog_cache r5)) else r5))"

definition handshake ::
  "(string \<Rightarrow> hello_parse) \<Rightarrow> int \<Rightarrow> string jwt_lib \<Rightarrow> redis_exists \<Rightarrow> (nat \<Rightarrow> 'r router \<Rightarrow> 'r router) \<Rightarrow> string option \<Rightarrow>
   string \<Rightarrow> time \<Rightarrow> 'r router \<Rightarrow> (handshake_failure + nat \<times> welcome_frame) \<times> 'r router" where
  "handshake parse max_payload jw rd env raw fresh now r =
     (case read_hello parse max_payload raw of
        Inl e \<Rightarrow> (Inl e, r)
      | Inr f \<Rightarrow>
          (case authenticate_hello jw rd f now r of
             (Inl e, r1) \<Rightarrow> (Inl e, r1)
           | (Inr p, r1) \<Rightarrow>
               (let r2 = env 0 r1;
                    ((row, changed), d) = refresh_on_hello (ap_agent p) (he_info f) (rdb r2);
                    r3 = env 1 (r2\<lparr>rdb := d\<rparr>)
                in case check_agent_row (ap_agent p) row of
                     Inl e \<Rightarrow> (Inl e, r3)
                   | Inr x \<Rightarrow>
                       (let (res, r4) = welcome_agent env f p x changed fresh now r3 in (Inr res, r4)))))"

end
