(* ===== verification/AgentApi.thy ===== *)
theory AgentApi
  imports Handshake AuthApi
begin

text \<open>
  Agents over HTTP: \<open>bp_router/api/onboard.py\<close> (registration with an invitation, rotation of an
  agent's token) and the agent part of \<open>bp_router/api/admin.py\<close> (suspend, unsuspend, reset,
  reprovision, evict).
\<close>

section \<open>Steps on the router\<close>

definition stepH :: "('r router \<Rightarrow> 'a \<times> 'r router) \<Rightarrow> ('r, 'a) http" where
  "stepH f r = (let (a, r') = f r in (Inr a, r'))"

definition pushH :: "'r api_env \<Rightarrow> ('r, nat) http" where
  "pushH en = stepH (push_catalog_update_to_all (ae_others en))"

text \<open>\<open>entry.websocket.close(...)\<close>, which may let others run, and \<open>entry.closed.set()\<close>.\<close>

definition kick :: "'r api_env \<Rightarrow> agent_id \<Rightarrow> 'r router \<Rightarrow> unit \<times> 'r router" where
  "kick en a r = ((), case map_of (live r) a of None \<Rightarrow> r | Some s \<Rightarrow> close_socket s (ae_others en r))"

definition failH :: "'r api_env \<Rightarrow> agent_id \<Rightarrow> string \<Rightarrow> ('r, nat) http" where
  "failH en a reason = stepH (fail_inflight_for_agent a reason (ae_now en))"

section \<open>Onboarding\<close>

record onboarded =
  ob_agent :: agent_id
  ob_token :: string
  ob_expires :: time
  ob_destinations :: catalog
  ob_service :: "(user_id \<times> string \<times> time) option"   \<comment> \<open>service user, its refresh token and expiry\<close>

text \<open>The row of the agent: a new one, or the existing one set back to \<open>active\<close>.\<close>

definition write_agent :: "agent_row option \<Rightarrow> agent_info \<Rightarrow> string option \<Rightarrow> ('r, agent_row) http" where
  "write_agent existing ai pubkey =
     (case existing of
        None \<Rightarrow> tryH (insert_agent (ai_id ai) (ai_caps ai) (ai_groups ai) (JObj (dump_info ai)) pubkey)
      | Some _ \<Rightarrow>
          bindH (execH (reactivate_agent_on_onboard (ai_id ai) (ai_caps ai) (ai_groups ai) (JObj (dump_info ai)) pubkey)) (\<lambda>x.
          someH x 500 ''TypeError''))"

definition provision_service_user :: "'r api_env \<Rightarrow> agent_id \<Rightarrow> ('r, user_id \<times> string \<times> time) http" where
  "provision_service_user en a =
     (let svc = service_user_id_for_agent a
      in bindH (readH (get_user_by_id svc)) (\<lambda>found.
         thenH (case found of
             None \<Rightarrow> bindH (tryH (insert_user (Some svc) None ''service'' ''api_key'' None [] (ae_id en))) (\<lambda>_. retH ())
           | Some u \<Rightarrow> guardH (\<not> (u_level u \<noteq> ''service'' \<or> u_deleted u \<noteq> None)) 409
               (''co-located service principal '' @ py_repr svc @ '' exists in a conflicting state''))
         (bindH (confH refresh_token_ttl_s) (\<lambda>ttl.
          thenH (insert_refresh en (ae_token en) svc)
          (thenH (auditH en ''agent'' (Some a) ''agent.service_principal_provisioned'' (Some ''user'') (Some svc)
                    (Some [(''reused'', JBool (found \<noteq> None))]))
          (retH (svc, ae_token en, ae_now en + of_int ttl)))))))"

definition onboard_tx ::
  "'r api_env \<Rightarrow> string \<Rightarrow> agent_info \<Rightarrow> string option \<Rightarrow> ('r, agent_row \<times> (user_id \<times> string \<times> time) option) http" where
  "onboard_tx en itok ai pubkey =
     bindH (readH (get_agent (ai_id ai))) (\<lambda>existing.
     thenH (if (case existing of None \<Rightarrow> False | Some x \<Rightarrow> a_status x = ''removed'')
            then thenH (auditH en ''agent'' (Some (ai_id ai)) ''agent.onboard_rejected'' (Some ''agent'') (Some (ai_id ai))
                          (Some [(''reason'', JStr ''evicted''), (''status'', JStr ''removed'')]))
                   (raiseH 409 (''agent '' @ py_repr (ai_id ai) @ '' is evicted (terminal); admin reprovision is required''))
            else retH ())
     (bindH (execH (consume_invitation (ae_sha en itok) (ai_id ai) (ae_now en))) (\<lambda>invitation.
      case invitation of
        None \<Rightarrow>
          thenH (auditH en ''agent'' (Some (ai_id ai)) ''auth.invitation_rejected'' None None
                   (Some [(''agent_id'', JStr (ai_id ai)),
                          (''existing_status'', case existing of None \<Rightarrow> JNull | Some x \<Rightarrow> JStr (a_status x))]))
            (raiseH 403 ''invalid or used invitation token'')
      | Some (lvl, service) \<Rightarrow>
          bindH (write_agent existing ai pubkey) (\<lambda>row.
          thenH (auditH en ''agent'' (Some (ai_id ai)) ''agent.onboarded'' (Some ''agent'') (Some (ai_id ai))
                   (Some [(''invitation_level'', JStr lvl)]))
          (if service then bindH (provision_service_user en (a_id row)) (\<lambda>s. retH (row, Some s)) else retH (row, None))))))"

definition issue_agent :: "'r api_env \<Rightarrow> agent_id \<Rightarrow> ('r, string \<times> time) http" where
  "issue_agent en a r =
     (let (tok, expires, jti) = issue_agent_token (ae_jwt en) (router_key r) a PROTOCOL_VERSION
            (agent_token_ttl_s (rsettings r)) (ae_now en) (ae_jti en)
      in (Inr (tok, expires), r))"

text \<open>The request's \<open>AgentInfo\<close> has passed its validators; the id is checked once more.\<close>

definition onboard :: "'r api_env \<Rightarrow> string \<Rightarrow> agent_info \<Rightarrow> string option \<Rightarrow> ('r, onboarded) http" where
  "onboard en itok ai pubkey =
     thenH (guardH (agent_info_ok ai) 422 ''agent_info'')
     (thenH (guardH (match_agent_id (ai_id ai)) 400 ''agent_id must match [A-Za-z_][A-Za-z0-9_-]{0,63}'')
     (bindH (transaction (onboard_tx en itok ai pubkey)) (\<lambda>(row, service).
      bindH (issue_agent en (a_id row)) (\<lambda>(tok, expires).
      thenH (othersH en)
      (bindH (readH list_agents) (\<lambda>all.
       bindH (\<lambda>r. (Inr (available_destinations row all (rrules r) (acl_max_tier (rsettings r))), r)) (\<lambda>cat.
       bindH (pushH en) (\<lambda>n.
       retH \<lparr>ob_agent = a_id row, ob_token = tok, ob_expires = expires, ob_destinations = cat, ob_service = service\<rparr>))))))))"

section \<open>Rotating an agent's token\<close>

definition refresh_agent_token ::
  "'r api_env \<Rightarrow> redis_exists \<Rightarrow> agent_id \<Rightarrow> string \<Rightarrow> ('r, agent_id \<times> string \<times> time) http" where
  "refresh_agent_token en rd a header =
     bindH (someH (extract_bearer header) 401 ''missing bearer token'') (\<lambda>tok.
     bindH (\<lambda>r. (lift_token (verify_agent_token (ae_jwt en) (router_key r) tok None (ae_now en)), r)) (\<lambda>p.
     bindH (stepH (is_jti_revoked rd (ap_jti p))) (\<lambda>revoked.
     thenH (guardH (\<not> revoked) 401 ''invalid token'')
     (thenH (guardH (ap_agent p = a) 403 ''agent_id mismatch'')
     (bindH (readH (get_agent (ap_agent p))) (\<lambda>row.
      thenH (guardH (case row of None \<Rightarrow> False | Some x \<Rightarrow> a_status x = ''active'') 403
               (''agent not active (status='' @ (case row of None \<Rightarrow> ''unknown'' | Some x \<Rightarrow> a_status x) @ '')''))
      (bindH (issue_agent en (ap_agent p)) (\<lambda>(new_tok, expires).
       bindH (confH agent_token_ttl_s) (\<lambda>life.
       bindH (revoke_jti en (ap_jti p) (revoke_ttl (ap_expires p) (ae_now en) life)) (\<lambda>exc.
       thenH (guardH (exc = None) 500 (py_or exc ''''))
       (thenH (stepH (\<lambda>r. case map_of (live r) (ap_agent p) of
                 None \<Rightarrow> ((), r)
               | Some s \<Rightarrow> ((), if so_jti (the_socket r s) = ap_jti p then close_socket s (ae_others en r) else r)))
       (retH (ap_agent p, new_tok, expires)))))))))))))"

section \<open>Administration\<close>

definition admin_agent :: "session_principal \<Rightarrow> agent_id \<Rightarrow> (session_principal \<Rightarrow> agent_row \<Rightarrow> ('r, 'a) http) \<Rightarrow> ('r, 'a) http" where
  "admin_agent p0 a f =
     bindH (liftH (require_admin p0)) (\<lambda>p. bindH (readH (get_agent a)) (\<lambda>x. bindH (someH x 404 ''agent not found'') (f p)))"

definition agent_audit :: "'r api_env \<Rightarrow> session_principal \<Rightarrow> string \<Rightarrow> agent_id \<Rightarrow> (string \<times> json) list option \<Rightarrow> ('r, unit) http" where
  "agent_audit en p event a payload = auditH en ''admin'' (Some (sp_user p)) event (Some ''agent'') (Some a) payload"

text \<open>Every one of them ends so: the socket is closed, the tasks failed, the catalogs pushed.\<close>

definition take_down :: "'r api_env \<Rightarrow> agent_id \<Rightarrow> string \<Rightarrow> ('r, nat) http" where
  "take_down en a reason =
     thenH (stepH (kick en a)) (bindH (failH en a reason) (\<lambda>failed. bindH (pushH en) (\<lambda>n. retH failed)))"

definition suspend_agent :: "'r api_env \<Rightarrow> session_principal \<Rightarrow> agent_id \<Rightarrow> ('r, nat) http" where
  "suspend_agent en p0 a =
     admin_agent p0 a (\<lambda>p x.
     thenH (othersH en)
     (thenH (transaction (thenH (runH (suspend_agent_row a)) (agent_audit en p ''agent.suspended'' a None)))
     (take_down en a ''agent_suspended'')))"

definition unsuspend_agent :: "'r api_env \<Rightarrow> session_principal \<Rightarrow> agent_id \<Rightarrow> ('r, nat) http" where
  "unsuspend_agent en p0 a =
     admin_agent p0 a (\<lambda>p x.
     if a_status x = ''active'' then retH 0
     else thenH (guardH (a_status x = ''suspended'') 409 (''cannot unsuspend agent in status '' @ py_repr (a_status x)))
       (thenH (othersH en)
       (thenH (transaction (thenH (runH (unsuspend_agent_row a)) (agent_audit en p ''agent.unsuspended'' a None)))
       (bindH (pushH en) (\<lambda>n. retH 0)))))"

definition reset_agent :: "'r api_env \<Rightarrow> session_principal \<Rightarrow> agent_id \<Rightarrow> ('r, nat) http" where
  "reset_agent en p0 a =
     admin_agent p0 a (\<lambda>p x.
     if a_status x = ''pending'' then retH 0
     else thenH (guardH (a_status x \<noteq> ''removed'') 409 ''evicted agents are terminal and cannot be reset'')
       (thenH (othersH en)
       (thenH (transaction (bindH (execH (reset_agent_to_pending a)) (\<lambda>_. agent_audit en p ''agent.reset'' a None)))
       (take_down en a ''agent_reset''))))"

definition REPROVISION_INVITATION_TTL_S :: int where
  "REPROVISION_INVITATION_TTL_S = 7 * 86400"

definition reprovision_agent :: "'r api_env \<Rightarrow> session_principal \<Rightarrow> agent_id \<Rightarrow> ('r, nat \<times> string \<times> time \<times> bool) http" where
  "reprovision_agent en p0 a =
     admin_agent p0 a (\<lambda>p x.
     thenH (guardH (a_status x \<noteq> ''removed'') 409 ''evicted agents are terminal and cannot be reprovisioned'')
     (bindH (readH (\<lambda>d. get_user_by_id (service_user_id_for_agent a) d \<noteq> None)) (\<lambda>service.
      let expires = ae_now en + of_int REPROVISION_INVITATION_TTL_S
      in thenH (othersH en)
         (thenH (transaction
            (thenH (if a_status x \<noteq> ''pending'' then bindH (execH (reset_agent_to_pending a)) (\<lambda>_. retH ()) else retH ())
            (thenH (tryH (insert_invitation (ae_sha en (ae_token en)) ''tier1'' expires (sp_user p) None service (ae_now en)))
            (agent_audit en p ''agent.reprovision'' a (Some [(''provisions_service_user'', JBool service)])))))
         (bindH (take_down en a ''agent_reprovision'') (\<lambda>failed.
          retH (failed, ae_token en, expires, service)))))))"

record evicted =
  ev_failed :: nat
  ev_tombstone :: "agent_id option"   \<comment> \<open>\<open>None\<close> when the agent was removed already\<close>

definition release_id :: "'r api_env \<Rightarrow> session_principal \<Rightarrow> agent_id \<Rightarrow> ('r, agent_id) http" where
  "release_id en p a =
     (let svc = service_user_id_for_agent a
      in transaction
        (bindH (readH (\<lambda>d. get_user_by_id svc d \<noteq> None)) (\<lambda>svc_exists.
         bindH (tryH (rename_evicted_agent a (py_trunc (ae_now en)) (if svc_exists then Some svc else None))) (\<lambda>(new_id, new_svc).
         thenH (agent_audit en p ''agent.id_released'' a
                  (Some [(''tombstone_agent_id'', JStr new_id), (''tombstone_service_user_id'', opt_json JStr new_svc)]))
         (retH new_id)))))"

definition evict_agent :: "'r api_env \<Rightarrow> session_principal \<Rightarrow> agent_id \<Rightarrow> ('r, evicted) http" where
  "evict_agent en p0 a =
     admin_agent p0 a (\<lambda>p x.
     if a_status x = ''removed'' then retH \<lparr>ev_failed = 0, ev_tombstone = None\<rparr>
     else thenH (othersH en)
       (thenH (transaction (thenH (runH (evict_agent_row a)) (agent_audit en p ''agent.evicted'' a None)))
       (thenH (stepH (kick en a))
       (bindH (failH en a ''agent_evicted'') (\<lambda>failed.
        bindH (release_id en p a) (\<lambda>new_id.
        bindH (pushH en) (\<lambda>n.
        retH \<lparr>ev_failed = failed, ev_tombstone = Some new_id\<rparr>)))))))"

end
