(* ===== verification/CatalogProps.thy ===== *)
theory CatalogProps
  imports AgentApi AccountProps
begin

text \<open>
  What the catalog says is what admission does, and a broadcast brings it to every agent that
  is connected and has room.
\<close>

section \<open>Published identities\<close>

lemma all_some_strs [simp]: "all_some (map (as_str \<circ> JStr) ss) = Some ss"
  by (induction ss) simp_all

lemma as_str_obj_map [simp]: "as_str_obj (JObj (map (\<lambda>(m, t). (m, JStr t)) d)) = Some d"
  by (induction d) auto

lemma or_null_opt:
  assumes "\<And>a. f (g a) = Some a" "\<And>a. g a \<noteq> JNull"
  shows "or_null f (opt_json g x) = Some x"
proof (cases x)
  case (Some a)
  show ?thesis using assms [of a] Some by (cases "g a") (simp_all add: opt_json_def)
qed (simp add: opt_json_def)

lemma or_null_dump [simp]:
  "or_null as_obj (opt_json JObj x) = Some x" "or_null as_str (opt_json JStr y) = Some y"
  "or_null as_str_obj (opt_json (\<lambda>d. JObj (map (\<lambda>(m, t). (m, JStr t)) d)) z) = Some z"
  by (rule or_null_opt; simp del: as_str_obj.simps)+

text \<open>An identity that passes the validators survives being stored and read back.\<close>

theorem published_info_roundtrip:
  assumes "agent_info_ok ai"
  shows "validate_info (dump_info ai) = Some ai"
proof -
  have "parse_info (dump_info ai) = Some ai"
    by (simp add: parse_info_def dump_info_def want_def)
  then show ?thesis using assms by (simp add: validate_info_def)
qed

definition demo_info :: "agent_id \<Rightarrow> agent_info" where
  "demo_info a = \<lparr>ai_id = a, ai_description = ''d'', ai_groups = [''ops''], ai_caps = [''mail.send''], ai_accepts = Some [],
     ai_produces = None, ai_produces_files = False, ai_non_tool = [], ai_modes = Some [(''m'', ''t'')], ai_docs = Some ''https://x'',
     ai_hidden = False\<rparr>"

theorem published_info_roundtrip_witness:
  "validate_info (dump_info (demo_info ''a'')) = Some (demo_info ''a'')"
proof (rule published_info_roundtrip)
  show "agent_info_ok (demo_info ''a'')" by code_simp
qed

section \<open>The catalog\<close>

lemma map_of_add_destinations:
  assumes "tbl_ok a_id xs"
  shows "map_of (add_destinations caller rules levels xs result) b =
    (case tbl_get a_id b xs of
       Some x \<Rightarrow>
         (let callable = compute_callable_user_levels rules (view_of_agent caller) (view_of_agent x) levels
          in if a_status x = ''active'' \<and> b \<noteq> a_id caller \<and> callable \<noteq> [] then Some (catalog_entry_of x callable)
             else map_of result b)
     | None \<Rightarrow> map_of result b)"
  using assms
proof (induction xs arbitrary: result)
  case (Cons x xs)
  have absent: "tbl_get a_id (a_id x) xs = None"
    using Cons.prems by (simp add: tbl_ok_def tbl_get_def find_None_iff) (metis imageI)
  have ok: "tbl_ok a_id xs" using Cons.prems by (simp add: tbl_ok_def)
  show ?case
  proof (cases "a_id x = b")
    case True
    then show ?thesis using absent by (simp add: Cons.IH [OF ok] table_simps Let_def)
  next
    case False
    then show ?thesis by (simp add: Cons.IH [OF ok] table_simps Let_def split: option.split)
  qed
qed (simp add: tbl_get_def)

lemma tbl_get_sorted: "tbl_ok a_id xs \<Longrightarrow> tbl_get a_id b (sort_key a_id xs) = tbl_get a_id b xs"
proof -
  assume ok: "tbl_ok a_id xs"
  have "mset (map a_id (sort_key a_id xs)) = mset (map a_id xs)" by (metis mset_map mset_sort)
  then have ok': "tbl_ok a_id (sort_key a_id xs)"
    using ok unfolding tbl_ok_def by (metis mset_eq_imp_distinct_iff)
  show ?thesis
  proof (cases "tbl_get a_id b xs")
    case None
    then have "tbl_get a_id b (sort_key a_id xs) = None" by (simp add: tbl_get_def find_None_iff)
    then show ?thesis using None by simp
  next
    case (Some x)
    then have "x \<in> set (sort_key a_id xs)" "a_id x = b" by (auto dest: tbl_get_SomeD)
    then show ?thesis using tbl_get_in_set [OF ok', of x] Some by simp
  qed
qed

lemma check_acl_allows: "fst (check_acl verb ca de cid dest lvl r) = Inr () \<longleftrightarrow>
    allow (is_allowed (rrules r) (view_of_agent ca) (view_of_agent de) (Some lvl))"
  by (auto simp: check_acl_def is_allowed_for_def Let_def is_allowed_def split_beta)

text \<open>Property C26.  The catalog agrees with admission.  For another agent \<open>b\<close> and every user level of the
  deployment, the catalog lists \<open>b\<close> as callable at that level exactly when \<open>b\<close> is active and
  the ACL check of an admission at that level passes.\<close>

theorem catalog_matches_admission:
  assumes "tbl_ok a_id (agents (rdb r))" "get_agent b (rdb r) = Some x" "b \<noteq> a_id ca"
    "deployment_levels (int mt) = Some levels" "lvl \<in> set levels"
  shows "(case map_of (available_destinations ca (list_agents (rdb r)) (rrules r) mt) b of
       None \<Rightarrow> False | Some e \<Rightarrow> lvl \<in> set (ce_levels e)) \<longleftrightarrow>
    a_status x = ''active'' \<and> fst (check_acl verb ca x cid dest lvl r) = Inr ()"
proof -
  have s: "tbl_ok a_id (list_agents (rdb r))"
    using assms(1) unfolding list_agents_def tbl_ok_def by (metis mset_eq_imp_distinct_iff mset_map mset_sort)
  have g: "tbl_get a_id b (list_agents (rdb r)) = Some x"
    using assms(1,2) by (simp add: list_agents_def tbl_get_sorted get_agent_def)
  let ?c = "compute_callable_user_levels (rrules r) (view_of_agent ca) (view_of_agent x) levels"
  have "lvl \<in> set ?c \<longleftrightarrow> fst (check_acl verb ca x cid dest lvl r) = Inr ()"
    using assms(5) by (simp add: check_acl_allows compute_callable_user_levels_def)
  then show ?thesis
    using assms(3,4) g by (auto simp: available_destinations_def map_of_add_destinations [OF s] Let_def catalog_entry_of_def)
qed

definition demo_agent :: "agent_id \<Rightarrow> string \<Rightarrow> agent_row" where
  "demo_agent a st = \<lparr>a_id = a, a_status = st, a_caps = ai_caps (demo_info a), a_groups = ai_groups (demo_info a),
     a_info = JObj (dump_info (demo_info a)), a_public_key = None, a_last_seen = None\<rparr>"

definition demo_fleet :: "unit router" where
  "demo_fleet = demo_accounts\<lparr>rdb := (rdb demo_accounts)\<lparr>agents := [demo_agent ''c'' ''active'', demo_agent ''b'' ''active''],
       invitations := [\<lparr>iv_hash = ''#i1'', iv_level = ''tier1'', iv_expires = 100, iv_used = None, iv_used_by = None, iv_by = ''root'',
         iv_idem = None, iv_service = True, iv_created = 0\<rparr>]\<rparr>,
     rrules := [ex_rule Allow ''*'' ''ops/*'' ''ops/*'']\<rparr>"

theorem catalog_matches_admission_witness:
  "(case map_of (available_destinations (demo_agent ''c'' ''active'') (list_agents (rdb demo_fleet)) (rrules demo_fleet) 1) ''b'' of
     None \<Rightarrow> False | Some e \<Rightarrow> ''tier1'' \<in> set (ce_levels e)) \<longleftrightarrow>
   ''active'' = ''active'' \<and>
   fst (check_acl ''invoke'' (demo_agent ''c'' ''active'') (demo_agent ''b'' ''active'') ''c'' ''b'' ''tier1'' demo_fleet) = Inr ()"
proof -
  have a: "tbl_ok a_id (agents (rdb demo_fleet))" by code_simp
  have b: "get_agent ''b'' (rdb demo_fleet) = Some (demo_agent ''b'' ''active'')" by code_simp
  have c: "''b'' \<noteq> a_id (demo_agent ''c'' ''active'')" by code_simp
  have d: "deployment_levels (int 1) = Some [''admin'', ''service'', ''tier0'', ''tier1'']" by code_simp
  show ?thesis using catalog_matches_admission [OF a b c d, of "''tier1''"] by (simp add: demo_agent_def)
qed

section \<open>The broadcast\<close>

lemma push_catalog_to_live [simp]:
  "live (snd (push_catalog_to all a nr)) = live (snd nr)" "sockets (snd (push_catalog_to all a nr)) = sockets (snd nr)"
  "rdb (snd (push_catalog_to all a nr)) = rdb (snd nr)" "rrules (snd (push_catalog_to all a nr)) = rrules (snd nr)"
  "rsettings (snd (push_catalog_to all a nr)) = rsettings (snd nr)"
  "length (chans (snd (push_catalog_to all a nr))) = length (chans (snd nr))"
  by (simp_all add: push_catalog_to_def split_beta Let_def put_frame_def upd_chan_def split: option.split)

lemma push_catalog_to_other:
  assumes "\<And>s. map_of (live (snd nr)) a = Some s \<Longrightarrow> chan_of (snd nr) s \<noteq> c"
  shows "chans (snd (push_catalog_to all a nr)) ! c = chans (snd nr) ! c"
  using assms
  by (auto simp: push_catalog_to_def split_beta Let_def put_frame_def upd_chan_def chan_of_def split: option.split)

lemma fold_push_keeps:
  "live (snd (fold (push_catalog_to all) as nr)) = live (snd nr)" "sockets (snd (fold (push_catalog_to all) as nr)) = sockets (snd nr)"
  "rdb (snd (fold (push_catalog_to all) as nr)) = rdb (snd nr)" "rrules (snd (fold (push_catalog_to all) as nr)) = rrules (snd nr)"
  "rsettings (snd (fold (push_catalog_to all) as nr)) = rsettings (snd nr)"
  "length (chans (snd (fold (push_catalog_to all) as nr))) = length (chans (snd nr))"
  by (induction as arbitrary: nr) simp_all

lemma fold_push_other:
  assumes "\<And>a s. a \<in> set as \<Longrightarrow> map_of (live (snd nr)) a = Some s \<Longrightarrow> so_chan (sockets (snd nr) ! s) \<noteq> c"
  shows "chans (snd (fold (push_catalog_to all) as nr)) ! c = chans (snd nr) ! c"
  using assms
proof (induction as arbitrary: nr)
  case (Cons a as)
  have "chans (snd (push_catalog_to all a nr)) ! c = chans (snd nr) ! c"
    by (rule push_catalog_to_other) (use Cons.prems [of a] in \<open>simp add: chan_of_def\<close>)
  moreover have "chans (snd (fold (push_catalog_to all) as (push_catalog_to all a nr))) ! c =
      chans (snd (push_catalog_to all a nr)) ! c"
    by (rule Cons.IH) (use Cons.prems in auto)
  ultimately show ?case by simp
qed simp

lemma live_chans_distinct:
  assumes "reg_ok r" "(a, s) \<in> set (live r)" "(b, t) \<in> set (live r)" "a \<noteq> b"
  shows "so_chan (sockets r ! s) \<noteq> so_chan (sockets r ! t)"
proof -
  have s: "s < length (sockets r)" "so_agent (sockets r ! s) = a" and t: "t < length (sockets r)" "so_agent (sockets r ! t) = b"
    using assms(1-3) by (force simp: reg_ok_def)+
  have "chans_ok (socket_keys r) (length (chans r))" using assms(1) by (simp add: reg_ok_def)
  then show ?thesis using chans_okD(2) [of r "length (chans r)" s t] s t assms(4) by (auto simp: chan_of_def)
qed

text \<open>A broadcast reaches everyone.  Every agent that is connected when it starts and when the rows
  have been read, has a row and has room, finds as the last frame of its outbox the catalog
  computed for it from the current rows and rules; a full outbox is left as it is.\<close>

theorem push_reaches_everyone:
  assumes "reg_ok (env r)" "map_of (live r) a = Some s0" "map_of (live (env r)) a = Some s"
    "reg_ok r" "get_agent a (rdb (env r)) = Some row" "tbl_ok a_id (agents (rdb (env r)))"
  shows "chans (snd (push_catalog_update_to_all env r)) ! chan_of (env r) s =
    (let ch = chans (env r) ! chan_of (env r) s
     in if ch_full ch then ch
        else ch\<lparr>ch_out := ch_out ch @ [CatalogF (available_destinations row (list_agents (rdb (env r))) (rrules (env r))
               (acl_max_tier (rsettings (env r))))]\<rparr>)"
proof -
  let ?r1 = "env r" and ?all = "list_agents (rdb (env r))"
  let ?c = "chan_of ?r1 s"
  have in_live: "a \<in> set (live_agent_ids r)" using assms(2) by (force simp: live_agent_ids_def dest: map_of_SomeD)
  then obtain as bs where split: "live_agent_ids r = as @ a # bs" "a \<notin> set as" by (meson split_list_first)
  have row: "tbl_get a_id a ?all = Some row"
    using assms(5,6) by (simp add: list_agents_def tbl_get_sorted get_agent_def)
  have c: "?c < length (chans ?r1)" using assms(1,3) chans_okD(1) [of ?r1 "length (chans ?r1)" s]
    by (force simp: reg_ok_def dest: map_of_SomeD)
  have other: "so_chan (sockets ?r1 ! t) \<noteq> ?c" if "map_of (live ?r1) b = Some t" "b \<noteq> a" for b t
    using live_chans_distinct [OF assms(1), of b t a s] that assms(3) by (auto simp: chan_of_def dest!: map_of_SomeD)
  define n1 where "n1 = fold (push_catalog_to ?all) as (0, ?r1)"
  have n1c: "chans (snd n1) ! ?c = chans (snd (0 :: nat, ?r1)) ! ?c"
    unfolding n1_def by (rule fold_push_other) (use other split(2) in force)
  have n1: "chans (snd n1) ! ?c = chans ?r1 ! ?c" "live (snd n1) = live ?r1" "sockets (snd n1) = sockets ?r1"
      "rrules (snd n1) = rrules ?r1" "rsettings (snd n1) = rsettings ?r1" "length (chans (snd n1)) = length (chans ?r1)"
    using n1c by (simp_all add: n1_def fold_push_keeps)
  define n2 where "n2 = push_catalog_to ?all a n1"
  have n2: "chans (snd n2) ! ?c = (let ch = chans ?r1 ! ?c in if ch_full ch then ch
      else ch\<lparr>ch_out := ch_out ch @ [CatalogF (available_destinations row ?all (rrules ?r1) (acl_max_tier (rsettings ?r1)))]\<rparr>)"
      "live (snd n2) = live ?r1" "sockets (snd n2) = sockets ?r1"
    unfolding n2_def using n1 assms(3) row c
    by (simp_all add: push_catalog_to_def split_beta Let_def chan_of_def put_frame_def upd_chan_def)
  have "a \<notin> set bs" using assms(4) split(1) unfolding reg_ok_def live_agent_ids_def by (metis distinct_append not_distinct_conv_prefix distinct.simps(2))
  then have "chans (snd (fold (push_catalog_to ?all) bs n2)) ! ?c = chans (snd n2) ! ?c"
    by (intro fold_push_other) (use n2(2,3) other in force)
  then show ?thesis using n2 split(1) in_live
    by (simp add: push_catalog_update_to_all_def Let_def n2_def n1_def)
qed

lemma demo_fleet_reg_ok [simp]: "reg_ok demo_fleet"
  using demo_reg_ok by (simp add: reg_ok_def socket_keys_def demo_fleet_def demo_accounts_def)

theorem push_reaches_everyone_witness:
  "chans (snd (push_catalog_update_to_all (\<lambda>r. r) demo_fleet)) ! 1 =
    \<lparr>ch_cap = 4, ch_out = [CatalogF (available_destinations (demo_agent ''b'' ''active'') (list_agents (rdb demo_fleet))
       (rrules demo_fleet) (acl_max_tier (rsettings demo_fleet)))], ch_infl = []\<rparr>"
proof -
  have l: "map_of (live demo_fleet) ''b'' = Some 1" by code_simp
  have g: "get_agent ''b'' (rdb demo_fleet) = Some (demo_agent ''b'' ''active'')" by code_simp
  have t: "tbl_ok a_id (agents (rdb demo_fleet))" by code_simp
  have c: "chan_of demo_fleet 1 = 1" "chans demo_fleet ! 1 = \<lparr>ch_cap = 4, ch_out = [], ch_infl = []\<rparr>" by code_simp+
  show ?thesis
    using push_reaches_everyone [of "\<lambda>r. r", OF demo_fleet_reg_ok l l demo_fleet_reg_ok g t] c
    by (simp add: Let_def ch_full_def)
qed

end
