(* ===== verification/HandshakeProps.thy ===== *)
theory HandshakeProps
  imports CatalogProps
begin

text \<open>
  Who can connect, what an agent can change about itself, and what taking an agent down does.
\<close>

section \<open>Who can connect\<close>

lemma update_info_get:
  "get_agent a (snd (update_agent_info b info gs cs d)) =
     (if a = b then map_option (\<lambda>x. x\<lparr>a_info := info, a_groups := gs, a_caps := cs\<rparr>) (get_agent a d) else get_agent a d)"
  by (simp add: update_agent_info_def upd_agent_def get_agent_def table_simps)

lemma refreshed_row:
  "(\<exists>x. check_agent_row b (fst (fst (refresh_on_hello a hello d))) = Inr x) \<longleftrightarrow>
   (\<exists>row. get_agent a d = Some row \<and> a_status row = ''active'')"
  by (cases "get_agent a d")
    (auto simp: refresh_on_hello_def check_agent_row_def update_info_get Let_def split: hello_merge.split)

lemma authenticate_hello_Inr:
  "authenticate_hello jw rd f now r = (Inr p, r1) \<longleftrightarrow>
     verify_agent_token jw (router_key r) (he_token f) None now = Inr p \<and> is_jti_revoked rd (ap_jti p) r = (False, r1) \<and>
     ap_agent p = he_agent f"
  by (auto simp: authenticate_hello_def split: sum.split token_error.split prod.split)

lemma handshake_Inr:
  "(\<exists>s w r'. handshake parse mp jw rd env raw new_tok now r = (Inr (s, w), r')) \<longleftrightarrow>
    (\<exists>f p r1 x. read_hello parse mp raw = Inr f \<and> authenticate_hello jw rd f now r = (Inr p, r1) \<and>
       check_agent_row (ap_agent p) (fst (fst (refresh_on_hello (ap_agent p) (he_info f) (rdb (env 0 r1))))) = Inr x)"
proof (cases "read_hello parse mp raw")
  case (Inr f)
  obtain res r1 where a: "authenticate_hello jw rd f now r = (res, r1)" by fastforce
  show ?thesis
  proof (cases res)
    case (Inr p)
    let ?c = "check_agent_row (ap_agent p) (fst (fst (refresh_on_hello (ap_agent p) (he_info f) (rdb (env 0 r1)))))"
    note simps = handshake_def Let_def split_beta a Inr \<open>read_hello parse mp raw = Inr f\<close>
    show ?thesis
    proof (cases ?c)
      case (Inr x)
      show ?thesis by (simp add: simps Inr)
    qed (simp add: simps)
  qed (simp add: handshake_def a Inr)
qed (simp add: handshake_def)

text \<open>Property C40.  An agent connects exactly when its Hello parses and speaks this protocol version, its token is a
  valid, unrevoked agent token for the very agent the Hello names, and the row of that agent is
  active when it is read.\<close>

theorem handshake_authenticated:
  "(\<exists>s w r'. handshake parse mp jw rd env raw new_tok now r = (Inr (s, w), r')) \<longleftrightarrow>
   (\<exists>f p r1 row. read_hello parse mp raw = Inr f \<and> verify_agent_token jw (router_key r) (he_token f) None now = Inr p \<and>
      is_jti_revoked rd (ap_jti p) r = (False, r1) \<and> ap_agent p = he_agent f \<and>
      get_agent (ap_agent p) (rdb (env 0 r1)) = Some row \<and> a_status row = ''active'')"
  by (simp add: handshake_Inr authenticate_hello_Inr refreshed_row)

text \<open>The socket that results is the authenticated agent's, carries the id of the token it came with, and is
  the one the registry delivers to.\<close>

lemma open_socket_new:
  assumes "open_socket a jti resume new_tok r = (s, r')"
  shows "s = length (sockets r)" "map_of (live r') a = Some s" "so_agent (the_socket r' s) = a" "so_jti (the_socket r' s) = jti"
    "so_closed (the_socket r' s) = (map_of (live r) a = Some s)"
proof -
  obtain tok c r1 where s: "s = length (sockets r)"
    and r': "r' = (case map_of (live r) a of None \<Rightarrow> id | Some p \<Rightarrow> close_socket p)
       (r1\<lparr>sockets := sockets r @ [\<lparr>so_agent = a, so_token = tok, so_jti = jti, so_chan = c,
             so_closed = False, so_llm = []\<rparr>], live := dict_pop a (live r) @ [(a, s)]\<rparr>)"
    by (rule open_socket_cases [OF assms])
  have pop: "map_of (dict_pop a (live r)) a = None"
    by (auto simp: dict_pop_def map_of_eq_None_iff)
  show "s = length (sockets r)" by (rule s)
  show "map_of (live r') a = Some s" "so_agent (the_socket r' s) = a" "so_jti (the_socket r' s) = jti"
    "so_closed (the_socket r' s) = (map_of (live r) a = Some s)"
    using pop s by (auto simp: r' close_socket_def upd_socket_def the_socket_def map_add_def nth_append nth_list_update split: option.split)
qed

section \<open>What failing tasks leaves alone\<close>

text \<open>Failing tasks and pushing catalogs change tasks, events, channels and book-keeping only.\<close>

definition only_tasks :: "'r router \<Rightarrow> 'r router \<Rightarrow> bool" where
  "only_tasks r r' \<longleftrightarrow> (rdb r')\<lparr>tasks := [], events := []\<rparr> = (rdb r)\<lparr>tasks := [], events := []\<rparr> \<and> live r' = live r \<and>
     sockets r' = sockets r \<and> parked r' = parked r \<and> rrules r' = rrules r \<and> rsettings r' = rsettings r \<and>
     length (chans r') = length (chans r)"

lemma only_tasks_refl [simp]: "only_tasks r r"
  by (simp add: only_tasks_def)

lemma only_tasks_trans [trans]: "only_tasks r s \<Longrightarrow> only_tasks s t \<Longrightarrow> only_tasks r t"
  by (simp add: only_tasks_def)

lemma only_tasks_db:
  assumes "only_tasks r r'"
  shows "agents (rdb r') = agents (rdb r)" "users (rdb r') = users (rdb r)" "refresh_tokens (rdb r') = refresh_tokens (rdb r)"
    "reset_tokens (rdb r') = reset_tokens (rdb r)" "invitations (rdb r') = invitations (rdb r)" "live r' = live r"
    "sockets r' = sockets r"
proof -
  have e: "(rdb r')\<lparr>tasks := [], events := []\<rparr> = (rdb r)\<lparr>tasks := [], events := []\<rparr>"
    using assms by (simp add: only_tasks_def)
  show "agents (rdb r') = agents (rdb r)" "users (rdb r') = users (rdb r)" "refresh_tokens (rdb r') = refresh_tokens (rdb r)"
    "reset_tokens (rdb r') = reset_tokens (rdb r)" "invitations (rdb r') = invitations (rdb r)"
    using arg_cong [OF e, of agents] arg_cong [OF e, of users] arg_cong [OF e, of refresh_tokens]
      arg_cong [OF e, of reset_tokens] arg_cong [OF e, of invitations] by simp_all
  show "live r' = live r" "sockets r' = sockets r" using assms by (simp_all add: only_tasks_def)
qed

lemma only_tasks_cong:
  assumes "rdb r' = rdb r" "live r' = live r" "sockets r' = sockets r" "parked r' = parked r" "rrules r' = rrules r"
    "rsettings r' = rsettings r" "length (chans r') = length (chans r)"
  shows "only_tasks r r'"
  using assms by (simp add: only_tasks_def)

lemma only_tasks_same_store: "same_store r r' \<Longrightarrow> only_tasks r r'"
  by (simp add: only_tasks_def same_store_def)

lemma transition_only_tasks:
  assumes "task_transition tid st reason actor payload sc out er now (rdb r) = Inr (x, d)"
  shows "only_tasks r (r\<lparr>rdb := d\<rparr>)"
  using assms by (auto simp: only_tasks_def task_transition_def insert_event_def Let_def split: option.splits if_splits)

lemma only_tasks_notify: "only_tasks r (notify_task_terminal tid r)"
  by (rule only_tasks_cong) (simp_all add: notify_task_terminal_def Let_def split: option.split)

lemma only_tasks_abort: "only_tasks r (snd (abort_each ls r))"
proof (induction ls arbitrary: r)
  case (Cons l ls)
  have "only_tasks r (snd (abort_llm l r))"
    by (rule only_tasks_cong) (simp_all add: abort_llm_def Let_def)
  then show ?case using only_tasks_trans [OF _ Cons.IH] by (simp add: split_beta Let_def)
qed simp

lemma only_tasks_cancel_each: "only_tasks r (snd (cancel_each reason actor now tids r))"
proof (induction tids arbitrary: r)
  case (Cons tid tids)
  have "only_tasks r (snd (cancel_one reason actor now tid r))"
    by (auto simp: cancel_one_def Let_def split: sum.split option.split
        intro: only_tasks_trans [OF transition_only_tasks only_tasks_notify])
  then show ?case using only_tasks_trans [OF _ Cons.IH] by (simp add: split_beta Let_def)
qed simp

lemma only_tasks_emit: "only_tasks r (emit_plan reason ps r)"
proof (induction ps arbitrary: r)
  case (Cons p ps)
  have "only_tasks r (send_to (pl_active p) f (send_to (pl_caller p) g r))" for f g
    using only_tasks_trans only_tasks_same_store same_store_send_to by blast
  then show ?case using only_tasks_trans [OF _ Cons.IH] by simp
qed simp

lemma only_tasks_fail_task: "only_tasks r (fail_task tid uid sc reason er actor terminal now r)"
proof (cases "fail_transition tid uid sc reason er actor terminal now (rdb r)")
  case (Some x)
  obtain u parent d where x: "x = (u, parent, d)" by (cases x)
  define r1 where "r1 = notify_task_terminal tid (r\<lparr>rdb := d\<rparr>)"
  define c where "c = cancel_each (cascade_reason terminal) ''router'' now (map t_id (list_descendants u tid (rdb r1))) r1"
  define r3 where "r3 = snd (abort_router_side_llm_tasks (map pl_tid (fst c)) (snd c))"
  define r4 where "r4 = emit_plan (cascade_reason terminal) (fst c) r3"
  have "only_tasks r (r\<lparr>rdb := d\<rparr>)"
    using Some x by (auto simp: fail_transition_def split: option.splits sum.splits dest: transition_only_tasks)
  also have "only_tasks (r\<lparr>rdb := d\<rparr>) r1" unfolding r1_def by (rule only_tasks_notify)
  also have "only_tasks r1 (snd c)" unfolding c_def by (rule only_tasks_cancel_each)
  also have "only_tasks (snd c) r3" unfolding r3_def abort_router_side_llm_tasks_def by (rule only_tasks_abort)
  also have "only_tasks r3 r4" unfolding r4_def by (rule only_tasks_emit)
  finally have "only_tasks r r4" .
  then show ?thesis
    using only_tasks_trans [OF _ only_tasks_same_store [OF same_store_send_to]]
    by (auto simp: fail_task_def Some x Let_def split_beta r1_def [symmetric] c_def [symmetric] r3_def [symmetric]
        r4_def [symmetric] split: option.split)
qed (simp add: fail_task_def)

lemma only_tasks_fail_inflight: "only_tasks r (snd (fail_inflight_for_agent a reason now r))"
proof -
  have "only_tasks r (foldl (\<lambda>r tid. fail_task tid None 503 reason er actor FAILED now r) r ids)" for er actor ids
    by (induction ids arbitrary: r) (auto intro: only_tasks_trans [OF only_tasks_fail_task])
  then show ?thesis by (simp add: fail_inflight_for_agent_def Let_def)
qed

lemma only_tasks_push:
  assumes "env r = r"
  shows "only_tasks r (snd (push_catalog_update_to_all env r))"
proof -
  have "only_tasks r (snd (fold (push_catalog_to all) as (0, r)))" for all as
  proof (rule only_tasks_cong)
    show "parked (snd (fold (push_catalog_to all) as (0, r))) = parked r"
    proof -
      have "parked (snd (fold (push_catalog_to all) as nr)) = parked (snd nr)" for nr
        by (induction as arbitrary: nr)
          (simp_all add: push_catalog_to_def split_beta Let_def put_frame_def upd_chan_def split: option.split)
      from this [of "(0, r)"] show ?thesis by simp
    qed
  qed (simp_all add: fold_push_keeps)
  then show ?thesis using assms by (simp add: push_catalog_update_to_all_def Let_def)
qed

end
