(* ===== verification/Takedown.thy ===== *)
theory Takedown
  imports HandshakeProps
begin

text \<open>
  Taking an agent down: what suspension achieves when nothing else runs, what it misses when a
  connection is being made, and what eviction leaves behind.
\<close>

section \<open>The steps\<close>

lemma stepH_Inr: "stepH f r = (Inr a, r') \<longleftrightarrow> f r = (a, r')"
  by (auto simp: stepH_def split: prod.splits)

lemma get_agent_upd:
  assumes "\<And>x. a_id (f x) = a_id x"
  shows "get_agent b (upd_agent a f d) = (if b = a then map_option f (get_agent b d) else get_agent b d)"
  using assms by (auto simp: upd_agent_def get_agent_def table_simps tbl_get_upd)

lemma frame_ok_tasks: "tasks d' = tasks d \<Longrightarrow> frame_ok d' f = frame_ok d f"
  by (cases f) (auto simp: frame_ok_def find_task_def split: option.splits)

text \<open>Changing agents and the audit chain does not touch what the task handlers rely on.\<close>

lemma good_agents:
  assumes "\<And>x. a_id (f x) = a_id x"
  shows "good r (r\<lparr>rdb := append_audit_event dg k ac ev tk t pl now (upd_agent a f (rdb r))\<rparr>)"
proof -
  let ?d = "append_audit_event dg k ac ev tk t pl now (upd_agent a f (rdb r))"
  have t: "tasks ?d = tasks (rdb r)" "users ?d = users (rdb r)" "sessions ?d = sessions (rdb r)" "files ?d = files (rdb r)"
      "names ?d = names (rdb r)" "events ?d = events (rdb r)" "agents ?d = tbl_upd a_id a f (agents (rdb r))"
    by (simp_all add: upd_agent_def)
  have "db_ok ?d = db_ok (rdb r)"
    unfolding db_ok_def t by (simp add: tbl_ok_upd [of a_id f, OF assms])
  moreover have ft: "find_task ?d = find_task (rdb r)" by (simp add: find_task_def upd_agent_def fun_eq_iff)
  moreover have "tree_ok ?d = tree_ok (rdb r)" unfolding tree_ok_def t ft ..
  moreover have "frames_ok (r\<lparr>rdb := ?d\<rparr>) = frames_ok r"
    using frame_ok_tasks [OF t(1)] by (simp add: frames_ok_def)
  moreover have "cache_ok (r\<lparr>rdb := ?d\<rparr>) = cache_ok r" by (simp add: cache_ok_def task_agents_def [abs_def] ft)
  moreover have "reg_ok (r\<lparr>rdb := ?d\<rparr>) = reg_ok r" by (simp add: reg_ok_def socket_keys_def)
  moreover have "evolves (rdb r) ?d" by (simp add: evolves_def ft)
  ultimately show ?thesis by (simp add: good_def inv_def)
qed

lemma good_kick: "ae_others en = (\<lambda>r. r) \<Longrightarrow> good r (snd (kick en a r))"
  by (auto simp: kick_def good_close split: option.split)

lemma rdb_kick: "ae_others en = (\<lambda>r. r) \<Longrightarrow> rdb (snd (kick en a r)) = rdb r \<and> live (snd (kick en a r)) = live r"
  by (auto simp: kick_def close_socket_def split: option.split)

lemma push_rdb: "env r = r \<Longrightarrow> rdb (snd (push_catalog_update_to_all env r)) = rdb r"
  by (simp add: push_catalog_update_to_all_def Let_def fold_push_keeps)

section \<open>Suspension\<close>

lemma suspend_Inr:
  assumes "suspend_agent en p a r = (Inr n, r')" "ae_others en = (\<lambda>r. r)"
  obtains d k where "sp_level p = ''admin''" "get_agent a (rdb r) \<noteq> None"
    "d = append_audit_event (dep_digest (ae_deps en)) ''admin'' (Some (sp_user p)) ''agent.suspended'' (Some ''agent'') (Some a) None
       (ae_now en) (suspend_agent_row a (rdb r))"
    "k = snd (kick en a (r\<lparr>rdb := d\<rparr>))"
    "r' = snd (push_catalog_update_to_all (ae_others en) (snd (fail_inflight_for_agent a ''agent_suspended'' (ae_now en) k)))"
  using assms
  by (auto simp: suspend_agent_def admin_agent_def take_down_def agent_audit_def failH_def pushH_def http_Inr stepH_Inr
      require_admin_def split: if_splits)

text \<open>A suspension that runs alone takes the agent down: its row is suspended, the socket it was
  connected on is closed, and each of its tasks has ended.\<close>

theorem suspension_takes_down:
  assumes "suspend_agent en p a r = (Inr n, r')" "ae_others en = (\<lambda>r. r)" "inv r"
  shows "map_option a_status (get_agent a (rdb r')) = Some ''suspended'' \<and>
    (case map_of (live r) a of None \<Rightarrow> True | Some s \<Rightarrow> so_closed (the_socket r' s)) \<and>
    list_all (\<lambda>u. t_agent u \<noteq> a \<or> (case find_task (rdb r') (t_id u) of None \<Rightarrow> False | Some u' \<Rightarrow> is_terminal (t_state u')))
      (tasks (rdb r))"
proof -
  obtain d k where sp: "sp_level p = ''admin''" and x: "get_agent a (rdb r) \<noteq> None"
    and d: "d = append_audit_event (dep_digest (ae_deps en)) ''admin'' (Some (sp_user p)) ''agent.suspended'' (Some ''agent'') (Some a) None
       (ae_now en) (suspend_agent_row a (rdb r))"
    and k: "k = snd (kick en a (r\<lparr>rdb := d\<rparr>))"
    and r': "r' = snd (push_catalog_update_to_all (ae_others en) (snd (fail_inflight_for_agent a ''agent_suspended'' (ae_now en) k)))"
    by (rule suspend_Inr [OF assms(1,2)])
  define q where "q = snd (fail_inflight_for_agent a ''agent_suspended'' (ae_now en) k)"
  have push: "only_tasks q r'" unfolding r' q_def [symmetric] by (rule only_tasks_push) (simp add: assms(2))
  have fail: "only_tasks k q" unfolding q_def by (rule only_tasks_fail_inflight)
  have rdbq: "rdb r' = rdb q" using assms(2) by (simp add: r' q_def [symmetric] push_rdb)
  have kick: "rdb k = d" "live k = live r" using rdb_kick [OF assms(2), of a "r\<lparr>rdb := d\<rparr>"] by (simp_all add: k)
  have "get_agent a d = map_option (\<lambda>x. x\<lparr>a_status := ''suspended''\<rparr>) (get_agent a (rdb r))"
    by (simp add: d suspend_agent_row_def get_agent_def upd_agent_def table_simps)
  then have status: "map_option a_status (get_agent a (rdb r')) = Some ''suspended''"
    using only_tasks_db(1) [OF push] only_tasks_db(1) [OF fail] kick(1) x by (auto simp: get_agent_def)
  have closed: "so_closed (the_socket r' s)" if "map_of (live r) a = Some s" for s
  proof -
    have "s < length (sockets r)" using assms(3) that by (force simp: inv_def reg_ok_def dest: map_of_SomeD)
    then show ?thesis
      using that assms(2) only_tasks_db(7) [OF push] only_tasks_db(7) [OF fail]
      by (simp add: the_socket_def k kick_def close_socket_def upd_socket_def)
  qed
  have "good r (r\<lparr>rdb := d\<rparr>)" unfolding d suspend_agent_row_def by (rule good_agents) simp
  then have ik: "inv k" using good_kick [OF assms(2), of "r\<lparr>rdb := d\<rparr>" a] assms(3) by (simp add: good_def k)
  have tk: "find_task (rdb k) = find_task (rdb r)"
    by (simp add: kick(1) d find_task_def fun_eq_iff suspend_agent_row_def upd_agent_def)
  have "\<exists>u'. find_task (rdb r') (t_id u) = Some u' \<and> is_terminal (t_state u')" if "u \<in> set (tasks (rdb r))" "t_agent u = a" for u
  proof -
    have "find_task (rdb r) (t_id u) = Some u"
      using that(1) assms(3) tbl_get_in_set [of t_id "tasks (rdb r)" u] by (simp add: find_task_def inv_def db_ok_def)
    then show ?thesis using fail_inflight_ends [OF ik, of "t_id u" u a] that(2) tk rdbq by (simp add: q_def)
  qed
  then show ?thesis using status closed by (fastforce simp: list_all_iff split: option.split)
qed

text \<open>A suspension by an admin always goes through.\<close>

lemma suspend_succeeds:
  assumes "sp_level p = ''admin''" "get_agent a (rdb r) = Some x"
  shows "\<exists>n r'. suspend_agent en p a r = (Inr n, r')"
  using assms
  by (simp add: suspend_agent_def admin_agent_def take_down_def agent_audit_def failH_def pushH_def http_defs stepH_def auditH_def
      require_admin_def split_beta Let_def)

definition demo_down :: "unit router" where
  "demo_down = demo_router\<lparr>rdb := (rdb demo_router)\<lparr>agents := [demo_agent ''c'' ''active'', demo_agent ''b'' ''active'']\<rparr>\<rparr>"

lemma demo_down_inv [simp]: "inv demo_down"
proof -
  have f: "find_task (rdb demo_down) = find_task (rdb demo_router)" by (simp add: demo_down_def find_task_def fun_eq_iff)
  have t: "tasks (rdb demo_down) = tasks (rdb demo_router)" by (simp add: demo_down_def)
  have "db_ok (rdb demo_down)"
    using demo_inv by (simp add: inv_def) (simp add: db_ok_def demo_down_def demo_agent_def demo_info_def tbl_ok_def)
  moreover have "tree_ok (rdb demo_down)" using demo_inv unfolding inv_def tree_ok_def f t by simp
  moreover have "frames_ok demo_down" using demo_inv frame_ok_tasks [OF t] by (simp add: inv_def frames_ok_def demo_down_def)
  moreover have "cache_ok demo_down" using demo_inv by (simp add: inv_def cache_ok_def task_agents_def [abs_def] demo_down_def find_task_def)
  moreover have "reg_ok demo_down" using demo_reg_ok by (simp add: reg_ok_def socket_keys_def demo_down_def)
  ultimately show ?thesis by (simp add: inv_def)
qed

theorem suspension_takes_down_witness:
  "\<exists>n r'. suspend_agent (demo_env ''t'') (demo_principal ''root'' ''admin'') ''b'' demo_down = (Inr n, r') \<and>
     map_option a_status (get_agent ''b'' (rdb r')) = Some ''suspended'' \<and>
    (case map_of (live demo_down) ''b'' of None \<Rightarrow> True | Some s \<Rightarrow> so_closed (the_socket r' s)) \<and>
    list_all (\<lambda>u. t_agent u \<noteq> ''b'' \<or> (case find_task (rdb r') (t_id u) of None \<Rightarrow> False | Some u' \<Rightarrow> is_terminal (t_state u')))
      (tasks (rdb demo_down))"
proof -
  have g: "get_agent ''b'' (rdb demo_down) = Some (demo_agent ''b'' ''active'')" by code_simp
  obtain n r' where "suspend_agent (demo_env ''t'') (demo_principal ''root'' ''admin'') ''b'' demo_down = (Inr n, r')"
    using suspend_succeeds [of "demo_principal ''root'' ''admin''", OF _ g] unfolding demo_principal_def by force
  then show ?thesis using suspension_takes_down [of "demo_env ''t''"] by (fastforce simp: demo_env_def)
qed

section \<open>A suspension during a handshake\<close>

text \<open>What a suspension does to the registry and the row of the agent.\<close>

lemma suspend_effect:
  assumes "suspend_agent en p a r = (Inr n, r')" "ae_others en = (\<lambda>r. r)"
  shows "map_option a_status (get_agent a (rdb r')) = Some ''suspended''" "live r' = live r"
    "length (sockets r') = length (sockets r)"
proof -
  obtain d k where x: "get_agent a (rdb r) \<noteq> None"
    and d: "d = append_audit_event (dep_digest (ae_deps en)) ''admin'' (Some (sp_user p)) ''agent.suspended'' (Some ''agent'') (Some a) None
       (ae_now en) (suspend_agent_row a (rdb r))"
    and k: "k = snd (kick en a (r\<lparr>rdb := d\<rparr>))"
    and r': "r' = snd (push_catalog_update_to_all (ae_others en) (snd (fail_inflight_for_agent a ''agent_suspended'' (ae_now en) k)))"
    by (rule suspend_Inr [OF assms])
  have only: "only_tasks k r'"
    unfolding r' by (rule only_tasks_trans [OF only_tasks_fail_inflight only_tasks_push]) (simp add: assms(2))
  have kick: "rdb k = d" "live k = live r" using rdb_kick [OF assms(2), of a "r\<lparr>rdb := d\<rparr>"] by (simp_all add: k)
  have "get_agent a d = map_option (\<lambda>x. x\<lparr>a_status := ''suspended''\<rparr>) (get_agent a (rdb r))"
    by (simp add: d suspend_agent_row_def get_agent_def upd_agent_def table_simps)
  then show "map_option a_status (get_agent a (rdb r')) = Some ''suspended''"
    using only_tasks_db(1) [OF only] kick(1) x by (auto simp: get_agent_def)
  show "live r' = live r" using only_tasks_db(6) [OF only] kick(2) by simp
  show "length (sockets r') = length (sockets r)"
    using only_tasks_db(7) [OF only] assms(2) by (simp add: k kick_def close_socket_def upd_socket_def split: option.split)
qed

text \<open>From the accepted row on, nothing looks at the status again.\<close>

lemma welcome_effect:
  assumes "welcome_agent env f p row changed new_tok now r = ((s, w), r')" "\<And>i. 2 \<le> i \<Longrightarrow> env i = (\<lambda>r. r)"
    "\<And>b k. map_of (live r) b = Some k \<Longrightarrow> k < length (sockets r)"
  shows "map_option a_status (get_agent b (rdb r')) = map_option a_status (get_agent b (rdb r))"
    "map_of (live r') (ap_agent p) = Some s" "so_agent (the_socket r' s) = ap_agent p" "\<not> so_closed (the_socket r' s)"
proof -
  obtain s1 r1 where o: "open_socket (ap_agent p) (ap_jti p) (he_resume f) new_tok r = (s1, r1)" by fastforce
  have cached: "rdb (snd (cached_agents (\<lambda>r. r) now q)) = rdb q" "live (snd (cached_agents (\<lambda>r. r) now q)) = live q"
      "sockets (snd (cached_agents (\<lambda>r. r) now q)) = sockets q" for q :: "'a router"
    by (simp_all add: cached_agents_def Let_def count_metric_def split: option.split)
  define q where "q = snd (cached_agents (\<lambda>r. r) now r1)"
  define r4 where "r4 = q\<lparr>rdb := update_agent_last_seen (ap_agent p) now (rdb q)\<rparr>"
  have r': "s = s1" "rdb r' = rdb r4" "live r' = live r4" "sockets r' = sockets r4"
    using assms(1,2) o by (auto simp: welcome_agent_def Let_def split_beta q_def r4_def push_rdb clear_catalog_cache_def
        push_catalog_update_to_all_def fold_push_keeps)
  have "s1 = length (sockets r)" using open_socket_new(1) [OF o] .
  then have "map_of (live r) (ap_agent p) \<noteq> Some s1"
    using assms(3) by fastforce
  then show "map_of (live r') (ap_agent p) = Some s" "so_agent (the_socket r' s) = ap_agent p" "\<not> so_closed (the_socket r' s)"
    using open_socket_new [OF o] r' by (simp_all add: r4_def q_def cached the_socket_def)
  show "map_option a_status (get_agent b (rdb r')) = map_option a_status (get_agent b (rdb r))"
    using open_socket_facts(6) [OF o]
    by (simp add: r' r4_def q_def cached update_agent_last_seen_def get_agent_upd option.map_comp comp_def)
qed

lemma refresh_keeps_row: "(get_agent b (snd (refresh_on_hello a hello d)) = None) = (get_agent b d = None)"
  by (auto simp: refresh_on_hello_def update_info_get Let_def split: option.split hello_merge.split)

text \<open>A suspension that runs while a handshake waits, after the row was read and before the socket is
  registered, does not take the agent down: it ends suspended and connected.\<close>

theorem suspend_misses_handshake:
  assumes "read_hello parse mp raw = Inr f" "authenticate_hello jw rd f now r = (Inr pr, r1)"
    "get_agent (ap_agent pr) (rdb r1) = Some row" "a_status row = ''active''" "reg_ok r1"
    "env = (\<lambda>i q. if i = 1 then snd (suspend_agent en p (ap_agent pr) q) else q)"
    "sp_level p = ''admin''" "ae_others en = (\<lambda>r. r)"
  shows "case handshake parse mp jw rd env raw new_tok now r of
      (Inl e, r') \<Rightarrow> False
    | (Inr (s, w), r') \<Rightarrow> map_option a_status (get_agent (ap_agent pr) (rdb r')) = Some ''suspended'' \<and>
        map_of (live r') (ap_agent pr) = Some s \<and> \<not> so_closed (the_socket r' s)"
proof -
  let ?a = "ap_agent pr"
  obtain x changed d where rf: "refresh_on_hello ?a (he_info f) (rdb r1) = ((x, changed), d)" by (metis surj_pair)
  obtain y where y: "check_agent_row ?a x = Inr y"
    using refreshed_row [of ?a ?a "he_info f" "rdb r1"] assms(3,4) rf by auto
  have "get_agent ?a d \<noteq> None"
    using refresh_keeps_row [of ?a ?a "he_info f" "rdb r1"] rf assms(3) by simp
  then obtain n r3 where sus: "suspend_agent en p ?a (r1\<lparr>rdb := d\<rparr>) = (Inr n, r3)"
    using suspend_succeeds [of p ?a "r1\<lparr>rdb := d\<rparr>"] assms(7) by fastforce
  note eff = suspend_effect [OF sus assms(8)]
  obtain s w r' where w: "welcome_agent env f pr y changed new_tok now r3 = ((s, w), r')" by (metis surj_pair)
  have "\<And>b k. map_of (live r3) b = Some k \<Longrightarrow> k < length (sockets r3)"
    using assms(5) eff(2,3) by (force simp: reg_ok_def dest: map_of_SomeD)
  then have we: "map_option a_status (get_agent ?a (rdb r')) = Some ''suspended''" "map_of (live r') ?a = Some s"
      "\<not> so_closed (the_socket r' s)"
    using welcome_effect [OF w] eff(1) assms(6) by simp_all
  have "env 0 r1 = r1" "env 1 (r1\<lparr>rdb := d\<rparr>) = r3" by (simp_all add: assms(6) sus)
  then have "handshake parse mp jw rd env raw new_tok now r = (Inr (s, w), r')"
    using assms(1,2) rf y w by (simp add: handshake_def)
  then show ?thesis using we by simp
qed

definition demo_hello :: "agent_id \<Rightarrow> hello_frame" where
  "demo_hello a = \<lparr>he_agent = a, he_version = ''1'', he_token = ''tok'', he_info = demo_info a, he_resume = None\<rparr>"

definition demo_jwt :: "agent_id \<Rightarrow> string jwt_lib" where
  "demo_jwt a = \<lparr>jw_encode = (\<lambda>c s alg. ''tok''),
     jw_decode = (\<lambda>t s alg iss req now. Inr [(''kind'', JStr ''agent''), (''kver'', JInt 1), (''sub'', JStr a),
       (''exp'', JInt 500), (''jti'', JStr ''j7'')])\<rparr>"

definition demo_agent_principal :: "agent_id \<Rightarrow> agent_principal" where
  "demo_agent_principal a = \<lparr>ap_agent = a, ap_expires = 500, ap_jti = ''j7'', ap_version = ''1''\<rparr>"

lemma demo_hello_read: "read_hello (\<lambda>t. ParsedHello (demo_hello ''b'')) 1000 (Some ''hi'') = Inr (demo_hello ''b'')"
  by (simp add: read_hello_def demo_hello_def PROTOCOL_VERSION_def)

lemma demo_hello_verify: "authenticate_hello (demo_jwt ''b'') None (demo_hello ''b'') 5 r = (Inr (demo_agent_principal ''b''), r)"
  if "jwt_key_version (rsettings r) = 1"
proof -
  have "verify_agent_token (demo_jwt ''b'') \<lparr>tk_secret = s, tk_version = 1, tk_algorithm = alg\<rparr> ''tok'' None 5 =
      Inr (demo_agent_principal ''b'')" for s alg
    by code_simp
  then show ?thesis using that by (simp add: authenticate_hello_Inr demo_hello_def router_key_def is_jti_revoked_def demo_agent_principal_def)
qed

theorem suspend_misses_handshake_witness:
  "case handshake (\<lambda>t. ParsedHello (demo_hello ''b'')) 1000 (demo_jwt ''b'') None
       (\<lambda>i q. if i = 1 then snd (suspend_agent (demo_env ''t'') (demo_principal ''root'' ''admin'') (ap_agent (demo_agent_principal ''b'')) q) else q)
       (Some ''hi'') ''k9'' 5 demo_down of
      (Inl e, r') \<Rightarrow> False
    | (Inr (s, w), r') \<Rightarrow> map_option a_status (get_agent (ap_agent (demo_agent_principal ''b'')) (rdb r')) = Some ''suspended'' \<and>
        map_of (live r') (ap_agent (demo_agent_principal ''b'')) = Some s \<and> \<not> so_closed (the_socket r' s)"
proof (rule suspend_misses_handshake [where en = "demo_env ''t''" and p = "demo_principal ''root'' ''admin''", OF demo_hello_read demo_hello_verify])
  show "get_agent (ap_agent (demo_agent_principal ''b'')) (rdb demo_down) = Some (demo_agent ''b'' ''active'')" by code_simp
  show "reg_ok demo_down" using demo_down_inv by (simp add: inv_def)
qed (simp_all add: demo_down_def demo_defs demo_agent_def demo_principal_def demo_env_def)

end
