(* ===== verification/Counting.thy ===== *)
theory Counting
  imports Main
begin

text \<open>
  How long a filtered list is: the measures of the searches that mark or skip an element at every
  step (\<open>RuleAdmin\<close>, \<open>Presets\<close>).
\<close>

lemma filter_length_mono: "(\<And>y. y \<in> set xs \<Longrightarrow> Q y \<Longrightarrow> P y) \<Longrightarrow> length (filter Q xs) \<le> length (filter P xs)"
  by (induction xs) (auto simp: le_SucI)

lemma filter_shrinks:
  "(\<And>y. Q y \<Longrightarrow> P y) \<Longrightarrow> x \<in> set xs \<Longrightarrow> P x \<Longrightarrow> \<not> Q x \<Longrightarrow> length (filter Q xs) < length (filter P xs)"
proof (induction xs)
  case (Cons a xs)
  then have "length (filter Q xs) \<le> length (filter P xs)" by (intro filter_length_mono) simp
  then show ?case using Cons by auto
qed simp

end
