(* ===== verification/RuleAdmin.thy ===== *)
theory RuleAdmin
  imports AgentApi Counting
begin

text \<open>
  Administration of the firewall: the statements of \<open>bp_router/db/queries.py\<close> on \<open>acl_rules\<close> and the
  endpoints \<open>/admin/acl/*\<close> of \<open>bp_router/api/admin.py\<close>.  Every change commits, then the table is
  read again into the rule set the router decides with, and the catalogs are pushed.
\<close>

section \<open>The table\<close>

text \<open>The \<open>CHECK\<close>s: Postgres's \<open>$\<close> does not skip a trailing newline, so a grammar admits no newline at all.\<close>

definition rule_level_check :: "level \<Rightarrow> bool" where
  "rule_level_check lvl = (lvl = ''*'' \<or> level_check lvl)"

definition pattern_check :: "string \<Rightarrow> bool" where
  "pattern_check p = (is_valid_pattern p \<and> newline \<notin> set p)"

definition int4 :: "int \<Rightarrow> bool" where
  "int4 i = (- (2 ^ 31) \<le> i \<and> i < 2 ^ 31)"

definition list_acl_rules :: "db \<Rightarrow> acl_rule_row list" where
  "list_acl_rules d = sort_key al_ord (acl_rules d)"

definition get_acl_rule :: "string \<Rightarrow> db \<Rightarrow> acl_rule_row option" where
  "get_acl_rule rid d = tbl_get al_id rid (acl_rules d)"

text \<open>The constraints a row is checked against, besides the unique ones.\<close>

definition rule_row_check :: "acl_rule_row \<Rightarrow> db_error option" where
  "rule_row_check x =
     (if \<not> pattern_check (al_callee x) then Some (CheckViolation ''acl_rules_callee_pattern_check'')
      else if \<not> pattern_check (al_caller x) then Some (CheckViolation ''acl_rules_caller_pattern_check'')
      else if \<not> rule_level_check (al_level x) then Some (CheckViolation ''acl_rules_user_level_check'')
      else None)"

definition insert_acl_rule :: "acl_rule_row \<Rightarrow> db \<Rightarrow> db_error + acl_rule_row \<times> db" where
  "insert_acl_rule x d =
     (if \<not> int4 (al_ord x) then Inl (DataError ''ord'')
      else case rule_row_check x of
        Some e \<Rightarrow> Inl e
      | None \<Rightarrow>
          if al_id x \<in> al_id ` set (acl_rules d) then Inl (UniqueViolation ''acl_rules_pkey'')
          else if al_ord x \<in> al_ord ` set (acl_rules d) then Inl (UniqueViolation ''acl_rules_ord_key'')
          else if (case al_by x of None \<Rightarrow> False | Some u \<Rightarrow> get_user_by_id u d = None)
            then Inl (ForeignKeyViolation ''acl_rules_created_by_fkey'')
          else Inr (x, d\<lparr>acl_rules := acl_rules d @ [x]\<rparr>))"

text \<open>
  A patch: a field that was not sent, one sent as \<open>null\<close>, or one sent with a value.  Writing \<open>null\<close>
  into a column declared \<open>NOT NULL\<close> names the first such column.
\<close>

record rule_patch =
  up_ord :: "int option option"
  up_name :: "string option option"
  up_description :: "string option option"
  up_effect :: "effect option option"
  up_level :: "level option option"
  up_caller :: "string option option"
  up_callee :: "string option option"

definition sent :: "'a option option \<Rightarrow> 'a \<Rightarrow> 'a" where
  "sent f old = (case f of Some (Some v) \<Rightarrow> v | _ \<Rightarrow> old)"

definition sent_opt :: "'a option option \<Rightarrow> 'a option \<Rightarrow> 'a option" where
  "sent_opt f old = (case f of None \<Rightarrow> old | Some v \<Rightarrow> v)"

definition nulled :: "rule_patch \<Rightarrow> string list" where
  "nulled q = map fst (filter snd
     [(''ord'', up_ord q = Some None), (''effect'', up_effect q = Some None),
      (''user_level'', up_level q = Some None), (''caller_pattern'', up_caller q = Some None),
      (''callee_pattern'', up_callee q = Some None)])"

definition patch_row :: "rule_patch \<Rightarrow> acl_rule_row \<Rightarrow> acl_rule_row" where
  "patch_row q x = x\<lparr>al_ord := sent (up_ord q) (al_ord x), al_name := sent_opt (up_name q) (al_name x),
     al_description := sent_opt (up_description q) (al_description x), al_effect := sent (up_effect q) (al_effect x),
     al_level := sent (up_level q) (al_level x), al_caller := sent (up_caller q) (al_caller x),
     al_callee := sent (up_callee q) (al_callee x)\<rparr>"

definition no_fields :: "rule_patch \<Rightarrow> bool" where
  "no_fields q = (up_ord q = None \<and> up_name q = None \<and> up_description q = None \<and> up_effect q = None \<and>
     up_level q = None \<and> up_caller q = None \<and> up_callee q = None)"

definition upd_rule :: "string \<Rightarrow> (acl_rule_row \<Rightarrow> acl_rule_row) \<Rightarrow> db \<Rightarrow> db" where
  "upd_rule rid f d = d\<lparr>acl_rules := tbl_upd al_id rid f (acl_rules d)\<rparr>"

definition ord_taken :: "string \<Rightarrow> int \<Rightarrow> db \<Rightarrow> bool" where
  "ord_taken rid o' d = list_ex (\<lambda>y. al_id y \<noteq> rid \<and> al_ord y = o') (acl_rules d)"

definition update_acl_rule :: "string \<Rightarrow> rule_patch \<Rightarrow> db \<Rightarrow> db_error + acl_rule_row option \<times> db" where
  "update_acl_rule rid q d =
     (if no_fields q then Inr (get_acl_rule rid d, d)
      else if (case up_ord q of Some (Some v) \<Rightarrow> \<not> int4 v | _ \<Rightarrow> False) then Inl (DataError ''ord'')
      else case get_acl_rule rid d of
        None \<Rightarrow> Inr (None, d)
      | Some x \<Rightarrow>
          (case nulled q of
             c # _ \<Rightarrow> Inl (NotNullViolation c)
           | [] \<Rightarrow>
               (case rule_row_check (patch_row q x) of
                  Some e \<Rightarrow> Inl e
                | None \<Rightarrow>
                    if ord_taken rid (al_ord (patch_row q x)) d then Inl (UniqueViolation ''acl_rules_ord_key'')
                    else Inr (Some (patch_row q x), upd_rule rid (patch_row q) d))))"

definition delete_acl_rule :: "string \<Rightarrow> db \<Rightarrow> db" where
  "delete_acl_rule rid d = d\<lparr>acl_rules := tbl_del al_id rid (acl_rules d)\<rparr>"

section \<open>Replacing the whole list\<close>

record rule_request =
  cr_ord :: int
  cr_name :: "string option"
  cr_description :: "string option"
  cr_effect :: effect
  cr_level :: level
  cr_caller :: string
  cr_callee :: string

text \<open>The row of a request, under an id and an order.\<close>

definition row_of :: "string \<Rightarrow> int \<Rightarrow> time \<Rightarrow> user_id option \<Rightarrow> rule_request \<Rightarrow> acl_rule_row" where
  "row_of rid o' now by q = \<lparr>al_id = rid, al_ord = o', al_name = cr_name q, al_description = cr_description q,
     al_effect = cr_effect q, al_level = cr_level q, al_caller = cr_caller q, al_callee = cr_callee q,
     al_created = now, al_by = by\<rparr>"

fun insert_numbered :: "(nat \<Rightarrow> string) \<Rightarrow> time \<Rightarrow> user_id option \<Rightarrow> nat \<Rightarrow> rule_request list \<Rightarrow> db \<Rightarrow> db_error + db" where
  "insert_numbered ids now by n [] d = Inr d"
| "insert_numbered ids now by n (q # qs) d =
     bindE (insert_acl_rule (row_of (ids n) (int n) now by q) d) (\<lambda>(x, d').
     insert_numbered ids now by (Suc n) qs d')"

text \<open>The \<open>n\<close>-th insert draws the id \<open>ids n\<close>.\<close>

definition replace_acl_rules :: "(nat \<Rightarrow> string) \<Rightarrow> time \<Rightarrow> user_id option \<Rightarrow> rule_request list \<Rightarrow> db \<Rightarrow> db_error + db" where
  "replace_acl_rules ids now by qs d =
     insert_numbered ids now by 0 (sort_key cr_ord qs) (d\<lparr>acl_rules := []\<rparr>)"

section \<open>Reordering\<close>

datatype reorder_error = BadReorder string | ReorderDb db_error

definition set_ord :: "string \<Rightarrow> int \<Rightarrow> db \<Rightarrow> reorder_error + db" where
  "set_ord rid o' d =
     (if \<not> int4 o' then Inl (ReorderDb (DataError ''ord''))
      else if get_acl_rule rid d \<noteq> None \<and> ord_taken rid o' d
        then Inl (ReorderDb (UniqueViolation ''acl_rules_ord_key''))
      else Inr (upd_rule rid (\<lambda>x. x\<lparr>al_ord := o'\<rparr>) d))"

text \<open>\<open>UPDATE acl_rules SET ord = -ord - 1\<close>: two rows that would swap places violate the unique constraint.\<close>

definition park_ords :: "db \<Rightarrow> reorder_error + db" where
  "park_ords d =
     (if list_ex (\<lambda>x. - al_ord x - 1 \<in> al_ord ` set (acl_rules d)) (acl_rules d)
      then Inl (ReorderDb (UniqueViolation ''acl_rules_ord_key''))
      else Inr (d\<lparr>acl_rules := map (\<lambda>x. x\<lparr>al_ord := - al_ord x - 1\<rparr>) (acl_rules d)\<rparr>))"

fun set_ords :: "(string \<times> int) list \<Rightarrow> db \<Rightarrow> reorder_error + db" where
  "set_ords [] d = Inr d"
| "set_ords ((rid, o') # kvs) d = bindE (set_ord rid o' d) (set_ords kvs)"

text \<open>The least number from \<open>n\<close> on that is not used; it is at most \<open>length used\<close> steps away.\<close>

function next_free :: "int list \<Rightarrow> int \<Rightarrow> int" where
  "next_free used n = (if n \<in> set used then next_free used (n + 1) else n)"
  by auto
termination
  by (relation "measure (\<lambda>(used, n). length (filter ((\<le>) n) used))")
    (auto intro!: filter_shrinks)

declare next_free.simps [simp del]

fun fill_ords :: "int list \<Rightarrow> int \<Rightarrow> string list \<Rightarrow> db \<Rightarrow> reorder_error + db" where
  "fill_ords used nxt [] d = Inr d"
| "fill_ords used nxt (rid # rids) d =
     (let n = next_free used nxt in bindE (set_ord rid n d) (fill_ords (n # used) (n + 1) rids))"

text \<open>\<open>new_ords\<close> is a dictionary: its keys are distinct.\<close>

definition reorder_acl_rules :: "(string \<times> int) list \<Rightarrow> db \<Rightarrow> reorder_error + db" where
  "reorder_acl_rules new_ords d =
     (if new_ords = [] then Inr d
      else if \<not> distinct (map snd new_ords) then Inl (BadReorder ''reorder targets contain duplicate ords'')
      else let rows = list_acl_rules d;
               unknown = filter (\<lambda>k. k \<notin> al_id ` set rows) (map fst new_ords)
           in if unknown \<noteq> []
              then Inl (BadReorder (''reorder references unknown rule_ids: '' @ py_repr_list (sort unknown)))
              else bindE (park_ords d) (\<lambda>d1.
                   bindE (set_ords new_ords d1)
                   (fill_ords (map snd new_ords) 0
                      (map al_id (filter (\<lambda>x. al_id x \<notin> fst ` set new_ords) rows)))))"

section \<open>The rule set in memory\<close>

text \<open>A row as a rule: constructing the \<open>Rule\<close> runs its validators again, \<open>None\<close> being their exception.\<close>

definition row_to_rule :: "acl_rule_row \<Rightarrow> rule option" where
  "row_to_rule x =
     (let r = \<lparr>rule_id = Some (al_id x), ord = nat (al_ord x), rule_name = al_name x, effect = al_effect x,
               rule_level = al_level x, caller_pattern = al_caller x, callee_pattern = al_callee x\<rparr>
      in if 0 \<le> al_ord x \<and> rule_valid r then Some r else None)"

definition load_rules :: "db \<Rightarrow> rule list option" where
  "load_rules d = all_some (map row_to_rule (list_acl_rules d))"

text \<open>
  \<open>_apply_rule_change\<close>: the rows are read in a transaction, the list is replaced once the connection
  has been given back, and then the catalogs are pushed.
\<close>

definition apply_rule_change :: "'r api_env \<Rightarrow> ('r, nat) http" where
  "apply_rule_change en =
     thenH (othersH en)
     (bindH (readH list_acl_rules) (\<lambda>rows.
      thenH (othersH en)
      (bindH (someH (all_some (map row_to_rule rows)) 500 ''ValidationError'') (\<lambda>rs.
       thenH (stepH (\<lambda>r. ((), r\<lparr>rrules := replace_rules (rrules r) rs\<rparr>)))
       (bindH (pushH en) (\<lambda>n. retH (length rows)))))))"

text \<open>Start-up loads the same list, and does not start when a row is no rule.\<close>

definition boot_rules :: "db \<Rightarrow> rule list option" where
  "boot_rules d = map_option RuleSet (load_rules d)"

section \<open>Endpoints\<close>

definition show_effect :: "effect \<Rightarrow> string" where
  "show_effect e = (case e of Allow \<Rightarrow> ''allow'' | Deny \<Rightarrow> ''deny'')"

definition dump_request :: "rule_request \<Rightarrow> (string \<times> json) list" where
  "dump_request q = [(''ord'', JInt (cr_ord q)), (''name'', opt_json JStr (cr_name q)),
     (''description'', opt_json JStr (cr_description q)), (''effect'', JStr (show_effect (cr_effect q))),
     (''user_level'', JStr (cr_level q)), (''caller_pattern'', JStr (cr_caller q)),
     (''callee_pattern'', JStr (cr_callee q))]"

definition dump_patch :: "rule_patch \<Rightarrow> (string \<times> json) list" where
  "dump_patch q = List.map_filter (\<lambda>(k, v). map_option (Pair k) v)
     [(''ord'', map_option (opt_json JInt) (up_ord q)), (''name'', map_option (opt_json JStr) (up_name q)),
      (''description'', map_option (opt_json JStr) (up_description q)),
      (''effect'', map_option (opt_json (\<lambda>e. JStr (show_effect e))) (up_effect q)),
      (''user_level'', map_option (opt_json JStr) (up_level q)),
      (''caller_pattern'', map_option (opt_json JStr) (up_caller q)),
      (''callee_pattern'', map_option (opt_json JStr) (up_callee q))]"

text \<open>The validators of the requests; the effect is one of the two words.\<close>

definition rule_request_ok :: "rule_request \<Rightarrow> bool" where
  "rule_request_ok q = (0 \<le> cr_ord q \<and> is_valid_rule_user_level (cr_level q) \<and>
     is_valid_pattern (cr_caller q) \<and> is_valid_pattern (cr_callee q))"

definition sent_ok :: "('a \<Rightarrow> bool) \<Rightarrow> 'a option option \<Rightarrow> bool" where
  "sent_ok p f = (case f of Some (Some v) \<Rightarrow> p v | _ \<Rightarrow> True)"

definition rule_patch_ok :: "rule_patch \<Rightarrow> bool" where
  "rule_patch_ok q = (sent_ok (\<lambda>v. 0 \<le> v) (up_ord q) \<and> sent_ok is_valid_rule_user_level (up_level q) \<and>
     sent_ok is_valid_pattern (up_caller q) \<and> sent_ok is_valid_pattern (up_callee q))"

text \<open>A statement whose violations have answers of their own.\<close>

definition answerH :: "('e \<Rightarrow> http_error) \<Rightarrow> (db \<Rightarrow> 'e + 'a \<times> db) \<Rightarrow> ('r, 'a) http" where
  "answerH h f r = (case f (rdb r) of Inl e \<Rightarrow> (Inl (h e), r) | Inr (a, d) \<Rightarrow> (Inr a, r\<lparr>rdb := d\<rparr>))"

definition answer_only :: "('e \<Rightarrow> http_error) \<Rightarrow> (db \<Rightarrow> 'e + db) \<Rightarrow> ('r, unit) http" where
  "answer_only h f = answerH h (\<lambda>d. map_sum id (Pair ()) (f d))"

definition rule_conflict :: "string \<Rightarrow> db_error \<Rightarrow> http_error" where
  "rule_conflict o' e =
     (case e of
        UniqueViolation c \<Rightarrow> (409, ''ord '' @ o' @ '' already in use by another rule'')
      | NotNullViolation c \<Rightarrow>
          (400, ''column '' @ py_repr c @ '' cannot be set to null; omit the field to leave it unchanged'')
      | _ \<Rightarrow> db_http e)"

definition reorder_answer :: "reorder_error \<Rightarrow> http_error" where
  "reorder_answer e = (case e of BadReorder s \<Rightarrow> (500, s) | ReorderDb v \<Rightarrow> db_http v)"

definition list_rules :: "session_principal \<Rightarrow> ('r, acl_rule_row list) http" where
  "list_rules p0 = bindH (liftH (require_admin p0)) (\<lambda>p. readH list_acl_rules)"

definition rule_audit ::
  "'r api_env \<Rightarrow> session_principal \<Rightarrow> string \<Rightarrow> string option \<Rightarrow> (string \<times> json) list \<Rightarrow> ('r, unit) http" where
  "rule_audit en p event rid payload =
     auditH en ''admin'' (Some (sp_user p)) event (map_option (\<lambda>_. ''acl_rule'') rid) rid (Some payload)"

definition replace_rules_api ::
  "'r api_env \<Rightarrow> (nat \<Rightarrow> string) \<Rightarrow> session_principal \<Rightarrow> rule_request list \<Rightarrow> ('r, acl_rule_row list) http" where
  "replace_rules_api en ids p0 qs =
     bindH (liftH (require_admin p0)) (\<lambda>p.
     thenH (guardH (list_all rule_request_ok qs) 422 ''rules'')
     (bindH (transaction
        (thenH (answer_only db_http (replace_acl_rules ids (ae_now en) (Some (sp_user p)) qs))
        (thenH (rule_audit en p ''acl.rules_replaced'' None [(''rule_count'', JInt (int (length qs)))])
        (readH list_acl_rules)))) (\<lambda>rows.
      bindH (apply_rule_change en) (\<lambda>n. retH rows))))"

definition add_rule :: "'r api_env \<Rightarrow> session_principal \<Rightarrow> rule_request \<Rightarrow> ('r, acl_rule_row) http" where
  "add_rule en p0 q =
     bindH (liftH (require_admin p0)) (\<lambda>p.
     thenH (guardH (rule_request_ok q) 422 ''rule'')
     (bindH (transaction
        (bindH (answerH (rule_conflict (show_int (cr_ord q)))
                  (insert_acl_rule (row_of (ae_id en) (cr_ord q) (ae_now en) (Some (sp_user p)) q))) (\<lambda>row.
         thenH (rule_audit en p ''acl.rule_added'' (Some (al_id row)) (dump_request q))
         (retH row)))) (\<lambda>row.
      bindH (apply_rule_change en) (\<lambda>n. retH row))))"

text \<open>\<open>str(fields.get('ord'))\<close>.\<close>

definition show_sent_ord :: "int option option \<Rightarrow> string" where
  "show_sent_ord f = (case f of Some (Some v) \<Rightarrow> show_int v | _ \<Rightarrow> ''None'')"

definition update_rule :: "'r api_env \<Rightarrow> session_principal \<Rightarrow> string \<Rightarrow> rule_patch \<Rightarrow> ('r, acl_rule_row) http" where
  "update_rule en p0 rid q =
     bindH (liftH (require_admin p0)) (\<lambda>p.
     thenH (guardH (rule_patch_ok q) 422 ''rule'')
     (bindH (transaction
        (bindH (answerH (rule_conflict (show_sent_ord (up_ord q))) (update_acl_rule rid q)) (\<lambda>found.
         bindH (someH found 404 ''rule not found'') (\<lambda>row.
         thenH (rule_audit en p ''acl.rule_updated'' (Some rid) (dump_patch q))
         (retH row))))) (\<lambda>row.
      bindH (apply_rule_change en) (\<lambda>n. retH row))))"

definition delete_rule :: "'r api_env \<Rightarrow> session_principal \<Rightarrow> string \<Rightarrow> ('r, unit) http" where
  "delete_rule en p0 rid =
     bindH (liftH (require_admin p0)) (\<lambda>p.
     bindH (readH (get_acl_rule rid)) (\<lambda>found.
     bindH (someH found 404 ''rule not found'') (\<lambda>x.
     thenH (othersH en)
     (thenH (transaction
        (thenH (runH (delete_acl_rule rid))
        (rule_audit en p ''acl.rule_removed'' (Some rid)
           [(''ord'', JInt (al_ord x)), (''effect'', JStr (show_effect (al_effect x))), (''user_level'', JStr (al_level x)),
            (''caller_pattern'', JStr (al_caller x)), (''callee_pattern'', JStr (al_callee x))])))
     (bindH (apply_rule_change en) (\<lambda>n. retH ()))))))"

definition reorder_rules :: "'r api_env \<Rightarrow> session_principal \<Rightarrow> (string \<times> int) list \<Rightarrow> ('r, nat) http" where
  "reorder_rules en p0 new_ords =
     bindH (liftH (require_admin p0)) (\<lambda>p.
     thenH (transaction
       (thenH (answer_only reorder_answer (reorder_acl_rules new_ords))
       (rule_audit en p ''acl.rules_reordered'' None
          [(''changes'', JObj (map (\<lambda>(k, v). (k, JInt v)) new_ords))])))
     (bindH (apply_rule_change en) (\<lambda>n. retH (length new_ords))))"

text \<open>The dry run asks the rules in memory, on the agents' rows.\<close>

definition simulate_rule ::
  "'r api_env \<Rightarrow> session_principal \<Rightarrow> agent_id \<Rightarrow> agent_id \<Rightarrow> level \<Rightarrow> ('r, decision \<times> trace_step list) http" where
  "simulate_rule en p0 caller_id callee_id lvl =
     bindH (liftH (require_admin p0)) (\<lambda>p.
     thenH (guardH (is_valid_level lvl) 422 ''user_level must be admin | service | tierN'')
     (bindH (readH (get_agent caller_id)) (\<lambda>caller.
      thenH (othersH en)
      (bindH (readH (get_agent callee_id)) (\<lambda>callee.
      bindH (someH caller 404 (''caller '' @ py_repr caller_id @ '' not found'')) (\<lambda>a.
      bindH (someH callee 404 (''callee '' @ py_repr callee_id @ '' not found'')) (\<lambda>b.
      bindH (\<lambda>r. (Inr (is_allowed_trace (rrules r) (view_of_agent a) (view_of_agent b) (Some lvl) (Some [])), r)) (\<lambda>(dec, tr).
      retH (dec, case tr of None \<Rightarrow> [] | Some steps \<Rightarrow> steps)))))))))"

end
