(* ===== verification/RuleProps.thy ===== *)
theory RuleProps
  imports RuleAdmin CatalogProps AccountProps
begin

text \<open>
  The firewall's administration: what every statement keeps of the table, the contract that the
  endpoints share (a transaction on the table, then a reload), the rules in memory being the rows of
  the table over every run, and what reordering and replacing do to the order of evaluation.
\<close>

section \<open>Rows and rules\<close>

lemma tier_body_chomp: "tier_body s \<Longrightarrow> chomp s = s"
proof -
  assume s: "tier_body s"
  then have d: "drop 4 s \<noteq> []" "list_all is_digit (drop 4 s)" by (simp_all add: tier_body_def all_digits_def)
  then have "is_digit (last s)" by (metis last_drop last_in_set length_greater_0_conv list_all_iff length_drop zero_less_diff)
  then show ?thesis using newline_no_digit by (auto simp: chomp_def)
qed

lemma level_check_valid: "level_check lvl \<Longrightarrow> is_valid_level lvl"
  by (auto simp: level_check_def is_valid_level_def tier_body_chomp) (simp_all add: chomp_def newline_def)

lemma rule_level_check_valid: "rule_level_check lvl \<Longrightarrow> is_valid_rule_user_level lvl"
  by (auto simp: rule_level_check_def is_valid_rule_user_level_def level_check_valid) (simp add: chomp_def newline_def)

text \<open>What every row of the table satisfies.\<close>

definition row_ok :: "acl_rule_row \<Rightarrow> bool" where
  "row_ok x \<longleftrightarrow> 0 \<le> al_ord x \<and> rule_row_check x = None"

definition rules_ok :: "db \<Rightarrow> bool" where
  "rules_ok d \<longleftrightarrow> tbl_ok al_id (acl_rules d) \<and> tbl_ok al_ord (acl_rules d) \<and> list_all row_ok (acl_rules d)"

definition rule_of_row :: "acl_rule_row \<Rightarrow> rule" where
  "rule_of_row x = \<lparr>rule_id = Some (al_id x), ord = nat (al_ord x), rule_name = al_name x, effect = al_effect x,
     rule_level = al_level x, caller_pattern = al_caller x, callee_pattern = al_callee x\<rparr>"

lemma row_to_rule_eq: "row_to_rule x = (if 0 \<le> al_ord x \<and> rule_valid (rule_of_row x) then Some (rule_of_row x) else None)"
  by (simp add: row_to_rule_def rule_of_row_def Let_def)

lemma row_to_rule_ok: "row_ok x \<Longrightarrow> row_to_rule x = Some (rule_of_row x)"
  by (auto simp: row_to_rule_eq row_ok_def rule_row_check_def rule_valid_def rule_of_row_def pattern_check_def
      rule_level_check_valid split: if_splits)

lemma all_some_map: "(\<And>x. x \<in> set xs \<Longrightarrow> f x = Some (g x)) \<Longrightarrow> all_some (map f xs) = Some (map g xs)"
  by (induction xs) simp_all

lemma load_rules_ok: "rules_ok d \<Longrightarrow> load_rules d = Some (map rule_of_row (list_acl_rules d))"
  unfolding load_rules_def by (rule all_some_map) (auto simp: row_to_rule_ok rules_ok_def list_all_iff list_acl_rules_def)

text \<open>The rows come sorted, so sorting the rules once more changes nothing.\<close>

lemma rules_sorted: "rules_ok d \<Longrightarrow> sorted (map ord (map rule_of_row (list_acl_rules d)))"
proof -
  have "sorted (map nat (map al_ord (list_acl_rules d)))"
    by (rule sorted_map_mono) (auto simp: list_acl_rules_def mono_on_def)
  then show ?thesis by (simp add: rule_of_row_def comp_def)
qed

lemma replace_loaded: "rules_ok d \<Longrightarrow> replace_rules old (map rule_of_row (list_acl_rules d)) = map rule_of_row (list_acl_rules d)"
  unfolding replace_rules_def by (rule sort_key_id_if_sorted) (rule rules_sorted)

section \<open>The statements keep the table in order\<close>

lemma rules_ok_cong: "acl_rules d' = acl_rules d \<Longrightarrow> rules_ok d' = rules_ok d"
  by (simp add: rules_ok_def)

lemma insert_rule_ok: "insert_acl_rule x d = Inr (y, d') \<Longrightarrow> rules_ok d \<Longrightarrow> 0 \<le> al_ord x \<Longrightarrow> rules_ok d'"
  by (auto simp: insert_acl_rule_def rules_ok_def row_ok_def tbl_ok_def split: if_splits option.splits)

lemma insert_numbered_ok: "insert_numbered ids now by n qs d = Inr d' \<Longrightarrow> rules_ok d \<Longrightarrow> rules_ok d'"
proof (induction qs arbitrary: n d)
  case (Cons q qs)
  then obtain x d1 where i: "insert_acl_rule (row_of (ids n) (int n) now by q) d = Inr (x, d1)"
    and rest: "insert_numbered ids now by (Suc n) qs d1 = Inr d'"
    by (auto simp: bindE_Inr split: prod.splits)
  have "rules_ok d1" by (rule insert_rule_ok [OF i Cons.prems(2)]) (simp add: row_of_def)
  then show ?case by (rule Cons.IH [OF rest])
qed simp

lemma replace_ok: "replace_acl_rules ids now by qs d = Inr d' \<Longrightarrow> rules_ok d'"
  unfolding replace_acl_rules_def by (erule insert_numbered_ok) (simp add: rules_ok_def tbl_ok_def)

lemma delete_rule_ok: "rules_ok d \<Longrightarrow> rules_ok (delete_acl_rule rid d)"
  by (simp add: rules_ok_def delete_acl_rule_def tbl_del_def tbl_ok_def distinct_map_filter list_all_iff)

text \<open>A row may take any order that no other row has.\<close>

lemma tbl_ok_change:
  assumes "tbl_ok key xs" "tbl_ok k2 xs" "\<And>x. key (f x) = key x" "\<And>x. x \<in> set xs \<Longrightarrow> key x = i \<Longrightarrow> k2 (f x) = v"
    "\<And>y. y \<in> set xs \<Longrightarrow> key y \<noteq> i \<Longrightarrow> k2 y \<noteq> v"
  shows "tbl_ok k2 (tbl_upd key i f xs)"
  using assms by (induction xs) (auto simp: tbl_ok_def tbl_upd_def image_iff)

lemma upd_rule_ok:
  assumes "rules_ok d" "\<And>x. al_id (f x) = al_id x" "\<not> ord_taken rid v d"
    "\<And>x. get_acl_rule rid d = Some x \<Longrightarrow> al_ord (f x) = v \<and> row_ok (f x)"
  shows "rules_ok (upd_rule rid f d)"
proof -
  let ?t = "acl_rules d"
  have t: "tbl_ok al_id ?t" "tbl_ok al_ord ?t" "list_all row_ok ?t" using assms(1) by (simp_all add: rules_ok_def)
  have hit: "al_ord (f x) = v \<and> row_ok (f x)" if "x \<in> set ?t" "al_id x = rid" for x
    using assms(4) [of x] tbl_get_in_set [OF t(1) that(1)] that(2) by (simp add: get_acl_rule_def)
  have "tbl_ok al_ord (tbl_upd al_id rid f ?t)"
    by (rule tbl_ok_change [OF t(1,2) assms(2), where v = v]) (use hit assms(3) in \<open>auto simp: ord_taken_def list_ex_iff\<close>)
  moreover have "list_all row_ok (tbl_upd al_id rid f ?t)"
    using t(3) hit by (auto simp: list_all_iff tbl_upd_def)
  ultimately show ?thesis using t(1) assms(2) by (simp add: rules_ok_def upd_rule_def tbl_ok_upd)
qed

lemma update_rule_ok:
  assumes u: "update_acl_rule rid q d = Inr (y, d')" and ok: "rules_ok d" and q: "rule_patch_ok q"
  shows "rules_ok d'"
proof (cases "d' = d")
  case False
  then obtain x where x: "get_acl_rule rid d = Some x" "rule_row_check (patch_row q x) = None"
      "\<not> ord_taken rid (al_ord (patch_row q x)) d" and d': "d' = upd_rule rid (patch_row q) d"
    using u by (auto simp: update_acl_rule_def split: if_splits option.splits list.splits)
  have "0 \<le> al_ord x" using x(1) ok tbl_get_SomeD [of al_id rid "acl_rules d" x]
    by (auto simp: rules_ok_def get_acl_rule_def list_all_iff row_ok_def)
  then have "0 \<le> al_ord (patch_row q x)" using q
    by (auto simp: patch_row_def sent_def rule_patch_ok_def sent_ok_def split: option.splits)
  then show ?thesis unfolding d' using x ok by (intro upd_rule_ok [where v = "al_ord (patch_row q x)"])
      (auto simp: patch_row_def row_ok_def)
qed (use ok in simp)

section \<open>Reordering\<close>

text \<open>The table with new orders: the rows a map mentions take the order it gives.\<close>

definition with_ords :: "(string \<rightharpoonup> int) \<Rightarrow> acl_rule_row list \<Rightarrow> acl_rule_row list" where
  "with_ords m xs = map (\<lambda>x. case m (al_id x) of None \<Rightarrow> x | Some v \<Rightarrow> x\<lparr>al_ord := v\<rparr>) xs"

lemma set_ord_Inr: "set_ord rid v d = Inr d' \<longleftrightarrow>
    int4 v \<and> (get_acl_rule rid d \<noteq> None \<longrightarrow> \<not> ord_taken rid v d) \<and> d' = d\<lparr>acl_rules := with_ords [rid \<mapsto> v] (acl_rules d)\<rparr>"
  by (auto simp: set_ord_def upd_rule_def with_ords_def tbl_upd_def intro!: arg_cong [where f = "\<lambda>t. d\<lparr>acl_rules := t\<rparr>"])

lemma with_ords_with_ords: "with_ords m (with_ords n xs) = with_ords (n ++ m) xs"
  by (simp add: with_ords_def map_add_def split: option.split)

lemma set_ords_Inr: "set_ords kvs d = Inr d' \<Longrightarrow> distinct (map fst kvs) \<Longrightarrow>
   d' = d\<lparr>acl_rules := with_ords (map_of kvs) (acl_rules d)\<rparr>"
proof (induction kvs arbitrary: d)
  case Nil
  then show ?case by (simp add: with_ords_def)
next
  case (Cons kv kvs)
  obtain k v where kv: "kv = (k, v)" by (cases kv)
  have "map_of kvs k = None" using Cons.prems(2) kv by (simp add: map_of_eq_None_iff)
  then have "[k \<mapsto> v] ++ map_of kvs = (map_of kvs)(k \<mapsto> v)" by (auto simp: map_add_def fun_eq_iff split: option.split)
  then show ?case using Cons.prems kv Cons.IH [of "d\<lparr>acl_rules := with_ords [k \<mapsto> v] (acl_rules d)\<rparr>"]
    by (auto simp: bindE_Inr set_ord_Inr with_ords_with_ords fun_upd_def)
qed

lemma set_ords_append: "set_ords (xs @ ys) d = bindE (set_ords xs d) (set_ords ys)"
  by (induction xs arbitrary: d) (auto simp: bindE_def split: sum.split)

text \<open>The orders that the untouched rows are given.\<close>

fun frees :: "int list \<Rightarrow> int \<Rightarrow> 'a list \<Rightarrow> int list" where
  "frees used n [] = []"
| "frees used n (x # xs) = (let m = next_free used n in m # frees (m # used) (m + 1) xs)"

lemma length_frees [simp]: "length (frees used n xs) = length xs"
  by (induction used n xs rule: frees.induct) (simp_all add: Let_def)

lemma fill_is_set: "fill_ords used n rids d = set_ords (zip rids (frees used n rids)) d"
  by (induction used n rids d rule: fill_ords.induct) (auto simp: Let_def bindE_def split: sum.split)

lemma next_free_facts:
  "n \<le> next_free used n \<and> next_free used n \<notin> set used \<and>
   (\<forall>m. n \<le> m \<longrightarrow> m < next_free used n \<longrightarrow> m \<in> set used) \<and>
   next_free used n + int (length (filter ((\<le>) (next_free used n)) used)) \<le> n + int (length (filter ((\<le>) n) used))"
proof (induction used n rule: next_free.induct)
  case (1 used n)
  show ?case
  proof (cases "n \<in> set used")
    case True
    then have "length (filter ((\<le>) (n + 1)) used) < length (filter ((\<le>) n) used)"
      by (intro filter_shrinks [of _ _ n]) auto
    moreover have "m \<in> set used" if "n \<le> m" "m < next_free used (n + 1)" for m
      using 1 [OF True] True that by (cases "m = n") auto
    moreover have "next_free used n = next_free used (n + 1)" using True by (simp add: next_free.simps [of used n])
    ultimately show ?thesis using 1 [OF True] by auto
  qed (simp add: next_free.simps [of used n])
qed

lemmas next_free_ge = next_free_facts [THEN conjunct1]
lemmas next_free_new = next_free_facts [THEN conjunct2, THEN conjunct1]
lemmas next_free_least = next_free_facts [THEN conjunct2, THEN conjunct2, THEN conjunct1, rule_format]
lemmas next_free_potential = next_free_facts [THEN conjunct2, THEN conjunct2, THEN conjunct2]

lemma frees_facts:
  "sorted_wrt (<) (frees used n xs) \<and> (\<forall>v \<in> set (frees used n xs). n \<le> v \<and> v \<notin> set used \<and>
     v < n + int (length (filter ((\<le>) n) used)) + int (length xs) \<and>
     (\<forall>m. n \<le> m \<longrightarrow> m < v \<longrightarrow> m \<in> set used \<union> set (frees used n xs)))"
proof (induction used n xs rule: frees.induct)
  case (2 used n x xs)
  let ?m = "next_free used n"
  let ?fs = "frees (?m # used) (?m + 1) xs"
  have IH: "sorted_wrt (<) ?fs" "\<And>v. v \<in> set ?fs \<Longrightarrow> ?m + 1 \<le> v \<and> v \<noteq> ?m \<and> v \<notin> set used \<and>
      v < ?m + 1 + int (length (filter ((\<le>) (?m + 1)) (?m # used))) + int (length xs) \<and>
      (\<forall>m. ?m + 1 \<le> m \<longrightarrow> m < v \<longrightarrow> m \<in> insert ?m (set used) \<union> set ?fs)"
    using 2 by auto
  have "length (filter ((\<le>) (?m + 1)) (?m # used)) \<le> length (filter ((\<le>) ?m) used)"
    by (simp add: filter_length_mono)
  then have bound: "v < n + int (length (filter ((\<le>) n) used)) + int (length (x # xs))" if "v \<in> set ?fs \<or> v = ?m" for v
    using that IH(2) [of v] next_free_potential [of used n] by auto
  have gap: "m \<in> set used \<union> set (frees used n (x # xs))" if "n \<le> m" "m < v" "v \<in> set ?fs \<or> v = ?m" for m v
  proof (cases "m < ?m")
    case True
    then show ?thesis using next_free_least that(1) by blast
  next
    case False
    then have "m = ?m \<or> ?m + 1 \<le> m" by linarith
    then show ?thesis using that(2,3) IH(2) [of v] False by (auto simp: Let_def)
  qed
  have fs: "frees used n (x # xs) = ?m # ?fs" by (simp add: Let_def)
  show ?case
  proof (intro conjI ballI)
    show "sorted_wrt (<) (frees used n (x # xs))" unfolding fs using IH by force
    fix v assume v: "v \<in> set (frees used n (x # xs))"
    then have v': "v \<in> set ?fs \<or> v = ?m" unfolding fs by auto
    show "n \<le> v" "v \<notin> set used" using v' IH(2) [of v] next_free_ge [of n used] next_free_new [of used n] by auto
    show "v < n + int (length (filter ((\<le>) n) used)) + int (length (x # xs))" using v' by (rule bound)
    show "\<forall>m. n \<le> m \<longrightarrow> m < v \<longrightarrow> m \<in> set used \<union> set (frees used n (x # xs))" using gap v' by blast
  qed
qed simp

text \<open>The orders a reordering gives out: the requested ones, and the free ones for the rows left over.\<close>

definition left_over :: "(string \<times> int) list \<Rightarrow> db \<Rightarrow> string list" where
  "left_over no d = map al_id (filter (\<lambda>x. al_id x \<notin> fst ` set no) (list_acl_rules d))"

definition assignment :: "(string \<times> int) list \<Rightarrow> db \<Rightarrow> (string \<times> int) list" where
  "assignment no d = no @ zip (left_over no d) (frees (map snd no) 0 (left_over no d))"

lemma map_fst_assignment: "map fst (assignment no d) = map fst no @ left_over no d"
  by (simp add: assignment_def)

lemma map_snd_assignment: "map snd (assignment no d) = map snd no @ frees (map snd no) 0 (left_over no d)"
  by (simp add: assignment_def)

lemma set_left_over: "set (left_over no d) = al_id ` set (acl_rules d) - fst ` set no"
  by (auto simp: left_over_def list_acl_rules_def)

lemma distinct_left_over: "tbl_ok al_id (acl_rules d) \<Longrightarrow> distinct (left_over no d)"
proof -
  assume ok: "tbl_ok al_id (acl_rules d)"
  have "mset (map al_id (list_acl_rules d)) = mset (map al_id (acl_rules d))"
    by (metis list_acl_rules_def mset_map mset_sort)
  then have "distinct (map al_id (list_acl_rules d))" using ok by (metis mset_eq_imp_distinct_iff tbl_ok_def)
  then show ?thesis unfolding left_over_def by (rule distinct_map_filter)
qed

lemma assignment_keys:
  "tbl_ok al_id (acl_rules d) \<Longrightarrow> distinct (map fst no) \<Longrightarrow> distinct (map fst (assignment no d))"
  "al_id ` set (acl_rules d) \<subseteq> fst ` set (assignment no d)"
proof -
  have keys: "fst ` set (assignment no d) = fst ` set no \<union> set (left_over no d)"
    using arg_cong [OF map_fst_assignment, of set no d] by simp
  show "al_id ` set (acl_rules d) \<subseteq> fst ` set (assignment no d)" unfolding keys set_left_over by blast
  assume "tbl_ok al_id (acl_rules d)" "distinct (map fst no)"
  then show "distinct (map fst (assignment no d))"
    using distinct_left_over [of d no] by (simp add: map_fst_assignment set_left_over)
qed

lemma assignment_values: "distinct (map snd no) \<Longrightarrow> distinct (map snd (assignment no d))"
  using frees_facts [of "map snd no" 0 "left_over no d"]
  by (auto simp: map_snd_assignment strict_sorted_iff)

text \<open>The whole table once reordered: every row has the order the assignment gives it.\<close>

definition reordered :: "(string \<times> int) list \<Rightarrow> db \<Rightarrow> acl_rule_row list" where
  "reordered no d = map (\<lambda>x. x\<lparr>al_ord := the (map_of (assignment no d) (al_id x))\<rparr>) (acl_rules d)"

lemma with_all_ords:
  "al_id ` set xs \<subseteq> fst ` set kvs \<Longrightarrow>
   with_ords (map_of kvs) (map (\<lambda>x. x\<lparr>al_ord := f x\<rparr>) xs) = map (\<lambda>x. x\<lparr>al_ord := the (map_of kvs (al_id x))\<rparr>) xs"
  by (auto simp: with_ords_def map_of_eq_None_iff image_subset_iff split: option.split)

lemma reorder_split: "no \<noteq> [] \<Longrightarrow> reorder_acl_rules no d = Inr d' \<longleftrightarrow>
    distinct (map snd no) \<and> fst ` set no \<subseteq> al_id ` set (acl_rules d) \<and>
    (\<exists>d1. park_ords d = Inr d1 \<and> set_ords (assignment no d) d1 = Inr d')"
  by (auto simp: reorder_acl_rules_def Let_def filter_empty_conv bindE_Inr fill_is_set set_ords_append assignment_def
      left_over_def list_acl_rules_def)

lemma reorder_table:
  assumes "reorder_acl_rules no d = Inr d'" "no \<noteq> []" "distinct (map fst no)" "tbl_ok al_id (acl_rules d)"
  shows "d' = d\<lparr>acl_rules := reordered no d\<rparr> \<and> distinct (map snd no)"
proof -
  obtain d1 where d1: "park_ords d = Inr d1" and s: "set_ords (assignment no d) d1 = Inr d'" and
      u: "distinct (map snd no)" using assms(1,2) by (auto simp: reorder_split)
  have "d1 = d\<lparr>acl_rules := map (\<lambda>x. x\<lparr>al_ord := - al_ord x - 1\<rparr>) (acl_rules d)\<rparr>"
    using d1 by (auto simp: park_ords_def split: if_splits)
  moreover have "d' = d1\<lparr>acl_rules := with_ords (map_of (assignment no d)) (acl_rules d1)\<rparr>"
    by (rule set_ords_Inr [OF s assignment_keys(1) [OF assms(4,3)]])
  ultimately show ?thesis using u assignment_keys(2) [of d no] by (simp add: reordered_def with_all_ords)
qed

lemma map_of_inj: "distinct (map snd kvs) \<Longrightarrow> inj_on (\<lambda>k. the (map_of kvs k)) (fst ` set kvs)"
proof (rule inj_onI)
  fix a b assume d: "distinct (map snd kvs)" and ab: "a \<in> fst ` set kvs" "b \<in> fst ` set kvs"
    "the (map_of kvs a) = the (map_of kvs b)"
  then obtain v where "map_of kvs a = Some v" "map_of kvs b = Some v" by (metis map_of_eq_None_iff option.exhaust_sel)
  then have "(a, v) \<in> set kvs" "(b, v) \<in> set kvs" by (auto dest: map_of_SomeD)
  then show "a = b" using d inj_onD [of snd "set kvs" "(a, v)" "(b, v)"] by (simp add: distinct_map)
qed

lemma reordered_ok:
  assumes "rules_ok d" "distinct (map fst no)" "distinct (map snd no)" "list_all (\<lambda>v. 0 \<le> v) (map snd no)"
  shows "tbl_ok al_id (reordered no d) \<and> tbl_ok al_ord (reordered no d) \<and> list_all row_ok (reordered no d)"
proof -
  let ?a = "assignment no d"
  have t: "tbl_ok al_id (acl_rules d)" "list_all row_ok (acl_rules d)" using assms(1) by (simp_all add: rules_ok_def)
  have inj: "inj_on (\<lambda>k. the (map_of ?a k)) (al_id ` set (acl_rules d))"
    using map_of_inj [OF assignment_values [OF assms(3)]] assignment_keys(2) by (rule inj_on_subset)
  have "inj_on (\<lambda>x. the (map_of ?a (al_id x))) (set (acl_rules d))"
    using comp_inj_on [of al_id "set (acl_rules d)"] inj t(1) by (simp add: tbl_ok_def distinct_map comp_def)
  then have "tbl_ok al_ord (reordered no d)"
    using t(1) by (simp add: tbl_ok_def reordered_def comp_def distinct_map)
  moreover have nonneg: "0 \<le> the (map_of ?a (al_id x))" if "x \<in> set (acl_rules d)" for x
  proof -
    have "al_id x \<in> fst ` set ?a" using assignment_keys(2) [of d no] that by blast
    then have "map_of ?a (al_id x) \<noteq> None" by (simp add: map_of_eq_None_iff)
    then obtain v where v: "map_of ?a (al_id x) = Some v" by blast
    then have "v \<in> set (map snd ?a)" by (force dest: map_of_SomeD)
    then show ?thesis using v assms(4) frees_facts [of "map snd no" 0 "left_over no d"]
      unfolding map_snd_assignment by (auto simp: list_all_iff)
  qed
  have "list_all row_ok (reordered no d)"
    using t(2) nonneg by (auto simp: list_all_iff reordered_def row_ok_def rule_row_check_def split: if_splits)
  moreover have "map al_id (reordered no d) = map al_id (acl_rules d)" by (simp add: reordered_def)
  ultimately show ?thesis using t(1) by (simp add: tbl_ok_def)
qed

lemma set_ords_succeeds:
  "distinct (map snd kvs) \<Longrightarrow> list_all int4 (map snd kvs) \<Longrightarrow>
   set (map snd kvs) \<inter> al_ord ` set (acl_rules d) = {} \<Longrightarrow> \<exists>d'. set_ords kvs d = Inr d'"
proof (induction kvs arbitrary: d)
  case (Cons kv kvs)
  obtain k v where kv: "kv = (k, v)" by (cases kv)
  let ?d1 = "d\<lparr>acl_rules := with_ords [k \<mapsto> v] (acl_rules d)\<rparr>"
  have "set_ord k v d = Inr ?d1" using Cons.prems kv by (auto simp: set_ord_Inr ord_taken_def list_ex_iff)
  moreover have "al_ord ` set (acl_rules ?d1) \<subseteq> insert v (al_ord ` set (acl_rules d))"
    by (auto simp: with_ords_def split: option.splits if_splits)
  moreover have "v \<notin> set (map snd kvs)" "set (map snd kvs) \<inter> al_ord ` set (acl_rules d) = {}"
    using Cons.prems(1,3) kv by simp_all
  ultimately have "set_ord k v d = Inr ?d1" "set (map snd kvs) \<inter> al_ord ` set (acl_rules ?d1) = {}" by blast+
  moreover from this(2) have "\<exists>d'. set_ords kvs ?d1 = Inr d'" using Cons.prems kv by (intro Cons.IH) simp_all
  ultimately show ?case using kv by (simp add: bindE_def)
qed simp

lemma length_left_over: "length (left_over no d) \<le> length (acl_rules d)"
  by (simp add: left_over_def list_acl_rules_def) (metis length_filter_le length_sort)

lemma keys_bound: "distinct (map fst no) \<Longrightarrow> fst ` set no \<subseteq> al_id ` set (acl_rules d) \<Longrightarrow>
    length no \<le> length (acl_rules d)"
proof -
  assume "distinct (map fst no)" and sub: "fst ` set no \<subseteq> al_id ` set (acl_rules d)"
  then have "length no = card (fst ` set no)" by (metis distinct_card length_map list.set_map)
  also have "\<dots> \<le> card (al_id ` set (acl_rules d))" using sub by (simp add: card_mono)
  also have "\<dots> \<le> length (acl_rules d)" by (metis card_length length_map list.set_map)
  finally show ?thesis .
qed

lemma reorder_succeeds:
  assumes "rules_ok d" "no \<noteq> []" "distinct (map fst no)" "fst ` set no \<subseteq> al_id ` set (acl_rules d)"
    "distinct (map snd no)" "list_all (\<lambda>v. 0 \<le> v \<and> v < 2 ^ 31) (map snd no)" "length (acl_rules d) \<le> 2 ^ 30"
  shows "reorder_acl_rules no d = Inr (d\<lparr>acl_rules := reordered no d\<rparr>)"
proof -
  have pos: "0 \<le> al_ord x" if "x \<in> set (acl_rules d)" for x
    using assms(1) that by (simp add: rules_ok_def list_all_iff row_ok_def)
  have neg: "- al_ord x - 1 \<noteq> al_ord y" if "x \<in> set (acl_rules d)" "y \<in> set (acl_rules d)" for x y
    using pos [OF that(1)] pos [OF that(2)] by linarith
  let ?d1 = "d\<lparr>acl_rules := map (\<lambda>x. x\<lparr>al_ord := - al_ord x - 1\<rparr>) (acl_rules d)\<rparr>"
  have p: "park_ords d = Inr ?d1" using neg by (auto simp: park_ords_def list_ex_iff)
  let ?fs = "frees (map snd no) 0 (left_over no d)"
  have f: "0 \<le> v \<and> v < int (length (filter ((\<le>) 0) (map snd no))) + int (length (left_over no d))" if "v \<in> set ?fs" for v
    using frees_facts [of "map snd no" 0 "left_over no d"] that by auto
  have "length (filter ((\<le>) 0) (map snd no)) \<le> length (acl_rules d)"
    using keys_bound [OF assms(3,4)] length_filter_le [of "(\<le>) 0" "map snd no"] unfolding length_map by linarith
  then have "v < 2 ^ 31" if "v \<in> set ?fs" for v
    using f [OF that] length_left_over [of no d] assms(7) by simp
  then have "list_all (\<lambda>v. 0 \<le> v \<and> v < 2 ^ 31) (map snd (assignment no d))"
    using assms(6) f by (auto simp: map_snd_assignment list_all_iff)
  then have "list_all int4 (map snd (assignment no d))"
    "set (map snd (assignment no d)) \<inter> al_ord ` set (acl_rules ?d1) = {}"
    using pos by (auto simp: list_all_iff int4_def) force
  then obtain d' where "set_ords (assignment no d) ?d1 = Inr d'"
    using set_ords_succeeds [OF assignment_values [OF assms(5)]] by blast
  then have r: "reorder_acl_rules no d = Inr d'" using assms(2,4,5) p by (simp add: reorder_split)
  show ?thesis using reorder_table [OF r assms(2,3)] assms(1) r by (simp add: rules_ok_def)
qed

text \<open>The rows left over come in the same order as before.\<close>

lemma left_over_order:
  assumes "rules_ok d" "distinct (map fst no)" "distinct (map snd no)"
  shows "left_over no (d\<lparr>acl_rules := reordered no d\<rparr>) = left_over no d"
proof -
  let ?U = "\<lambda>x. al_id x \<notin> fst ` set no" and ?m = "map_of (assignment no d)"
  let ?g = "\<lambda>x. x\<lparr>al_ord := the (?m (al_id x))\<rparr>"
  define ys where "ys = filter ?U (list_acl_rules d)"
  have t: "tbl_ok al_id (acl_rules d)" using assms(1) by (simp add: rules_ok_def)
  have left: "left_over no d = map al_id ys" by (simp add: left_over_def ys_def)
  have part: "map_of (assignment no d) (al_id y) = map_of (zip (left_over no d) (frees (map snd no) 0 (left_over no d))) (al_id y)"
    if "y \<in> set ys" for y
  proof -
    have "map_of no (al_id y) = None" using that by (simp add: ys_def map_of_eq_None_iff)
    then show ?thesis by (simp add: assignment_def map_add_def split: option.split)
  qed
  have "map al_ord (map ?g ys) = map (\<lambda>k. the (?m k)) (left_over no d)" by (simp add: left)
  also have "\<dots> = frees (map snd no) 0 (left_over no d)"
  proof (rule nth_equalityI)
    fix i assume i: "i < length (map (\<lambda>k. the (?m k)) (left_over no d))"
    then have "?m (left_over no d ! i) = Some (frees (map snd no) 0 (left_over no d) ! i)"
      using part [of "ys ! i"]
        map_of_zip_nth [OF _ distinct_left_over [OF t, of no], of "frees (map snd no) 0 (left_over no d)" i] by (simp add: left)
    then show "map (\<lambda>k. the (?m k)) (left_over no d) ! i = frees (map snd no) 0 (left_over no d) ! i" using i by simp
  qed simp
  finally have ords: "map al_ord (map ?g ys) = frees (map snd no) 0 (left_over no d)" .
  then have strict: "sorted_wrt (<) (map al_ord (map ?g ys))" using frees_facts by metis
  have "filter ?U (sort_key al_ord (reordered no d)) = sort_key al_ord (map ?g (filter ?U (acl_rules d)))"
    by (simp add: filter_sort reordered_def filter_map comp_def)
  also have "\<dots> = map ?g ys"
  proof (rule sort_key_inj_key_eq)
    have "mset ys = mset (filter ?U (acl_rules d))" by (simp add: ys_def list_acl_rules_def)
    then show "mset (map ?g (filter ?U (acl_rules d))) = mset (map ?g ys)" by (simp only: mset_map)
    then have s: "set (map ?g (filter ?U (acl_rules d))) = set (map ?g ys)" by (rule mset_eq_setD)
    show "inj_on al_ord (set (map ?g (filter ?U (acl_rules d))))"
      unfolding s using strict by (simp only: strict_sorted_iff distinct_map)
    show "sorted (map al_ord (map ?g ys))" using strict by (simp only: strict_sorted_iff)
  qed
  finally have "filter ?U (list_acl_rules (d\<lparr>acl_rules := reordered no d\<rparr>)) = map ?g ys"
    by (simp add: list_acl_rules_def)
  then show ?thesis unfolding left by (simp add: left_over_def)
qed

text \<open>
  Reordering does what it documents: the named rules take exactly the requested orders, the others
  keep their relative order and are packed below with no gap (every number below such a rule's is
  taken), and nothing else of any rule changes.
\<close>

theorem reorder_exact:
  assumes "rules_ok d" "no \<noteq> []" "distinct (map fst no)" "fst ` set no \<subseteq> al_id ` set (acl_rules d)"
    "distinct (map snd no)" "list_all (\<lambda>v. 0 \<le> v \<and> v < 2 ^ 31) (map snd no)" "length (acl_rules d) \<le> 2 ^ 30"
  shows "\<exists>d'. reorder_acl_rules no d = Inr d' \<and>
    (\<forall>(k, v) \<in> set no. \<exists>x. get_acl_rule k d' = Some x \<and> al_ord x = v) \<and>
    filter (\<lambda>k. k \<notin> fst ` set no) (map al_id (list_acl_rules d')) =
      filter (\<lambda>k. k \<notin> fst ` set no) (map al_id (list_acl_rules d)) \<and>
    (\<forall>x \<in> set (acl_rules d'). al_id x \<notin> fst ` set no \<longrightarrow>
       (\<forall>m. 0 \<le> m \<longrightarrow> m < al_ord x \<longrightarrow> m \<in> al_ord ` set (acl_rules d'))) \<and>
    map (\<lambda>x. x\<lparr>al_ord := 0\<rparr>) (acl_rules d') = map (\<lambda>x. x\<lparr>al_ord := 0\<rparr>) (acl_rules d)"
proof -
  let ?d' = "d\<lparr>acl_rules := reordered no d\<rparr>" and ?m = "map_of (assignment no d)"
  have t: "tbl_ok al_id (acl_rules d)" "tbl_ok al_id (reordered no d)"
    using assms(1) reordered_ok [OF assms(1,3,5)] assms(6) by (auto simp: rules_ok_def list_all_iff)
  have asked: "?m k = Some v" if "(k, v) \<in> set no" for k v
    using that assignment_keys(1) [OF t(1) assms(3)] by (intro map_of_is_SomeI) (simp_all add: assignment_def)
  have given: "\<exists>x. get_acl_rule k ?d' = Some x \<and> al_ord x = v" if kv: "(k, v) \<in> set no" for k v
  proof -
    obtain x where x: "x \<in> set (acl_rules d)" "al_id x = k" using kv assms(4) by force
    let ?x = "x\<lparr>al_ord := v\<rparr>"
    have "?x \<in> set (reordered no d)" using x asked [OF kv] by (auto simp: reordered_def intro: rev_image_eqI)
    then have "get_acl_rule k ?d' = Some ?x" using tbl_get_in_set [OF t(2), of ?x] x(2) by (simp add: get_acl_rule_def)
    then show ?thesis by simp
  qed
  have vals: "al_ord ` set (reordered no d) = set (map snd (assignment no d))"
  proof -
    have "al_ord ` set (reordered no d) = (\<lambda>k. the (?m k)) ` (al_id ` set (acl_rules d))"
      by (simp add: reordered_def image_image)
    moreover have "al_id ` set (acl_rules d) = fst ` set (assignment no d)"
      using assms(4) arg_cong [OF map_fst_assignment, of set no d] by (auto simp: set_left_over)
    moreover have "the (?m (fst kv)) = snd kv" if "kv \<in> set (assignment no d)" for kv
      using map_of_is_SomeI [OF assignment_keys(1) [OF t(1) assms(3)], of "fst kv" "snd kv"] that by simp
    ultimately show ?thesis by (simp add: image_image)
  qed
  have packed: "m \<in> al_ord ` set (reordered no d)"
    if x: "x \<in> set (reordered no d)" "al_id x \<notin> fst ` set no" and m: "0 \<le> m" "m < al_ord x" for x m
  proof -
    have "?m (al_id x) = Some (al_ord x)"
    proof -
      have "al_id x \<in> fst ` set (assignment no d)" using x(1) assignment_keys(2) [of d no] by (auto simp: reordered_def)
      then have "?m (al_id x) \<noteq> None" by (simp add: map_of_eq_None_iff)
      then show ?thesis using x(1) by (auto simp: reordered_def)
    qed
    then have "(al_id x, al_ord x) \<in> set (assignment no d)" by (rule map_of_SomeD)
    then have "al_ord x \<in> set (frees (map snd no) 0 (left_over no d))"
      using x(2) by (force simp: assignment_def dest: set_zip_rightD)
    then show ?thesis using m frees_facts [of "map snd no" 0 "left_over no d"] unfolding vals map_snd_assignment by auto
  qed
  have "filter (\<lambda>k. k \<notin> fst ` set no) (map al_id (list_acl_rules e)) = left_over no e" for e
    by (simp add: left_over_def filter_map comp_def)
  then have order: "filter (\<lambda>k. k \<notin> fst ` set no) (map al_id (list_acl_rules ?d')) =
      filter (\<lambda>k. k \<notin> fst ` set no) (map al_id (list_acl_rules d))"
    using left_over_order [OF assms(1,3,5)] by simp
  show ?thesis
    using reorder_succeeds [OF assms] given order packed by (intro exI [of _ ?d']) (auto simp: reordered_def)
qed

section \<open>The contract of the endpoints\<close>

text \<open>
  What the endpoints rely on: other requests may do anything but touch the rules, in the table or in
  memory.
\<close>

definition quiet_rules :: "'r api_env \<Rightarrow> bool" where
  "quiet_rules en \<longleftrightarrow> (\<forall>r. acl_rules (rdb (ae_others en r)) = acl_rules (rdb r) \<and> rrules (ae_others en r) = rrules r)"

text \<open>The table is in order, and the rules in memory are its rows.\<close>

definition rules_inv :: "'r router \<Rightarrow> bool" where
  "rules_inv r \<longleftrightarrow> rules_ok (rdb r) \<and> load_rules (rdb r) = Some (rrules r)"

definition rule_tx :: "('r, 'a) http \<Rightarrow> bool" where
  "rule_tx m \<longleftrightarrow> (\<forall>r. rrules (snd (m r)) = rrules r \<and> (rules_ok (rdb r) \<longrightarrow> rules_ok (rdb (snd (m r)))))"

named_theorems rule_txs \<open>computations that keep the table of rules in order and the memory as it is\<close>

lemma rule_tx_bind [rule_txs]: "rule_tx m \<Longrightarrow> (\<And>a. rule_tx (f a)) \<Longrightarrow> rule_tx (bindH m f)"
  by (simp add: rule_tx_def bindH_def split: prod.split sum.split) (metis snd_conv)

lemma rule_tx_then [rule_txs]: "rule_tx m \<Longrightarrow> rule_tx k \<Longrightarrow> rule_tx (thenH m k)"
  unfolding thenH_def by (rule rule_tx_bind)

lemma rule_tx_simple [rule_txs]: "rule_tx (retH a)" "rule_tx (readH f)" "rule_tx (raiseH st e)" "rule_tx (someH x st e)"
  by (auto simp: rule_tx_def http_defs split: option.splits)

lemma rule_tx_audit [rule_txs]: "rule_tx (rule_audit en p event rid payload)"
proof -
  have "rules_ok (append_audit_event g k a e tk t q now d) = rules_ok d" for g k a e tk t q now d
    by (rule rules_ok_cong) simp
  then show ?thesis by (simp add: rule_tx_def rule_audit_def auditH_def runH_def)
qed

lemma rule_tx_answer:
  "(\<And>d a d'. f d = Inr (a, d') \<Longrightarrow> rules_ok d \<Longrightarrow> rules_ok d') \<Longrightarrow> rule_tx (answerH h f)"
  by (simp add: rule_tx_def answerH_def split: sum.split prod.split)

lemma rule_tx_answer_only:
  "(\<And>d d'. f d = Inr d' \<Longrightarrow> rules_ok d \<Longrightarrow> rules_ok d') \<Longrightarrow> rule_tx (answer_only h f)"
  unfolding answer_only_def by (rule rule_tx_answer) (auto simp: map_sum_def split: sum.splits)

lemma load_rules_cong: "acl_rules d' = acl_rules d \<Longrightarrow> load_rules d' = load_rules d"
  by (simp add: load_rules_def list_acl_rules_def)

lemma rules_inv_cong: "acl_rules (rdb r') = acl_rules (rdb r) \<Longrightarrow> rrules r' = rrules r \<Longrightarrow> rules_inv r' = rules_inv r"
  unfolding rules_inv_def using rules_ok_cong load_rules_cong by metis

lemma push_rules:
  "quiet_rules en \<Longrightarrow> acl_rules (rdb (snd (pushH en r))) = acl_rules (rdb r) \<and> rrules (snd (pushH en r)) = rrules r \<and>
     (\<exists>n. fst (pushH en r) = Inr n)"
  by (simp add: pushH_def stepH_def push_catalog_update_to_all_def Let_def fold_push_keeps quiet_rules_def split_beta)

lemma apply_reloads:
  assumes "quiet_rules en"
  shows "apply_rule_change en r =
    (case all_some (map row_to_rule (list_acl_rules (rdb r))) of
       None \<Rightarrow> (Inl (500, ''ValidationError''), ae_others en (ae_others en r))
     | Some rs \<Rightarrow> bindH (pushH en) (\<lambda>n. retH (length (list_acl_rules (rdb r))))
                    ((ae_others en (ae_others en r))\<lparr>rrules := replace_rules (rrules r) rs\<rparr>))"
  using assms by (simp add: apply_rule_change_def http_defs stepH_def quiet_rules_def list_acl_rules_def split: option.split)

lemma apply_rules_inv:
  assumes q: "quiet_rules en" and ok: "rules_ok (rdb r)"
  obtains n r' where "apply_rule_change en r = (Inr n, r')" "rules_inv r'" "acl_rules (rdb r') = acl_rules (rdb r)"
proof -
  let ?rs = "map rule_of_row (list_acl_rules (rdb r))"
  let ?r1 = "(ae_others en (ae_others en r))\<lparr>rrules := ?rs\<rparr>"
  have l: "load_rules (rdb r) = Some ?rs" using ok by (rule load_rules_ok)
  have a: "acl_rules (rdb ?r1) = acl_rules (rdb r)" using q by (simp add: quiet_rules_def)
  obtain n r' where p: "pushH en ?r1 = (Inr n, r')" using push_rules [OF q, of ?r1] by (metis prod.collapse)
  then have r': "acl_rules (rdb r') = acl_rules (rdb r)" "rrules r' = ?rs"
    using push_rules [OF q, of ?r1] a by (metis (no_types, lifting) snd_conv router.select_convs router.surjective router.update_convs)+
  have "apply_rule_change en r = (Inr (length (list_acl_rules (rdb r))), r')"
    using l p by (simp add: apply_reloads [OF q] load_rules_def replace_loaded [OF ok] bindH_def retH_def)
  moreover have "rules_inv r'"
    using ok l r' unfolding rules_inv_def by (metis rules_ok_cong load_rules_cong)
  ultimately show thesis using that r'(1) by blast
qed

text \<open>The shape of every change: a transaction, then the reload.\<close>

lemma tx_then_reload:
  assumes q: "quiet_rules en" and tx: "rule_tx m" and inv: "rules_inv r"
  shows "rules_inv (snd (bindH (transaction m) (\<lambda>a. bindH (apply_rule_change en) (\<lambda>n. retH (f a))) r))"
proof (cases "m r")
  case (Pair res r1)
  then have mem: "rrules r1 = rrules r" and ok: "rules_ok (rdb r1)"
    using tx inv by (metis rule_tx_def rules_inv_def snd_conv)+
  show ?thesis
  proof (cases res)
    case (Inl e)
    have "rules_inv (r1\<lparr>rdb := rdb r\<rparr>)" using inv mem by (simp add: rules_inv_def)
    then show ?thesis using Pair Inl by (simp add: bindH_def transaction_def)
  next
    case (Inr a)
    obtain n r' where "apply_rule_change en r1 = (Inr n, r')" "rules_inv r'" using q ok by (rule apply_rules_inv)
    then show ?thesis using Pair Inr by (simp add: bindH_def transaction_def retH_def)
  qed
qed

section \<open>The rules in memory are the rows\<close>

datatype rule_op =
    ListRules
  | ReplaceRules "nat \<Rightarrow> string" "rule_request list"
  | AddRule rule_request
  | UpdateRule string rule_patch
  | DeleteRule string
  | ReorderRules "(string \<times> int) list"
  | SimulateRule agent_id agent_id level

definition run_rule_op :: "'r api_env \<Rightarrow> session_principal \<Rightarrow> rule_op \<Rightarrow> 'r router \<Rightarrow> 'r router" where
  "run_rule_op en p op r =
     (case op of
        ListRules \<Rightarrow> snd (list_rules p r)
      | ReplaceRules ids qs \<Rightarrow> snd (replace_rules_api en ids p qs r)
      | AddRule q \<Rightarrow> snd (add_rule en p q r)
      | UpdateRule rid q \<Rightarrow> snd (update_rule en p rid q r)
      | DeleteRule rid \<Rightarrow> snd (delete_rule en p rid r)
      | ReorderRules no \<Rightarrow> snd (reorder_rules en p no r)
      | SimulateRule a b lvl \<Rightarrow> snd (simulate_rule en p a b lvl r))"

text \<open>A reordering names each rule once (it is a dictionary) and asks for no negative order.\<close>

fun sane_op :: "rule_op \<Rightarrow> bool" where
  "sane_op (ReorderRules no) = (distinct (map fst no) \<and> list_all (\<lambda>v. 0 \<le> v) (map snd no))"
| "sane_op _ = True"

lemma admin_first: "rules_inv r \<Longrightarrow> (\<And>p. rules_inv (snd (k p r))) \<Longrightarrow> rules_inv (snd (bindH (liftH (require_admin p0)) k r))"
  by (simp add: bindH_def liftH_def require_admin_def)

lemma guard_first: "rules_inv r \<Longrightarrow> (ok \<Longrightarrow> rules_inv (snd (k r))) \<Longrightarrow> rules_inv (snd (thenH (guardH ok st e) k r))"
  by (simp add: http_defs)

lemma read_first: "rules_inv r \<Longrightarrow> (\<And>a. rules_inv (snd (k a r))) \<Longrightarrow> rules_inv (snd (bindH (readH f) k r))"
  by (simp add: http_defs)

lemma some_first: "rules_inv r \<Longrightarrow> (\<And>a. rules_inv (snd (k a r))) \<Longrightarrow> rules_inv (snd (bindH (someH x st e) k r))"
  by (simp add: http_defs split: option.split)

lemma others_first:
  "quiet_rules en \<Longrightarrow> rules_inv r \<Longrightarrow> (\<And>s. rules_inv s \<Longrightarrow> rules_inv (snd (k s))) \<Longrightarrow>
   rules_inv (snd (thenH (othersH en) k r))"
  by (simp add: http_defs) (metis quiet_rules_def rules_inv_cong)

lemmas first_steps = admin_first guard_first read_first some_first others_first

lemma reorder_ok:
  "reorder_acl_rules no d = Inr d' \<Longrightarrow> rules_ok d \<Longrightarrow> distinct (map fst no) \<Longrightarrow> list_all (\<lambda>v. 0 \<le> v) (map snd no) \<Longrightarrow>
   rules_ok d'"
proof (cases "no = []")
  case False
  assume r: "reorder_acl_rules no d = Inr d'" and d: "rules_ok d" "distinct (map fst no)" "list_all (\<lambda>v. 0 \<le> v) (map snd no)"
  have "d' = d\<lparr>acl_rules := reordered no d\<rparr>" "distinct (map snd no)"
    using reorder_table [OF r False d(2)] d(1) by (simp_all add: rules_ok_def)
  then show ?thesis using reordered_ok [OF d(1,2) _ d(3)] by (simp add: rules_ok_def)
qed (simp add: reorder_acl_rules_def)

lemma run_rule_op_inv:
  assumes q: "quiet_rules en" and inv: "rules_inv r" and ok: "sane_op op"
  shows "rules_inv (run_rule_op en p op r)"
proof (cases op)
  case ListRules
  then show ?thesis using inv unfolding run_rule_op_def list_rules_def by (auto intro!: first_steps simp: readH_def)
next
  case (ReplaceRules ids qs)
  then show ?thesis unfolding run_rule_op_def replace_rules_api_def rule_op.case
    by (auto intro!: first_steps tx_then_reload q inv rule_txs rule_tx_answer_only intro: replace_ok)
next
  case (AddRule c)
  then show ?thesis unfolding run_rule_op_def add_rule_def rule_op.case
    by (auto intro!: first_steps tx_then_reload q inv rule_txs rule_tx_answer
        elim!: insert_rule_ok simp: row_of_def rule_request_ok_def)
next
  case (UpdateRule rid c)
  then show ?thesis unfolding run_rule_op_def update_rule_def rule_op.case
    by (auto intro!: first_steps tx_then_reload q inv rule_txs rule_tx_answer intro: update_rule_ok)
next
  case (DeleteRule rid)
  have tx: "rule_tx (thenH (runH (delete_acl_rule rid)) (rule_audit en p' e i pl))" for p' e i pl
    by (intro rule_txs) (simp add: rule_tx_def runH_def delete_rule_ok)
  then show ?thesis using inv q DeleteRule unfolding run_rule_op_def delete_rule_def rule_op.case thenH_def [of "transaction m" for m]
    by (auto intro!: first_steps tx_then_reload)
next
  case (ReorderRules no)
  then show ?thesis using ok unfolding run_rule_op_def reorder_rules_def rule_op.case thenH_def [of "transaction m" for m]
    by (auto intro!: first_steps tx_then_reload q inv rule_txs rule_tx_answer_only intro: reorder_ok)
next
  case (SimulateRule a b lvl)
  then show ?thesis using inv q unfolding run_rule_op_def simulate_rule_def rule_op.case
    by (auto intro!: first_steps) (simp add: bindH_def retH_def split: prod.split)
qed

fun rule_steps :: "('r api_env \<times> session_principal \<times> rule_op) list \<Rightarrow> 'r router \<Rightarrow> 'r router" where
  "rule_steps [] r = r"
| "rule_steps ((en, p, op) # ops) r = rule_steps ops (run_rule_op en p op r)"


section \<open>What reordering to a negative order does\<close>

lemma all_some_stuck: "None \<in> set xs \<Longrightarrow> all_some xs = None"
  by (induction xs rule: all_some.induct) auto

lemma negative_row_stuck: "x \<in> set (acl_rules d) \<Longrightarrow> al_ord x < 0 \<Longrightarrow> load_rules d = None"
  unfolding load_rules_def by (rule all_some_stuck) (force simp: list_acl_rules_def row_to_rule_eq)

lemma negative_reorder_commits:
  assumes ok: "rules_ok d" and x: "x \<in> set (acl_rules d)" "al_id x = rid" and v: "- (2 ^ 31) \<le> v" "v < 0"
    and free: "- v - 1 \<notin> al_ord ` set (acl_rules d)" and len: "length (acl_rules d) \<le> 2 ^ 30"
  shows "reorder_acl_rules [(rid, v)] d = Inr (d\<lparr>acl_rules := reordered [(rid, v)] d\<rparr>)"
    and "x\<lparr>al_ord := v\<rparr> \<in> set (reordered [(rid, v)] d)"
proof -
  let ?no = "[(rid, v)]"
  have pos: "0 \<le> al_ord y" if "y \<in> set (acl_rules d)" for y
    using ok that by (simp add: rules_ok_def list_all_iff row_ok_def)
  let ?d1 = "d\<lparr>acl_rules := map (\<lambda>x. x\<lparr>al_ord := - al_ord x - 1\<rparr>) (acl_rules d)\<rparr>"
  have "- al_ord y - 1 \<noteq> al_ord z" if "y \<in> set (acl_rules d)" "z \<in> set (acl_rules d)" for y z
    using pos [OF that(1)] pos [OF that(2)] by linarith
  then have p: "park_ords d = Inr ?d1" by (auto simp: park_ords_def list_ex_iff)
  have fs: "0 \<le> w \<and> w < 2 ^ 31" if "w \<in> set (frees [v] 0 (left_over ?no d))" for w
    using frees_facts [of "[v]" 0 "left_over ?no d"] that length_left_over [of ?no d] len v by auto
  have av: "distinct (map snd (assignment ?no d))" by (rule assignment_values) simp
  have "list_all int4 (map snd (assignment ?no d))"
    using fs v unfolding map_snd_assignment by (force simp: int4_def list_all_iff)
  moreover have "set (map snd (assignment ?no d)) \<inter> al_ord ` set (acl_rules ?d1) = {}"
  proof -
    have "v \<noteq> - al_ord y - 1" if "y \<in> set (acl_rules d)" for y using free that by force
    moreover have "w \<noteq> - al_ord y - 1" if "w \<in> set (frees [v] 0 (left_over ?no d))" "y \<in> set (acl_rules d)" for w y
      using fs [OF that(1)] pos [OF that(2)] by linarith
    ultimately have "w \<noteq> - al_ord y - 1" if "w \<in> set (v # frees [v] 0 (left_over ?no d))" "y \<in> set (acl_rules d)" for w y
      using that by (cases "w = v") simp_all
    then show ?thesis unfolding map_snd_assignment by (auto simp: image_iff) metis
  qed
  ultimately obtain d' where "set_ords (assignment ?no d) ?d1 = Inr d'"
    using set_ords_succeeds [OF av] by blast
  then have r: "reorder_acl_rules ?no d = Inr d'" using x p by (auto simp: reorder_split)
  then show "reorder_acl_rules ?no d = Inr (d\<lparr>acl_rules := reordered ?no d\<rparr>)"
    using reorder_table [OF r] ok by (simp add: rules_ok_def)
  have "map_of (assignment ?no d) rid = Some v" by (simp add: assignment_def)
  then show "x\<lparr>al_ord := v\<rparr> \<in> set (reordered ?no d)" using x by (auto simp: reordered_def intro!: rev_image_eqI [of x])
qed

text \<open>
  The reorder endpoint, unlike the others, does not refuse a negative order.  The new order is
  committed; then the row is no valid rule, so the request answers 500 and the router goes on
  with the old rules; every later reload fails in the same way, and a router that starts on this
  table does not come up.
\<close>

theorem negative_reorder_jams:
  assumes inv: "rules_inv r" and q: "quiet_rules en" and admin: "sp_level p = ''admin''"
    and x: "get_acl_rule rid (rdb r) = Some x" and v: "- (2 ^ 31) \<le> v" "v < 0"
    and free: "- v - 1 \<notin> al_ord ` set (acl_rules (rdb r))" and len: "length (acl_rules (rdb r)) \<le> 2 ^ 30"
  shows "\<exists>r'. reorder_rules en p [(rid, v)] r = (Inl (500, ''ValidationError''), r') \<and> rrules r' = rrules r \<and>
    x\<lparr>al_ord := v\<rparr> \<in> set (acl_rules (rdb r')) \<and> boot_rules (rdb r') = None \<and>
    fst (apply_rule_change en r') = Inl (500, ''ValidationError'')"
proof -
  let ?d = "rdb r"
  have ok: "rules_ok ?d" using inv by (simp add: rules_inv_def)
  have mem: "x \<in> set (acl_rules ?d)" "al_id x = rid" using x tbl_get_SomeD [of al_id rid "acl_rules ?d" x] by (simp_all add: get_acl_rule_def)
  note c = negative_reorder_commits [OF ok mem v free len]
  define d2 where "d2 = append_audit_event (dep_digest (ae_deps en)) ''admin'' (Some (sp_user p)) ''acl.rules_reordered'' None
    None (Some [(''changes'', JObj [(rid, JInt v)])]) (ae_now en) (?d\<lparr>acl_rules := reordered [(rid, v)] ?d\<rparr>)"
  have d2: "acl_rules d2 = reordered [(rid, v)] ?d" by (simp add: d2_def)
  have tx: "transaction (thenH (answer_only reorder_answer (reorder_acl_rules [(rid, v)]))
       (rule_audit en p ''acl.rules_reordered'' None [(''changes'', JObj (map (\<lambda>(k, v). (k, JInt v)) [(rid, v)]))])) r =
      (Inr (), r\<lparr>rdb := d2\<rparr>)"
    using c(1) by (simp add: transaction_def thenH_def bindH_def answer_only_def answerH_def rule_audit_def auditH_def
        runH_def d2_def)
  define r1 where "r1 = r\<lparr>rdb := d2\<rparr>"
  have bad: "load_rules d = None" if "acl_rules d = reordered [(rid, v)] ?d" for d
    using negative_row_stuck [of "x\<lparr>al_ord := v\<rparr>" d] c(2) v(2) that by simp
  define r2 where "r2 = ae_others en (ae_others en r1)"
  have r2: "acl_rules (rdb r2) = reordered [(rid, v)] ?d" "rrules r2 = rrules r"
    using q d2 by (simp_all add: r1_def r2_def quiet_rules_def)
  have ap: "apply_rule_change en s = (Inl (500, ''ValidationError''), ae_others en (ae_others en s))"
    if "acl_rules (rdb s) = reordered [(rid, v)] ?d" for s
    using bad [OF that] by (simp add: apply_reloads [OF q] load_rules_def)
  have "reorder_rules en p [(rid, v)] r = thenH (transaction (thenH (answer_only reorder_answer (reorder_acl_rules [(rid, v)]))
       (rule_audit en p ''acl.rules_reordered'' None [(''changes'', JObj (map (\<lambda>(k, v). (k, JInt v)) [(rid, v)]))])))
     (bindH (apply_rule_change en) (\<lambda>n. retH (length [(rid, v)]))) r"
    using admin by (simp add: reorder_rules_def bindH_def [of "liftH y" for y] liftH_def require_admin_def)
  also have "\<dots> = (Inl (500, ''ValidationError''), r2)"
    unfolding thenH_def [of "transaction m" for m] bindH_def [of "transaction m" for m] tx
    using ap [of r1] d2 by (simp add: bindH_def r1_def r2_def)
  finally have "reorder_rules en p [(rid, v)] r = (Inl (500, ''ValidationError''), r2)" .
  then show ?thesis using r2 c(2) bad ap by (intro exI [of _ r2]) (simp add: boot_rules_def)
qed

section \<open>What replacing the list does\<close>

lemma insert_numbered_rows:
  "insert_numbered ids now by n qs d = Inr d' \<Longrightarrow>
   acl_rules d' = acl_rules d @ map (\<lambda>(i, q). row_of (ids i) (int i) now by q) (enumerate n qs)"
  by (induction qs arbitrary: n d) (auto simp: bindE_Inr insert_acl_rule_def split: if_splits option.splits)

lemma enumerate_ords_sorted:
  "sorted (map al_ord (map (\<lambda>(i, q). row_of (ids i) (int i) now by q) (enumerate n qs)))"
proof -
  have "map al_ord (map (\<lambda>(i, q). row_of (ids i) (int i) now by q) (enumerate n qs)) = map int [n..<n + length qs]"
    by (simp add: comp_def split_beta row_of_def) (metis (no_types, lifting) map_fst_enumerate map_map comp_apply map_eq_conv)
  then show ?thesis by (simp add: sorted_map)
qed

text \<open>
  Replacing the rule list: when the request succeeds, the router decides with the submitted rules in
  ascending order of their submitted numbers, those with equal numbers in the order of the request
  (the sort is stable), renumbered from zero, and with no rule of the former list.
\<close>

theorem replace_orders_rules:
  assumes "replace_rules_api en ids p qs r = (Inr rows, r')" "quiet_rules en"
  shows "rrules r' = map (\<lambda>(i, q). rule_of_row (row_of (ids i) (int i) (ae_now en) (Some (sp_user p)) q))
    (enumerate 0 (sort_key cr_ord qs))"
proof -
  let ?rows = "map (\<lambda>(i, q). row_of (ids i) (int i) (ae_now en) (Some (sp_user p)) q) (enumerate 0 (sort_key cr_ord qs))"
  let ?r = "\<lambda>d. r\<lparr>rdb := append_audit_event (dep_digest (ae_deps en)) ''admin'' (Some (sp_user p)) ''acl.rules_replaced'' None None
    (Some [(''rule_count'', JInt (int (length qs)))]) (ae_now en) d\<rparr>"
  from assms(1) obtain d1 n where d1: "replace_acl_rules ids (ae_now en) (Some (sp_user p)) qs (rdb r) = Inr d1"
    and ap: "apply_rule_change en (?r d1) = (Inr n, r')"
    by (auto simp: replace_rules_api_def http_Inr answer_only_def answerH_def map_sum_def rule_audit_def
        liftH_def require_admin_def split: sum.splits prod.splits if_splits)
  define r1 where "r1 = ?r d1"
  have r1: "acl_rules (rdb r1) = acl_rules d1" and ap: "apply_rule_change en r1 = (Inr n, r')"
    using ap by (simp_all add: r1_def)
  have t: "acl_rules d1 = ?rows" using insert_numbered_rows d1 by (fastforce simp: replace_acl_rules_def)
  have ok: "rules_ok (rdb r1)" using replace_ok [OF d1] r1 by (metis rules_ok_cong)
  have "rules_inv r'" "acl_rules (rdb r') = acl_rules (rdb r1)"
    using apply_rules_inv [OF assms(2) ok] ap by (metis snd_conv)+
  then have "rrules r' = map rule_of_row (list_acl_rules (rdb r'))" "acl_rules (rdb r') = ?rows"
    using t r1 load_rules_ok [of "rdb r'"] by (simp_all add: rules_inv_def)
  moreover have "sort_key al_ord ?rows = ?rows" by (rule sort_key_id_if_sorted) (rule enumerate_ords_sorted)
  ultimately show ?thesis by (simp add: list_acl_rules_def split_beta)
qed

section \<open>Instances\<close>

definition demo_row :: "string \<Rightarrow> int \<Rightarrow> effect \<Rightarrow> acl_rule_row" where
  "demo_row i o' e = \<lparr>al_id = i, al_ord = o', al_name = None, al_description = None, al_effect = e, al_level = ''*'',
     al_caller = ''*/*'', al_callee = ''@b'', al_created = 0, al_by = None\<rparr>"

definition demo_rules_db :: db where
  "demo_rules_db = empty_db\<lparr>acl_rules := [demo_row ''x'' 0 Deny, demo_row ''y'' 1 Allow, demo_row ''z'' 2 Allow],
     users := [\<lparr>u_id = ''root'', u_level = ''admin'', u_suspended = None, u_deleted = None, u_email = None,
        u_auth_kind = ''password'', u_secret = None, u_serviced_by = [], u_purged = None\<rparr>]\<rparr>"

definition demo_ruler :: "unit router" where
  "demo_ruler = demo_router\<lparr>rdb := demo_rules_db, live := [],
     rrules := map rule_of_row [demo_row ''x'' 0 Deny, demo_row ''y'' 1 Allow, demo_row ''z'' 2 Allow]\<rparr>"

definition demo_admin :: session_principal where
  "demo_admin = \<lparr>sp_user = ''root'', sp_level = ''admin'', sp_expires = 99, sp_jti = ''j''\<rparr>"

definition demo_request :: "int \<Rightarrow> effect \<Rightarrow> rule_request" where
  "demo_request o' e = \<lparr>cr_ord = o', cr_name = None, cr_description = None, cr_effect = e, cr_level = ''tier1'',
     cr_caller = ''@a'', cr_callee = ''@b''\<rparr>"

lemma demo_patterns: "pattern_check ''*/*'' \<and> pattern_check ''@b'' \<and> pattern_check ''@a''"
  by code_simp

lemma demo_rules_ok: "rules_ok demo_rules_db"
  using demo_patterns
  by (simp add: rules_ok_def demo_rules_db_def demo_row_def tbl_ok_def row_ok_def rule_row_check_def rule_level_check_def)

lemma demo_rules_inv: "rules_inv demo_ruler"
  using demo_rules_ok load_rules_ok [OF demo_rules_ok]
  by (simp add: rules_inv_def demo_ruler_def demo_rules_db_def list_acl_rules_def demo_row_def)

lemma demo_quiet: "quiet_rules (demo_env tok)"
  by (simp add: quiet_rules_def demo_env_def)


theorem negative_reorder_jams_witness:
  "\<exists>r'. reorder_rules (demo_env []) demo_admin [(''y'', - 100)] demo_ruler = (Inl (500, ''ValidationError''), r') \<and>
     rrules r' = rrules demo_ruler \<and> (demo_row ''y'' 1 Allow)\<lparr>al_ord := - 100\<rparr> \<in> set (acl_rules (rdb r')) \<and>
     boot_rules (rdb r') = None \<and> fst (apply_rule_change (demo_env []) r') = Inl (500, ''ValidationError'')"
  by (rule negative_reorder_jams [OF demo_rules_inv demo_quiet])
    (simp_all add: demo_admin_def demo_ruler_def demo_rules_db_def get_acl_rule_def tbl_get_def demo_row_def)

theorem reorder_exact_witness:
  "\<exists>d'. reorder_acl_rules [(''z'', 0)] demo_rules_db = Inr d' \<and>
    (\<forall>(k, v) \<in> set [(''z'', 0)]. \<exists>x. get_acl_rule k d' = Some x \<and> al_ord x = v) \<and>
    filter (\<lambda>k. k \<notin> fst ` set [(''z'', 0 :: int)]) (map al_id (list_acl_rules d')) =
      filter (\<lambda>k. k \<notin> fst ` set [(''z'', 0 :: int)]) (map al_id (list_acl_rules demo_rules_db)) \<and>
    (\<forall>x \<in> set (acl_rules d'). al_id x \<notin> fst ` set [(''z'', 0 :: int)] \<longrightarrow>
       (\<forall>m. 0 \<le> m \<longrightarrow> m < al_ord x \<longrightarrow> m \<in> al_ord ` set (acl_rules d'))) \<and>
    map (\<lambda>x. x\<lparr>al_ord := 0\<rparr>) (acl_rules d') = map (\<lambda>x. x\<lparr>al_ord := 0\<rparr>) (acl_rules demo_rules_db)"
  by (rule reorder_exact [OF demo_rules_ok]) (simp_all add: demo_rules_db_def demo_row_def)

lemma demo_replacement:
  "case replace_acl_rules show_nat 10 (Some ''root'') [demo_request 10 Deny, demo_request 5 Allow] demo_rules_db of
     Inl e \<Rightarrow> False | Inr d \<Rightarrow> True"
  by code_simp

lemma demo_replaced:
  "\<exists>rows. fst (replace_rules_api (demo_env []) show_nat demo_admin [demo_request 10 Deny, demo_request 5 Allow] demo_ruler) =
     Inr rows"
proof -
  let ?qs = "[demo_request 10 Deny, demo_request 5 Allow]"
  obtain d1 where d1: "replace_acl_rules show_nat 10 (Some ''root'') ?qs (rdb demo_ruler) = Inr d1"
    using demo_replacement by (auto simp: demo_ruler_def split: sum.splits)
  let ?r1 = "demo_ruler\<lparr>rdb := append_audit_event (dep_digest (ae_deps (demo_env []))) ''admin'' (Some ''root'') ''acl.rules_replaced''
    None None (Some [(''rule_count'', JInt 2)]) 10 d1\<rparr>"
  have "rules_ok (rdb ?r1) = rules_ok d1" by (rule rules_ok_cong) simp
  then have ok: "rules_ok (rdb ?r1)" using replace_ok [OF d1] by simp
  obtain n r' where ap: "apply_rule_change (demo_env []) ?r1 = (Inr n, r')" by (rule apply_rules_inv [OF demo_quiet ok])
  have req: "list_all rule_request_ok ?qs"
    using demo_patterns by (simp add: rule_request_ok_def demo_request_def pattern_check_def rule_level_check_valid
        rule_level_check_def level_check_def tier_body_def all_digits_def starts_with_def is_digit_def code_def)
  have env: "ae_now (demo_env []) = 10" "sp_user demo_admin = ''root''" "sp_level demo_admin = ''admin''"
    by (simp_all add: demo_env_def demo_admin_def)
  show ?thesis using d1 ap req env
    by (simp add: replace_rules_api_def thenH_def bindH_def liftH_def require_admin_def guardH_def retH_def transaction_def
        answer_only_def answerH_def rule_audit_def auditH_def runH_def readH_def)
qed

theorem replace_orders_rules_witness:
  "rrules (snd (replace_rules_api (demo_env []) show_nat demo_admin [demo_request 10 Deny, demo_request 5 Allow] demo_ruler)) =
   map (\<lambda>(i, q). rule_of_row (row_of (show_nat i) (int i) (ae_now (demo_env [])) (Some (sp_user demo_admin)) q))
     (enumerate 0 (sort_key cr_ord [demo_request 10 Deny, demo_request 5 Allow]))"
proof -
  obtain rows where "fst (replace_rules_api (demo_env []) show_nat demo_admin [demo_request 10 Deny, demo_request 5 Allow] demo_ruler) =
     Inr rows" using demo_replaced by blast
  then show ?thesis by (intro replace_orders_rules [OF _ demo_quiet]) (simp add: prod_eq_iff)
qed

end
