(* ===== verification/Net.thy ===== *)
theory Net
  imports Http "HOL-Library.Word"
begin

unbundle bit_operations_syntax

text \<open>
  What the URL guards use of Python's standard library (3.12, the version of the images):
  \<open>ipaddress\<close>, with an IPv4 address as a 32-bit word and an IPv6 address as a 128-bit word, and
  \<open>urllib.parse.urlsplit\<close>.  A \<open>ValueError\<close> is \<open>None\<close>.
\<close>

section \<open>Addresses\<close>

datatype ip = V4 "32 word" | V6 "128 word"

definition parse_octet :: "string \<Rightarrow> int option" where
  "parse_octet s =
     (if s = [] \<or> \<not> list_all is_digit s \<or> 3 < length s \<or> (s \<noteq> ''0'' \<and> hd s = CHR ''0'') then None
      else let n = int (parse_nat s) in if 255 < n then None else Some n)"

definition v4 :: "int \<Rightarrow> int \<Rightarrow> int \<Rightarrow> int \<Rightarrow> 32 word" where
  "v4 a b c d = word_of_int (((a * 256 + b) * 256 + c) * 256 + d)"

definition ipv4_of :: "string \<Rightarrow> 32 word option" where
  "ipv4_of s = (case map parse_octet (split_char CHR ''.'' s) of
     [Some a, Some b, Some c, Some d] \<Rightarrow> Some (v4 a b c d)
   | _ \<Rightarrow> None)"

definition hex_value :: "char \<Rightarrow> int option" where
  "hex_value c = (if is_digit c then Some (int (code c) - 48)
     else if 97 \<le> code c \<and> code c \<le> 102 then Some (int (code c) - 87)
     else if 65 \<le> code c \<and> code c \<le> 70 then Some (int (code c) - 55) else None)"

definition is_hex :: "char \<Rightarrow> bool" where
  "is_hex c = (hex_value c \<noteq> None)"

definition parse_hextet :: "string \<Rightarrow> int option" where
  "parse_hextet s = (if s = [] \<or> \<not> list_all is_hex s \<or> 4 < length s then None
     else Some (foldl (\<lambda>a c. a * 16 + the (hex_value c)) 0 s))"

function show_hex :: "int \<Rightarrow> string" where
  "show_hex n = (if n < 16 then [hex_digit (nat n)] else show_hex (n div 16) @ [hex_digit (nat (n mod 16))])"
  by auto
termination by (relation "measure nat") auto

declare show_hex.simps [simp del]

text \<open>The parts between the colons; one that holds a dot, if any, is the last and is written as two.\<close>

definition v6_parts :: "string \<Rightarrow> string list option" where
  "v6_parts s =
     (let parts = split_char CHR '':'' s
      in if length parts < 3 then None
         else if CHR ''.'' \<in> set (last parts)
         then map_option (\<lambda>a. butlast parts @ [show_hex (uint (drop_bit 16 a)), show_hex (uint (take_bit 16 a))])
                (ipv4_of (last parts))
         else Some parts)"

definition word_of_hextets :: "int list \<Rightarrow> 128 word" where
  "word_of_hextets hs = foldl (\<lambda>acc h. push_bit 16 acc OR word_of_int h) 0 hs"

text \<open>
  \<open>IPv6Address._ip_int_from_string\<close>: without an empty part inside there are eight parts; with one
  (a second is an error) it stands for at least one zero part, and the text begins or ends with a
  colon only as part of the \<open>::\<close>.
\<close>

definition ipv6_int :: "string \<Rightarrow> 128 word option" where
  "ipv6_int s =
     (case v6_parts s of
        None \<Rightarrow> None
      | Some parts \<Rightarrow>
          (let n = length parts; inner = filter (\<lambda>i. parts ! i = []) [1..<n - 1]
           in if 9 < n then None
              else case inner of
                [] \<Rightarrow> if n \<noteq> 8 then None else map_option word_of_hextets (those (map parse_hextet parts))
              | [i] \<Rightarrow>
                  (let hi = (if hd parts = [] then i - 1 else i);
                       lo = (if last parts = [] then n - i - 2 else n - i - 1)
                   in if hd parts = [] \<and> hi \<noteq> 0 \<or> last parts = [] \<and> lo \<noteq> 0 \<or> 8 < hi + lo + 1 then None
                      else case (those (map parse_hextet (take hi parts)),
                                 those (map parse_hextet (drop (n - lo) parts))) of
                        (Some hs, Some ls) \<Rightarrow> Some (word_of_hextets (hs @ replicate (8 - (hi + lo)) 0 @ ls))
                      | _ \<Rightarrow> None)
              | _ \<Rightarrow> None))"

definition ipv6_of :: "string \<Rightarrow> 128 word option" where
  "ipv6_of s =
     (if CHR ''%'' \<notin> set s then ipv6_int s
      else let scope = after_char CHR ''%'' s
           in if scope = [] \<or> CHR ''%'' \<in> set scope then None else ipv6_int (before_char CHR ''%'' s))"

definition ip_address :: "string \<Rightarrow> ip option" where
  "ip_address s =
     (if CHR ''/'' \<in> set s then None
      else case ipv4_of s of Some a \<Rightarrow> Some (V4 a) | None \<Rightarrow> map_option V6 (ipv6_of s))"

section \<open>Classes of addresses\<close>

text \<open>\<open>a in ip_network(base/p)\<close>: the first \<open>p\<close> bits agree.\<close>

definition net :: "'a::len word \<Rightarrow> nat \<Rightarrow> 'a word \<Rightarrow> bool" where
  "net base p a = (drop_bit (LENGTH('a) - p) a = drop_bit (LENGTH('a) - p) base)"

definition in_nets :: "('a::len word \<times> nat) list \<Rightarrow> 'a word \<Rightarrow> bool" where
  "in_nets ns a = list_ex (\<lambda>(base, p). net base p a) ns"

definition v4_private :: "(32 word \<times> nat) list" where
  "v4_private = [(v4 0 0 0 0, 8), (v4 10 0 0 0, 8), (v4 127 0 0 0, 8), (v4 169 254 0 0, 16), (v4 172 16 0 0, 12),
     (v4 192 0 0 0, 24), (v4 192 0 0 170, 31), (v4 192 0 2 0, 24), (v4 192 168 0 0, 16), (v4 198 18 0 0, 15),
     (v4 198 51 100 0, 24), (v4 203 0 113 0, 24), (v4 240 0 0 0, 4), (v4 255 255 255 255, 32)]"

definition v4_private_exceptions :: "(32 word \<times> nat) list" where
  "v4_private_exceptions = [(v4 192 0 0 9, 32), (v4 192 0 0 10, 32)]"

text \<open>A hextet and its place, from the left.\<close>

definition hx :: "int list \<Rightarrow> 128 word" where
  "hx hs = word_of_hextets (hs @ replicate (8 - length hs) 0)"

definition v6_private :: "(128 word \<times> nat) list" where
  "v6_private = [(1, 128), (0, 128), (hx [0, 0, 0, 0, 0, 0xFFFF], 96), (hx [0x64, 0xFF9B, 1], 48), (hx [0x100], 64),
     (hx [0x2001], 23), (hx [0x2001, 0xDB8], 32), (hx [0x2002], 16), (hx [0xFC00], 7), (hx [0xFE80], 10)]"

definition v6_private_exceptions :: "(128 word \<times> nat) list" where
  "v6_private_exceptions = [(hx [0x2001, 1, 0, 0, 0, 0, 0, 1], 128), (hx [0x2001, 1, 0, 0, 0, 0, 0, 2], 128),
     (hx [0x2001, 3], 32), (hx [0x2001, 4, 0x112], 48), (hx [0x2001, 0x20], 28), (hx [0x2001, 0x30], 28)]"

definition v6_reserved :: "(128 word \<times> nat) list" where
  "v6_reserved = [(0, 8), (hx [0x100], 8), (hx [0x200], 7), (hx [0x400], 6), (hx [0x800], 5), (hx [0x1000], 4),
     (hx [0x4000], 3), (hx [0x6000], 3), (hx [0x8000], 3), (hx [0xA000], 3), (hx [0xC000], 3), (hx [0xE000], 4),
     (hx [0xF000], 5), (hx [0xF800], 6), (hx [0xFE00], 9)]"

definition ipv4_mapped :: "128 word \<Rightarrow> 32 word option" where
  "ipv4_mapped a = (if drop_bit 32 a = 0xFFFF then Some (ucast a) else None)"

definition v4_is_private :: "32 word \<Rightarrow> bool" where
  "v4_is_private a = (in_nets v4_private a \<and> \<not> in_nets v4_private_exceptions a)"

fun is_link_local :: "ip \<Rightarrow> bool" where
  "is_link_local (V4 a) = net (v4 169 254 0 0) 16 a"
| "is_link_local (V6 a) = net (hx [0xFE80]) 10 a"

fun is_multicast :: "ip \<Rightarrow> bool" where
  "is_multicast (V4 a) = net (v4 224 0 0 0) 4 a"
| "is_multicast (V6 a) = net (hx [0xFF00]) 8 a"

fun is_unspecified :: "ip \<Rightarrow> bool" where
  "is_unspecified (V4 a) = (a = 0)"
| "is_unspecified (V6 a) = (a = 0)"

fun is_loopback :: "ip \<Rightarrow> bool" where
  "is_loopback (V4 a) = net (v4 127 0 0 0) 8 a"
| "is_loopback (V6 a) = (a = 1)"

fun is_private :: "ip \<Rightarrow> bool" where
  "is_private (V4 a) = v4_is_private a"
| "is_private (V6 a) =
     (case ipv4_mapped a of
        Some b \<Rightarrow> v4_is_private b
      | None \<Rightarrow> in_nets v6_private a \<and> \<not> in_nets v6_private_exceptions a)"

fun is_reserved :: "ip \<Rightarrow> bool" where
  "is_reserved (V4 a) = net (v4 240 0 0 0) 4 a"
| "is_reserved (V6 a) = in_nets v6_reserved a"

section \<open>Splitting a URL\<close>

definition is_alpha :: "char \<Rightarrow> bool" where
  "is_alpha c = (is_lower c \<or> is_upper c)"

definition scheme_char :: "char \<Rightarrow> bool" where
  "scheme_char c = (is_alpha c \<or> is_digit c \<or> c \<in> {CHR ''+'', CHR ''-'', CHR ''.''})"

definition clean_url :: "string \<Rightarrow> string" where
  "clean_url s = filter (\<lambda>c. c \<notin> {CHR 0x09, CHR 0x0A, CHR 0x0D}) (dropWhile (\<lambda>c. code c \<le> 32) s)"

definition split_scheme :: "string \<Rightarrow> string \<times> string" where
  "split_scheme url =
     (let s = before_char CHR '':'' url
      in if CHR '':'' \<in> set url \<and> s \<noteq> [] \<and> is_alpha (hd s) \<and> list_all scheme_char s
         then (py_lower s, after_char CHR '':'' url) else ([], url))"

definition after_last :: "char \<Rightarrow> string \<Rightarrow> string" where
  "after_last c s = rev (takeWhile (\<lambda>x. x \<noteq> c) (rev s))"

definition ip_future :: "string \<Rightarrow> bool" where
  "ip_future h =
     (let hex = takeWhile is_hex (tl h); rest = dropWhile is_hex (tl h)
      in hex \<noteq> [] \<and> rest \<noteq> [] \<and> hd rest = CHR ''.'' \<and> tl rest \<noteq> [])"

definition check_bracketed_host :: "string \<Rightarrow> bool" where
  "check_bracketed_host h =
     (if starts_with ''v'' h then ip_future h
      else case ip_address h of Some (V6 a) \<Rightarrow> True | _ \<Rightarrow> False)"

definition check_bracketed_netloc :: "string \<Rightarrow> bool" where
  "check_bracketed_netloc netloc =
     (let hp = after_last CHR ''@'' netloc
      in if CHR ''['' \<in> set hp
         then before_char CHR ''['' hp = [] \<and>
              (let bracketed = after_char CHR ''['' hp; port = after_char CHR '']'' bracketed
               in (port = [] \<or> starts_with '':'' port) \<and> check_bracketed_host (before_char CHR '']'' bracketed))
         else check_bracketed_host (before_char CHR '':'' hp))"

text \<open>The scheme and the netloc of \<open>urlsplit\<close>.  (Normalising a Latin-1 netloc yields no delimiter.)\<close>

definition urlsplit :: "string \<Rightarrow> (string \<times> string) option" where
  "urlsplit url0 =
     (let (scheme, url) = split_scheme (clean_url url0);
          netloc = (if starts_with ''//'' url
                    then takeWhile (\<lambda>c. c \<notin> {CHR ''/'', CHR ''?'', CHR ''#''}) (drop 2 url) else []);
          opens = CHR ''['' \<in> set netloc; closes = CHR '']'' \<in> set netloc
      in if opens \<noteq> closes then None
         else if opens \<and> closes \<and> \<not> check_bracketed_netloc netloc then None
         else Some (scheme, netloc))"

text \<open>\<open>hostname or ""\<close>; the zone of a scoped address keeps its case.\<close>

definition hostname :: "string \<Rightarrow> string" where
  "hostname netloc =
     (let info = after_last CHR ''@'' netloc;
          h = (if CHR ''['' \<in> set info then before_char CHR '']'' (after_char CHR ''['' info)
               else before_char CHR '':'' info)
      in py_lower (before_char CHR ''%'' h) @ dropWhile (\<lambda>c. c \<noteq> CHR ''%'') h)"

end
