(* ===== verification/UrlGuard.thy ===== *)
theory UrlGuard
  imports Net
begin

text \<open>
  The guards against requests to internal addresses: \<open>bp_router/url_validation.py\<close>, which the
  administration runs on the URLs of providers and MCP servers, and \<open>bp_agents/common/urlsafe.py\<close>,
  which the agents run before every fetch.  The resolver (\<open>socket.getaddrinfo\<close>) is a parameter:
  \<open>None\<close> is its error, otherwise it gives the texts of the addresses.
\<close>

type_synonym resolver = "string \<Rightarrow> string list option"

text \<open>The guard's own error with its text, or a \<open>ValueError\<close> of the library that it lets pass.\<close>

datatype url_error = BadUrl string | LibraryError

section \<open>URLs of providers\<close>

definition METADATA_HOSTNAMES :: "string list" where
  "METADATA_HOSTNAMES = [''metadata.google.internal'', ''metadata.azure.com'', ''instance-data.ec2.internal'',
     ''metadata.ec2.internal'']"

definition HOSTED_PROVIDERS :: "string list" where
  "HOSTED_PROVIDERS = [''gemini'', ''anthropic'', ''openai'', ''openai-embeddings'']"

definition is_local_provider :: "string \<Rightarrow> bool" where
  "is_local_provider provider = (starts_with ''openai-compatible'' provider \<or> provider = ''mcp'')"

text \<open>An IPv4 address inside an IPv6 one is judged as what it is.\<close>

definition unwrap :: "ip \<Rightarrow> ip" where
  "unwrap a = (case a of V4 b \<Rightarrow> V4 b | V6 b \<Rightarrow> (case ipv4_mapped b of Some m \<Rightarrow> V4 m | None \<Rightarrow> V6 b))"

definition ip_is_blocked :: "ip \<Rightarrow> bool \<Rightarrow> bool \<Rightarrow> string option" where
  "ip_is_blocked a0 allow_private allow_loopback =
     (let a = unwrap a0
      in if is_link_local a then Some ''link-local address (cloud-metadata range)''
         else if is_multicast a then Some ''multicast address''
         else if is_unspecified a then Some ''unspecified address''
         else if is_loopback a then (if allow_loopback then None else Some ''loopback address'')
         else if is_private a then (if allow_private then None else Some ''private address (RFC1918 / ULA)'')
         else if is_reserved a then Some ''reserved address''
         else None)"

text \<open>The addresses to judge: the literal, or all that the name resolves to; \<open>None\<close> when it does not.\<close>

definition candidates :: "resolver \<Rightarrow> string \<Rightarrow> url_error + ip list option" where
  "candidates resolve host =
     (case ip_address host of
        Some a \<Rightarrow> Inr (Some [a])
      | None \<Rightarrow>
          (case resolve host of
             None \<Rightarrow> Inr None
           | Some infos \<Rightarrow>
               (case those (map (\<lambda>s. ip_address (before_char CHR ''%'' s)) infos) of
                  None \<Rightarrow> Inl LibraryError
                | Some as \<Rightarrow> Inr (Some as))))"

fun first_blocked :: "(ip \<Rightarrow> string option) \<Rightarrow> ip list \<Rightarrow> string option" where
  "first_blocked f [] = None"
| "first_blocked f (a # as) = (case f a of Some e \<Rightarrow> Some e | None \<Rightarrow> first_blocked f as)"

definition validate_base_url :: "resolver \<Rightarrow> string \<Rightarrow> string \<Rightarrow> string list option \<Rightarrow> url_error + unit" where
  "validate_base_url resolve provider base_url allowed =
     (if base_url = [] then Inr ()
      else case urlsplit base_url of
        None \<Rightarrow> Inl LibraryError
      | Some (scheme, netloc) \<Rightarrow>
          (let host = py_lower (hostname netloc)
           in if scheme \<notin> {''http'', ''https''}
                then Inl (BadUrl (''base_url must use http(s) scheme; got '' @ py_repr scheme))
              else if provider \<in> set HOSTED_PROVIDERS \<and> scheme \<noteq> ''https''
                then Inl (BadUrl (provider @ '' preset requires https:// (got '' @ py_repr scheme @
                       ''); cleartext would ferry API keys without TLS''))
              else if host = [] then Inl (BadUrl ''base_url has no hostname'')
              else if (case allowed of None \<Rightarrow> False | Some hs \<Rightarrow> host \<in> set hs) then Inr ()
              else if host \<in> set METADATA_HOSTNAMES
                then Inl (BadUrl (''base_url host '' @ py_repr host @ '' targets a cloud-metadata endpoint''))
              else case candidates resolve host of
                Inl e \<Rightarrow> Inl e
              | Inr None \<Rightarrow> Inr ()
              | Inr (Some as) \<Rightarrow>
                  (let local = is_local_provider provider
                   in case first_blocked (\<lambda>a. ip_is_blocked a local local) as of
                        None \<Rightarrow> Inr ()
                      | Some reason \<Rightarrow> Inl (BadUrl (''base_url host '' @ py_repr host @ '' resolves to a '' @ reason @
                          ''; not allowed for '' @ provider @ '' provider'')))))"

text \<open>\<open>str.strip\<close> on code points below 256.\<close>

definition py_space :: "char \<Rightarrow> bool" where
  "py_space c = ((9 \<le> code c \<and> code c \<le> 13) \<or> (28 \<le> code c \<and> code c \<le> 32) \<or> code c = 133 \<or> code c = 160)"

definition py_strip :: "string \<Rightarrow> string" where
  "py_strip s = rev (dropWhile py_space (rev (dropWhile py_space s)))"

definition parse_allowed_hosts :: "string option \<Rightarrow> string list" where
  "parse_allowed_hosts raw =
     (if \<not> truthy raw then []
      else map (\<lambda>i. py_lower (py_strip i)) (filter (\<lambda>i. py_strip i \<noteq> []) (split_char CHR '','' (the raw))))"

section \<open>URLs the agents fetch\<close>

text \<open>The text of the resolver's error and of the address are left out of the messages.\<close>

definition addr_blocked :: "ip \<Rightarrow> bool" where
  "addr_blocked a0 =
     (let a = unwrap a0
      in is_private a \<or> is_loopback a \<or> is_link_local a \<or> is_multicast a \<or> is_reserved a \<or> is_unspecified a)"

definition check_fetch :: "resolver \<Rightarrow> string \<Rightarrow> url_error + unit" where
  "check_fetch resolve url =
     (case urlsplit url of
        None \<Rightarrow> Inl LibraryError
      | Some (scheme, netloc) \<Rightarrow>
          (let host = py_lower (hostname netloc)
           in if scheme \<notin> {''http'', ''https''}
                then Inl (BadUrl (''only http/https URLs may be fetched (got '' @
                       py_repr (if scheme = [] then ''none'' else scheme) @ '')''))
              else if host = [] then Inl (BadUrl ''URL has no host'')
              else if host \<in> set METADATA_HOSTNAMES
                then Inl (BadUrl (''host '' @ py_repr host @ '' targets a cloud-metadata endpoint''))
              else case candidates resolve host of
                Inl e \<Rightarrow> Inl e
              | Inr None \<Rightarrow> Inl (BadUrl (''cannot resolve host '' @ py_repr host))
              | Inr (Some as) \<Rightarrow>
                  if list_ex addr_blocked as
                  then Inl (BadUrl (''host '' @ py_repr host @ '' resolves to a non-public address''))
                  else Inr ()))"

text \<open>
  \<open>safe_stream_get\<close>.  The client and the joining of URLs (httpx) are parameters; the client's answer
  and the resolver may differ from one hop to the next.
\<close>

datatype reply =
    Redirect "string option"   \<comment> \<open>the \<open>location\<close> header\<close>
  | ErrorStatus int
  | Body "string list"         \<comment> \<open>the chunks\<close>

datatype fetch_error =
    UnsafeUrl url_error
  | TooManyRedirects
  | NoLocation
  | BadStatus int
  | ExceedsCap

record web =
  wb_resolve :: "nat \<Rightarrow> resolver"
  wb_get :: "nat \<Rightarrow> string \<Rightarrow> reply"
  wb_join :: "string \<Rightarrow> string \<Rightarrow> string"

fun read_capped :: "int \<Rightarrow> string \<Rightarrow> string list \<Rightarrow> fetch_error + string" where
  "read_capped cap buf [] = Inr buf"
| "read_capped cap buf (c # cs) =
     (let buf' = buf @ c in if cap < int (length buf') then Inl ExceedsCap else read_capped cap buf' cs)"

text \<open>Gives the outcome and the URLs requested, each with its hop.\<close>

function fetch_from :: "web \<Rightarrow> int \<Rightarrow> nat \<Rightarrow> nat \<Rightarrow> string \<Rightarrow> (fetch_error + string) \<times> (nat \<times> string) list" where
  "fetch_from w cap max_redirects redirects url =
     (case check_fetch (wb_resolve w redirects) url of
        Inl e \<Rightarrow> (Inl (UnsafeUrl e), [])
      | Inr _ \<Rightarrow>
          (case wb_get w redirects url of
             Redirect location \<Rightarrow>
               if max_redirects < Suc redirects then (Inl TooManyRedirects, [(redirects, url)])
               else (case location of
                       None \<Rightarrow> (Inl NoLocation, [(redirects, url)])
                     | Some l \<Rightarrow>
                         (let (res, log) = fetch_from w cap max_redirects (Suc redirects) (wb_join w url l)
                          in (res, (redirects, url) # log)))
           | ErrorStatus st \<Rightarrow> (Inl (BadStatus st), [(redirects, url)])
           | Body chunks \<Rightarrow> (read_capped cap [] chunks, [(redirects, url)])))"
  by pat_completeness auto
termination
  by (relation "measure (\<lambda>(w, cap, max_redirects, redirects, url). Suc max_redirects - redirects)") auto

declare fetch_from.simps [simp del]

definition safe_stream_get :: "web \<Rightarrow> int \<Rightarrow> nat \<Rightarrow> string \<Rightarrow> (fetch_error + string) \<times> (nat \<times> string) list" where
  "safe_stream_get w cap max_redirects url = fetch_from w cap max_redirects 0 url"

end
