(* ===== verification/UrlProps.thy ===== *)
theory UrlProps
  imports UrlGuard
begin

unbundle bit_operations_syntax

text \<open>
  The URL guards: which addresses an accepted URL can lead to, that an IPv4 address written inside an
  IPv6 one is judged as itself, and that every hop of a fetch was checked.
\<close>

section \<open>Addresses by their first octets\<close>

definition octet1 :: "32 word \<Rightarrow> int" where
  "octet1 a = uint (drop_bit 24 a)"

definition octet2 :: "32 word \<Rightarrow> int" where
  "octet2 a = uint (take_bit 8 (drop_bit 16 a))"

text \<open>Link-local, where the metadata services of the clouds are, multicast, and \<open>0.0.0.0\<close>.\<close>

definition never_v4 :: "32 word \<Rightarrow> bool" where
  "never_v4 a \<longleftrightarrow> octet1 a = 169 \<and> octet2 a = 254 \<or> 224 \<le> octet1 a \<and> octet1 a \<le> 239 \<or> a = 0"

text \<open>All that is not to be reached from outside: also loopback, the private networks and the reserved ones.\<close>

definition internal_v4 :: "32 word \<Rightarrow> bool" where
  "internal_v4 a \<longleftrightarrow> never_v4 a \<or> octet1 a \<in> {0, 10, 127} \<or> octet1 a = 172 \<and> 16 \<le> octet2 a \<and> octet2 a \<le> 31 \<or>
     octet1 a = 192 \<and> octet2 a = 168 \<or> 240 \<le> octet1 a"

definition internal :: "ip \<Rightarrow> bool" where
  "internal a = (case unwrap a of
     V4 b \<Rightarrow> internal_v4 b
   | V6 b \<Rightarrow> b = 0 \<or> b = 1 \<or> net (hx [0xFE80]) 10 b \<or> net (hx [0xFC00]) 7 b \<or> net (hx [0xFF00]) 8 b)"

definition never :: "ip \<Rightarrow> bool" where
  "never a = (case unwrap a of
     V4 b \<Rightarrow> never_v4 b
   | V6 b \<Rightarrow> b = 0 \<or> net (hx [0xFE80]) 10 b \<or> net (hx [0xFF00]) 8 b)"

lemma uint_drop: "uint (drop_bit n (a :: 'a::len word)) = uint a div 2 ^ n"
proof -
  have "uint (drop_bit n a) = drop_bit n (uint a)" unfolding unsigned_drop_bit_eq by transfer simp
  then show ?thesis by (simp only: drop_bit_eq_div)
qed

lemma net_uint: "net base p (a :: 'a::len word) \<longleftrightarrow>
    uint a div 2 ^ (LENGTH('a) - p) = uint base div 2 ^ (LENGTH('a) - p)"
  unfolding net_def word_uint_eq_iff uint_drop ..

lemma octets_uint: "octet1 a = uint a div 65536 div 256" "octet2 a = uint a div 65536 mod 256"
proof -
  show "octet1 a = uint a div 65536 div 256" by (simp add: octet1_def uint_drop zdiv_zmult2_eq [symmetric])
  have "octet2 a = take_bit 8 (uint (drop_bit 16 a))" by (simp only: octet2_def unsigned_take_bit_eq)
  then show "octet2 a = uint a div 65536 mod 256" by (simp add: uint_drop take_bit_eq_mod)
qed

lemma uint_v4:
  "0 \<le> a \<Longrightarrow> a < 256 \<Longrightarrow> 0 \<le> b \<Longrightarrow> b < 256 \<Longrightarrow> 0 \<le> c \<Longrightarrow> c < 256 \<Longrightarrow> 0 \<le> d \<Longrightarrow> d < 256 \<Longrightarrow>
   uint (v4 a b c d) = ((a * 256 + b) * 256 + c) * 256 + d"
  unfolding v4_def uint_word_of_int by (rule mod_pos_pos_trivial) simp_all

lemma uint_32: "0 \<le> uint (a :: 32 word)" "uint (a :: 32 word) < 4294967296"
  using uint_range_size [of a] by (simp_all add: size_word_def)

text \<open>A network of whole octets, or of a range of a second octet.\<close>

text \<open>In the terms of the first sixteen bits.\<close>

lemma net_bits: "p \<le> 16 \<Longrightarrow> 0 \<le> x \<Longrightarrow> x < 256 \<Longrightarrow> 0 \<le> y \<Longrightarrow> y < 256 \<Longrightarrow>
   net (v4 x y 0 0) p a \<longleftrightarrow> uint a div 65536 div 2 ^ (16 - p) = (x * 256 + y) div 2 ^ (16 - p)"
proof -
  assume p: "p \<le> 16" and xy: "0 \<le> x" "x < 256" "0 \<le> y" "y < 256"
  have e: "(2::int) ^ (32 - p) = 65536 * 2 ^ (16 - p)" using p power_add [of "2::int" 16 "16 - p"] by simp
  have "uint (v4 x y 0 0) div 65536 = x * 256 + y" using xy by (simp add: uint_v4)
  then show ?thesis by (simp add: net_uint e zdiv_zmult2_eq)
qed

lemma octets_le: "0 \<le> uint (a :: 32 word) div 65536" "uint (a :: 32 word) div 65536 < 65536"
  using uint_32 [of a] by linarith+

lemma net_8: "0 \<le> x \<Longrightarrow> x < 256 \<Longrightarrow> net (v4 x 0 0 0) 8 a \<longleftrightarrow> octet1 a = x"
  by (simp add: net_bits octets_uint)

lemma digits_256: "0 \<le> y \<Longrightarrow> y < 256 \<Longrightarrow> q = x * 256 + y \<longleftrightarrow> q div 256 = x \<and> q mod 256 = (y::int)"
  using div_mult_mod_eq [of q 256] by auto

lemma digits_16: "q div 16 = 2753 \<longleftrightarrow> q div 256 = 172 \<and> 16 \<le> q mod 256 \<and> q mod 256 \<le> (31::int)"
proof -
  define h l where "h = q div 256" and "l = q mod 256"
  have "q = (16 * h) * 16 + l" using div_mult_mod_eq [of q 256] by (simp add: h_def l_def)
  then have q: "q div 16 = 16 * h + l div 16" by (metis div_mult_self3 zero_neq_numeral)
  have l: "0 \<le> l" "l < 256" by (simp_all add: l_def)
  define m where "m = l div 16"
  have m: "0 \<le> m" "m < 16" using l by (simp_all add: m_def pos_imp_zdiv_nonneg_iff)
  have "l = 16 * m + l mod 16" "0 \<le> l mod 16" "l mod 16 < 16" by (simp_all add: m_def)
  then have one: "m = 1 \<longleftrightarrow> 16 \<le> l \<and> l \<le> 31" by linarith
  have "16 * h + m = 2753 \<longleftrightarrow> h = 172 \<and> m = 1" using m by presburger
  then show ?thesis using q one by (simp add: m_def h_def l_def)
qed

lemma net_16: "0 \<le> x \<Longrightarrow> x < 256 \<Longrightarrow> 0 \<le> y \<Longrightarrow> y < 256 \<Longrightarrow> net (v4 x y 0 0) 16 a \<longleftrightarrow> octet1 a = x \<and> octet2 a = y"
  unfolding octets_uint by (subst digits_256 [symmetric]) (simp_all add: net_bits)

lemma net_172: "net (v4 172 16 0 0) 12 a \<longleftrightarrow> octet1 a = 172 \<and> 16 \<le> octet2 a \<and> octet2 a \<le> 31"
  unfolding octets_uint digits_16 [symmetric] by (simp add: net_bits)

lemma net_high: "net (v4 224 0 0 0) 4 a \<longleftrightarrow> 224 \<le> octet1 a \<and> octet1 a \<le> 239"
    "net (v4 240 0 0 0) 4 a \<longleftrightarrow> 240 \<le> octet1 a"
  using octets_le [of a] by (simp_all add: net_bits octets_uint) linarith+

section \<open>What the classes cover\<close>

lemma net_disjoint: "net x p a \<Longrightarrow> net y q a \<Longrightarrow> p \<le> q \<Longrightarrow> q \<le> LENGTH('a) \<Longrightarrow> net x p (y :: 'a::len word)"
proof -
  assume n: "net x p a" "net y q a" and pq: "p \<le> q" "q \<le> LENGTH('a)"
  have "LENGTH('a) - p = (q - p) + (LENGTH('a) - q)" using pq by simp
  then have d: "drop_bit (LENGTH('a) - p) z = drop_bit (q - p) (drop_bit (LENGTH('a) - q) z)" for z :: "'a word"
    by (simp add: drop_bit_drop_bit)
  have "drop_bit (q - p) (drop_bit (LENGTH('a) - q) y) = drop_bit (q - p) (drop_bit (LENGTH('a) - q) a)"
    using n(2) by (simp only: net_def)
  then show "net x p y" using n(1) by (simp only: net_def d)
qed

text \<open>No exception to the private networks lies in a network that a list of them is checked against.\<close>

lemma exceptions_apart:
  assumes "net x p a" "list_all (\<lambda>(e, q). p \<le> q \<and> q \<le> LENGTH('a) \<and> \<not> net x p e) es"
  shows "\<not> in_nets es (a :: 'a::len word)"
  using assms net_disjoint [OF assms(1)] by (fastforce simp: in_nets_def list_ex_iff list_all_iff)

lemma v4_private_nets:
  "list_all (\<lambda>(x, p). (x, p) \<in> set v4_private \<and>
     list_all (\<lambda>(e, q). p \<le> q \<and> q \<le> LENGTH(32) \<and> \<not> net x p e) v4_private_exceptions)
   [(v4 0 0 0 0, 8), (v4 10 0 0 0, 8), (v4 127 0 0 0, 8), (v4 172 16 0 0, 12), (v4 192 168 0 0, 16)]"
  by code_simp

lemma v6_local_net:
  "(hx [0xFC00], 7) \<in> set v6_private \<and>
   list_all (\<lambda>(e, q). 7 \<le> q \<and> q \<le> LENGTH(128) \<and> \<not> net (hx [0xFC00]) 7 e) v6_private_exceptions"
  by code_simp

lemma v4_private_of: "net x p a \<Longrightarrow> (x, p) \<in> set v4_private \<Longrightarrow>
    list_all (\<lambda>(e, q). p \<le> q \<and> q \<le> LENGTH(32) \<and> \<not> net x p e) v4_private_exceptions \<Longrightarrow> v4_is_private a"
  unfolding v4_is_private_def
  by (rule conjI, force simp: in_nets_def list_ex_iff) (rule exceptions_apart)

lemma private_octets:
  "octet1 a \<in> {0, 10, 127} \<or> octet1 a = 172 \<and> 16 \<le> octet2 a \<and> octet2 a \<le> 31 \<or> octet1 a = 192 \<and> octet2 a = 168 \<Longrightarrow>
   v4_is_private a"
proof -
  have "v4_is_private a" if "(x, p) \<in> set [(v4 0 0 0 0, 8), (v4 10 0 0 0, 8), (v4 127 0 0 0, 8), (v4 172 16 0 0, 12), (v4 192 168 0 0, 16)]"
      "net x p a" for x p
    using v4_private_nets that by (intro v4_private_of [OF that(2)]) (auto simp: list_all_iff)
  then have priv: "net (v4 0 0 0 0) 8 a \<or> net (v4 10 0 0 0) 8 a \<or> net (v4 127 0 0 0) 8 a \<or> net (v4 172 16 0 0) 12 a \<or>
      net (v4 192 168 0 0) 16 a \<Longrightarrow> v4_is_private a"
    by (metis list.set_intros)
  assume "octet1 a \<in> {0, 10, 127} \<or> octet1 a = 172 \<and> 16 \<le> octet2 a \<and> octet2 a \<le> 31 \<or> octet1 a = 192 \<and> octet2 a = 168"
  then show ?thesis by (intro priv) (simp add: net_8 net_16 net_172)
qed

lemma unwrap_V6: "unwrap a = V6 b \<Longrightarrow> ipv4_mapped b = None"
  by (auto simp: unwrap_def split: ip.splits option.splits)

lemma never_classes:
  "never a \<Longrightarrow> is_link_local (unwrap a) \<or> is_multicast (unwrap a) \<or> is_unspecified (unwrap a)"
  by (cases "unwrap a") (auto simp: never_def never_v4_def net_16 net_high)

lemma internal_classes:
  "internal a \<Longrightarrow> is_link_local (unwrap a) \<or> is_multicast (unwrap a) \<or> is_unspecified (unwrap a) \<or>
     is_loopback (unwrap a) \<or> is_private (unwrap a) \<or> is_reserved (unwrap a)"
proof (cases "unwrap a")
  case (V4 b)
  assume "internal a"
  then show ?thesis using V4 private_octets [of b]
    by (auto simp: internal_def internal_v4_def never_v4_def net_16 net_high)
next
  case (V6 b)
  assume i: "internal a"
  have "is_private (V6 b)" if "net (hx [0xFC00]) 7 b"
    using v6_local_net exceptions_apart [OF that] that unwrap_V6 [OF V6] by (force simp: in_nets_def list_ex_iff)
  then show ?thesis using V6 i by (auto simp: internal_def)
qed

lemma never_is_internal: "never a \<Longrightarrow> internal a"
  by (auto simp: never_def internal_def internal_v4_def split: ip.splits)

section \<open>The guards\<close>

lemma blocked_never: "never a \<Longrightarrow> ip_is_blocked a p l \<noteq> None"
  using never_classes [of a] by (auto simp: ip_is_blocked_def Let_def)

lemma blocked_internal: "internal a \<Longrightarrow> ip_is_blocked a False False \<noteq> None"
  using internal_classes [of a] by (auto simp: ip_is_blocked_def Let_def)

lemma fetch_blocks_internal: "internal a \<Longrightarrow> addr_blocked a"
  using internal_classes [of a] by (auto simp: addr_blocked_def Let_def)

lemma first_blocked_None: "first_blocked f as = None \<longleftrightarrow> (\<forall>a \<in> set as. f a = None)"
  by (induction as) (auto split: option.splits)

text \<open>The host a URL names, as the guards read it.\<close>

definition host_of :: "string \<Rightarrow> string" where
  "host_of url = (case urlsplit url of None \<Rightarrow> [] | Some (s, n) \<Rightarrow> py_lower (hostname n))"

definition scheme_of :: "string \<Rightarrow> string" where
  "scheme_of url = (case urlsplit url of None \<Rightarrow> [] | Some (s, n) \<Rightarrow> s)"



text \<open>The IPv6 address \<open>::ffff:a.b.c.d\<close>.\<close>

definition mapped :: "32 word \<Rightarrow> 128 word" where
  "mapped a = push_bit 32 0xFFFF OR ucast a"

lemma ucast_inner: "ucast (push_bit 32 c OR ucast a :: 128 word) = (a :: 32 word)"
  by (rule bit_word_eqI) (auto simp: bit_simps)

lemma ipv4_mapped_mapped: "ipv4_mapped (mapped a) = Some a"
proof -
  have "drop_bit 32 (mapped a) = 0xFFFF"
    by (rule bit_eqI) (auto simp: mapped_def bit_simps bit_numeral_rec bit_1_iff dest: bit_imp_le_length)
  moreover have "ucast (mapped a) = a"
    unfolding mapped_def by (rule ucast_inner)
  ultimately show ?thesis by (simp add: ipv4_mapped_def)
qed

text \<open>
  Writing an IPv4 address inside an IPv6 one (\<open>::ffff:127.0.0.1\<close>) changes no verdict of either guard,
  for any allowances: such an address is judged as the IPv4 address it leads to.
\<close>

theorem mapped_address_same_verdict:
  "ip_is_blocked (V6 (mapped a)) p l = ip_is_blocked (V4 a) p l \<and> addr_blocked (V6 (mapped a)) = addr_blocked (V4 a)"
proof -
  have "unwrap (V6 (mapped a)) = V4 a" "unwrap (V4 a) = V4 a" by (simp_all add: unwrap_def ipv4_mapped_mapped)
  then show ?thesis by (simp add: ip_is_blocked_def addr_blocked_def)
qed

section \<open>Fetching\<close>

text \<open>What a URL that may be requested has: a name or literal all of whose addresses are public.\<close>

definition vetted :: "resolver \<Rightarrow> string \<Rightarrow> bool" where
  "vetted resolve url \<longleftrightarrow> scheme_of url \<in> {''http'', ''https''} \<and> host_of url \<notin> set METADATA_HOSTNAMES \<and>
     (\<exists>as. candidates resolve (host_of url) = Inr (Some as) \<and> list_all (\<lambda>a. \<not> internal a) as)"

lemma check_fetch_vetted: "check_fetch resolve url = Inr () \<Longrightarrow> vetted resolve url"
  using fetch_blocks_internal
  by (auto simp: check_fetch_def vetted_def scheme_of_def host_of_def Let_def list_all_iff list_ex_iff
      split: option.splits sum.splits if_splits) blast+

lemma read_capped_bound: "read_capped cap buf cs = Inr body \<Longrightarrow> int (length buf) \<le> max 0 cap \<Longrightarrow> int (length body) \<le> max 0 cap"
  by (induction cap buf cs rule: read_capped.induct) (auto simp: Let_def split: if_splits)

lemma fetch_cases:
  "fetch_from w cap m n url = (res, reqs) \<Longrightarrow>
     reqs = [] \<and> (\<exists>e. res = Inl e) \<or>
     check_fetch (wb_resolve w n) url = Inr () \<and>
       (reqs = [(n, url)] \<and> ((\<exists>e. res = Inl e) \<or> (\<exists>cs. res = read_capped cap [] cs)) \<or>
        n < m \<and> (\<exists>l reqs'. fetch_from w cap m (Suc n) (wb_join w url l) = (res, reqs') \<and> reqs = (n, url) # reqs'))"
  by (subst (asm) fetch_from.simps) (auto split: sum.splits reply.splits if_splits option.splits prod.splits)

lemma fetch_vetted:
  "fetch_from w cap m n url = (res, reqs) \<Longrightarrow> n \<le> m \<Longrightarrow>
   list_all (\<lambda>(i, u). vetted (wb_resolve w i) u) reqs \<and> length reqs \<le> Suc m - n \<and>
   (case res of Inl e \<Rightarrow> True | Inr body \<Rightarrow> int (length body) \<le> max 0 cap)"
proof (induction "m - n" arbitrary: n url res reqs rule: less_induct)
  case less
  from fetch_cases [OF less(2)] consider
      (stop) "reqs = [] \<or> reqs = [(n, url)] \<and> check_fetch (wb_resolve w n) url = Inr ()"
        "(\<exists>e. res = Inl e) \<or> (\<exists>cs. res = read_capped cap [] cs)"
    | (hop) l reqs' where "check_fetch (wb_resolve w n) url = Inr ()" "n < m" "reqs = (n, url) # reqs'"
        "fetch_from w cap m (Suc n) (wb_join w url l) = (res, reqs')"
    by blast
  then show ?case
  proof cases
    case stop
    then show ?thesis using check_fetch_vetted read_capped_bound [of cap "[]"] less(3) by (auto split: sum.split)
  next
    case hop
    have "m - Suc n < m - n" "Suc n \<le> m" using hop(2) by simp_all
    from less(1) [OF this(1) hop(4) this(2)] show ?thesis using hop(1-3) check_fetch_vetted by auto
  qed
qed

text \<open>
  Property C33.  A fetch that an agent makes: every URL it requests, redirect targets included, was checked at its
  hop, and every address its host had then is public; it makes at most one request more than the
  redirects it allows, and the body it returns respects the cap.
\<close>

theorem every_hop_is_checked:
  "list_all (\<lambda>(i, u). vetted (wb_resolve w i) u) (snd (safe_stream_get w cap m url)) \<and>
   length (snd (safe_stream_get w cap m url)) \<le> Suc m \<and>
   (case fst (safe_stream_get w cap m url) of Inl e \<Rightarrow> True | Inr body \<Rightarrow> int (length body) \<le> max 0 cap)"
  using fetch_vetted [of w cap m 0 url] by (simp add: safe_stream_get_def prod_eq_iff)

section \<open>What the guards let pass\<close>

text \<open>
  A name that does not resolve passes the check of a provider's URL, although a comment of the code
  says that it fails closed; and the shared address space \<open>100.64.0.0/10\<close>, which is not public and
  holds a metadata service of a cloud, is in none of the classes.
\<close>

lemma unresolvable_passes: "validate_base_url (\<lambda>h. None) ''openai'' ''https://later.internal/'' (Some []) = Inr ()"
  by code_simp

lemma shared_space_passes:
  "validate_base_url (\<lambda>h. None) ''openai'' ''https://100.100.100.200/'' (Some []) = Inr () \<and>
   check_fetch (\<lambda>h. None) ''http://100.100.100.200/latest/meta-data/'' = Inr ()"
  by code_simp

end
