(* ===== verification/Presets.thy ===== *)
theory Presets
  imports Tables Counting
begin

text \<open>
  \<open>bp_router/llm/presets.py\<close>: a preset's grammar and bounds, the parameters of a call, the fallback
  chain and the search for cycles in it, the operator's overlay over the catalogue, and the
  removal of comments from a catalogue.  A dictionary of presets is an association list with
  distinct names.  Opening the files, Python's \<open>json\<close> parser and the construction of the entries
  from the parsed objects are left out.
\<close>

type_synonym preset_map = "(string \<times> preset) list"

text \<open>A catalogue entry also records which keys it lists.\<close>

record catalog_preset = preset +
  specified_fields :: "string list"

section \<open>Parameters of a call\<close>

record call_params =
  cp_provider :: string
  cp_model :: string
  cp_key_ref :: string
  cp_temperature :: "rat option"
  cp_max_tokens :: "int option"
  cp_options :: "(string \<times> json) list option"
  cp_key :: "string option"
  cp_base_url :: "string option"

definition or_else :: "'a option \<Rightarrow> 'a option \<Rightarrow> 'a option" where
  "or_else a b = (case a of None \<Rightarrow> b | Some x \<Rightarrow> Some x)"

definition resolve_call_params ::
  "preset \<Rightarrow> rat option \<Rightarrow> int option \<Rightarrow> (string \<times> json) list option \<Rightarrow> call_params" where
  "resolve_call_params p temperature max_tokens options =
     \<lparr>cp_provider = ps_provider p, cp_model = ps_model p, cp_key_ref = ps_key_ref p,
      cp_temperature = or_else temperature (ps_temperature p), cp_max_tokens = or_else max_tokens (ps_max_tokens p),
      cp_options = or_else options (if ps_options p = [] then None else Some (ps_options p)),
      cp_key = ps_key p, cp_base_url = ps_base_url p\<rparr>"

section \<open>Fallback cycles\<close>

datatype colour = White | Gray | Black

text \<open>
  \<open>visit\<close>, the depth-first search of \<open>detect_fallback_cycles\<close>: the colours it ends with, or the text
  of the \<open>PresetCycleError\<close>.  Every call that goes on turns a white name gray.
\<close>

function visit :: "preset_map \<Rightarrow> (string \<Rightarrow> colour) \<Rightarrow> string \<Rightarrow> string list \<Rightarrow> string + (string \<Rightarrow> colour)" where
  "visit ps col name trail =
     (case map_of ps name of
        None \<Rightarrow> Inr col
      | Some p \<Rightarrow>
          (case col name of
             Black \<Rightarrow> Inr col
           | Gray \<Rightarrow> Inl (''fallback cycle: '' @
               join_with '' -> '' (dropWhile (\<lambda>n. n \<noteq> name) trail @ [name]))
           | White \<Rightarrow>
               bindE (case ps_fallback p of
                        None \<Rightarrow> Inr (col(name := Gray))
                      | Some nxt \<Rightarrow> visit ps (col(name := Gray)) nxt (trail @ [name]))
                 (\<lambda>col'. Inr (col'(name := Black)))))"
  by pat_completeness auto

lemma gray_shrinks:
  "map_of ps name = Some p \<Longrightarrow> col name = White \<Longrightarrow>
   length (filter (\<lambda>n. (col(name := Gray)) n = White) (map fst ps)) < length (filter (\<lambda>n. col n = White) (map fst ps))"
  by (rule filter_shrinks [where x = name]) (auto dest: map_of_SomeD intro: rev_image_eqI split: if_splits)

termination visit
  by (relation "measure (\<lambda>(ps, col, name, trail). length (filter (\<lambda>n. col n = White) (map fst ps)))")
    (simp_all only: wf_measure in_measure prod.case gray_shrinks)

declare visit.simps [simp del]

fun visit_each :: "preset_map \<Rightarrow> (string \<Rightarrow> colour) \<Rightarrow> string list \<Rightarrow> string + (string \<Rightarrow> colour)" where
  "visit_each ps col [] = Inr col"
| "visit_each ps col (n # ns) =
     bindE (if col n = White then visit ps col n [] else Inr col) (\<lambda>col'. visit_each ps col' ns)"

definition detect_fallback_cycles :: "preset_map \<Rightarrow> string + unit" where
  "detect_fallback_cycles ps = map_sum id (\<lambda>_. ()) (visit_each ps (\<lambda>_. White) (map fst ps))"

section \<open>The fallback chain\<close>

function walk_from :: "preset_map \<Rightarrow> string list \<Rightarrow> string option \<Rightarrow> preset list" where
  "walk_from ps seen cur =
     (case cur of
        None \<Rightarrow> []
      | Some n \<Rightarrow>
          (case map_of ps n of
             None \<Rightarrow> []
           | Some p \<Rightarrow> if n \<in> set seen then [] else p # walk_from ps (n # seen) (ps_fallback p)))"
  by pat_completeness auto

lemma unseen_shrinks:
  "map_of ps n = Some p \<Longrightarrow> n \<notin> set seen \<Longrightarrow>
   length (filter (\<lambda>k. k \<notin> set (n # seen)) (map fst ps)) < length (filter (\<lambda>k. k \<notin> set seen) (map fst ps))"
  by (rule filter_shrinks [where x = n]) (auto dest: map_of_SomeD intro: rev_image_eqI)

termination walk_from
  by (relation "measure (\<lambda>(ps, seen, cur). length (filter (\<lambda>k. k \<notin> set seen) (map fst ps)))")
    (simp_all only: wf_measure in_measure prod.case unseen_shrinks not_False_eq_True)

declare walk_from.simps [simp del]

definition walk_fallback_chain :: "preset_map \<Rightarrow> string \<Rightarrow> preset list" where
  "walk_fallback_chain ps start = walk_from ps [] (Some start)"

section \<open>Comments in a catalogue\<close>

datatype scan = Plain | Quoted | LineComment | BlockComment

fun strip_from :: "scan \<Rightarrow> string \<Rightarrow> string" where
  "strip_from m [] = []"
| "strip_from Plain (c # cs) =
     (if c = CHR 0x22 then c # strip_from Quoted cs
      else if c = CHR ''/'' \<and> (case cs of d # _ \<Rightarrow> d = CHR ''/'' | [] \<Rightarrow> False) then strip_from LineComment (tl cs)
      else if c = CHR ''/'' \<and> (case cs of d # _ \<Rightarrow> d = CHR ''*'' | [] \<Rightarrow> False) then strip_from BlockComment (tl cs)
      else c # strip_from Plain cs)"
| "strip_from Quoted (c # cs) =
     (if c = CHR 0x5C \<and> cs \<noteq> [] then c # hd cs # strip_from Quoted (tl cs)
      else c # strip_from (if c = CHR 0x22 then Plain else Quoted) cs)"
| "strip_from LineComment (c # cs) = (if c = newline then c # strip_from Plain cs else strip_from LineComment cs)"
| "strip_from BlockComment (c # cs) =
     (case cs of
        [] \<Rightarrow> []
      | d # ds \<Rightarrow> if c = CHR ''*'' \<and> d = CHR ''/'' then strip_from Plain ds
                 else (if c = newline then [c] else []) @ strip_from BlockComment cs)"

definition strip_jsonc_comments :: "string \<Rightarrow> string" where
  "strip_jsonc_comments s = strip_from Plain s"

section \<open>The catalogue and the operator's overlay\<close>

text \<open>\<open>default_presets_with_overlay\<close> on the two parsed lists: the overlay wins, its own names go last.\<close>

definition with_overlay :: "catalog_preset list \<Rightarrow> catalog_preset list \<Rightarrow> catalog_preset list" where
  "with_overlay base overlay =
     (if overlay = [] then base
      else let by_name = foldl (\<lambda>m p. dict_set (ps_name p) p m) [] (base @ overlay);
               base_names = map ps_name base
           in List.map_filter (map_of by_name) base_names @ filter (\<lambda>p. ps_name p \<notin> set base_names) overlay)"

section \<open>Grammar and bounds\<close>

definition preset_char :: "char \<Rightarrow> bool" where
  "preset_char c = (is_lower c \<or> is_digit c \<or> c = CHR ''_'' \<or> c = CHR ''-'')"

definition preset_name_body :: "string \<Rightarrow> bool" where
  "preset_name_body s = (case s of [] \<Rightarrow> False | c # cs \<Rightarrow> is_lower c \<and> length cs \<le> 63 \<and> list_all preset_char cs)"

definition is_valid_preset_name :: "string \<Rightarrow> bool" where
  "is_valid_preset_name s = preset_name_body (chomp s)"

definition is_valid_min_user_level :: "string \<Rightarrow> bool" where
  "is_valid_min_user_level s = (chomp s = ''*'' \<or> is_valid_level s)"

definition SUPPORTED_PROVIDERS :: "string list" where
  "SUPPORTED_PROVIDERS = [''gemini'', ''anthropic'', ''openai'', ''openai-embeddings'', ''openai-compatible'',
     ''openai-compatible-embeddings'']"

definition PROVIDERS_REQUIRING_BASE_URL :: "string list" where
  "PROVIDERS_REQUIRING_BASE_URL = [''openai-compatible'', ''openai-compatible-embeddings'']"

definition is_valid_provider :: "string \<Rightarrow> bool" where
  "is_valid_provider s = (s \<in> set SUPPORTED_PROVIDERS)"

definition temperature_in_range :: "rat \<Rightarrow> bool" where
  "temperature_in_range v = (0 \<le> v \<and> v \<le> 2)"

definition max_tokens_in_range :: "int \<Rightarrow> bool" where
  "max_tokens_in_range v = (1 \<le> v)"

definition MAX_RETRIES_MAX :: int where
  "MAX_RETRIES_MAX = 10"

definition max_retries_in_range :: "int \<Rightarrow> bool" where
  "max_retries_in_range v = (0 \<le> v \<and> v \<le> MAX_RETRIES_MAX)"

definition is_valid_base_url_scheme :: "string \<Rightarrow> bool" where
  "is_valid_base_url_scheme url = (starts_with ''http://'' url \<or> starts_with ''https://'' url)"

definition provider_requires_base_url :: "string \<Rightarrow> bool" where
  "provider_requires_base_url s = (s \<in> set PROVIDERS_REQUIRING_BASE_URL)"

end
