(* ===== verification/PresetAdmin.thy ===== *)
theory PresetAdmin
  imports RuleAdmin Presets UrlGuard
begin

text \<open>
  The presets of the LLM service: the statements of \<open>bp_router/db/queries.py\<close> on \<open>llm_presets\<close>, the
  synchronisation of the catalogue into that table and of the table into memory
  (\<open>LlmService.load_presets_from_db\<close>), and the endpoints \<open>/admin/llm/presets\<close> of
  \<open>bp_router/api/admin.py\<close>.
\<close>

text \<open>
  What a request on presets takes from outside: the parsed catalogue with the operator's overlay, the
  resolver, the setting of allowed hosts, and how a float is written in an audit payload.
\<close>

record preset_env =
  pe_catalog :: "catalog_preset list"
  pe_resolve :: resolver
  pe_allowed :: "string option"
  pe_float :: "rat \<Rightarrow> json"

section \<open>The table\<close>

definition to_preset :: "preset_row \<Rightarrow> preset" where
  "to_preset x = preset.truncate x"

definition list_llm_presets :: "db \<Rightarrow> preset_row list" where
  "list_llm_presets d = sort_key ps_name (llm_presets d)"

definition get_llm_preset :: "string \<Rightarrow> db \<Rightarrow> preset_row option" where
  "get_llm_preset n d = tbl_get ps_name n (llm_presets d)"

definition preset_row_check :: "preset_row \<Rightarrow> db_error option" where
  "preset_row_check x =
     (if provider_requires_base_url (ps_provider x) \<and> \<not> truthy (ps_base_url x)
        then Some (CheckViolation ''llm_presets_base_url_check'')
      else if (case ps_max_tokens x of None \<Rightarrow> False | Some v \<Rightarrow> \<not> 0 < v)
        then Some (CheckViolation ''llm_presets_default_max_tokens_check'')
      else if (case ps_temperature x of None \<Rightarrow> False | Some v \<Rightarrow> \<not> temperature_in_range v)
        then Some (CheckViolation ''llm_presets_default_temperature_check'')
      else if \<not> max_retries_in_range (ps_retries x) then Some (CheckViolation ''llm_presets_max_retries_check'')
      else if \<not> rule_level_check (ps_level x) then Some (CheckViolation ''llm_presets_min_user_level_check'')
      else if \<not> preset_name_body (ps_name x) then Some (CheckViolation ''llm_presets_name_check'')
      else if \<not> is_valid_provider (ps_provider x) then Some (CheckViolation ''llm_presets_provider_check'')
      else None)"

definition preset_ints :: "preset_row \<Rightarrow> bool" where
  "preset_ints x = (int4 (ps_retries x) \<and> (case ps_max_tokens x of None \<Rightarrow> True | Some v \<Rightarrow> int4 v))"

definition fallback_known :: "preset_row \<Rightarrow> preset_row list \<Rightarrow> bool" where
  "fallback_known x rows = (case ps_fallback x of None \<Rightarrow> True | Some f \<Rightarrow> f \<in> ps_name ` set rows)"

definition insert_llm_preset :: "preset_row \<Rightarrow> db \<Rightarrow> db_error + preset_row \<times> db" where
  "insert_llm_preset x d =
     (if \<not> preset_ints x then Inl (DataError ''llm_presets'')
      else case preset_row_check x of
        Some e \<Rightarrow> Inl e
      | None \<Rightarrow>
          if ps_name x \<in> ps_name ` set (llm_presets d) then Inl (UniqueViolation ''llm_presets_pkey'')
          else if (case lp_by x of None \<Rightarrow> False | Some u \<Rightarrow> get_user_by_id u d = None)
            then Inl (ForeignKeyViolation ''llm_presets_created_by_fkey'')
          else if \<not> fallback_known x (llm_presets d @ [x])
            then Inl (ForeignKeyViolation ''llm_presets_fallback_preset_fkey'')
          else Inr (x, d\<lparr>llm_presets := llm_presets d @ [x]\<rparr>))"

text \<open>\<open>ON DELETE SET NULL\<close>.\<close>

definition drop_presets :: "(preset_row \<Rightarrow> bool) \<Rightarrow> db \<Rightarrow> db" where
  "drop_presets gone d =
     (let left = filter (\<lambda>x. \<not> gone x) (llm_presets d);
          names = ps_name ` set (filter gone (llm_presets d))
      in d\<lparr>llm_presets := map (\<lambda>x. case ps_fallback x of
             Some f \<Rightarrow> if f \<in> names then x\<lparr>ps_fallback := None\<rparr> else x
           | None \<Rightarrow> x) left\<rparr>)"

definition delete_llm_preset_row :: "string \<Rightarrow> db \<Rightarrow> db" where
  "delete_llm_preset_row n = drop_presets (\<lambda>x. ps_name x = n)"

definition delete_stale_managed_presets :: "string list \<Rightarrow> db \<Rightarrow> db" where
  "delete_stale_managed_presets keep = drop_presets (\<lambda>x. lp_managed x \<and> ps_name x \<notin> set keep)"

section \<open>The catalogue into the table\<close>

text \<open>The columns the entry pins, taken from the entry; the others from the row.\<close>

definition pin :: "string list \<Rightarrow> string \<Rightarrow> 'a \<Rightarrow> 'a \<Rightarrow> 'a" where
  "pin listed k new old = (if k \<in> set listed then new else old)"

definition apply_pins :: "catalog_preset \<Rightarrow> time \<Rightarrow> preset_row \<Rightarrow> preset_row" where
  "apply_pins p now x = x\<lparr>
     ps_description := pin (specified_fields p) ''description'' (ps_description p) (ps_description x),
     ps_provider := pin (specified_fields p) ''provider'' (ps_provider p) (ps_provider x),
     ps_model := pin (specified_fields p) ''concrete_model'' (ps_model p) (ps_model x),
     ps_key_ref := pin (specified_fields p) ''api_key_ref'' (ps_key_ref p) (ps_key_ref x),
     ps_key := pin (specified_fields p) ''api_key'' (ps_key p) (ps_key x),
     ps_base_url := pin (specified_fields p) ''base_url'' (ps_base_url p) (ps_base_url x),
     ps_level := pin (specified_fields p) ''min_user_level'' (ps_level p) (ps_level x),
     ps_temperature := pin (specified_fields p) ''default_temperature'' (ps_temperature p) (ps_temperature x),
     ps_max_tokens := pin (specified_fields p) ''default_max_tokens'' (ps_max_tokens p) (ps_max_tokens x),
     ps_options := pin (specified_fields p) ''default_provider_options'' (ps_options p) (ps_options x),
     ps_fallback := pin (specified_fields p) ''fallback_preset'' (ps_fallback p) (ps_fallback x),
     ps_retries := pin (specified_fields p) ''max_retries'' (ps_retries p) (ps_retries x),
     lp_updated := now\<rparr>"

definition managed_row :: "catalog_preset \<Rightarrow> time \<Rightarrow> preset_row" where
  "managed_row p now = preset.extend (preset.truncate p)
     (preset_row.fields True now now None)"

text \<open>
  The row proposed by the entry is checked first; on a conflict of names only a managed row is
  updated, and its columns are checked again.
\<close>

definition upsert_managed_preset :: "time \<Rightarrow> catalog_preset \<Rightarrow> db \<Rightarrow> db_error + db" where
  "upsert_managed_preset now p d =
     (let x = managed_row p now
      in if \<not> preset_ints x then Inl (DataError ''llm_presets'')
         else case preset_row_check x of
           Some e \<Rightarrow> Inl e
         | None \<Rightarrow>
             (case get_llm_preset (ps_name p) d of
                None \<Rightarrow>
                  if fallback_known x (llm_presets d @ [x]) then Inr (d\<lparr>llm_presets := llm_presets d @ [x]\<rparr>)
                  else Inl (ForeignKeyViolation ''llm_presets_fallback_preset_fkey'')
              | Some y \<Rightarrow>
                  if \<not> lp_managed y then Inr d
                  else (case preset_row_check (apply_pins p now y) of
                          Some e \<Rightarrow> Inl e
                        | None \<Rightarrow>
                            if fallback_known (apply_pins p now y) (llm_presets d)
                            then Inr (d\<lparr>llm_presets := tbl_upd ps_name (ps_name p) (apply_pins p now) (llm_presets d)\<rparr>)
                            else Inl (ForeignKeyViolation ''llm_presets_fallback_preset_fkey''))))"

fun upsert_all :: "time \<Rightarrow> catalog_preset list \<Rightarrow> db \<Rightarrow> db_error + db" where
  "upsert_all now [] d = Inr d"
| "upsert_all now (p # ps) d = bindE (upsert_managed_preset now p d) (upsert_all now ps)"

definition sync_catalog :: "time \<Rightarrow> catalog_preset list \<Rightarrow> db \<Rightarrow> db_error + db" where
  "sync_catalog now cat d = upsert_all now cat (delete_stale_managed_presets (map ps_name cat) d)"

section \<open>The table into memory\<close>

definition preset_map_of :: "preset_row list \<Rightarrow> preset_map" where
  "preset_map_of rows = map (\<lambda>x. (ps_name x, to_preset x)) rows"

text \<open>A map with a cycle is not published; the old one goes on serving.\<close>

definition publish_presets :: "preset_row list \<Rightarrow> 'r router \<Rightarrow> nat \<times> 'r router" where
  "publish_presets rows r =
     (let m = preset_map_of rows
      in case detect_fallback_cycles m of
           Inl e \<Rightarrow> (length (presets r), r)
         | Inr _ \<Rightarrow> (length m, r\<lparr>presets := m, adapters := []\<rparr>))"

definition reload_presets :: "'r api_env \<Rightarrow> preset_env \<Rightarrow> ('r, nat) http" where
  "reload_presets en pe =
     thenH (othersH en)
     (thenH (answer_only db_http (sync_catalog (ae_now en) (pe_catalog pe)))
     (thenH (othersH en)
     (bindH (readH list_llm_presets) (\<lambda>rows. stepH (publish_presets rows)))))"

section \<open>Validation of a request\<close>

text \<open>\<open>None\<close> is a field that was not sent, or sent as \<open>null\<close>: it is not checked here.\<close>

record preset_fields =
  vf_name :: "string option"
  vf_provider :: "string option"
  vf_level :: "level option"
  vf_temperature :: "rat option"
  vf_max_tokens :: "int option"
  vf_retries :: "int option"
  vf_fallback :: "string option"

definition holds_if :: "('a \<Rightarrow> bool) \<Rightarrow> 'a option \<Rightarrow> bool" where
  "holds_if p x = (case x of None \<Rightarrow> True | Some v \<Rightarrow> p v)"

definition validate_preset_payload :: "preset_fields \<Rightarrow> ('r, unit) http" where
  "validate_preset_payload f =
     thenH (guardH (holds_if is_valid_preset_name (vf_name f)) 400 ''preset name must match ^[a-z][a-z0-9_-]{0,63}$'')
     (thenH (guardH (holds_if is_valid_provider (vf_provider f)) 400 (''unsupported provider: '' @ py_repr_opt (vf_provider f)))
     (thenH (guardH (holds_if is_valid_min_user_level (vf_level f)) 400
               (''min_user_level must be '' @ join_with '' | '' (map py_repr [''*'', ''admin'', ''service'', ''tierN''])))
     (thenH (guardH (holds_if temperature_in_range (vf_temperature f)) 400 ''default_temperature must be in [0.0, 2.0]'')
     (thenH (guardH (holds_if max_tokens_in_range (vf_max_tokens f)) 400 ''default_max_tokens must be a positive integer'')
     (thenH (guardH (holds_if max_retries_in_range (vf_retries f)) 400 ''max_retries must be in [0, 10]'')
     (guardH (holds_if (\<lambda>v. v = [] \<or> is_valid_preset_name v) (vf_fallback f)) 400
               ''fallback_preset must match the preset-name grammar'')))))) "

text \<open>
  \<open>_check_provider_base_url_consistency\<close>.  A provider of \<open>null\<close> (a patch may send it) passes the
  membership tests and fails with an \<open>AttributeError\<close> where its text is needed.
\<close>

definition url_http :: "url_error \<Rightarrow> http_error" where
  "url_http e = (case e of BadUrl m \<Rightarrow> (400, m) | LibraryError \<Rightarrow> (500, ''internal error''))"

definition check_null_provider :: "string list \<Rightarrow> string \<Rightarrow> url_error + unit" where
  "check_null_provider allowed url =
     (case urlsplit url of
        None \<Rightarrow> Inl LibraryError
      | Some (scheme, netloc) \<Rightarrow>
          (let host = py_lower (hostname netloc)
           in if scheme \<notin> {''http'', ''https''}
                then Inl (BadUrl (''base_url must use http(s) scheme; got '' @ py_repr scheme))
              else if host = [] then Inl (BadUrl ''base_url has no hostname'')
              else if host \<in> set allowed then Inr ()
              else if host \<in> set METADATA_HOSTNAMES
                then Inl (BadUrl (''base_url host '' @ py_repr host @ '' targets a cloud-metadata endpoint''))
              else Inl LibraryError))"

definition check_base_url :: "preset_env \<Rightarrow> string option \<Rightarrow> string option \<Rightarrow> ('r, unit) http" where
  "check_base_url pe provider base_url =
     (let allowed = parse_allowed_hosts (pe_allowed pe)
      in thenH (guardH (\<not> (holds_if provider_requires_base_url provider \<and> provider \<noteq> None \<and> \<not> truthy base_url)) 400
                  (str_opt provider @ '' preset requires a base_url''))
         (if \<not> truthy base_url then retH ()
          else liftH (map_sum url_http id
                 (case provider of
                    Some p \<Rightarrow> validate_base_url (pe_resolve pe) p (the base_url) (Some allowed)
                  | None \<Rightarrow> check_null_provider allowed (the base_url)))))"

section \<open>Endpoints\<close>

text \<open>What a response shows: everything but the key, of which only that there is one.\<close>

record preset_view =
  pv_preset :: preset       \<comment> \<open>with no key\<close>
  pv_has_key :: bool
  pv_managed :: bool
  pv_created :: time
  pv_updated :: time
  pv_by :: "user_id option"

definition preset_to_view :: "preset_row \<Rightarrow> preset_view" where
  "preset_to_view x = \<lparr>pv_preset = (to_preset x)\<lparr>ps_key := None\<rparr>, pv_has_key = truthy (ps_key x),
     pv_managed = lp_managed x, pv_created = lp_created x, pv_updated = lp_updated x, pv_by = lp_by x\<rparr>"

definition check_fallback_post_write :: "('r, unit) http" where
  "check_fallback_post_write =
     bindH (readH list_llm_presets) (\<lambda>rows.
     case detect_fallback_cycles (preset_map_of rows) of
       Inl msg \<Rightarrow> raiseH 400 msg
     | Inr _ \<Rightarrow> retH ())"

definition list_presets_api :: "session_principal \<Rightarrow> ('r, preset_view list) http" where
  "list_presets_api p0 =
     bindH (liftH (require_admin p0)) (\<lambda>p. bindH (readH list_llm_presets) (\<lambda>rows. retH (map preset_to_view rows)))"

definition get_preset_api :: "session_principal \<Rightarrow> string \<Rightarrow> ('r, preset_view) http" where
  "get_preset_api p0 n =
     bindH (liftH (require_admin p0)) (\<lambda>p.
     bindH (readH (get_llm_preset n)) (\<lambda>found.
     bindH (someH found 404 ''preset not found'') (\<lambda>x. retH (preset_to_view x))))"

record create_preset =
  cp_name :: string
  cp_description :: "string option"
  cp_provider_name :: string
  cp_concrete_model :: string
  cp_api_key_ref :: string
  cp_api_key :: "string option"
  cp_url :: "string option"
  cp_level :: level
  cp_default_temperature :: "rat option"
  cp_default_max_tokens :: "int option"
  cp_default_options :: "(string \<times> json) list option"
  cp_fallback :: "string option"
  cp_retries :: int

text \<open>\<open>x or None\<close> on text.\<close>

definition nonempty :: "string option \<Rightarrow> string option" where
  "nonempty x = (if truthy x then x else None)"

definition created_row :: "create_preset \<Rightarrow> time \<Rightarrow> user_id \<Rightarrow> preset_row" where
  "created_row q now by = \<lparr>ps_name = cp_name q, ps_description = cp_description q, ps_provider = cp_provider_name q,
     ps_model = cp_concrete_model q, ps_key_ref = cp_api_key_ref q, ps_key = nonempty (cp_api_key q),
     ps_base_url = nonempty (cp_url q), ps_level = cp_level q, ps_temperature = cp_default_temperature q,
     ps_max_tokens = cp_default_max_tokens q,
     ps_options = (case cp_default_options q of None \<Rightarrow> [] | Some kvs \<Rightarrow> kvs),
     ps_fallback = nonempty (cp_fallback q), ps_retries = cp_retries q,
     lp_managed = False, lp_created = now, lp_updated = now, lp_by = Some by\<rparr>"

text \<open>An audit payload masks the key.\<close>

definition mask_key :: "string option \<Rightarrow> json" where
  "mask_key k = (if truthy k then JStr ''***'' else opt_json JStr k)"

definition dump_create :: "preset_env \<Rightarrow> create_preset \<Rightarrow> (string \<times> json) list" where
  "dump_create pe q = [(''name'', JStr (cp_name q)), (''description'', opt_json JStr (cp_description q)),
     (''provider'', JStr (cp_provider_name q)), (''concrete_model'', JStr (cp_concrete_model q)),
     (''api_key_ref'', JStr (cp_api_key_ref q)), (''api_key'', mask_key (cp_api_key q)),
     (''base_url'', opt_json JStr (cp_url q)), (''min_user_level'', JStr (cp_level q)),
     (''default_temperature'', opt_json (pe_float pe) (cp_default_temperature q)),
     (''default_max_tokens'', opt_json JInt (cp_default_max_tokens q)),
     (''default_provider_options'', opt_json JObj (cp_default_options q)),
     (''fallback_preset'', opt_json JStr (cp_fallback q)), (''max_retries'', JInt (cp_retries q))]"

definition preset_audit ::
  "'r api_env \<Rightarrow> session_principal \<Rightarrow> string \<Rightarrow> string \<Rightarrow> (string \<times> json) list \<Rightarrow> ('r, unit) http" where
  "preset_audit en p event n payload =
     auditH en ''admin'' (Some (sp_user p)) event (Some ''llm_preset'') (Some n) (Some payload)"

definition create_conflict :: "create_preset \<Rightarrow> db_error \<Rightarrow> http_error" where
  "create_conflict q e = (case e of
     UniqueViolation c \<Rightarrow> (409, ''preset '' @ py_repr (cp_name q) @ '' already exists'')
   | ForeignKeyViolation c \<Rightarrow> (400, ''unknown fallback_preset: '' @ py_repr_opt (nonempty (cp_fallback q)))
   | _ \<Rightarrow> db_http e)"

definition create_llm_preset ::
  "'r api_env \<Rightarrow> preset_env \<Rightarrow> session_principal \<Rightarrow> create_preset \<Rightarrow> ('r, preset_view) http" where
  "create_llm_preset en pe p0 q =
     bindH (liftH (require_admin p0)) (\<lambda>p.
     thenH (validate_preset_payload \<lparr>vf_name = Some (cp_name q), vf_provider = Some (cp_provider_name q),
              vf_level = Some (cp_level q), vf_temperature = cp_default_temperature q,
              vf_max_tokens = cp_default_max_tokens q, vf_retries = Some (cp_retries q), vf_fallback = cp_fallback q\<rparr>)
     (thenH (check_base_url pe (Some (cp_provider_name q)) (nonempty (cp_url q)))
     (bindH (transaction
        (bindH (answerH (create_conflict q) (insert_llm_preset (created_row q (ae_now en) (sp_user p)))) (\<lambda>row.
         thenH check_fallback_post_write
         (thenH (preset_audit en p ''llm_preset.created'' (cp_name q) (dump_create pe q))
         (retH row))))) (\<lambda>row.
      bindH (reload_presets en pe) (\<lambda>n. retH (preset_to_view row))))))"

text \<open>A patch, as it was sent: a field not sent, sent as \<open>null\<close>, or with a value.\<close>

record preset_patch =
  pp_description :: "string option option"
  pp_provider :: "string option option"
  pp_model :: "string option option"
  pp_key_ref :: "string option option"
  pp_key :: "string option option"
  pp_base_url :: "string option option"
  pp_level :: "level option option"
  pp_temperature :: "rat option option"
  pp_max_tokens :: "int option option"
  pp_options :: "(string \<times> json) list option option"
  pp_fallback :: "string option option"
  pp_retries :: "int option option"

definition no_preset_fields :: "preset_patch \<Rightarrow> bool" where
  "no_preset_fields q = (pp_description q = None \<and> pp_provider q = None \<and> pp_model q = None \<and> pp_key_ref q = None \<and>
     pp_key q = None \<and> pp_base_url q = None \<and> pp_level q = None \<and> pp_temperature q = None \<and> pp_max_tokens q = None \<and>
     pp_options q = None \<and> pp_fallback q = None \<and> pp_retries q = None)"

text \<open>An empty text for the fallback or the URL is \<open>null\<close>; an empty key is as if not sent.\<close>

definition clear_empty :: "string option option \<Rightarrow> string option option" where
  "clear_empty f = (if f = Some (Some []) then Some None else f)"

definition normalise_patch :: "preset_patch \<Rightarrow> bool \<Rightarrow> preset_patch option" where
  "normalise_patch q clear =
     (let key = (if pp_key q = Some (Some []) then None else pp_key q)
      in if clear \<and> (case key of Some (Some k) \<Rightarrow> True | _ \<Rightarrow> False) then None
         else Some (q\<lparr>pp_key := (if clear then Some None else key), pp_fallback := clear_empty (pp_fallback q),
                     pp_base_url := clear_empty (pp_base_url q)\<rparr>))"

definition nulled_preset :: "preset_patch \<Rightarrow> string list" where
  "nulled_preset q = map fst (filter snd
     [(''provider'', pp_provider q = Some None), (''concrete_model'', pp_model q = Some None),
      (''api_key_ref'', pp_key_ref q = Some None), (''min_user_level'', pp_level q = Some None),
      (''max_retries'', pp_retries q = Some None)])"

definition patch_preset :: "preset_patch \<Rightarrow> time \<Rightarrow> preset_row \<Rightarrow> preset_row" where
  "patch_preset q now x = x\<lparr>ps_description := sent_opt (pp_description q) (ps_description x),
     ps_provider := sent (pp_provider q) (ps_provider x), ps_model := sent (pp_model q) (ps_model x),
     ps_key_ref := sent (pp_key_ref q) (ps_key_ref x), ps_key := sent_opt (pp_key q) (ps_key x),
     ps_base_url := sent_opt (pp_base_url q) (ps_base_url x), ps_level := sent (pp_level q) (ps_level x),
     ps_temperature := sent_opt (pp_temperature q) (ps_temperature x),
     ps_max_tokens := sent_opt (pp_max_tokens q) (ps_max_tokens x),
     ps_options := (case pp_options q of None \<Rightarrow> ps_options x | Some None \<Rightarrow> [] | Some (Some kvs) \<Rightarrow> kvs),
     ps_fallback := sent_opt (pp_fallback q) (ps_fallback x), ps_retries := sent (pp_retries q) (ps_retries x),
     lp_updated := now\<rparr>"

definition update_llm_preset_row :: "string \<Rightarrow> preset_patch \<Rightarrow> time \<Rightarrow> db \<Rightarrow> db_error + preset_row option \<times> db" where
  "update_llm_preset_row n q now d =
     (if no_preset_fields q then Inr (get_llm_preset n d, d)
      else if \<not> (sent_ok int4 (pp_max_tokens q) \<and> sent_ok int4 (pp_retries q)) then Inl (DataError ''llm_presets'')
      else case get_llm_preset n d of
        None \<Rightarrow> Inr (None, d)
      | Some x \<Rightarrow>
          (case nulled_preset q of
             c # _ \<Rightarrow> Inl (NotNullViolation c)
           | [] \<Rightarrow>
               (case preset_row_check (patch_preset q now x) of
                  Some e \<Rightarrow> Inl e
                | None \<Rightarrow>
                    if fallback_known (patch_preset q now x) (llm_presets d)
                    then Inr (Some (patch_preset q now x),
                              d\<lparr>llm_presets := tbl_upd ps_name n (patch_preset q now) (llm_presets d)\<rparr>)
                    else Inl (ForeignKeyViolation ''llm_presets_fallback_preset_fkey''))))"

definition update_conflict :: "preset_patch \<Rightarrow> db_error \<Rightarrow> http_error" where
  "update_conflict q e = (case e of
     ForeignKeyViolation c \<Rightarrow> (400, ''unknown fallback_preset: '' @
       py_repr_opt (case pp_fallback q of None \<Rightarrow> None | Some f \<Rightarrow> f))
   | NotNullViolation c \<Rightarrow>
       (400, ''column '' @ py_repr c @ '' cannot be set to null; omit the field to leave it unchanged'')
   | _ \<Rightarrow> db_http e)"

definition flat :: "'a option option \<Rightarrow> 'a option" where
  "flat f = (case f of None \<Rightarrow> None | Some v \<Rightarrow> v)"

text \<open>The check on what the row would become, on a read of its own.\<close>

definition check_patched_url :: "preset_env \<Rightarrow> string \<Rightarrow> preset_patch \<Rightarrow> ('r, unit) http" where
  "check_patched_url pe n q =
     (if pp_provider q = None \<and> pp_base_url q = None then retH ()
      else bindH (readH (get_llm_preset n)) (\<lambda>found.
        case found of
          None \<Rightarrow> retH ()
        | Some x \<Rightarrow>
            check_base_url pe (case pp_provider q of None \<Rightarrow> Some (ps_provider x) | Some v \<Rightarrow> v)
              (sent_opt (pp_base_url q) (ps_base_url x))))"

text \<open>The columns of an audit payload come in the order of the model; a cleared key is recorded as such.\<close>

definition dump_preset_patch :: "preset_env \<Rightarrow> preset_patch \<Rightarrow> bool \<Rightarrow> (string \<times> json) list" where
  "dump_preset_patch pe q clear = List.map_filter (\<lambda>(k, v). map_option (Pair k) v)
     [(''description'', map_option (opt_json JStr) (pp_description q)),
      (''provider'', map_option (opt_json JStr) (pp_provider q)),
      (''concrete_model'', map_option (opt_json JStr) (pp_model q)),
      (''api_key_ref'', map_option (opt_json JStr) (pp_key_ref q)),
      (''api_key'', if clear then None else map_option mask_key (pp_key q)),
      (''base_url'', map_option (opt_json JStr) (pp_base_url q)),
      (''min_user_level'', map_option (opt_json JStr) (pp_level q)),
      (''default_temperature'', map_option (opt_json (pe_float pe)) (pp_temperature q)),
      (''default_max_tokens'', map_option (opt_json JInt) (pp_max_tokens q)),
      (''default_provider_options'', map_option (opt_json JObj) (pp_options q)),
      (''fallback_preset'', map_option (opt_json JStr) (pp_fallback q)),
      (''max_retries'', map_option (opt_json JInt) (pp_retries q)),
      (''api_key_cleared'', if clear then Some (JBool True) else None)]"

definition update_llm_preset ::
  "'r api_env \<Rightarrow> preset_env \<Rightarrow> session_principal \<Rightarrow> string \<Rightarrow> preset_patch \<Rightarrow> bool \<Rightarrow> ('r, preset_view) http" where
  "update_llm_preset en pe p0 n q0 clear =
     bindH (liftH (require_admin p0)) (\<lambda>p.
     bindH (someH (normalise_patch q0 clear) 400 ''api_key and clear_api_key are mutually exclusive'') (\<lambda>q.
     thenH (validate_preset_payload \<lparr>vf_name = None, vf_provider = flat (pp_provider q), vf_level = flat (pp_level q),
              vf_temperature = flat (pp_temperature q), vf_max_tokens = flat (pp_max_tokens q),
              vf_retries = flat (pp_retries q), vf_fallback = flat (pp_fallback q)\<rparr>)
     (thenH (check_patched_url pe n q)
     (thenH (guardH (pp_fallback q \<noteq> Some (Some n)) 400 (''a preset'' @ [CHR 0x27] @ ''s fallback_preset cannot reference itself''))
     (thenH (othersH en)
     (bindH (transaction
        (bindH (answerH (update_conflict q) (update_llm_preset_row n q (ae_now en))) (\<lambda>found.
         bindH (someH found 404 ''preset not found'') (\<lambda>row.
         thenH check_fallback_post_write
         (thenH (preset_audit en p ''llm_preset.updated'' n (dump_preset_patch pe q clear))
         (retH row)))))) (\<lambda>row.
      bindH (reload_presets en pe) (\<lambda>n. retH (preset_to_view row)))))))))"

definition delete_llm_preset :: "'r api_env \<Rightarrow> preset_env \<Rightarrow> session_principal \<Rightarrow> string \<Rightarrow> ('r, unit) http" where
  "delete_llm_preset en pe p0 n =
     bindH (liftH (require_admin p0)) (\<lambda>p.
     thenH (transaction
       (bindH (readH (get_llm_preset n)) (\<lambda>found.
        bindH (someH found 404 ''preset not found'') (\<lambda>x.
        thenH (runH (delete_llm_preset_row n))
        (preset_audit en p ''llm_preset.deleted'' n
           [(''provider'', JStr (ps_provider x)), (''concrete_model'', JStr (ps_model x))])))))
     (bindH (reload_presets en pe) (\<lambda>k. retH ())))"

end
