(* ===== verification/PresetProps.thy ===== *)
theory PresetProps
  imports Presets AuditLog
begin

text \<open>
  Presets: the search for cycles reports one exactly when the fallback relation has one, the
  fallback chain is the maximal path from a preset, and the removal of comments leaves a document
  without comments alone.
\<close>

section \<open>The fallback relation\<close>

text \<open>An edge leads from a preset to the fallback it names, when there is such a preset.\<close>

definition fallback_edges :: "preset_map \<Rightarrow> (string \<times> string) set" where
  "fallback_edges ps = {(a, b). \<exists>p q. map_of ps a = Some p \<and> ps_fallback p = Some b \<and> map_of ps b = Some q}"

text \<open>Following the fallbacks from a name comes to an end.\<close>

inductive settles :: "preset_map \<Rightarrow> string \<Rightarrow> bool" for ps where
  unknown: "map_of ps n = None \<Longrightarrow> settles ps n"
| last_one: "map_of ps n = Some p \<Longrightarrow> ps_fallback p = None \<Longrightarrow> settles ps n"
| hop: "map_of ps n = Some p \<Longrightarrow> ps_fallback p = Some m \<Longrightarrow> settles ps m \<Longrightarrow> settles ps n"

lemma edge_fun: "(a, b) \<in> fallback_edges ps \<Longrightarrow> map_of ps a = Some p \<Longrightarrow> ps_fallback p = Some b"
  by (auto simp: fallback_edges_def)

lemma edge_next: "(a, c) \<in> (fallback_edges ps)\<^sup>+ \<Longrightarrow> (a, b) \<in> fallback_edges ps \<Longrightarrow> (b, c) \<in> (fallback_edges ps)\<^sup>*"
  by (drule tranclD) (auto simp: fallback_edges_def)

lemma settles_no_loop: "settles ps n \<Longrightarrow> (n, n) \<notin> (fallback_edges ps)\<^sup>+"
proof (induction rule: settles.induct)
  case (hop n p m)
  show ?case
  proof
    assume loop: "(n, n) \<in> (fallback_edges ps)\<^sup>+"
    then obtain b where "(n, b) \<in> fallback_edges ps" "(b, n) \<in> (fallback_edges ps)\<^sup>*" by (meson tranclD)
    then have "(n, m) \<in> fallback_edges ps" "(m, n) \<in> (fallback_edges ps)\<^sup>*"
      using hop.hyps edge_fun by fastforce+
    then have "(m, m) \<in> (fallback_edges ps)\<^sup>+" by simp
    then show False using hop.IH by simp
  qed
qed (auto simp: fallback_edges_def dest!: tranclD)

text \<open>What the search keeps: black names settle, gray names lead to the one being visited.\<close>

definition black_ok :: "preset_map \<Rightarrow> (string \<Rightarrow> colour) \<Rightarrow> bool" where
  "black_ok ps col \<longleftrightarrow> (\<forall>b. col b = Black \<longrightarrow> settles ps b)"

definition gray_ok :: "preset_map \<Rightarrow> (string \<Rightarrow> colour) \<Rightarrow> string \<Rightarrow> bool" where
  "gray_ok ps col n \<longleftrightarrow> (\<forall>t. col t = Gray \<longrightarrow> map_of ps n \<noteq> None \<longrightarrow> (t, n) \<in> (fallback_edges ps)\<^sup>+)"

lemma gray_ok_next:
  assumes "gray_ok ps col n" "map_of ps n = Some p" "ps_fallback p = Some m"
  shows "gray_ok ps (col(n := Gray)) m"
  unfolding gray_ok_def
proof (intro allI impI)
  fix t assume t: "(col(n := Gray)) t = Gray" and m: "map_of ps m \<noteq> None"
  then have e: "(n, m) \<in> fallback_edges ps" using assms(2,3) by (auto simp: fallback_edges_def)
  show "(t, m) \<in> (fallback_edges ps)\<^sup>+"
  proof (cases "t = n")
    case False
    then have "(t, n) \<in> (fallback_edges ps)\<^sup>+" using t assms(1,2) by (simp add: gray_ok_def)
    then show ?thesis using e by (rule trancl_into_trancl)
  qed (use e in auto)
qed

text \<open>A visit either finds a cycle or settles the name, and leaves the gray names gray.\<close>

definition visited :: "preset_map \<Rightarrow> (string \<Rightarrow> colour) \<Rightarrow> string \<Rightarrow> string + (string \<Rightarrow> colour) \<Rightarrow> bool" where
  "visited ps col n res \<longleftrightarrow>
     (case res of
        Inl e \<Rightarrow> \<exists>c. (c, c) \<in> (fallback_edges ps)\<^sup>+
      | Inr col' \<Rightarrow> settles ps n \<and> black_ok ps col' \<and> (\<forall>t. col' t = Gray \<longleftrightarrow> col t = Gray))"

lemma visit_visited: "black_ok ps col \<Longrightarrow> gray_ok ps col n \<Longrightarrow> visited ps col n (visit ps col n trail)"
proof (induction ps col n trail rule: visit.induct)
  case (1 ps col n trail)
  note visit.simps [of ps col n trail, simp]
  show ?case
  proof (cases "map_of ps n")
    case None
    then show ?thesis using 1 by (simp add: visited_def settles.unknown)
  next
    case p: (Some p)
    show ?thesis
    proof (cases "col n")
      case White
      show ?thesis
      proof (cases "ps_fallback p")
        case None
        then show ?thesis using 1 p White
          by (auto simp: visited_def black_ok_def intro: settles.last_one)
      next
        case m: (Some m)
        let ?c = "col(n := Gray)"
        have "black_ok ps ?c" using 1(2) by (simp add: black_ok_def)
        then have sub: "visited ps ?c m (visit ps ?c m (trail @ [n]))"
          by (intro 1(1) [OF p White m] gray_ok_next [OF 1(3) p m])
        then show ?thesis using p White m
          by (auto simp: visited_def black_ok_def split: sum.splits intro: settles.hop)
      qed
    qed (use 1 p in \<open>auto simp: visited_def black_ok_def gray_ok_def\<close>)
  qed
qed

lemma visit_each_visited:
  "black_ok ps col \<Longrightarrow> (\<forall>t. col t \<noteq> Gray) \<Longrightarrow>
   (case visit_each ps col ns of
      Inl e \<Rightarrow> \<exists>c. (c, c) \<in> (fallback_edges ps)\<^sup>+
    | Inr col' \<Rightarrow> \<forall>n \<in> set ns. settles ps n)"
proof (induction ns arbitrary: col)
  case (Cons n ns)
  show ?case
  proof (cases "col n = White")
    case True
    have "visited ps col n (visit ps col n [])" using Cons.prems by (intro visit_visited) (simp_all add: gray_ok_def)
    then show ?thesis using True Cons.prems Cons.IH
      by (fastforce simp: visited_def split: sum.splits)
  next
    case False
    then have "settles ps n" using Cons.prems by (metis black_ok_def colour.exhaust)
    then show ?thesis using False Cons.prems Cons.IH [of col] by (auto split: sum.splits)
  qed
qed simp

lemma detect_acyclic: "detect_fallback_cycles ps = Inr () \<longleftrightarrow> acyclic (fallback_edges ps)"
proof -
  let ?r = "visit_each ps (\<lambda>_. White) (map fst ps)"
  have v: "case ?r of Inl e \<Rightarrow> \<exists>c. (c, c) \<in> (fallback_edges ps)\<^sup>+
      | Inr col' \<Rightarrow> \<forall>n \<in> set (map fst ps). settles ps n"
    by (rule visit_each_visited) (simp_all add: black_ok_def)
  have known: "x \<in> fst ` set ps" if "(x, x) \<in> (fallback_edges ps)\<^sup>+" for x
    using that by (auto simp: fallback_edges_def dest!: tranclD map_of_SomeD intro: rev_image_eqI)
  show ?thesis
  proof (cases ?r)
    case (Inl e)
    then show ?thesis using v by (auto simp: detect_fallback_cycles_def acyclic_def)
  next
    case (Inr col)
    then have "acyclic (fallback_edges ps)" using v known settles_no_loop
      by (fastforce simp: acyclic_def)
    then show ?thesis using Inr by (simp add: detect_fallback_cycles_def)
  qed
qed

text \<open>
  Property C30.  The three-colour search that guards every save of a preset reports a cycle exactly when the
  fallback relation has one: saving is refused for no other reason, and no cycle is ever saved.
\<close>

theorem cycle_check_exact: "detect_fallback_cycles ps = Inr () \<longleftrightarrow> acyclic (fallback_edges ps)"
  by (rule detect_acyclic)

section \<open>The fallback chain\<close>

text \<open>A map under which every preset is filed under its own name.\<close>

definition keyed :: "preset_map \<Rightarrow> bool" where
  "keyed ps = list_all (\<lambda>(k, p). ps_name p = k) ps"

lemma keyedD: "keyed ps \<Longrightarrow> map_of ps n = Some p \<Longrightarrow> ps_name p = n"
  by (auto simp: keyed_def list_all_iff dest: map_of_SomeD)

text \<open>\<open>xs\<close> is a path of fallbacks from \<open>cur\<close> on.\<close>

fun fallback_path :: "preset_map \<Rightarrow> string option \<Rightarrow> preset list \<Rightarrow> bool" where
  "fallback_path ps cur [] = True"
| "fallback_path ps cur (p # xs) =
     (\<exists>n. cur = Some n \<and> map_of ps n = Some p \<and> fallback_path ps (ps_fallback p) xs)"

text \<open>Where a path stops: at no fallback, or at a name that is no preset.\<close>

fun path_end :: "string option \<Rightarrow> preset list \<Rightarrow> string option" where
  "path_end cur [] = cur"
| "path_end cur (p # xs) = path_end (ps_fallback p) xs"

text \<open>One step of the walk.\<close>

lemma walk_simps:
  "walk_from ps seen None = []"
  "map_of ps n = None \<or> n \<in> set seen \<Longrightarrow> walk_from ps seen (Some n) = []"
  "map_of ps n = Some p \<Longrightarrow> n \<notin> set seen \<Longrightarrow>
   walk_from ps seen (Some n) = p # walk_from ps (n # seen) (ps_fallback p)"
  by (subst walk_from.simps; auto split: option.splits)+

lemma walk_cases:
  obtains (stop) "walk_from ps seen cur = []"
      "cur = None \<or> (\<exists>n. cur = Some n \<and> (map_of ps n = None \<or> n \<in> set seen))"
  | (go) n p where "walk_from ps seen cur = p # walk_from ps (n # seen) (ps_fallback p)" "cur = Some n"
      "map_of ps n = Some p" "n \<notin> set seen"
  using walk_simps by (metis option.exhaust)

lemma walk_path:
  "keyed ps \<Longrightarrow> fallback_path ps cur (walk_from ps seen cur) \<and>
   distinct (map ps_name (walk_from ps seen cur)) \<and>
   set seen \<inter> ps_name ` set (walk_from ps seen cur) = {}"
proof (induction ps seen cur rule: walk_from.induct)
  case (1 ps seen cur)
  show ?case
  proof (cases rule: walk_cases [of ps seen cur])
    case (go n p)
    then show ?thesis using 1(1) [OF go(2,3,4) 1(2)] keyedD [OF 1(2) go(3)] by auto
  qed simp_all
qed

lemma path_end_stuck:
  "keyed ps \<Longrightarrow> path_end cur (walk_from ps seen cur) = Some n \<Longrightarrow> map_of ps n \<noteq> None \<Longrightarrow>
   n \<in> set seen \<union> ps_name ` set (walk_from ps seen cur)"
proof (induction ps seen cur rule: walk_from.induct)
  case (1 ps seen cur)
  show ?case
  proof (cases rule: walk_cases [of ps seen cur])
    case (go m p)
    then show ?thesis using 1(1) [OF go(2,3,4) 1(2)] 1(3,4) keyedD [OF 1(2) go(3)] by auto
  qed (use 1 in auto)
qed

text \<open>A path that comes back to one of its own presets is a cycle.\<close>

lemma path_edges:
  assumes "keyed ps"
  shows "fallback_path ps (Some a) xs \<Longrightarrow> map_of ps a \<noteq> None \<Longrightarrow> path_end (Some a) xs = Some n \<Longrightarrow>
    map_of ps n \<noteq> None \<Longrightarrow> p \<in> set xs \<Longrightarrow> (ps_name p, n) \<in> (fallback_edges ps)\<^sup>+"
proof (induction xs arbitrary: a p)
  case (Cons q xs)
  have q: "map_of ps a = Some q" "ps_name q = a" using Cons.prems(1) keyedD [OF assms] by auto
  obtain b where b: "ps_fallback q = Some b" using Cons.prems(1,3) by (cases xs) auto
  have rest: "fallback_path ps (Some b) xs" "path_end (Some b) xs = Some n" using Cons.prems(1,3) b by auto
  have known: "map_of ps b \<noteq> None" using rest Cons.prems(4) by (cases xs) auto
  then have e: "(a, b) \<in> fallback_edges ps" using q(1) b by (auto simp: fallback_edges_def)
  note IH = Cons.IH [OF rest(1) known rest(2) Cons.prems(4)]
  have "(a, n) \<in> (fallback_edges ps)\<^sup>+"
  proof (cases "xs = []")
    case True
    then show ?thesis using rest e by auto
  next
    case False
    then obtain r ys where xs: "xs = r # ys" by (cases xs) simp_all
    have "map_of ps b = Some r" using rest(1) xs by simp
    then have "(b, n) \<in> (fallback_edges ps)\<^sup>+" using IH [of r] xs keyedD [OF assms] by simp
    with e show ?thesis by (rule trancl_into_trancl2)
  qed
  then show ?case using Cons.prems(5) q(2) IH by auto
qed simp

text \<open>
  The chain of presets a call goes through is a path of fallbacks from the requested one, without
  repetition, so it is never longer than there are presets; when the fallbacks have no cycle it is
  the whole path, cut only where a preset names no fallback or one that does not exist.
\<close>

theorem fallback_chain_complete:
  assumes "keyed ps"
  shows "fallback_path ps (Some start) (walk_fallback_chain ps start) \<and>
    distinct (map ps_name (walk_fallback_chain ps start)) \<and>
    (acyclic (fallback_edges ps) \<longrightarrow>
       (case path_end (Some start) (walk_fallback_chain ps start) of None \<Rightarrow> True | Some n \<Rightarrow> map_of ps n = None))"
proof -
  let ?w = "walk_fallback_chain ps start"
  have p: "fallback_path ps (Some start) ?w" and d: "distinct (map ps_name ?w)"
    using walk_path [OF assms] by (simp_all add: walk_fallback_chain_def)
  have "map_of ps n = None" if ac: "acyclic (fallback_edges ps)" and n: "path_end (Some start) ?w = Some n" for n
  proof (rule ccontr)
    assume known: "map_of ps n \<noteq> None"
    then have "n \<in> ps_name ` set ?w"
      using path_end_stuck [OF assms, of "Some start" "[]" n] n by (simp add: walk_fallback_chain_def)
    then obtain q where q: "q \<in> set ?w" "ps_name q = n" by auto
    then have "map_of ps start \<noteq> None" using p by (cases ?w) auto
    then have "(n, n) \<in> (fallback_edges ps)\<^sup>+" using path_edges [OF assms p _ n known q(1)] q(2) by simp
    then show False using ac by (simp add: acyclic_def)
  qed
  then show ?thesis using p d by (auto split: option.splits)
qed

definition ex_preset :: "string \<Rightarrow> string option \<Rightarrow> preset" where
  "ex_preset n f = \<lparr>ps_name = n, ps_description = None, ps_provider = ''openai'', ps_model = ''m'', ps_key_ref = [],
     ps_key = None, ps_base_url = None, ps_level = ''*'', ps_temperature = None, ps_max_tokens = None, ps_options = [],
     ps_fallback = f, ps_retries = 1\<rparr>"

definition ex_presets :: preset_map where
  "ex_presets = [(''a'', ex_preset ''a'' (Some ''b'')), (''b'', ex_preset ''b'' (Some ''c''))]"

lemma ex_presets_search: "detect_fallback_cycles ex_presets = Inr ()"
  by (simp add: detect_fallback_cycles_def ex_presets_def ex_preset_def visit.simps)

theorem fallback_chain_complete_witness:
  "keyed ex_presets \<and> acyclic (fallback_edges ex_presets) \<and>
   walk_fallback_chain ex_presets ''a'' = [ex_preset ''a'' (Some ''b''), ex_preset ''b'' (Some ''c'')] \<and>
   distinct (map ps_name (walk_fallback_chain ex_presets ''a'')) \<and>
   (case path_end (Some ''a'') (walk_fallback_chain ex_presets ''a'') of None \<Rightarrow> True
      | Some n \<Rightarrow> map_of ex_presets n = None)"
proof -
  have k: "keyed ex_presets" by (simp add: keyed_def ex_presets_def ex_preset_def)
  have ac: "acyclic (fallback_edges ex_presets)" using ex_presets_search by (simp add: detect_acyclic)
  have w: "walk_fallback_chain ex_presets ''a'' = [ex_preset ''a'' (Some ''b''), ex_preset ''b'' (Some ''c'')]"
    by (simp add: walk_fallback_chain_def ex_presets_def ex_preset_def walk_from.simps)
  show ?thesis using k ac w fallback_chain_complete [OF k, of "''a''"] by (simp add: ex_preset_def)
qed

section \<open>Comments\<close>

text \<open>Text that the scanner copies without leaving the plain state.\<close>

definition inert :: "string \<Rightarrow> bool" where
  "inert s \<longleftrightarrow> (\<forall>rest. strip_from Plain (s @ rest) = s @ strip_from Plain rest)"

lemma inert_append: "inert s \<Longrightarrow> inert t \<Longrightarrow> inert (s @ t)"
  by (simp add: inert_def)

lemma inert_Nil: "inert []"
  by (simp add: inert_def)

lemma inert_chars: "list_all (\<lambda>c. c \<noteq> CHR 0x22 \<and> c \<noteq> CHR ''/'') s \<Longrightarrow> inert s"
  by (induction s) (simp_all add: inert_def)

lemma inert_wrap:
  "inert s \<Longrightarrow> list_all (\<lambda>c. c \<noteq> CHR 0x22 \<and> c \<noteq> CHR ''/'') [a, b] \<Longrightarrow> inert (a # s @ [b])"
  using inert_append [of "[a]" "s @ [b]"] inert_append [of s "[b]"] inert_chars [of "[a]"] inert_chars [of "[b]"]
  by simp

lemma hex_digit_plain: "d < 16 \<Longrightarrow> hex_digit d \<noteq> CHR 0x22 \<and> hex_digit d \<noteq> CHR 0x5C"
proof -
  assume "d < 16"
  then have "d \<in> set [0..<16]" by simp
  moreover have "list_all (\<lambda>d. hex_digit d \<noteq> CHR 0x22 \<and> hex_digit d \<noteq> CHR 0x5C) [0..<16]" by code_simp
  ultimately show ?thesis unfolding list_all_iff by blast
qed

lemma code_256: "code c < 256"
  by (simp add: code_def)

lemma quoted_escape: "strip_from Quoted (json_escape c @ rest) = json_escape c @ strip_from Quoted rest"
  using hex_digit_plain [of "code c div 16"] hex_digit_plain [of "code c mod 16"] code_256 [of c]
  by (simp add: json_escape_def div_less_iff_less_mult)

lemma quoted_body: "strip_from Quoted (concat (map json_escape s) @ rest) = concat (map json_escape s) @ strip_from Quoted rest"
  by (induction s) (simp_all add: quoted_escape)

lemma inert_string: "inert (json_string s)"
  by (simp add: inert_def json_string_def quoted_body)

lemma inert_join: "(\<And>x. x \<in> set xs \<Longrightarrow> inert x) \<Longrightarrow> inert sep \<Longrightarrow> inert (join_with sep xs)"
  by (induction sep xs rule: join_with.induct) (simp_all add: inert_append inert_Nil)

lemma digits_plain: "list_all is_digit s \<Longrightarrow> list_all (\<lambda>c. c \<noteq> CHR 0x22 \<and> c \<noteq> CHR ''/'') s"
  by (auto simp: list_all_iff is_digit_def code_def)

lemma inert_show_int: "inert (show_int i)"
  by (rule inert_chars) (simp add: show_int_def digits_plain show_nat_digits)

lemma inert_member: "inert s \<Longrightarrow> inert (json_string k @ CHR '':'' # CHR '' '' # s)"
  using inert_append [OF inert_string inert_append [OF inert_chars [of "'': ''"]]] by simp

lemma inert_dumps: "inert (json_dumps j)"
proof (induction j)
  case (JArr js)
  then have "inert (join_with '', '' (map json_dumps js))" by (intro inert_join) (auto intro: inert_chars)
  then show ?case by (simp add: inert_wrap)
next
  case (JObj kvs)
  have "inert (join_with '', '' (map (\<lambda>(k, s). json_string k @ '': '' @ s)
      (sort_key fst (map (\<lambda>kv. (fst kv, json_dumps (snd kv))) kvs))))" (is "inert ?j")
    by (rule inert_join) (use JObj in \<open>auto intro!: inert_member simp: inert_chars\<close>)
  then show ?case by (simp add: inert_wrap)
qed (simp_all add: inert_string inert_show_int inert_chars)

text \<open>
  Property C31.  A JSON document without comments passes through the comment stripper unchanged: the slashes of
  its strings (URLs, \<open>env://\<close> references) are never taken for comments, whatever the strings hold.
\<close>

theorem strip_leaves_json: "strip_jsonc_comments (json_dumps j) = json_dumps j"
proof -
  have "strip_from Plain (json_dumps j @ []) = json_dumps j @ strip_from Plain []"
    using inert_dumps unfolding inert_def by blast
  then show ?thesis by (simp add: strip_jsonc_comments_def)
qed

end
