(* ===== verification/PresetRuns.thy ===== *)
theory PresetRuns
  imports PresetAdmin PresetProps AccountProps
begin

text \<open>
  The administration of presets: the map the router serves from never has a cycle, what a
  synchronisation of the catalogue leaves in the table, and what it undoes.
\<close>

section \<open>The map in memory\<close>

text \<open>The presets in memory are filed under their own names, and their fallbacks have no cycle.\<close>

definition serving_ok :: "'r router \<Rightarrow> bool" where
  "serving_ok r \<longleftrightarrow> keyed (presets r) \<and> acyclic (fallback_edges (presets r))"

definition keeps_serving :: "('r, 'a) http \<Rightarrow> bool" where
  "keeps_serving m \<longleftrightarrow> (\<forall>r. serving_ok r \<longrightarrow> serving_ok (snd (m r)))"

text \<open>Other requests may do anything that keeps the map in order.\<close>

definition others_serve :: "'r api_env \<Rightarrow> bool" where
  "others_serve en \<longleftrightarrow> (\<forall>r. serving_ok r \<longrightarrow> serving_ok (ae_others en r))"

named_theorems serving \<open>computations that keep the served map in order\<close>

lemma serving_bind [serving]: "keeps_serving m \<Longrightarrow> (\<And>a. keeps_serving (f a)) \<Longrightarrow> keeps_serving (bindH m f)"
  by (simp add: keeps_serving_def bindH_def split: prod.split sum.split) (metis snd_conv)

lemma serving_then [serving]: "keeps_serving m \<Longrightarrow> keeps_serving k \<Longrightarrow> keeps_serving (thenH m k)"
  unfolding thenH_def by (rule serving_bind)

lemma serving_ret [serving]: "keeps_serving (retH v)"
  by (simp add: keeps_serving_def http_defs)

lemma serving_raise [serving]: "keeps_serving (raiseH st e)"
  by (simp add: keeps_serving_def http_defs)

lemma serving_read [serving]: "keeps_serving (readH f)"
  by (simp add: keeps_serving_def http_defs)

lemma serving_lift [serving]: "keeps_serving (liftH x)"
  by (simp add: keeps_serving_def http_defs)

lemma serving_guard [serving]: "keeps_serving (guardH ok st e)"
  by (simp add: keeps_serving_def http_defs)

lemma serving_some [serving]: "keeps_serving (someH y st e)"
  by (simp add: keeps_serving_def http_defs split: option.split)

lemma serving_run [serving]: "keeps_serving (runH g)"
  by (auto simp: keeps_serving_def http_defs serving_ok_def split: sum.splits prod.splits)

lemma serving_answer [serving]: "keeps_serving (answerH h u)"
  by (auto simp: keeps_serving_def answerH_def serving_ok_def split: sum.splits prod.splits option.splits)

lemma serving_answer_only [serving]: "keeps_serving (answer_only h w)"
  unfolding answer_only_def by (rule serving_answer)

lemma serving_audit [serving]: "keeps_serving (auditH en k who ev tk tg payload)"
  by (simp add: auditH_def serving)

lemma serving_others [serving]: "others_serve en \<Longrightarrow> keeps_serving (othersH en)"
  by (simp add: keeps_serving_def others_serve_def othersH_def)

lemma serving_transaction [serving]: "keeps_serving m \<Longrightarrow> keeps_serving (transaction m)"
  by (simp add: keeps_serving_def transaction_def serving_ok_def split: prod.split sum.split) (metis snd_conv)

lemma keyed_rows: "keyed (preset_map_of rows)"
  by (simp add: keyed_def preset_map_of_def list_all_iff to_preset_def preset.truncate_def)

lemma serving_publish: "keeps_serving (stepH (publish_presets rows))"
  by (auto simp: keeps_serving_def stepH_def publish_presets_def Let_def serving_ok_def keyed_rows
      detect_acyclic [symmetric] split: sum.split)

lemma serving_reload [serving]: "others_serve en \<Longrightarrow> keeps_serving (reload_presets en pe)"
  unfolding reload_presets_def by (intro serving serving_publish)

lemma serving_payload [serving]: "keeps_serving (validate_preset_payload f)"
  by (simp add: validate_preset_payload_def serving)

lemma serving_base_url [serving]: "keeps_serving (check_base_url pe pr url)"
  by (auto simp: check_base_url_def Let_def intro!: serving)

lemma serving_patched_url [serving]: "keeps_serving (check_patched_url pe n q)"
  unfolding check_patched_url_def by (auto intro!: serving split: option.split)

lemma serving_post_write [serving]: "keeps_serving check_fallback_post_write"
  unfolding check_fallback_post_write_def by (intro serving) (auto intro!: serving split: sum.split option.split)

lemma serving_preset_audit [serving]: "keeps_serving (preset_audit en p ev n payload)"
  by (simp add: preset_audit_def serving)

datatype preset_op =
    ListPresets
  | GetPreset string
  | CreatePreset create_preset
  | UpdatePreset string preset_patch bool
  | DeletePreset string
  | ReloadPresets

definition run_preset_op :: "'r api_env \<Rightarrow> preset_env \<Rightarrow> session_principal \<Rightarrow> preset_op \<Rightarrow> 'r router \<Rightarrow> 'r router" where
  "run_preset_op en pe p op r =
     (case op of
        ListPresets \<Rightarrow> snd (list_presets_api p r)
      | GetPreset n \<Rightarrow> snd (get_preset_api p n r)
      | CreatePreset q \<Rightarrow> snd (create_llm_preset en pe p q r)
      | UpdatePreset n q clear \<Rightarrow> snd (update_llm_preset en pe p n q clear r)
      | DeletePreset n \<Rightarrow> snd (delete_llm_preset en pe p n r)
      | ReloadPresets \<Rightarrow> snd (reload_presets en pe r))"

fun preset_steps :: "('r api_env \<times> preset_env \<times> session_principal \<times> preset_op) list \<Rightarrow> 'r router \<Rightarrow> 'r router" where
  "preset_steps [] r = r"
| "preset_steps ((en, pe, p, op) # ops) r = preset_steps ops (run_preset_op en pe p op r)"

lemma run_preset_op_serving: "others_serve en \<Longrightarrow> serving_ok r \<Longrightarrow> serving_ok (run_preset_op en pe p op r)"
proof -
  assume o': "others_serve en" and ok: "serving_ok r"
  note s = serving serving_others [OF o'] serving_reload [OF o']
  have "keeps_serving (list_presets_api p)" unfolding list_presets_api_def by (intro s)
  moreover have "keeps_serving (get_preset_api p n)" for n unfolding get_preset_api_def by (intro s)
  moreover have "keeps_serving (create_llm_preset en pe p c)" for c unfolding create_llm_preset_def by (intro s)
  moreover have "keeps_serving (update_llm_preset en pe p n q clear)" for n q clear
    unfolding update_llm_preset_def by (intro s)
  moreover have "keeps_serving (delete_llm_preset en pe p n)" for n unfolding delete_llm_preset_def by (intro s)
  moreover have "keeps_serving (reload_presets en pe)" by (intro s)
  ultimately show ?thesis using ok unfolding run_preset_op_def keeps_serving_def by (cases op) auto
qed


text \<open>A deployment whose catalogue names one preset, which the table has.\<close>

definition demo_entry :: catalog_preset where
  "demo_entry = preset.extend (ex_preset ''a'' None) (catalog_preset.fields [''provider'', ''concrete_model''])"

definition demo_preset_env :: preset_env where
  "demo_preset_env = \<lparr>pe_catalog = [demo_entry], pe_resolve = (\<lambda>h. None), pe_allowed = None, pe_float = (\<lambda>q. JNull)\<rparr>"

definition demo_presets :: "unit router" where
  "demo_presets = demo_accounts\<lparr>rdb := (rdb demo_accounts)\<lparr>llm_presets := [(managed_row demo_entry 3)\<lparr>ps_model := ''old''\<rparr>]\<rparr>,
     presets := ex_presets\<rparr>"

lemma demo_serving: "serving_ok demo_presets" "others_serve (demo_env tok)"
proof -
  have "keyed ex_presets" by (simp add: keyed_def ex_presets_def ex_preset_def)
  then show "serving_ok demo_presets"
    using ex_presets_search by (simp add: serving_ok_def demo_presets_def detect_acyclic)
qed (simp add: others_serve_def demo_env_def)


section \<open>The catalogue in the table\<close>

lemma get_upd_preset: "get_llm_preset n (d\<lparr>llm_presets := tbl_upd ps_name m f (llm_presets d)\<rparr>) =
    (if n = m then map_option f (get_llm_preset n d) else get_llm_preset n d)"
  if "\<And>x. ps_name (f x) = ps_name x"
  using that by (simp add: get_llm_preset_def tbl_get_upd)

lemma name_apply_pins [simp]: "ps_name (apply_pins p now x) = ps_name x" "lp_managed (apply_pins p now x) = lp_managed x"
  by (simp_all add: apply_pins_def)

lemma name_managed_row [simp]: "ps_name (managed_row p now) = ps_name p" "lp_managed (managed_row p now) = True"
  by (simp_all add: managed_row_def preset.extend_def preset.truncate_def preset_row.fields_def)

lemma get_snoc_preset: "get_llm_preset n (d\<lparr>llm_presets := llm_presets d @ [x]\<rparr>) =
    (case get_llm_preset n d of None \<Rightarrow> if ps_name x = n then Some x else None | Some y \<Rightarrow> Some y)"
  by (simp add: get_llm_preset_def tbl_get_append table_simps split: option.split)

text \<open>What the entry of the catalogue makes of the row of its name.\<close>

definition synced :: "time \<Rightarrow> catalog_preset \<Rightarrow> preset_row option \<Rightarrow> preset_row" where
  "synced now p found = (case found of
     None \<Rightarrow> managed_row p now
   | Some y \<Rightarrow> if lp_managed y then apply_pins p now y else y)"

lemma upsert_get:
  "upsert_managed_preset now p d = Inr d' \<Longrightarrow>
   get_llm_preset n d' = (if n = ps_name p then Some (synced now p (get_llm_preset n d)) else get_llm_preset n d)"
  by (auto simp: upsert_managed_preset_def Let_def synced_def get_snoc_preset get_upd_preset
      split: if_splits option.splits)

lemma upsert_all_get:
  "upsert_all now cat d = Inr d' \<Longrightarrow> distinct (map ps_name cat) \<Longrightarrow>
   (\<forall>p \<in> set cat. get_llm_preset (ps_name p) d' = Some (synced now p (get_llm_preset (ps_name p) d))) \<and>
   (\<forall>n. n \<notin> ps_name ` set cat \<longrightarrow> get_llm_preset n d' = get_llm_preset n d)"
proof (induction cat arbitrary: d)
  case (Cons p cat)
  then obtain d1 where d1: "upsert_managed_preset now p d = Inr d1" "upsert_all now cat d1 = Inr d'"
    by (auto simp: bindE_Inr)
  note g = upsert_get [OF d1(1)]
  have IH: "(\<forall>q \<in> set cat. get_llm_preset (ps_name q) d' = Some (synced now q (get_llm_preset (ps_name q) d1))) \<and>
      (\<forall>n. n \<notin> ps_name ` set cat \<longrightarrow> get_llm_preset n d' = get_llm_preset n d1)"
    using Cons.IH [OF d1(2)] Cons.prems(2) by simp
  have "ps_name p \<notin> ps_name ` set cat" using Cons.prems(2) by simp
  then have other: "ps_name q \<noteq> ps_name p" if "q \<in> set cat" for q using that by (metis image_eqI)
  show ?case using IH Cons.prems(2) by (simp add: g other)
qed simp

text \<open>A row whose fallback has been dropped loses the reference.\<close>

definition unhook :: "string set \<Rightarrow> preset_row \<Rightarrow> preset_row" where
  "unhook dropped x = (case ps_fallback x of Some f \<Rightarrow> if f \<in> dropped then x\<lparr>ps_fallback := None\<rparr> else x | None \<Rightarrow> x)"

lemma unhook_simps [simp]: "ps_name (unhook dropped x) = ps_name x" "lp_managed (unhook dropped x) = lp_managed x"
  by (simp_all add: unhook_def split: option.split)

lemma drop_presets_rows:
  "llm_presets (drop_presets doomed d) =
   map (unhook (ps_name ` set (filter doomed (llm_presets d)))) (filter (\<lambda>x. \<not> doomed x) (llm_presets d))"
  by (simp add: drop_presets_def Let_def unhook_def [abs_def])

lemma tbl_get_kept:
  "distinct (map ps_name xs) \<Longrightarrow> (\<And>x. ps_name (f x) = ps_name x) \<Longrightarrow>
   tbl_get ps_name n (map f (filter keep xs)) =
   (case tbl_get ps_name n xs of None \<Rightarrow> None | Some x \<Rightarrow> if keep x then Some (f x) else None)"
proof (induction xs)
  case (Cons x xs)
  have IH: "tbl_get ps_name n (map f (filter keep xs)) =
      (case tbl_get ps_name n xs of None \<Rightarrow> None | Some x \<Rightarrow> if keep x then Some (f x) else None)"
    by (rule Cons.IH) (use Cons.prems in simp_all)
  have none: "tbl_get ps_name n xs = None" if "ps_name x = n"
    using Cons.prems(1) that by (simp add: tbl_get_None_iff)
  show ?case
  proof (cases "ps_name x = n")
    case True
    then show ?thesis by (simp add: tbl_get_Cons Cons.prems(2) IH none)
  next
    case False
    then show ?thesis by (simp add: tbl_get_Cons Cons.prems(2) IH)
  qed
qed (simp add: table_simps)

lemma get_dropped:
  "distinct (map ps_name (llm_presets d)) \<Longrightarrow>
   get_llm_preset n (drop_presets doomed d) =
   (case get_llm_preset n d of None \<Rightarrow> None
    | Some x \<Rightarrow> if doomed x then None else Some (unhook (ps_name ` set (filter doomed (llm_presets d))) x))"
  by (simp add: get_llm_preset_def drop_presets_rows tbl_get_kept split: option.split)

text \<open>The names that the catalogue no longer has, of rows it once made.\<close>

definition stale_names :: "catalog_preset list \<Rightarrow> db \<Rightarrow> string set" where
  "stale_names cat d =
     ps_name ` set (filter (\<lambda>x. lp_managed x \<and> ps_name x \<notin> ps_name ` set cat) (llm_presets d))"

lemma get_pruned:
  "distinct (map ps_name (llm_presets d)) \<Longrightarrow>
   get_llm_preset n (delete_stale_managed_presets (map ps_name cat) d) =
   (case get_llm_preset n d of None \<Rightarrow> None
    | Some x \<Rightarrow> if lp_managed x \<and> n \<notin> ps_name ` set cat then None else Some (unhook (stale_names cat d) x))"
proof -
  assume r: "distinct (map ps_name (llm_presets d))"
  have n: "ps_name x = n" if "get_llm_preset n d = Some x" for x
    using that tbl_get_SomeD [of ps_name n "llm_presets d"] by (simp add: get_llm_preset_def)
  show ?thesis
    by (cases "get_llm_preset n d") (simp_all add: delete_stale_managed_presets_def get_dropped [OF r] stale_names_def n)
qed

text \<open>
  A synchronisation leaves exactly this table.  Every entry of the catalogue has its row: a new one,
  or the row there was, with the listed columns of the entry when the row is managed and untouched
  when an administrator made it.  A managed row that the catalogue has no name for is gone, and every
  other row is as it was, except that a fallback to a row that is gone is cleared.
\<close>

theorem sync_applies_pins:
  "sync_catalog now cat d = Inr d' \<Longrightarrow> distinct (map ps_name cat) \<Longrightarrow> distinct (map ps_name (llm_presets d)) \<Longrightarrow>
   list_all (\<lambda>p. get_llm_preset (ps_name p) d' =
      Some (synced now p (map_option (unhook (stale_names cat d)) (get_llm_preset (ps_name p) d)))) cat \<and>
   (\<forall>n. n \<notin> ps_name ` set cat \<longrightarrow> get_llm_preset n d' =
      (case get_llm_preset n d of
         None \<Rightarrow> None
       | Some x \<Rightarrow> if lp_managed x then None else Some (unhook (stale_names cat d) x)))"
proof -
  assume s: "sync_catalog now cat d = Inr d'" and c: "distinct (map ps_name cat)" and r: "distinct (map ps_name (llm_presets d))"
  note g = upsert_all_get [OF s [unfolded sync_catalog_def] c] and p = get_pruned [OF r, of _ cat]
  have "get_llm_preset (ps_name q) (delete_stale_managed_presets (map ps_name cat) d) =
      map_option (unhook (stale_names cat d)) (get_llm_preset (ps_name q) d)" if "q \<in> set cat" for q
    using that by (simp add: p split: option.split)
  then show ?thesis using g p by (auto simp: list_all_iff split: option.split)
qed

lemma demo_entry_simps:
  "ps_name demo_entry = ''a''" "specified_fields demo_entry = [''provider'', ''concrete_model'']" "ps_model demo_entry = ''m''"
  by (simp_all add: demo_entry_def ex_preset_def preset.extend_def catalog_preset.fields_def)

lemma sync_applies_pins_witness:
  "\<exists>d'. sync_catalog 9 [demo_entry] (rdb demo_presets) = Inr d' \<and>
     map_option ps_model (get_llm_preset ''a'' d') = Some ''m''"
proof -
  have rows: "llm_presets (rdb demo_presets) = [(managed_row demo_entry 3)\<lparr>ps_model := ''old''\<rparr>]"
    by (simp add: demo_presets_def)
  have "\<not> isl (sync_catalog 9 [demo_entry] (rdb demo_presets))" by code_simp
  then obtain d' where d': "sync_catalog 9 [demo_entry] (rdb demo_presets) = Inr d'" by (cases "sync_catalog 9 [demo_entry] (rdb demo_presets)") auto
  from sync_applies_pins [OF d'] have "get_llm_preset ''a'' d' = Some (synced 9 demo_entry
      (map_option (unhook (stale_names [demo_entry] (rdb demo_presets))) (get_llm_preset ''a'' (rdb demo_presets))))"
    by (simp add: rows demo_entry_simps)
  moreover have "get_llm_preset ''a'' (rdb demo_presets) = Some ((managed_row demo_entry 3)\<lparr>ps_model := ''old''\<rparr>)"
    by (simp add: get_llm_preset_def rows table_simps demo_entry_simps)
  ultimately show ?thesis using d' by (simp add: synced_def apply_pins_def pin_def demo_entry_simps)
qed

section \<open>What a synchronisation undoes\<close>

text \<open>The other requests leave the table of presets alone.\<close>

definition quiet_presets :: "'r api_env \<Rightarrow> bool" where
  "quiet_presets en \<longleftrightarrow> (\<forall>r. llm_presets (rdb (ae_others en r)) = llm_presets (rdb r))"

lemma get_preset_cong: "llm_presets d = llm_presets d' \<Longrightarrow> get_llm_preset n d = get_llm_preset n d'"
  by (simp add: get_llm_preset_def)

lemma publish_db: "rdb (snd (publish_presets rows r)) = rdb r"
  by (simp add: publish_presets_def Let_def split: sum.split)

lemma reload_Inr:
  "reload_presets en pe r = (Inr k, r') \<Longrightarrow> quiet_presets en \<Longrightarrow>
   \<exists>d d'. llm_presets d = llm_presets (rdb r) \<and> sync_catalog (ae_now en) (pe_catalog pe) d = Inr d' \<and>
     llm_presets (rdb r') = llm_presets d'"
proof -
  assume a: "reload_presets en pe r = (Inr k, r')" and q: "quiet_presets en"
  define r1 where "r1 = ae_others en r"
  obtain d' where d': "sync_catalog (ae_now en) (pe_catalog pe) (rdb r1) = Inr d'"
    and r': "r' = snd (publish_presets (list_llm_presets (rdb (ae_others en (r1\<lparr>rdb := d'\<rparr>)))) (ae_others en (r1\<lparr>rdb := d'\<rparr>)))"
    using a by (auto simp: reload_presets_def thenH_Inr bindH_Inr othersH_def answer_only_def answerH_def readH_def
        stepH_def r1_def split: sum.splits prod.splits) (cases "sync_catalog (ae_now en) (pe_catalog pe) (rdb (ae_others en r))", auto)
  have "llm_presets (rdb r1) = llm_presets (rdb r)" "llm_presets (rdb (ae_others en (r1\<lparr>rdb := d'\<rparr>))) = llm_presets d'"
    using q by (simp_all add: quiet_presets_def r1_def)
  then show ?thesis using d' r' by (metis publish_db)
qed

text \<open>
  An administrator who deletes a preset of the catalogue is told that it is gone, and the request
  itself has put it back before it answers.
\<close>

theorem managed_delete_undone:
  "delete_llm_preset en pe p n r = (Inr (), r') \<Longrightarrow> quiet_presets en \<Longrightarrow> distinct (map ps_name (pe_catalog pe)) \<Longrightarrow>
   n \<in> ps_name ` set (pe_catalog pe) \<Longrightarrow> get_llm_preset n (rdb r') \<noteq> None"
proof -
  assume a: "delete_llm_preset en pe p n r = (Inr (), r')" and q: "quiet_presets en"
    and c: "distinct (map ps_name (pe_catalog pe))" and n: "n \<in> ps_name ` set (pe_catalog pe)"
  obtain k r1 where "reload_presets en pe r1 = (Inr k, r')"
    using a unfolding delete_llm_preset_def bindH_Inr thenH_Inr by (auto simp: retH_def)
  from reload_Inr [OF this q] obtain d d'
    where d: "sync_catalog (ae_now en) (pe_catalog pe) d = Inr d'" "llm_presets (rdb r') = llm_presets d'" by blast
  have "get_llm_preset n d' \<noteq> None"
    using upsert_all_get [OF d(1) [unfolded sync_catalog_def] c] n by auto
  then show ?thesis using get_preset_cong [OF d(2)] by simp
qed


lemma managed_delete_undone_witness:
  "\<exists>r'. delete_llm_preset (demo_env ''w'') demo_preset_env (demo_principal ''root'' ''admin'') ''a'' demo_presets = (Inr (), r') \<and>
     get_llm_preset ''a'' (rdb r') \<noteq> None"
proof -
  have "fst (delete_llm_preset (demo_env ''w'') demo_preset_env (demo_principal ''root'' ''admin'') ''a'' demo_presets) = Inr ()"
    by code_simp
  then obtain r' where r': "delete_llm_preset (demo_env ''w'') demo_preset_env (demo_principal ''root'' ''admin'') ''a'' demo_presets =
      (Inr (), r')" by (metis prod.collapse)
  have "quiet_presets (demo_env ''w'')" by (simp add: quiet_presets_def demo_env_def)
  with managed_delete_undone [OF r'] r' show ?thesis by (simp add: demo_preset_env_def demo_entry_simps)
qed

end
