(* ===== verification/LlmCalls.thy ===== *)
theory LlmCalls
  imports Presets Http Admission
begin

text \<open>
  A call through the LLM service (\<open>bp_router/llm/service.py\<close>): resolving a preset to an adapter,
  retries and the fallback chain, and the set-up of a stream, with the waits and the classification
  of \<open>bp_router/llm/retry_classification.py\<close> and the secrets of \<open>bp_router/security/secrets.py\<close>.
  The adapters of \<open>llm/providers\<close> are not modelled: an adapter is known by what it was built from,
  and what it answers is arbitrary.
\<close>

section \<open>Failures and waits\<close>

text \<open>An exception: the name of its class and its text.\<close>

type_synonym exn = "string \<times> string"

record hint =
  rh_code :: string
  rh_retry_after :: "rat option"
  rh_class :: string

definition RETRIABLE_LLM_CODES :: "string list" where
  "RETRIABLE_LLM_CODES = [''upstream_timeout'', ''upstream_rate_limited'', ''upstream_unavailable'',
     ''auth_lookup_failed'', ''internal_error'']"

definition DEFAULT_HINT :: hint where
  "DEFAULT_HINT = \<lparr>rh_code = ''internal_error'', rh_retry_after = None, rh_class = []\<rparr>"

text \<open>
  \<open>compute_backoff\<close>.  The draw \<open>u\<close> lies between 0 and 1: \<open>uniform(a, b)\<close> is \<open>a + (b - a) * u\<close>.
\<close>

definition compute_backoff :: "rat \<Rightarrow> rat \<Rightarrow> rat \<Rightarrow> bool \<Rightarrow> rat \<Rightarrow> nat \<Rightarrow> rat option \<Rightarrow> rat" where
  "compute_backoff max_backoff initial multiplier jitter u attempt retry_after =
     (let cap = max 0 max_backoff
      in case retry_after of
           Some s \<Rightarrow>
             (let base = max s 0
              in min (if jitter \<and> 0 < base then base * (4 / 5 + 2 / 5 * u) else base) cap)
         | None \<Rightarrow>
             (let capped = min (initial * multiplier ^ attempt) cap
              in if jitter then capped * u else capped))"

abbreviation backoff :: "rat \<Rightarrow> nat \<Rightarrow> rat option \<Rightarrow> rat" where
  "backoff \<equiv> compute_backoff 10 (1 / 2) 2 True"

section \<open>What a call takes from outside\<close>

text \<open>
  The environment variables, what the \<open>n\<close>-th request of this call to a provider gives (\<open>'m\<close> is the
  result), how an adapter classifies an exception (\<open>None\<close>: it does not, or fails to), the draws, and
  what other coroutines do during the \<open>n\<close>-th request and then in the wait after it or while the rest of
  a stream is read.
\<close>

record ('m, 'r) upstream =
  us_environ :: "string \<Rightarrow> string option"
  us_request :: "nat \<Rightarrow> adapter \<Rightarrow> call_params \<Rightarrow> exn + 'm"
  us_classify :: "adapter \<Rightarrow> exn \<Rightarrow> hint option"
  us_random :: "nat \<Rightarrow> rat"
  us_during :: "nat \<Rightarrow> 'r router \<Rightarrow> 'r router"
  us_asleep :: "nat \<Rightarrow> 'r router \<Rightarrow> 'r router"

record call_args =
  ca_temperature :: "rat option"
  ca_max_tokens :: "int option"
  ca_options :: "(string \<times> json) list option"

definition no_args :: call_args where
  "no_args = \<lparr>ca_temperature = None, ca_max_tokens = None, ca_options = None\<rparr>"

definition safe_classify :: "('m, 'r) upstream \<Rightarrow> adapter option \<Rightarrow> exn \<Rightarrow> hint" where
  "safe_classify us ad e =
     (case ad of
        None \<Rightarrow> DEFAULT_HINT
      | Some a \<Rightarrow> (case us_classify us a e of None \<Rightarrow> DEFAULT_HINT | Some h \<Rightarrow> h))"

section \<open>From a preset to an adapter\<close>

fun split_ref :: "string \<Rightarrow> (string \<times> string) option" where
  "split_ref [] = None"
| "split_ref (c # s) =
     (if starts_with ''://'' (c # s) then Some ([], drop 3 (c # s))
      else map_option (\<lambda>(a, b). (c # a, b)) (split_ref s))"

text \<open>
  The text of a \<open>KeyError\<close> is the representation of its argument; those of the resolvers that are
  not implemented are shortened.
\<close>

definition resolve_secret_ref :: "(string \<Rightarrow> string option) \<Rightarrow> string \<Rightarrow> exn + string" where
  "resolve_secret_ref environ v =
     (case split_ref v of
        None \<Rightarrow> Inr v
      | Some (scheme0, rest) \<Rightarrow>
          (let scheme = py_lower scheme0
           in if scheme = ''env''
                then (case environ rest of
                        None \<Rightarrow> Inl (''KeyError'', py_repr (''secret_ref env://'' @ rest @ '' not set''))
                      | Some x \<Rightarrow> Inr x)
              else if scheme \<in> {''vault'', ''awssm'', ''gcpsm''}
                then Inl (''NotImplementedError'', scheme @ '':// resolver pending'')
              else Inl (''ValueError'', ''Unsupported secret_ref scheme: '' @ py_repr scheme)))"

definition key_for :: "(string \<Rightarrow> string option) \<Rightarrow> call_params \<Rightarrow> exn + string" where
  "key_for environ c =
     (if truthy (cp_key c) then Inr (the (cp_key c))
      else if cp_provider c \<notin> {''openai-compatible'', ''openai-compatible-embeddings''}
        then resolve_secret_ref environ (cp_key_ref c)
      else if cp_key_ref c = [] then Inr ''EMPTY''
      else bindE (resolve_secret_ref environ (cp_key_ref c)) (\<lambda>k. Inr (if k = [] then ''EMPTY'' else k)))"

definition build_adapter :: "(string \<Rightarrow> string option) \<Rightarrow> call_params \<Rightarrow> exn + adapter" where
  "build_adapter environ c =
     bindE (key_for environ c) (\<lambda>k.
     if cp_provider c \<in> {''gemini'', ''anthropic'', ''openai'', ''openai-embeddings''} \<or>
        cp_provider c \<in> {''openai-compatible'', ''openai-compatible-embeddings''} \<and> truthy (cp_base_url c)
       then Inr \<lparr>ad_provider = cp_provider c, ad_model = cp_model c, ad_key = k, ad_base_url = cp_base_url c\<rparr>
     else if cp_provider c \<in> {''openai-compatible'', ''openai-compatible-embeddings''}
       then Inl (''ValueError'', cp_provider c @ '' preset requires a base_url'')
     else Inl (''NotImplementedError'', ''provider '' @ py_repr (cp_provider c) @ '' adapter not yet wired''))"

definition cache_key :: "preset \<Rightarrow> call_params \<Rightarrow> string" where
  "cache_key p c =
     cp_provider c @ ''::'' @ cp_model c @ ''::'' @
     (if truthy (cp_base_url c) then the (cp_base_url c) else ''-'') @ ''::'' @
     (if truthy (cp_key c) then ''inline:'' @ ps_name p else cp_key_ref c)"

definition resolve_one ::
  "('m, 'r) upstream \<Rightarrow> preset \<Rightarrow> call_args \<Rightarrow> 'r router \<Rightarrow> (exn + call_params \<times> adapter) \<times> 'r router" where
  "resolve_one us p ca r =
     (let c = resolve_call_params p (ca_temperature ca) (ca_max_tokens ca) (ca_options ca); k = cache_key p c
      in case map_of (adapters r) k of
           Some a \<Rightarrow> (Inr (c, a), r)
         | None \<Rightarrow>
             (case build_adapter (us_environ us) c of
                Inl e \<Rightarrow> (Inl e, r)
              | Inr a \<Rightarrow> (Inr (c, a), r\<lparr>adapters := dict_set k a (adapters r)\<rparr>)))"

section \<open>Retries and fallback\<close>

datatype llm_error =
    PresetUnknown string
  | PresetNotAllowed string "level option" level
  | LlmUpstream hint string              \<comment> \<open>the hint and the text of the last failure\<close>
  | StreamInterrupted string nat string  \<comment> \<open>text, deltas delivered, class\<close>
  | Other exn

text \<open>What a call does, in order: a try of a preset with the exception it ended in, or a wait.\<close>

datatype llm_event = Tried preset "exn option" | Slept rat

definition inc_metric :: "string \<Rightarrow> string list \<Rightarrow> 'r router \<Rightarrow> 'r router" where
  "inc_metric m labels r = count_metric m (join_with '','' labels) r"

text \<open>\<open>_attempt\<close> of \<open>generate\<close>, \<open>embed\<close> and \<open>count_tokens\<close>, which differ in the arguments they pass.\<close>

definition attempt ::
  "('m, 'r) upstream \<Rightarrow> call_args \<Rightarrow> preset \<Rightarrow> nat \<Rightarrow> 'r router \<Rightarrow> (exn + adapter \<times> 'm) \<times> 'r router" where
  "attempt us ca p n r =
     (case resolve_one us p ca r of
        (Inl e, r1) \<Rightarrow> (Inl e, r1)
      | (Inr (c, a), r1) \<Rightarrow> (map_sum id (Pair a) (us_request us n a c), us_during us n r1))"

text \<open>
  The tries of one preset: \<open>i\<close> counts them, \<open>n\<close> all requests of the call.  Gives the last failure, or
  the adapter and the result, with what happened and the next number.
\<close>

primrec try_preset ::
  "('m, 'r) upstream \<Rightarrow> call_args \<Rightarrow> preset \<Rightarrow> adapter option \<Rightarrow> nat \<Rightarrow> nat list \<Rightarrow> nat \<Rightarrow> (exn \<times> hint) option \<Rightarrow>
   'r router \<Rightarrow> ((exn \<times> hint) option + adapter \<times> 'm) \<times> llm_event list \<times> nat \<times> 'r router" where
  "try_preset us ca p cl tries [] n failed r = (Inl failed, [], n, r)"
| "try_preset us ca p cl tries (i # is) n failed r =
     (case attempt us ca p n r of
        (Inr (a, x), r1) \<Rightarrow>
          (Inr (a, x), [Tried p None], Suc n, inc_metric ''llm_fallback_attempts_total'' [ps_name p, ''success''] r1)
      | (Inl e, r1) \<Rightarrow>
          (let h = safe_classify us cl e;
               final = (i = tries - 1);
               r2 = inc_metric ''llm_fallback_attempts_total'' [ps_name p, if final then ''failed'' else ''retry'']
                      (inc_metric ''llm_errors_total'' [ps_provider p, rh_code h] r1);
               w = backoff (us_random us n) i (rh_retry_after h);
               (res, log, n', r3) = try_preset us ca p cl tries is (Suc n) (Some (e, h))
                  (if final then r2 else us_asleep us n r2)
           in (res, Tried p (Some e) # (if final then [] else [Slept w]) @ log, n', r3)))"

primrec call_each ::
  "('m, 'r) upstream \<Rightarrow> call_args \<Rightarrow> level option \<Rightarrow> bool \<Rightarrow> preset \<Rightarrow> bool \<Rightarrow> preset list \<Rightarrow> nat \<Rightarrow> (exn \<times> hint) option \<Rightarrow>
   'r router \<Rightarrow> ((exn \<times> hint) option + adapter \<times> string \<times> 'm) \<times> llm_event list \<times> 'r router" where
  "call_each us ca lvl hist origin started [] n failed r = (Inl failed, [], r)"
| "call_each us ca lvl hist origin started (p # ps) n failed r =
     (if started \<and> \<not> user_level_satisfies lvl (ps_level p)
        then call_each us ca lvl hist origin True ps n failed (inc_metric ''llm_fallback_skipped_tier_total'' [ps_name p] r)
      else if started \<and> hist \<and> ps_provider p \<noteq> ps_provider origin
        then call_each us ca lvl hist origin True ps n failed
          (inc_metric ''llm_fallback_skipped_provider_total'' [ps_name p, ps_provider origin, ps_provider p] r)
      else
        (let (found, r1) = resolve_one us p no_args r;
             cl = (case found of Inl e \<Rightarrow> None | Inr (c, a) \<Rightarrow> Some a);
             tries = nat (max 0 (ps_retries p)) + 1;
             (res, log, n', r2) = try_preset us ca p cl tries [0..<tries] n failed r1
         in case res of
              Inr (a, x) \<Rightarrow>
                (Inr (a, ps_name p, x), log,
                 if started then inc_metric ''llm_fallback_used_total'' [ps_name origin, ps_name p] r2 else r2)
            | Inl failed' \<Rightarrow>
                (let (res', log', r3) = call_each us ca lvl hist origin True ps n' failed' r2
                 in (res', log @ log', r3))))"

text \<open>\<open>_call_with_fallback\<close>; the chain is the one of the presets at the start.\<close>

definition call_with_fallback ::
  "('m, 'r) upstream \<Rightarrow> call_args \<Rightarrow> string \<Rightarrow> level option \<Rightarrow> bool \<Rightarrow> 'r router \<Rightarrow>
   (llm_error + adapter \<times> string \<times> 'm) \<times> llm_event list \<times> 'r router" where
  "call_with_fallback us ca name lvl hist r =
     (case map_of (presets r) name of
        None \<Rightarrow> (Inl (PresetUnknown name), [], r)
      | Some first \<Rightarrow>
          if \<not> user_level_satisfies lvl (ps_level first)
            then (Inl (PresetNotAllowed name lvl (ps_level first)), [],
                  inc_metric ''llm_tier_gate_denied_total'' [name] r)
          else
            (let (res, log, r1) = call_each us ca lvl hist first False (walk_fallback_chain (presets r) name) 0 None r
             in case res of
                  Inr won \<Rightarrow> (Inr won, log, r1)
                | Inl (Some (e, h)) \<Rightarrow>
                    (Inl (LlmUpstream h (snd e)), log, inc_metric ''llm_fallback_chain_exhausted_total'' [name] r1)
                | Inl None \<Rightarrow> (Inl (PresetUnknown name), log, r1)))"

text \<open>
  Whether the conversation carries the id of a tool call, which only the provider that made it knows.
\<close>

record message =
  ms_role :: json
  ms_content :: json
  ms_name :: json
  ms_tool_call :: json

definition has_truthy :: "json \<Rightarrow> string \<Rightarrow> bool" where
  "has_truthy j k = (case json_get j k of None \<Rightarrow> False | Some v \<Rightarrow> json_truthy v)"

definition part_has_call_id :: "json \<Rightarrow> bool" where
  "part_has_call_id part =
     (json_get part ''type'' = Some (JStr ''tool_use'') \<and> has_truthy part ''id'' \<or>
      (case json_get part ''function_call'' of None \<Rightarrow> False | Some fc \<Rightarrow> has_truthy fc ''id'') \<or>
      json_get part ''type'' = Some (JStr ''function_call'') \<and> has_truthy part ''call_id'' \<or>
      json_get part ''type'' = Some (JStr ''tool_result'') \<and> has_truthy part ''tool_use_id'')"

definition messages_have_tool_call_ids :: "message list \<Rightarrow> bool" where
  "messages_have_tool_call_ids ms = list_ex (\<lambda>m. json_truthy (ms_tool_call m) \<or>
     (case ms_content m of JArr ps \<Rightarrow> list_ex part_has_call_id ps | _ \<Rightarrow> False)) ms"

text \<open>\<open>generate\<close> without streaming, up to its counters of calls and tokens; \<open>embed\<close> and \<open>count_tokens\<close>.\<close>

definition generate ::
  "('m, 'r) upstream \<Rightarrow> call_args \<Rightarrow> string \<Rightarrow> level option \<Rightarrow> message list \<Rightarrow> 'r router \<Rightarrow>
   (llm_error + adapter \<times> string \<times> 'm) \<times> llm_event list \<times> 'r router" where
  "generate us ca name lvl ms r = call_with_fallback us ca name lvl (messages_have_tool_call_ids ms) r"

definition embed ::
  "('m, 'r) upstream \<Rightarrow> string \<Rightarrow> level option \<Rightarrow> 'r router \<Rightarrow> (llm_error + 'm) \<times> llm_event list \<times> 'r router" where
  "embed us name lvl r = apfst (map_sum id (\<lambda>(a, used, x). x)) (call_with_fallback us no_args name lvl False r)"

text \<open>Whether the gate of a request must know the level of its user.\<close>

definition chain_needs_tier :: "preset_map \<Rightarrow> string \<Rightarrow> bool" where
  "chain_needs_tier ps name =
     (map_of ps name \<noteq> None \<and> list_ex (\<lambda>p. ps_level p \<noteq> ''*'') (walk_fallback_chain ps name))"

section \<open>Streams\<close>

text \<open>
  The \<open>n\<close>-th stream an adapter opens: it may fail to open at all, else it gives its deltas and then
  ends, or fails.
\<close>

type_synonym 'd opened = "exn + 'd list \<times> exn option"

text \<open>What the caller of a stream sees: deltas, and before them hints that a try is pending.\<close>

datatype 'd yielded =
    Hint nat nat rat string   \<comment> \<open>\<open>attempt\<close>, \<open>max_attempts\<close>, \<open>retry_after_seconds\<close>, \<open>reason_code\<close>\<close>
  | Delta 'd

primrec setup_retry ::
  "('m, 'r) upstream \<Rightarrow> (nat \<Rightarrow> 'd opened) \<Rightarrow> adapter \<Rightarrow> preset \<Rightarrow> nat \<Rightarrow> nat list \<Rightarrow> 'r router \<Rightarrow>
   'd yielded list \<times> llm_error option \<times> 'r router" where
  "setup_retry us opens a p retries [] r = ([], None, r)"
| "setup_retry us opens a p retries (i # is) r =
     (case opens i of
        Inl e \<Rightarrow> ([], Some (Other e), us_during us i r)
      | Inr ([], None) \<Rightarrow>
          ([], None, inc_metric ''llm_fallback_attempts_total'' [ps_name p, ''success''] (us_during us i r))
      | Inr ([], Some e) \<Rightarrow>
          (let h = safe_classify us (Some a) e;
               r1 = inc_metric ''llm_errors_total'' [ps_provider p, rh_code h] (us_during us i r)
           in if i < retries \<and> rh_code h \<in> set RETRIABLE_LLM_CODES
              then let w = backoff (us_random us i) i (rh_retry_after h);
                       (ys, err, r2) = setup_retry us opens a p retries is
                         (us_asleep us i (inc_metric ''llm_fallback_attempts_total'' [ps_name p, ''setup_retry''] r1))
                   in (Hint (i + 1) (retries + 1) w (rh_code h) # ys, err, r2)
              else ([], Some (LlmUpstream h (snd e)),
                    inc_metric ''llm_fallback_chain_exhausted_total'' [ps_name p]
                      (inc_metric ''llm_fallback_attempts_total'' [ps_name p, ''failed''] r1)))
      | Inr (ds, e) \<Rightarrow>
          (map Delta ds,
           map_option (\<lambda>x. StreamInterrupted (snd x) (length ds) (rh_class (safe_classify us (Some a) x))) e,
           us_asleep us i (inc_metric ''llm_fallback_attempts_total'' [ps_name p, ''success''] (us_during us i r))))"

text \<open>\<open>_generate_stream_with_setup_retry\<close>.\<close>

definition generate_stream ::
  "('m, 'r) upstream \<Rightarrow> (nat \<Rightarrow> 'd opened) \<Rightarrow> adapter \<Rightarrow> preset \<Rightarrow> 'r router \<Rightarrow>
   'd yielded list \<times> llm_error option \<times> 'r router" where
  "generate_stream us opens a p r =
     (let retries = nat (max 0 (ps_retries p)) in setup_retry us opens a p retries [0..<retries + 1] r)"

text \<open>\<open>_resolve\<close>, and \<open>generate\<close> with \<open>stream=True\<close>.\<close>

definition resolve_first ::
  "('m, 'r) upstream \<Rightarrow> string \<Rightarrow> level option \<Rightarrow> call_args \<Rightarrow> 'r router \<Rightarrow>
   (llm_error + call_params \<times> adapter \<times> preset) \<times> 'r router" where
  "resolve_first us name lvl ca r =
     (case map_of (presets r) name of
        None \<Rightarrow> (Inl (PresetUnknown name), r)
      | Some p \<Rightarrow>
          if \<not> user_level_satisfies lvl (ps_level p) then (Inl (PresetNotAllowed name lvl (ps_level p)), r)
          else (case resolve_one us p ca r of
                  (Inl e, r1) \<Rightarrow> (Inl (Other e), r1)
                | (Inr (c, a), r1) \<Rightarrow> (Inr (c, a, p), r1)))"

definition stream_call ::
  "('m, 'r) upstream \<Rightarrow> (call_params \<Rightarrow> adapter \<Rightarrow> nat \<Rightarrow> 'd opened) \<Rightarrow> string \<Rightarrow> level option \<Rightarrow> call_args \<Rightarrow>
   'r router \<Rightarrow> 'd yielded list \<times> llm_error option \<times> 'r router" where
  "stream_call us opens name lvl ca r =
     (case resolve_first us name lvl ca r of
        (Inl e, r1) \<Rightarrow> ([], Some e, r1)
      | (Inr (c, a, p), r1) \<Rightarrow> generate_stream us (opens c a) a p r1)"

end
