(* ===== verification/Attachments.thy ===== *)
theory Attachments
  imports FileQueries LlmCalls
begin

text \<open>
  Files named in the messages of an LLM request (\<open>bp_router/llm/attachments.py\<close>): every \<open>file_ref\<close>
  part is replaced in place by the contents of the file, looked up in the store of the user whose
  task the agent executes.  The image library is a parameter; text is kept in UTF-8, and the dash in a
  message is written as two hyphens.
\<close>

text \<open>A refusal with its code and text, or an exception that nobody expects here.\<close>

datatype attach_error = Attach string string | AttachCrash string

record llm_limits =
  max_file_refs :: nat        \<comment> \<open>\<open>llm_request_max_file_refs\<close>\<close>
  inline_cap :: int           \<comment> \<open>\<open>llm_attachment_inline_max_bytes\<close>\<close>
  image_max_side :: int       \<comment> \<open>\<open>llm_image_max_long_side_px\<close>\<close>
  image_source_cap :: int     \<comment> \<open>\<open>llm_image_rescale_source_max_bytes\<close>\<close>

text \<open>
  The chunks of a blob (\<open>None\<close> when it cannot be opened), the size of an image and the image shrunk
  to a longest side (\<open>None\<close> when the library fails), and what other coroutines do while the \<open>n\<close>-th
  reference is resolved.
\<close>

record 'r attach_env =
  at_open :: "string \<Rightarrow> string list option"
  at_size :: "string \<Rightarrow> (int \<times> int) option"
  at_thumb :: "int \<Rightarrow> string \<Rightarrow> string option"
  at_others :: "nat \<Rightarrow> 'r router \<Rightarrow> 'r router"

section \<open>Kinds of files\<close>

definition TEXT_APP_MIMES :: "string list" where
  "TEXT_APP_MIMES = [''application/json'', ''application/xml'', ''application/yaml'', ''application/x-yaml'',
     ''application/javascript'', ''application/ecmascript'', ''application/x-ndjson'', ''application/toml'',
     ''application/x-sh'', ''application/csv'', ''application/x-csv'']"

definition py_white :: "char \<Rightarrow> bool" where
  "py_white c = (let n = code c in (9 \<le> n \<and> n \<le> 13) \<or> (28 \<le> n \<and> n \<le> 32) \<or> n = 133 \<or> n = 160)"

definition base_mime :: "string option \<Rightarrow> string" where
  "base_mime mime =
     (let m = before_char CHR '';'' (case mime of None \<Rightarrow> [] | Some s \<Rightarrow> s)
      in py_lower (rev (dropWhile py_white (rev (dropWhile py_white m)))))"

definition is_text_mime :: "string \<Rightarrow> bool" where
  "is_text_mime m = (starts_with ''text/'' m \<or> m \<in> set TEXT_APP_MIMES \<or>
     ends_with ''+json'' m \<or> ends_with ''+xml'' m \<or> ends_with ''+yaml'' m)"

datatype strategy = InlineImage | InlineDocument | InlineText | Reference

definition classify_file :: "string option \<Rightarrow> json option \<Rightarrow> strategy" where
  "classify_file mime as_kind =
     (let m = base_mime mime
      in if as_kind = Some (JStr ''image'') then InlineImage
         else if as_kind = Some (JStr ''document'') then InlineDocument
         else if starts_with ''image/'' m then InlineImage
         else if m = ''application/pdf'' then InlineDocument
         else if is_text_mime m then InlineText
         else Reference)"

text \<open>A name in the store: whether it is in the scope of the user, and the bare name.\<close>

definition split_named_ref :: "string \<Rightarrow> (bool \<times> string) option" where
  "split_named_ref name =
     (let persistent = starts_with ''persist/'' name; bare = (if persistent then drop 8 name else name)
      in if bare = [] \<or> CHR ''/'' \<in> set bare then None else Some (persistent, bare))"

section \<open>The parts of a conversation\<close>

text \<open>Where the references stand: message, part, and the reference itself.\<close>

definition part_refs :: "nat \<Rightarrow> json \<Rightarrow> (nat \<times> nat \<times> json) list" where
  "part_refs i m =
     (case json_get m ''content'' of
        Some (JArr parts) \<Rightarrow>
          List.map_filter (\<lambda>(j, part).
            case json_get part ''file_ref'' of Some (JObj kvs) \<Rightarrow> Some (i, j, JObj kvs) | _ \<Rightarrow> None)
            (enumerate 0 parts)
      | _ \<Rightarrow> [])"

definition collect_file_refs :: "json list \<Rightarrow> (nat \<times> nat \<times> json) list" where
  "collect_file_refs ms = concat (map (\<lambda>(i, m). part_refs i m) (enumerate 0 ms))"

definition set_content :: "nat \<Rightarrow> json \<Rightarrow> json \<Rightarrow> json" where
  "set_content j part m =
     (case m of
        JObj kvs \<Rightarrow>
          (case map_of kvs ''content'' of
             Some (JArr parts) \<Rightarrow> JObj (dict_set ''content'' (JArr (parts[j := part])) kvs)
           | _ \<Rightarrow> m)
      | _ \<Rightarrow> m)"

definition set_part :: "nat \<Rightarrow> nat \<Rightarrow> json \<Rightarrow> json list \<Rightarrow> json list" where
  "set_part i j part ms = ms[i := set_content j part (ms ! i)]"

section \<open>Bytes\<close>

definition b64_char :: "nat \<Rightarrow> char" where
  "b64_char n = ''ABCDEFGHIJKLMNOPQRSTUVWXYZabcdefghijklmnopqrstuvwxyz0123456789+/'' ! n"

fun base64 :: "string \<Rightarrow> string" where
  "base64 (a # b # c # s) =
     (let n = code a * 65536 + code b * 256 + code c
      in b64_char (n div 262144) # b64_char (n div 4096 mod 64) # b64_char (n div 64 mod 64) # b64_char (n mod 64) # base64 s)"
| "base64 [a, b] =
     (let n = code a * 1024 + code b * 4 in [b64_char (n div 4096), b64_char (n div 64 mod 64), b64_char (n mod 64), CHR ''=''])"
| "base64 [a] = (let n = code a * 16 in [b64_char (n div 64), b64_char (n mod 64), CHR ''='', CHR ''=''])"
| "base64 [] = []"

text \<open>UTF-8 as Python decodes it: the shortest form, no surrogates, at most \<open>U+10FFFF\<close>.\<close>

definition u8_tail :: "char \<Rightarrow> bool" where
  "u8_tail c = (128 \<le> code c \<and> code c < 192)"

fun utf8_valid :: "string \<Rightarrow> bool" where
  "utf8_valid [] = True"
| "utf8_valid (a # s) =
     (let n = code a
      in if n < 128 then utf8_valid s
         else case s of
           [] \<Rightarrow> False
         | b # s1 \<Rightarrow>
             if 194 \<le> n \<and> n < 224 then u8_tail b \<and> utf8_valid s1
             else case s1 of
               [] \<Rightarrow> False
             | c # s2 \<Rightarrow>
                 if 224 \<le> n \<and> n < 240
                 then u8_tail b \<and> u8_tail c \<and> (n = 224 \<longrightarrow> 160 \<le> code b) \<and> (n = 237 \<longrightarrow> code b < 160) \<and> utf8_valid s2
                 else case s2 of
                   [] \<Rightarrow> False
                 | d # s3 \<Rightarrow>
                     240 \<le> n \<and> n < 245 \<and> u8_tail b \<and> u8_tail c \<and> u8_tail d \<and>
                     (n = 240 \<longrightarrow> 144 \<le> code b) \<and> (n = 244 \<longrightarrow> code b < 144) \<and> utf8_valid s3)"

text \<open>\<open>_downscale_image\<close>: shrinks only, and gives the original whenever something goes wrong.\<close>

definition downscale_image :: "'r attach_env \<Rightarrow> int \<Rightarrow> string \<Rightarrow> string" where
  "downscale_image en side bytes =
     (if side \<le> 0 then bytes
      else case at_size en bytes of
        None \<Rightarrow> bytes
      | Some (w, h) \<Rightarrow>
          if max w h \<le> side then bytes
          else (case at_thumb en side bytes of None \<Rightarrow> bytes | Some small \<Rightarrow> small))"

text \<open>Reads until the cap is exceeded.\<close>

fun read_blob :: "int \<Rightarrow> string \<Rightarrow> string list \<Rightarrow> string option" where
  "read_blob cap buf [] = Some buf"
| "read_blob cap buf (c # cs) = (let b = buf @ c in if cap < int (length b) then None else read_blob cap b cs)"

section \<open>One reference\<close>

definition text_part :: "string \<Rightarrow> json" where
  "text_part s = JObj [(''text'', JStr s)]"

text \<open>The texts of the notes and refusals.\<close>

definition not_inlined :: "string \<Rightarrow> string \<Rightarrow> string \<Rightarrow> json" where
  "not_inlined name shown why =
     text_part (''[attached file '' @ py_repr name @ '' ('' @ shown @ ''): '' @ why @ '' -- contents not inlined]'')"

definition file_text :: "string \<Rightarrow> string \<Rightarrow> json" where
  "file_text name bytes = text_part (''File: '' @ name @ [newline, newline] @ bytes)"

definition attachment_too_large :: "string \<Rightarrow> attach_error" where
  "attachment_too_large s = Attach ''attachment_too_large'' s"

definition stored_too_large :: "int \<Rightarrow> int \<Rightarrow> attach_error" where
  "stored_too_large n cap = attachment_too_large (''LLM file attachment is '' @ show_int n @ '' bytes, over the '' @ show_int cap @
     ''-byte cap (provider-native upload for large media is not yet supported -- send a smaller file or a '' @
     ''provider-native reference part)'')"

definition read_too_large :: "int \<Rightarrow> attach_error" where
  "read_too_large cap = attachment_too_large (''LLM file attachment exceeds the '' @ show_int cap @ ''-byte cap'')"

definition image_too_large :: "int \<Rightarrow> int \<Rightarrow> int \<Rightarrow> attach_error" where
  "image_too_large n side cap = attachment_too_large (''image is '' @ show_int n @ '' bytes after downscaling to '' @ show_int side @
     ''px, still over the '' @ show_int cap @ ''-byte inline cap -- send a smaller image or lower ROUTER_LLM_IMAGE_MAX_LONG_SIDE_PX'')"

definition data_part :: "string \<Rightarrow> string \<Rightarrow> string \<Rightarrow> string \<Rightarrow> json" where
  "data_part k mime name bytes =
     JObj [(k, JObj [(''mime_type'', JStr mime), (''data'', JStr (base64 bytes)), (''display_name'', JStr name)])]"

definition blob_name :: "file_row \<Rightarrow> string \<Rightarrow> string" where
  "blob_name blob bare = (case f_orig blob of None \<Rightarrow> bare | Some s \<Rightarrow> if s = [] then bare else s)"

definition shown_mime :: "string option \<Rightarrow> string" where
  "shown_mime mime = (let m = base_mime mime in if m = [] then ''application/octet-stream'' else m)"

definition data_mime :: "string option \<Rightarrow> string" where
  "data_mime mime = (case mime of None \<Rightarrow> ''application/octet-stream'' | Some s \<Rightarrow> if s = [] then ''application/octet-stream'' else s)"

definition inline_blob ::
  "'r attach_env \<Rightarrow> llm_limits \<Rightarrow> json \<Rightarrow> file_row \<Rightarrow> string \<Rightarrow> attach_error + json" where
  "inline_blob en lims fr blob bare =
     (let name = blob_name blob bare;
          shown = shown_mime (f_mime blob);
          mime = data_mime (f_mime blob);
          how = classify_file (f_mime blob) (json_get fr ''as'');
          resize = (how = InlineImage \<and> 0 < image_max_side lims);
          cap = (if resize then max (image_source_cap lims) (inline_cap lims) else inline_cap lims)
      in if how = Reference then Inr (not_inlined name shown ''not a multimodal-supported type'')
         else if cap < f_size blob then Inl (stored_too_large (f_size blob) cap)
         else case at_open en (f_sha blob) of
           None \<Rightarrow> Inl (AttachCrash ''FileNotFoundError'')
         | Some chunks \<Rightarrow>
             (case read_blob cap [] chunks of
                None \<Rightarrow> Inl (read_too_large cap)
              | Some bytes \<Rightarrow>
                  if how = InlineText
                  then Inr (if utf8_valid bytes then file_text name bytes
                            else not_inlined name shown ''could not be decoded as UTF-8 text'')
                  else if how = InlineImage
                  then (let small = downscale_image en (image_max_side lims) bytes
                        in if inline_cap lims < int (length small)
                           then Inl (image_too_large (int (length small)) (image_max_side lims) (inline_cap lims))
                           else Inr (data_part ''image'' mime name small))
                  else Inr (data_part ''document'' mime name bytes)))"

section \<open>All references\<close>

text \<open>The file a reference names, and the part that replaces it.\<close>

definition resolve_ref ::
  "'r attach_env \<Rightarrow> llm_limits \<Rightarrow> user_id \<Rightarrow> session_id \<Rightarrow> json \<Rightarrow> db \<Rightarrow> attach_error + json" where
  "resolve_ref en lims uid sid fr d =
     (case json_get fr ''name'' of
        Some (JStr name) \<Rightarrow>
          (case split_named_ref name of
             None \<Rightarrow> Inl (Attach ''invalid_attachment'' (''invalid file name '' @ py_repr name))
           | Some (persistent, bare) \<Rightarrow>
               (case resolve_file_name uid (scope_for persistent sid) bare d of
                  None \<Rightarrow> Inl (Attach ''attachment_not_found'' (''no stash file named '' @ py_repr name))
                | Some n \<Rightarrow>
                    (case get_file uid (n_file n) d of
                       None \<Rightarrow> Inl (Attach ''attachment_not_found'' (''stash file '' @ py_repr name @ '' blob is missing''))
                     | Some blob \<Rightarrow> inline_blob en lims fr blob bare)))
      | _ \<Rightarrow> Inl (AttachCrash ''AttributeError''))"

fun resolve_refs ::
  "'r attach_env \<Rightarrow> llm_limits \<Rightarrow> user_id \<Rightarrow> session_id \<Rightarrow> nat \<Rightarrow> (nat \<times> nat \<times> json) list \<Rightarrow> json list \<Rightarrow> 'r router \<Rightarrow>
   (attach_error + json list) \<times> 'r router" where
  "resolve_refs en lims uid sid k [] ms r = (Inr ms, r)"
| "resolve_refs en lims uid sid k ((i, j, fr) # refs) ms r =
     (let r1 = at_others en k r
      in case resolve_ref en lims uid sid fr (rdb r1) of
           Inl e \<Rightarrow> (Inl e, r1)
         | Inr part \<Rightarrow> resolve_refs en lims uid sid (Suc k) refs (set_part i j part ms) r1)"

definition nameless :: "json \<Rightarrow> bool" where
  "nameless fr = (json_get fr ''name'' = None \<or> json_get fr ''name'' = Some JNull)"

definition resolve_request_file_refs ::
  "'r attach_env \<Rightarrow> llm_limits \<Rightarrow> json list \<Rightarrow> agent_id \<Rightarrow> task_id option \<Rightarrow> 'r router \<Rightarrow>
   (attach_error + json list) \<times> 'r router" where
  "resolve_request_file_refs en lims ms caller tid r =
     (let refs = collect_file_refs ms
      in if refs = [] then (Inr ms, r)
         else if max_file_refs lims < length refs
           then (Inl (Attach ''too_many_file_refs'' (''LLM request references '' @ show_nat (length refs) @
                   '' files; the per-request limit is '' @ show_nat (max_file_refs lims))), r)
         else if list_ex (\<lambda>(i, j, fr). nameless fr) refs
           then (Inl (Attach ''invalid_attachment'' (''each file_ref must carry a '' @ py_repr ''name'')), r)
         else if \<not> truthy tid
           then (Inl (Attach ''file_ref_requires_task'' (''a name file_ref requires the LlmRequest to carry a task_id (the scope is derived from the '' @
                   ''task, never from an asserted user_id/session_id)'')), r)
         else case derive_task_file_scope (the tid) caller (rdb r) of
           None \<Rightarrow> (Inl (Attach ''denied'' ''name file_ref task is unknown or the agent is not its active executor''), r)
         | Some (uid, sid) \<Rightarrow> resolve_refs en lims uid sid 0 refs ms r)"

end
