(* ===== verification/LlmRun.thy ===== *)
theory LlmRun
  imports UserAdmin Levels Attachments
begin

text \<open>
  An LLM request from its frame to its answers (\<open>_run_llm_call\<close> of \<open>bp_router/dispatch.py\<close>): the level
  the call runs at, the files it names, the call, and the frames that go to the agent.  Counters of
  tokens are left out, and a call that is cancelled sends nothing more.
\<close>

section \<open>Frames\<close>

record tool_call =
  tc_id :: string
  tc_name :: string
  tc_args :: json
  tc_signature :: "string option"

record token_usage =
  tu_in :: int
  tu_out :: int
  tu_thoughts :: int
  tu_cache_read :: int
  tu_cache_write :: int
  tu_cost :: int

record llm_response =
  lr_text :: string
  lr_calls :: "tool_call option list"
  lr_finish :: string
  lr_usage :: token_usage
  lr_summary :: "string option"
  lr_signature :: "string option"
  lr_blocks :: "json list"

record llm_delta =
  ld_text :: "string option"
  ld_call :: "tool_call option"
  ld_finish :: "string option"
  ld_usage :: "token_usage option"
  ld_thought :: bool
  ld_signature :: "string option"
  ld_block :: "json option"

record tool_spec =
  tl_name :: json
  tl_description :: json
  tl_parameters :: json

datatype llm_kind = Generate | Embed | CountTokens

record llm_request =
  lq_kind :: llm_kind
  lq_model :: string
  lq_preset :: "string option"
  lq_messages :: "json list"
  lq_tools :: "json list"
  lq_tool_choice :: json
  lq_args :: call_args          \<comment> \<open>\<open>temperature\<close>, \<open>max_tokens\<close>, \<open>provider_options\<close>\<close>
  lq_stream :: bool
  lq_text :: "string list option"
  lq_user :: "user_id option"   \<comment> \<open>what the agent says; nothing below looks at it\<close>
  lq_task :: "task_id option"

type_synonym usage_dict = "(string \<times> int) list"

text \<open>\<open>LlmDeltaFrame\<close> with content.\<close>

record delta_frame =
  df_text :: "string option"
  df_call :: "json option"
  df_finish :: "string option"
  df_usage :: "usage_dict option"
  df_thought :: bool
  df_signature :: "string option"
  df_block :: "json option"

record error_payload =
  ep_code :: string
  ep_message :: string
  ep_retriable :: bool
  ep_retry_after :: "rat option"
  ep_class :: "string option"

record llm_result =
  rs_text :: string
  rs_calls :: "json list"
  rs_finish :: string
  rs_usage :: usage_dict
  rs_summary :: "string option"
  rs_signature :: "string option"
  rs_blocks :: "json list"
  rs_vectors :: "rat list list"
  rs_tokens :: int
  rs_error :: "error_payload option"

text \<open>A hint carries the attempt, their number, the wait and the code of the failure.\<close>

datatype llm_frame = HintF nat nat rat string | DeltaF delta_frame | LlmResultF llm_result

definition empty_result :: llm_result where
  "empty_result = \<lparr>rs_text = [], rs_calls = [], rs_finish = ''stop'', rs_usage = [], rs_summary = None, rs_signature = None,
     rs_blocks = [], rs_vectors = [], rs_tokens = 0, rs_error = None\<rparr>"

definition LLM_MAX_TOOL_CALLS :: nat where
  "LLM_MAX_TOOL_CALLS = 256"

definition LLM_MAX_REASONING_BLOCKS :: nat where
  "LLM_MAX_REASONING_BLOCKS = 64"

definition LLM_MAX_VECTORS :: nat where
  "LLM_MAX_VECTORS = 2048"

text \<open>The validation of \<open>LlmResultFrame\<close>.\<close>

definition mk_result :: "llm_result \<Rightarrow> exn + llm_result" where
  "mk_result x =
     (if length (rs_calls x) \<le> LLM_MAX_TOOL_CALLS \<and> length (rs_blocks x) \<le> LLM_MAX_REASONING_BLOCKS \<and>
        length (rs_vectors x) \<le> LLM_MAX_VECTORS
      then Inr x else Inl (''ValidationError'', []))"

definition serialize_tool_call :: "tool_call \<Rightarrow> json" where
  "serialize_tool_call t =
     JObj ([(''id'', JStr (tc_id t)), (''name'', JStr (tc_name t)), (''args'', tc_args t)] @
       (case tc_signature t of None \<Rightarrow> [] | Some s \<Rightarrow> [(''thought_signature'', JStr s)]))"

definition serialize_tool_calls :: "tool_call option list \<Rightarrow> json list" where
  "serialize_tool_calls ts = List.map_filter (map_option serialize_tool_call) ts"

definition serialize_usage :: "token_usage \<Rightarrow> usage_dict" where
  "serialize_usage u =
     [(''input_tokens'', tu_in u), (''output_tokens'', tu_out u)] @
     (if tu_thoughts u \<noteq> 0 then [(''thoughts_tokens'', tu_thoughts u)] else []) @
     (if tu_cache_read u \<noteq> 0 then [(''cache_read_tokens'', tu_cache_read u)] else []) @
     (if tu_cache_write u \<noteq> 0 then [(''cache_write_tokens'', tu_cache_write u)] else [])"

section \<open>Messages of failures\<close>

text \<open>
  A pattern gives the number of characters it matches at the start of a text.  \<open>re.sub\<close> goes from left to
  right and goes on after a match; \<open>prev\<close> is the character before, and the patterns start at a
  word boundary.
\<close>

type_synonym pattern = "string \<Rightarrow> nat option"

definition is_word_char :: "char \<Rightarrow> bool" where
  "is_word_char c = (py_isalnum c \<or> c = CHR ''_'')"

primrec re_sub :: "pattern \<Rightarrow> string \<Rightarrow> char option \<Rightarrow> nat \<Rightarrow> string \<Rightarrow> string" where
  "re_sub m rep prev skip [] = []"
| "re_sub m rep prev skip (c # s) =
     (if 0 < skip then re_sub m rep (Some c) (skip - 1) s
      else case (if (case prev of None \<Rightarrow> False | Some p \<Rightarrow> is_word_char p) then None else m (c # s)) of
             Some n \<Rightarrow> rep @ re_sub m rep (Some c) (n - 1) s
           | None \<Rightarrow> c # re_sub m rep (Some c) 0 s)"

definition run_of :: "(char \<Rightarrow> bool) \<Rightarrow> string \<Rightarrow> nat" where
  "run_of P s = length (takeWhile P s)"

definition token_char :: "char \<Rightarrow> bool" where
  "token_char c = (is_lower c \<or> is_upper c \<or> is_digit c \<or> c \<in> set ''_-.+/='')"

definition key_char :: "char \<Rightarrow> bool" where
  "key_char c = (is_lower c \<or> is_upper c \<or> is_digit c \<or> c \<in> set ''_-'')"

definition bearer_re :: pattern where
  "bearer_re s =
     (if \<not> starts_with ''bearer'' (py_lower s) then None
      else (let s1 = drop 6 s; w = run_of py_white s1; k = run_of token_char (drop w s1)
            in if w = 0 \<or> k = 0 then None else Some (6 + w + k)))"

definition api_key_re :: pattern where
  "api_key_re s =
     (if \<not> starts_with ''api'' (py_lower s) then None
      else (let s1 = drop 3 s; j = (if s1 \<noteq> [] \<and> hd s1 \<in> set ''_-'' then 1 else 0); s2 = drop j s1
            in if \<not> starts_with ''key'' (py_lower s2) then None
               else (let s3 = drop 3 s2; w = run_of py_white s3; s4 = drop w s3
                     in if s4 = [] \<or> hd s4 \<notin> set '':='' then None
                        else (let v = run_of py_white (tl s4); k = run_of token_char (drop v (tl s4))
                              in if k = 0 then None else Some (7 + j + w + v + k)))))"

definition oai_sk_re :: pattern where
  "oai_sk_re s =
     (if \<not> starts_with ''sk-'' s then None
      else (let k = run_of key_char (drop 3 s) in if k < 8 then None else Some (3 + k)))"

definition SCRUB_MAX_LEN :: nat where
  "SCRUB_MAX_LEN = 256"

text \<open>The one character U+2026 stands outside the texts of the model, which end at 255.\<close>

definition ellipsis :: char where
  "ellipsis = char_of (133 :: nat)"

definition scrub_upstream_message :: "string \<Rightarrow> string" where
  "scrub_upstream_message msg =
     (let m = re_sub oai_sk_re ''sk-***'' None 0 (re_sub api_key_re ''api_key=***'' None 0
                (re_sub bearer_re ''Bearer ***'' None 0 msg))
      in if SCRUB_MAX_LEN < length m then take (SCRUB_MAX_LEN - 1) m @ [ellipsis] else m)"

text \<open>\<open>_err_result\<close>.\<close>

definition err_result :: "string \<Rightarrow> string \<Rightarrow> rat option \<Rightarrow> string \<Rightarrow> llm_frame" where
  "err_result message ecode retry_after cls =
     LlmResultF (empty_result\<lparr>rs_error := Some
       \<lparr>ep_code = ecode, ep_message = scrub_upstream_message message, ep_retriable = (ecode \<in> set RETRIABLE_LLM_CODES),
        ep_retry_after = retry_after, ep_class = (if cls = [] then None else Some cls)\<rparr>\<rparr>)"

definition internal_error :: llm_frame where
  "internal_error = err_result ''internal_error'' ''internal_error'' None []"

fun llm_error_frame :: "llm_error \<Rightarrow> llm_frame" where
  "llm_error_frame (PresetUnknown n) = err_result (''unknown preset: '' @ py_repr n) ''preset_unknown'' None []"
| "llm_error_frame (PresetNotAllowed n lvl q) =
     err_result (''preset '' @ py_repr n @ '' requires min_user_level='' @ py_repr q @ ''; caller is at level '' @ py_repr_opt lvl)
       ''preset_not_allowed'' None []"
| "llm_error_frame (LlmUpstream h msg) = err_result msg (rh_code h) (rh_retry_after h) (rh_class h)"
| "llm_error_frame (StreamInterrupted msg n cls) = err_result msg ''stream_interrupted'' None cls"
| "llm_error_frame (Other e) = internal_error"

fun attach_error_frame :: "attach_error \<Rightarrow> llm_frame" where
  "attach_error_frame (Attach ecode msg) = err_result msg ecode None []"
| "attach_error_frame (AttachCrash e) = internal_error"

section \<open>The level of a call\<close>

text \<open>
  Whether the database fails the gate, the time, and what other coroutines do in the waits: for a
  connection, between the two queries, and before the files are resolved.
\<close>

record 'r run_env =
  re_outage :: bool
  re_now :: time
  re_wait :: "nat \<Rightarrow> 'r router \<Rightarrow> 'r router"

text \<open>The level of the user whose task the agent executes.\<close>

definition executor_level :: "'r run_env \<Rightarrow> task_id \<Rightarrow> agent_id \<Rightarrow> 'r router \<Rightarrow> level option \<times> 'r router" where
  "executor_level en tid agent r =
     (let r1 = re_wait en 0 r
      in case derive_task_file_scope tid agent (rdb r1) of
           None \<Rightarrow> (None, r1)
         | Some (uid, sid) \<Rightarrow> resolve_user_level uid (re_now en) (re_wait en 1 r1))"

definition requested_preset :: "llm_request \<Rightarrow> string" where
  "requested_preset q = (if truthy (lq_preset q) then the (lq_preset q) else lq_model q)"

definition preset_gated :: "preset_map \<Rightarrow> string \<Rightarrow> bool" where
  "preset_gated ps name = (case map_of ps name of None \<Rightarrow> False | Some p \<Rightarrow> ps_level p \<noteq> ''*'')"

definition gate_level ::
  "'r run_env \<Rightarrow> agent_id \<Rightarrow> llm_request \<Rightarrow> 'r router \<Rightarrow> (llm_frame + level option) \<times> 'r router" where
  "gate_level en agent q r =
     (let name = requested_preset q
      in if preset_gated (presets r) name
         then (case lq_task q of
                 None \<Rightarrow>
                   (Inl (err_result ''tier-gated preset requires a task context to verify the caller's level''
                      ''preset_not_allowed'' None []), r)
               | Some tid \<Rightarrow>
                   if re_outage en
                   then (Inl (err_result ''user-level lookup unavailable; tier gate cannot be evaluated for this preset''
                           ''auth_lookup_failed'' None []), re_wait en 0 r)
                   else (case executor_level en tid agent r of
                           (None, r1) \<Rightarrow>
                             (Inl (err_result ''caller could not be verified for this tier-gated preset''
                                ''preset_not_allowed'' None []), r1)
                         | (Some lvl, r1) \<Rightarrow> (Inr (Some lvl), r1)))
         else if chain_needs_tier (presets r) name
         then (case lq_task q of
                 None \<Rightarrow> (Inr None, r)
               | Some tid \<Rightarrow>
                   if re_outage en then (Inr None, re_wait en 0 r)
                   else (let (lvl, r1) = executor_level en tid agent r in (Inr lvl, r1)))
         else (Inr None, r))"

section \<open>The arguments\<close>

definition json_field :: "json \<Rightarrow> string \<Rightarrow> json" where
  "json_field j k = (case json_get j k of None \<Rightarrow> JNull | Some v \<Rightarrow> v)"

definition json_item :: "json \<Rightarrow> string \<Rightarrow> exn + json" where
  "json_item j k = (case json_get j k of None \<Rightarrow> Inl (''KeyError'', py_repr k) | Some v \<Rightarrow> Inr v)"

fun map_err :: "('a \<Rightarrow> exn + 'b) \<Rightarrow> 'a list \<Rightarrow> exn + 'b list" where
  "map_err f [] = Inr []"
| "map_err f (x # xs) = bindE (f x) (\<lambda>y. bindE (map_err f xs) (\<lambda>ys. Inr (y # ys)))"

definition to_message :: "json \<Rightarrow> exn + message" where
  "to_message m =
     bindE (json_item m ''role'') (\<lambda>role. bindE (json_item m ''content'') (\<lambda>c.
     Inr \<lparr>ms_role = role, ms_content = c, ms_name = json_field m ''name'', ms_tool_call = json_field m ''tool_call_id''\<rparr>))"

definition to_tool :: "json \<Rightarrow> exn + tool_spec" where
  "to_tool t =
     bindE (json_item t ''name'') (\<lambda>n.
     Inr \<lparr>tl_name = n,
          tl_description = (case json_get t ''description'' of None \<Rightarrow> JStr [] | Some d \<Rightarrow> d),
          tl_parameters = (if has_truthy t ''parameters'' then json_field t ''parameters''
             else if has_truthy t ''input_schema'' then json_field t ''input_schema'' else JObj [])\<rparr>)"

section \<open>The call\<close>

text \<open>What the providers answer, given the arguments.\<close>

record 'r providers =
  pv_embed :: "string list \<Rightarrow> (rat list list, 'r) upstream"
  pv_count :: "message list \<Rightarrow> (int, 'r) upstream"
  pv_generate :: "message list \<Rightarrow> tool_spec list option \<Rightarrow> json \<Rightarrow> (llm_response, 'r) upstream"
  pv_opens :: "message list \<Rightarrow> tool_spec list option \<Rightarrow> json \<Rightarrow> call_params \<Rightarrow> adapter \<Rightarrow> nat \<Rightarrow> llm_delta opened"

definition answer_frame :: "llm_error + llm_result \<Rightarrow> llm_frame" where
  "answer_frame x =
     (case x of
        Inl e \<Rightarrow> llm_error_frame e
      | Inr y \<Rightarrow> (case mk_result y of Inl e \<Rightarrow> internal_error | Inr z \<Rightarrow> LlmResultF z))"

definition response_result :: "llm_response \<Rightarrow> llm_result" where
  "response_result x = empty_result\<lparr>rs_text := lr_text x, rs_calls := serialize_tool_calls (lr_calls x),
     rs_finish := lr_finish x, rs_usage := serialize_usage (lr_usage x), rs_summary := lr_summary x,
     rs_signature := lr_signature x, rs_blocks := lr_blocks x\<rparr>"

text \<open>The fields of the deltas that add up to the last frame of a stream.\<close>

record stream_sum =
  su_finish :: string
  su_usage :: token_usage
  su_blocks :: "json list"

definition no_usage :: token_usage where
  "no_usage = \<lparr>tu_in = 0, tu_out = 0, tu_thoughts = 0, tu_cache_read = 0, tu_cache_write = 0, tu_cost = 0\<rparr>"

definition no_sum :: stream_sum where
  "no_sum = \<lparr>su_finish = ''stop'', su_usage = no_usage, su_blocks = []\<rparr>"

definition max_usage :: "token_usage \<Rightarrow> token_usage \<Rightarrow> token_usage" where
  "max_usage a b =
     \<lparr>tu_in = max (tu_in a) (tu_in b), tu_out = max (tu_out a) (tu_out b), tu_thoughts = max (tu_thoughts a) (tu_thoughts b),
      tu_cache_read = max (tu_cache_read a) (tu_cache_read b), tu_cache_write = max (tu_cache_write a) (tu_cache_write b),
      tu_cost = max (tu_cost a) (tu_cost b)\<rparr>"

definition add_delta :: "llm_delta \<Rightarrow> stream_sum \<Rightarrow> stream_sum" where
  "add_delta d s =
     \<lparr>su_finish = (if truthy (ld_finish d) then the (ld_finish d) else su_finish s),
      su_usage = (case ld_usage d of None \<Rightarrow> su_usage s | Some u \<Rightarrow> max_usage (su_usage s) u),
      su_blocks = su_blocks s @ (case ld_block d of None \<Rightarrow> [] | Some b \<Rightarrow> if json_truthy b then [b] else [])\<rparr>"

fun add_yielded :: "llm_delta yielded \<Rightarrow> stream_sum \<Rightarrow> stream_sum" where
  "add_yielded (Hint j m w c) s = s"
| "add_yielded (Delta d) s = add_delta d s"

definition wire_delta :: "llm_delta \<Rightarrow> delta_frame" where
  "wire_delta d =
     \<lparr>df_text = ld_text d, df_call = map_option serialize_tool_call (ld_call d), df_finish = ld_finish d,
      df_usage = map_option serialize_usage (ld_usage d), df_thought = ld_thought d, df_signature = ld_signature d,
      df_block = ld_block d\<rparr>"

text \<open>The values of a hint are within what \<open>LlmDeltaMeta\<close> allows whenever the draws are.\<close>

fun yielded_frame :: "llm_delta yielded \<Rightarrow> llm_frame" where
  "yielded_frame (Hint j m w c) = HintF j m w c"
| "yielded_frame (Delta d) = DeltaF (wire_delta d)"

definition sum_result :: "stream_sum \<Rightarrow> llm_result" where
  "sum_result s = empty_result\<lparr>rs_finish := su_finish s, rs_usage := serialize_usage (su_usage s), rs_blocks := su_blocks s\<rparr>"

text \<open>Recording the outcome of a stream resolves its preset again, if it still exists.\<close>

definition record_streaming_outcome :: "('m, 'r) upstream \<Rightarrow> string \<Rightarrow> 'r router \<Rightarrow> 'r router" where
  "record_streaming_outcome us name r =
     (case map_of (presets r) name of None \<Rightarrow> r | Some p \<Rightarrow> snd (resolve_one us p no_args r))"

definition run_stream ::
  "'r providers \<Rightarrow> llm_request \<Rightarrow> level option \<Rightarrow> message list \<Rightarrow> tool_spec list option \<Rightarrow> 'r router \<Rightarrow>
   llm_frame list \<times> preset list \<times> 'r router" where
  "run_stream pv q lvl ms tools r =
     (let name = requested_preset q; us = pv_generate pv ms tools (lq_tool_choice q);
          (ys, err, r1) = stream_call us (pv_opens pv ms tools (lq_tool_choice q)) name lvl (lq_args q) r;
          ps = (case fst (resolve_first us name lvl (lq_args q) r) of Inl e \<Rightarrow> [] | Inr (c, a, p) \<Rightarrow> [p])
      in case err of
           Some e \<Rightarrow> (map yielded_frame ys @ [llm_error_frame e], ps, r1)
         | None \<Rightarrow>
             (let x = mk_result (sum_result (fold add_yielded ys no_sum))
              in (map yielded_frame ys @ [case x of Inl e \<Rightarrow> internal_error | Inr z \<Rightarrow> LlmResultF z], ps,
                  case x of Inl e \<Rightarrow> r1 | Inr z \<Rightarrow> record_streaming_outcome us name r1)))"

text \<open>The call proper: its frames, and the presets whose provider it asked.\<close>

definition asked :: "llm_event list \<Rightarrow> preset list" where
  "asked evs = List.map_filter (\<lambda>e. case e of Tried p x \<Rightarrow> Some p | Slept w \<Rightarrow> None) evs"

definition run_kind ::
  "'r providers \<Rightarrow> llm_request \<Rightarrow> level option \<Rightarrow> json list \<Rightarrow> 'r router \<Rightarrow> llm_frame list \<times> preset list \<times> 'r router" where
  "run_kind pv q lvl msgs r =
     (let name = requested_preset q
      in case lq_kind q of
           Embed \<Rightarrow>
             (let inputs = (case lq_text q of None \<Rightarrow> [] | Some ts \<Rightarrow> ts);
                  (x, evs, r1) = embed (pv_embed pv inputs) name lvl r
              in ([answer_frame (map_sum id (\<lambda>vs. empty_result\<lparr>rs_vectors := vs\<rparr>) x)], asked evs, r1))
         | CountTokens \<Rightarrow>
             (case map_err to_message msgs of
                Inl e \<Rightarrow> ([internal_error], [], r)
              | Inr ms \<Rightarrow>
                  (let (x, evs, r1) = call_with_fallback (pv_count pv ms) no_args name lvl False r
                   in ([answer_frame (map_sum id (\<lambda>(a, used, n). empty_result\<lparr>rs_tokens := n\<rparr>) x)], asked evs, r1)))
         | Generate \<Rightarrow>
             (case bindE (map_err to_message msgs) (\<lambda>ms. map_sum id (Pair ms) (map_err to_tool (lq_tools q))) of
                Inl e \<Rightarrow> ([internal_error], [], r)
              | Inr (ms, ts) \<Rightarrow>
                  (let tools = (if ts = [] then None else Some ts)
                   in if lq_stream q then run_stream pv q lvl ms tools r
                      else (let (x, evs, r1) = generate (pv_generate pv ms tools (lq_tool_choice q)) (lq_args q) name lvl ms r
                            in ([answer_frame (map_sum id (\<lambda>(a, used, y). response_result y) x)], asked evs, r1)))))"

text \<open>\<open>_run_llm_call\<close>: the frames handed to the outbox in order, the presets asked, and the router after.\<close>

definition run_llm_call ::
  "'r run_env \<Rightarrow> 'r attach_env \<Rightarrow> llm_limits \<Rightarrow> 'r providers \<Rightarrow> agent_id \<Rightarrow> llm_request \<Rightarrow> 'r router \<Rightarrow>
   llm_frame list \<times> preset list \<times> 'r router" where
  "run_llm_call en ats lims pv agent q r =
     (case gate_level en agent q r of
        (Inl f, r1) \<Rightarrow> ([f], [], r1)
      | (Inr lvl, r1) \<Rightarrow>
          (case resolve_request_file_refs ats lims (lq_messages q) agent (lq_task q) (re_wait en 2 r1) of
             (Inl e, r2) \<Rightarrow> ([attach_error_frame e], [], r2)
           | (Inr msgs, r2) \<Rightarrow> run_kind pv q lvl msgs r2))"

end
