(* ===== verification/LlmProps.thy ===== *)
theory LlmProps
  imports LlmCalls PresetProps TaskProps
begin

text \<open>
  What a call through the LLM service promises: it tries what its plan says and stops at the first
  success, never goes to a preset above the level of its user, waits no longer than agreed, and a
  stream hands out the deltas of one try only.
\<close>

section \<open>The plan of a call\<close>

definition tries_of :: "preset \<Rightarrow> nat" where
  "tries_of p = nat (max 0 (ps_retries p)) + 1"

text \<open>
  The requested preset, and of the fallbacks those that the user may use and, when the conversation
  carries ids of tool calls, that go to the provider that made them.
\<close>

definition may_follow :: "level option \<Rightarrow> bool \<Rightarrow> preset \<Rightarrow> preset \<Rightarrow> bool" where
  "may_follow lvl hist p q \<longleftrightarrow>
     user_level_satisfies lvl (ps_level q) \<and> (hist \<longrightarrow> ps_provider q = ps_provider p)"

definition eligible :: "level option \<Rightarrow> bool \<Rightarrow> preset list \<Rightarrow> preset list" where
  "eligible lvl hist way = (case way of [] \<Rightarrow> [] | p # ps \<Rightarrow> p # filter (may_follow lvl hist p) ps)"

definition plan :: "preset list \<Rightarrow> preset list" where
  "plan ps = concat (map (\<lambda>p. replicate (tries_of p) p) ps)"

fun tried :: "llm_event list \<Rightarrow> (preset \<times> exn option) list" where
  "tried [] = []"
| "tried (Tried p e # evs) = (p, e) # tried evs"
| "tried (Slept w # evs) = tried evs"

abbreviation failures :: "(preset \<times> exn option) list \<Rightarrow> bool" where
  "failures ts \<equiv> list_all (\<lambda>t. snd t \<noteq> None) ts"

lemma tried_append [simp]: "tried (xs @ ys) = tried xs @ tried ys"
  by (induction xs rule: tried.induct) simp_all

lemma plan_simps [simp]: "plan [] = []" "plan (p # ps) = replicate (tries_of p) p @ plan ps"
  by (simp_all add: plan_def)

text \<open>Won: the last of the tries is the first that succeeded.\<close>

definition won :: "(preset \<times> exn option) list \<Rightarrow> bool" where
  "won ts \<longleftrightarrow> ts \<noteq> [] \<and> snd (last ts) = None \<and> failures (butlast ts)"

definition lost :: "(preset \<times> exn option) list \<Rightarrow> (exn \<times> hint) option \<Rightarrow> (exn \<times> hint) option \<Rightarrow> bool" where
  "lost ts before failed \<longleftrightarrow> failures ts \<and>
     (if ts = [] then failed = before else \<exists>e h. failed = Some (e, h) \<and> snd (last ts) = Some e)"

lemma won_Cons: "won ts \<Longrightarrow> won ((p, Some e) # ts)"
  by (auto simp: won_def)

lemma won_append: "failures ts \<Longrightarrow> won us \<Longrightarrow> won (ts @ us)"
  by (auto simp: won_def butlast_append list_all_iff)

lemma lost_Cons: "lost ts (Some (e, h)) failed \<Longrightarrow> lost ((p, Some e) # ts) before failed"
  by (auto simp: lost_def split: if_splits)

lemma lost_append: "lost ts before mid \<Longrightarrow> lost us mid failed \<Longrightarrow> lost (ts @ us) before failed"
  by (auto simp: lost_def split: if_splits)

lemma try_fails:
  assumes "attempt us ca p n r = (Inl e, r1)" "try_preset us ca p cl tries (i # is) n failed r = (res, evs, n', r')"
  obtains evs' q where
    "try_preset us ca p cl tries is (Suc n) (Some (e, safe_classify us cl e)) q = (res, evs', n', r')"
    "evs = Tried p (Some e) # (if i = tries - 1 then []
       else [Slept (backoff (us_random us n) i (rh_retry_after (safe_classify us cl e)))]) @ evs'"
  using assms by (auto simp: Let_def split: prod.splits)

lemma try_succeeds:
  "attempt us ca p n r = (Inr (a, x), r1) \<Longrightarrow> try_preset us ca p cl tries (i # is) n failed r = (res, evs, n', r') \<Longrightarrow>
   res = Inr (a, x) \<and> evs = [Tried p None]"
  by simp

lemma try_preset_plan:
  "try_preset us ca p cl tries is n failed r = (res, evs, n', r') \<Longrightarrow>
   case res of
     Inr y \<Rightarrow> won (tried evs) \<and> length (tried evs) \<le> length is \<and> map fst (tried evs) = replicate (length (tried evs)) p
   | Inl failed' \<Rightarrow> lost (tried evs) failed failed' \<and> map fst (tried evs) = replicate (length is) p"
proof (induction "is" arbitrary: n failed r evs)
  case (Cons i "is")
  obtain y r1 where at: "attempt us ca p n r = (y, r1)" by fastforce
  show ?case
  proof (cases y)
    case (Inl e)
    obtain evs' q where rest: "try_preset us ca p cl tries is (Suc n) (Some (e, safe_classify us cl e)) q = (res, evs', n', r')"
      and evs: "tried evs = (p, Some e) # tried evs'"
      by (rule try_fails [OF at [unfolded Inl] Cons.prems]) (auto split: if_splits)
    show ?thesis using Cons.IH [OF rest] by (auto simp: evs won_Cons lost_Cons split: sum.splits)
  next
    case (Inr z)
    then show ?thesis using try_succeeds [OF _ Cons.prems] at by (cases z) (simp add: won_def)
  qed
qed (auto simp: lost_def)

section \<open>Walking the chain\<close>

text \<open>The presets that are tried from a place in the chain on; the first of the chain always is.\<close>

definition tried_from :: "level option \<Rightarrow> bool \<Rightarrow> preset \<Rightarrow> bool \<Rightarrow> preset list \<Rightarrow> preset list" where
  "tried_from lvl hist p started ps =
     (if started then filter (may_follow lvl hist p) ps
      else case ps of [] \<Rightarrow> [] | q # qs \<Rightarrow> q # filter (may_follow lvl hist p) qs)"

lemma tried_from_Cons:
  "tried_from lvl hist p started (q # qs) =
     (if started \<and> \<not> may_follow lvl hist p q then tried_from lvl hist p True qs else q # tried_from lvl hist p True qs)"
  by (simp add: tried_from_def)

text \<open>The tries that were made, against the tries that were due.\<close>

definition as_planned :: "preset list \<Rightarrow> (exn \<times> hint) option \<Rightarrow> (exn \<times> hint) option + adapter \<times> string \<times> 'm \<Rightarrow>
   (preset \<times> exn option) list \<Rightarrow> bool" where
  "as_planned due before res ts \<longleftrightarrow> map fst ts = take (length ts) due \<and>
     (case res of
        Inr (a, used, x) \<Rightarrow> won ts \<and> used = ps_name (fst (last ts))
      | Inl failed \<Rightarrow> length ts = length due \<and> lost ts before failed)"

lemma as_planned_won:
  "won ts \<Longrightarrow> map fst ts = replicate (length ts) p \<Longrightarrow> length ts \<le> tries_of p \<Longrightarrow>
   as_planned (plan (p # ps)) before (Inr (a, ps_name p, x)) ts"
proof -
  assume w: "won ts" and m: "map fst ts = replicate (length ts) p" and l: "length ts \<le> tries_of p"
  have "fst (last ts) = last (map fst ts)" using w by (simp add: won_def last_map)
  also have "\<dots> = p" using w by (simp add: m won_def)
  finally show ?thesis using w m l by (simp add: as_planned_def)
qed

lemma as_planned_lost:
  "lost ts before mid \<Longrightarrow> map fst ts = replicate (tries_of p) p \<Longrightarrow> as_planned (plan ps) mid res us \<Longrightarrow>
   as_planned (plan (p # ps)) before res (ts @ us)"
proof -
  assume l: "lost ts before mid" and m: "map fst ts = replicate (tries_of p) p" and u: "as_planned (plan ps) mid res us"
  have n: "length ts = tries_of p" using m by (metis length_map length_replicate)
  show ?thesis
  proof (cases res)
    case (Inl failed)
    then show ?thesis using u l m n lost_append by (auto simp: as_planned_def)
  next
    case (Inr y)
    then show ?thesis using u l m n won_append [of ts us]
      by (cases y) (auto simp: as_planned_def lost_def won_def)
  qed
qed

lemma call_each_plan:
  "call_each us ca lvl hist origin started ps n failed r = (res, evs, r') \<Longrightarrow>
   as_planned (plan (tried_from lvl hist origin started ps)) failed res (tried evs)"
proof (induction ps arbitrary: started n failed r evs r')
  case Nil
  then show ?case by (auto simp: as_planned_def lost_def tried_from_def)
next
  case (Cons p ps)
  show ?case
  proof (cases "started \<and> \<not> may_follow lvl hist origin p")
    case True
    then obtain r1 where "call_each us ca lvl hist origin True ps n failed r1 = (res, evs, r')"
      using Cons.prems by (auto simp: may_follow_def split: if_splits)
    from Cons.IH [OF this] show ?thesis using True by (simp add: tried_from_Cons)
  next
    case False
    then have go: "\<not> (started \<and> \<not> user_level_satisfies lvl (ps_level p))"
        "\<not> (started \<and> hist \<and> ps_provider p \<noteq> ps_provider origin)"
      by (auto simp: may_follow_def)
    have tf: "tried_from lvl hist origin started (p # ps) = p # tried_from lvl hist origin True ps"
      unfolding tried_from_Cons using False by (rule if_not_P)
    obtain found r1 where f: "resolve_one us p no_args r = (found, r1)" by fastforce
    let ?cl = "case found of Inl e \<Rightarrow> None | Inr (c, a) \<Rightarrow> Some a"
    obtain out evs1 n1 r2 where t: "try_preset us ca p ?cl (tries_of p) [0..<tries_of p] n failed r1 = (out, evs1, n1, r2)"
      by (metis prod_cases4)
    note tp = try_preset_plan [OF t]
    show ?thesis
    proof (cases out)
      case (Inl mid)
      then obtain evs2 r3 where rest: "call_each us ca lvl hist origin True ps n1 mid r2 = (res, evs2, r3)"
        and evs: "evs = evs1 @ evs2"
        using Cons.prems go f t by (auto simp: Let_def tries_of_def split: prod.splits)
      have "as_planned (plan (p # tried_from lvl hist origin True ps)) failed res (tried evs1 @ tried evs2)"
        by (rule as_planned_lost [OF _ _ Cons.IH [OF rest]]) (use tp Inl in simp_all)
      then show ?thesis by (simp add: tf evs)
    next
      case (Inr y)
      then obtain a x where y: "y = (a, x)" by fastforce
      have "res = Inr (a, ps_name p, x)" "evs = evs1"
        using Cons.prems go f t Inr y by (auto simp: Let_def tries_of_def)
      moreover have "as_planned (plan (p # tried_from lvl hist origin True ps)) failed (Inr (a, ps_name p, x)) (tried evs1)"
        by (rule as_planned_won) (use tp Inr in simp_all)
      ultimately show ?thesis by (simp add: tf)
    qed
  qed
qed


section \<open>Levels and providers\<close>

lemma call_events:
  "map_of (presets r) name = Some first \<Longrightarrow>
   fst (snd (call_with_fallback us ca name lvl hist r)) =
   (if user_level_satisfies lvl (ps_level first)
    then fst (snd (call_each us ca lvl hist first False (walk_fallback_chain (presets r) name) 0 None r)) else [])"
  by (simp add: call_with_fallback_def Let_def split: prod.split sum.split option.split)

text \<open>What is tried is the requested preset or may follow it.\<close>

lemma tried_from_plan: "x \<in> set (plan ps) \<Longrightarrow> x \<in> set ps"
  by (auto simp: plan_def)

lemma tried_presets_allowed_each:
  "as_planned (plan (eligible lvl hist (p # qs))) before res ts \<Longrightarrow> user_level_satisfies lvl (ps_level p) \<Longrightarrow>
   list_all (\<lambda>t. user_level_satisfies lvl (ps_level (fst t)) \<and> (hist \<longrightarrow> ps_provider (fst t) = ps_provider p)) ts"
proof -
  assume ap: "as_planned (plan (eligible lvl hist (p # qs))) before res ts" and p: "user_level_satisfies lvl (ps_level p)"
  have "fst t \<in> set (p # filter (may_follow lvl hist p) qs)" if "t \<in> set ts" for t
  proof -
    have "fst t \<in> set (map fst ts)" using that by simp
    also have "map fst ts = take (length ts) (plan (eligible lvl hist (p # qs)))" using ap by (simp add: as_planned_def)
    finally have "fst t \<in> set (eligible lvl hist (p # qs))" using tried_from_plan in_set_takeD by meson
    then show ?thesis by (simp only: eligible_def list.case)
  qed
  then show ?thesis using p by (auto simp: list_all_iff may_follow_def)
qed

text \<open>
  No preset that a call tries is above the level of its user, whatever chain the request enters; and
  a conversation with ids of tool calls stays with the provider of the preset that was asked for.
\<close>

theorem fallback_respects_level:
  "list_all (\<lambda>t. user_level_satisfies lvl (ps_level (fst t)) \<and>
      (if hist then map_option ps_provider (map_of (presets r) name) = Some (ps_provider (fst t)) else True))
    (tried (fst (snd (call_with_fallback us ca name lvl hist r))))"
proof (cases "map_of (presets r) name")
  case None
  then show ?thesis by (simp add: call_with_fallback_def)
next
  case (Some first)
  let ?way = "walk_fallback_chain (presets r) name"
  obtain out evs r1 where c: "call_each us ca lvl hist first False ?way 0 None r = (out, evs, r1)" by (metis prod_cases3)
  obtain qs where way: "?way = first # qs" using Some by (simp add: walk_fallback_chain_def walk_simps)
  have "as_planned (plan (eligible lvl hist (first # qs))) None out (tried evs)"
    using call_each_plan [OF c] by (simp add: tried_from_def eligible_def way)
  note each = tried_presets_allowed_each [OF this]
  show ?thesis
  proof (cases "user_level_satisfies lvl (ps_level first)")
    case True
    then show ?thesis using each [OF True] by (simp add: call_events [OF Some] c Some list_all_iff)
  qed (simp add: call_events [OF Some])
qed

text \<open>
  The gate of a request may skip looking the level up when no preset of the chain is gated: the call
  is then the same at every level.
\<close>

lemma call_each_ungated:
  "list_all (\<lambda>p. ps_level p = ''*'') ps \<Longrightarrow>
   call_each us ca lvl hist origin started ps n failed r = call_each us ca lvl' hist origin started ps n failed r"
  by (induction ps arbitrary: started n failed r) (auto simp: user_level_satisfies_def Let_def split: prod.splits sum.splits)

theorem ungated_chain_ignores_level:
  assumes "\<not> chain_needs_tier (presets r) name"
  shows "call_with_fallback us ca name lvl hist r = call_with_fallback us ca name lvl' hist r"
proof (cases "map_of (presets r) name")
  case (Some first)
  let ?way = "walk_fallback_chain (presets r) name"
  have u: "list_all (\<lambda>p. ps_level p = ''*'') ?way"
    using assms Some by (simp add: chain_needs_tier_def list_all_iff list_ex_iff)
  obtain qs where "?way = first # qs" using Some by (simp add: walk_fallback_chain_def walk_simps)
  then have "ps_level first = ''*''" using u by simp
  then show ?thesis using call_each_ungated [OF u, of us ca lvl hist first False 0 None r lvl'] Some
    by (simp add: call_with_fallback_def user_level_satisfies_def)
qed (simp add: call_with_fallback_def)

section \<open>Waits\<close>

definition draws :: "('m, 'r) upstream \<Rightarrow> bool" where
  "draws us \<longleftrightarrow> (\<forall>n. 0 \<le> us_random us n \<and> us_random us n \<le> 1)"

lemma backoff_bounds: "0 \<le> u \<Longrightarrow> u \<le> 1 \<Longrightarrow> 0 \<le> backoff u i w \<and> backoff u i w \<le> 10"
proof -
  assume u: "0 \<le> u" "u \<le> 1"
  have "0 \<le> (4 / 5 + 2 / 5 * u :: rat)" using u by simp
  then have some: "0 \<le> backoff u i (Some s) \<and> backoff u i (Some s) \<le> 10" for s
    by (auto simp: compute_backoff_def Let_def intro: mult_nonneg_nonneg)
  let ?c = "min (1 / 2 * 2 ^ i) 10 :: rat"
  have c: "0 \<le> ?c" "?c \<le> 10" by simp_all
  have "?c * u \<le> ?c * 1" by (rule mult_left_mono) (use u c in simp_all)
  then have "0 \<le> ?c * u \<and> ?c * u \<le> 10" using u c by auto
  then show ?thesis using some by (cases w) (simp_all add: compute_backoff_def Let_def)
qed

definition short_waits :: "llm_event list \<Rightarrow> bool" where
  "short_waits = list_all (\<lambda>e. case e of Slept w \<Rightarrow> 0 \<le> w \<and> w \<le> 10 | Tried p x \<Rightarrow> True)"

lemma short_waits_simps [simp]:
  "short_waits []" "short_waits (Tried p x # es) = short_waits es"
  "short_waits (Slept w # es) \<longleftrightarrow> 0 \<le> w \<and> w \<le> 10 \<and> short_waits es"
  "short_waits (xs @ ys) \<longleftrightarrow> short_waits xs \<and> short_waits ys"
  by (auto simp: short_waits_def)

lemma try_preset_waits:
  assumes "draws us"
  shows "try_preset us ca p cl tries is n failed r = (res, evs, n', r') \<Longrightarrow> short_waits evs"
proof (induction "is" arbitrary: n failed r evs)
  case (Cons i "is")
  obtain y r1 where at: "attempt us ca p n r = (y, r1)" by fastforce
  show ?case
  proof (cases y)
    case (Inl e)
    obtain evs' q where rest: "try_preset us ca p cl tries is (Suc n) (Some (e, safe_classify us cl e)) q = (res, evs', n', r')"
      and evs: "short_waits evs = short_waits evs'"
      by (rule try_fails [OF at [unfolded Inl] Cons.prems])
        (use assms backoff_bounds in \<open>auto simp: draws_def split: if_splits\<close>)
    show ?thesis using Cons.IH [OF rest] by (simp add: evs)
  next
    case (Inr z)
    then show ?thesis using try_succeeds [OF _ Cons.prems] at by (cases z) simp
  qed
qed simp

lemma call_each_waits:
  assumes "draws us"
  shows "call_each us ca lvl hist origin started ps n failed r = (res, evs, r') \<Longrightarrow> short_waits evs"
proof (induction ps arbitrary: started n failed r evs r')
  case (Cons p ps)
  then show ?case
    by (auto simp: Let_def simp del: upt_Suc split: prod.splits sum.splits if_splits dest: try_preset_waits [OF assms])
qed simp

lemma length_plan: "list_all (\<lambda>p. max_retries_in_range (ps_retries p)) ps \<Longrightarrow> length (plan ps) \<le> 11 * length ps"
  by (induction ps) (auto simp: tries_of_def max_retries_in_range_def MAX_RETRIES_MAX_def)

lemma walk_in_map: "p \<in> set (walk_from ps seen cur) \<Longrightarrow> p \<in> snd ` set ps"
proof (induction ps seen cur rule: walk_from.induct)
  case (1 ps seen cur)
  show ?case
  proof (cases rule: walk_cases [of ps seen cur])
    case (go n q)
    then show ?thesis using 1 map_of_SomeD by (fastforce simp: rev_image_eqI)
  qed (use 1 in simp)
qed

text \<open>
  No wait of a call lasts longer than ten seconds, whatever a provider asks for, and a call makes at
  most eleven tries of each preset of its chain as long as the presets keep their bounds.
\<close>

theorem waits_and_tries_bounded:
  assumes "draws us" "list_all (\<lambda>(k, p). max_retries_in_range (ps_retries p)) (presets r)"
  shows "let evs = fst (snd (call_with_fallback us ca name lvl hist r))
    in short_waits evs \<and> length (tried evs) \<le> 11 * length (walk_fallback_chain (presets r) name)"
proof (cases "map_of (presets r) name")
  case None
  then show ?thesis by (simp add: call_with_fallback_def)
next
  case (Some first)
  let ?way = "walk_fallback_chain (presets r) name"
  obtain out evs r1 where c: "call_each us ca lvl hist first False ?way 0 None r = (out, evs, r1)" by (metis prod_cases3)
  have w: "short_waits evs" by (rule call_each_waits [OF assms(1) c])
  have "length (tried evs) \<le> length (plan (tried_from lvl hist first False ?way))"
    using call_each_plan [OF c] by (cases out) (auto simp: as_planned_def dest!: arg_cong [where f = length])
  also have "\<dots> \<le> 11 * length (tried_from lvl hist first False ?way)"
  proof (rule length_plan)
    have "set (tried_from lvl hist first False ?way) \<subseteq> set ?way"
      by (cases ?way) (auto simp: tried_from_def)
    then have "p \<in> snd ` set (presets r)" if "p \<in> set (tried_from lvl hist first False ?way)" for p
      using that walk_in_map unfolding walk_fallback_chain_def by blast
    then show "list_all (\<lambda>p. max_retries_in_range (ps_retries p)) (tried_from lvl hist first False ?way)"
      using assms(2) by (fastforce simp: list_all_iff)
  qed
  also have "\<dots> \<le> 11 * length ?way"
    by (cases ?way) (auto simp: tried_from_def)
  finally show ?thesis using w by (simp add: Let_def call_events [OF Some] c)
qed

section \<open>Streams\<close>

text \<open>A hint as \<open>LlmDeltaMeta\<close> allows it.\<close>

fun meta_ok :: "nat \<Rightarrow> 'd yielded \<Rightarrow> bool" where
  "meta_ok m (Hint j most w c) \<longleftrightarrow> 1 \<le> j \<and> j \<le> most \<and> most = m + 1 \<and> 0 \<le> w \<and> w \<le> 10 \<and> c \<in> set RETRIABLE_LLM_CODES"
| "meta_ok m (Delta d) \<longleftrightarrow> False"

text \<open>How the \<open>k\<close>-th of \<open>m + 1\<close> tries shows when it is the last: its deltas, and how it ends.\<close>

definition ends_as :: "nat \<Rightarrow> nat \<Rightarrow> 'd opened \<Rightarrow> 'd list \<Rightarrow> llm_error option \<Rightarrow> bool" where
  "ends_as m k opened ds err = (case opened of
     Inl e \<Rightarrow> ds = [] \<and> err = Some (Other e)
   | Inr (ds', None) \<Rightarrow> ds = ds' \<and> err = None
   | Inr (ds', Some e) \<Rightarrow> ds = ds' \<and>
       (if ds = [] then \<exists>h. err = Some (LlmUpstream h (snd e)) \<and> (k = m \<or> rh_code h \<notin> set RETRIABLE_LLM_CODES)
        else \<exists>c. err = Some (StreamInterrupted (snd e) (length ds) c)))"

definition deltas_of :: "'d opened \<Rightarrow> 'd list" where
  "deltas_of opened = (case opened of Inl e \<Rightarrow> [] | Inr (ds, e) \<Rightarrow> ds)"

lemma last_try:
  assumes "setup_retry us opens a p m (i # is) r = (ys, err, r')" "i \<le> m"
    and "i < m \<Longrightarrow> \<not> (\<exists>e. opens i = Inr ([], Some e) \<and> rh_code (safe_classify us (Some a) e) \<in> set RETRIABLE_LLM_CODES)"
  shows "ys = map Delta (deltas_of (opens i)) \<and> ends_as m i (opens i) (deltas_of (opens i)) err"
  using assms
  by (auto simp: ends_as_def deltas_of_def Let_def split: sum.splits prod.splits option.splits list.splits if_splits)

lemma setup_retry_shape:
  assumes "draws us"
  shows "i \<le> m \<Longrightarrow> setup_retry us opens a p m [i..<Suc m] r = (ys, err, r') \<Longrightarrow>
    \<exists>hs ds. ys = hs @ map Delta ds \<and> i + length hs \<le> m \<and> list_all (meta_ok m) hs \<and>
      ends_as m (i + length hs) (opens (i + length hs)) ds err"
proof (induction "m - i" arbitrary: i r ys)
  case less: 0
  then have u: "[i..<Suc m] = [i]" "i = m" by simp_all
  from last_try [OF less.prems(2) [unfolded u(1)] less.prems(1)] u(2) show ?case
    by (intro exI [of _ "[]"] exI [of _ "deltas_of (opens i)"]) simp
next
  case (Suc n)
  then have "i < m" by simp
  then have u: "[i..<Suc m] = i # [Suc i..<Suc m]" by (simp add: upt_conv_Cons)
  show ?case
  proof (cases "\<exists>e. opens i = Inr ([], Some e) \<and> rh_code (safe_classify us (Some a) e) \<in> set RETRIABLE_LLM_CODES")
    case True
    then obtain e where e: "opens i = Inr ([], Some e)" "rh_code (safe_classify us (Some a) e) \<in> set RETRIABLE_LLM_CODES"
      by blast
    let ?h = "safe_classify us (Some a) e"
    obtain ys' q where rest: "setup_retry us opens a p m [Suc i..<Suc m] q = (ys', err, r')"
      and ys: "ys = Hint (i + 1) (m + 1) (backoff (us_random us i) i (rh_retry_after ?h)) (rh_code ?h) # ys'"
      using Suc.prems(2) \<open>i < m\<close> e unfolding u by (auto simp: Let_def simp del: upt_Suc split: prod.splits)
    obtain hs ds where IH: "ys' = hs @ map Delta ds" "Suc i + length hs \<le> m" "list_all (meta_ok m) hs"
        "ends_as m (Suc i + length hs) (opens (Suc i + length hs)) ds err"
    proof -
      have n: "n = m - Suc i" "Suc i \<le> m" using Suc.hyps(2) \<open>i < m\<close> by simp_all
      show thesis using that Suc.hyps(1) [OF n rest] by blast
    qed
    have "meta_ok m (Hint (i + 1) (m + 1) (backoff (us_random us i) i (rh_retry_after ?h)) (rh_code ?h))"
      using assms e(2) \<open>i < m\<close> backoff_bounds by (simp add: draws_def)
    with IH show ?thesis
      by (intro exI [of _ "Hint (i + 1) (m + 1) (backoff (us_random us i) i (rh_retry_after ?h)) (rh_code ?h) # hs"] exI [of _ ds])
        (simp add: ys)
  next
    case False
    with last_try [OF Suc.prems(2) [unfolded u] Suc.prems(1)] Suc.prems(1) show ?thesis
      by (intro exI [of _ "[]"] exI [of _ "deltas_of (opens i)"]) simp
  qed
qed


section \<open>A small deployment\<close>

text \<open>A provider that fails its first request, and during the wait after it an administrator rotates the key.\<close>

definition keyed_preset :: "string \<Rightarrow> string option \<Rightarrow> preset" where
  "keyed_preset k f = (ex_preset ''a'' f)\<lparr>ps_key := Some k\<rparr>"

definition flaky :: "string \<Rightarrow> preset_map \<Rightarrow> (string, unit) upstream" where
  "flaky rc later = \<lparr>us_environ = (\<lambda>v. None),
     us_request = (\<lambda>n a c. if n = 0 then Inl (''RateLimitError'', ''slow down'') else Inr (ad_key a)),
     us_classify = (\<lambda>a e. Some \<lparr>rh_code = rc, rh_retry_after = Some 60, rh_class = fst e\<rparr>), us_random = (\<lambda>n. 1 / 2),
     us_during = (\<lambda>n r. r), us_asleep = (\<lambda>n r. r\<lparr>presets := later, adapters := []\<rparr>)\<rparr>"

definition llm_demo :: "unit router" where
  "llm_demo = demo_router\<lparr>presets := [(''a'', keyed_preset ''old'' (Some ''b'')), (''b'', ex_preset ''b'' None)]\<rparr>"

lemma flaky_draws: "draws (flaky rc later)"
  by (simp add: draws_def flaky_def)

lemma waits_and_tries_bounded_witness:
  "let evs = fst (snd (call_with_fallback (flaky ''upstream_timeout'' []) no_args ''a'' None False llm_demo))
   in short_waits evs \<and> length (tried evs) \<le> 11 * length (walk_fallback_chain (presets llm_demo) ''a'')"
  by (rule waits_and_tries_bounded [OF flaky_draws])
    (simp add: llm_demo_def keyed_preset_def ex_preset_def max_retries_in_range_def MAX_RETRIES_MAX_def)

lemma ungated_chain_ignores_level_witness:
  "call_with_fallback (flaky ''upstream_timeout'' []) no_args ''a'' None False llm_demo =
   call_with_fallback (flaky ''upstream_timeout'' []) no_args ''a'' (Some ''tier1'') False llm_demo"
proof (rule ungated_chain_ignores_level)
  show "\<not> chain_needs_tier (presets llm_demo) ''a''" by code_simp
qed

definition two_streams :: "nat \<Rightarrow> string opened" where
  "two_streams n = (if n = 0 then Inr ([], Some (''TimeoutError'', ''late'')) else Inr ([''x'', ''y''], Some (''Reset'', ''gone'')))"

definition plain_adapter :: adapter where
  "plain_adapter = \<lparr>ad_provider = ''openai'', ad_model = ''m'', ad_key = ''k'', ad_base_url = None\<rparr>"


text \<open>
  A call that waits for its next try holds the preset it started with.  When an administrator rotates
  the key during that wait, the adapters are dropped, the call builds one with the old key, and files
  it under the marker of the preset's name: every later call uses the old key, although the presets
  in memory have the new one.
\<close>

lemma old_key_outlives_rotation:
  "let later = [(''a'', keyed_preset ''new'' None)];
       us = flaky ''upstream_rate_limited'' later;
       (res, evs, r1) = call_with_fallback us no_args ''a'' None False llm_demo
   in map_option ps_key (map_of (presets r1) ''a'') = Some (Some ''new'') \<and>
      map_sum id (\<lambda>(c, a). ad_key a) (fst (resolve_one us (keyed_preset ''new'' None) no_args r1)) = Inr ''old''"
  by code_simp

text \<open>A failure that cannot pass is tried again like any other, although the protocol says that it is final.\<close>

lemma final_failure_retried:
  "''upstream_auth_failed'' \<notin> set RETRIABLE_LLM_CODES \<and>
   map snd (tried (fst (snd (call_with_fallback (flaky ''upstream_auth_failed'' []) no_args ''a'' None False llm_demo)))) =
     [Some (''RateLimitError'', ''slow down''), None]"
  by code_simp

end
