(* ===== verification/LlmRunProps.thy ===== *)
theory LlmRunProps
  imports LlmRun LlmProps
begin

text \<open>
  What an agent gets for an LLM request: one result after hints and deltas, presets no higher than the
  level of the user it works for, and files of that user's session only.
\<close>

section \<open>Frames\<close>

text \<open>A frame that the wire format admits, with a bounded text and a flag that agrees with the code.\<close>

fun frame_valid :: "llm_frame \<Rightarrow> bool" where
  "frame_valid (HintF j m w c) \<longleftrightarrow> 1 \<le> j \<and> j \<le> m \<and> 0 \<le> w \<and> c \<in> set RETRIABLE_LLM_CODES"
| "frame_valid (DeltaF d) \<longleftrightarrow> True"
| "frame_valid (LlmResultF x) \<longleftrightarrow> mk_result x = Inr x \<and>
     (case rs_error x of None \<Rightarrow> True
      | Some e \<Rightarrow> length (ep_message e) \<le> SCRUB_MAX_LEN \<and> ep_retriable e = (ep_code e \<in> set RETRIABLE_LLM_CODES))"

lemma scrub_length: "length (scrub_upstream_message s) \<le> SCRUB_MAX_LEN"
  by (simp add: scrub_upstream_message_def SCRUB_MAX_LEN_def Let_def)

lemma mk_result_empty [simp]: "mk_result (empty_result\<lparr>rs_error := e\<rparr>) = Inr (empty_result\<lparr>rs_error := e\<rparr>)"
  by (simp add: mk_result_def empty_result_def LLM_MAX_TOOL_CALLS_def LLM_MAX_REASONING_BLOCKS_def LLM_MAX_VECTORS_def)

definition error_of :: "llm_frame \<Rightarrow> string option" where
  "error_of f = (case f of LlmResultF x \<Rightarrow> map_option ep_code (rs_error x) | _ \<Rightarrow> None)"

text \<open>A valid result, as a frame.\<close>

definition is_answer :: "llm_frame \<Rightarrow> bool" where
  "is_answer f \<longleftrightarrow> (\<exists>x. f = LlmResultF x) \<and> frame_valid f"

lemma err_answer [simp]: "is_answer (err_result m c w k)" "error_of (err_result m c w k) = Some c"
  by (simp_all add: err_result_def is_answer_def scrub_length error_of_def)

lemma internal_answer [simp]: "is_answer internal_error" "error_of internal_error = Some ''internal_error''"
  by (simp_all add: internal_error_def)

lemma error_answer [simp]: "is_answer (llm_error_frame e)"
  by (cases e) simp_all

lemma attach_answer [simp]: "is_answer (attach_error_frame e)"
  by (cases e) simp_all

lemma mk_result_Inr: "mk_result x = Inr y \<longleftrightarrow> y = x \<and> length (rs_calls x) \<le> LLM_MAX_TOOL_CALLS \<and>
    length (rs_blocks x) \<le> LLM_MAX_REASONING_BLOCKS \<and> length (rs_vectors x) \<le> LLM_MAX_VECTORS"
  by (auto simp: mk_result_def)

lemma made_answer: "mk_result x = Inr y \<Longrightarrow> rs_error x = None \<Longrightarrow> is_answer (LlmResultF y)"
  by (simp add: is_answer_def mk_result_Inr)

lemma answer_frame_answers: "(\<And>y. x = Inr y \<Longrightarrow> rs_error y = None) \<Longrightarrow> is_answer (answer_frame x)"
  by (auto simp: answer_frame_def made_answer split: sum.split)

lemma no_error [simp]:
  "rs_error (response_result x) = None" "rs_error (sum_result s) = None" "rs_error (empty_result\<lparr>rs_vectors := vs\<rparr>) = None"
  "rs_error (empty_result\<lparr>rs_tokens := n\<rparr>) = None"
  by (simp_all add: response_result_def sum_result_def empty_result_def)

text \<open>Hints, then deltas, then one answer; an error after a delta has one of two codes.\<close>

definition well_answered :: "llm_frame list \<Rightarrow> bool" where
  "well_answered fs \<longleftrightarrow> (\<exists>hs ds f. fs = map (\<lambda>(j, m, w, c). HintF j m w c) hs @ map DeltaF ds @ [f] \<and>
     list_all frame_valid fs \<and> is_answer f \<and>
     (ds = [] \<or> error_of f \<in> {None, Some ''stream_interrupted'', Some ''internal_error''}))"

lemma one_answer: "is_answer f \<Longrightarrow> well_answered [f]"
  unfolding well_answered_def
  by (intro exI [of _ "[]"] exI [of _ f]) (simp add: is_answer_def)

lemma hint_frames:
  "list_all (meta_ok m) hs \<Longrightarrow> \<exists>ts. map yielded_frame hs = map (\<lambda>(j, m, w, c). HintF j m w c) ts \<and>
     list_all frame_valid (map yielded_frame hs)"
proof (induction hs)
  case (Cons h hs)
  then obtain ts where ts: "map yielded_frame hs = map (\<lambda>(j, m, w, c). HintF j m w c) ts"
    and v: "list_all frame_valid (map yielded_frame hs)" by auto
  obtain j k w c where h: "h = Hint j k w c" using Cons.prems by (cases h) auto
  show ?case using Cons.prems ts v by (intro exI [of _ "(j, k, w, c) # ts"]) (simp add: h)
qed simp

lemma answered_stream:
  assumes "ys = hs @ map Delta ds" "list_all (meta_ok m) hs" "is_answer f"
    and "ds = [] \<or> error_of f \<in> {None, Some ''stream_interrupted'', Some ''internal_error''}"
  shows "well_answered (map yielded_frame ys @ [f])"
proof -
  obtain ts where ts: "map yielded_frame hs = map (\<lambda>(j, m, w, c). HintF j m w c) ts"
    and v: "list_all frame_valid (map yielded_frame hs)" using hint_frames [OF assms(2)] by blast
  have "map yielded_frame ys = map yielded_frame hs @ map DeltaF (map wire_delta ds)" by (simp add: assms(1))
  moreover have "list_all frame_valid (map DeltaF (map wire_delta ds))" by (simp add: list_all_iff)
  moreover have "frame_valid f" using assms(3) by (simp add: is_answer_def)
  ultimately show ?thesis using ts v assms(3,4) unfolding well_answered_def
    by (intro exI [of _ ts] exI [of _ "map wire_delta ds"] exI [of _ f]) simp
qed

lemma ends_as_error:
  "ends_as m k opened ds err \<Longrightarrow> ds = [] \<or> err = None \<or> (\<exists>s n c. err = Some (StreamInterrupted s n c))"
  unfolding ends_as_def by (cases opened) (auto split: option.splits if_splits)

lemma stream_call_shape:
  assumes "draws us" "stream_call us opens name lvl ca r = (ys, err, r')"
  obtains hs ds m where "ys = hs @ map Delta ds" "list_all (meta_ok m) hs"
    "ds = [] \<or> err = None \<or> (\<exists>s n k. err = Some (StreamInterrupted s n k))"
proof (cases "resolve_first us name lvl ca r")
  case (Pair z r1)
  show ?thesis
  proof (cases z)
    case (Inl e)
    then show ?thesis using that [of "[]" "[]"] assms(2) Pair by (simp add: stream_call_def)
  next
    case (Inr y)
    then obtain c a p where y: "z = Inr (c, a, p)" by (metis prod_cases3)
    let ?m = "nat (max 0 (ps_retries p))"
    have g: "setup_retry us (opens c a) a p ?m [0..<Suc ?m] r1 = (ys, err, r')"
      using assms(2) Pair by (simp add: stream_call_def y generate_stream_def Let_def del: upt_Suc)
    from setup_retry_shape [OF assms(1) _ g] obtain hs ds where
      "ys = hs @ map Delta ds" "list_all (meta_ok ?m) hs" "ends_as ?m (length hs) (opens c a (length hs)) ds err"
      by auto
    then show ?thesis using that [of hs ds ?m] ends_as_error by blast
  qed
qed

lemma run_stream_answered:
  assumes "\<And>ms ts c. draws (pv_generate pv ms ts c)"
  shows "well_answered (fst (run_stream pv q lvl ms tools r))"
proof -
  let ?us = "pv_generate pv ms tools (lq_tool_choice q)"
  obtain ys err r1 where s: "stream_call ?us (pv_opens pv ms tools (lq_tool_choice q)) (requested_preset q) lvl (lq_args q) r
    = (ys, err, r1)" by (metis prod_cases3)
  obtain hs ds m where sh: "ys = hs @ map Delta ds" "list_all (meta_ok m) hs"
    "ds = [] \<or> err = None \<or> (\<exists>s n k. err = Some (StreamInterrupted s n k))"
    by (rule stream_call_shape [OF assms s])
  show ?thesis
  proof (cases err)
    case (Some e)
    have "well_answered (map yielded_frame ys @ [llm_error_frame e])"
      by (rule answered_stream [OF sh(1,2)]) (use sh(3) Some in auto)
    then show ?thesis using s Some by (simp add: run_stream_def Let_def)
  next
    case None
    let ?x = "mk_result (sum_result (fold add_yielded ys no_sum))"
    let ?f = "case ?x of Inl e \<Rightarrow> internal_error | Inr z \<Rightarrow> LlmResultF z"
    have "is_answer ?f" by (auto simp: made_answer split: sum.split)
    moreover have "error_of ?f \<in> {None, Some ''internal_error''}"
      by (auto simp: error_of_def mk_result_Inr internal_error_def err_result_def split: sum.split)
    ultimately have "well_answered (map yielded_frame ys @ [?f])" by (intro answered_stream [OF sh(1,2)]) auto
    then show ?thesis using s None by (simp add: run_stream_def Let_def)
  qed
qed

section \<open>One answer\<close>

lemma run_kind_answered:
  assumes "\<And>ms ts c. draws (pv_generate pv ms ts c)"
  shows "well_answered (fst (run_kind pv q lvl msgs r)) \<and>
    (length (fst (run_kind pv q lvl msgs r)) = 1 \<or> lq_kind q = Generate \<and> lq_stream q)"
proof -
  have one: "is_answer (answer_frame (map_sum id h x))" if "\<And>y. rs_error (h y) = None" for h x
    by (rule answer_frame_answers) (use that in \<open>cases x; auto\<close>)
  have internal: "well_answered [internal_error]" by (rule one_answer) simp
  show ?thesis
  proof (cases "lq_kind q")
    case Embed
    then show ?thesis by (auto simp: run_kind_def Let_def one one_answer split: prod.split)
  next
    case CountTokens
    then show ?thesis
      by (auto simp: run_kind_def Let_def internal split: sum.split prod.split intro!: one_answer one)
  next
    case Generate
    then show ?thesis
      by (auto simp: run_kind_def Let_def internal run_stream_answered [OF assms] split: sum.split prod.split
          intro!: one_answer one)
  qed
qed

text \<open>
  Property C28.  An agent gets exactly one result for a request, as the last frame.  Before it only a stream sends
  anything: hints about tries that failed, then deltas.  Every frame is one that the wire format
  admits, the text of an error has at most 256 characters, its flag says whether its code is one to
  try again, and an error after a delta says that the stream was interrupted or that the router failed.
\<close>

theorem request_gets_one_result:
  assumes "\<And>ms ts c. draws (pv_generate pv ms ts c)"
  shows "well_answered (fst (run_llm_call en ats lims pv agent q r)) \<and>
    (length (fst (run_llm_call en ats lims pv agent q r)) = 1 \<or> lq_kind q = Generate \<and> lq_stream q)"
proof (cases "gate_level en agent q r")
  case (Pair z r1)
  show ?thesis
  proof (cases z)
    case (Inl f)
    then have "is_answer f"
      using Pair by (auto simp: gate_level_def Let_def split: if_splits option.splits prod.splits)
    then show ?thesis using Pair Inl by (simp add: run_llm_call_def one_answer)
  next
    case (Inr lvl)
    obtain x r2 where x: "resolve_request_file_refs ats lims (lq_messages q) agent (lq_task q) (re_wait en 2 r1) = (x, r2)"
      by fastforce
    show ?thesis
    proof (cases x)
      case (Inl e)
      then show ?thesis using Pair Inr x by (simp add: run_llm_call_def one_answer)
    next
      case (Inr msgs)
      then show ?thesis using run_kind_answered [OF assms, of q lvl msgs r2] Pair \<open>z = Inr lvl\<close> x
        by (simp add: run_llm_call_def)
    qed
  qed
qed

section \<open>Whose level\<close>

lemma asked_tried: "asked evs = map fst (tried evs)"
  by (induction evs rule: tried.induct) (simp_all add: asked_def map_filter_simps)

lemma level_None: "user_level_satisfies None g \<longleftrightarrow> g = ''*''"
  by (auto simp: user_level_satisfies_def level_satisfies_tier_def tier_index_def split: option.split)

lemma asked_allowed:
  "list_all (\<lambda>p. user_level_satisfies lvl (ps_level p)) (asked (fst (snd (call_with_fallback us ca name lvl hist r))))"
  using fallback_respects_level [where lvl = lvl and us = us and ca = ca and name = name and hist = hist and r = r] by (simp add: asked_tried list_all_iff)

lemma stream_allowed:
  "resolve_first us name lvl ca r = (Inr (c, a, p), r1) \<Longrightarrow> user_level_satisfies lvl (ps_level p)"
  by (auto simp: resolve_first_def split: option.splits if_splits sum.splits prod.splits)

lemma run_stream_asked:
  "fst (snd (run_stream pv q lvl ms ts r)) =
   (case fst (resolve_first (pv_generate pv ms ts (lq_tool_choice q)) (requested_preset q) lvl (lq_args q) r) of
      Inl e \<Rightarrow> [] | Inr (c, a, p) \<Rightarrow> [p])"
  by (simp add: run_stream_def Let_def split: prod.split option.split)

lemma run_stream_allowed: "list_all (\<lambda>p. user_level_satisfies lvl (ps_level p)) (fst (snd (run_stream pv q lvl ms ts r)))"
  unfolding run_stream_asked
  by (cases "resolve_first (pv_generate pv ms ts (lq_tool_choice q)) (requested_preset q) lvl (lq_args q) r")
    (auto dest: stream_allowed split: sum.split)

lemma run_kind_allowed:
  "list_all (\<lambda>p. user_level_satisfies lvl (ps_level p)) (fst (snd (run_kind pv q lvl msgs r)))"
proof -
  have "list_all (\<lambda>p. user_level_satisfies lvl (ps_level p)) (asked evs)"
    if "call_with_fallback us ca name lvl hist s = (x, evs, r1)" for evs us ca name hist s x r1
    using asked_allowed [of lvl us ca name hist s] by (simp add: that)
  note called = this
  show ?thesis
  proof (cases "lq_kind q")
    case Embed
    then show ?thesis by (auto simp: run_kind_def embed_def Let_def apfst_def called map_prod_def split: prod.splits)
  next
    case CountTokens
    then show ?thesis by (auto simp: run_kind_def Let_def called split: sum.split prod.split)
  next
    case Generate
    then show ?thesis
      by (auto simp: run_kind_def Let_def generate_def called run_stream_allowed split: sum.split prod.split)
  qed
qed

text \<open>
  What an agent may use: the level of the user whose task it executes, when that task is the one the
  request names.
\<close>

definition level_on_record :: "'r run_env \<Rightarrow> agent_id \<Rightarrow> task_id option \<Rightarrow> 'r router \<Rightarrow> level option" where
  "level_on_record en agent tid r =
     (case tid of
        None \<Rightarrow> None
      | Some t \<Rightarrow>
          (case derive_task_file_scope t agent (rdb (re_wait en 0 r)) of
             None \<Rightarrow> None
           | Some (uid, sid) \<Rightarrow> fst (resolve_user_level uid (re_now en) (re_wait en 1 (re_wait en 0 r)))))"

lemma executor_level_record: "fst (executor_level en t agent r) = level_on_record en agent (Some t) r"
  by (simp add: executor_level_def level_on_record_def Let_def split: option.split prod.split)

lemma gate_level_record:
  "gate_level en agent q r = (Inr lvl, r1) \<Longrightarrow> lvl = None \<or> lvl = level_on_record en agent (lq_task q) r"
  using executor_level_record [of en _ agent r]
  by (auto simp: gate_level_def Let_def split: if_splits option.splits prod.splits) (metis fst_conv)+

lemma level_on_record_real:
  "level_on_record en agent tid r = Some lvl \<Longrightarrow>
   \<exists>t row u. tid = Some t \<and> find_task (rdb (re_wait en 0 r)) t = Some row \<and> t_active row = agent \<and>
     (let r1 = re_wait en 1 (re_wait en 0 r)
      in (\<exists>e. lru_peek (level_cache r1) (t_user row) = Some (lvl, e) \<and> re_now en < e) \<or>
         (get_user_by_id (t_user row) (rdb r1) = Some u \<and> user_is_active (Some u) \<and> lvl = u_level u))"
  by (auto simp: level_on_record_def derive_task_file_scope_def resolve_user_level_def peek_user_level_cached_def
      user_is_active_def Let_def split: option.splits if_splits)

text \<open>
  Property C37.  Every preset a request reaches, through whatever chain and as a stream or not, is open to everyone or
  to the level of one user: the user of the task that the request names and whose executor the agent
  is, as the row of that user says now or said within the life of the cache entry.  The user that the
  agent names has no influence.
\<close>

theorem calls_run_at_owner_level:
  "list_all (\<lambda>p. ps_level p = ''*'' \<or>
      (\<exists>lvl t row. user_level_satisfies (Some lvl) (ps_level p) \<and> lq_task q = Some t \<and>
         find_task (rdb (re_wait en 0 r)) t = Some row \<and> t_active row = agent \<and>
         (let r1 = re_wait en 1 (re_wait en 0 r)
          in (\<exists>e. lru_peek (level_cache r1) (t_user row) = Some (lvl, e) \<and> re_now en < e) \<or>
             (\<exists>u. get_user_by_id (t_user row) (rdb r1) = Some u \<and> user_is_active (Some u) \<and> lvl = u_level u))))
    (fst (snd (run_llm_call en ats lims pv agent q r)))"
proof (cases "gate_level en agent q r")
  case (Pair z r1)
  show ?thesis
  proof (cases "\<exists>lvl msgs r2. z = Inr lvl \<and>
      resolve_request_file_refs ats lims (lq_messages q) agent (lq_task q) (re_wait en 2 r1) = (Inr msgs, r2)")
    case True
    then obtain lvl msgs r2 where l: "z = Inr lvl"
      and x: "resolve_request_file_refs ats lims (lq_messages q) agent (lq_task q) (re_wait en 2 r1) = (Inr msgs, r2)"
      by blast
    have run: "run_llm_call en ats lims pv agent q r = run_kind pv q lvl msgs r2"
      using Pair l x by (simp add: run_llm_call_def)
    show ?thesis
    proof (cases lvl)
      case None
      then show ?thesis using run_kind_allowed [of None pv q msgs r2] by (simp add: run level_None list_all_iff)
    next
      case (Some k)
      then have "level_on_record en agent (lq_task q) r = Some k" using gate_level_record Pair l by fastforce
      from level_on_record_real [OF this] show ?thesis
        using run_kind_allowed [of lvl pv q msgs r2] Some unfolding run list_all_iff Let_def by blast
    qed
  next
    case False
    then show ?thesis using Pair by (auto simp: run_llm_call_def split: sum.splits prod.splits)
  qed
qed

section \<open>Whose files\<close>

text \<open>What a session shows of a store: the names of its user in its two scopes, and the blobs of its user.\<close>

definition session_files :: "user_id \<Rightarrow> session_id \<Rightarrow> db \<Rightarrow> name_row list \<times> file_row list" where
  "session_files uid sid d =
     (filter (\<lambda>n. n_user n = uid \<and> n_scope n \<in> {scope_for True sid, scope_for False sid}) (names d),
      filter (\<lambda>f. f_user f = uid) (files d))"

text \<open>The task of a request gives the agent the same session in both stores, which show the same of it.\<close>

definition same_view :: "agent_id \<Rightarrow> task_id option \<Rightarrow> db \<Rightarrow> db \<Rightarrow> bool" where
  "same_view agent tid d d' =
     (case tid of
        None \<Rightarrow> True
      | Some t \<Rightarrow> derive_task_file_scope t agent d = derive_task_file_scope t agent d' \<and>
          (case derive_task_file_scope t agent d of
             None \<Rightarrow> True
           | Some (uid, sid) \<Rightarrow> session_files uid sid d = session_files uid sid d'))"

lemma find_filter: "(\<And>x. P x \<Longrightarrow> Q x) \<Longrightarrow> find P (filter Q xs) = find P xs"
  by (induction xs) auto

lemma resolve_file_name_view:
  "resolve_file_name uid (scope_for p sid) fn d = find (is_name uid (scope_for p sid) fn) (fst (session_files uid sid d))"
  unfolding resolve_file_name_def session_files_def fst_conv
  by (rule find_filter [symmetric]) (cases p; simp add: is_name_def)

lemma get_file_view: "get_file uid fid d = find (\<lambda>f. f_id f = fid \<and> f_user f = uid) (snd (session_files uid sid d))"
  unfolding get_file_def session_files_def snd_conv by (rule find_filter [symmetric]) simp

lemma resolve_ref_view:
  assumes "session_files uid sid d = session_files uid sid d'"
  shows "resolve_ref ats lims uid sid fr d = resolve_ref ats lims uid sid fr d'"
  unfolding resolve_ref_def resolve_file_name_view get_file_view [where sid = sid] assms ..

lemma resolve_refs_view:
  assumes "at_others ats = (\<lambda>k r. r)" "session_files uid sid (rdb r) = session_files uid sid (rdb r')"
  shows "fst (resolve_refs ats lims uid sid k refs ms r) = fst (resolve_refs ats lims uid sid k refs ms r')"
proof (induction refs arbitrary: k ms)
  case (Cons x refs)
  obtain i j fr where x: "x = (i, j, fr)" by (metis prod_cases3)
  show ?case using Cons.IH resolve_ref_view [OF assms(2), of ats lims fr]
    by (simp add: x assms(1) Let_def split: sum.split)
qed simp


section \<open>How much is inlined\<close>

lemma read_blob_bound: "read_blob cap buf cs = Some b \<Longrightarrow> int (length b) \<le> max cap (int (length buf))"
  by (induction cap buf cs rule: read_blob.induct) (auto simp: Let_def split: if_splits)

lemma base64_length: "length (base64 s) = 4 * ((length s + 2) div 3)"
proof (induction s rule: base64.induct)
  case (1 a b c s)
  have "(length s + 5) div 3 = (length s + 2) div 3 + 1" by presburger
  then show ?case using 1 by (simp add: Let_def add.commute)
qed (simp_all add: Let_def)

text \<open>A part with the bytes of a file never holds more of them than the cap, an image after it was shrunk.\<close>

definition capped :: "int \<Rightarrow> json \<Rightarrow> bool" where
  "capped cap part \<longleftrightarrow> (\<exists>s. part = text_part s) \<or>
     (\<exists>k mime name bytes. k \<in> {''image'', ''document''} \<and> part = data_part k mime name bytes \<and> int (length bytes) \<le> cap)"

lemma capped_intros [intro]:
  "capped cap (not_inlined n m w)" "capped cap (file_text n b)"
  "int (length b) \<le> cap \<Longrightarrow> capped cap (data_part ''image'' m n b)"
  "int (length b) \<le> cap \<Longrightarrow> capped cap (data_part ''document'' m n b)"
  unfolding capped_def not_inlined_def file_text_def by blast+

lemma inlined_within_cap:
  assumes "inline_blob ats lims fr blob bare = Inr part"
  shows "capped (max 0 (inline_cap lims)) part"
proof -
  have small: "int (length b) \<le> max 0 (inline_cap lims)" if "read_blob (inline_cap lims) [] cs = Some b" for cs b
    using read_blob_bound [OF that] by simp
  show ?thesis using assms small
    by (cases "classify_file (f_mime blob) (json_get fr ''as'')"; cases "at_open ats (f_sha blob)")
      (auto simp: inline_blob_def Let_def split: if_split_asm option.split_asm)
qed

lemma resolve_ref_capped:
  "resolve_ref ats lims uid sid fr d = Inr part \<Longrightarrow> capped (max 0 (inline_cap lims)) part"
  by (auto simp: resolve_ref_def dest: inlined_within_cap split: option.splits json.splits)

section \<open>Every reference is replaced\<close>

definition parts_of :: "json \<Rightarrow> json list" where
  "parts_of m = (case json_get m ''content'' of Some (JArr ps) \<Rightarrow> ps | _ \<Rightarrow> [])"

definition ref_of :: "json \<Rightarrow> json option" where
  "ref_of part = (case json_get part ''file_ref'' of Some (JObj kvs) \<Rightarrow> Some (JObj kvs) | _ \<Rightarrow> None)"

definition part_at :: "nat \<Rightarrow> nat \<Rightarrow> json list \<Rightarrow> json option" where
  "part_at i j ms = (if i < length ms \<and> j < length (parts_of (ms ! i)) then Some (parts_of (ms ! i) ! j) else None)"

lemma in_map_filter: "x \<in> set (List.map_filter f xs) \<longleftrightarrow> (\<exists>y\<in>set xs. f y = Some x)"
  by (induction xs) (auto simp: map_filter_simps split: option.splits)

lemma part_refs_alt:
  "part_refs i m = List.map_filter (\<lambda>(j, part). map_option (\<lambda>fr. (i, j, fr)) (ref_of part)) (enumerate 0 (parts_of m))"
proof -
  have "(case json_get part ''file_ref'' of Some (JObj kvs) \<Rightarrow> Some (i, j, JObj kvs) | _ \<Rightarrow> None) =
      map_option (\<lambda>fr. (i, j, fr)) (ref_of part)" for j part
    by (auto simp: ref_of_def split: option.split json.split)
  note parts = this
  show ?thesis unfolding part_refs_def parts_of_def parts
    by (simp add: map_filter_simps split: option.split json.split)
qed

lemma part_refs_iff:
  "(a, j, fr) \<in> set (part_refs i m) \<longleftrightarrow> a = i \<and> j < length (parts_of m) \<and> ref_of (parts_of m ! j) = Some fr"
proof
  assume "(a, j, fr) \<in> set (part_refs i m)"
  then show "a = i \<and> j < length (parts_of m) \<and> ref_of (parts_of m ! j) = Some fr"
    by (auto simp: part_refs_alt in_map_filter in_set_enumerate_eq)
next
  assume "a = i \<and> j < length (parts_of m) \<and> ref_of (parts_of m ! j) = Some fr"
  then show "(a, j, fr) \<in> set (part_refs i m)"
    unfolding part_refs_alt in_map_filter
    by (intro bexI [of _ "(j, parts_of m ! j)"]) (simp_all add: in_set_enumerate_eq)
qed

lemma in_collect:
  "(i, j, fr) \<in> set (collect_file_refs ms) \<longleftrightarrow> (\<exists>p. part_at i j ms = Some p \<and> ref_of p = Some fr)"
  unfolding collect_file_refs_def part_at_def
  by (auto simp: in_set_enumerate_eq part_refs_iff)

lemma parts_of_set_content: "parts_of (set_content j part m) = (parts_of m)[j := part]"
  by (cases m) (auto simp: set_content_def parts_of_def map_of_dict_set split: option.split json.split)

lemma part_at_set_part:
  "part_at a b (set_part i j part ms) =
   (if (a, b) = (i, j) \<and> part_at a b ms \<noteq> None then Some part else part_at a b ms)"
proof (cases "i < length ms \<and> a = i")
  case True
  then show ?thesis by (auto simp: part_at_def set_part_def parts_of_set_content nth_list_update)
next
  case False
  then show ?thesis by (cases "i < length ms") (auto simp: part_at_def set_part_def)
qed

lemma capped_no_ref: "capped cap part \<Longrightarrow> ref_of part = None"
  by (auto simp: capped_def ref_of_def text_part_def data_part_def)

lemma resolve_refs_keep_capped:
  "resolve_refs ats lims uid sid k refs ms r = (Inr ms', r') \<Longrightarrow>
   part_at i j ms = Some p \<Longrightarrow> capped (max 0 (inline_cap lims)) p \<or> (\<exists>fr. (i, j, fr) \<in> set refs) \<Longrightarrow>
   \<exists>p'. part_at i j ms' = Some p' \<and> capped (max 0 (inline_cap lims)) p'"
proof (induction refs arbitrary: k ms r p)
  case (Cons x refs)
  obtain a b fr where x: "x = (a, b, fr)" by (metis prod_cases3)
  obtain part where p: "resolve_ref ats lims uid sid fr (rdb (at_others ats k r)) = Inr part"
    and rest: "resolve_refs ats lims uid sid (Suc k) refs (set_part a b part ms) (at_others ats k r) = (Inr ms', r')"
    using Cons.prems(1) by (auto simp: x Let_def split: sum.splits)
  show ?case
    by (rule Cons.IH [OF rest, of "if (i, j) = (a, b) then part else p"])
      (use Cons.prems resolve_ref_capped [OF p] in \<open>auto simp: x part_at_set_part\<close>)
qed auto

lemma resolve_refs_clear:
  "resolve_refs ats lims uid sid k refs ms r = (Inr ms', r') \<Longrightarrow> set (collect_file_refs ms) \<subseteq> set refs \<Longrightarrow>
   collect_file_refs ms' = [] \<and> length ms' = length ms"
proof (induction refs arbitrary: k ms r)
  case (Cons x refs)
  obtain a b fr where x: "x = (a, b, fr)" by (metis prod_cases3)
  obtain part where p: "resolve_ref ats lims uid sid fr (rdb (at_others ats k r)) = Inr part"
    and rest: "resolve_refs ats lims uid sid (Suc k) refs (set_part a b part ms) (at_others ats k r) = (Inr ms', r')"
    using Cons.prems(1) by (auto simp: x Let_def split: sum.splits)
  have "set (collect_file_refs (set_part a b part ms)) \<subseteq> set refs"
  proof
    fix y assume y: "y \<in> set (collect_file_refs (set_part a b part ms))"
    obtain i j fr' where ij: "y = (i, j, fr')" by (metis prod_cases3)
    have "(i, j) \<noteq> (a, b)"
      using y capped_no_ref [OF resolve_ref_capped [OF p]] by (auto simp: ij in_collect part_at_set_part split: if_splits)
    then have "y \<in> set (collect_file_refs ms)" using y by (auto simp: ij in_collect part_at_set_part split: if_splits)
    then show "y \<in> set refs" using Cons.prems(2) \<open>(i, j) \<noteq> (a, b)\<close> by (auto simp: ij x)
  qed
  from Cons.IH [OF rest this] show ?case by (simp add: set_part_def)
qed auto

text \<open>
  Property C39.  When the files of a request are resolved, no reference is left for a provider: at the place of each
  stands a note, the text of the file, or its bytes within the cap.  There are no more of them than
  the limit, and no message is added or lost.
\<close>

theorem no_file_ref_left:
  "case fst (resolve_request_file_refs ats lims ms agent tid r) of
     Inl e \<Rightarrow> True
   | Inr ms' \<Rightarrow> collect_file_refs ms' = [] \<and> length ms' = length ms \<and>
       length (collect_file_refs ms) \<le> max_file_refs lims \<and>
       list_all (\<lambda>(i, j, fr). case part_at i j ms' of None \<Rightarrow> False | Some p \<Rightarrow> capped (max 0 (inline_cap lims)) p)
         (collect_file_refs ms)"
proof (cases "resolve_request_file_refs ats lims ms agent tid r")
  case (Pair z r1)
  show ?thesis
  proof (cases z)
    case (Inr ms')
    show ?thesis
    proof (cases "collect_file_refs ms = []")
      case False
      then obtain uid sid where run: "resolve_refs ats lims uid sid 0 (collect_file_refs ms) ms r = (Inr ms', r1)"
        and few: "length (collect_file_refs ms) \<le> max_file_refs lims"
        using Pair Inr by (auto simp: resolve_request_file_refs_def Let_def split: if_splits option.splits)
      have "case part_at i j ms' of None \<Rightarrow> False | Some p \<Rightarrow> capped (max 0 (inline_cap lims)) p"
        if "(i, j, fr) \<in> set (collect_file_refs ms)" for i j fr
        using resolve_refs_keep_capped [OF run, of i j] that unfolding in_collect [of i j fr ms] by (auto simp: in_collect)
      then have "list_all (\<lambda>(i, j, fr). case part_at i j ms' of None \<Rightarrow> False | Some p \<Rightarrow> capped (max 0 (inline_cap lims)) p)
         (collect_file_refs ms)" by (auto simp: list_all_iff)
      then show ?thesis using resolve_refs_clear [OF run] few Pair Inr by simp
    qed (use Pair Inr in \<open>simp add: resolve_request_file_refs_def\<close>)
  qed (use Pair in simp)
qed

section \<open>A small deployment\<close>

text \<open>A provider whose requests fail, whose streams give one delta per reasoning block, and nobody else at work.\<close>

definition silent :: "('m, 'r) upstream" where
  "silent = \<lparr>us_environ = (\<lambda>v. None), us_request = (\<lambda>n a c. Inl (''TimeoutError'', ''late'')),
     us_classify = (\<lambda>a e. None), us_random = (\<lambda>n. 1 / 2), us_during = (\<lambda>n r. r), us_asleep = (\<lambda>n r. r)\<rparr>"

definition block_delta :: llm_delta where
  "block_delta = \<lparr>ld_text = None, ld_call = None, ld_finish = None, ld_usage = None, ld_thought = False,
     ld_signature = None, ld_block = Some (JObj [(''type'', JStr ''thinking'')])\<rparr>"

definition thinker :: "nat \<Rightarrow> 'r providers" where
  "thinker n = \<lparr>pv_embed = (\<lambda>ts. silent), pv_count = (\<lambda>ms. silent), pv_generate = (\<lambda>ms ts c. silent),
     pv_opens = (\<lambda>ms ts c p a k. Inr (replicate n block_delta, None))\<rparr>"

definition lonely :: "'r run_env" where
  "lonely = \<lparr>re_outage = False, re_now = 0, re_wait = (\<lambda>n r. r)\<rparr>"

definition no_blobs :: "'r attach_env" where
  "no_blobs = \<lparr>at_open = (\<lambda>s. None), at_size = (\<lambda>s. None), at_thumb = (\<lambda>n s. None), at_others = (\<lambda>k r. r)\<rparr>"

definition small_limits :: llm_limits where
  "small_limits = \<lparr>max_file_refs = 4, inline_cap = 100, image_max_side = 0, image_source_cap = 100\<rparr>"

definition stream_request :: llm_request where
  "stream_request = \<lparr>lq_kind = Generate, lq_model = ''default'', lq_preset = Some ''b'', lq_messages = [], lq_tools = [],
     lq_tool_choice = JNull, lq_args = no_args, lq_stream = True, lq_text = None, lq_user = None, lq_task = None\<rparr>"

lemma thinker_draws: "draws (pv_generate (thinker n) ms ts c)"
  by (simp add: draws_def thinker_def silent_def)

lemma request_gets_one_result_witness:
  "well_answered (fst (run_llm_call lonely no_blobs small_limits (thinker 2) ''c'' stream_request llm_demo)) \<and>
   (length (fst (run_llm_call lonely no_blobs small_limits (thinker 2) ''c'' stream_request llm_demo)) = 1 \<or>
    lq_kind stream_request = Generate \<and> lq_stream stream_request)"
  by (rule request_gets_one_result [OF thinker_draws])

text \<open>
  A stream with more reasoning blocks than the result frame may carry: every delta is delivered, and
  then the agent is told that the router failed, with a code that invites it to try the whole call
  again.
\<close>

lemma long_stream_reported_as_failure:
  "let fs = fst (run_llm_call lonely no_blobs small_limits (thinker 65) ''c'' stream_request llm_demo)
   in take 65 fs = replicate 65 (DeltaF (wire_delta block_delta)) \<and> drop 65 fs = [internal_error] \<and>
      ''internal_error'' \<in> set RETRIABLE_LLM_CODES"
  by code_simp

text \<open>The cost of a call is added up over a stream but is not part of the usage that is sent.\<close>

lemma cost_not_on_wire: "serialize_usage (u\<lparr>tu_cost := c\<rparr>) = serialize_usage u"
  by (simp add: serialize_usage_def)

text \<open>A store with a file of someone else under the very name that the request uses.\<close>

definition foreign_name :: name_row where
  "foreign_name = \<lparr>n_user = ''mallory'', n_scope = ''persist'', n_name = ''a.txt'', n_file = ''f9'', n_size = 3,
     n_created = 0, n_updated = 0\<rparr>"

definition named_message :: json where
  "named_message = JObj [(''role'', JStr ''user''),
     (''content'', JArr [JObj [(''file_ref'', JObj [(''name'', JStr ''persist/a.txt'')])]])]"


end
