(* ===== verification/Spec2Isabelle.thy ===== *)
theory Spec2Isabelle
  imports Runs DispatchProps Gc Grants Takedown RuleProps UrlProps PresetRuns LlmRunProps
begin

text \<open>
  A model of the router of backplaned agents (\<open>bp_router/\<close>) with the parts of
  \<open>bp_protocol/\<close> and \<open>bp_sdk/\<close> it shares data with.

  \<^bold>\<open>The program.\<close>  Agents connect to the router over WebSockets and exchange frames.  A
  \<open>NewTask\<close> frame is validated, authorised by the ACL, charged against a quota, stored in
  PostgreSQL and forwarded to the destination's socket, which acknowledges it; \<open>Result\<close>,
  \<open>Progress\<close> and \<open>Cancel\<close> frames move the task through its state machine and are fanned
  out to the agents concerned.  Sweeps end overdue tasks and those of agents that are gone.
  Agents and HTTP clients keep files in a store of content-addressed blobs with a directory of
  names per user and session; signed tokens carry the right to upload or fetch one file, and
  sweeps reclaim blobs without a name and sessions closed long ago.  Users sign in with a
  password or over OpenID Connect and hold short access tokens and rotating refresh tokens;
  service principals act for the users that let them; admins invite, approve, suspend and
  delete users and agents.  What an agent may see of the others is its catalog, sent when it
  connects and whenever something changes.

  \<^bold>\<open>The model.\<close>  A database is a record of tables (\<open>Tables.db\<close>), a statement of
  \<open>db/queries.py\<close> a function on it (\<open>Queries\<close>).  The state of a router process is the
  record \<open>Router.router\<close>: the database, the socket registry, outboxes, ack futures, caches,
  rate limiter and rules.  A handler is a function on that state.  Handlers that await
  something in the middle (admission, delegation,
  disconnect, file frames, uploads, sweeps) are sequences of steps with an arbitrary change of
  the state between two steps, bounded by a hypothesis where a property
  needs it (\<open>calm\<close>: what runs there keeps the invariant).  Exceptions are values of sum
  types.  Time stamps and rates are rationals, identifiers strings.

  \<^bold>\<open>The theories.\<close>
  \<^item> \<open>Prelude\<close>: dicts as lists of pairs, tables, numbers as text, JSON values.
  \<^item> \<open>Principals\<close> (\<open>principals.py\<close>) and \<open>Acl\<close> (\<open>acl.py\<close>): user levels, rule patterns,
    evaluation, visibility and the rule store.
  \<^item> \<open>Lru\<close> (\<open>lru_cache.py\<close>), \<open>Correlation\<close> (\<open>correlation.py\<close> of router and SDK) and
    \<open>TokenBucket\<close> (\<open>security/rate_limit.py\<close>): the data structures, each with its contract
    as a locale (\<open>bounded_cache\<close>, \<open>pending_map\<close>) interpreted on the code's model.
  \<^item> \<open>Tables\<close> (\<open>db/models.py\<close>), \<open>TaskState\<close> (\<open>state.py\<close>), \<open>Queries\<close> and \<open>QueryFacts\<close>
    (\<open>db/queries.py\<close>), \<open>AuditLog\<close> (the hash chain), \<open>Frames\<close> (\<open>bp_protocol\<close>).
  \<^item> \<open>Router\<close> (\<open>app.py\<close>, \<open>delivery.py\<close>), \<open>Tasks\<close>, \<open>TaskFacts\<close> and \<open>TaskProps\<close>
    (completion, cancellation, failure and sweep of \<open>tasks.py\<close>), \<open>Levels\<close> (the level cache),
    \<open>Admission\<close>, \<open>Delegation\<close>, \<open>AdmissionFacts\<close> and \<open>AdmissionProps\<close> (\<open>admit_task\<close>),
    \<open>Hub\<close> (\<open>ws_hub.py\<close>), \<open>Runs\<close> (sequences of all operations).
  \<^item> \<open>Dispatch\<close> and \<open>DispatchProps\<close> (the task, ack, heartbeat and LLM book-keeping handlers of
    \<open>dispatch.py\<close>).
  \<^item> \<open>FileNames\<close> (\<open>filename_utils.py\<close>, names of \<open>file_store.py\<close>), \<open>FileQueries\<close> and
    \<open>FileFacts\<close> (the file statements, name allocation), \<open>FileOps\<close> and \<open>FileProps\<close> (the file
    frames of \<open>dispatch.py\<close> and the quota), \<open>FileApi\<close> (\<open>api/files.py\<close>, \<open>upload_utils.py\<close>),
    \<open>Gc\<close> (the file and session sweeps of \<open>tasks.py\<close>).
  \<^item> \<open>Tokens\<close> and \<open>Auth\<close> (\<open>security/jwt.py\<close>): PyJWT is a record of two functions, its documented
    behaviour the predicate \<open>pyjwt_ok\<close>.
  \<^item> \<open>Http\<close> (what every endpoint uses: transactions, audit, limits, revocation), \<open>Accounts\<close> (the
    account statements of \<open>db/queries.py\<close>), \<open>AuthApi\<close> (\<open>api/auth.py\<close>), \<open>UserAdmin\<close> and
    \<open>Registrations\<close> (\<open>api/admin.py\<close>, \<open>api/registrations.py\<close>), \<open>Oidc\<close> (\<open>security/oidc.py\<close>) and
    \<open>Sso\<close> (its endpoints).  \<open>AccountFacts\<close> has the locale \<open>db_relation\<close>: a relation between
    databases that composes and that audit respects is respected by an endpoint whose statements
    respect it.  \<open>AccountOps\<close> makes the endpoints the steps of a state machine, \<open>AccountProps\<close>
    and \<open>Grants\<close> state what holds over its runs.
  \<^item> \<open>Agents\<close> (\<open>AgentInfo\<close> of \<open>bp_protocol/types.py\<close>, the agent statements, \<open>visibility.py\<close>,
    \<open>catalog.py\<close>), \<open>Handshake\<close> (\<open>_handshake\<close> of \<open>ws_hub.py\<close>, \<open>AgentInfoUpdate\<close>), \<open>AgentApi\<close>
    (\<open>api/onboard.py\<close>, the agent part of \<open>api/admin.py\<close>), with \<open>CatalogProps\<close>,
    \<open>HandshakeProps\<close> and \<open>Takedown\<close>.
  \<^item> \<open>RuleAdmin\<close> and \<open>RuleProps\<close> (the \<open>acl_rules\<close> statements and \<open>/admin/acl\<close>), \<open>Presets\<close> and
    \<open>PresetProps\<close> (\<open>llm/presets.py\<close>), \<open>PresetAdmin\<close> and \<open>PresetRuns\<close> (the \<open>llm_presets\<close>
    statements, their synchronisation with the catalogue, \<open>/admin/llm/presets\<close>), \<open>Net\<close> (addresses
    as machine words and URLs, as the standard library parses them), \<open>UrlGuard\<close> and \<open>UrlProps\<close>
    (\<open>url_validation.py\<close> and the agents' \<open>common/urlsafe.py\<close>).
  \<^item> \<open>LlmCalls\<close> and \<open>LlmProps\<close> (\<open>llm/service.py\<close>, \<open>llm/retry_classification.py\<close>,
    \<open>security/secrets.py\<close>): a call with its retries, fallbacks, waits and streams, over providers
    that may answer anything while other coroutines change the router.
  \<^item> \<open>Attachments\<close> (\<open>llm/attachments.py\<close>), \<open>LlmRun\<close> and \<open>LlmRunProps\<close> (\<open>_run_llm_call\<close> of
    \<open>dispatch.py\<close>): an LLM request from its frame, through the level it runs at and the files it
    names, to the deltas, the result or the error that goes back.

  \<^bold>\<open>The invariant.\<close>  \<open>TaskFacts.inv\<close>: primary keys and the idempotency constraint hold, the
  task table is a forest, the caller cache agrees with the rows, every Result in an outbox
  carries the status of its row, and the registry is consistent.  \<open>good r r'\<close> says that a
  handler keeps it and lets rows evolve only as the state machine allows; there is one such
  lemma per handler, and the locale \<open>lifecycle\<close> lifts them to runs.

  \<^bold>\<open>Bounds.\<close>  Ancestor and descendant walks take \<open>MAX_TASK_TREE_DEPTH\<close> steps, the bound of the
  recursive queries themselves; properties about whole subtrees assume trees within it.  The
  numbering of colliding names stops after \<open>MAX_DEDUP_ATTEMPTS\<close>, as in the code, which
  \<open>append_finds_room\<close> shows to be enough below that many names.

  \<^bold>\<open>What the properties show.\<close>  Verdicts are final and unique over runs; results, progress,
  cancellations, acks and file operations have an effect only with the authority of the
  task; admission, delegation and name allocation do all they promise or nothing; storage
  stays within its quota and sweeps take only what nobody needs as long as nothing
  interleaves, and the theorems on interleavings show where that ends.  Credentials are single
  use over every run, end with the password change, deletion or purge that should end them, and
  reach a service principal only by a grant; the catalog agrees with admission; connecting takes
  a valid token of an active agent, and suspension disconnects unless it meets a handshake.  The
  rules in memory are the rows after every change, the presets served never fall back in a circle,
  and no URL is fetched or saved whose addresses the guards must refuse.  An LLM request gets one
  result, reaches no preset above the level of the user whose task its agent executes, and sees no
  files but those of that task's session.

  \<^bold>\<open>Not modelled.\<close>  The WebSocket transport and the receive loop,
  the administration of MCP servers and custom agents, session and task listings, provider adapters, storage back ends (the store is the list of the hashes it holds),
  argon2, SHA-256, PyJWT, Redis and the network (parameters), metrics beyond their counters,
  logging, the SDK's agent runtime, the agent suite, the admin pages and the MCP bridge: adapters
  to libraries the model cannot see, or user interfaces.  Doubles are rationals, so rounding is
  not modelled; characters are bytes, so text beyond code point 255 is not either.
\<close>

end
